(* ===== verification/Prelude.thy ===== *)
theory Prelude
  imports Main "HOL-Library.Word" "HOL-Library.AList"
begin

text \<open>
  Prelude of the storage-engine development.  It holds what every component shares:

  \<^item> the return codes of \<^verbatim>\<open>src/src/observer/rc.h\<close> that the modelled code returns
    (\<open>rc\<close>), and the result type of a fallible call;
  \<^item> the memory model: a \<^verbatim>\<open>char *\<close> buffer is a function from byte offsets to bytes, with
    the C idioms the sources use on it (\<^verbatim>\<open>memcpy\<close>, \<^verbatim>\<open>memset\<close>, reading and writing
    an \<^verbatim>\<open>int\<close> through a cast pointer, little-endian as on the targets of the build);
  \<^item> the layout constants of \<^verbatim>\<open>src/src/observer/storage/config.h\<close>;
  \<^item> generic lemmas on words, lists and association lists, and the collections
    \<open>mem_simps\<close> (reads after writes) that the component proofs use.
\<close>

named_theorems mem_simps \<open>reads of a buffer after a write\<close>

section \<open>Return codes\<close>

text \<open>
  The error constants of \<^verbatim>\<open>enum RC\<close>; \<^verbatim>\<open>RC::SUCCESS\<close> is the \<open>Inr\<close> side of a result.
  \<open>UB\<close> is not a constant of the source: it marks the points where the C++ code has
  undefined behaviour (an index outside its array, a null or dangling pointer), so that no
  definition hides one behind an arbitrary value.
\<close>

datatype rc =
    GENERIC_ERROR | INVALID_ARGUMENT | NOMEM | IOERR
  | BUFFERPOOL_FILEERR | BUFFERPOOL_CLOSED | BUFFERPOOL_INVALID_PAGE_NUM
  | BUFFERPOOL_PAGE_PINNED | BUFFERPOOL_OPEN_TOO_MANY_FILES | BUFFERPOOL_ILLEGAL_FILE_ID
  | RECORD_CLOSED | RECORD_OPENNED | RECORD_INVALIDRID | RECORD_NO_MORE_IDX_IN_MEM
  | RECORD_INVALID_KEY | RECORD_DUPLICATE_KEY | RECORD_NOMEM | RECORD_SCANCLOSED
  | RECORD_EOF | RECORD_RECORD_NOT_EXIST
  | SCHEMA_DB_EXIST | SCHEMA_DB_NOT_EXIST | SCHEMA_DB_NOT_OPENED | SCHEMA_TABLE_EXIST
  | SCHEMA_TABLE_NOT_EXIST | SCHEMA_FIELD_NOT_EXIST
  | SCHEMA_FIELD_MISSING | SCHEMA_FIELD_TYPE_MISMATCH | SCHEMA_INDEX_EXIST
  | CONSTRAINT_NOTNULL | INTERNAL | SQL_SYNTAX
  | IOERR_READ | IOERR_WRITE | IOERR_ACCESS | IOERR_CLOSE | IOERR_SEEK
  | LOCKED_UNLOCK
  | UB

type_synonym 'a result = "rc + 'a"

abbreviation SUCCESS :: "unit result" where
  "SUCCESS \<equiv> Inr ()"

section \<open>Byte buffers\<close>

type_synonym byte = "8 word"

type_synonym bytes = "nat \<Rightarrow> byte"

definition memcpy :: "bytes \<Rightarrow> nat \<Rightarrow> bytes \<Rightarrow> nat \<Rightarrow> nat \<Rightarrow> bytes" where
  "memcpy dst d src s n = (\<lambda>i. if d \<le> i \<and> i < d + n then src (s + (i - d)) else dst i)"

definition memset :: "bytes \<Rightarrow> nat \<Rightarrow> byte \<Rightarrow> nat \<Rightarrow> bytes" where
  "memset dst d v n = (\<lambda>i. if d \<le> i \<and> i < d + n then v else dst i)"

text \<open>\<^verbatim>\<open>*(int *)(p + a)\<close> as a 32-bit word, and the store through the same pointer.\<close>

definition get32 :: "bytes \<Rightarrow> nat \<Rightarrow> 32 word" where
  "get32 m a = or (ucast (m a)) (or (push_bit 8 (ucast (m (a + 1))))
     (or (push_bit 16 (ucast (m (a + 2)))) (push_bit 24 (ucast (m (a + 3))))))"

definition put32 :: "bytes \<Rightarrow> nat \<Rightarrow> 32 word \<Rightarrow> bytes" where
  "put32 m a w = m(a := ucast w, a + 1 := ucast (drop_bit 8 w),
     a + 2 := ucast (drop_bit 16 w), a + 3 := ucast (drop_bit 24 w))"

definition get_int :: "bytes \<Rightarrow> nat \<Rightarrow> int" where
  "get_int m a = sint (get32 m a)"

definition put_int :: "bytes \<Rightarrow> nat \<Rightarrow> int \<Rightarrow> bytes" where
  "put_int m a i = put32 m a (word_of_int i)"

definition int32 :: "int \<Rightarrow> bool" where
  "int32 i \<longleftrightarrow> - (2 ^ 31) \<le> i \<and> i < 2 ^ 31"

subsection \<open>Reads after writes\<close>

lemma get32_put32 [simp, mem_simps]: "get32 (put32 m a w) a = w"
proof (rule bit_word_eqI)
  fix n
  assume "n < LENGTH(32)"
  then have n: "n < 32" by simp
  then consider "n < 8" | "8 \<le> n \<and> n < 16" | "16 \<le> n \<and> n < 24" | "24 \<le> n \<and> n < 32"
    by linarith
  then show "bit (get32 (put32 m a w) a) n = bit w n"
    using n by cases
      (auto simp: get32_def put32_def bit_or_iff bit_push_bit_iff bit_ucast_iff bit_drop_bit_eq)
qed

lemma get32_cong: "(\<And>i. a \<le> i \<Longrightarrow> i < a + 4 \<Longrightarrow> m i = m' i) \<Longrightarrow> get32 m a = get32 m' a"
  by (simp add: get32_def)

lemma get_int_cong: "(\<And>i. a \<le> i \<Longrightarrow> i < a + 4 \<Longrightarrow> m i = m' i) \<Longrightarrow> get_int m a = get_int m' a"
  unfolding get_int_def by (subst get32_cong) auto

lemma put32_other [mem_simps]: "i < a \<or> a + 4 \<le> i \<Longrightarrow> put32 m a w i = m i"
  by (auto simp: put32_def)

lemma put_int_other [mem_simps]: "i < a \<or> a + 4 \<le> i \<Longrightarrow> put_int m a w i = m i"
  by (simp add: put_int_def put32_other)

lemma get_int_put_int [simp, mem_simps]: "int32 i \<Longrightarrow> get_int (put_int m a i) a = i"
  by (simp add: get_int_def put_int_def int32_def signed_of_int signed_take_bit_int_eq_self)

lemma get_int_put_int_other [mem_simps]:
  "a + 4 \<le> b \<or> b + 4 \<le> a \<Longrightarrow> get_int (put_int m a i) b = get_int m b"
  by (rule get_int_cong) (auto simp: put_int_other)

lemma get_int_range [simp]: "int32 (get_int m a)"
  using sint_greater_eq [of "get32 m a"] sint_less [of "get32 m a"]
  by (simp add: get_int_def int32_def)

lemma memcpy_in [mem_simps]:
  "d \<le> i \<Longrightarrow> i < d + n \<Longrightarrow> memcpy dst d src s n i = src (s + (i - d))"
  by (simp add: memcpy_def)

lemma memcpy_out [mem_simps]: "i < d \<or> d + n \<le> i \<Longrightarrow> memcpy dst d src s n i = dst i"
  by (auto simp: memcpy_def)

lemma get_int_memcpy_out [mem_simps]:
  "a + 4 \<le> d \<or> d + n \<le> a \<Longrightarrow> get_int (memcpy dst d src s n) a = get_int dst a"
  by (rule get_int_cong) (auto simp: memcpy_def)

lemma memset_in [mem_simps]: "d \<le> i \<Longrightarrow> i < d + n \<Longrightarrow> memset dst d v n i = v"
  by (simp add: memset_def)

lemma memset_out [mem_simps]: "i < d \<or> d + n \<le> i \<Longrightarrow> memset dst d v n i = dst i"
  by (auto simp: memset_def)

lemma get_int_memset_out [mem_simps]:
  "a + 4 \<le> d \<or> d + n \<le> a \<Longrightarrow> get_int (memset dst d v n) a = get_int dst a"
  by (rule get_int_cong) (auto simp: memset_def)

lemma get_int_upd_out [mem_simps]:
  "i < a \<or> a + 4 \<le> i \<Longrightarrow> get_int (m(i := v)) a = get_int m a"
  by (rule get_int_cong) auto

section \<open>Layout constants\<close>

definition BP_PAGE_SIZE :: nat where
  "BP_PAGE_SIZE = 4096"

definition BP_PAGE_DATA_SIZE :: nat where
  "BP_PAGE_DATA_SIZE = BP_PAGE_SIZE - 4"

definition BP_FILE_SUB_HDR_SIZE :: nat where
  "BP_FILE_SUB_HDR_SIZE = 8"

definition BP_BUFFER_SIZE :: nat where
  "BP_BUFFER_SIZE = 50"

definition MAX_OPEN_FILE :: int where
  "MAX_OPEN_FILE = 1024"

section \<open>Words, lists, association lists\<close>

lemma byte_test_bit [simp]: "(and (b :: byte) (2 ^ i) = 0) = (\<not> bit b i)"
  by (simp add: and_exp_eq_0_iff_not_bit)

lemma bit_set_byte [simp]: "bit (or (b :: byte) (2 ^ k)) i = (bit b i \<or> (i = k \<and> k < 8))"
  by (auto simp: bit_or_iff bit_exp_iff)

lemma bit_clear_byte [simp]: "bit (and (b :: byte) (not (2 ^ k))) i = (bit b i \<and> i \<noteq> k)"
  by (auto simp: bit_and_iff bit_not_iff bit_exp_iff dest: bit_imp_le_length)

lemma byte_all_set_iff: "(b :: byte) = - 1 \<longleftrightarrow> (\<forall>i<8. bit b i)"
  by (auto intro!: bit_word_eqI)

lemma byte_all_clear_iff: "(b :: byte) = 0 \<longleftrightarrow> (\<forall>i<8. \<not> bit b i)"
  by (auto intro!: bit_word_eqI)

lemma find_Some_iff_first:
  "find P [a..<b] = Some i \<longleftrightarrow> a \<le> i \<and> i < b \<and> P i \<and> (\<forall>j. a \<le> j \<and> j < i \<longrightarrow> \<not> P j)"
proof -
  have "find P [a..<b] = Some i \<longleftrightarrow>
      (\<exists>k<length [a..<b]. P ([a..<b] ! k) \<and> i = [a..<b] ! k \<and> (\<forall>j<k. \<not> P ([a..<b] ! j)))"
    by (rule find_Some_iff)
  also have "\<dots> \<longleftrightarrow> (\<exists>k<b - a. P (a + k) \<and> i = a + k \<and> (\<forall>j<k. \<not> P (a + j)))"
    by auto
  also have "\<dots> \<longleftrightarrow> a \<le> i \<and> i < b \<and> P i \<and> (\<forall>j. a \<le> j \<and> j < i \<longrightarrow> \<not> P j)"
  proof
    assume "\<exists>k<b - a. P (a + k) \<and> i = a + k \<and> (\<forall>j<k. \<not> P (a + j))"
    then obtain k where k: "k < b - a" "P (a + k)" "i = a + k" "\<forall>j<k. \<not> P (a + j)" by blast
    have "\<not> P j" if "a \<le> j" "j < i" for j
      using k(4) [rule_format, of "j - a"] that k(3) by auto
    with k show "a \<le> i \<and> i < b \<and> P i \<and> (\<forall>j. a \<le> j \<and> j < i \<longrightarrow> \<not> P j)" by auto
  next
    assume "a \<le> i \<and> i < b \<and> P i \<and> (\<forall>j. a \<le> j \<and> j < i \<longrightarrow> \<not> P j)"
    then show "\<exists>k<b - a. P (a + k) \<and> i = a + k \<and> (\<forall>j<k. \<not> P (a + j))"
      by (intro exI [of _ "i - a"]) auto
  qed
  finally show ?thesis .
qed

lemma find_upt_None_iff: "find P [a..<b] = None \<longleftrightarrow> (\<forall>i. a \<le> i \<and> i < b \<longrightarrow> \<not> P i)"
  by (auto simp: find_None_iff)

lemma map_of_delete [simp]:
  "map_of (AList.delete k xs) = (map_of xs)(k := None)"
  by (simp add: delete_conv')

lemma map_of_update [simp]: "map_of (AList.update k v xs) = (map_of xs)(k \<mapsto> v)"
  by (simp add: update_conv')

end
