(* ===== verification/Bitmap.thy ===== *)
theory Bitmap
  imports Prelude
begin

text \<open>
  The bit map of \<^verbatim>\<open>src/deps/common/lang/bitmap.cpp\<close>.  The class keeps a pointer into a
  buffer it does not own and a size in bits; here the record holds the offset of the map in
  the buffer, and every operation takes the buffer and, when it writes, returns it.

  Both searches read the byte one past the map (\<^verbatim>\<open>iter <= end\<close>) and reset
  \<^verbatim>\<open>start_in_byte\<close> only in the branch where the byte was searched.  The locale
  \<open>bit_search\<close> states the loop once for both directions and proves the search correct
  from a byte boundary, or from a byte that is not skipped; the two directions are
  interpretations of it.
\<close>

section \<open>The class\<close>

record Bitmap =
  bitmap :: nat
  bsize :: nat

function find_first_zero :: "byte \<Rightarrow> nat \<Rightarrow> int" where
  "find_first_zero b i =
     (if i < 8 then if and b (push_bit i 1) = 0 then int i else find_first_zero b (i + 1) else - 1)"
  by pat_completeness auto
termination
  by (relation "measure (\<lambda>(b, i). 8 - i)") auto

function find_first_setted :: "byte \<Rightarrow> nat \<Rightarrow> int" where
  "find_first_setted b i =
     (if i < 8 then if and b (push_bit i 1) \<noteq> 0 then int i else find_first_setted b (i + 1) else - 1)"
  by pat_completeness auto
termination
  by (relation "measure (\<lambda>(b, i). 8 - i)") auto

definition get_bit :: "bytes \<Rightarrow> Bitmap \<Rightarrow> nat \<Rightarrow> bool" where
  "get_bit m bm index = (and (m (bitmap bm + index div 8)) (push_bit (index mod 8) 1) \<noteq> 0)"

definition set_bit :: "bytes \<Rightarrow> Bitmap \<Rightarrow> nat \<Rightarrow> bytes" where
  "set_bit m bm index =
     (let a = bitmap bm + index div 8 in m(a := or (m a) (push_bit (index mod 8) 1)))"

definition clear_bit :: "bytes \<Rightarrow> Bitmap \<Rightarrow> nat \<Rightarrow> bytes" where
  "clear_bit m bm index =
     (let a = bitmap bm + index div 8 in m(a := and (m a) (not (push_bit (index mod 8) 1))))"

text \<open>The last value of the loop counter: one more than the last byte of the map.\<close>

definition end_byte :: "Bitmap \<Rightarrow> nat" where
  "end_byte bm = (if bsize bm mod 8 = 0 then bsize bm div 8 else bsize bm div 8 + 1)"

function unsetted_loop :: "bytes \<Rightarrow> Bitmap \<Rightarrow> nat \<Rightarrow> nat \<Rightarrow> int" where
  "unsetted_loop m bm iter start_in_byte =
     (if iter \<le> end_byte bm then
        let b = m (bitmap bm + iter) in
        if b \<noteq> - 1 then
          let index_in_byte = find_first_zero b start_in_byte in
          if index_in_byte \<ge> 0 then int iter * 8 + index_in_byte
          else unsetted_loop m bm (iter + 1) 0
        else unsetted_loop m bm (iter + 1) start_in_byte
      else - 1)"
  by pat_completeness auto
termination
  by (relation "measure (\<lambda>(m, bm, iter, s). Suc (end_byte bm) - iter)") auto

definition next_unsetted_bit :: "bytes \<Rightarrow> Bitmap \<Rightarrow> nat \<Rightarrow> int" where
  "next_unsetted_bit m bm start =
     (let ret = unsetted_loop m bm (start div 8) (start mod 8)
      in if ret \<ge> int (bsize bm) then - 1 else ret)"

function setted_loop :: "bytes \<Rightarrow> Bitmap \<Rightarrow> nat \<Rightarrow> nat \<Rightarrow> int" where
  "setted_loop m bm iter start_in_byte =
     (if iter \<le> end_byte bm then
        let b = m (bitmap bm + iter) in
        if b \<noteq> 0 then
          let index_in_byte = find_first_setted b start_in_byte in
          if index_in_byte \<ge> 0 then int iter * 8 + index_in_byte
          else setted_loop m bm (iter + 1) 0
        else setted_loop m bm (iter + 1) start_in_byte
      else - 1)"
  by pat_completeness auto
termination
  by (relation "measure (\<lambda>(m, bm, iter, s). Suc (end_byte bm) - iter)") auto

definition next_setted_bit :: "bytes \<Rightarrow> Bitmap \<Rightarrow> nat \<Rightarrow> int" where
  "next_setted_bit m bm start =
     (let ret = setted_loop m bm (start div 8) (start mod 8)
      in if ret \<ge> int (bsize bm) then - 1 else ret)"

declare find_first_zero.simps [simp del] find_first_setted.simps [simp del]
  unsetted_loop.simps [simp del] setted_loop.simps [simp del]

section \<open>Single bits\<close>

lemma get_bit_iff: "get_bit m bm i = bit (m (bitmap bm + i div 8)) (i mod 8)"
  by (simp add: get_bit_def)

lemma same_bit_iff: "(i div 8 = j div 8 \<and> i mod 8 = j mod 8) = (i = (j :: nat))"
  by (metis div_mult_mod_eq)

lemma get_set_bit [simp]: "get_bit (set_bit m bm j) bm i = (i = j \<or> get_bit m bm i)"
  using same_bit_iff [of i j] by (auto simp: get_bit_iff set_bit_def Let_def)

lemma get_clear_bit [simp]: "get_bit (clear_bit m bm j) bm i = (i \<noteq> j \<and> get_bit m bm i)"
  using same_bit_iff [of i j] by (auto simp: get_bit_iff clear_bit_def Let_def)

lemma set_bit_out [mem_simps]: "a \<noteq> bitmap bm + i div 8 \<Longrightarrow> set_bit m bm i a = m a"
  by (simp add: set_bit_def Let_def)

lemma clear_bit_out [mem_simps]: "a \<noteq> bitmap bm + i div 8 \<Longrightarrow> clear_bit m bm i a = m a"
  by (simp add: clear_bit_def Let_def)

section \<open>Searching\<close>

text \<open>The specification: the first index at or after \<open>start\<close> and below \<open>n\<close> that satisfies
  \<open>P\<close>, or \<open>- 1\<close>.\<close>

definition first_index :: "(nat \<Rightarrow> bool) \<Rightarrow> nat \<Rightarrow> nat \<Rightarrow> int" where
  "first_index P start n = (case find P [start..<n] of None \<Rightarrow> - 1 | Some i \<Rightarrow> int i)"

lemma first_index_eqI:
  "start \<le> i \<Longrightarrow> i < n \<Longrightarrow> P i \<Longrightarrow> (\<And>j. start \<le> j \<Longrightarrow> j < i \<Longrightarrow> \<not> P j) \<Longrightarrow>
   first_index P start n = int i"
  using find_Some_iff_first [of P start n i] by (simp add: first_index_def)

lemma first_index_none:
  "(\<And>j. start \<le> j \<Longrightarrow> j < n \<Longrightarrow> \<not> P j) \<Longrightarrow> first_index P start n = - 1"
  using find_upt_None_iff [of P start n] by (simp add: first_index_def)

lemma first_index_cases:
  obtains (None) "first_index P start n = - 1" "\<And>j. start \<le> j \<Longrightarrow> j < n \<Longrightarrow> \<not> P j"
  | (Some) i where "first_index P start n = int i" "start \<le> i" "i < n" "P i"
      "\<And>j. start \<le> j \<Longrightarrow> j < i \<Longrightarrow> \<not> P j"
proof (cases "find P [start..<n]")
  case None
  then have "\<not> P j" if "start \<le> j" "j < n" for j
    using that by (simp add: find_upt_None_iff)
  with None show ?thesis by (intro that(1)) (simp_all add: first_index_def)
next
  case (Some i)
  then have "start \<le> i \<and> i < n \<and> P i \<and> (\<forall>j. start \<le> j \<and> j < i \<longrightarrow> \<not> P j)"
    by (simp add: find_Some_iff_first)
  with Some show ?thesis by (intro that(2) [of i]) (simp_all add: first_index_def)
qed

lemma first_index_skip:
  assumes "start \<le> mid" and no: "\<And>j. start \<le> j \<Longrightarrow> j < mid \<Longrightarrow> \<not> P j"
  shows "first_index P start n = first_index P mid n"
proof (cases rule: first_index_cases [of P mid n])
  case None
  then have "first_index P start n = - 1"
    using no by (intro first_index_none) (meson not_le)
  with None(1) show ?thesis by simp
next
  case (Some i)
  have "\<not> P j" if "start \<le> j" "j < i" for j
    using that no [of j] Some(5) [of j] by (meson not_le)
  then have "first_index P start n = int i"
    using Some assms(1) by (intro first_index_eqI) auto
  with Some(1) show ?thesis by simp
qed

lemma first_index_cut:
  assumes "n \<le> N"
  shows "(let ret = first_index P start N in if ret \<ge> int n then - 1 else ret) = first_index P start n"
proof (cases rule: first_index_cases [of P start N])
  case None
  then show ?thesis using assms by (simp add: Let_def first_index_none)
next
  case (Some i)
  show ?thesis
  proof (cases "i < n")
    case True
    then show ?thesis using Some by (simp add: Let_def first_index_eqI [where i = i])
  next
    case False
    then show ?thesis using Some by (simp add: Let_def first_index_none)
  qed
qed

lemma in_byte:
  fixes iter j :: nat
  assumes "iter * 8 \<le> j" "j < iter * 8 + 8"
  shows "j div 8 = iter" "j mod 8 = j - iter * 8"
proof -
  show div: "j div 8 = iter" using assms by (intro div_nat_eqI) auto
  show "j mod 8 = j - iter * 8" using div by (metis minus_div_mult_eq_mod)
qed

text \<open>
  The contract of one byte-wise search: \<open>hit\<close> is the bit value looked for, \<open>skip\<close> the byte
  value the loop passes over, \<open>first\<close> the search inside a byte and \<open>loop\<close> the loop over the
  bytes, by its own equation.
\<close>

locale bit_search =
  fixes hit :: "byte \<Rightarrow> nat \<Rightarrow> bool"
    and skip :: byte
    and first :: "byte \<Rightarrow> nat \<Rightarrow> int"
    and loop :: "bytes \<Rightarrow> Bitmap \<Rightarrow> nat \<Rightarrow> nat \<Rightarrow> int"
  assumes skip_no_hit: "i < 8 \<Longrightarrow> \<not> hit skip i"
    and first_spec: "first b i = first_index (hit b) i 8"
    and loop_eq: "loop m bm iter s =
      (if iter \<le> end_byte bm then
         if m (bitmap bm + iter) \<noteq> skip then
           if first (m (bitmap bm + iter)) s \<ge> 0
           then int iter * 8 + first (m (bitmap bm + iter)) s
           else loop m bm (iter + 1) 0
         else loop m bm (iter + 1) s
       else - 1)"
begin

definition hit_at :: "bytes \<Rightarrow> Bitmap \<Rightarrow> nat \<Rightarrow> bool" where
  "hit_at m bm i = hit (m (bitmap bm + i div 8)) (i mod 8)"

lemma hit_at_byte: "k < 8 \<Longrightarrow> hit_at m bm (iter * 8 + k) = hit (m (bitmap bm + iter)) k"
  by (simp add: hit_at_def)

lemma hit_at_split: "i div 8 = iter \<Longrightarrow> hit_at m bm i = hit (m (bitmap bm + iter)) (i mod 8)"
  by (simp add: hit_at_def)

text \<open>From a byte boundary the loop finds the first hit of the bytes up to \<open>end_byte\<close>.\<close>

lemma loop_aligned:
  "iter \<le> Suc (end_byte bm) \<Longrightarrow>
   loop m bm iter 0 = first_index (hit_at m bm) (iter * 8) (Suc (end_byte bm) * 8)"
proof (induction "Suc (end_byte bm) - iter" arbitrary: iter)
  case 0
  then have "iter = Suc (end_byte bm)" by simp
  then show ?case using loop_eq [of m bm iter 0] by (simp add: first_index_none)
next
  case (Suc d)
  then have le: "iter \<le> end_byte bm" by simp
  let ?b = "m (bitmap bm + iter)"
  let ?rest = "first_index (hit_at m bm) (Suc iter * 8) (Suc (end_byte bm) * 8)"
  have IH: "loop m bm (iter + 1) 0 = ?rest"
    using Suc.hyps(1) [of "iter + 1"] Suc.hyps(2) le by simp
  have skip_byte: "first_index (hit_at m bm) (iter * 8) (Suc (end_byte bm) * 8) = ?rest"
    if none: "\<And>k. k < 8 \<Longrightarrow> \<not> hit ?b k"
  proof -
    have no: "\<not> hit_at m bm j" if "iter * 8 \<le> j" "j < Suc iter * 8" for j
      using none [of "j mod 8"] that by (simp add: hit_at_split [of j iter])
    show ?thesis by (rule first_index_skip) (use no in auto)
  qed
  show ?case
  proof (cases "\<exists>k<8. hit ?b k")
    case True
    then have nskip: "?b \<noteq> skip" using skip_no_hit by blast
    from True have "first_index (hit ?b) 0 8 \<noteq> - 1"
      by (cases rule: first_index_cases [of "hit ?b" 0 8]) auto
    then obtain k where k: "first_index (hit ?b) 0 8 = int k" "k < 8" "hit ?b k"
        "\<And>j. j < k \<Longrightarrow> \<not> hit ?b j"
      by (cases rule: first_index_cases [of "hit ?b" 0 8]) auto
    have "first_index (hit_at m bm) (iter * 8) (Suc (end_byte bm) * 8) = int (iter * 8 + k)"
    proof (rule first_index_eqI)
      fix j assume j: "iter * 8 \<le> j" "j < iter * 8 + k"
      then show "\<not> hit_at m bm j"
        using k(2) k(4) [of "j mod 8"] in_byte [of iter j] by (simp add: hit_at_split)
    qed (use k le in \<open>auto simp: hit_at_byte\<close>)
    then show ?thesis using le nskip k(1) by (simp add: loop_eq [of m bm iter] first_spec)
  next
    case False
    then have "first_index (hit ?b) 0 8 = - 1" by (auto intro: first_index_none)
    then have "loop m bm iter 0 = loop m bm (iter + 1) 0"
      using le by (simp add: loop_eq [of m bm iter] first_spec)
    with IH skip_byte False show ?thesis by auto
  qed
qed

text \<open>The search from any start, when the first byte is searched rather than skipped.\<close>

lemma loop_correct:
  assumes start: "start < bsize bm"
    and ok: "start mod 8 = 0 \<or> m (bitmap bm + start div 8) \<noteq> skip"
  shows "(let ret = loop m bm (start div 8) (start mod 8)
          in if ret \<ge> int (bsize bm) then - 1 else ret) = first_index (hit_at m bm) start (bsize bm)"
proof -
  let ?it = "start div 8" and ?N = "Suc (end_byte bm) * 8"
  have size: "bsize bm \<le> ?N" by (simp add: end_byte_def) presburger
  have le: "?it \<le> end_byte bm" using start by (auto simp: end_byte_def)
  have "loop m bm ?it (start mod 8) = first_index (hit_at m bm) start ?N"
  proof (cases "start mod 8 = 0")
    case True
    then have "?it * 8 = start" by presburger
    then show ?thesis using loop_aligned [of ?it bm m] le True by simp
  next
    case False
    let ?b = "m (bitmap bm + ?it)"
    have nskip: "?b \<noteq> skip" using ok False by simp
    have it: "?it * 8 \<le> start" "start - ?it * 8 = start mod 8"
      by (simp_all add: minus_div_mult_eq_mod)
    have before: "hit_at m bm j = hit ?b (j mod 8)" "j mod 8 = j - ?it * 8" "start mod 8 \<le> j mod 8"
      if "start \<le> j" "j < Suc ?it * 8" for j
    proof -
      have "?it * 8 \<le> j" using that(1) it(1) by linarith
      then have b: "j div 8 = ?it" "j mod 8 = j - ?it * 8"
        using in_byte [of ?it j] that(2) by simp_all
      show "hit_at m bm j = hit ?b (j mod 8)" using b(1) by (rule hit_at_split)
      show "j mod 8 = j - ?it * 8" by (rule b(2))
      show "start mod 8 \<le> j mod 8" using b(2) that(1) it(2) by linarith
    qed
    show ?thesis
    proof (cases rule: first_index_cases [of "hit ?b" "start mod 8" 8])
      case None
      have none: "\<not> hit_at m bm j" if "start \<le> j" "j < Suc ?it * 8" for j
        using None(2) [of "j mod 8"] before [OF that] by simp
      have "loop m bm ?it (start mod 8) = loop m bm (?it + 1) 0"
        using le nskip None(1) by (simp add: loop_eq [of m bm ?it] first_spec)
      also have "\<dots> = first_index (hit_at m bm) (Suc ?it * 8) ?N"
        using loop_aligned [of "?it + 1" bm m] le by simp
      also have "\<dots> = first_index (hit_at m bm) start ?N"
        by (rule first_index_skip [symmetric]) (use none in auto)
      finally show ?thesis .
    next
      case (Some k)
      have i: "start \<le> ?it * 8 + k" "?it * 8 + k < ?N" using Some(2,3) le it by auto
      have "\<not> hit_at m bm j" if "start \<le> j" "j < ?it * 8 + k" for j
        using before [of j] Some(5) [of "j mod 8"] Some(3) that by simp
      then have "first_index (hit_at m bm) start ?N = int (?it * 8 + k)"
        using first_index_eqI [of start "?it * 8 + k" ?N "hit_at m bm"] i Some
        by (simp add: hit_at_byte)
      moreover have "loop m bm ?it (start mod 8) = int ?it * 8 + int k"
        using le nskip Some(1) by (simp add: loop_eq [of m bm ?it] first_spec)
      ultimately show ?thesis by simp
    qed
  qed
  then show ?thesis using first_index_cut [OF size] by simp
qed

text \<open>The offset inside the first byte is carried over skipped bytes: nothing below it is found.\<close>

lemma loop_lower:
  "s \<le> 8 \<Longrightarrow> loop m bm iter s = - 1 \<or> int (iter * 8 + s) \<le> loop m bm iter s"
proof (induction "Suc (end_byte bm) - iter" arbitrary: iter s)
  case 0
  then show ?case using loop_eq [of m bm iter s] by simp
next
  case (Suc n)
  then have le: "iter \<le> end_byte bm" by simp
  have IH: "loop m bm (iter + 1) t = - 1 \<or> int ((iter + 1) * 8 + t) \<le> loop m bm (iter + 1) t" if "t \<le> 8" for t
    using Suc.hyps(1) [of "iter + 1"] Suc.hyps(2) that by simp
  have "first (m (bitmap bm + iter)) s = - 1 \<or> int s \<le> first (m (bitmap bm + iter)) s"
    unfolding first_spec by (cases rule: first_index_cases [of "hit (m (bitmap bm + iter))" s 8]) auto
  then show ?case
    using loop_eq [of m bm iter s] le IH [of 0] IH [of s] Suc.prems by auto
qed

end

lemma find_first_zero_spec: "find_first_zero b i = first_index (\<lambda>k. \<not> bit b k) i 8"
proof (induction b i rule: find_first_zero.induct)
  case (1 b i)
  show ?case
    using 1 by (auto simp: find_first_zero.simps [of b i] first_index_def upt_conv_Cons)
qed

lemma find_first_setted_spec: "find_first_setted b i = first_index (bit b) i 8"
proof (induction b i rule: find_first_setted.induct)
  case (1 b i)
  show ?case
    using 1 by (auto simp: find_first_setted.simps [of b i] first_index_def upt_conv_Cons)
qed

interpretation zeros: bit_search "\<lambda>b k. \<not> bit b k" "- 1" find_first_zero unsetted_loop
proof
  show "unsetted_loop m bm iter s =
      (if iter \<le> end_byte bm then
         if m (bitmap bm + iter) \<noteq> - 1 then
           if find_first_zero (m (bitmap bm + iter)) s \<ge> 0
           then int iter * 8 + find_first_zero (m (bitmap bm + iter)) s
           else unsetted_loop m bm (iter + 1) 0
         else unsetted_loop m bm (iter + 1) s
       else - 1)" for m bm iter s
    by (subst unsetted_loop.simps) (simp add: Let_def)
qed (simp_all add: find_first_zero_spec)

interpretation ones: bit_search bit 0 find_first_setted setted_loop
proof
  show "setted_loop m bm iter s =
      (if iter \<le> end_byte bm then
         if m (bitmap bm + iter) \<noteq> 0 then
           if find_first_setted (m (bitmap bm + iter)) s \<ge> 0
           then int iter * 8 + find_first_setted (m (bitmap bm + iter)) s
           else setted_loop m bm (iter + 1) 0
         else setted_loop m bm (iter + 1) s
       else - 1)" for m bm iter s
    by (subst setted_loop.simps) (simp add: Let_def)
qed (simp_all add: find_first_setted_spec)

lemma zeros_hit_at [simp]: "zeros.hit_at m bm = (\<lambda>i. \<not> get_bit m bm i)"
  by (auto simp: zeros.hit_at_def get_bit_iff)

lemma ones_hit_at [simp]: "ones.hit_at m bm = get_bit m bm"
  by (auto simp: ones.hit_at_def get_bit_iff)

lemma next_unsetted_bit_eq:
  "start < bsize bm \<Longrightarrow> start mod 8 = 0 \<or> m (bitmap bm + start div 8) \<noteq> - 1 \<Longrightarrow>
   next_unsetted_bit m bm start = first_index (\<lambda>i. \<not> get_bit m bm i) start (bsize bm)"
  unfolding next_unsetted_bit_def using zeros.loop_correct [of start bm m] by simp

lemma next_setted_bit_eq:
  "start < bsize bm \<Longrightarrow> start mod 8 = 0 \<or> m (bitmap bm + start div 8) \<noteq> 0 \<Longrightarrow>
   next_setted_bit m bm start = first_index (get_bit m bm) start (bsize bm)"
  unfolding next_setted_bit_def using ones.loop_correct [of start bm m] by simp

section \<open>Properties\<close>

text \<open>\<^verbatim>\<open>next_unsetted_bit\<close> returns the first clear bit at or after \<^verbatim>\<open>start\<close> and below the
  size of the map, or \<open>- 1\<close> when there is none, provided \<^verbatim>\<open>start\<close> is the first bit of a byte
  or its byte is not full.\<close>

theorem next_unsetted_bit_correct:
  assumes "start < bsize bm" and "start mod 8 = 0 \<or> m (bitmap bm + start div 8) \<noteq> - 1"
  shows "next_unsetted_bit m bm start = first_index (\<lambda>i. \<not> get_bit m bm i) start (bsize bm)"
  using assms by (rule next_unsetted_bit_eq)

text \<open>A map of 12 bits at offset 2: bits 0 to 8 and 10 are set.\<close>

definition sample_map :: Bitmap where
  "sample_map = \<lparr>bitmap = 2, bsize = 12\<rparr>"

definition sample_bytes :: bytes where
  "sample_bytes = (\<lambda>i. if i = 2 then - 1 else if i = 3 then 5 else 0)"

theorem next_unsetted_bit_correct_witness:
  "next_unsetted_bit sample_bytes sample_map 8 = first_index (\<lambda>i. \<not> get_bit sample_bytes sample_map i) 8 12 \<and>
   get_bit sample_bytes sample_map 8 \<and> \<not> get_bit sample_bytes sample_map 9"
  using next_unsetted_bit_correct [of 8 sample_map sample_bytes]
  by (simp add: sample_map_def sample_bytes_def get_bit_iff)

text \<open>\<^verbatim>\<open>next_setted_bit\<close> returns the first set bit at or after \<^verbatim>\<open>start\<close> and below the
  size of the map, or \<open>- 1\<close> when there is none, provided \<^verbatim>\<open>start\<close> is the first bit of a byte
  or its byte is not zero.\<close>

theorem next_setted_bit_correct:
  assumes "start < bsize bm" and "start mod 8 = 0 \<or> m (bitmap bm + start div 8) \<noteq> 0"
  shows "next_setted_bit m bm start = first_index (get_bit m bm) start (bsize bm)"
  using assms by (rule next_setted_bit_eq)

theorem next_setted_bit_correct_witness:
  "next_setted_bit sample_bytes sample_map 9 = first_index (get_bit sample_bytes sample_map) 9 12 \<and>
   \<not> get_bit sample_bytes sample_map 9 \<and> get_bit sample_bytes sample_map 10"
  using next_setted_bit_correct [of 9 sample_map sample_bytes]
  by (simp add: sample_map_def sample_bytes_def get_bit_iff)

text \<open>Without that proviso set bits are missed: when the byte of \<^verbatim>\<open>start\<close> is zero and
  \<^verbatim>\<open>start\<close> is inside it, the search never returns the bits of the next byte below
  \<^verbatim>\<open>start % 8\<close>, because the offset is reset only after a byte that was searched.\<close>

theorem next_setted_bit_misses:
  assumes "start mod 8 \<noteq> 0" "m (bitmap bm + start div 8) = 0" "start div 8 \<le> end_byte bm" "k < start mod 8"
  shows "next_setted_bit m bm start \<noteq> int ((start div 8 + 1) * 8 + k)"
proof -
  define q r where "q = start div 8" and "r = start mod 8"
  have "setted_loop m bm q r = setted_loop m bm (q + 1) r"
    using assms(2,3) ones.loop_eq [of m bm q r] by (simp add: q_def)
  moreover have "setted_loop m bm (q + 1) r = - 1 \<or> int ((q + 1) * 8 + r) \<le> setted_loop m bm (q + 1) r"
    by (rule ones.loop_lower) (simp add: r_def)
  moreover have "k < r" using assms(4) by (simp add: r_def)
  ultimately have "next_setted_bit m bm start \<noteq> int ((q + 1) * 8 + k)"
    unfolding next_setted_bit_def Let_def q_def [symmetric] r_def [symmetric] by auto
  then show ?thesis by (simp add: q_def)
qed

theorem next_setted_bit_misses_witness:
  "get_bit (\<lambda>i. if i = 3 then 1 else 0) sample_map 8 \<and>
   next_setted_bit (\<lambda>i. if i = 3 then 1 else 0) sample_map 1 \<noteq> 8"
  using next_setted_bit_misses [of 1 "\<lambda>i. if i = 3 then 1 else 0" sample_map 0]
  by (simp add: sample_map_def get_bit_iff end_byte_def)

end
