(* ===== verification/Lru_Replacer.thy ===== *)
theory Lru_Replacer
  imports Prelude
begin

text \<open>
  The frame replacer of \<^verbatim>\<open>src/src/observer/storage/default/lru_replacer.cpp\<close> and the
  interface \<^verbatim>\<open>Replacer\<close> of \<^verbatim>\<open>replacer.h\<close> that the buffer pool programs against.
  \<^verbatim>\<open>cache_list_\<close> runs from the newest to the oldest unpinned frame; \<^verbatim>\<open>cache_map_\<close> maps a
  frame to its node in that list.  A list iterator is represented by the frame its node
  holds: \<open>wf_lru\<close> (kept by every operation) says that a frame has one node at most, so the
  frame identifies the node.
\<close>

section \<open>The interface \<^verbatim>\<open>Replacer\<close>\<close>

text \<open>
  \<open>cands s\<close> are the frames that may be victimised, oldest last.  The laws are the promises
  of the header's comments: a pinned frame is never a victim, an unpinned one can be, and
  there is a victim whenever there is a candidate.
\<close>

locale replacer =
  fixes victim :: "'s \<Rightarrow> nat option \<times> 's"
    and pin :: "'s \<Rightarrow> nat \<Rightarrow> 's"
    and unpin :: "'s \<Rightarrow> nat \<Rightarrow> 's"
    and num :: "'s \<Rightarrow> nat"
    and cap :: "'s \<Rightarrow> nat"
    and cands :: "'s \<Rightarrow> nat list"
    and invar :: "'s \<Rightarrow> bool"
  assumes cands_distinct: "invar s \<Longrightarrow> distinct (cands s)"
    and num_cands: "invar s \<Longrightarrow> num s = length (cands s)"
    and victim_none: "invar s \<Longrightarrow> cands s = [] \<Longrightarrow> victim s = (None, s)"
    and victim_some: "invar s \<Longrightarrow> cands s \<noteq> [] \<Longrightarrow>
      \<exists>s'. victim s = (Some (last (cands s)), s') \<and> cands s' = butlast (cands s)
           \<and> cap s' = cap s \<and> invar s'"
    and pin_cands: "invar s \<Longrightarrow> cands (pin s f) = removeAll f (cands s)"
    and pin_invar: "invar s \<Longrightarrow> invar (pin s f)"
    and pin_cap: "cap (pin s f) = cap s"
    and unpin_cands: "invar s \<Longrightarrow> f \<notin> set (cands s) \<Longrightarrow> num s < cap s \<Longrightarrow>
      cands (unpin s f) = f # cands s"
    and unpin_again: "invar s \<Longrightarrow> f \<in> set (cands s) \<Longrightarrow> num s \<le> cap s \<Longrightarrow> unpin s f = s"
    and unpin_invar: "invar s \<Longrightarrow> invar (unpin s f)"
    and unpin_cap: "cap (unpin s f) = cap s"
begin

lemma pin_set: "invar s \<Longrightarrow> set (cands (pin s f)) = set (cands s) - {f}"
  by (simp add: pin_cands)

lemma victim_in: "invar s \<Longrightarrow> victim s = (Some f, s') \<Longrightarrow> f \<in> set (cands s)"
  using victim_some [of s] victim_none [of s] by (cases "cands s = []") auto

lemma victim_set: "invar s \<Longrightarrow> victim s = (Some f, s') \<Longrightarrow> set (cands s') = set (cands s) - {f}"
proof (cases "cands s = []")
  case False
  assume inv: "invar s" and v: "victim s = (Some f, s')"
  from victim_some [OF inv False] v have c: "cands s' = butlast (cands s)" "f = last (cands s)"
    by auto
  have "distinct (butlast (cands s) @ [last (cands s)])"
    using cands_distinct [OF inv] False by simp
  moreover have "set (cands s) = set (butlast (cands s)) \<union> {last (cands s)}"
    using False by (metis append_butlast_last_id set_append list.set(1,2))
  ultimately show ?thesis using c by auto
qed (simp add: victim_none)

lemma victim_invar: "invar s \<Longrightarrow> victim s = (r, s') \<Longrightarrow> invar s' \<and> cap s' = cap s"
  using victim_some [of s] victim_none [of s] by (cases "cands s = []") auto

text \<open>A frame that is pinned stays out of reach of any number of victim requests.\<close>

lemma pinned_not_victim: "invar s \<Longrightarrow> victim (pin s f) \<noteq> (Some f, s')"
  using victim_in [OF pin_invar] pin_set by fastforce

end

section \<open>\<^verbatim>\<open>LRUReplacer\<close>\<close>

record LRUReplacer =
  cache_map :: "nat \<rightharpoonup> nat"
  cache_list :: "nat list"
  lru_size :: nat
  capacity :: nat

definition LRUReplacer_init :: "nat \<Rightarrow> LRUReplacer" where
  "LRUReplacer_init num_pages =
     \<lparr>cache_map = Map.empty, cache_list = [], lru_size = 0, capacity = num_pages\<rparr>"

definition Victim :: "LRUReplacer \<Rightarrow> nat option \<times> LRUReplacer" where
  "Victim r =
     (if lru_size r = 0 then (None, r)
      else let back = last (cache_list r) in
        (Some back, r\<lparr>cache_map := (cache_map r)(back := None),
                      cache_list := butlast (cache_list r),
                      lru_size := lru_size r - 1\<rparr>))"

definition Pin :: "LRUReplacer \<Rightarrow> nat \<Rightarrow> LRUReplacer" where
  "Pin r frame_id =
     (case cache_map r frame_id of
        None \<Rightarrow> r
      | Some node \<Rightarrow> r\<lparr>cache_list := remove1 node (cache_list r),
                      cache_map := (cache_map r)(frame_id := None),
                      lru_size := lru_size r - 1\<rparr>)"

definition Unpin :: "LRUReplacer \<Rightarrow> nat \<Rightarrow> LRUReplacer" where
  "Unpin r frame_id =
     (let r1 = (if cache_map r frame_id = None
                then r\<lparr>cache_list := frame_id # cache_list r,
                       cache_map := (cache_map r)(frame_id \<mapsto> frame_id),
                       lru_size := lru_size r + 1\<rparr>
                else r)
      in if lru_size r1 > capacity r1
         then let back = last (cache_list r1) in
           r1\<lparr>cache_list := butlast (cache_list r1),
              cache_map := (cache_map r1)(back := None),
              lru_size := lru_size r1 - 1\<rparr>
         else r1)"

definition Size :: "LRUReplacer \<Rightarrow> nat" where
  "Size r = lru_size r"

section \<open>Well-formedness\<close>

definition wf_lru :: "LRUReplacer \<Rightarrow> bool" where
  "wf_lru r \<longleftrightarrow> distinct (cache_list r) \<and> lru_size r = length (cache_list r) \<and>
     cache_map r = (\<lambda>f. if f \<in> set (cache_list r) then Some f else None)"

lemma wf_lru_init [simp]: "wf_lru (LRUReplacer_init n)"
  by (simp add: wf_lru_def LRUReplacer_init_def)

lemma set_butlast_distinct:
  "distinct xs \<Longrightarrow> xs \<noteq> [] \<Longrightarrow> set (butlast xs) = set xs - {last xs}"
  by (cases xs rule: rev_cases) auto

lemma wf_lru_Victim: "wf_lru r \<Longrightarrow> Victim r = (v, r') \<Longrightarrow> wf_lru r'"
  by (auto simp: wf_lru_def Victim_def Let_def fun_eq_iff set_butlast_distinct distinct_butlast
      split: if_splits)

lemma wf_lru_Pin: "wf_lru r \<Longrightarrow> wf_lru (Pin r f)"
  by (auto simp: wf_lru_def Pin_def fun_eq_iff length_remove1 split: option.splits if_splits)

lemma wf_lru_Unpin: "wf_lru r \<Longrightarrow> wf_lru (Unpin r f)"
proof -
  assume wf: "wf_lru r"
  show ?thesis
  proof (cases "f \<in> set (cache_list r)")
    case True
    then have "cache_list r \<noteq> []" by auto
    with True wf show ?thesis
      by (auto simp: wf_lru_def Unpin_def Let_def fun_eq_iff set_butlast_distinct distinct_butlast)
  next
    case False
    with wf show ?thesis
      using set_butlast_distinct [of "f # cache_list r"] distinct_butlast [of "f # cache_list r"]
      by (auto simp: wf_lru_def Unpin_def Let_def fun_eq_iff split: if_splits)
  qed
qed

lemma Pin_cands: "wf_lru r \<Longrightarrow> cache_list (Pin r f) = removeAll f (cache_list r)"
  by (auto simp: wf_lru_def Pin_def distinct_remove1_removeAll split: option.splits if_splits)

interpretation lru: replacer Victim Pin Unpin Size capacity cache_list wf_lru
proof
  fix s f
  show "wf_lru s \<Longrightarrow> cache_list s \<noteq> [] \<Longrightarrow>
      \<exists>s'. Victim s = (Some (last (cache_list s)), s') \<and> cache_list s' = butlast (cache_list s)
           \<and> capacity s' = capacity s \<and> wf_lru s'"
    using wf_lru_Victim [of s] by (auto simp: Victim_def Let_def wf_lru_def)
  show "wf_lru s \<Longrightarrow> f \<notin> set (cache_list s) \<Longrightarrow> Size s < capacity s \<Longrightarrow>
      cache_list (Unpin s f) = f # cache_list s"
    by (auto simp: Unpin_def Let_def wf_lru_def Size_def)
  show "wf_lru s \<Longrightarrow> f \<in> set (cache_list s) \<Longrightarrow> Size s \<le> capacity s \<Longrightarrow> Unpin s f = s"
    by (auto simp: Unpin_def Let_def wf_lru_def Size_def)
  show "capacity (Pin s f) = capacity s"
    by (auto simp: Pin_def split: option.splits)
  show "capacity (Unpin s f) = capacity s"
    by (auto simp: Unpin_def Let_def)
  show "wf_lru s \<Longrightarrow> distinct (cache_list s)" "wf_lru s \<Longrightarrow> Size s = length (cache_list s)"
      "wf_lru s \<Longrightarrow> cache_list s = [] \<Longrightarrow> Victim s = (None, s)"
    by (simp_all add: wf_lru_def Size_def Victim_def)
qed (simp_all add: Pin_cands wf_lru_Pin wf_lru_Unpin)

section \<open>Properties\<close>

fun victims :: "nat \<Rightarrow> LRUReplacer \<Rightarrow> nat list" where
  "victims 0 r = []"
| "victims (Suc n) r =
     (case Victim r of (None, r') \<Rightarrow> [] | (Some f, r') \<Rightarrow> f # victims n r')"

lemma victims_cands: "wf_lru r \<Longrightarrow> length (cache_list r) \<le> n \<Longrightarrow> victims n r = rev (cache_list r)"
proof (induction n arbitrary: r)
  case 0
  then show ?case by simp
next
  case (Suc n)
  show ?case
  proof (cases "cache_list r = []")
    case True
    then show ?thesis using lru.victim_none [OF Suc.prems(1)] by simp
  next
    case False
    then obtain r' where "Victim r = (Some (last (cache_list r)), r')" "cache_list r' = butlast (cache_list r)"
        "wf_lru r'"
      using lru.victim_some [OF Suc.prems(1)] by blast
    moreover have "rev (cache_list r) = last (cache_list r) # rev (butlast (cache_list r))"
      using False by (cases "cache_list r" rule: rev_cases) simp_all
    ultimately show ?thesis using Suc.IH [of r'] Suc.prems by (simp del: rev_eq_Cons_iff)
  qed
qed

lemma unpin_all:
  "wf_lru r \<Longrightarrow> distinct fs \<Longrightarrow> set fs \<inter> set (cache_list r) = {} \<Longrightarrow>
   length (cache_list r) + length fs \<le> capacity r \<Longrightarrow>
   wf_lru (foldl Unpin r fs) \<and> cache_list (foldl Unpin r fs) = rev fs @ cache_list r \<and>
   capacity (foldl Unpin r fs) = capacity r"
proof (induction fs arbitrary: r)
  case Nil
  then show ?case by simp
next
  case (Cons f fs)
  have c: "cache_list (Unpin r f) = f # cache_list r"
    using lru.unpin_cands [OF Cons.prems(1), of f] lru.num_cands [OF Cons.prems(1)] Cons.prems(3,4) by simp
  show ?case
    using Cons.IH [of "Unpin r f"] Cons.prems wf_lru_Unpin [OF Cons.prems(1)] c by (simp add: lru.unpin_cap)
qed

lemma pin_all:
  "wf_lru r \<Longrightarrow> wf_lru (foldl Pin r ps) \<and>
   cache_list (foldl Pin r ps) = filter (\<lambda>f. f \<notin> set ps) (cache_list r)"
proof (induction ps arbitrary: r)
  case (Cons p ps)
  then show ?case
    using Cons.IH [of "Pin r p"] by (simp add: wf_lru_Pin Pin_cands removeAll_filter_not_eq
        eq_commute [of p])
qed simp

text \<open>C25: the replacer evicts in least-recently-unpinned order.  From an empty replacer with room
  for them, unpinning distinct frames and then asking for victims gives the frames back in the
  order in which they were unpinned, and pinned frames not at all: the victims are exactly the
  frames still unpinned, oldest first.\<close>

theorem lru_order:
  assumes "distinct fs" "length fs \<le> n"
  shows "victims n (foldl Pin (foldl Unpin (LRUReplacer_init n) fs) ps) = filter (\<lambda>f. f \<notin> set ps) fs"
proof -
  let ?u = "foldl Unpin (LRUReplacer_init n) fs"
  have u: "wf_lru ?u" "cache_list ?u = rev fs"
    using unpin_all [of "LRUReplacer_init n" fs] assms by (simp_all add: LRUReplacer_init_def wf_lru_def)
  have p: "wf_lru (foldl Pin ?u ps)" "cache_list (foldl Pin ?u ps) = rev (filter (\<lambda>f. f \<notin> set ps) fs)"
    using pin_all [OF u(1), of ps] u(2) by (simp_all add: rev_filter)
  have "length (cache_list (foldl Pin ?u ps)) \<le> n"
    unfolding p(2) length_rev using assms(2) length_filter_le le_trans by blast
  then show ?thesis using victims_cands [OF p(1)] p(2) by simp
qed

theorem lru_order_witness:
  "victims 4 (foldl Pin (foldl Unpin (LRUReplacer_init 4) [3, 1, 2]) [1]) = [3, 2]"
  using lru_order [of "[3, 1, 2]" 4 "[1]"] by simp

end
