(* ===== verification/Os_File.thy ===== *)
theory Os_File
  imports Prelude
begin

text \<open>
  The file-system calls the buffer pool makes (\<^verbatim>\<open>open\<close>, \<^verbatim>\<open>close\<close>, \<^verbatim>\<open>lseek\<close>,
  \<^verbatim>\<open>read\<close>, \<^verbatim>\<open>write\<close>, \<^verbatim>\<open>unlink\<close>).  The sources read and write whole
  \<^verbatim>\<open>Page\<close> structures at offsets that are multiples of \<^verbatim>\<open>sizeof(Page)\<close>, so a file is a
  list of pages; offsets are kept in bytes as in the calls.  As POSIX says, \<^verbatim>\<open>open\<close> returns
  the lowest free descriptor, a read past the end comes back short, a write past the end
  fills the gap with zeros, and an unlinked file lives on while a descriptor refers to it.

  Any call may fail: the \<open>n\<close>-th call fails iff \<open>os_fault n\<close>, and a failing call changes
  nothing.  So every error branch of the sources is reachable in the model, and a theorem
  about an execution without I/O errors says so (\<open>no_fault\<close>).
\<close>

record Page =
  page_num :: int
  data :: bytes

definition zero_page :: Page where
  "zero_page = \<lparr>page_num = 0, data = (\<lambda>_. 0)\<rparr>"

record Os =
  os_names :: "string \<rightharpoonup> nat"
  os_inodes :: "nat \<Rightarrow> Page list"
  os_next :: nat
  os_fds :: "(nat \<times> int) option list"
  os_clock :: nat
  os_tick :: nat
  os_fault :: "nat \<Rightarrow> bool"

definition no_fault :: "Os \<Rightarrow> bool" where
  "no_fault s \<longleftrightarrow> (\<forall>n. \<not> os_fault s n)"

definition enter :: "Os \<Rightarrow> bool \<times> Os" where
  "enter s = (os_fault s (os_tick s), s\<lparr>os_tick := os_tick s + 1\<rparr>)"

fun lowest_free :: "'a option list \<Rightarrow> nat" where
  "lowest_free [] = 0"
| "lowest_free (None # xs) = 0"
| "lowest_free (Some _ # xs) = Suc (lowest_free xs)"

definition put_fd :: "'a option list \<Rightarrow> nat \<Rightarrow> 'a \<Rightarrow> 'a option list" where
  "put_fd fds i v = (if i < length fds then fds[i := Some v] else fds @ [Some v])"

definition fd_entry :: "Os \<Rightarrow> int \<Rightarrow> (nat \<times> int) option" where
  "fd_entry s fd = (if 0 \<le> fd \<and> nat fd < length (os_fds s) then os_fds s ! nat fd else None)"

definition open_inode :: "Os \<Rightarrow> nat \<Rightarrow> int \<times> Os" where
  "open_inode s ino =
     (let i = lowest_free (os_fds s) in (int i, s\<lparr>os_fds := put_fd (os_fds s) i (ino, 0)\<rparr>))"

text \<open>\<^verbatim>\<open>open(name, O_RDWR | O_CREAT | O_EXCL, ...)\<close> and \<^verbatim>\<open>open(name, O_RDWR)\<close>.\<close>

definition sys_open_creat :: "Os \<Rightarrow> string \<Rightarrow> int \<times> Os" where
  "sys_open_creat s name =
     (let (bad, s1) = enter s in
      if bad \<or> os_names s1 name \<noteq> None then (- 1, s1)
      else open_inode (s1\<lparr>os_names := (os_names s1)(name \<mapsto> os_next s1),
                          os_inodes := (os_inodes s1)(os_next s1 := []),
                          os_next := os_next s1 + 1\<rparr>) (os_next s1))"

definition sys_open :: "Os \<Rightarrow> string \<Rightarrow> int \<times> Os" where
  "sys_open s name =
     (let (bad, s1) = enter s in
      case os_names s1 name of
        None \<Rightarrow> (- 1, s1)
      | Some ino \<Rightarrow> if bad then (- 1, s1) else open_inode s1 ino)"

definition sys_close :: "Os \<Rightarrow> int \<Rightarrow> int \<times> Os" where
  "sys_close s fd =
     (let (bad, s1) = enter s in
      if bad \<or> fd_entry s1 fd = None then (- 1, s1)
      else (0, s1\<lparr>os_fds := (os_fds s1)[nat fd := None]\<rparr>))"

text \<open>\<^verbatim>\<open>lseek(fd, offset, SEEK_SET)\<close>: the new offset, or \<open>- 1\<close>.\<close>

definition sys_lseek :: "Os \<Rightarrow> int \<Rightarrow> int \<Rightarrow> int \<times> Os" where
  "sys_lseek s fd off =
     (let (bad, s1) = enter s in
      case fd_entry s1 fd of
        None \<Rightarrow> (- 1, s1)
      | Some (ino, _) \<Rightarrow>
          if bad \<or> off < 0 then (- 1, s1)
          else (off, s1\<lparr>os_fds := (os_fds s1)[nat fd := Some (ino, off)]\<rparr>))"

definition page_index :: "int \<Rightarrow> nat" where
  "page_index off = nat (off div int BP_PAGE_SIZE)"

definition put_page :: "Page list \<Rightarrow> nat \<Rightarrow> Page \<Rightarrow> Page list" where
  "put_page f i pg =
     (if i < length f then f[i := pg] else f @ replicate (i - length f) zero_page @ [pg])"

text \<open>\<^verbatim>\<open>write(fd, &page, sizeof(Page)) == sizeof(Page)\<close>.\<close>

definition sys_write :: "Os \<Rightarrow> int \<Rightarrow> Page \<Rightarrow> bool \<times> Os" where
  "sys_write s fd pg =
     (let (bad, s1) = enter s in
      case fd_entry s1 fd of
        None \<Rightarrow> (False, s1)
      | Some (ino, pos) \<Rightarrow>
          if bad then (False, s1)
          else (True, s1\<lparr>os_inodes := (os_inodes s1)
                           (ino := put_page (os_inodes s1 ino) (page_index pos) pg),
                         os_fds := (os_fds s1)[nat fd := Some (ino, pos + int BP_PAGE_SIZE)]\<rparr>))"

text \<open>\<^verbatim>\<open>read(fd, &page, sizeof(Page)) == sizeof(Page)\<close>, with what was read.\<close>

definition sys_read :: "Os \<Rightarrow> int \<Rightarrow> Page option \<times> Os" where
  "sys_read s fd =
     (let (bad, s1) = enter s in
      case fd_entry s1 fd of
        None \<Rightarrow> (None, s1)
      | Some (ino, pos) \<Rightarrow>
          if bad \<or> page_index pos \<ge> length (os_inodes s1 ino) then (None, s1)
          else (Some (os_inodes s1 ino ! page_index pos),
                s1\<lparr>os_fds := (os_fds s1)[nat fd := Some (ino, pos + int BP_PAGE_SIZE)]\<rparr>))"

definition sys_unlink :: "Os \<Rightarrow> string \<Rightarrow> int \<times> Os" where
  "sys_unlink s name =
     (let (bad, s1) = enter s in
      if bad \<or> os_names s1 name = None then (- 1, s1)
      else (0, s1\<lparr>os_names := (os_names s1)(name := None)\<rparr>))"

section \<open>What the calls keep\<close>

definition fd_inode :: "Os \<Rightarrow> int \<Rightarrow> nat option" where
  "fd_inode s fd = map_option fst (fd_entry s fd)"

text \<open>The page stored for a descriptor, \<open>None\<close> past the end of the file.\<close>

definition disk_page :: "Os \<Rightarrow> int \<Rightarrow> int \<Rightarrow> Page option" where
  "disk_page s fd pn =
     (case fd_inode s fd of
        None \<Rightarrow> None
      | Some ino \<Rightarrow> if 0 \<le> pn \<and> nat pn < length (os_inodes s ino)
                    then Some (os_inodes s ino ! nat pn) else None)"

lemma page_index_mult [simp]: "page_index (pn * 4096) = nat pn"
  by (simp add: page_index_def BP_PAGE_SIZE_def)

lemma length_put_page: "length (put_page f i pg) = max (length f) (Suc i)"
  by (auto simp: put_page_def)

lemma nth_put_page:
  "j < length (put_page f i pg) \<Longrightarrow>
   put_page f i pg ! j = (if j = i then pg else if j < length f then f ! j else zero_page)"
  by (auto simp: put_page_def nth_append nth_Cons')

end
