(* ===== verification/Buffer_Pool.thy ===== *)
theory Buffer_Pool
  imports Bitmap Lru_Replacer Os_File
begin

text \<open>
  The buffer pool of \<^verbatim>\<open>src/src/observer/storage/default/disk_buffer_pool.cpp\<close>:
  \<^verbatim>\<open>BPManager\<close> (frames, free list, page table, replacer) and \<^verbatim>\<open>DiskBufferPool\<close> (open
  files, page allocation, loading, flushing).  A \<^verbatim>\<open>Frame *\<close> is an index into \<open>frames\<close>.  The
  members \<^verbatim>\<open>hdr_page\<close>, \<^verbatim>\<open>bitmap\<close> and \<^verbatim>\<open>file_sub_header\<close> of a file handle are pointers
  into the data of its header frame, so they are read through \<open>hdr_frame\<close>: \<^verbatim>\<open>page_count\<close>
  at offset 0, \<^verbatim>\<open>allocated_pages\<close> at 4 and the page bit map from 8 on.

  \<^verbatim>\<open>page_table_\<close> is a map of association lists; the list's order stands for the iteration
  order of the \<^verbatim>\<open>unordered_map\<close>, which no theorem relies on.  Every function returns the
  pool as the call leaves it on each path, error paths included.
\<close>

section \<open>\<^verbatim>\<open>BPManager\<close>\<close>

record Frame =
  dirty :: bool
  pin_count :: "32 word"
  acc_time :: nat
  file_desc :: int
  page :: Page

record BPPageHandle =
  ph_open :: bool
  ph_frame :: "nat option"

definition new_handle :: BPPageHandle where
  "new_handle = \<lparr>ph_open = False, ph_frame = None\<rparr>"

record BPFileHandle =
  bopen :: bool
  file_name :: string
  fh_desc :: int
  hdr_frame :: nat

record BPManager =
  bpm_size :: nat
  frames :: "Frame list"
  page_table :: "int \<rightharpoonup> (int \<times> nat) list"
  free_list :: "nat list"
  bpm_replacer :: LRUReplacer

text \<open>The constructor: \<^verbatim>\<open>new Frame[size]\<close> leaves the frames uninitialised (\<open>mem\<close> is what the
  memory held) but for \<^verbatim>\<open>pin_count\<close>.\<close>

definition BPManager_init :: "Frame list \<Rightarrow> BPManager" where
  "BPManager_init mem =
     \<lparr>bpm_size = length mem, frames = map (\<lambda>fr. fr\<lparr>pin_count := 0\<rparr>) mem,
      page_table = Map.empty, free_list = [0..<length mem],
      bpm_replacer = LRUReplacer_init (length mem)\<rparr>"

definition DeletePageTable :: "BPManager \<Rightarrow> int \<Rightarrow> int \<Rightarrow> BPManager" where
  "DeletePageTable b fd pn =
     (let t = AList.delete pn (case page_table b fd of None \<Rightarrow> [] | Some t \<Rightarrow> t)
      in b\<lparr>page_table := (page_table b)(fd := if t = [] then None else Some t)\<rparr>)"

definition AddPageTable :: "BPManager \<Rightarrow> int \<Rightarrow> int \<Rightarrow> nat \<Rightarrow> BPManager" where
  "AddPageTable b fd pn frame_id =
     (let t = (case page_table b fd of None \<Rightarrow> [] | Some t \<Rightarrow> t)
      in b\<lparr>page_table := (page_table b)(fd \<mapsto> AList.update pn frame_id t)\<rparr>)"

definition get :: "BPManager \<Rightarrow> int \<Rightarrow> int \<Rightarrow> nat option" where
  "get b fd pn = (case page_table b fd of None \<Rightarrow> None | Some t \<Rightarrow> map_of t pn)"

definition alloc :: "BPManager \<Rightarrow> nat option \<times> BPManager" where
  "alloc b =
     (case free_list b of
        frame_id # fs \<Rightarrow>
          (Some frame_id, b\<lparr>free_list := fs, bpm_replacer := Pin (bpm_replacer b) frame_id\<rparr>)
      | [] \<Rightarrow>
          (case Victim (bpm_replacer b) of
             (None, r) \<Rightarrow> (None, b\<lparr>bpm_replacer := r\<rparr>)
           | (Some frame_id, r) \<Rightarrow>
               let fr = frames b ! frame_id;
                   b1 = DeletePageTable (b\<lparr>bpm_replacer := r\<rparr>) (file_desc fr) (page_num (page fr))
               in (Some frame_id, b1\<lparr>bpm_replacer := Pin (bpm_replacer b1) frame_id\<rparr>)))"

definition deleteFrame :: "BPManager \<Rightarrow> int \<Rightarrow> int \<Rightarrow> nat \<Rightarrow> BPManager" where
  "deleteFrame b fd pn frame_id =
     (let b1 = DeletePageTable (b\<lparr>bpm_replacer := Pin (bpm_replacer b) frame_id\<rparr>) fd pn
      in b1\<lparr>free_list := free_list b1 @ [frame_id]\<rparr>)"

section \<open>\<^verbatim>\<open>DiskBufferPool\<close>\<close>

record DiskBufferPool =
  bp_manager :: BPManager
  free_file_ids :: "int list"
  open_file :: "int \<rightharpoonup> BPFileHandle"
  file_name_id :: "string \<rightharpoonup> int"
  os :: Os

definition DiskBufferPool_init :: "Os \<Rightarrow> Frame list \<Rightarrow> DiskBufferPool" where
  "DiskBufferPool_init s mem =
     \<lparr>bp_manager = BPManager_init mem, free_file_ids = map int [0..<nat MAX_OPEN_FILE],
      open_file = Map.empty, file_name_id = Map.empty, os = s\<rparr>"

abbreviation frame_of :: "DiskBufferPool \<Rightarrow> nat \<Rightarrow> Frame" where
  "frame_of s f \<equiv> frames (bp_manager s) ! f"

definition upd_frame :: "nat \<Rightarrow> (Frame \<Rightarrow> Frame) \<Rightarrow> DiskBufferPool \<Rightarrow> DiskBufferPool" where
  "upd_frame f g s =
     s\<lparr>bp_manager := (bp_manager s)\<lparr>frames := (frames (bp_manager s))[f := g (frame_of s f)]\<rparr>\<rparr>"

definition upd_data :: "nat \<Rightarrow> (bytes \<Rightarrow> bytes) \<Rightarrow> DiskBufferPool \<Rightarrow> DiskBufferPool" where
  "upd_data f g = upd_frame f (\<lambda>fr. fr\<lparr>page := (page fr)\<lparr>data := g (data (page fr))\<rparr>\<rparr>)"

subsection \<open>The file header page\<close>

abbreviation hdr_data :: "DiskBufferPool \<Rightarrow> BPFileHandle \<Rightarrow> bytes" where
  "hdr_data s fh \<equiv> data (page (frame_of s (hdr_frame fh)))"

definition hdr_map :: Bitmap where
  "hdr_map = \<lparr>bitmap = BP_FILE_SUB_HDR_SIZE, bsize = 8 * (BP_PAGE_DATA_SIZE - BP_FILE_SUB_HDR_SIZE)\<rparr>"

definition hdr_page_count :: "bytes \<Rightarrow> int" where
  "hdr_page_count d = get_int d 0"

definition hdr_allocated :: "bytes \<Rightarrow> int" where
  "hdr_allocated d = get_int d 4"

definition set_page_count :: "int \<Rightarrow> bytes \<Rightarrow> bytes" where
  "set_page_count n d = put_int d 0 n"

definition set_allocated :: "int \<Rightarrow> bytes \<Rightarrow> bytes" where
  "set_allocated n d = put_int d 4 n"

subsection \<open>Blocks\<close>

definition flush_block :: "DiskBufferPool \<Rightarrow> nat \<Rightarrow> unit result \<times> DiskBufferPool" where
  "flush_block s f =
     (let fr = frame_of s f;
          offset = page_num (page fr) * int BP_PAGE_SIZE;
          (r, os1) = sys_lseek (os s) (file_desc fr) offset in
      if r = offset - 1 then (Inl IOERR_SEEK, s\<lparr>os := os1\<rparr>)
      else let (ok, os2) = sys_write os1 (file_desc fr) (page fr) in
        if \<not> ok then (Inl IOERR_WRITE, s\<lparr>os := os2\<rparr>)
        else (SUCCESS, upd_frame f (dirty_update (\<lambda>_. False)) (s\<lparr>os := os2\<rparr>)))"

definition allocate_block :: "DiskBufferPool \<Rightarrow> nat result \<times> DiskBufferPool" where
  "allocate_block s =
     (case alloc (bp_manager s) of
        (None, b) \<Rightarrow> (Inl NOMEM, s\<lparr>bp_manager := b\<rparr>)
      | (Some f, b) \<Rightarrow>
          let s1 = s\<lparr>bp_manager := b\<rparr> in
          if dirty (frame_of s1 f) then
            (case flush_block s1 f of
               (Inl e, s2) \<Rightarrow> (Inl e, s2)
             | (Inr _, s2) \<Rightarrow> (Inr f, s2))
          else (Inr f, s1))"

definition dispose_block :: "DiskBufferPool \<Rightarrow> nat \<Rightarrow> unit result \<times> DiskBufferPool" where
  "dispose_block s f =
     (if pin_count (frame_of s f) \<noteq> 0 then (Inl LOCKED_UNLOCK, s)
      else
        case (if dirty (frame_of s f) then flush_block s f else (SUCCESS, s)) of
          (Inl e, s1) \<Rightarrow> (Inl e, s1)
        | (Inr _, s1) \<Rightarrow>
            let s2 = upd_frame f (dirty_update (\<lambda>_. False)) s1;
                fr = frame_of s2 f
            in (SUCCESS, s2\<lparr>bp_manager :=
                  deleteFrame (bp_manager s2) (file_desc fr) (page_num (page fr)) f\<rparr>))"

definition check_file_id :: "DiskBufferPool \<Rightarrow> int \<Rightarrow> BPFileHandle result" where
  "check_file_id s file_id =
     (if file_id < 0 \<or> file_id \<ge> MAX_OPEN_FILE then Inl BUFFERPOOL_ILLEGAL_FILE_ID
      else case open_file s file_id of
             None \<Rightarrow> Inl BUFFERPOOL_ILLEGAL_FILE_ID
           | Some fh \<Rightarrow> Inr fh)"

text \<open>For a negative page number the C++ shifts by a negative amount: undefined behaviour.\<close>

definition check_page_num :: "DiskBufferPool \<Rightarrow> int \<Rightarrow> BPFileHandle \<Rightarrow> unit result" where
  "check_page_num s pn fh =
     (if pn \<ge> hdr_page_count (hdr_data s fh) then Inl BUFFERPOOL_INVALID_PAGE_NUM
      else if pn < 0 then Inl UB
      else if \<not> get_bit (hdr_data s fh) hdr_map (nat pn) then Inl BUFFERPOOL_INVALID_PAGE_NUM
      else SUCCESS)"

definition load_page :: "DiskBufferPool \<Rightarrow> int \<Rightarrow> BPFileHandle \<Rightarrow> nat \<Rightarrow> unit result \<times> DiskBufferPool" where
  "load_page s pn fh f =
     (let offset = pn * int BP_PAGE_SIZE;
          (r, os1) = sys_lseek (os s) (fh_desc fh) offset in
      if r = - 1 then (Inl IOERR_SEEK, s\<lparr>os := os1\<rparr>)
      else case sys_read os1 (fh_desc fh) of
          (None, os2) \<Rightarrow> (Inl IOERR_READ, s\<lparr>os := os2\<rparr>)
        | (Some pg, os2) \<Rightarrow> (SUCCESS, upd_frame f (page_update (\<lambda>_. pg)) (s\<lparr>os := os2\<rparr>)))"

subsection \<open>Files\<close>

definition header_page :: Page where
  "header_page =
     (let d = set_page_count 1 (set_allocated 1 (data zero_page))
      in \<lparr>page_num = 0, data = d(BP_FILE_SUB_HDR_SIZE := or (d BP_FILE_SUB_HDR_SIZE) 1)\<rparr>)"

definition create_file :: "DiskBufferPool \<Rightarrow> string \<Rightarrow> unit result \<times> DiskBufferPool" where
  "create_file s name =
     (let (fd, os1) = sys_open_creat (os s) name in
      if fd < 0 then (Inl SCHEMA_DB_EXIST, s\<lparr>os := os1\<rparr>)
      else let (_, os2) = sys_close os1 fd; (fd2, os3) = sys_open os2 name in
      if fd2 < 0 then (Inl IOERR_ACCESS, s\<lparr>os := os3\<rparr>)
      else let (r, os4) = sys_lseek os3 fd2 0 in
      if r = - 1 then let (_, os5) = sys_close os4 fd2 in (Inl IOERR_SEEK, s\<lparr>os := os5\<rparr>)
      else let (ok, os5) = sys_write os4 fd2 header_page; (_, os6) = sys_close os5 fd2 in
      if \<not> ok then (Inl IOERR_WRITE, s\<lparr>os := os6\<rparr>)
      else (SUCCESS, s\<lparr>os := os6\<rparr>))"

definition drop_file :: "DiskBufferPool \<Rightarrow> string \<Rightarrow> unit result \<times> DiskBufferPool" where
  "drop_file s name =
     (let (r, os1) = sys_unlink (os s) name
      in if r = - 1 then (Inl IOERR, s\<lparr>os := os1\<rparr>) else (SUCCESS, s\<lparr>os := os1\<rparr>))"

definition close_fd :: "DiskBufferPool \<Rightarrow> int \<Rightarrow> DiskBufferPool" where
  "close_fd s fd = s\<lparr>os := snd (sys_close (os s) fd)\<rparr>"

text \<open>A frame just taken by \<^verbatim>\<open>allocate_block\<close> is claimed for a file before it is loaded.\<close>

definition claim_frame :: "nat \<Rightarrow> int \<Rightarrow> DiskBufferPool \<Rightarrow> DiskBufferPool" where
  "claim_frame f fd = upd_frame f (\<lambda>fr. fr\<lparr>dirty := False, file_desc := fd, pin_count := 1\<rparr>)"

definition add_page_table :: "DiskBufferPool \<Rightarrow> int \<Rightarrow> int \<Rightarrow> nat \<Rightarrow> DiskBufferPool" where
  "add_page_table s fd pn f = s\<lparr>bp_manager := AddPageTable (bp_manager s) fd pn f\<rparr>"

definition open_file_op :: "DiskBufferPool \<Rightarrow> string option \<Rightarrow> int result \<times> DiskBufferPool" where
  "open_file_op s name_opt =
     (case name_opt of
        None \<Rightarrow> (Inl BUFFERPOOL_FILEERR, s)
      | Some name \<Rightarrow>
          (case file_name_id s name of
             Some fid \<Rightarrow> (Inr fid, s)
           | None \<Rightarrow>
               if free_file_ids s = [] then (Inl BUFFERPOOL_OPEN_TOO_MANY_FILES, s)
               else let (fd, os1) = sys_open (os s) name; s1 = s\<lparr>os := os1\<rparr> in
               if fd < 0 then (Inl IOERR_ACCESS, s1)
               else (case allocate_block s1 of
                   (Inl e, s2) \<Rightarrow> (Inl e, close_fd s2 fd)
                 | (Inr f, s2) \<Rightarrow>
                     let fh = \<lparr>bopen = True, file_name = name, fh_desc = fd, hdr_frame = f\<rparr> in
                     (case load_page (claim_frame f fd s2) 0 fh f of
                        (Inl e, s3) \<Rightarrow>
                          let s4 = snd (dispose_block (upd_frame f (pin_count_update (\<lambda>_. 0)) s3) f)
                          in (Inl e, close_fd s4 fd)
                      | (Inr _, s3) \<Rightarrow>
                          let s4 = add_page_table s3 fd 0 f;
                              fid = hd (free_file_ids s4)
                          in (Inr fid, s4\<lparr>free_file_ids := tl (free_file_ids s4),
                                          open_file := (open_file s4)(fid \<mapsto> fh),
                                          file_name_id := (file_name_id s4)(name \<mapsto> fid)\<rparr>)))))"

subsection \<open>Pages\<close>

definition get_this_page ::
  "DiskBufferPool \<Rightarrow> int \<Rightarrow> int \<Rightarrow> BPPageHandle \<Rightarrow> unit result \<times> BPPageHandle \<times> DiskBufferPool" where
  "get_this_page s file_id pn ph =
     (case check_file_id s file_id of
        Inl e \<Rightarrow> (Inl e, ph, s)
      | Inr fh \<Rightarrow>
          (case check_page_num s pn fh of
             Inl e \<Rightarrow> (Inl e, ph, s)
           | Inr _ \<Rightarrow>
               (case get (bp_manager s) (fh_desc fh) pn of
                  Some f \<Rightarrow>
                    let s1 = upd_frame f (\<lambda>fr. fr\<lparr>pin_count := pin_count fr + 1\<rparr>) s;
                        b = bp_manager s1
                    in (SUCCESS, \<lparr>ph_open = True, ph_frame = Some f\<rparr>,
                        s1\<lparr>bp_manager := b\<lparr>bpm_replacer := Pin (bpm_replacer b) f\<rparr>\<rparr>)
                | None \<Rightarrow>
                    (case allocate_block s of
                       (Inl e, s1) \<Rightarrow> (Inl e, ph, s1)
                     | (Inr f, s1) \<Rightarrow>
                         let ph1 = ph\<lparr>ph_frame := Some f\<rparr> in
                         (case load_page (claim_frame f (fh_desc fh) s1) pn fh f of
                            (Inl e, s2) \<Rightarrow>
                              (Inl e, ph1, snd (dispose_block (upd_frame f (pin_count_update (\<lambda>_. 0)) s2) f))
                          | (Inr _, s2) \<Rightarrow>
                              (SUCCESS, ph1\<lparr>ph_open := True\<rparr>, add_page_table s2 (fh_desc fh) pn f))))))"

text \<open>
  The loop over the header's bit map: the first clear bit below \<^verbatim>\<open>page_count\<close>.  A new page
  whose bit lies past the end of the header page makes the code write outside the frame.
\<close>

definition first_free_page :: "bytes \<Rightarrow> nat option" where
  "first_free_page d = find (\<lambda>i. \<not> get_bit d hdr_map i) [0..<nat (hdr_page_count d)]"

definition allocate_page ::
  "DiskBufferPool \<Rightarrow> int \<Rightarrow> BPPageHandle \<Rightarrow> unit result \<times> BPPageHandle \<times> DiskBufferPool" where
  "allocate_page s file_id ph =
     (case check_file_id s file_id of
        Inl e \<Rightarrow> (Inl e, ph, s)
      | Inr fh \<Rightarrow>
          let d = hdr_data s fh; h = hdr_frame fh in
          (case (if hdr_allocated d < hdr_page_count d then first_free_page d else None) of
             Some i \<Rightarrow>
               get_this_page
                 (upd_data h (\<lambda>d. set_bit (set_allocated (hdr_allocated d + 1) d) hdr_map i) s)
                 file_id (int i) ph
           | None \<Rightarrow>
               (case allocate_block s of
                  (Inl e, s1) \<Rightarrow> (Inl e, ph, s1)
                | (Inr f, s1) \<Rightarrow>
                    let pn = hdr_page_count (hdr_data s1 fh) in
                    if pn < 0 \<or> int (bsize hdr_map) \<le> pn then (Inl UB, ph, s1) else
                    let s2 = upd_data h (\<lambda>d. set_bit (set_page_count (hdr_page_count d + 1)
                               (set_allocated (hdr_allocated d + 1) d)) hdr_map (nat pn)) s1;
                        s3 = upd_frame h (dirty_update (\<lambda>_. True)) s2;
                        s4 = upd_frame f (\<lambda>fr. fr\<lparr>acc_time := os_clock (os s3),
                               page := \<lparr>page_num = hdr_page_count (hdr_data s3 fh) - 1,
                                        data = data zero_page\<rparr>\<rparr>)
                               (claim_frame f (fh_desc fh) s3);
                        s5 = add_page_table s4 (fh_desc fh) (page_num (page (frame_of s4 f))) f;
                        ph1 = ph\<lparr>ph_frame := Some f\<rparr>
                    in (case flush_block s5 f of
                          (Inl e, s6) \<Rightarrow> (Inl e, ph1, s6)
                        | (Inr _, s6) \<Rightarrow> (SUCCESS, ph1\<lparr>ph_open := True\<rparr>, s6)))))"

definition get_page_num :: "DiskBufferPool \<Rightarrow> BPPageHandle \<Rightarrow> int result" where
  "get_page_num s ph =
     (if \<not> ph_open ph then Inl BUFFERPOOL_CLOSED
      else case ph_frame ph of None \<Rightarrow> Inl UB | Some f \<Rightarrow> Inr (page_num (page (frame_of s f))))"

definition get_data :: "DiskBufferPool \<Rightarrow> BPPageHandle \<Rightarrow> bytes result" where
  "get_data s ph =
     (if \<not> ph_open ph then Inl BUFFERPOOL_CLOSED
      else case ph_frame ph of None \<Rightarrow> Inl UB | Some f \<Rightarrow> Inr (data (page (frame_of s f))))"

definition mark_dirty :: "DiskBufferPool \<Rightarrow> BPPageHandle \<Rightarrow> unit result \<times> DiskBufferPool" where
  "mark_dirty s ph =
     (case ph_frame ph of
        None \<Rightarrow> (Inl UB, s)
      | Some f \<Rightarrow> (SUCCESS, upd_frame f (dirty_update (\<lambda>_. True)) s))"

definition unpin_page ::
  "DiskBufferPool \<Rightarrow> BPPageHandle \<Rightarrow> unit result \<times> BPPageHandle \<times> DiskBufferPool" where
  "unpin_page s ph =
     (case ph_frame ph of
        None \<Rightarrow> (Inl UB, ph, s)
      | Some f \<Rightarrow>
          let s1 = upd_frame f (\<lambda>fr. fr\<lparr>pin_count := pin_count fr - 1\<rparr>) s;
              b = bp_manager s1
          in (SUCCESS, ph\<lparr>ph_open := False\<rparr>,
              if pin_count (frame_of s1 f) = 0
              then s1\<lparr>bp_manager := b\<lparr>bpm_replacer := Unpin (bpm_replacer b) f\<rparr>\<rparr>
              else s1))"

definition dispose_page :: "DiskBufferPool \<Rightarrow> int \<Rightarrow> int \<Rightarrow> unit result \<times> DiskBufferPool" where
  "dispose_page s file_id pn =
     (case check_file_id s file_id of
        Inl e \<Rightarrow> (Inl e, s)
      | Inr fh \<Rightarrow>
          (case check_page_num s pn fh of
             Inl e \<Rightarrow> (Inl e, s)
           | Inr _ \<Rightarrow>
               (case get (bp_manager s) (fh_desc fh) pn of
                  None \<Rightarrow> (Inl BUFFERPOOL_PAGE_PINNED, s)
                | Some f \<Rightarrow>
                    if pin_count (frame_of s f) \<noteq> 0 then (Inl BUFFERPOOL_PAGE_PINNED, s)
                    else
                      let s1 = s\<lparr>bp_manager := deleteFrame (bp_manager s) (fh_desc fh) pn f\<rparr>;
                          s2 = upd_frame (hdr_frame fh) (dirty_update (\<lambda>_. True)) s1
                      in (SUCCESS, upd_data (hdr_frame fh) (\<lambda>d. clear_bit
                            (set_allocated (hdr_allocated d - 1) d) hdr_map (nat pn)) s2))))"

subsection \<open>Forcing pages out\<close>

definition table_of :: "DiskBufferPool \<Rightarrow> int \<Rightarrow> (int \<times> nat) list" where
  "table_of s fd = (case page_table (bp_manager s) fd of None \<Rightarrow> [] | Some t \<Rightarrow> t)"

text \<open>\<^verbatim>\<open>page_table_[fd]\<close> inserts an empty table when there is none.\<close>

definition touch_table :: "DiskBufferPool \<Rightarrow> int \<Rightarrow> DiskBufferPool" where
  "touch_table s fd = s\<lparr>bp_manager := (bp_manager s)\<lparr>page_table :=
     (page_table (bp_manager s))(fd \<mapsto> table_of s fd)\<rparr>\<rparr>"

fun force_check :: "DiskBufferPool \<Rightarrow> (int \<times> nat) list \<Rightarrow> unit result \<times> DiskBufferPool" where
  "force_check s [] = (SUCCESS, s)"
| "force_check s ((pn, f) # t) =
     (if pin_count (frame_of s f) \<noteq> 0 then (Inl BUFFERPOOL_PAGE_PINNED, s)
      else case (if dirty (frame_of s f) then flush_block s f else (SUCCESS, s)) of
             (Inl e, s1) \<Rightarrow> (Inl e, s1)
           | (Inr _, s1) \<Rightarrow> force_check s1 t)"

fun force_delete :: "DiskBufferPool \<Rightarrow> int \<Rightarrow> (int \<times> nat) list \<Rightarrow> DiskBufferPool" where
  "force_delete s fd [] = s"
| "force_delete s fd ((pn, f) # t) =
     (let s1 = snd (flush_block s f)
      in force_delete (s1\<lparr>bp_manager := deleteFrame (bp_manager s1) fd pn f\<rparr>) fd t)"

definition force_page_handle :: "DiskBufferPool \<Rightarrow> BPFileHandle \<Rightarrow> int \<Rightarrow> unit result \<times> DiskBufferPool" where
  "force_page_handle s fh pn =
     (if pn = - 1 then
        let s1 = touch_table s (fh_desc fh); t = table_of s (fh_desc fh) in
        (case force_check s1 t of
           (Inl e, s2) \<Rightarrow> (Inl e, s2)
         | (Inr _, s2) \<Rightarrow> (SUCCESS, force_delete s2 (fh_desc fh) t))
      else
        (case get (bp_manager s) (fh_desc fh) pn of
           None \<Rightarrow> (SUCCESS, s)
         | Some f \<Rightarrow>
             if pin_count (frame_of s f) \<noteq> 0 then (Inl BUFFERPOOL_PAGE_PINNED, s)
             else (case (if dirty (frame_of s f) then flush_block s f else (SUCCESS, s)) of
                 (Inl e, s1) \<Rightarrow> (Inl e, s1)
               | (Inr _, s1) \<Rightarrow>
                   (SUCCESS, s1\<lparr>bp_manager := deleteFrame (bp_manager s1) (fh_desc fh) pn f\<rparr>))))"

definition force_page :: "DiskBufferPool \<Rightarrow> int \<Rightarrow> int \<Rightarrow> unit result \<times> DiskBufferPool" where
  "force_page s file_id pn =
     (case check_file_id s file_id of
        Inl e \<Rightarrow> (Inl e, s)
      | Inr fh \<Rightarrow> force_page_handle s fh pn)"

text \<open>
  The first loop of \<^verbatim>\<open>force_all_pages\<close> flushes the dirty frames and collects the pairs
  \<^verbatim>\<open>{it.second, it.second}\<close>: the frame number twice, where \<^verbatim>\<open>force_page\<close> has the page
  number and the frame number.
\<close>

fun force_all_flush ::
  "DiskBufferPool \<Rightarrow> (int \<times> nat) list \<Rightarrow> (int \<times> nat) list \<Rightarrow> (int \<times> nat) list result \<times> DiskBufferPool" where
  "force_all_flush s deleted [] = (Inr deleted, s)"
| "force_all_flush s deleted ((pn, f) # t) =
     (if dirty (frame_of s f) then
        (case flush_block s f of
           (Inl e, s1) \<Rightarrow> (Inl e, s1)
         | (Inr _, s1) \<Rightarrow> force_all_flush s1 (deleted @ [(int f, f)]) t)
      else force_all_flush s deleted t)"

definition force_all_pages :: "DiskBufferPool \<Rightarrow> BPFileHandle \<Rightarrow> unit result \<times> DiskBufferPool" where
  "force_all_pages s fh =
     (case force_all_flush (touch_table s (fh_desc fh)) [] (table_of s (fh_desc fh)) of
        (Inl e, s1) \<Rightarrow> (Inl e, s1)
      | (Inr deleted, s1) \<Rightarrow> (SUCCESS, force_delete s1 (fh_desc fh) deleted))"

definition flush_all_pages :: "DiskBufferPool \<Rightarrow> int \<Rightarrow> unit result \<times> DiskBufferPool" where
  "flush_all_pages s file_id =
     (case check_file_id s file_id of
        Inl e \<Rightarrow> (Inl e, s)
      | Inr fh \<Rightarrow> force_all_pages s fh)"

definition close_file :: "DiskBufferPool \<Rightarrow> int \<Rightarrow> unit result \<times> DiskBufferPool" where
  "close_file s file_id =
     (case check_file_id s file_id of
        Inl e \<Rightarrow> (Inl e, s)
      | Inr fh \<Rightarrow>
          (case force_all_pages
                  (upd_frame (hdr_frame fh) (\<lambda>fr. fr\<lparr>pin_count := pin_count fr - 1\<rparr>) s) fh of
             (Inl e, s1) \<Rightarrow>
               (Inl e, upd_frame (hdr_frame fh) (\<lambda>fr. fr\<lparr>pin_count := pin_count fr + 1\<rparr>) s1)
           | (Inr _, s1) \<Rightarrow>
               let (r, os1) = sys_close (os s1) (fh_desc fh); s2 = s1\<lparr>os := os1\<rparr> in
               if r < 0 then (Inl IOERR_CLOSE, s2)
               else (SUCCESS, s2\<lparr>free_file_ids := free_file_ids s2 @ [file_id],
                                 open_file := (open_file s2)(file_id := None),
                                 file_name_id := (file_name_id s2)(file_name fh := None)\<rparr>)))"

definition get_page_count :: "DiskBufferPool \<Rightarrow> int \<Rightarrow> int result" where
  "get_page_count s file_id =
     (case check_file_id s file_id of
        Inl e \<Rightarrow> Inl e
      | Inr fh \<Rightarrow> Inr (hdr_page_count (hdr_data s fh)))"

end
