(* ===== verification/Pool_Invariant.thy ===== *)
theory Pool_Invariant
  imports Buffer_Pool
begin

text \<open>
  What the buffer pool keeps true.  \<open>wf_bpm L b\<close> ties the free list, the page table and the
  replacer of a \<^verbatim>\<open>BPManager\<close> together; \<open>L\<close> are the frames in the hands of a running
  operation.  \<open>wf_pool\<close> adds the open files and the disk.  \<open>view\<close> is what a page holds for
  the clients, whether it is buffered or not: the operations are correct when they change no
  view but the ones they are meant to change.
\<close>

section \<open>File-system calls without faults\<close>

definition os_eq :: "Os \<Rightarrow> Os \<Rightarrow> bool" where
  "os_eq s t \<longleftrightarrow> os_names t = os_names s \<and> os_inodes t = os_inodes s \<and> os_next t = os_next s \<and>
     fd_inode t = fd_inode s \<and> os_fault t = os_fault s \<and> os_clock t = os_clock s"

lemma os_eq_refl [simp]: "os_eq s s"
  by (simp add: os_eq_def)

lemma os_eq_trans: "os_eq s t \<Longrightarrow> os_eq t u \<Longrightarrow> os_eq s u"
  by (simp add: os_eq_def)

lemma os_eq_no_fault: "os_eq s t \<Longrightarrow> no_fault t = no_fault s"
  by (simp add: os_eq_def no_fault_def)

lemma os_eq_disk_page: "os_eq s t \<Longrightarrow> disk_page t = disk_page s"
  by (intro ext) (auto simp: os_eq_def disk_page_def split: option.splits)

lemma fd_entry_update:
  "fd_entry s fd \<noteq> None \<Longrightarrow>
   fd_entry (s\<lparr>os_fds := (os_fds s)[nat fd := Some e]\<rparr>) fd' =
     (if fd' = fd then Some e else fd_entry s fd')"
  by (auto simp: fd_entry_def nth_list_update split: if_splits)

lemma fd_entry_simps [simp]:
  "fd_entry (s\<lparr>os_tick := k\<rparr>) = fd_entry s"
  "fd_entry (s\<lparr>os_inodes := g\<rparr>) = fd_entry s"
  "fd_inode (s\<lparr>os_tick := k\<rparr>) = fd_inode s"
  "fd_inode (s\<lparr>os_inodes := g\<rparr>) = fd_inode s"
  by (auto simp: fd_entry_def fd_inode_def fun_eq_iff)

lemma os_eq_inodes:
  "os_eq s t \<Longrightarrow> os_eq (t\<lparr>os_inodes := g\<rparr>) u \<Longrightarrow> os_eq (s\<lparr>os_inodes := g\<rparr>) u"
  by (simp add: os_eq_def)

lemma fd_inode_update:
  "fd_entry s fd = Some (ino, pos) \<Longrightarrow>
   fd_inode (s\<lparr>os_fds := (os_fds s)[nat fd := Some (ino, pos')]\<rparr>) = fd_inode s"
  using fd_entry_update [of s fd "(ino, pos')"] by (auto simp: fd_inode_def fun_eq_iff)

lemma enter_ok: "no_fault s \<Longrightarrow> enter s = (False, s\<lparr>os_tick := os_tick s + 1\<rparr>)"
  by (simp add: enter_def no_fault_def)

lemma lseek_ok:
  assumes "no_fault s" "fd_inode s fd = Some ino" "0 \<le> off"
  shows "\<exists>t. sys_lseek s fd off = (off, t) \<and> os_eq s t \<and> fd_entry t fd = Some (ino, off)"
proof -
  obtain pos where e: "fd_entry s fd = Some (ino, pos)"
    using assms(2) by (auto simp: fd_inode_def)
  let ?s = "s\<lparr>os_tick := os_tick s + 1\<rparr>"
  let ?t = "?s\<lparr>os_fds := (os_fds ?s)[nat fd := Some (ino, off)]\<rparr>"
  have "sys_lseek s fd off = (off, ?t)"
    using e assms(3) by (simp add: sys_lseek_def enter_ok [OF assms(1)])
  moreover have "os_eq s ?t"
    using fd_inode_update [of ?s fd ino pos off] e by (simp add: os_eq_def)
  moreover have "fd_entry ?t fd = Some (ino, off)"
    using fd_entry_update [of ?s fd "(ino, off)" fd] e by simp
  ultimately show ?thesis by blast
qed

definition put_inode :: "Os \<Rightarrow> nat \<Rightarrow> nat \<Rightarrow> Page \<Rightarrow> Os" where
  "put_inode s ino i pg = s\<lparr>os_inodes := (os_inodes s)(ino := put_page (os_inodes s ino) i pg)\<rparr>"

lemma write_ok:
  assumes "no_fault s" "fd_entry s fd = Some (ino, pos)"
  shows "\<exists>t. sys_write s fd pg = (True, t) \<and> os_eq (put_inode s ino (page_index pos) pg) t"
proof -
  let ?s = "s\<lparr>os_tick := os_tick s + 1,
    os_inodes := (os_inodes s)(ino := put_page (os_inodes s ino) (page_index pos) pg)\<rparr>"
  have "fd_inode (?s\<lparr>os_fds := (os_fds ?s)[nat fd := Some (ino, pos + int BP_PAGE_SIZE)]\<rparr>) = fd_inode s"
    using fd_inode_update [of ?s fd ino pos] assms(2) by simp
  then show ?thesis
    using assms(2) by (auto simp: sys_write_def enter_ok [OF assms(1)] os_eq_def put_inode_def)
qed

lemma read_ok:
  assumes "no_fault s" "fd_entry s fd = Some (ino, pos)" "page_index pos < length (os_inodes s ino)"
  shows "\<exists>t. sys_read s fd = (Some (os_inodes s ino ! page_index pos), t) \<and> os_eq s t"
proof -
  let ?s = "s\<lparr>os_tick := os_tick s + 1\<rparr>"
  have "fd_inode (?s\<lparr>os_fds := (os_fds ?s)[nat fd := Some (ino, pos + int BP_PAGE_SIZE)]\<rparr>) = fd_inode s"
    using fd_inode_update [of ?s fd ino pos] assms(2) by simp
  then show ?thesis
    using assms(2,3) by (auto simp: sys_read_def enter_ok [OF assms(1)] os_eq_def)
qed

lemma disk_page_put_inode:
  assumes "fd_inode s fd = Some ino" "0 \<le> pn" "nat pn \<le> length (os_inodes s ino)"
  shows "disk_page (put_inode s ino (nat pn) pg) fd' pn' =
    (if fd_inode s fd' = Some ino \<and> pn' = pn then Some pg else disk_page s fd' pn')"
proof (cases "fd_inode s fd' = Some ino")
  case True
  then show ?thesis
    using assms by (auto simp: disk_page_def put_inode_def length_put_page nth_put_page)
next
  case False
  then show ?thesis
    by (auto simp: disk_page_def put_inode_def split: option.splits)
qed

section \<open>The page table\<close>

lemma get_DeletePageTable [simp]:
  "get (DeletePageTable b fd pn) fd' pn' = (if fd' = fd \<and> pn' = pn then None else get b fd' pn')"
proof -
  have "map_of (AList.delete pn t) pn' = None" if "AList.delete pn t = []" for t :: "(int \<times> nat) list"
    using that by simp
  then show ?thesis
    by (auto simp: get_def DeletePageTable_def Let_def fun_upd_def split: option.splits)
       (metis fun_upd_apply map_of.simps(1) map_of_delete)+
qed

lemma get_AddPageTable [simp]:
  "get (AddPageTable b fd pn f) fd' pn' = (if fd' = fd \<and> pn' = pn then Some f else get b fd' pn')"
  by (auto simp: get_def AddPageTable_def Let_def split: option.splits)

lemma table_simps [simp]:
  "frames (DeletePageTable b fd pn) = frames b"
  "free_list (DeletePageTable b fd pn) = free_list b"
  "bpm_replacer (DeletePageTable b fd pn) = bpm_replacer b"
  "bpm_size (DeletePageTable b fd pn) = bpm_size b"
  "frames (AddPageTable b fd pn f) = frames b"
  "free_list (AddPageTable b fd pn f) = free_list b"
  "bpm_replacer (AddPageTable b fd pn f) = bpm_replacer b"
  "bpm_size (AddPageTable b fd pn f) = bpm_size b"
  by (simp_all add: DeletePageTable_def AddPageTable_def Let_def)

lemma get_update_simps [simp]:
  "get (b\<lparr>frames := x\<rparr>) = get b"
  "get (b\<lparr>free_list := y\<rparr>) = get b"
  "get (b\<lparr>bpm_replacer := z\<rparr>) = get b"
  by (auto simp: get_def fun_eq_iff)

definition tables_ok :: "BPManager \<Rightarrow> bool" where
  "tables_ok b \<longleftrightarrow> (\<forall>fd t. page_table b fd = Some t \<longrightarrow> distinct (map fst t))"

lemma tables_ok_Delete: "tables_ok b \<Longrightarrow> tables_ok (DeletePageTable b fd pn)"
  by (auto simp: tables_ok_def DeletePageTable_def Let_def distinct_delete split: option.splits if_splits)

lemma tables_ok_Add: "tables_ok b \<Longrightarrow> tables_ok (AddPageTable b fd pn f)"
  by (auto simp: tables_ok_def AddPageTable_def Let_def distinct_update split: option.splits if_splits)

lemma tables_ok_simps [simp]:
  "tables_ok (b\<lparr>frames := x\<rparr>) = tables_ok b"
  "tables_ok (b\<lparr>free_list := y\<rparr>) = tables_ok b"
  "tables_ok (b\<lparr>bpm_replacer := z\<rparr>) = tables_ok b"
  by (auto simp: tables_ok_def)

section \<open>The frame invariant\<close>

definition mapped :: "BPManager \<Rightarrow> nat \<Rightarrow> bool" where
  "mapped b f \<longleftrightarrow> (\<exists>fd pn. get b fd pn = Some f)"

definition wf_bpm :: "nat set \<Rightarrow> BPManager \<Rightarrow> bool" where
  "wf_bpm L b \<longleftrightarrow>
     bpm_size b = length (frames b) \<and>
     wf_lru (bpm_replacer b) \<and> capacity (bpm_replacer b) = length (frames b) \<and>
     distinct (free_list b) \<and> set (free_list b) \<inter> L = {} \<and> tables_ok b \<and>
     (\<forall>fd pn f. get b fd pn = Some f \<longrightarrow>
        f < length (frames b) \<and> file_desc (frames b ! f) = fd \<and> page_num (page (frames b ! f)) = pn) \<and>
     (\<forall>f. f \<in> set (cache_list (bpm_replacer b)) \<longleftrightarrow> mapped b f \<and> pin_count (frames b ! f) = 0) \<and>
     (\<forall>f. f \<in> set (free_list b) \<or> f \<in> L \<longleftrightarrow> f < length (frames b) \<and> \<not> mapped b f)"

lemma wf_bpm_get:
  "wf_bpm L b \<Longrightarrow> get b fd pn = Some f \<Longrightarrow>
   f < length (frames b) \<and> file_desc (frames b ! f) = fd \<and> page_num (page (frames b ! f)) = pn"
  by (simp add: wf_bpm_def)

lemma wf_bpm_inj:
  "wf_bpm L b \<Longrightarrow> get b fd pn = Some f \<Longrightarrow> get b fd' pn' = Some f \<Longrightarrow> fd' = fd \<and> pn' = pn"
  by (metis wf_bpm_get)

lemma wf_bpm_lru:
  "wf_bpm L b \<Longrightarrow> f \<in> set (cache_list (bpm_replacer b)) \<longleftrightarrow> mapped b f \<and> pin_count (frames b ! f) = 0"
  by (simp add: wf_bpm_def)

lemma wf_bpm_free:
  "wf_bpm L b \<Longrightarrow> f \<in> set (free_list b) \<or> f \<in> L \<longleftrightarrow> f < length (frames b) \<and> \<not> mapped b f"
  by (simp add: wf_bpm_def)

lemma mappedI: "get b fd pn = Some f \<Longrightarrow> mapped b f"
  by (auto simp: mapped_def)

lemma mapped_simps [simp]:
  "mapped (b\<lparr>frames := x\<rparr>) = mapped b"
  "mapped (b\<lparr>free_list := y\<rparr>) = mapped b"
  "mapped (b\<lparr>bpm_replacer := z\<rparr>) = mapped b"
  by (simp_all add: mapped_def fun_eq_iff)

lemma mapped_Delete:
  "wf_bpm L b \<Longrightarrow> get b fd pn = Some f \<Longrightarrow>
   mapped (DeletePageTable b fd pn) g \<longleftrightarrow> mapped b g \<and> g \<noteq> f"
  unfolding mapped_def get_DeletePageTable by (metis (no_types) option.inject option.simps(3) wf_bpm_inj)

lemma mapped_Add:
  "get b fd pn = None \<Longrightarrow> mapped (AddPageTable b fd pn f) g \<longleftrightarrow> mapped b g \<or> g = f"
  unfolding mapped_def get_AddPageTable by (metis option.inject option.simps(3))

text \<open>The constructor: \<open>mapped\<close> is empty, every frame is free.\<close>

lemma wf_bpm_init: "wf_bpm {} (BPManager_init mem)"
proof -
  have g: "get (BPManager_init mem) fd pn = None" for fd pn
    by (simp add: get_def BPManager_init_def)
  then show ?thesis
    by (auto simp: wf_bpm_def BPManager_init_def mapped_def tables_ok_def LRUReplacer_init_def
        wf_lru_def)
qed

subsection \<open>Allocation of a frame\<close>

lemma alloc_None:
  assumes wf: "wf_bpm L b" and a: "alloc b = (None, b')"
  shows "b' = b \<and> free_list b = [] \<and> (\<forall>f. mapped b f \<longrightarrow> pin_count (frames b ! f) \<noteq> 0)"
proof -
  have lru: "wf_lru (bpm_replacer b)" using wf by (simp add: wf_bpm_def)
  have fl: "free_list b = []" using a by (auto simp: alloc_def Let_def split: list.splits)
  with a obtain r where v: "Victim (bpm_replacer b) = (None, r)" and b': "b' = b\<lparr>bpm_replacer := r\<rparr>"
    by (auto simp: alloc_def Let_def split: prod.splits option.splits)
  then have "cache_list (bpm_replacer b) = []"
    using lru.victim_some [OF lru] by fastforce
  moreover from this have "r = bpm_replacer b" using v lru.victim_none [OF lru] by simp
  ultimately show ?thesis using fl b' wf_bpm_lru [OF wf] by auto
qed

lemma alloc_Some:
  assumes wf: "wf_bpm {} b" and a: "alloc b = (Some f, b')"
  shows "wf_bpm {f} b' \<and> frames b' = frames b \<and> f < length (frames b) \<and>
    (\<forall>fd pn. get b' fd pn = (if get b fd pn = Some f then None else get b fd pn)) \<and>
    (mapped b f \<longrightarrow> pin_count (frames b ! f) = 0)"
proof (cases "free_list b")
  case (Cons g fs)
  then have f: "g = f" and b': "b' = b\<lparr>free_list := fs, bpm_replacer := Pin (bpm_replacer b) f\<rparr>"
    using a by (auto simp: alloc_def)
  have nm: "f < length (frames b)" "\<not> mapped b f"
    using wf_bpm_free [OF wf, of f] Cons f by auto
  have "cache_list (Pin (bpm_replacer b) f) = cache_list (bpm_replacer b)"
    using wf nm wf_bpm_lru [OF wf, of f] by (simp add: Pin_cands wf_bpm_def removeAll_id)
  moreover have "x \<in> set fs \<or> x = f \<longleftrightarrow> x < length (frames b) \<and> \<not> mapped b x" for x
    using wf_bpm_free [OF wf, of x] Cons f by auto
  moreover have "distinct fs" "f \<notin> set fs" using wf Cons f by (auto simp: wf_bpm_def)
  ultimately have "wf_bpm {f} b'"
    using wf unfolding wf_bpm_def b' by (simp add: wf_lru_Pin lru.pin_cap)
  then show ?thesis using nm b' by (auto simp: mapped_def)
next
  case Nil
  have lru: "wf_lru (bpm_replacer b)" using wf by (simp add: wf_bpm_def)
  let ?fd = "file_desc (frames b ! f)" and ?pn = "page_num (page (frames b ! f))"
  from a Nil obtain r where v: "Victim (bpm_replacer b) = (Some f, r)"
    and b': "b' = (DeletePageTable (b\<lparr>bpm_replacer := r\<rparr>) ?fd ?pn)\<lparr>bpm_replacer := Pin r f\<rparr>"
    by (auto simp: alloc_def Let_def split: prod.splits option.splits)
  have fm: "mapped b f" "pin_count (frames b ! f) = 0"
    using lru.victim_in [OF lru v] wf_bpm_lru [OF wf] by auto
  then have g: "get b ?fd ?pn = Some f" and fn: "f < length (frames b)"
    using wf_bpm_get [OF wf] unfolding mapped_def by metis+
  have r: "wf_lru r" "capacity r = capacity (bpm_replacer b)"
      "set (cache_list r) = set (cache_list (bpm_replacer b)) - {f}"
    using lru.victim_invar [OF lru v] lru.victim_set [OF lru v] by auto
  have wfr: "wf_bpm {} (b\<lparr>bpm_replacer := bpm_replacer b\<rparr>)" using wf by simp
  have m': "mapped b' x \<longleftrightarrow> mapped b x \<and> x \<noteq> f" for x
  proof -
    have "mapped b' x = mapped (DeletePageTable b ?fd ?pn) x"
      unfolding mapped_def b' by (simp only: get_update_simps get_DeletePageTable)
    then show ?thesis using mapped_Delete [OF wf g, of x] by simp
  qed
  have get': "get b' fd pn = (if get b fd pn = Some f then None else get b fd pn)" for fd pn
  proof -
    have "get b fd pn = Some f \<longleftrightarrow> fd = ?fd \<and> pn = ?pn" using wf_bpm_inj [OF wf g, of fd pn] g by metis
    then show ?thesis unfolding b' by (simp only: get_update_simps get_DeletePageTable if_True if_False)
  qed
  have "x \<in> set (cache_list (Pin r f)) \<longleftrightarrow> mapped b' x \<and> pin_count (frames b ! x) = 0" for x
    using r m' wf_bpm_lru [OF wf, of x] by (simp add: Pin_cands) blast
  moreover have "x = f \<longleftrightarrow> x < length (frames b) \<and> \<not> mapped b' x" for x
    using m' wf_bpm_free [OF wf, of x] Nil fn fm(1) by auto
  moreover have "tables_ok b'"
    using wf by (simp add: b' wf_bpm_def tables_ok_Delete)
  ultimately have "wf_bpm {f} b'"
    using wf get' r Nil unfolding wf_bpm_def
    by (simp add: b' wf_lru_Pin lru.pin_cap)
  then show ?thesis using get' fn fm b' by simp
qed

section \<open>The pool invariant\<close>

definition os_wf :: "Os \<Rightarrow> bool" where
  "os_wf t \<longleftrightarrow> no_fault t \<and> inj_on (os_names t) (dom (os_names t)) \<and>
     (\<forall>n ino. os_names t n = Some ino \<longrightarrow> ino < os_next t) \<and>
     (\<forall>fd ino. fd_inode t fd = Some ino \<longrightarrow> ino < os_next t) \<and>
     (\<forall>fd fd' ino. fd_inode t fd = Some ino \<and> fd_inode t fd' = Some ino \<longrightarrow> fd = fd') \<and>
     (\<forall>ino i. i < length (os_inodes t ino) \<longrightarrow> page_num (os_inodes t ino ! i) = int i)"

definition frames_ok :: "DiskBufferPool \<Rightarrow> bool" where
  "frames_ok s \<longleftrightarrow>
     (\<forall>f \<in> set (free_list (bp_manager s)). \<not> dirty (frame_of s f)) \<and>
     (\<forall>fd pn f. get (bp_manager s) fd pn = Some f \<longrightarrow>
        0 \<le> pn \<and> disk_page (os s) fd pn \<noteq> None \<and>
        (pin_count (frame_of s f) = 0 \<and> \<not> dirty (frame_of s f) \<longrightarrow>
           disk_page (os s) fd pn = Some (page (frame_of s f))))"

definition fds_ok :: "DiskBufferPool \<Rightarrow> bool" where
  "fds_ok s \<longleftrightarrow> (\<forall>fd ino n. fd_inode (os s) fd = Some ino \<and> os_names (os s) n = Some ino \<longrightarrow>
     n \<in> dom (file_name_id s))"

lemma fds_okD:
  "fds_ok s \<Longrightarrow> fd_inode (os s) fd = Some ino \<Longrightarrow> os_names (os s) n = Some ino \<Longrightarrow>
   n \<in> dom (file_name_id s)"
  unfolding fds_ok_def by blast

text \<open>An open file: its header page is buffered and pinned, and the file has exactly as many
  pages as the header says.\<close>

definition file_ok :: "DiskBufferPool \<Rightarrow> BPFileHandle \<Rightarrow> bool" where
  "file_ok s fh \<longleftrightarrow>
     get (bp_manager s) (fh_desc fh) 0 = Some (hdr_frame fh) \<and>
     pin_count (frame_of s (hdr_frame fh)) \<noteq> 0 \<and>
     (\<exists>ino. fd_inode (os s) (fh_desc fh) = Some ino \<and>
            hdr_page_count (hdr_data s fh) = int (length (os_inodes (os s) ino)))"

definition files_ok :: "DiskBufferPool \<Rightarrow> bool" where
  "files_ok s \<longleftrightarrow> (\<forall>fid fh. open_file s fid = Some fh \<longrightarrow> file_ok s fh)"

definition wf_pool :: "nat set \<Rightarrow> DiskBufferPool \<Rightarrow> bool" where
  "wf_pool L s \<longleftrightarrow> wf_bpm L (bp_manager s) \<and> os_wf (os s) \<and> frames_ok s \<and> fds_ok s \<and> files_ok s"

text \<open>The invariant without the open files, for the points inside an operation where a header
  page and its file are out of step.\<close>

definition wf_core :: "nat set \<Rightarrow> DiskBufferPool \<Rightarrow> bool" where
  "wf_core L s \<longleftrightarrow> wf_bpm L (bp_manager s) \<and> os_wf (os s) \<and> frames_ok s \<and> fds_ok s"

lemma wf_pool_core: "wf_pool L s \<longleftrightarrow> wf_core L s \<and> files_ok s"
  by (auto simp: wf_pool_def wf_core_def)

text \<open>The contents of a page, buffered or on disk.\<close>

definition view :: "DiskBufferPool \<Rightarrow> int \<Rightarrow> int \<Rightarrow> bytes option" where
  "view s fd pn =
     (case get (bp_manager s) fd pn of
        Some f \<Rightarrow> Some (data (page (frame_of s f)))
      | None \<Rightarrow> map_option data (disk_page (os s) fd pn))"

lemmas wf_pool_defs = wf_pool_def frames_ok_def fds_ok_def files_ok_def file_ok_def

lemma frames_okD:
  "frames_ok s \<Longrightarrow> get (bp_manager s) fd pn = Some f \<Longrightarrow>
   0 \<le> pn \<and> disk_page (os s) fd pn \<noteq> None \<and>
   (pin_count (frame_of s f) = 0 \<longrightarrow> \<not> dirty (frame_of s f) \<longrightarrow>
      disk_page (os s) fd pn = Some (page (frame_of s f)))"
  by (auto simp: frames_ok_def)

lemma free_clean: "wf_pool L s \<Longrightarrow> f \<in> set (free_list (bp_manager s)) \<Longrightarrow> \<not> dirty (frame_of s f)"
  by (simp add: wf_pool_def frames_ok_def)

lemma upd_frame_simps [simp]:
  "os (upd_frame f g s) = os s"
  "open_file (upd_frame f g s) = open_file s"
  "file_name_id (upd_frame f g s) = file_name_id s"
  "free_file_ids (upd_frame f g s) = free_file_ids s"
  "free_list (bp_manager (upd_frame f g s)) = free_list (bp_manager s)"
  "bpm_replacer (bp_manager (upd_frame f g s)) = bpm_replacer (bp_manager s)"
  "bpm_size (bp_manager (upd_frame f g s)) = bpm_size (bp_manager s)"
  "page_table (bp_manager (upd_frame f g s)) = page_table (bp_manager s)"
  "length (frames (bp_manager (upd_frame f g s))) = length (frames (bp_manager s))"
  "get (bp_manager (upd_frame f g s)) = get (bp_manager s)"
  "tables_ok (bp_manager (upd_frame f g s)) = tables_ok (bp_manager s)"
  "mapped (bp_manager (upd_frame f g s)) = mapped (bp_manager s)"
  by (simp_all add: upd_frame_def)

lemma frame_of_upd [simp]:
  "f < length (frames (bp_manager s)) \<Longrightarrow>
   frame_of (upd_frame f g s) h = (if h = f then g (frame_of s f) else frame_of s h)"
  by (simp add: upd_frame_def nth_list_update)

lemma fds_ok_upd [simp]: "fds_ok (upd_frame f g s) = fds_ok s"
  by (simp add: fds_ok_def)

lemma limbo_not_mapped: "wf_bpm L b \<Longrightarrow> f \<in> L \<Longrightarrow> f < length (frames b) \<and> get b fd pn \<noteq> Some f"
  using wf_bpm_free [of L b f] by (auto simp: mapped_def)

lemma wf_bpm_upd_limbo:
  assumes wf: "wf_bpm L (bp_manager s)" and f: "f \<in> L"
  shows "wf_bpm L (bp_manager (upd_frame f g s))"
proof -
  have n: "f < length (frames (bp_manager s))" and m: "\<not> mapped (bp_manager s) f"
    using wf_bpm_free [OF wf, of f] f by auto
  then have ne: "get (bp_manager s) fd pn = Some x \<Longrightarrow> x \<noteq> f" for fd pn x
    by (auto simp: mapped_def)
  show ?thesis
    unfolding wf_bpm_def
    using wf n m ne by (auto simp: wf_bpm_def)
qed

lemma view_upd_limbo:
  assumes "wf_bpm L (bp_manager s)" "f \<in> L"
  shows "view (upd_frame f g s) = view s"
  using limbo_not_mapped [OF assms]
  by (intro ext) (auto simp: view_def split: option.splits)

lemma wf_core_upd_limbo:
  assumes wf: "wf_core L s" and f: "f \<in> L"
  shows "wf_core L (upd_frame f g s)"
proof -
  have b: "wf_bpm L (bp_manager s)" using wf by (simp add: wf_core_def)
  note nm = limbo_not_mapped [OF b f]
  have "f \<notin> set (free_list (bp_manager s))" using b f by (auto simp: wf_bpm_def)
  then have "frames_ok (upd_frame f g s)"
    using wf nm unfolding wf_core_def frames_ok_def by (auto simp: frame_of_upd)
  then show ?thesis
    using wf wf_bpm_upd_limbo [OF b f] by (simp add: wf_core_def)
qed

lemma wf_pool_upd_limbo:
  assumes wf: "wf_pool L s" and f: "f \<in> L"
  shows "wf_pool L (upd_frame f g s)"
proof -
  have b: "wf_bpm L (bp_manager s)" using wf by (simp add: wf_pool_def)
  note nm = limbo_not_mapped [OF b f]
  have "hdr_frame fh \<noteq> f" if "open_file s fid = Some fh" for fid fh
    using that wf nm unfolding wf_pool_def files_ok_def file_ok_def by metis
  then have "files_ok (upd_frame f g s)"
    using wf nm unfolding wf_pool_def files_ok_def file_ok_def by (auto simp: frame_of_upd)
  then show ?thesis
    using wf wf_core_upd_limbo [OF _ f] by (simp add: wf_pool_core)
qed


section \<open>Flushing and allocating blocks\<close>

text \<open>Without faults \<^verbatim>\<open>flush_block\<close> stores the frame's page at its place on disk.\<close>

lemma flush_block_ok:
  assumes "no_fault (os s)" "fd_inode (os s) (file_desc (frame_of s f)) = Some ino"
    and "0 \<le> page_num (page (frame_of s f))"
  obtains t where
    "flush_block s f = (SUCCESS, upd_frame f (dirty_update (\<lambda>_. False)) (s\<lparr>os := t\<rparr>))"
    "os_eq (put_inode (os s) ino (nat (page_num (page (frame_of s f)))) (page (frame_of s f))) t"
proof -
  let ?fr = "frame_of s f"
  let ?off = "page_num (page ?fr) * int BP_PAGE_SIZE"
  have "0 \<le> ?off" using assms(3) by simp
  from lseek_ok [OF assms(1,2) this] obtain u where
    u: "sys_lseek (os s) (file_desc ?fr) ?off = (?off, u)" "os_eq (os s) u"
       "fd_entry u (file_desc ?fr) = Some (ino, ?off)" by blast
  have "no_fault u" using u(2) assms(1) by (simp add: os_eq_no_fault)
  from write_ok [OF this u(3), of "page ?fr"] obtain t where
    t: "sys_write u (file_desc ?fr) (page ?fr) = (True, t)"
       "os_eq (put_inode u ino (page_index ?off) (page ?fr)) t" by blast
  have "page_index ?off = nat (page_num (page ?fr))"
    by (simp add: BP_PAGE_SIZE_def)
  then have "os_eq (put_inode (os s) ino (nat (page_num (page ?fr))) (page ?fr)) t"
    using t(2) u(2) by (simp add: put_inode_def os_eq_def)
  moreover have "flush_block s f = (SUCCESS, upd_frame f (dirty_update (\<lambda>_. False)) (s\<lparr>os := t\<rparr>))"
    using u(1) t(1) by (simp add: flush_block_def Let_def)
  ultimately show ?thesis using that by blast
qed

lemma os_wf_put_inode:
  assumes wf: "os_wf s" and ino: "fd_inode s fd = Some ino" and pn: "0 \<le> page_num pg"
    and len: "nat (page_num pg) \<le> length (os_inodes s ino)"
    and t: "os_eq (put_inode s ino (nat (page_num pg)) pg) t"
  shows "os_wf t"
proof -
  have "page_num (put_page (os_inodes s ino) (nat (page_num pg)) pg ! i) = int i"
    if "i < length (put_page (os_inodes s ino) (nat (page_num pg)) pg)" for i
    using that wf pn len by (auto simp: nth_put_page length_put_page os_wf_def)
  then show ?thesis
    using wf t by (auto simp: os_wf_def os_eq_def put_inode_def no_fault_def)
qed

text \<open>Flushing a frame that is leaving the pool changes no view.\<close>

definition flushed :: "DiskBufferPool \<Rightarrow> nat \<Rightarrow> DiskBufferPool \<Rightarrow> bool" where
  "flushed s f s' \<longleftrightarrow>
     bp_manager s' = bp_manager (upd_frame f (dirty_update (\<lambda>_. False)) s) \<and>
     open_file s' = open_file s \<and> file_name_id s' = file_name_id s \<and> free_file_ids s' = free_file_ids s \<and>
     fd_inode (os s') = fd_inode (os s) \<and>
     (\<forall>ino. length (os_inodes (os s') ino) = length (os_inodes (os s) ino)) \<and>
     (\<forall>fd pn. disk_page (os s') fd pn = (if fd = file_desc (frame_of s f) \<and>
        pn = page_num (page (frame_of s f)) then Some (page (frame_of s f)) else disk_page (os s) fd pn))"

lemma flush_limbo_ok:
  assumes wf: "wf_pool L s" and f: "f \<in> L"
    and dp: "disk_page (os s) (file_desc (frame_of s f)) (page_num (page (frame_of s f))) \<noteq> None"
    and own: "get (bp_manager s) (file_desc (frame_of s f)) (page_num (page (frame_of s f))) = None"
  shows "\<exists>s'. flush_block s f = (SUCCESS, s') \<and> wf_pool L s' \<and> flushed s f s'"
proof -
  let ?fr = "frame_of s f"
  let ?fd = "file_desc ?fr" and ?pn = "page_num (page ?fr)"
  obtain ino where ino: "fd_inode (os s) ?fd = Some ino" and pn: "0 \<le> ?pn"
    and len: "nat ?pn < length (os_inodes (os s) ino)"
    using dp by (auto simp: disk_page_def split: option.splits if_splits)
  have nf: "no_fault (os s)" and osw: "os_wf (os s)" using wf by (auto simp: wf_pool_def os_wf_def)
  obtain t where fl: "flush_block s f = (SUCCESS, upd_frame f (dirty_update (\<lambda>_. False)) (s\<lparr>os := t\<rparr>))"
    and t: "os_eq (put_inode (os s) ino (nat ?pn) (page ?fr)) t"
    using flush_block_ok [OF nf ino pn] by blast
  have t_simps: "fd_inode t = fd_inode (os s)" "os_names t = os_names (os s)"
      "\<And>i. length (os_inodes t i) = length (os_inodes (os s) i)"
    using t len by (auto simp: os_eq_def put_inode_def length_put_page)
  have inj: "fd_inode (os s) fd = Some ino \<longleftrightarrow> fd = ?fd" for fd
    using osw ino by (auto simp: os_wf_def)
  have dpt: "disk_page t fd pn = (if fd = ?fd \<and> pn = ?pn
      then Some (page ?fr) else disk_page (os s) fd pn)" for fd pn
    using disk_page_put_inode [OF ino pn, of "page ?fr" fd pn] len os_eq_disk_page [OF t]
    by (simp add: inj)
  have oswt: "os_wf t" using os_wf_put_inode [OF osw ino pn _ t] len by simp
  let ?s = "s\<lparr>os := t\<rparr>"
  have "frames_ok ?s"
    using wf own ino unfolding wf_pool_def frames_ok_def by (auto simp: dpt)
  moreover have "fds_ok ?s"
    using wf by (auto simp: wf_pool_def fds_ok_def t_simps)
  moreover have "files_ok ?s"
    using wf by (simp add: wf_pool_def files_ok_def file_ok_def t_simps)
  ultimately have "wf_pool L ?s" using wf oswt by (simp add: wf_pool_def)
  from wf_pool_upd_limbo [OF this f] show ?thesis
    using fl t_simps dpt by (auto simp: upd_frame_def flushed_def)
qed


text \<open>
  \<^verbatim>\<open>allocate_block\<close>: either every frame is in use and pinned, or it hands out a frame, after
  writing back what the frame held, and no page changes for the clients.
\<close>

lemma alloc_free: "alloc b = (r, b') \<Longrightarrow> set (free_list b') \<subseteq> set (free_list b)"
  by (auto simp: alloc_def Let_def split: list.splits prod.splits option.splits)

lemma alloc_pool:
  assumes wf: "wf_pool {} s" and a: "alloc (bp_manager s) = (Some f, b')"
  shows "wf_pool {f} (s\<lparr>bp_manager := b'\<rparr>)"
    and "\<And>fid fh. open_file s fid = Some fh \<Longrightarrow> hdr_frame fh \<noteq> f"
proof -
  have b: "wf_bpm {} (bp_manager s)" using wf by (simp add: wf_pool_def)
  note A = alloc_Some [OF b a]
  have get': "get b' fd pn = (if get (bp_manager s) fd pn = Some f then None else get (bp_manager s) fd pn)"
    for fd pn using A by blast
  have hdr: "hdr_frame fh \<noteq> f" if "open_file s fid = Some fh" for fid fh
  proof
    assume "hdr_frame fh = f"
    then have "get (bp_manager s) (fh_desc fh) 0 = Some f" "pin_count (frame_of s f) \<noteq> 0"
      using wf that by (auto simp: wf_pool_def files_ok_def file_ok_def)
    then show False using A mappedI by blast
  qed
  then show "\<And>fid fh. open_file s fid = Some fh \<Longrightarrow> hdr_frame fh \<noteq> f" by blast
  let ?s = "s\<lparr>bp_manager := b'\<rparr>"
  have fr: "frames b' = frames (bp_manager s)" using A by blast
  have "frames_ok ?s"
    using wf alloc_free [OF a] unfolding wf_pool_def frames_ok_def
    by (simp add: fr get') blast
  moreover have "fds_ok ?s"
    using wf by (auto simp: wf_pool_def fds_ok_def)
  moreover have "files_ok ?s"
    using wf hdr unfolding wf_pool_def files_ok_def file_ok_def by (simp add: get' fr)
  ultimately show "wf_pool {f} ?s" using wf A by (simp add: wf_pool_def)
qed

definition block_taken :: "DiskBufferPool \<Rightarrow> nat \<Rightarrow> DiskBufferPool \<Rightarrow> bool" where
  "block_taken s f s' \<longleftrightarrow> wf_pool {f} s' \<and> view s' = view s \<and>
     f < length (frames (bp_manager s)) \<and>
     length (frames (bp_manager s')) = length (frames (bp_manager s)) \<and>
     open_file s' = open_file s \<and> file_name_id s' = file_name_id s \<and>
     free_file_ids s' = free_file_ids s \<and> fd_inode (os s') = fd_inode (os s) \<and>
     (\<forall>ino. length (os_inodes (os s') ino) = length (os_inodes (os s) ino)) \<and>
     (\<forall>fd pn. get (bp_manager s') fd pn =
        (if get (bp_manager s) fd pn = Some f then None else get (bp_manager s) fd pn)) \<and>
     (\<forall>g. g \<noteq> f \<longrightarrow> frame_of s' g = frame_of s g) \<and>
     (\<forall>fid fh. open_file s fid = Some fh \<longrightarrow> hdr_frame fh \<noteq> f) \<and>
     (mapped (bp_manager s) f \<longrightarrow> pin_count (frame_of s f) = 0)"

lemma allocate_block_cases:
  assumes wf: "wf_pool {} s"
  obtains (NoMem) "allocate_block s = (Inl NOMEM, s)" "free_list (bp_manager s) = []"
      "\<And>f. mapped (bp_manager s) f \<Longrightarrow> pin_count (frame_of s f) \<noteq> 0"
  | (Got) f s' where "allocate_block s = (Inr f, s')" "block_taken s f s'"
proof (cases "fst (alloc (bp_manager s))")
  case None
  then obtain b' where a: "alloc (bp_manager s) = (None, b')" by (metis prod.collapse)
  have b: "wf_bpm {} (bp_manager s)" using wf by (simp add: wf_pool_def)
  from alloc_None [OF b a] a show ?thesis
    by (intro NoMem) (auto simp: allocate_block_def)
next
  case (Some f)
  then obtain b' where a: "alloc (bp_manager s) = (Some f, b')" by (metis prod.collapse)
  have b: "wf_bpm {} (bp_manager s)" using wf by (simp add: wf_pool_def)
  note A = alloc_Some [OF b a] and P = alloc_pool [OF wf a]
  let ?s = "s\<lparr>bp_manager := b'\<rparr>"
  have fr: "frames b' = frames (bp_manager s)" using A by blast
  have get': "get b' fd pn = (if get (bp_manager s) fd pn = Some f then None else get (bp_manager s) fd pn)"
    for fd pn using A by blast
  show ?thesis
  proof (cases "dirty (frame_of s f)")
    case False
    have "view ?s fd pn = view s fd pn" for fd pn
      using wf False A unfolding wf_pool_def frames_ok_def view_def
      by (auto simp: fr get' mappedI split: option.splits)
    then have "block_taken s f ?s"
      using A P by (simp add: block_taken_def fun_eq_iff)
    then show ?thesis using a False fr by (intro Got) (auto simp: allocate_block_def Let_def)
  next
    case True
    have "f \<notin> set (free_list (bp_manager s))"
      using True wf by (auto simp: wf_pool_def frames_ok_def)
    then have "mapped (bp_manager s) f" using wf_bpm_free [OF b, of f] A by auto
    then obtain fd pn where m: "get (bp_manager s) fd pn = Some f" by (auto simp: mapped_def)
    have fd: "file_desc (frame_of s f) = fd" "page_num (page (frame_of s f)) = pn"
      using wf_bpm_get [OF b m] by auto
    have dp: "disk_page (os s) fd pn \<noteq> None" using m wf by (auto simp: wf_pool_def frames_ok_def)
    have own: "get b' fd pn = None" using m by (simp add: get')
    obtain s' where S: "flush_block ?s f = (SUCCESS, s')" "wf_pool {f} s'" "flushed ?s f s'"
      using flush_limbo_ok [OF P(1), of f] dp own by (auto simp: fr fd)
    have gs: "get (bp_manager s') fd' pn' = get b' fd' pn'" for fd' pn'
      using S(3) by (simp add: flushed_def)
    have frs: "frame_of s' g = (if g = f then (frame_of s f)\<lparr>dirty := False\<rparr> else frame_of s g)" for g
      using S(3) A by (simp add: fr flushed_def)
    have dps: "disk_page (os s') fd' pn' =
        (if fd' = fd \<and> pn' = pn then Some (page (frame_of s f)) else disk_page (os s) fd' pn')" for fd' pn'
      using S(3) by (simp add: flushed_def fr fd)
    have "view s' fd' pn' = view s fd' pn'" for fd' pn'
    proof (cases "fd' = fd \<and> pn' = pn")
      case True
      then show ?thesis using m own by (simp add: view_def gs dps)
    next
      case False
      then have "get (bp_manager s) fd' pn' \<noteq> Some f" using wf_bpm_inj [OF b m] by blast
      with False show ?thesis
        by (auto simp: view_def gs get' frs dps split: option.splits)
    qed
    then have "block_taken s f s'"
      using A P S(2,3) by (simp add: block_taken_def fun_eq_iff gs get' frs flushed_def)
    then show ?thesis
      using a True fr S(1) by (intro Got) (auto simp: allocate_block_def Let_def)
  qed
qed

end
