(* ===== verification/Pool_Correct.thy ===== *)
theory Pool_Correct
  imports Pool_Invariant
begin

text \<open>
  The operations of \<^verbatim>\<open>DiskBufferPool\<close> keep \<open>wf_pool\<close> and the views, and do what their
  comments in \<^verbatim>\<open>disk_buffer_pool.h\<close> promise, in executions without I/O errors; and the
  places where the code does not.
\<close>

section \<open>Building blocks\<close>

lemma os_eq_os_wf: "os_eq s t \<Longrightarrow> os_wf t = os_wf s"
  by (simp add: os_eq_def os_wf_def no_fault_def)

lemma wf_pool_os_eq:
  assumes "wf_pool L s" "os_eq (os s) t"
  shows "wf_pool L (s\<lparr>os := t\<rparr>)"
proof -
  have "fds_ok (s\<lparr>os := t\<rparr>) = fds_ok s"
    using assms(2) by (simp add: fds_ok_def os_eq_def)
  moreover have "files_ok (s\<lparr>os := t\<rparr>) = files_ok s"
    using assms(2) by (simp add: files_ok_def file_ok_def os_eq_def)
  moreover have "frames_ok (s\<lparr>os := t\<rparr>) = frames_ok s"
    by (simp add: frames_ok_def os_eq_disk_page [OF assms(2)])
  ultimately show ?thesis
    using assms(1) os_eq_os_wf [OF assms(2)] by (simp add: wf_pool_def)
qed

lemma view_os_eq: "os_eq (os s) t \<Longrightarrow> view (s\<lparr>os := t\<rparr>) = view s"
  by (intro ext) (simp add: view_def os_eq_disk_page split: option.splits)

lemma load_page_ok:
  assumes wf: "wf_pool L s" and dp: "disk_page (os s) (fh_desc fh) pn = Some pg"
  shows "\<exists>t. load_page s pn fh f = (SUCCESS, upd_frame f (page_update (\<lambda>_. pg)) (s\<lparr>os := t\<rparr>)) \<and>
             os_eq (os s) t"
proof -
  obtain ino where ino: "fd_inode (os s) (fh_desc fh) = Some ino" and pn: "0 \<le> pn"
    and len: "nat pn < length (os_inodes (os s) ino)" and pg: "pg = os_inodes (os s) ino ! nat pn"
    using dp by (auto simp: disk_page_def split: option.splits if_splits)
  have nf: "no_fault (os s)" using wf by (simp add: wf_pool_def os_wf_def)
  let ?off = "pn * int BP_PAGE_SIZE"
  have "0 \<le> ?off" using pn by simp
  from lseek_ok [OF nf ino this] obtain u where
    u: "sys_lseek (os s) (fh_desc fh) ?off = (?off, u)" "os_eq (os s) u"
       "fd_entry u (fh_desc fh) = Some (ino, ?off)" by blast
  have idx: "page_index ?off = nat pn" by (simp add: BP_PAGE_SIZE_def)
  have inodes: "os_inodes u = os_inodes (os s)" using u(2) by (simp add: os_eq_def)
  have "no_fault u" using u(2) nf by (simp add: os_eq_no_fault)
  from read_ok [OF this u(3)] obtain t where t: "sys_read u (fh_desc fh) = (Some pg, t)" "os_eq u t"
    using len pg by (auto simp: idx inodes)
  have "?off \<noteq> - 1" using \<open>0 \<le> ?off\<close> by linarith
  then have "load_page s pn fh f = (SUCCESS, upd_frame f (page_update (\<lambda>_. pg)) (s\<lparr>os := t\<rparr>))"
    using u(1) t(1) by (simp add: load_page_def Let_def)
  moreover have "os_eq (os s) t" using u(2) t(2) by (rule os_eq_trans)
  ultimately show ?thesis by blast
qed

lemma disk_page_num: "os_wf t \<Longrightarrow> disk_page t fd pn = Some pg \<Longrightarrow> page_num pg = pn \<and> 0 \<le> pn"
  by (auto simp: os_wf_def disk_page_def split: option.splits if_splits)

lemma add_page_table_simps [simp]:
  "os (add_page_table s fd pn f) = os s"
  "open_file (add_page_table s fd pn f) = open_file s"
  "file_name_id (add_page_table s fd pn f) = file_name_id s"
  "free_file_ids (add_page_table s fd pn f) = free_file_ids s"
  "frames (bp_manager (add_page_table s fd pn f)) = frames (bp_manager s)"
  "get (bp_manager (add_page_table s fd pn f)) fd' pn' =
     (if fd' = fd \<and> pn' = pn then Some f else get (bp_manager s) fd' pn')"
  by (simp_all add: add_page_table_def)

text \<open>Entering a pinned frame into the page table ends its limbo.\<close>

lemma wf_core_add_page_table:
  assumes wf: "wf_core {f} s" and g: "get (bp_manager s) fd pn = None"
    and fr: "file_desc (frame_of s f) = fd" "page_num (page (frame_of s f)) = pn"
      "pin_count (frame_of s f) \<noteq> 0"
    and dp: "disk_page (os s) fd pn \<noteq> None" "0 \<le> pn"
  shows "wf_core {} (add_page_table s fd pn f)"
proof -
  let ?b = "bp_manager s"
  let ?b' = "AddPageTable ?b fd pn f"
  have b: "wf_bpm {f} ?b" using wf by (simp add: wf_core_def)
  have fn: "f < length (frames ?b)" "\<not> mapped ?b f" using wf_bpm_free [OF b, of f] by auto
  have m: "mapped ?b' x \<longleftrightarrow> mapped ?b x \<or> x = f" for x using mapped_Add [OF g] .
  have "x \<in> set (cache_list (bpm_replacer ?b)) \<longleftrightarrow> mapped ?b' x \<and> pin_count (frames ?b ! x) = 0" for x
    using wf_bpm_lru [OF b, of x] m fn fr(3) by auto
  moreover have "x \<in> set (free_list ?b) \<longleftrightarrow> x < length (frames ?b) \<and> \<not> mapped ?b' x" for x
    using wf_bpm_free [OF b, of x] m fn b by (auto simp: wf_bpm_def)
  moreover have "tables_ok ?b'" using b by (simp add: wf_bpm_def tables_ok_Add)
  ultimately have "wf_bpm {} ?b'"
    using b fr fn unfolding wf_bpm_def by auto
  moreover have "frames_ok (add_page_table s fd pn f)"
    using wf fr(3) dp unfolding wf_core_def frames_ok_def by (auto simp: add_page_table_def)
  ultimately show ?thesis
    using wf by (auto simp: wf_core_def fds_ok_def add_page_table_def)
qed

lemma add_page_table_ok:
  assumes wf: "wf_pool {f} s" and g: "get (bp_manager s) fd pn = None"
    and fr: "file_desc (frame_of s f) = fd" "page_num (page (frame_of s f)) = pn"
      "pin_count (frame_of s f) \<noteq> 0"
    and dp: "disk_page (os s) fd pn \<noteq> None" "0 \<le> pn"
  shows "wf_pool {} (add_page_table s fd pn f)"
proof -
  have "files_ok (add_page_table s fd pn f)"
    using wf g unfolding wf_pool_def files_ok_def file_ok_def by auto
  then show ?thesis
    using wf wf_core_add_page_table [OF _ g fr dp] by (simp add: wf_pool_core)
qed

lemma view_add_page_table:
  "get (bp_manager s) fd pn = None \<Longrightarrow>
   map_option data (disk_page (os s) fd pn) = Some (data (page (frame_of s f))) \<Longrightarrow>
   view (add_page_table s fd pn f) = view s"
  by (intro ext) (auto simp: view_def split: option.splits)

lemma check_file_id_Inr: "check_file_id s fid = Inr fh \<Longrightarrow> open_file s fid = Some fh"
  by (auto simp: check_file_id_def split: if_splits option.splits)

lemma check_page_num_Inr:
  "check_page_num s pn fh = SUCCESS \<Longrightarrow>
   0 \<le> pn \<and> pn < hdr_page_count (hdr_data s fh) \<and> get_bit (hdr_data s fh) hdr_map (nat pn)"
  by (auto simp: check_page_num_def split: if_splits)

lemma open_file_page:
  assumes wf: "wf_pool L s" and fh: "open_file s fid = Some fh"
    and pn: "0 \<le> pn" "pn < hdr_page_count (hdr_data s fh)"
  shows "\<exists>pg. disk_page (os s) (fh_desc fh) pn = Some pg"
proof -
  have "file_ok s fh" using wf fh by (auto simp: wf_pool_def files_ok_def)
  then show ?thesis using pn by (auto simp: file_ok_def disk_page_def)
qed

section \<open>\<^verbatim>\<open>get_this_page\<close>\<close>

text \<open>A buffered page: one more pin, out of the replacer.\<close>

definition pin_frame :: "nat \<Rightarrow> DiskBufferPool \<Rightarrow> DiskBufferPool" where
  "pin_frame f s =
     (let s1 = upd_frame f (\<lambda>fr. fr\<lparr>pin_count := pin_count fr + 1\<rparr>) s; b = bp_manager s1
      in s1\<lparr>bp_manager := b\<lparr>bpm_replacer := Pin (bpm_replacer b) f\<rparr>\<rparr>)"

lemma pin_frame_simps [simp]:
  "os (pin_frame f s) = os s"
  "open_file (pin_frame f s) = open_file s"
  "file_name_id (pin_frame f s) = file_name_id s"
  "free_file_ids (pin_frame f s) = free_file_ids s"
  "free_list (bp_manager (pin_frame f s)) = free_list (bp_manager s)"
  "length (frames (bp_manager (pin_frame f s))) = length (frames (bp_manager s))"
  "bpm_size (bp_manager (pin_frame f s)) = bpm_size (bp_manager s)"
  "get (bp_manager (pin_frame f s)) = get (bp_manager s)"
  "mapped (bp_manager (pin_frame f s)) = mapped (bp_manager s)"
  "tables_ok (bp_manager (pin_frame f s)) = tables_ok (bp_manager s)"
  "bpm_replacer (bp_manager (pin_frame f s)) = Pin (bpm_replacer (bp_manager s)) f"
  by (simp_all add: pin_frame_def Let_def)

lemma frame_of_pin_frame [simp]:
  "f < length (frames (bp_manager s)) \<Longrightarrow>
   frame_of (pin_frame f s) g =
     (if g = f then (frame_of s f)\<lparr>pin_count := pin_count (frame_of s f) + 1\<rparr> else frame_of s g)"
  by (simp add: pin_frame_def Let_def upd_frame_def nth_list_update)

lemma pin_frame_ok:
  assumes wf: "wf_pool {} s" and g: "get (bp_manager s) fd pn = Some f"
    and p: "pin_count (frame_of s f) \<noteq> - 1"
  shows "wf_pool {} (pin_frame f s)" and "view (pin_frame f s) = view s"
proof -
  have b: "wf_bpm {} (bp_manager s)" using wf by (simp add: wf_pool_def)
  have fn: "f < length (frames (bp_manager s))" using wf_bpm_get [OF b g] by simp
  have np: "pin_count (frame_of s f) + 1 \<noteq> 0" using p by (metis add_eq_0_iff2 minus_minus)
  have lru: "wf_lru (bpm_replacer (bp_manager s))" using b by (simp add: wf_bpm_def)
  have "wf_bpm {} (bp_manager (pin_frame f s))"
    unfolding wf_bpm_def
    using b fn np by (auto simp: wf_bpm_def wf_lru_Pin lru.pin_cap Pin_cands)
  moreover have "frames_ok (pin_frame f s)"
    using wf fn np unfolding wf_pool_def frames_ok_def by auto
  moreover have "files_ok (pin_frame f s)"
    using wf fn np unfolding wf_pool_def files_ok_def file_ok_def by auto
  ultimately show "wf_pool {} (pin_frame f s)"
    using wf by (auto simp: wf_pool_def fds_ok_def)
  show "view (pin_frame f s) = view s"
    using fn by (intro ext) (auto simp: view_def split: option.splits)
qed

text \<open>
  What an operation that only brings a page in leaves alone: the open files and the pages that
  are pinned, which stay in their frames.
\<close>

definition kept :: "DiskBufferPool \<Rightarrow> DiskBufferPool \<Rightarrow> bool" where
  "kept s s' \<longleftrightarrow> open_file s' = open_file s \<and> file_name_id s' = file_name_id s \<and>
     free_file_ids s' = free_file_ids s \<and> fd_inode (os s') = fd_inode (os s) \<and>
     (\<forall>ino. length (os_inodes (os s') ino) = length (os_inodes (os s) ino)) \<and>
     (\<forall>fd pn f. get (bp_manager s) fd pn = Some f \<and> pin_count (frame_of s f) \<noteq> 0 \<longrightarrow>
        get (bp_manager s') fd pn = Some f \<and> page (frame_of s' f) = page (frame_of s f) \<and>
        dirty (frame_of s' f) = dirty (frame_of s f) \<and> pin_count (frame_of s' f) \<noteq> 0)"

lemma kept_pin_frame:
  assumes wf: "wf_pool {} s" and g: "get (bp_manager s) fd pn = Some f"
    and p: "pin_count (frame_of s f) \<noteq> - 1"
  shows "kept s (pin_frame f s)"
proof -
  have "wf_bpm {} (bp_manager s)" using wf by (simp add: wf_pool_def)
  from wf_bpm_get [OF this g] have "f < length (frames (bp_manager s))" by simp
  moreover have "pin_count (frame_of s f) + 1 \<noteq> 0" using p by (metis add_eq_0_iff2 minus_minus)
  ultimately show ?thesis by (auto simp: kept_def)
qed

definition synced :: "DiskBufferPool \<Rightarrow> int \<Rightarrow> int \<Rightarrow> Frame \<Rightarrow> bool" where
  "synced s fd pn fr \<longleftrightarrow> dirty fr \<or> disk_page (os s) fd pn = Some (page fr)"

text \<open>A page that is not buffered: a frame is taken, claimed, loaded and entered.\<close>

lemma load_new_page:
  assumes wf: "wf_pool {} s"
    and dp: "disk_page (os s) (fh_desc fh) pn \<noteq> None"
    and g: "get (bp_manager s) (fh_desc fh) pn = None"
    and bt: "block_taken s f s1"
  shows "\<exists>s2. load_page (claim_frame f (fh_desc fh) s1) pn fh f = (SUCCESS, s2) \<and>
    (let s3 = add_page_table s2 (fh_desc fh) pn f in
       wf_pool {} s3 \<and> view s3 = view s \<and> get (bp_manager s3) (fh_desc fh) pn = Some f \<and>
       pin_count (frame_of s3 f) = 1 \<and> view s (fh_desc fh) pn = Some (data (page (frame_of s3 f))) \<and>
       kept s s3 \<and> synced s3 (fh_desc fh) pn (frame_of s3 f))"
proof -
  let ?fd = "fh_desc fh"
  let ?s = "claim_frame f ?fd s1"
  have wf1: "wf_pool {f} s1" and v1: "view s1 = view s" and inodes: "fd_inode (os s1) = fd_inode (os s)"
    and fn: "f < length (frames (bp_manager s1))" and g1: "get (bp_manager s1) ?fd pn = None"
    using bt g by (auto simp: block_taken_def)
  have b1: "wf_bpm {f} (bp_manager s1)" using wf1 by (simp add: wf_pool_def)
  have wfc: "wf_pool {f} ?s" using wf_pool_upd_limbo [OF wf1] by (simp add: claim_frame_def)
  have vc: "view ?s = view s" using view_upd_limbo [OF b1] v1 by (simp add: claim_frame_def)
  obtain pg where pg: "disk_page (os s1) ?fd pn = Some pg"
    using bt dp inodes by (auto simp: block_taken_def disk_page_def split: option.splits if_splits)
  then obtain t where ld: "load_page ?s pn fh f = (SUCCESS, upd_frame f (page_update (\<lambda>_. pg)) (?s\<lparr>os := t\<rparr>))"
      and t: "os_eq (os ?s) t"
    using load_page_ok [OF wfc, of fh pn pg f] by (auto simp: claim_frame_def)
  let ?s2 = "upd_frame f (page_update (\<lambda>_. pg)) (?s\<lparr>os := t\<rparr>)"
  have wft: "wf_pool {f} (?s\<lparr>os := t\<rparr>)" by (rule wf_pool_os_eq [OF wfc t])
  have bt': "wf_bpm {f} (bp_manager (?s\<lparr>os := t\<rparr>))" using wft by (simp add: wf_pool_def)
  have wf2: "wf_pool {f} ?s2" by (rule wf_pool_upd_limbo [OF wft]) simp
  have v2: "view ?s2 = view s"
    using view_upd_limbo [OF bt', of f] view_os_eq [OF t] vc by simp
  have pgn: "page_num pg = pn" "0 \<le> pn"
    using disk_page_num [OF _ pg] wf1 by (auto simp: wf_pool_def)
  have f2: "frame_of ?s2 f = (frame_of s1 f)\<lparr>dirty := False, file_desc := ?fd, pin_count := 1, page := pg\<rparr>"
    using fn by (simp add: claim_frame_def upd_frame_def)
  have dp2: "disk_page t ?fd pn = Some pg"
    using pg os_eq_disk_page [OF t] by (simp add: claim_frame_def)
  have g2: "get (bp_manager ?s2) ?fd pn = None" using g1 by (simp add: claim_frame_def)
  have "wf_pool {} (add_page_table ?s2 ?fd pn f)"
    by (rule add_page_table_ok [OF wf2 g2]) (simp_all add: f2 dp2 pgn)
  moreover have "view (add_page_table ?s2 ?fd pn f) = view s"
    using view_add_page_table [OF g2, of f] v2 by (simp add: f2 dp2)
  moreover have "view s ?fd pn = Some (data pg)"
    using v2 g2 dp2 by (simp add: view_def fun_eq_iff flip: v2)
  moreover have "kept s (add_page_table ?s2 ?fd pn f)"
  proof -
    have b: "wf_bpm {} (bp_manager s)" using wf by (simp add: wf_pool_def)
    have nf: "x \<noteq> f" if "get (bp_manager s) fd' pn' = Some x" "pin_count (frame_of s x) \<noteq> 0" for fd' pn' x
      using bt that mappedI [of "bp_manager s"] by (auto simp: block_taken_def)
    have "frame_of ?s2 x = frame_of s x" if "x \<noteq> f" for x
      using that bt fn by (simp add: block_taken_def claim_frame_def)
    then show ?thesis
      using bt t nf g by (auto simp: kept_def block_taken_def os_eq_def claim_frame_def)
  qed
  ultimately show ?thesis using ld f2 dp2 by (simp add: Let_def synced_def)
qed

lemma get_this_page_hit:
  "check_file_id s fid = Inr fh \<Longrightarrow> check_page_num s pn fh = SUCCESS \<Longrightarrow>
   get (bp_manager s) (fh_desc fh) pn = Some f \<Longrightarrow>
   get_this_page s fid pn ph = (SUCCESS, \<lparr>ph_open = True, ph_frame = Some f\<rparr>, pin_frame f s)"
  by (simp add: get_this_page_def pin_frame_def Let_def)

lemma get_this_page_miss:
  "check_file_id s fid = Inr fh \<Longrightarrow> check_page_num s pn fh = SUCCESS \<Longrightarrow>
   get (bp_manager s) (fh_desc fh) pn = None \<Longrightarrow> allocate_block s = (Inr f, s1) \<Longrightarrow>
   load_page (claim_frame f (fh_desc fh) s1) pn fh f = (SUCCESS, s2) \<Longrightarrow>
   get_this_page s fid pn ph =
     (SUCCESS, \<lparr>ph_open = True, ph_frame = Some f\<rparr>, add_page_table s2 (fh_desc fh) pn f)"
  by (simp add: get_this_page_def)

text \<open>What a successful \<^verbatim>\<open>get_this_page\<close> promises: the handle's frame is entered in the page
  table for the page asked for, has one more pin and holds the page's contents; and a frame nobody
  else has pinned is dirty or agrees with the disk.\<close>

definition page_delivered ::
  "DiskBufferPool \<Rightarrow> BPFileHandle \<Rightarrow> int \<Rightarrow> BPPageHandle \<Rightarrow> DiskBufferPool \<Rightarrow> bool" where
  "page_delivered s fh pn ph s' \<longleftrightarrow> ph_open ph \<and>
     (\<exists>f. ph_frame ph = Some f \<and> get (bp_manager s') (fh_desc fh) pn = Some f \<and>
          pin_count (frame_of s' f) \<noteq> 0 \<and>
          view s (fh_desc fh) pn = Some (data (page (frame_of s' f))) \<and>
          (pin_count (frame_of s' f) = 1 \<longrightarrow> synced s' (fh_desc fh) pn (frame_of s' f)) \<and>
          pin_count (frame_of s' f) =
            (case get (bp_manager s) (fh_desc fh) pn of Some g \<Rightarrow> pin_count (frame_of s g) + 1 | None \<Rightarrow> 1))"

text \<open>No pin counter is about to wrap around.\<close>

definition pins_ok :: "DiskBufferPool \<Rightarrow> bool" where
  "pins_ok s \<longleftrightarrow> (\<forall>fr \<in> set (frames (bp_manager s)). pin_count fr \<noteq> - 1)"

lemma pins_okD: "pins_ok s \<Longrightarrow> f < length (frames (bp_manager s)) \<Longrightarrow> pin_count (frame_of s f) \<noteq> - 1"
  by (simp add: pins_ok_def)

text \<open>Every frame is in the page table and pinned.\<close>

definition all_pinned :: "DiskBufferPool \<Rightarrow> bool" where
  "all_pinned s \<longleftrightarrow> free_list (bp_manager s) = [] \<and>
     (\<forall>f < length (frames (bp_manager s)). pin_count (frame_of s f) \<noteq> 0)"

lemma no_mem_all_pinned:
  assumes wf: "wf_pool {} s" and fl: "free_list (bp_manager s) = []"
    and p: "\<And>f. mapped (bp_manager s) f \<Longrightarrow> pin_count (frame_of s f) \<noteq> 0"
  shows "all_pinned s"
proof -
  have b: "wf_bpm {} (bp_manager s)" using wf by (simp add: wf_pool_def)
  show ?thesis using fl p wf_bpm_free [OF b] by (auto simp: all_pinned_def)
qed

lemma get_this_page_cases:
  assumes wf: "wf_pool {} s" and pins: "pins_ok s"
    and fh: "check_file_id s fid = Inr fh" and pn: "check_page_num s pn fh = SUCCESS"
  obtains (NoMem) "get_this_page s fid pn ph = (Inl NOMEM, ph, s)" "all_pinned s"
      "get (bp_manager s) (fh_desc fh) pn = None"
  | (Got) ph' s' where "get_this_page s fid pn ph = (SUCCESS, ph', s')" "wf_pool {} s'"
      "view s' = view s" "page_delivered s fh pn ph' s'" "kept s s'"
proof (cases "get (bp_manager s) (fh_desc fh) pn")
  case (Some f)
  have b: "wf_bpm {} (bp_manager s)" using wf by (simp add: wf_pool_def)
  have fn: "f < length (frames (bp_manager s))" using wf_bpm_get [OF b Some] by simp
  have p: "pin_count (frame_of s f) \<noteq> - 1" using pins_okD [OF pins fn] .
  then have "pin_count (frame_of s f) + 1 \<noteq> 0" by (metis add_eq_0_iff2 minus_minus)
  moreover have "synced s (fh_desc fh) pn (frame_of s f)" if "pin_count (frame_of s f) + 1 = 1"
    using that frames_okD [OF _ Some] wf by (auto simp: synced_def wf_pool_def)
  ultimately have "page_delivered s fh pn \<lparr>ph_open = True, ph_frame = Some f\<rparr> (pin_frame f s)"
    using Some fn by (simp add: page_delivered_def view_def synced_def)
  then show ?thesis
    using Got get_this_page_hit [OF fh pn Some] pin_frame_ok [OF wf Some p] kept_pin_frame [OF wf Some p]
    by blast
next
  case None
  note fo = check_file_id_Inr [OF fh] and pr = check_page_num_Inr [OF pn]
  have dp: "disk_page (os s) (fh_desc fh) pn \<noteq> None" using open_file_page [OF wf fo] pr by auto
  show ?thesis
  proof (cases rule: allocate_block_cases [OF wf])
    case 1
    then have "get_this_page s fid pn ph = (Inl NOMEM, ph, s)"
      by (simp add: get_this_page_def fh pn None)
    then show ?thesis using NoMem None no_mem_all_pinned [OF wf 1(2,3)] by blast
  next
    case (2 f s1)
    obtain s2 where s2: "load_page (claim_frame f (fh_desc fh) s1) pn fh f = (SUCCESS, s2)"
      and s3: "let s3 = add_page_table s2 (fh_desc fh) pn f in
       wf_pool {} s3 \<and> view s3 = view s \<and> get (bp_manager s3) (fh_desc fh) pn = Some f \<and>
       pin_count (frame_of s3 f) = 1 \<and> view s (fh_desc fh) pn = Some (data (page (frame_of s3 f))) \<and>
       kept s s3 \<and> synced s3 (fh_desc fh) pn (frame_of s3 f)"
      using load_new_page [OF wf dp None 2(2)] by blast
    show ?thesis
      by (rule Got [OF get_this_page_miss [OF fh pn None 2(1) s2]])
         (use s3 None in \<open>auto simp: page_delivered_def Let_def\<close>)
  qed
qed

end
