(* ===== verification/Pool_Pages.thy ===== *)
theory Pool_Pages
  imports Pool_Correct
begin

text \<open>
  The rest of the page operations of \<^verbatim>\<open>DiskBufferPool\<close>: writing through the pointer a
  handle gives, \<^verbatim>\<open>mark_dirty\<close>, \<^verbatim>\<open>unpin_page\<close>, \<^verbatim>\<open>dispose_page\<close> and
  \<^verbatim>\<open>allocate_page\<close>.  Each keeps \<open>wf_pool\<close> and changes the views it is meant to change.
\<close>

lemma fds_ok_manager [simp]: "fds_ok (s\<lparr>bp_manager := b\<rparr>) = fds_ok s"
  by (simp add: fds_ok_def)

text \<open>The header page of an open file is buffered and pinned.\<close>

lemma header_frame:
  assumes "wf_pool L s" "open_file s fid = Some fh"
  shows "file_ok s fh" "get (bp_manager s) (fh_desc fh) 0 = Some (hdr_frame fh)"
    "hdr_frame fh < length (frames (bp_manager s))" "pin_count (frame_of s (hdr_frame fh)) \<noteq> 0"
proof -
  show F: "file_ok s fh" using assms by (auto simp: wf_pool_def files_ok_def)
  then show g: "get (bp_manager s) (fh_desc fh) 0 = Some (hdr_frame fh)"
    and "pin_count (frame_of s (hdr_frame fh)) \<noteq> 0" by (simp_all add: file_ok_def)
  have "wf_bpm L (bp_manager s)" using assms(1) by (simp add: wf_pool_def)
  from wf_bpm_get [OF this g] show "hdr_frame fh < length (frames (bp_manager s))" by simp
qed

section \<open>Changing a buffered page\<close>

lemma frame_update_bpm:
  assumes wf: "wf_bpm L (bp_manager s)" and g: "get (bp_manager s) fd pn = Some f"
    and h: "file_desc (h (frame_of s f)) = fd" "page_num (page (h (frame_of s f))) = pn"
      "pin_count (h (frame_of s f)) = 0 \<longleftrightarrow> pin_count (frame_of s f) = 0"
  shows "wf_bpm L (bp_manager (upd_frame f h s))"
proof -
  have fn: "f < length (frames (bp_manager s))" using wf_bpm_get [OF wf g] by simp
  have pc: "pin_count (frame_of (upd_frame f h s) x) = 0 \<longleftrightarrow> pin_count (frame_of s x) = 0" for x
    using fn h(3) by simp
  have gx: "get (bp_manager s) fd' pn' = Some x \<Longrightarrow>
      file_desc (frame_of (upd_frame f h s) x) = fd' \<and>
      page_num (page (frame_of (upd_frame f h s) x)) = pn'" for fd' pn' x
    using fn h(1,2) wf_bpm_get [OF wf, of fd' pn' x] wf_bpm_inj [OF wf g, of fd' pn'] by auto
  show ?thesis
    using wf gx unfolding wf_bpm_def by (simp add: pc)
qed

lemma wf_core_frame_update:
  assumes wf: "wf_core L s" and g: "get (bp_manager s) fd pn = Some f"
    and h: "file_desc (h (frame_of s f)) = fd" "page_num (page (h (frame_of s f))) = pn"
      "pin_count (h (frame_of s f)) = 0 \<longleftrightarrow> pin_count (frame_of s f) = 0"
    and sync: "pin_count (frame_of s f) = 0 \<Longrightarrow> synced s fd pn (h (frame_of s f))"
  shows "wf_core L (upd_frame f h s)"
proof -
  have b: "wf_bpm L (bp_manager s)" using wf by (simp add: wf_core_def)
  have fn: "f < length (frames (bp_manager s))" using wf_bpm_get [OF b g] by simp
  have nfree: "f \<notin> set (free_list (bp_manager s))" using wf_bpm_free [OF b, of f] g mappedI by blast
  have fr: "frames_ok s" using wf by (simp add: wf_core_def)
  have "frames_ok (upd_frame f h s)"
    unfolding frames_ok_def
  proof (intro conjI allI impI ballI)
    fix x assume "x \<in> set (free_list (bp_manager (upd_frame f h s)))"
    then show "\<not> dirty (frame_of (upd_frame f h s) x)"
      using fr nfree fn by (auto simp: frames_ok_def)
  next
    fix fd' pn' x assume x: "get (bp_manager (upd_frame f h s)) fd' pn' = Some x"
    then show "0 \<le> pn'" "disk_page (os (upd_frame f h s)) fd' pn' \<noteq> None"
      using frames_okD [OF fr, of fd' pn' x] by simp_all
    assume c: "pin_count (frame_of (upd_frame f h s) x) = 0 \<and> \<not> dirty (frame_of (upd_frame f h s) x)"
    show "disk_page (os (upd_frame f h s)) fd' pn' = Some (page (frame_of (upd_frame f h s) x))"
      using c x fn frames_okD [OF fr, of fd' pn' x] wf_bpm_inj [OF b g, of fd' pn'] h(3) sync
      by (auto simp: synced_def split: if_splits)
  qed
  then show ?thesis
    using wf frame_update_bpm [OF b g, of h] h by (simp add: wf_core_def)
qed

lemma frame_update_ok:
  assumes wf: "wf_pool L s" and g: "get (bp_manager s) fd pn = Some f"
    and h: "file_desc (h (frame_of s f)) = fd" "page_num (page (h (frame_of s f))) = pn"
      "pin_count (h (frame_of s f)) = 0 \<longleftrightarrow> pin_count (frame_of s f) = 0"
    and sync: "pin_count (frame_of s f) = 0 \<Longrightarrow> synced s fd pn (h (frame_of s f))"
    and hdr: "pn = 0 \<Longrightarrow> hdr_page_count (data (page (h (frame_of s f)))) =
                          hdr_page_count (data (page (frame_of s f)))"
  shows "wf_pool L (upd_frame f h s)"
proof -
  have b: "wf_bpm L (bp_manager s)" using wf by (simp add: wf_pool_def)
  have fn: "f < length (frames (bp_manager s))" using wf_bpm_get [OF b g] by simp
  have fo: "files_ok s" using wf by (simp add: wf_pool_def)
  have "files_ok (upd_frame f h s)"
    unfolding files_ok_def file_ok_def
  proof (intro allI impI)
    fix fid fh assume "open_file (upd_frame f h s) fid = Some fh"
    then have F: "file_ok s fh" using fo by (simp add: files_ok_def)
    then have "hdr_frame fh = f \<Longrightarrow> pn = 0" using wf_bpm_inj [OF b g] by (auto simp: file_ok_def)
    then have "hdr_page_count (hdr_data (upd_frame f h s) fh) = hdr_page_count (hdr_data s fh)"
      using fn hdr by auto
    then show "get (bp_manager (upd_frame f h s)) (fh_desc fh) 0 = Some (hdr_frame fh) \<and>
        pin_count (frame_of (upd_frame f h s) (hdr_frame fh)) \<noteq> 0 \<and>
        (\<exists>ino. fd_inode (os (upd_frame f h s)) (fh_desc fh) = Some ino \<and>
           hdr_page_count (hdr_data (upd_frame f h s) fh) =
             int (length (os_inodes (os (upd_frame f h s)) ino)))"
      using F fn h(3) by (auto simp: file_ok_def)
  qed
  then show ?thesis
    using wf wf_core_frame_update [OF _ g, of L h] h sync by (simp add: wf_pool_core)
qed

lemma view_frame_update:
  assumes "wf_bpm L (bp_manager s)" and g: "get (bp_manager s) fd pn = Some f"
  shows "view (upd_frame f h s) fd' pn' =
    (if fd' = fd \<and> pn' = pn then Some (data (page (h (frame_of s f)))) else view s fd' pn')"
proof -
  have fn: "f < length (frames (bp_manager s))" using wf_bpm_get [OF assms] by simp
  have "get (bp_manager s) fd' pn' \<noteq> Some f" if "\<not> (fd' = fd \<and> pn' = pn)"
    using wf_bpm_inj [OF assms(1) g, of fd' pn'] that by blast
  then show ?thesis
    using fn g by (auto simp: view_def split: option.splits)
qed

lemma upd_frame_same_data:
  assumes "wf_bpm L (bp_manager s)" "get (bp_manager s) fd pn = Some f"
    and "data (page (h (frame_of s f))) = data (page (frame_of s f))"
  shows "view (upd_frame f h s) = view s"
  using view_frame_update [OF assms(1,2), of h] assms(2,3)
  by (intro ext) (simp add: view_def)

section \<open>\<^verbatim>\<open>mark_dirty\<close> and \<^verbatim>\<open>unpin_page\<close>\<close>

lemma mark_dirty_ok:
  assumes wf: "wf_pool {} s" and g: "get (bp_manager s) fd pn = Some f"
    and ph: "ph_frame ph = Some f"
  shows "\<exists>s'. mark_dirty s ph = (SUCCESS, s') \<and> wf_pool {} s' \<and> view s' = view s \<and>
     get (bp_manager s') = get (bp_manager s) \<and> open_file s' = open_file s \<and>
     frame_of s' f = (frame_of s f)\<lparr>dirty := True\<rparr>"
proof -
  have b: "wf_bpm {} (bp_manager s)" using wf by (simp add: wf_pool_def)
  note G = wf_bpm_get [OF b g]
  have "wf_pool {} (upd_frame f (dirty_update (\<lambda>_. True)) s)"
    using G by (intro frame_update_ok [OF wf g]) (simp_all add: synced_def)
  moreover have "view (upd_frame f (dirty_update (\<lambda>_. True)) s) = view s"
    by (rule upd_frame_same_data [OF b g]) simp
  ultimately show ?thesis using ph G by (simp add: mark_dirty_def)
qed

lemma unpinned_room:
  assumes wf: "wf_bpm L b" and f: "f < length (frames b)" "pin_count (frames b ! f) \<noteq> 0"
  shows "Size (bpm_replacer b) < capacity (bpm_replacer b)" "f \<notin> set (cache_list (bpm_replacer b))"
proof -
  let ?c = "cache_list (bpm_replacer b)"
  show nf: "f \<notin> set ?c" using wf_bpm_lru [OF wf, of f] f by simp
  have "set ?c \<subseteq> {..<length (frames b)}"
  proof
    fix x assume "x \<in> set ?c"
    then have "mapped b x" using wf_bpm_lru [OF wf, of x] by simp
    then show "x \<in> {..<length (frames b)}" using wf_bpm_get [OF wf] by (auto simp: mapped_def)
  qed
  then have "set (f # ?c) \<subseteq> {..<length (frames b)}" using f by simp
  then have "card (set (f # ?c)) \<le> length (frames b)" by (metis card_lessThan card_mono finite_lessThan)
  moreover have "distinct ?c" "Size (bpm_replacer b) = length ?c"
    using wf by (simp_all add: wf_bpm_def wf_lru_def Size_def)
  ultimately show "Size (bpm_replacer b) < capacity (bpm_replacer b)"
    using wf nf by (simp add: wf_bpm_def distinct_card)
qed

definition unpin_frame :: "nat \<Rightarrow> DiskBufferPool \<Rightarrow> DiskBufferPool" where
  "unpin_frame f s =
     (let s1 = upd_frame f (\<lambda>fr. fr\<lparr>pin_count := 0\<rparr>) s; b = bp_manager s1
      in s1\<lparr>bp_manager := b\<lparr>bpm_replacer := Unpin (bpm_replacer b) f\<rparr>\<rparr>)"

lemma unpin_frame_simps [simp]:
  "os (unpin_frame f s) = os s"
  "open_file (unpin_frame f s) = open_file s"
  "file_name_id (unpin_frame f s) = file_name_id s"
  "free_list (bp_manager (unpin_frame f s)) = free_list (bp_manager s)"
  "length (frames (bp_manager (unpin_frame f s))) = length (frames (bp_manager s))"
  "bpm_size (bp_manager (unpin_frame f s)) = bpm_size (bp_manager s)"
  "get (bp_manager (unpin_frame f s)) = get (bp_manager s)"
  "mapped (bp_manager (unpin_frame f s)) = mapped (bp_manager s)"
  "tables_ok (bp_manager (unpin_frame f s)) = tables_ok (bp_manager s)"
  "bpm_replacer (bp_manager (unpin_frame f s)) = Unpin (bpm_replacer (bp_manager s)) f"
  by (simp_all add: unpin_frame_def Let_def)

lemma frame_of_unpin_frame [simp]:
  "f < length (frames (bp_manager s)) \<Longrightarrow>
   frame_of (unpin_frame f s) g = (if g = f then (frame_of s f)\<lparr>pin_count := 0\<rparr> else frame_of s g)"
  by (simp add: unpin_frame_def Let_def upd_frame_def nth_list_update)

lemma unpin_frame_ok:
  assumes wf: "wf_pool {} s" and g: "get (bp_manager s) fd pn = Some f"
    and p: "pin_count (frame_of s f) \<noteq> 0" and sync: "synced s fd pn (frame_of s f)"
    and nh: "pn \<noteq> 0"
  shows "wf_pool {} (unpin_frame f s)" and "view (unpin_frame f s) = view s"
proof -
  have b: "wf_bpm {} (bp_manager s)" using wf by (simp add: wf_pool_def)
  have fn: "f < length (frames (bp_manager s))" using wf_bpm_get [OF b g] by simp
  have r: "wf_lru (bpm_replacer (bp_manager s))" using b by (simp add: wf_bpm_def)
  have c: "cache_list (Unpin (bpm_replacer (bp_manager s)) f) = f # cache_list (bpm_replacer (bp_manager s))"
    using unpinned_room [OF b fn p] lru.unpin_cands [OF r] by simp
  have "wf_bpm {} (bp_manager (unpin_frame f s))"
    unfolding wf_bpm_def
    using b fn mappedI [OF g] by (auto simp: wf_bpm_def wf_lru_Unpin lru.unpin_cap c)
  moreover have "frames_ok (unpin_frame f s)"
    unfolding frames_ok_def
  proof (intro conjI allI impI ballI)
    have fr: "frames_ok s" using wf by (simp add: wf_pool_def)
    fix x assume "x \<in> set (free_list (bp_manager (unpin_frame f s)))"
    then show "\<not> dirty (frame_of (unpin_frame f s) x)"
      using fr fn by (auto simp: frames_ok_def)
  next
    have fr: "frames_ok s" using wf by (simp add: wf_pool_def)
    fix fd' pn' x assume x: "get (bp_manager (unpin_frame f s)) fd' pn' = Some x"
    then show "0 \<le> pn'" "disk_page (os (unpin_frame f s)) fd' pn' \<noteq> None"
      using frames_okD [OF fr, of fd' pn' x] by simp_all
    assume c: "pin_count (frame_of (unpin_frame f s) x) = 0 \<and> \<not> dirty (frame_of (unpin_frame f s) x)"
    show "disk_page (os (unpin_frame f s)) fd' pn' = Some (page (frame_of (unpin_frame f s) x))"
      using c x fn frames_okD [OF fr, of fd' pn' x] wf_bpm_inj [OF b g, of fd' pn'] sync
      by (auto simp: synced_def split: if_splits)
  qed
  moreover have "hdr_frame fh \<noteq> f" if "open_file s fid = Some fh" for fid fh
    using wf that nh wf_bpm_inj [OF b g] by (auto simp: wf_pool_def files_ok_def file_ok_def)
  then have "files_ok (unpin_frame f s)"
    using wf fn unfolding wf_pool_def files_ok_def file_ok_def by auto
  ultimately show "wf_pool {} (unpin_frame f s)"
    using wf by (auto simp: wf_pool_def fds_ok_def)
  show "view (unpin_frame f s) = view s"
    using fn by (intro ext) (auto simp: view_def split: option.splits)
qed

lemma unpin_page_ok:
  assumes wf: "wf_pool {} s" and g: "get (bp_manager s) fd pn = Some f"
    and p: "pin_count (frame_of s f) \<noteq> 0"
    and last: "pin_count (frame_of s f) = 1 \<Longrightarrow> synced s fd pn (frame_of s f) \<and> pn \<noteq> 0"
    and ph: "ph_frame ph = Some f"
  shows "\<exists>s'. unpin_page s ph = (SUCCESS, ph\<lparr>ph_open := False\<rparr>, s') \<and> wf_pool {} s' \<and> view s' = view s \<and>
     get (bp_manager s') = get (bp_manager s) \<and> open_file s' = open_file s \<and>
     frame_of s' f = (frame_of s f)\<lparr>pin_count := pin_count (frame_of s f) - 1\<rparr>"
proof (cases "pin_count (frame_of s f) = 1")
  case True
  have b: "wf_bpm {} (bp_manager s)" using wf by (simp add: wf_pool_def)
  have fn: "f < length (frames (bp_manager s))" using wf_bpm_get [OF b g] by simp
  have "unpin_page s ph = (SUCCESS, ph\<lparr>ph_open := False\<rparr>, unpin_frame f s)"
    using ph fn True by (simp add: unpin_page_def unpin_frame_def upd_frame_def Let_def)
  then show ?thesis using unpin_frame_ok [OF wf g p] last True fn by auto
next
  case False
  let ?h = "\<lambda>fr. fr\<lparr>pin_count := pin_count fr - 1\<rparr>"
  have b: "wf_bpm {} (bp_manager s)" using wf by (simp add: wf_pool_def)
  note G = wf_bpm_get [OF b g]
  have ne: "pin_count (frame_of s f) - 1 \<noteq> 0" using False by simp
  have "unpin_page s ph = (SUCCESS, ph\<lparr>ph_open := False\<rparr>, upd_frame f ?h s)"
    using ph G ne by (simp add: unpin_page_def Let_def)
  moreover have "wf_pool {} (upd_frame f ?h s)"
    by (rule frame_update_ok [OF wf g]) (use G ne p in simp_all)
  moreover have "view (upd_frame f ?h s) = view s"
    by (rule upd_frame_same_data [OF b g]) simp
  ultimately show ?thesis using G by simp
qed

section \<open>The file header\<close>

text \<open>What the three header updates do to \<^verbatim>\<open>page_count\<close>, \<^verbatim>\<open>allocated_pages\<close> and the bits.\<close>

definition hdr_reuse :: "nat \<Rightarrow> bytes \<Rightarrow> bytes" where
  "hdr_reuse i d = set_bit (set_allocated (hdr_allocated d + 1) d) hdr_map i"

definition hdr_extend :: "nat \<Rightarrow> bytes \<Rightarrow> bytes" where
  "hdr_extend i d = set_bit (set_page_count (hdr_page_count d + 1)
     (set_allocated (hdr_allocated d + 1) d)) hdr_map i"

definition hdr_dispose :: "nat \<Rightarrow> bytes \<Rightarrow> bytes" where
  "hdr_dispose i d = clear_bit (set_allocated (hdr_allocated d - 1) d) hdr_map i"

lemma hdr_bit_below: "a < 8 \<Longrightarrow> set_bit d hdr_map i a = d a" "a < 8 \<Longrightarrow> clear_bit d hdr_map i a = d a"
  by (auto simp: hdr_map_def BP_FILE_SUB_HDR_SIZE_def set_bit_out clear_bit_out)

lemma hdr_counts_bits [simp]:
  "hdr_page_count (set_bit d hdr_map i) = hdr_page_count d"
  "hdr_page_count (clear_bit d hdr_map i) = hdr_page_count d"
  "hdr_allocated (set_bit d hdr_map i) = hdr_allocated d"
  "hdr_allocated (clear_bit d hdr_map i) = hdr_allocated d"
  unfolding hdr_page_count_def hdr_allocated_def
  by (rule get_int_cong; simp add: hdr_bit_below)+

lemma hdr_bits_counts [simp]:
  "get_bit (set_page_count n d) hdr_map i = get_bit d hdr_map i"
  "get_bit (set_allocated n d) hdr_map i = get_bit d hdr_map i"
  by (simp_all add: get_bit_iff hdr_map_def BP_FILE_SUB_HDR_SIZE_def set_page_count_def
      set_allocated_def put_int_other)

lemma hdr_counts_counts [simp]:
  "hdr_page_count (set_allocated n d) = hdr_page_count d"
  "hdr_allocated (set_page_count n d) = hdr_allocated d"
  "int32 n \<Longrightarrow> hdr_page_count (set_page_count n d) = n"
  "int32 n \<Longrightarrow> hdr_allocated (set_allocated n d) = n"
  by (simp_all add: hdr_page_count_def hdr_allocated_def set_page_count_def set_allocated_def mem_simps)

lemma hdr_reuse_simps [simp]:
  "hdr_page_count (hdr_reuse i d) = hdr_page_count d"
  "get_bit (hdr_reuse i d) hdr_map j = (j = i \<or> get_bit d hdr_map j)"
  "int32 (hdr_allocated d + 1) \<Longrightarrow> hdr_allocated (hdr_reuse i d) = hdr_allocated d + 1"
  by (simp_all add: hdr_reuse_def)

lemma hdr_extend_simps [simp]:
  "int32 (hdr_page_count d + 1) \<Longrightarrow> hdr_page_count (hdr_extend i d) = hdr_page_count d + 1"
  "get_bit (hdr_extend i d) hdr_map j = (j = i \<or> get_bit d hdr_map j)"
  "int32 (hdr_allocated d + 1) \<Longrightarrow> hdr_allocated (hdr_extend i d) = hdr_allocated d + 1"
  by (simp_all add: hdr_extend_def)

lemma hdr_dispose_simps [simp]:
  "hdr_page_count (hdr_dispose i d) = hdr_page_count d"
  "get_bit (hdr_dispose i d) hdr_map j = (j \<noteq> i \<and> get_bit d hdr_map j)"
  "int32 (hdr_allocated d - 1) \<Longrightarrow> hdr_allocated (hdr_dispose i d) = hdr_allocated d - 1"
  by (simp_all add: hdr_dispose_def)

text \<open>The header's own invariant: the header page is in use and \<^verbatim>\<open>allocated_pages\<close> counts the
  set bits.\<close>

definition used_pages :: "bytes \<Rightarrow> nat set" where
  "used_pages d = {i. int i < hdr_page_count d \<and> get_bit d hdr_map i}"

definition hdr_ok :: "bytes \<Rightarrow> bool" where
  "hdr_ok d \<longleftrightarrow> 0 < hdr_page_count d \<and> get_bit d hdr_map 0 \<and>
     hdr_allocated d = int (card (used_pages d))"

lemma used_pages_finite [simp]: "finite (used_pages d)"
proof (rule finite_subset)
  show "used_pages d \<subseteq> {..<nat (hdr_page_count d)}" by (auto simp: used_pages_def)
qed simp

lemma used_pages_card: "int (card (used_pages d)) \<le> max 0 (hdr_page_count d)"
proof -
  have "used_pages d \<subseteq> {..<nat (hdr_page_count d)}" by (auto simp: used_pages_def)
  then have "card (used_pages d) \<le> nat (hdr_page_count d)"
    by (metis card_lessThan card_mono finite_lessThan)
  then show ?thesis by linarith
qed

lemma hdr_count_less: "hdr_page_count d < 2 ^ 31"
  using get_int_range [of d 0] by (simp add: hdr_page_count_def int32_def)

lemma hdr_ok_reuse:
  assumes ok: "hdr_ok d" and i: "int i < hdr_page_count d" "\<not> get_bit d hdr_map i"
  shows "hdr_ok (hdr_reuse i d)"
proof -
  have u: "used_pages (hdr_reuse i d) = insert i (used_pages d)"
    using i by (auto simp: used_pages_def)
  have ni: "i \<notin> used_pages d" using i by (simp add: used_pages_def)
  have "insert i (used_pages d) \<subseteq> {..<nat (hdr_page_count d)}" using i by (auto simp: used_pages_def)
  then have "card (insert i (used_pages d)) \<le> nat (hdr_page_count d)"
    by (metis card_lessThan card_mono finite_lessThan)
  then have "int32 (hdr_allocated d + 1)"
    using ok ni hdr_count_less [of d] by (simp add: hdr_ok_def int32_def)
  then show ?thesis using ok ni u by (simp add: hdr_ok_def)
qed

lemma hdr_ok_extend:
  assumes ok: "hdr_ok d" and c: "hdr_page_count d + 1 < 2 ^ 31"
  shows "hdr_ok (hdr_extend (nat (hdr_page_count d)) d)"
proof -
  let ?i = "nat (hdr_page_count d)"
  have r: "int32 (hdr_page_count d + 1)" "int32 (hdr_allocated d + 1)"
    using ok c used_pages_card [of d] by (simp_all add: hdr_ok_def int32_def)
  have u: "used_pages (hdr_extend ?i d) = insert ?i (used_pages d)"
    using ok r by (auto simp: used_pages_def hdr_ok_def)
  have "?i \<notin> used_pages d" using ok by (simp add: used_pages_def hdr_ok_def)
  then show ?thesis using ok r u by (simp add: hdr_ok_def)
qed

lemma hdr_ok_dispose:
  assumes ok: "hdr_ok d" and i: "int i < hdr_page_count d" "get_bit d hdr_map i" "i \<noteq> 0"
  shows "hdr_ok (hdr_dispose i d)"
proof -
  have iu: "i \<in> used_pages d" using i by (simp add: used_pages_def)
  then have c: "0 < card (used_pages d)" using card_gt_0_iff by fastforce
  have u: "used_pages (hdr_dispose i d) = used_pages d - {i}" by (auto simp: used_pages_def)
  have "int32 (hdr_allocated d - 1)"
    using ok c used_pages_card [of d] hdr_count_less [of d] by (simp add: hdr_ok_def int32_def)
  then show ?thesis using ok iu c u i(3) by (simp add: hdr_ok_def)
qed

text \<open>While some page is free, the loop of \<^verbatim>\<open>allocate_page\<close> finds one.\<close>

lemma first_free_page_exists:
  assumes ok: "hdr_ok d" and lt: "hdr_allocated d < hdr_page_count d"
  shows "\<exists>i. first_free_page d = Some i"
proof (rule ccontr)
  assume "\<nexists>i. first_free_page d = Some i"
  then have "\<forall>i. i < nat (hdr_page_count d) \<longrightarrow> get_bit d hdr_map i"
    by (simp add: first_free_page_def find_upt_None_iff)
  then have "used_pages d = {..<nat (hdr_page_count d)}"
    using ok by (auto simp: used_pages_def hdr_ok_def)
  then show False using ok lt by (simp add: hdr_ok_def)
qed

lemma first_free_page_Some:
  "first_free_page d = Some i \<longleftrightarrow>
   int i < hdr_page_count d \<and> \<not> get_bit d hdr_map i \<and> (\<forall>j<i. get_bit d hdr_map j)"
  by (auto simp: first_free_page_def find_Some_iff_first)

section \<open>\<^verbatim>\<open>dispose_page\<close>\<close>

lemma deleteFrame_simps [simp]:
  "frames (deleteFrame b fd pn f) = frames b"
  "free_list (deleteFrame b fd pn f) = free_list b @ [f]"
  "bpm_size (deleteFrame b fd pn f) = bpm_size b"
  "bpm_replacer (deleteFrame b fd pn f) = Pin (bpm_replacer b) f"
  "get (deleteFrame b fd pn f) fd' pn' = (if fd' = fd \<and> pn' = pn then None else get b fd' pn')"
  by (simp_all add: deleteFrame_def Let_def)

lemma mapped_deleteFrame:
  "wf_bpm L b \<Longrightarrow> get b fd pn = Some f \<Longrightarrow> mapped (deleteFrame b fd pn f) g \<longleftrightarrow> mapped b g \<and> g \<noteq> f"
  unfolding mapped_def deleteFrame_simps
  by (metis (no_types) option.inject option.simps(3) wf_bpm_inj)

lemma deleteFrame_bpm:
  assumes b: "wf_bpm {} b" and g: "get b fd pn = Some f"
  shows "wf_bpm {} (deleteFrame b fd pn f)"
proof -
  note m = mapped_deleteFrame [OF b g] and G = wf_bpm_get [OF b g]
  have r: "wf_lru (bpm_replacer b)" using b by (simp add: wf_bpm_def)
  have "tables_ok (deleteFrame b fd pn f)"
    using b by (simp add: wf_bpm_def deleteFrame_def Let_def tables_ok_Delete)
  moreover have "f \<notin> set (free_list b)" using wf_bpm_free [OF b, of f] mappedI [OF g] by blast
  moreover have "x \<in> set (cache_list (Pin (bpm_replacer b) f)) \<longleftrightarrow>
      mapped (deleteFrame b fd pn f) x \<and> pin_count (frames b ! x) = 0" for x
    using wf_bpm_lru [OF b, of x] m [of x] by (auto simp: Pin_cands [OF r])
  moreover have "x \<in> set (free_list b @ [f]) \<longleftrightarrow>
      x < length (frames b) \<and> \<not> mapped (deleteFrame b fd pn f) x" for x
    using wf_bpm_free [OF b, of x] m [of x] G by auto
  ultimately show ?thesis
    using b unfolding wf_bpm_def by (simp add: wf_lru_Pin lru.pin_cap)
qed

text \<open>Dropping a clean unpinned frame: the page's contents are what the disk has.\<close>

lemma delete_clean_frame:
  assumes wf: "wf_pool {} s" and g: "get (bp_manager s) fd pn = Some f"
    and p: "pin_count (frame_of s f) = 0" "\<not> dirty (frame_of s f)"
  shows "wf_pool {} (s\<lparr>bp_manager := deleteFrame (bp_manager s) fd pn f\<rparr>)" (is "wf_pool {} ?s")
    and "view (s\<lparr>bp_manager := deleteFrame (bp_manager s) fd pn f\<rparr>) = view s"
proof -
  have b: "wf_bpm {} (bp_manager s)" and fr: "frames_ok s" using wf by (simp_all add: wf_pool_def)
  have "frames_ok ?s" using fr p by (auto simp: frames_ok_def)
  moreover have "files_ok ?s"
  proof -
    have "\<not> (fh_desc fh = fd \<and> 0 = pn)" if "open_file s fid = Some fh" for fid fh
      using wf that g p(1) by (auto simp: wf_pool_def files_ok_def file_ok_def)
    then show ?thesis using wf by (auto simp: wf_pool_def files_ok_def file_ok_def)
  qed
  ultimately show "wf_pool {} ?s"
    using wf deleteFrame_bpm [OF b g] by (simp add: wf_pool_def)
  show "view ?s = view s"
    using frames_okD [OF fr g] p g by (intro ext) (auto simp: view_def split: option.splits)
qed

lemma upd_data_comp:
  "upd_data f g (upd_frame f (dirty_update (\<lambda>_. True)) s) =
   upd_frame f (\<lambda>fr. fr\<lparr>dirty := True, page := (page fr)\<lparr>data := g (data (page fr))\<rparr>\<rparr>) s"
proof (cases "f < length (frames (bp_manager s))")
  case True
  then show ?thesis by (simp add: upd_data_def upd_frame_def)
next
  case False
  then show ?thesis by (simp add: upd_data_def upd_frame_def list_update_beyond)
qed

text \<open>A store to the header page of an open file, marked dirty.\<close>

abbreviation store_header :: "BPFileHandle \<Rightarrow> (bytes \<Rightarrow> bytes) \<Rightarrow> DiskBufferPool \<Rightarrow> DiskBufferPool" where
  "store_header fh g s \<equiv>
     upd_data (hdr_frame fh) g (upd_frame (hdr_frame fh) (dirty_update (\<lambda>_. True)) s)"

lemma header_update:
  assumes wf: "wf_pool {} s" and fh: "open_file s fid = Some fh"
    and keep: "hdr_page_count (g (hdr_data s fh)) = hdr_page_count (hdr_data s fh)"
  shows "wf_pool {} (store_header fh g s)"
    and "view (store_header fh g s) = (view s)(fh_desc fh := (view s (fh_desc fh))(0 \<mapsto> g (hdr_data s fh)))"
proof -
  have b: "wf_bpm {} (bp_manager s)" using wf by (simp add: wf_pool_def)
  note h = header_frame(2) [OF wf fh] and p = header_frame(4) [OF wf fh]
  note G = wf_bpm_get [OF b h]
  show "wf_pool {} (store_header fh g s)"
    unfolding upd_data_comp by (rule frame_update_ok [OF wf h]) (use G p keep in simp_all)
  show "view (store_header fh g s) = (view s)(fh_desc fh := (view s (fh_desc fh))(0 \<mapsto> g (hdr_data s fh)))"
    unfolding upd_data_comp by (intro ext) (simp add: view_frame_update [OF b h])
qed

lemma dispose_page_ok:
  assumes wf: "wf_pool {} s" and fh: "check_file_id s fid = Inr fh"
    and pn: "check_page_num s pn fh = SUCCESS" and g: "get (bp_manager s) (fh_desc fh) pn = Some f"
    and p: "pin_count (frame_of s f) = 0" "\<not> dirty (frame_of s f)"
  shows "\<exists>s'. dispose_page s fid pn = (SUCCESS, s') \<and> wf_pool {} s' \<and>
     view s' = (view s)(fh_desc fh := (view s (fh_desc fh))(0 \<mapsto> hdr_dispose (nat pn) (hdr_data s fh))) \<and>
     hdr_data s' fh = hdr_dispose (nat pn) (hdr_data s fh) \<and>
     check_page_num s' pn fh = Inl BUFFERPOOL_INVALID_PAGE_NUM"
proof -
  let ?s1 = "s\<lparr>bp_manager := deleteFrame (bp_manager s) (fh_desc fh) pn f\<rparr>"
  let ?s2 = "store_header fh (hdr_dispose (nat pn)) ?s1"
  note fo = check_file_id_Inr [OF fh]
  have b: "wf_bpm {} (bp_manager s)" using wf by (simp add: wf_pool_def)
  note hn = header_frame(3) [OF wf fo]
  note d = delete_clean_frame [OF wf g p]
  have fo1: "open_file ?s1 fid = Some fh" using fo by simp
  have e: "dispose_page s fid pn = (SUCCESS, ?s2)"
    by (simp add: dispose_page_def fh pn g p(1) Let_def hdr_dispose_def [abs_def])
  have h: "hdr_data ?s2 fh = hdr_dispose (nat pn) (hdr_data s fh)"
    using hn by (simp add: upd_data_comp)
  have "check_page_num ?s2 pn fh = Inl BUFFERPOOL_INVALID_PAGE_NUM"
    using check_page_num_Inr [OF pn] unfolding check_page_num_def h by simp
  then show ?thesis
    using e h header_update [OF d(1) fo1, of "hdr_dispose (nat pn)"] d(2) by simp
qed

section \<open>\<^verbatim>\<open>allocate_page\<close>\<close>

text \<open>The disk after the new last page was written.\<close>

definition extended :: "Os \<Rightarrow> int \<Rightarrow> Page \<Rightarrow> Os \<Rightarrow> bool" where
  "extended o1 fd pg o2 \<longleftrightarrow>
     (\<exists>ino. fd_inode o1 fd = Some ino \<and> page_num pg = int (length (os_inodes o1 ino)) \<and>
            os_eq (put_inode o1 ino (nat (page_num pg)) pg) o2)"

lemma extended_disk:
  assumes wf: "os_wf o1" and e: "extended o1 fd pg o2"
  shows "disk_page o2 fd' pn' = (if fd' = fd \<and> pn' = page_num pg then Some pg else disk_page o1 fd' pn')"
    and "disk_page o1 fd (page_num pg) = None" and "os_wf o2"
    and "fd_inode o2 = fd_inode o1" and "os_names o2 = os_names o1"
proof -
  obtain ino where ino: "fd_inode o1 fd = Some ino" and pn: "page_num pg = int (length (os_inodes o1 ino))"
    and o2: "os_eq (put_inode o1 ino (nat (page_num pg)) pg) o2" using e by (auto simp: extended_def)
  have inj: "fd_inode o1 fd' = Some ino \<longleftrightarrow> fd' = fd" using wf ino by (auto simp: os_wf_def)
  show "disk_page o2 fd' pn' = (if fd' = fd \<and> pn' = page_num pg then Some pg else disk_page o1 fd' pn')"
    using disk_page_put_inode [OF ino, of "page_num pg" pg fd' pn'] pn os_eq_disk_page [OF o2]
    by (simp add: inj)
  show "disk_page o1 fd (page_num pg) = None" using ino pn by (simp add: disk_page_def)
  show "os_wf o2" using os_wf_put_inode [OF wf ino _ _ o2] pn by simp
  show "fd_inode o2 = fd_inode o1" "os_names o2 = os_names o1"
    using o2 by (simp_all add: os_eq_def put_inode_def)
qed

lemma extended_length:
  assumes "extended o1 fd pg o2" "fd_inode o1 fd' = Some ino'"
    and inj: "\<And>i. fd_inode o1 fd = Some i \<Longrightarrow> fd_inode o1 fd' = Some i \<Longrightarrow> fd' = fd"
  shows "length (os_inodes o2 ino') = (if fd' = fd then 1 else 0) + length (os_inodes o1 ino')"
  using assms by (auto simp: extended_def os_eq_def put_inode_def length_put_page)

lemma wf_core_extend:
  assumes wf: "wf_core L s" and e: "extended (os s) fd pg t"
  shows "wf_core L (s\<lparr>os := t\<rparr>)"
    and "view (s\<lparr>os := t\<rparr>) = (view s)(fd := (view s fd)(page_num pg \<mapsto> data pg))"
    and "get (bp_manager s) fd (page_num pg) = None"
proof -
  have ow: "os_wf (os s)" and fr: "frames_ok s" using wf by (simp_all add: wf_core_def)
  note E = extended_disk [OF ow e]
  show g: "get (bp_manager s) fd (page_num pg) = None"
    using frames_okD [OF fr, of fd "page_num pg"] E(2) by (cases "get (bp_manager s) fd (page_num pg)") auto
  have "frames_ok (s\<lparr>os := t\<rparr>)"
    using fr E(2) unfolding frames_ok_def by (auto simp: E(1))
  moreover have "fds_ok (s\<lparr>os := t\<rparr>) = fds_ok s" by (simp add: fds_ok_def E(4,5))
  ultimately show "wf_core L (s\<lparr>os := t\<rparr>)" using wf E(3) by (simp add: wf_core_def)
  show "view (s\<lparr>os := t\<rparr>) = (view s)(fd := (view s fd)(page_num pg \<mapsto> data pg))"
    using g by (intro ext) (auto simp: view_def E(1) split: option.splits)
qed

text \<open>The same state, built in the order in which the invariants hold: disk, frame, page table,
  header.\<close>

definition new_page_state ::
  "DiskBufferPool \<Rightarrow> BPFileHandle \<Rightarrow> nat \<Rightarrow> Os \<Rightarrow> Page \<Rightarrow> (bytes \<Rightarrow> bytes) \<Rightarrow> DiskBufferPool" where
  "new_page_state s fh f t pg g =
     store_header fh g (add_page_table
       (upd_frame f (\<lambda>fr. fr\<lparr>dirty := False, file_desc := fh_desc fh, pin_count := 1,
          acc_time := os_clock (os s), page := pg\<rparr>) (s\<lparr>os := t\<rparr>)) (fh_desc fh) (page_num pg) f)"

lemma wf_core_add_entry:
  assumes wf: "wf_core {f} s" and e: "extended (os s) (fh_desc fh) pg t"
    and n: "0 \<le> page_num pg"
    and h: "h = (\<lambda>fr. fr\<lparr>dirty := False, file_desc := fh_desc fh, pin_count := 1,
          acc_time := clk, page := pg\<rparr>)"
  shows "wf_core {} (add_page_table (upd_frame f h (s\<lparr>os := t\<rparr>)) (fh_desc fh) (page_num pg) f)"
    (is "wf_core {} ?s")
    and "view (add_page_table (upd_frame f h (s\<lparr>os := t\<rparr>)) (fh_desc fh) (page_num pg) f) =
      (view s)(fh_desc fh := (view s (fh_desc fh))(page_num pg \<mapsto> data pg))"
proof -
  let ?t = "upd_frame f h (s\<lparr>os := t\<rparr>)"
  note C = wf_core_extend [OF wf e]
  have b: "wf_bpm {f} (bp_manager (s\<lparr>os := t\<rparr>))" using C(1) by (simp add: wf_core_def)
  have fn: "f < length (frames (bp_manager s))" using wf_bpm_free [OF b, of f] by simp
  have ow: "os_wf (os s)" using wf by (simp add: wf_core_def)
  have c: "wf_core {f} ?t" by (rule wf_core_upd_limbo [OF C(1)]) simp
  have v: "view ?t = view (s\<lparr>os := t\<rparr>)" by (rule view_upd_limbo [OF b]) simp
  have g: "get (bp_manager ?t) (fh_desc fh) (page_num pg) = None" using C(3) by simp
  have d: "disk_page t (fh_desc fh) (page_num pg) = Some pg" using extended_disk(1) [OF ow e] by simp
  show "wf_core {} ?s"
    by (rule wf_core_add_page_table [OF c g]) (use fn n d h in simp_all)
  show "view ?s = (view s)(fh_desc fh := (view s (fh_desc fh))(page_num pg \<mapsto> data pg))"
    using view_add_page_table [OF g, of f] d v C(2) fn h by simp
qed

lemma new_page_state_ok:
  assumes bt: "block_taken s f s1" and wf: "wf_pool {} s" and fh: "open_file s fid = Some fh"
    and e: "extended (os s1) (fh_desc fh) pg t" and n: "0 < page_num pg"
    and g: "hdr_page_count (g (hdr_data s1 fh)) = page_num pg + 1"
  shows "wf_pool {} (new_page_state s1 fh f t pg g)"
    and "view (new_page_state s1 fh f t pg g) =
      (view s)(fh_desc fh := (view s (fh_desc fh))(page_num pg \<mapsto> data pg, 0 \<mapsto> g (hdr_data s1 fh)))"
proof -
  have wf1: "wf_pool {f} s1" and v1: "view s1 = view s" and fn: "f < length (frames (bp_manager s1))"
    and fh1: "open_file s1 fid = Some fh" and nh: "\<And>i x. open_file s1 i = Some x \<Longrightarrow> hdr_frame x \<noteq> f"
    using bt fh by (auto simp: block_taken_def)
  define h :: "Frame \<Rightarrow> Frame" where "h = (\<lambda>fr. fr\<lparr>dirty := False, file_desc := fh_desc fh, pin_count := 1,
    acc_time := os_clock (os s1), page := pg\<rparr>)"
  define s2 where "s2 = add_page_table (upd_frame f h (s1\<lparr>os := t\<rparr>)) (fh_desc fh) (page_num pg) f"
  have eq: "new_page_state s1 fh f t pg g = store_header fh g s2"
    by (simp add: new_page_state_def s2_def h_def)
  have ow: "os_wf (os s1)" using wf1 by (simp add: wf_pool_def)
  have c2: "wf_core {} s2" and v2: "view s2 = (view s)(fh_desc fh := (view s (fh_desc fh))(page_num pg \<mapsto> data pg))"
    unfolding s2_def using wf_core_add_entry [OF _ e _ h_def] wf1 n v1 by (simp_all add: wf_pool_core)
  have b2: "wf_bpm {} (bp_manager s2)" using c2 by (simp add: wf_core_def)
  have fr2: "frame_of s2 x = (if x = f then h (frame_of s1 f) else frame_of s1 x)" for x
    using fn by (simp add: s2_def)
  have get2: "get (bp_manager s2) fd pn =
      (if fd = fh_desc fh \<and> pn = page_num pg then Some f else get (bp_manager s1) fd pn)" for fd pn
    by (simp add: s2_def)
  note H = header_frame [OF wf1 fh1]
  have hf: "hdr_frame fh \<noteq> f" using nh [OF fh1] .
  have gh: "get (bp_manager s2) (fh_desc fh) 0 = Some (hdr_frame fh)" using H(2) n by (simp add: get2)
  note G = wf_bpm_get [OF b2 gh]
  have c3: "wf_core {} (store_header fh g s2)"
    unfolding upd_data_comp
    by (rule wf_core_frame_update [OF c2 gh]) (use G H(4) hf in \<open>simp_all add: fr2 synced_def\<close>)
  have fr3: "frame_of (store_header fh g s2) x = (if x = hdr_frame fh
      then (frame_of s1 x)\<lparr>dirty := True, page := (page (frame_of s1 x))\<lparr>data := g (hdr_data s1 fh)\<rparr>\<rparr>
      else frame_of s2 x)" for x
    using G hf by (simp add: upd_data_comp fr2)
  have inj: "fd_inode (os s1) a = Some i \<Longrightarrow> fd_inode (os s1) b = Some i \<Longrightarrow> b = a" for a b i
    using ow by (auto simp: os_wf_def)
  have files: "file_ok (store_header fh g s2) x" if x: "open_file s1 i = Some x" for i x
  proof -
    note X = header_frame [OF wf1 x]
    obtain ino where ino: "fd_inode (os s1) (fh_desc x) = Some ino"
      and cnt: "hdr_page_count (hdr_data s1 x) = int (length (os_inodes (os s1) ino))"
      using X(1) by (auto simp: file_ok_def)
    have same: "hdr_frame x = hdr_frame fh \<longleftrightarrow> fh_desc x = fh_desc fh"
      using X(2) H(2) wf_bpm_inj [of "{f}" "bp_manager s1"] wf1 by (auto simp: wf_pool_def)
    have len: "length (os_inodes t ino) =
        (if fh_desc x = fh_desc fh then 1 else 0) + length (os_inodes (os s1) ino)"
      using extended_length [OF e ino] inj by blast
    have pg: "fh_desc x = fh_desc fh \<Longrightarrow> page_num pg = int (length (os_inodes (os s1) ino))"
      using e ino by (auto simp: extended_def)
    have "hdr_page_count (hdr_data (store_header fh g s2) x) = int (length (os_inodes t ino))"
      using g cnt same len pg nh [OF x] by (auto simp: fr3 fr2)
    moreover have "pin_count (frame_of (store_header fh g s2) (hdr_frame x)) \<noteq> 0"
      using X(4) nh [OF x] by (auto simp: fr3 fr2)
    ultimately show ?thesis
      using X(2) n ino extended_disk(4) [OF ow e] by (simp add: file_ok_def upd_data_comp get2 s2_def)
  qed
  have "files_ok (store_header fh g s2)"
    unfolding files_ok_def using files by (simp add: upd_data_comp s2_def)
  then show "wf_pool {} (new_page_state s1 fh f t pg g)"
    using c3 by (simp add: wf_pool_core eq)
  show "view (new_page_state s1 fh f t pg g) =
      (view s)(fh_desc fh := (view s (fh_desc fh))(page_num pg \<mapsto> data pg, 0 \<mapsto> g (hdr_data s1 fh)))"
    unfolding eq upd_data_comp
    by (intro ext) (use hf in \<open>simp add: view_frame_update [OF b2 gh] v2 fr2\<close>)
qed

lemma frame_dirty_first:
  "(fr :: Frame)\<lparr>page := p, dirty := b\<rparr> = fr\<lparr>dirty := b, page := p\<rparr>"
  "fr\<lparr>acc_time := a, dirty := b\<rparr> = fr\<lparr>dirty := b, acc_time := a\<rparr>"
  "fr\<lparr>pin_count := c, dirty := b\<rparr> = fr\<lparr>dirty := b, pin_count := c\<rparr>"
  "fr\<lparr>file_desc := d, dirty := b\<rparr> = fr\<lparr>dirty := b, file_desc := d\<rparr>"
  by (cases fr; simp)+

lemma extend_state_eq:
  assumes ne: "hdr_frame fh \<noteq> f"
    and fn: "f < length (frames (bp_manager s))" "hdr_frame fh < length (frames (bp_manager s))"
    and pg: "page_num pg = pn"
  shows "upd_frame f (dirty_update (\<lambda>_. False))
    ((add_page_table (upd_frame f (\<lambda>fr. fr\<lparr>acc_time := os_clock (os s), page := pg\<rparr>)
       (claim_frame f (fh_desc fh) (upd_frame (hdr_frame fh) (dirty_update (\<lambda>_. True))
          (upd_data (hdr_frame fh) g s)))) (fh_desc fh) pn f)\<lparr>os := t\<rparr>) =
    new_page_state s fh f t pg g"
  using assms
  by (simp add: new_page_state_def claim_frame_def upd_data_def upd_frame_def add_page_table_def
      AddPageTable_def Let_def nth_list_update list_update_swap [of "hdr_frame fh" f]
      frame_dirty_first)

definition zeroed :: "int \<Rightarrow> Page" where
  "zeroed pn = \<lparr>page_num = pn, data = data zero_page\<rparr>"

lemma zeroed_simps [simp]: "page_num (zeroed pn) = pn" "data (zeroed pn) = data zero_page"
  by (simp_all add: zeroed_def)

text \<open>The extending branch, with room in the bit map.\<close>

lemma allocate_page_extend:
  assumes wf: "wf_pool {} s" and fh: "check_file_id s fid = Inr fh"
    and full: "\<not> hdr_allocated (hdr_data s fh) < hdr_page_count (hdr_data s fh) \<or>
               first_free_page (hdr_data s fh) = None"
    and room: "hdr_page_count (hdr_data s fh) < int (bsize hdr_map)"
    and a: "allocate_block s = (Inr f, s1)" and bt: "block_taken s f s1"
  defines "pn \<equiv> hdr_page_count (hdr_data s fh)"
  shows "\<exists>t. allocate_page s fid ph = (SUCCESS, \<lparr>ph_open = True, ph_frame = Some f\<rparr>,
           new_page_state s1 fh f t (zeroed pn) (hdr_extend (nat pn))) \<and>
         extended (os s1) (fh_desc fh) (zeroed pn) t \<and> 0 < pn \<and> hdr_data s1 fh = hdr_data s fh"
proof -
  note fo = check_file_id_Inr [OF fh]
  have wf1: "wf_pool {f} s1" and fn: "f < length (frames (bp_manager s1))"
    and fh1: "open_file s1 fid = Some fh" and nh: "hdr_frame fh \<noteq> f"
    and hd: "hdr_data s1 fh = hdr_data s fh"
    using bt fo by (auto simp: block_taken_def)
  note H = header_frame [OF wf1 fh1]
  obtain ino where ino: "fd_inode (os s1) (fh_desc fh) = Some ino"
    and cnt: "pn = int (length (os_inodes (os s1) ino))"
    using H(1) hd by (auto simp: file_ok_def pn_def)
  have "frames_ok s1" using wf1 by (simp add: wf_pool_def)
  from frames_okD [OF this H(2)] ino cnt have pos: "0 < pn" by (auto simp: disk_page_def)
  have i32: "int32 (pn + 1)" using pos room by (simp add: pn_def int32_def hdr_map_def BP_PAGE_DATA_SIZE_def
        BP_PAGE_SIZE_def BP_FILE_SUB_HDR_SIZE_def)
  define s3 where "s3 = upd_frame (hdr_frame fh) (dirty_update (\<lambda>_. True))
      (upd_data (hdr_frame fh) (hdr_extend (nat pn)) s1)"
  define s5 where "s5 = add_page_table (upd_frame f (\<lambda>fr. fr\<lparr>acc_time := os_clock (os s1), page := zeroed pn\<rparr>)
       (claim_frame f (fh_desc fh) s3)) (fh_desc fh) pn f"
  have os3: "os s3 = os s1" "os s5 = os s1" by (simp_all add: s3_def s5_def claim_frame_def upd_data_def)
  have d3: "hdr_page_count (hdr_data s3 fh) = pn + 1"
    using H(3) hd i32 by (simp add: s3_def upd_data_def pn_def)
  have f5: "frame_of s5 f = (frame_of s1 f)\<lparr>dirty := False, file_desc := fh_desc fh, pin_count := 1,
      acc_time := os_clock (os s1), page := zeroed pn\<rparr>"
    using fn nh by (simp add: s5_def s3_def claim_frame_def upd_data_def upd_frame_def)
  have nf: "no_fault (os s5)" using wf1 os3 by (simp add: wf_pool_def os_wf_def)
  obtain t where fl: "flush_block s5 f = (SUCCESS, upd_frame f (dirty_update (\<lambda>_. False)) (s5\<lparr>os := t\<rparr>))"
    and t: "os_eq (put_inode (os s5) ino (nat pn) (zeroed pn)) t"
    using flush_block_ok [OF nf, of f ino] ino os3 f5 pos by auto
  have ext: "extended (os s1) (fh_desc fh) (zeroed pn) t"
    using t ino cnt os3 by (auto simp: extended_def)
  have n: "(if hdr_allocated (hdr_data s fh) < hdr_page_count (hdr_data s fh)
      then first_free_page (hdr_data s fh) else None) = None" using full by auto
  have fr4: "frame_of (upd_frame f (\<lambda>fr. fr\<lparr>acc_time := os_clock (os s1), page := zeroed pn\<rparr>)
       (claim_frame f (fh_desc fh) s3)) f = frame_of s5 f" by (simp add: s5_def)
  have "allocate_page s fid ph = (case flush_block s5 f of
      (Inl e, s6) \<Rightarrow> (Inl e, ph\<lparr>ph_frame := Some f\<rparr>, s6)
    | (Inr _, s6) \<Rightarrow> (SUCCESS, ph\<lparr>ph_frame := Some f, ph_open := True\<rparr>, s6))"
    using pos room n a hd d3 os3(1) fr4 f5
    unfolding allocate_page_def fh s5_def s3_def zeroed_def hdr_extend_def [abs_def]
    by (simp add: Let_def pn_def)
  moreover have "upd_frame f (dirty_update (\<lambda>_. False)) (s5\<lparr>os := t\<rparr>) =
      new_page_state s1 fh f t (zeroed pn) (hdr_extend (nat pn))"
    unfolding s5_def s3_def by (rule extend_state_eq [OF nh fn H(3)]) simp
  ultimately show ?thesis using fl ext pos hd by auto
qed

text \<open>The page number \<^verbatim>\<open>allocate_page\<close> is to hand out: the lowest free one, or the next one.\<close>

definition target_page :: "bytes \<Rightarrow> nat" where
  "target_page d = (case first_free_page d of Some i \<Rightarrow> i | None \<Rightarrow> nat (hdr_page_count d))"

definition hdr_alloc :: "bytes \<Rightarrow> bytes" where
  "hdr_alloc d = (case first_free_page d of Some i \<Rightarrow> hdr_reuse i d
                  | None \<Rightarrow> hdr_extend (nat (hdr_page_count d)) d)"

lemma first_free_page_iff:
  assumes ok: "hdr_ok d"
  shows "hdr_allocated d < hdr_page_count d \<longleftrightarrow> first_free_page d \<noteq> None"
proof
  show "hdr_allocated d < hdr_page_count d \<Longrightarrow> first_free_page d \<noteq> None"
    using first_free_page_exists [OF ok] by auto
next
  assume "first_free_page d \<noteq> None"
  then obtain i where i: "int i < hdr_page_count d" "\<not> get_bit d hdr_map i"
    by (auto simp: first_free_page_Some)
  have "used_pages d \<subseteq> {..<nat (hdr_page_count d)}" by (auto simp: used_pages_def)
  moreover have "i \<in> {..<nat (hdr_page_count d)}" "i \<notin> used_pages d" using i by (auto simp: used_pages_def)
  ultimately have "used_pages d \<subset> {..<nat (hdr_page_count d)}" by (metis psubsetI)
  then have "card (used_pages d) < nat (hdr_page_count d)"
    by (metis card_lessThan finite_lessThan psubset_card_mono)
  then show "hdr_allocated d < hdr_page_count d" using ok by (simp add: hdr_ok_def)
qed

lemma hdr_alloc_ok:
  assumes ok: "hdr_ok d" and room: "hdr_page_count d < int (bsize hdr_map)"
  shows "hdr_ok (hdr_alloc d) \<and> target_page d \<notin> used_pages d \<and> target_page d \<noteq> 0 \<and>
    used_pages (hdr_alloc d) = insert (target_page d) (used_pages d)"
proof (cases "first_free_page d")
  case (Some i)
  then have i: "int i < hdr_page_count d" "\<not> get_bit d hdr_map i" by (simp_all add: first_free_page_Some)
  then have "i \<noteq> 0" using ok by (metis hdr_ok_def)
  moreover have "used_pages (hdr_reuse i d) = insert i (used_pages d)"
    using i by (auto simp: used_pages_def)
  ultimately show ?thesis
    using Some i hdr_ok_reuse [OF ok i] by (simp add: hdr_alloc_def target_page_def used_pages_def)
next
  case None
  let ?n = "nat (hdr_page_count d)"
  have r: "hdr_page_count d + 1 < 2 ^ 31"
    using room by (simp add: hdr_map_def BP_PAGE_DATA_SIZE_def BP_PAGE_SIZE_def BP_FILE_SUB_HDR_SIZE_def)
  have pos: "0 < hdr_page_count d" using ok by (simp add: hdr_ok_def)
  then have "int32 (hdr_page_count d + 1)" using r by (simp add: int32_def)
  then have "used_pages (hdr_extend ?n d) = insert ?n (used_pages d)"
    using pos by (auto simp: used_pages_def)
  then show ?thesis
    using None pos hdr_ok_extend [OF ok r] by (simp add: hdr_alloc_def target_page_def used_pages_def)
qed

text \<open>The reusing branch: the header is updated in place, then the page is fetched.\<close>

lemma header_store_ok:
  assumes wf: "wf_pool {} s" and fh: "open_file s fid = Some fh"
    and keep: "hdr_page_count (g (hdr_data s fh)) = hdr_page_count (hdr_data s fh)"
  shows "wf_pool {} (upd_data (hdr_frame fh) g s)"
    and "view (upd_data (hdr_frame fh) g s) =
      (view s)(fh_desc fh := (view s (fh_desc fh))(0 \<mapsto> g (hdr_data s fh)))"
    and "hdr_data (upd_data (hdr_frame fh) g s) fh = g (hdr_data s fh)"
proof -
  have b: "wf_bpm {} (bp_manager s)" using wf by (simp add: wf_pool_def)
  note H = header_frame [OF wf fh]
  note G = wf_bpm_get [OF b H(2)]
  show "wf_pool {} (upd_data (hdr_frame fh) g s)"
    unfolding upd_data_def by (rule frame_update_ok [OF wf H(2)]) (use G H(4) keep in simp_all)
  show "view (upd_data (hdr_frame fh) g s) =
      (view s)(fh_desc fh := (view s (fh_desc fh))(0 \<mapsto> g (hdr_data s fh)))"
    unfolding upd_data_def by (intro ext) (simp add: view_frame_update [OF b H(2)])
  show "hdr_data (upd_data (hdr_frame fh) g s) fh = g (hdr_data s fh)"
    using G by (simp add: upd_data_def)
qed

lemma pins_ok_upd_data: "f < length (frames (bp_manager s)) \<Longrightarrow> pins_ok s \<Longrightarrow> pins_ok (upd_data f g s)"
  by (auto simp: pins_ok_def upd_data_def upd_frame_def dest!: set_update_subset_insert [THEN subsetD])

end
