(* ===== verification/Pool_Files.thy ===== *)
theory Pool_Files
  imports Pool_Pages
begin

text \<open>
  \<^verbatim>\<open>create_file\<close> and \<^verbatim>\<open>open_file\<close> of \<^verbatim>\<open>DiskBufferPool\<close>, and the initial pool: how a
  well-formed pool comes about.
\<close>

section \<open>Opening and closing descriptors\<close>

lemma lowest_free_le: "lowest_free xs \<le> length xs"
  by (induction xs rule: lowest_free.induct) auto

lemma lowest_free_None: "lowest_free xs < length xs \<Longrightarrow> xs ! lowest_free xs = None"
  by (induction xs rule: lowest_free.induct) auto

definition fd_opened :: "Os \<Rightarrow> nat \<Rightarrow> int \<Rightarrow> Os \<Rightarrow> bool" where
  "fd_opened s ino fd t \<longleftrightarrow> 0 \<le> fd \<and> fd_inode s fd = None \<and> fd_entry t fd = Some (ino, 0) \<and>
     fd_inode t = (fd_inode s)(fd \<mapsto> ino) \<and>
     os_names t = os_names s \<and> os_inodes t = os_inodes s \<and> os_next t = os_next s \<and>
     os_fault t = os_fault s \<and> os_clock t = os_clock s"

lemma fd_simps [simp]:
  "fd_inode (s\<lparr>os_names := a\<rparr>) = fd_inode s" "fd_inode (s\<lparr>os_next := b\<rparr>) = fd_inode s"
  by (simp_all add: fd_inode_def fd_entry_def fun_eq_iff)

lemma open_inode_ok: "\<exists>fd t. open_inode s ino = (fd, t) \<and> fd_opened s ino fd t"
proof -
  let ?i = "lowest_free (os_fds s)"
  let ?t = "s\<lparr>os_fds := put_fd (os_fds s) ?i (ino, 0)\<rparr>"
  have le: "?i \<le> length (os_fds s)" by (rule lowest_free_le)
  have e: "fd_entry ?t fd = (if fd = int ?i then Some (ino, 0) else fd_entry s fd)" for fd
    using le by (auto simp: fd_entry_def put_fd_def nth_append nth_list_update)
  have "fd_entry s (int ?i) = None"
    using lowest_free_None [of "os_fds s"] by (simp add: fd_entry_def)
  then show ?thesis
    by (auto simp: open_inode_def Let_def fd_opened_def fd_inode_def fun_eq_iff e)
qed

definition fd_closed :: "Os \<Rightarrow> int \<Rightarrow> Os \<Rightarrow> bool" where
  "fd_closed s fd t \<longleftrightarrow> fd_inode t = (fd_inode s)(fd := None) \<and>
     os_names t = os_names s \<and> os_inodes t = os_inodes s \<and> os_next t = os_next s \<and>
     os_fault t = os_fault s \<and> os_clock t = os_clock s"

lemma sys_close_ok:
  assumes "no_fault s" "fd_inode s fd \<noteq> None"
  shows "\<exists>t. sys_close s fd = (0, t) \<and> fd_closed s fd t"
proof -
  let ?s = "s\<lparr>os_tick := os_tick s + 1\<rparr>"
  have e: "fd_entry s fd \<noteq> None" using assms(2) by (auto simp: fd_inode_def)
  have "fd_entry (?s\<lparr>os_fds := (os_fds ?s)[nat fd := None]\<rparr>) fd' =
      (if fd' = fd then None else fd_entry s fd')" for fd'
    using e by (auto simp: fd_entry_def nth_list_update split: if_splits)
  then show ?thesis
    using e by (auto simp: sys_close_def enter_ok [OF assms(1)] fd_closed_def fd_inode_def fun_eq_iff)
qed

lemma sys_open_ok:
  assumes "no_fault s" "os_names s name = Some ino"
  shows "\<exists>fd t. sys_open s name = (fd, t) \<and> fd_opened s ino fd t"
proof -
  obtain fd t where "open_inode (s\<lparr>os_tick := os_tick s + 1\<rparr>) ino = (fd, t)"
      "fd_opened (s\<lparr>os_tick := os_tick s + 1\<rparr>) ino fd t"
    using open_inode_ok by blast
  then show ?thesis
    using assms(2) by (auto simp: sys_open_def enter_ok [OF assms(1)] fd_opened_def)
qed

lemma sys_open_creat_ok:
  assumes "no_fault s" "os_names s name = None"
  defines "u \<equiv> s\<lparr>os_names := (os_names s)(name \<mapsto> os_next s),
    os_inodes := (os_inodes s)(os_next s := []), os_next := os_next s + 1\<rparr>"
  shows "\<exists>fd t. sys_open_creat s name = (fd, t) \<and> fd_opened u (os_next s) fd t"
proof -
  let ?s = "s\<lparr>os_tick := os_tick s + 1\<rparr>"
  let ?u = "?s\<lparr>os_names := (os_names s)(name \<mapsto> os_next s),
    os_inodes := (os_inodes s)(os_next s := []), os_next := os_next s + 1\<rparr>"
  obtain fd t where o: "open_inode ?u (os_next s) = (fd, t)" "fd_opened ?u (os_next s) fd t"
    using open_inode_ok by blast
  then have "fd_opened u (os_next s) fd t"
    by (simp add: fd_opened_def u_def)
  then show ?thesis
    using assms(2) o(1) by (simp add: sys_open_creat_def enter_ok [OF assms(1)])
qed

section \<open>\<^verbatim>\<open>create_file\<close>\<close>

text \<open>The file system after a new file of one page was made.\<close>

definition file_added :: "Os \<Rightarrow> string \<Rightarrow> Page \<Rightarrow> Os \<Rightarrow> bool" where
  "file_added s name pg t \<longleftrightarrow> os_names t = (os_names s)(name \<mapsto> os_next s) \<and>
     os_inodes t = (os_inodes s)(os_next s := [pg]) \<and> os_next t = os_next s + 1 \<and>
     fd_inode t = fd_inode s \<and> os_fault t = os_fault s \<and> os_clock t = os_clock s"

lemma create_file_cases:
  assumes nf: "no_fault (os s)"
  obtains (Exists) t where "create_file s name = (Inl SCHEMA_DB_EXIST, s\<lparr>os := t\<rparr>)"
      "os_names (os s) name \<noteq> None" "os_eq (os s) t"
  | (Created) t where "create_file s name = (SUCCESS, s\<lparr>os := t\<rparr>)"
      "os_names (os s) name = None" "file_added (os s) name header_page t"
proof (cases "os_names (os s) name")
  case (Some ino)
  then show ?thesis
    using Exists [of "(os s)\<lparr>os_tick := os_tick (os s) + 1\<rparr>"]
    by (simp add: create_file_def sys_open_creat_def enter_ok [OF nf] os_eq_def)
next
  case None
  let ?n = "os_next (os s)"
  let ?u = "(os s)\<lparr>os_names := (os_names (os s))(name \<mapsto> ?n),
    os_inodes := (os_inodes (os s))(?n := []), os_next := ?n + 1\<rparr>"
  have fdu: "fd_inode ?u = fd_inode (os s)" by simp
  obtain fd o1 where o1: "sys_open_creat (os s) name = (fd, o1)" "fd_opened ?u ?n fd o1"
    using sys_open_creat_ok [OF nf None] by blast
  have fd: "0 \<le> fd" "fd_inode (os s) fd = None" and i1: "fd_inode o1 = (fd_inode (os s))(fd \<mapsto> ?n)"
    using o1(2) fdu by (simp_all add: fd_opened_def)
  have nf1: "no_fault o1" using o1(2) nf by (simp add: fd_opened_def no_fault_def)
  obtain o2 where o2: "sys_close o1 fd = (0, o2)" "fd_closed o1 fd o2"
    using sys_close_ok [OF nf1, of fd] i1 by auto
  have i2: "fd_inode o2 = fd_inode (os s)" using o2(2) i1 fd(2) by (auto simp: fd_closed_def)
  have nf2: "no_fault o2" using o2(2) nf1 by (simp add: fd_closed_def no_fault_def)
  have nm2: "os_names o2 name = Some ?n" using o1(2) o2(2) by (simp add: fd_opened_def fd_closed_def)
  obtain fd2 o3 where o3: "sys_open o2 name = (fd2, o3)" "fd_opened o2 ?n fd2 o3"
    using sys_open_ok [OF nf2 nm2] by blast
  have nf3: "no_fault o3" using o3(2) nf2 by (simp add: fd_opened_def no_fault_def)
  have i3: "fd_inode o3 fd2 = Some ?n" using o3(2) by (simp add: fd_opened_def)
  obtain o4 where o4: "sys_lseek o3 fd2 0 = (0, o4)" "os_eq o3 o4" "fd_entry o4 fd2 = Some (?n, 0)"
    using lseek_ok [OF nf3 i3, of 0] by auto
  have nf4: "no_fault o4" using o4(2) nf3 by (simp add: os_eq_no_fault)
  obtain o5 where o5: "sys_write o4 fd2 header_page = (True, o5)"
      "os_eq (put_inode o4 ?n (page_index 0) header_page) o5"
    using write_ok [OF nf4 o4(3)] by blast
  have nf5: "no_fault o5" using o5(2) nf4 by (simp add: os_eq_def put_inode_def no_fault_def)
  have i5: "fd_inode o5 fd2 \<noteq> None" using o5(2) o4(3) by (simp add: os_eq_def put_inode_def fd_inode_def)
  obtain o6 where o6: "sys_close o5 fd2 = (0, o6)" "fd_closed o5 fd2 o6"
    using sys_close_ok [OF nf5 i5] by blast
  have "fd_inode o3 = (fd_inode (os s))(fd2 \<mapsto> ?n)" "fd_inode (os s) fd2 = None" "0 \<le> fd2"
    using o3(2) i2 by (simp_all add: fd_opened_def)
  then have "file_added (os s) name header_page o6"
    using o1(2) o2(2) o3(2) o4(2) o5(2) o6(2)
    by (auto simp: file_added_def fd_opened_def fd_closed_def os_eq_def put_inode_def page_index_def put_page_def)
  moreover have "create_file s name = (SUCCESS, s\<lparr>os := o6\<rparr>)"
    using fd(1) \<open>0 \<le> fd2\<close> o1(1) o2(1) o3(1) o4(1) o5(1) o6(1) by (simp add: create_file_def Let_def)
  ultimately show ?thesis using Created None by blast
qed

lemma file_added_pool:
  assumes wf: "wf_pool {} s" and t: "file_added (os s) name pg t" and pg: "page_num pg = 0"
    and nm: "os_names (os s) name = None"
  shows "wf_pool {} (s\<lparr>os := t\<rparr>)" "view (s\<lparr>os := t\<rparr>) = view s"
proof -
  have ow: "os_wf (os s)" using wf by (simp add: wf_pool_def)
  have old: "fd_inode (os s) fd = Some ino \<Longrightarrow> ino \<noteq> os_next (os s)" for fd ino
    using ow by (auto simp: os_wf_def)
  have dp: "disk_page t = disk_page (os s)"
    using t old by (intro ext) (auto simp: disk_page_def file_added_def split: option.splits)
  have fresh: "os_names (os s) n \<noteq> Some (os_next (os s))" for n using ow by (auto simp: os_wf_def)
  have "os_wf t"
  proof -
    have "inj_on (os_names t) (dom (os_names t))"
    proof (rule inj_onI)
      fix a b assume ab: "a \<in> dom (os_names t)" "b \<in> dom (os_names t)" "os_names t a = os_names t b"
      have inj: "inj_on (os_names (os s)) (dom (os_names (os s)))" using ow by (simp add: os_wf_def)
      show "a = b"
        using ab t fresh [of a] fresh [of b] inj_onD [OF inj, of a b]
        by (auto simp: file_added_def split: if_splits)
    qed
    then show ?thesis
      using ow t pg by (auto simp: os_wf_def file_added_def no_fault_def less_Suc_eq)
  qed
  moreover have "frames_ok (s\<lparr>os := t\<rparr>)" using wf by (simp add: wf_pool_def frames_ok_def dp)
  moreover have "fds_ok (s\<lparr>os := t\<rparr>)"
    unfolding fds_ok_def
  proof (intro allI impI)
    fix fd ino n
    assume "fd_inode (os (s\<lparr>os := t\<rparr>)) fd = Some ino \<and> os_names (os (s\<lparr>os := t\<rparr>)) n = Some ino"
    then have "fd_inode (os s) fd = Some ino" "os_names (os s) n = Some ino"
      using t old by (auto simp: file_added_def split: if_splits)
    then show "n \<in> dom (file_name_id (s\<lparr>os := t\<rparr>))"
      using wf by (simp add: wf_pool_def fds_ok_def domIff)
  qed
  moreover have "files_ok (s\<lparr>os := t\<rparr>)"
    using wf t old by (fastforce simp: wf_pool_def files_ok_def file_ok_def file_added_def)
  ultimately show "wf_pool {} (s\<lparr>os := t\<rparr>)" using wf by (simp add: wf_pool_def)
  show "view (s\<lparr>os := t\<rparr>) = view s" by (intro ext) (simp add: view_def dp split: option.splits)
qed

section \<open>\<^verbatim>\<open>open_file\<close>\<close>

text \<open>A closed file whose header page agrees with its length.\<close>

definition file_sound :: "Os \<Rightarrow> nat \<Rightarrow> bool" where
  "file_sound t ino \<longleftrightarrow> os_inodes t ino \<noteq> [] \<and>
     hdr_page_count (data (os_inodes t ino ! 0)) = int (length (os_inodes t ino))"

lemma fd_opened_pool:
  assumes wf: "wf_pool {} s" and nm: "os_names (os s) name = Some ino"
    and nop: "file_name_id s name = None" and t: "fd_opened (os s) ino fd t"
  shows "wf_bpm {} (bp_manager (s\<lparr>os := t\<rparr>))" "os_wf t" "frames_ok (s\<lparr>os := t\<rparr>)" "files_ok (s\<lparr>os := t\<rparr>)"
    "\<And>fd' pn. fd' \<noteq> fd \<Longrightarrow> disk_page t fd' pn = disk_page (os s) fd' pn"
    "\<And>pn. get (bp_manager s) fd pn = None"
proof -
  have ow: "os_wf (os s)" and fo: "fds_ok s" using wf by (simp_all add: wf_pool_def)
  have new: "fd_inode (os s) fd' \<noteq> Some ino" for fd'
    using fo nm nop unfolding fds_ok_def by (metis domIff)
  show "wf_bpm {} (bp_manager (s\<lparr>os := t\<rparr>))" using wf by (simp add: wf_pool_def)
  show "os_wf t"
    using ow t new nm by (auto simp: os_wf_def fd_opened_def no_fault_def split: if_splits)
  show dp: "disk_page t fd' pn = disk_page (os s) fd' pn" if "fd' \<noteq> fd" for fd' pn
    using t that by (auto simp: disk_page_def fd_opened_def split: option.splits)
  have none: "disk_page (os s) fd pn = None" for pn using t by (simp add: disk_page_def fd_opened_def)
  show g: "get (bp_manager s) fd pn = None" for pn
    using wf none by (cases "get (bp_manager s) fd pn") (auto simp: wf_pool_def dest: frames_okD)
  have gne: "get (bp_manager s) fd' pn = Some f \<Longrightarrow> fd' \<noteq> fd" for fd' pn f using g by auto
  show "frames_ok (s\<lparr>os := t\<rparr>)"
    using wf unfolding wf_pool_def frames_ok_def by (auto simp: dp gne)
  show "files_ok (s\<lparr>os := t\<rparr>)"
    unfolding files_ok_def
  proof (intro allI impI)
    fix fid fh assume "open_file (s\<lparr>os := t\<rparr>) fid = Some fh"
    then have "file_ok s fh" using wf by (simp add: wf_pool_def files_ok_def)
    then show "file_ok (s\<lparr>os := t\<rparr>) fh"
      using t gne by (auto simp: file_ok_def fd_opened_def)
  qed
qed

text \<open>While the descriptor is not yet entered, the name counts as open.\<close>

lemma wf_pool_opened:
  assumes wf: "wf_pool {} s" and nm: "os_names (os s) name = Some ino"
    and nop: "file_name_id s name = None" and t: "fd_opened (os s) ino fd t"
  shows "wf_pool {} (s\<lparr>os := t, file_name_id := (file_name_id s)(name \<mapsto> fid)\<rparr>)"
proof -
  note P = fd_opened_pool [OF assms]
  have ow: "os_wf (os s)" and fo: "fds_ok s" using wf by (simp_all add: wf_pool_def)
  have inj: "os_names (os s) n = Some ino \<Longrightarrow> n = name" for n
    using ow nm unfolding os_wf_def inj_on_def by (metis domI)
  have "fds_ok (s\<lparr>os := t, file_name_id := (file_name_id s)(name \<mapsto> fid)\<rparr>)"
    unfolding fds_ok_def
  proof (intro allI impI)
    fix fd' i n
    assume a: "fd_inode (os (s\<lparr>os := t, file_name_id := (file_name_id s)(name \<mapsto> fid)\<rparr>)) fd' = Some i \<and>
      os_names (os (s\<lparr>os := t, file_name_id := (file_name_id s)(name \<mapsto> fid)\<rparr>)) n = Some i"
    show "n \<in> dom (file_name_id (s\<lparr>os := t, file_name_id := (file_name_id s)(name \<mapsto> fid)\<rparr>))"
    proof (cases "fd' = fd")
      case True
      then show ?thesis using a t inj by (simp add: fd_opened_def)
    next
      case False
      then have "fd_inode (os s) fd' = Some i" "os_names (os s) n = Some i"
        using a t by (simp_all add: fd_opened_def)
      then have "n \<in> dom (file_name_id s)" by (rule fds_okD [OF fo])
      then show ?thesis by auto
    qed
  qed
  moreover have "frames_ok (s\<lparr>os := t, file_name_id := (file_name_id s)(name \<mapsto> fid)\<rparr>)"
    using P(3) by (simp add: frames_ok_def)
  moreover have "files_ok (s\<lparr>os := t, file_name_id := (file_name_id s)(name \<mapsto> fid)\<rparr>)"
    using P(4) by (simp add: files_ok_def file_ok_def)
  ultimately show ?thesis using P(1,2) by (simp add: wf_pool_def)
qed

text \<open>The block operations do not look at the names of the open files.\<close>

abbreviation with_names :: "(string \<rightharpoonup> int) \<Rightarrow> DiskBufferPool \<Rightarrow> DiskBufferPool" where
  "with_names F s \<equiv> s\<lparr>file_name_id := F\<rparr>"

lemma upd_frame_names: "upd_frame f h (with_names F s) = with_names F (upd_frame f h s)"
  by (simp add: upd_frame_def)

lemma flush_block_names:
  "flush_block (with_names F s) f = map_prod id (with_names F) (flush_block s f)"
  by (simp add: flush_block_def Let_def upd_frame_def split: prod.splits)

lemma allocate_block_names:
  "allocate_block (with_names F s) = map_prod id (with_names F) (allocate_block s)"
proof -
  have sw: "s\<lparr>file_name_id := F, bp_manager := b\<rparr> = with_names F (s\<lparr>bp_manager := b\<rparr>)" for b
    by (cases s) simp
  have "flush_block (s\<lparr>file_name_id := F, bp_manager := b\<rparr>) f =
      map_prod id (with_names F) (flush_block (s\<lparr>bp_manager := b\<rparr>) f)" for b f
    unfolding sw by (rule flush_block_names)
  then show ?thesis
    by (auto simp: allocate_block_def Let_def sw split: prod.splits option.splits sum.splits)
qed

lemma allocate_block_file_names: "allocate_block s = (r, s') \<Longrightarrow> file_name_id s' = file_name_id s"
  using allocate_block_names [of "file_name_id s" s]
  by (cases s') (auto simp: map_prod_def dest: arg_cong [of _ _ file_name_id])

lemma load_page_names:
  "load_page (with_names F s) pn fh f = map_prod id (with_names F) (load_page s pn fh f)"
  by (simp add: load_page_def Let_def upd_frame_def split: prod.splits option.splits)

lemma load_page_file_names: "load_page s pn fh f = (r, s') \<Longrightarrow> file_name_id s' = file_name_id s"
  by (auto simp: load_page_def Let_def upd_frame_def split: prod.splits option.splits if_splits)

lemma opened_closed:
  "fd_opened s ino fd t \<Longrightarrow> fd_closed t fd u \<Longrightarrow> os_eq s u"
  by (auto simp: fd_opened_def fd_closed_def os_eq_def)

text \<open>The state a successful \<^verbatim>\<open>open_file\<close> leaves.\<close>

definition file_opened ::
  "DiskBufferPool \<Rightarrow> string \<Rightarrow> nat \<Rightarrow> int \<Rightarrow> BPFileHandle \<Rightarrow> DiskBufferPool \<Rightarrow> bool" where
  "file_opened s name ino fid fh s' \<longleftrightarrow> open_file s' = (open_file s)(fid \<mapsto> fh) \<and>
     file_name_id s' = (file_name_id s)(name \<mapsto> fid) \<and> free_file_ids s' = tl (free_file_ids s) \<and>
     fd_inode (os s) (fh_desc fh) = None \<and>
     (\<forall>fd pn. view s' fd pn = (if fd = fh_desc fh
        then if 0 \<le> pn \<and> nat pn < length (os_inodes (os s) ino)
             then Some (data (os_inodes (os s) ino ! nat pn)) else None
        else view s fd pn))"

lemma view_files [simp]:
  "view (s\<lparr>free_file_ids := a\<rparr>) = view s" "view (s\<lparr>open_file := b\<rparr>) = view s"
  "view (s\<lparr>file_name_id := c\<rparr>) = view s"
  by (intro ext; simp add: view_def split: option.splits)+

lemma wf_pool_add_open:
  assumes wf: "wf_pool L s" and fh: "file_ok s fh"
  shows "wf_pool L (s\<lparr>free_file_ids := ids, open_file := (open_file s)(fid \<mapsto> fh)\<rparr>)" (is "wf_pool L ?s")
proof -
  have "file_ok ?s x = file_ok s x" for x by (simp add: file_ok_def)
  then have "files_ok ?s" using wf fh by (simp add: wf_pool_def files_ok_def)
  moreover have "frames_ok ?s = frames_ok s" "fds_ok ?s = fds_ok s"
    by (simp_all add: frames_ok_def fds_ok_def)
  ultimately show ?thesis using wf by (simp add: wf_pool_def)
qed

lemma open_file_opened:
  assumes wf: "wf_pool {} s" and nm: "os_names (os s) name = Some ino"
    and nop: "file_name_id s name = None" and ids: "free_file_ids s = fid # ids"
    and snd: "file_sound (os s) ino" and t: "fd_opened (os s) ino fd t"
    and op: "sys_open (os s) name = (fd, t)"
    and a: "allocate_block (s\<lparr>os := t\<rparr>) = (Inr f, s1)"
    and bt: "block_taken (with_names ((file_name_id s)(name \<mapsto> fid)) (s\<lparr>os := t\<rparr>)) f
               (with_names ((file_name_id s)(name \<mapsto> fid)) s1)"
  shows "\<exists>fh s'. open_file_op s (Some name) = (Inr fid, s') \<and> wf_pool {} s' \<and>
           file_opened s name ino fid fh s'"
proof -
  let ?F = "(file_name_id s)(name \<mapsto> fid)"
  let ?S = "with_names ?F (s\<lparr>os := t\<rparr>)"
  define fh where "fh = \<lparr>bopen = True, file_name = name, fh_desc = fd, hdr_frame = f\<rparr>"
  have fd: "fh_desc fh = fd" "hdr_frame fh = f" by (simp_all add: fh_def)
  have T: "0 \<le> fd" "fd_inode (os s) fd = None" "fd_inode t = (fd_inode (os s))(fd \<mapsto> ino)"
      "os_inodes t = os_inodes (os s)" using t by (simp_all add: fd_opened_def)
  have wfS: "wf_pool {} ?S" using wf_pool_opened [OF wf nm nop t] by simp
  note P = fd_opened_pool [OF wf nm nop t]
  have dp: "disk_page t fd pn = (if 0 \<le> pn \<and> nat pn < length (os_inodes (os s) ino)
      then Some (os_inodes (os s) ino ! nat pn) else None)" for pn
    by (simp add: disk_page_def T)
  have dp0: "disk_page (os ?S) (fh_desc fh) 0 \<noteq> None" using snd by (simp add: fd dp file_sound_def)
  have g0: "get (bp_manager ?S) (fh_desc fh) 0 = None" using P(6) by (simp add: fd)
  obtain s2 where ld: "load_page (claim_frame f fd (with_names ?F s1)) 0 fh f = (SUCCESS, s2)"
    and s3: "let s3 = add_page_table s2 fd 0 f in
       wf_pool {} s3 \<and> view s3 = view ?S \<and> get (bp_manager s3) fd 0 = Some f \<and>
       pin_count (frame_of s3 f) = 1 \<and> view ?S fd 0 = Some (data (page (frame_of s3 f))) \<and> kept ?S s3 \<and>
       synced s3 fd 0 (frame_of s3 f)"
    using load_new_page [OF wfS dp0 g0 bt] by (auto simp: fd)
  obtain s2' where ld': "load_page (claim_frame f fd s1) 0 fh f = (SUCCESS, s2')" and s2: "s2 = with_names ?F s2'"
    using ld by (auto simp: claim_frame_def upd_frame_names load_page_names map_prod_def split: prod.splits)
  let ?s3 = "add_page_table s2 fd 0 f"
  let ?s' = "?s3\<lparr>free_file_ids := ids, open_file := (open_file s)(fid \<mapsto> fh)\<rparr>"
  have k: "kept ?S ?s3" and w3: "wf_pool {} ?s3" and v3: "view ?s3 = view ?S"
    and g3: "get (bp_manager ?s3) fd 0 = Some f" and p3: "pin_count (frame_of ?s3 f) = 1"
    and h3: "view ?S fd 0 = Some (data (page (frame_of ?s3 f)))" using s3 by (simp_all add: Let_def)
  have K: "open_file s2' = open_file s" "free_file_ids s2' = fid # ids" "fd_inode (os s2') = fd_inode t"
      "length (os_inodes (os s2') i) = length (os_inodes (os s) i)" for i
    using k ids T by (auto simp: kept_def s2 add_page_table_def)
  have n2: "file_name_id s2' = file_name_id s"
    using load_page_file_names [OF ld'] allocate_block_file_names [OF a] by (simp add: claim_frame_def)
  have "open_file_op s (Some name) = (Inr fid, ?s')"
    using op T(1) nop ids a ld' K n2
    by (simp add: open_file_op_def Let_def fh_def [symmetric] s2 add_page_table_def)
  moreover have "file_ok ?s3 fh"
    using g3 p3 h3 snd T(3) K P(6) dp [of 0]
    by (simp add: file_ok_def fd view_def file_sound_def s2)
  then have "wf_pool {} ?s'"
    using wf_pool_add_open [OF w3, of fh fid ids] K(1) by (simp add: s2)
  moreover have "view ?s' = view ?S" using v3 by simp
  then have "file_opened s name ino fid fh ?s'"
    using T(2) P(5,6) ids n2 by (auto simp: file_opened_def fd view_def dp s2 split: option.splits)
  ultimately show ?thesis by blast
qed

lemma open_file_cases:
  assumes wf: "wf_pool {} s" and nm: "os_names (os s) name = Some ino"
    and nop: "file_name_id s name = None" and ids: "free_file_ids s = fid # ids"
    and snd: "file_sound (os s) ino"
  obtains (NoMem) t where "open_file_op s (Some name) = (Inl NOMEM, s\<lparr>os := t\<rparr>)" "os_eq (os s) t" "all_pinned s"
  | (Opened) fh s' where "open_file_op s (Some name) = (Inr fid, s')" "wf_pool {} s'"
      "file_opened s name ino fid fh s'"
proof -
  let ?F = "(file_name_id s)(name \<mapsto> fid)"
  have nf: "no_fault (os s)" using wf by (simp add: wf_pool_def os_wf_def)
  obtain fd t where op: "sys_open (os s) name = (fd, t)" and t: "fd_opened (os s) ino fd t"
    using sys_open_ok [OF nf nm] by blast
  let ?S = "with_names ?F (s\<lparr>os := t\<rparr>)"
  have wfS: "wf_pool {} ?S" using wf_pool_opened [OF wf nm nop t] by simp
  have fd: "0 \<le> fd" using t by (simp add: fd_opened_def)
  show ?thesis
  proof (cases rule: allocate_block_cases [OF wfS])
    case 1
    have "no_fault t" "fd_inode t fd \<noteq> None" using t nf by (simp_all add: fd_opened_def no_fault_def)
    then obtain u where u: "sys_close t fd = (0, u)" "fd_closed t fd u" using sys_close_ok by blast
    have "allocate_block (s\<lparr>os := t\<rparr>) = (Inl NOMEM, s\<lparr>os := t\<rparr>)"
    proof -
      obtain r s1 where a: "allocate_block (s\<lparr>os := t\<rparr>) = (r, s1)" by fastforce
      then have "r = Inl NOMEM" "with_names ?F s1 = ?S" using 1(1) by (simp_all add: allocate_block_names)
      moreover have "file_name_id s1 = file_name_id s" using allocate_block_file_names [OF a] by simp
      ultimately show ?thesis using a by (cases s1) (cases s, auto)
    qed
    then have "open_file_op s (Some name) = (Inl NOMEM, s\<lparr>os := u\<rparr>)"
      using op fd nop ids u(1) by (simp add: open_file_op_def Let_def close_fd_def)
    moreover have "all_pinned s" using no_mem_all_pinned [OF wfS 1(2,3)] by (simp add: all_pinned_def)
    ultimately show ?thesis using NoMem opened_closed [OF t u(2)] by blast
  next
    case (2 f s1')
    then obtain s1 where a: "allocate_block (s\<lparr>os := t\<rparr>) = (Inr f, s1)" and s1: "s1' = with_names ?F s1"
      by (auto simp: allocate_block_names map_prod_def split: prod.splits)
    show ?thesis
      using open_file_opened [OF wf nm nop ids snd t op a] 2(2) Opened unfolding s1 by blast
  qed
qed

end
