(* ===== verification/Pool_Spec.thy ===== *)
theory Pool_Spec
  imports Pool_Files
begin

text \<open>
  The contract of the buffer pool, stated over \<open>view\<close>: what the comments of
  \<^verbatim>\<open>disk_buffer_pool.h\<close> promise to the record manager and the index, for executions
  without I/O errors; and the executions in which the code breaks it.
\<close>

section \<open>A small pool\<close>

definition blank_frame :: Frame where
  "blank_frame = \<lparr>dirty = False, pin_count = 0, acc_time = 0, file_desc = 0, page = zero_page\<rparr>"

definition empty_os :: Os where
  "empty_os = \<lparr>os_names = Map.empty, os_inodes = (\<lambda>_. []), os_next = 0, os_fds = [], os_clock = 0,
     os_tick = 0, os_fault = (\<lambda>_. False)\<rparr>"

definition pool0 :: DiskBufferPool where
  "pool0 = DiskBufferPool_init empty_os (replicate 2 blank_frame)"

definition pool1 :: DiskBufferPool where
  "pool1 = snd (create_file pool0 ''t'')"

definition pool2 :: DiskBufferPool where
  "pool2 = snd (open_file_op pool1 (Some ''t''))"

definition pool3 :: DiskBufferPool where
  "pool3 = snd (snd (allocate_page pool2 0 new_handle))"

lemma file_ids: "map int [0..<nat MAX_OPEN_FILE] = 0 # map int [1..<nat MAX_OPEN_FILE]"
proof -
  have "0 < nat MAX_OPEN_FILE" by (simp add: MAX_OPEN_FILE_def)
  then show ?thesis by (subst upt_conv_Cons) simp_all
qed

lemmas sys_defs = sys_open_creat_def sys_open_def sys_close_def sys_lseek_def sys_write_def sys_read_def
  enter_def open_inode_def fd_entry_def put_fd_def page_index_def put_page_def

lemma pool0_eq:
  "pool0 = \<lparr>bp_manager = \<lparr>bpm_size = 2, frames = [blank_frame, blank_frame], page_table = Map.empty,
      free_list = [0, 1], bpm_replacer = LRUReplacer_init 2\<rparr>,
     free_file_ids = 0 # map int [1..<nat MAX_OPEN_FILE], open_file = Map.empty,
     file_name_id = Map.empty, os = empty_os\<rparr>"
  by (simp add: pool0_def DiskBufferPool_init_def BPManager_init_def file_ids blank_frame_def
      numeral_2_eq_2)

lemma pool1_eq:
  "pool1 = pool0\<lparr>os := \<lparr>os_names = [''t'' \<mapsto> 0], os_inodes = (\<lambda>_. [])(0 := [header_page]), os_next = 1,
     os_fds = [None], os_clock = 0, os_tick = 6, os_fault = (\<lambda>_. False)\<rparr>\<rparr>"
  by (simp add: pool1_def pool0_eq create_file_def empty_os_def sys_defs)

definition header_frame0 :: Frame where
  "header_frame0 = \<lparr>dirty = False, pin_count = 1, acc_time = 0, file_desc = 0, page = header_page\<rparr>"

lemma pool2_eq:
  "pool2 = \<lparr>bp_manager = \<lparr>bpm_size = 2, frames = [header_frame0, blank_frame], page_table = [0 \<mapsto> [(0, 0)]],
      free_list = [1], bpm_replacer = LRUReplacer_init 2\<rparr>,
     free_file_ids = map int [1..<nat MAX_OPEN_FILE],
     open_file = [0 \<mapsto> \<lparr>bopen = True, file_name = ''t'', fh_desc = 0, hdr_frame = 0\<rparr>],
     file_name_id = [''t'' \<mapsto> 0],
     os = \<lparr>os_names = [''t'' \<mapsto> 0], os_inodes = (\<lambda>_. [])(0 := [header_page]), os_next = 1,
       os_fds = [Some (0, 4096)], os_clock = 0, os_tick = 9, os_fault = (\<lambda>_. False)\<rparr>\<rparr>"
  by (simp add: pool2_def pool1_eq pool0_eq open_file_op_def sys_defs allocate_block_def alloc_def
      Pin_def LRUReplacer_init_def claim_frame_def upd_frame_def load_page_def add_page_table_def
      AddPageTable_def blank_frame_def header_frame0_def BP_PAGE_SIZE_def)

lemma header_page_bytes [simp]:
  "page_num header_page = 0"
  "hdr_page_count (data header_page) = 1" "hdr_allocated (data header_page) = 1"
  "get_bit (data header_page) hdr_map i = (i = 0)"
proof -
  let ?d = "set_page_count 1 (set_allocated 1 (data zero_page))"
  have h: "data header_page = set_bit ?d hdr_map 0"
    by (simp add: header_page_def Let_def set_bit_def hdr_map_def)
  have "hdr_page_count ?d = 1" "hdr_allocated ?d = 1" by (simp_all add: int32_def)
  then show "hdr_page_count (data header_page) = 1" "hdr_allocated (data header_page) = 1"
    by (simp_all only: h hdr_counts_bits)
  have "\<not> get_bit (data zero_page) hdr_map j" for j by (simp add: get_bit_iff zero_page_def)
  then have "\<not> get_bit ?d hdr_map j" for j by simp
  then show "get_bit (data header_page) hdr_map i = (i = 0)" by (simp only: h get_set_bit) blast
qed (simp add: header_page_def Let_def)

section \<open>The life of a pool\<close>

text \<open>A pool constructed over frames that are not dirty is well formed, whatever is on disk.\<close>

lemma wf_pool_init:
  assumes "os_wf t" "\<And>fd. fd_inode t fd = None" "\<And>fr. fr \<in> set mem \<Longrightarrow> \<not> dirty fr"
  shows "wf_pool {} (DiskBufferPool_init t mem)"
proof -
  have "get (BPManager_init mem) fd pn = None" for fd pn by (simp add: get_def BPManager_init_def)
  then have "frames_ok (DiskBufferPool_init t mem)"
    using assms(3) by (auto simp: frames_ok_def DiskBufferPool_init_def BPManager_init_def)
  then show ?thesis
    using assms wf_bpm_init [of mem]
    by (simp add: wf_pool_def DiskBufferPool_init_def fds_ok_def files_ok_def)
qed

lemma empty_os_wf: "os_wf empty_os" "fd_inode empty_os fd = None"
  by (simp_all add: os_wf_def empty_os_def no_fault_def fd_inode_def fd_entry_def)

text \<open>\<^verbatim>\<open>create_file\<close> either reports that the name exists and changes nothing on disk, or
  makes a file of one header page that says one page is in use; the pool stays well formed and
  no page of an open file changes.\<close>

theorem create_file_correct:
  assumes wf: "wf_pool {} s" and c: "create_file s name = (r, s')"
  shows "wf_pool {} s' \<and> view s' = view s \<and>
    (case r of
       Inl e \<Rightarrow> e = SCHEMA_DB_EXIST \<and> os_names (os s) name \<noteq> None \<and> os_eq (os s) (os s')
     | Inr _ \<Rightarrow> os_names (os s) name = None \<and> os_names (os s') name = Some (os_next (os s)) \<and>
         os_inodes (os s') (os_next (os s)) = [header_page] \<and>
         file_sound (os s') (os_next (os s)) \<and> hdr_ok (data header_page))"
proof -
  have nf: "no_fault (os s)" using wf by (simp add: wf_pool_def os_wf_def)
  have "used_pages (data header_page) = {0}" by (auto simp: used_pages_def)
  then have hok: "hdr_ok (data header_page)" by (simp add: hdr_ok_def)
  show ?thesis
  proof (cases rule: create_file_cases [OF nf, of name])
    case (1 t)
    then show ?thesis using c wf_pool_os_eq [OF wf 1(3)] view_os_eq [OF 1(3)] by auto
  next
    case (2 t)
    then show ?thesis
      using c hok file_added_pool [OF wf 2(3) _ 2(2)] by (auto simp: file_added_def file_sound_def)
  qed
qed

lemma pool0_wf: "wf_pool {} pool0"
  unfolding pool0_def by (rule wf_pool_init) (auto simp: empty_os_wf blank_frame_def)

theorem create_file_correct_witness:
  "wf_pool {} pool1 \<and> os_inodes (os pool1) 0 = [header_page] \<and> file_sound (os pool1) 0"
proof -
  have "create_file pool0 ''t'' = (SUCCESS, pool1)"
    by (simp add: pool1_def pool0_eq create_file_def empty_os_def sys_defs)
  from create_file_correct [OF pool0_wf this] show ?thesis by (simp add: pool0_eq empty_os_def)
qed

lemma create_file_wf: "wf_pool {} s \<Longrightarrow> wf_pool {} (snd (create_file s name))"
proof -
  assume wf: "wf_pool {} s"
  then have nf: "no_fault (os s)" by (simp add: wf_pool_def os_wf_def)
  show ?thesis
    using file_added_pool [OF wf]
    by (cases rule: create_file_cases [OF nf, of name]) (auto simp: wf_pool_os_eq [OF wf])
qed

lemma pool1_wf: "wf_pool {} pool1"
  unfolding pool1_def by (rule create_file_wf [OF pool0_wf])

text \<open>\<^verbatim>\<open>open_file\<close> of a closed file whose header agrees with its length (as
  \<^verbatim>\<open>create_file\<close> leaves it) fails only when every frame is pinned; otherwise it takes the
  first free file id, opens a new descriptor, pins the header page, and the views of that
  descriptor are exactly the pages of the file on disk.  The pool stays well formed either way.\<close>

theorem open_file_correct:
  assumes wf: "wf_pool {} s" and nm: "os_names (os s) name = Some ino"
    and nop: "file_name_id s name = None" and ids: "free_file_ids s = fid # ids"
    and snd: "file_sound (os s) ino" and c: "open_file_op s (Some name) = (r, s')"
  shows "wf_pool {} s' \<and>
    (case r of
       Inl e \<Rightarrow> e = NOMEM \<and> all_pinned s \<and> view s' = view s
     | Inr i \<Rightarrow> i = fid \<and> (\<exists>fh. file_opened s name ino fid fh s'))"
proof (cases rule: open_file_cases [OF wf nm nop ids snd])
  case (1 t)
  then show ?thesis using c wf_pool_os_eq [OF wf 1(2)] view_os_eq [OF 1(2)] by auto
next
  case (2 fh s'')
  then show ?thesis using c by auto
qed

lemma open_pool1:
  "os_names (os pool1) ''t'' = Some 0" "file_name_id pool1 ''t'' = None"
  "free_file_ids pool1 = 0 # map int [1..<nat MAX_OPEN_FILE]" "file_sound (os pool1) 0"
  "open_file_op pool1 (Some ''t'') = (Inr 0, pool2)"
proof -
  have "fst (open_file_op pool1 (Some ''t'')) = Inr 0"
    by (simp add: pool1_eq pool0_eq open_file_op_def sys_defs allocate_block_def alloc_def
      Pin_def LRUReplacer_init_def claim_frame_def upd_frame_def load_page_def add_page_table_def
      AddPageTable_def blank_frame_def BP_PAGE_SIZE_def)
  then show "open_file_op pool1 (Some ''t'') = (Inr 0, pool2)" by (simp add: pool2_def prod_eq_iff)
qed (simp_all add: pool1_eq pool0_eq file_sound_def)

theorem open_file_correct_witness: "wf_pool {} pool2 \<and> (\<exists>fh. file_opened pool1 ''t'' 0 0 fh pool2)"
  using open_file_correct [OF pool1_wf open_pool1] by simp

lemma pool2_wf: "wf_pool {} pool2"
  by (cases rule: open_file_cases [OF pool1_wf open_pool1(1-4)]) (simp_all add: open_pool1(5))

section \<open>Pages\<close>


lemma pool2_pins: "pins_ok pool2"
  by (simp add: pins_ok_def pool2_eq header_frame0_def blank_frame_def)



definition fh0 :: BPFileHandle where
  "fh0 = \<lparr>bopen = True, file_name = ''t'', fh_desc = 0, hdr_frame = 0\<rparr>"

lemma pool2_file:
  "check_file_id pool2 0 = Inr fh0" "open_file pool2 = [0 \<mapsto> fh0]"
  "frame_of pool2 0 = header_frame0" "page header_frame0 = header_page" "hdr_frame fh0 = 0" "fh_desc fh0 = 0"
  "length (frames (bp_manager pool2)) = 2"
  by (simp_all add: pool2_eq check_file_id_def MAX_OPEN_FILE_def header_frame0_def fh0_def)

lemma hdr_ok_header_page: "hdr_ok (data header_page)"
proof -
  have "used_pages (data header_page) = {0}" by (auto simp: used_pages_def)
  then show ?thesis by (simp add: hdr_ok_def)
qed

lemma bsize_hdr_map: "bsize hdr_map = 32672"
  by (simp add: hdr_map_def BP_PAGE_DATA_SIZE_def BP_PAGE_SIZE_def BP_FILE_SUB_HDR_SIZE_def)

lemma pool2_block: "\<exists>s1. allocate_block pool2 = (Inr 1, s1) \<and> block_taken pool2 1 s1"
proof (cases rule: allocate_block_cases [OF pool2_wf])
  case 1
  then show ?thesis by (simp add: pool2_eq)
next
  case (2 f s1)
  have "fst (allocate_block pool2) = Inr 1"
    by (simp add: pool2_eq allocate_block_def alloc_def blank_frame_def)
  then show ?thesis using 2 by auto
qed

text \<open>The pool after page 1 was allocated.\<close>

lemma pool3_eq:
  "\<exists>s1 t. block_taken pool2 1 s1 \<and> extended (os s1) 0 (zeroed 1) t \<and> hdr_data s1 fh0 = data header_page \<and>
     allocate_page pool2 0 new_handle = (SUCCESS, \<lparr>ph_open = True, ph_frame = Some 1\<rparr>, pool3) \<and>
     pool3 = new_page_state s1 fh0 1 t (zeroed 1) (hdr_extend 1)"
proof -
  obtain s1 where s1: "allocate_block pool2 = (Inr 1, s1)" "block_taken pool2 1 s1" using pool2_block by blast
  obtain t where "extended (os s1) 0 (zeroed 1) t" "hdr_data s1 fh0 = data header_page"
      "allocate_page pool2 0 new_handle = (SUCCESS, \<lparr>ph_open = True, ph_frame = Some 1\<rparr>,
         new_page_state s1 fh0 1 t (zeroed 1) (hdr_extend 1))"
    using allocate_page_extend [OF pool2_wf pool2_file(1) _ _ s1, of new_handle]
    by (auto simp: pool2_file bsize_hdr_map)
  then show ?thesis using s1(2) by (intro exI [of _ s1] exI [of _ t]) (simp add: pool3_def)
qed

lemma pool2_alloc: "allocate_page pool2 0 new_handle = (SUCCESS, \<lparr>ph_open = True, ph_frame = Some 1\<rparr>, pool3)"
  using pool3_eq by blast

lemma pool3_facts:
  "wf_pool {} pool3" "view pool3 0 1 = Some (data zero_page)" "pins_ok pool3" "check_file_id pool3 0 = Inr fh0"
  "get (bp_manager pool3) 0 1 = Some 1" "hdr_data pool3 fh0 = hdr_extend 1 (data header_page)"
  "pin_count (frame_of pool3 1) = 1" "\<not> dirty (frame_of pool3 1)" "length (frames (bp_manager pool3)) = 2"
  "page (frame_of pool3 1) = zeroed 1" "disk_page (os pool3) 0 1 = Some (zeroed 1)"
  "pin_count (frame_of pool3 0) = 1"
proof -
  obtain s1 t where bt: "block_taken pool2 1 s1" and e: "extended (os s1) 0 (zeroed 1) t"
    and h: "hdr_data s1 fh0 = data header_page"
    and p3: "pool3 = new_page_state s1 fh0 1 t (zeroed 1) (hdr_extend 1)" using pool3_eq by blast
  have g: "hdr_page_count (hdr_extend 1 (hdr_data s1 fh0)) = page_num (zeroed 1) + 1"
    by (simp add: h int32_def)
  have e': "extended (os s1) (fh_desc fh0) (zeroed 1) t" using e by (simp add: pool2_file)
  have o: "open_file pool2 0 = Some fh0" by (simp add: pool2_file)
  note N = new_page_state_ok [OF bt pool2_wf o e', of "hdr_extend 1"]
  show "wf_pool {} pool3" "view pool3 0 1 = Some (data zero_page)"
    unfolding p3 using N g by (simp_all add: pool2_file h)
  have f1: "frame_of s1 0 = header_frame0" "length (frames (bp_manager s1)) = 2" "open_file s1 = [0 \<mapsto> fh0]"
    using bt by (simp_all add: block_taken_def pool2_file)
  show l: "length (frames (bp_manager pool3)) = 2" and "get (bp_manager pool3) 0 1 = Some 1"
    and p: "pin_count (frame_of pool3 1) = 1" and "\<not> dirty (frame_of pool3 1)"
    and "hdr_data pool3 fh0 = hdr_extend 1 (data header_page)"
    and "check_file_id pool3 0 = Inr fh0" and "page (frame_of pool3 1) = zeroed 1"
    unfolding p3 using f1 h
    by (simp_all add: new_page_state_def upd_data_comp pool2_file check_file_id_def MAX_OPEN_FILE_def)
  have "os_wf (os s1)" using bt by (simp add: block_taken_def wf_pool_def)
  then show "disk_page (os pool3) 0 1 = Some (zeroed 1)"
    unfolding p3 using extended_disk(1) [OF _ e] by (simp add: new_page_state_def upd_data_comp)
  have "pin_count (frame_of pool3 0) = 1"
    unfolding p3 using f1 by (simp add: new_page_state_def upd_data_comp pool2_file header_frame0_def)
  then show "pin_count (frame_of pool3 0) = 1" "pins_ok pool3" using p l by (auto simp: pins_ok_def in_set_conv_nth less_2_cases_iff)
qed


section \<open>Writing a page\<close>

text \<open>A client's store through the pointer \<^verbatim>\<open>get_data\<close> returned, to a page other than a header.\<close>

lemma store_ok:
  assumes wf: "wf_pool {} s" and g: "get (bp_manager s) fd pn = Some f"
    and p: "pin_count (frame_of s f) \<noteq> 0" and pn: "pn \<noteq> 0"
  shows "wf_pool {} (upd_data f h s)"
    and "view (upd_data f h s) = (view s)(fd := (view s fd)(pn \<mapsto> h (data (page (frame_of s f)))))"
    and "frame_of (upd_data f h s) f =
      (frame_of s f)\<lparr>page := (page (frame_of s f))\<lparr>data := h (data (page (frame_of s f)))\<rparr>\<rparr>"
proof -
  have b: "wf_bpm {} (bp_manager s)" using wf by (simp add: wf_pool_def)
  note G = wf_bpm_get [OF b g]
  show "wf_pool {} (upd_data f h s)"
    unfolding upd_data_def by (rule frame_update_ok [OF wf g]) (use G p pn in simp_all)
  show "view (upd_data f h s) = (view s)(fd := (view s fd)(pn \<mapsto> h (data (page (frame_of s f)))))"
    unfolding upd_data_def by (intro ext) (simp add: view_frame_update [OF b g])
  show "frame_of (upd_data f h s) f =
      (frame_of s f)\<lparr>page := (page (frame_of s f))\<lparr>data := h (data (page (frame_of s f)))\<rparr>\<rparr>"
    using G by (simp add: upd_data_def)
qed

text \<open>C3: a client that fetches a page, stores through the pointer, marks the page dirty and unpins
  it, leaves a well-formed pool in which that page holds what was stored and no other page
  changed.\<close>

theorem write_page_correct:
  assumes wf: "wf_pool {} s" and pins: "pins_ok s" and fo: "open_file s fid = Some fh" and pn: "pn \<noteq> 0"
    and g: "get_this_page s fid pn ph = (SUCCESS, ph1, s1)"
    and f: "ph_frame ph1 = Some f"
    and m: "mark_dirty (upd_data f h s1) ph1 = (r3, s3)"
    and u: "unpin_page s3 ph1 = (r4, ph4, s4)"
  shows "r3 = SUCCESS \<and> r4 = SUCCESS \<and> \<not> ph_open ph4 \<and> wf_pool {} s4 \<and>
    (\<exists>d. view s (fh_desc fh) pn = Some d \<and>
         view s4 = (view s)(fh_desc fh := (view s (fh_desc fh))(pn \<mapsto> h d)))"
proof -
  have c: "check_file_id s fid = Inr fh" and cp: "check_page_num s pn fh = SUCCESS"
    using g fo by (auto simp: get_this_page_def check_file_id_def split: if_splits sum.splits)
  let ?fd = "fh_desc fh"
  have "wf_pool {} s1" "view s1 = view s" and D: "page_delivered s fh pn ph1 s1"
    using g by (cases rule: get_this_page_cases [OF wf pins c cp, of ph]; simp)+
  note wf1 = this(1) and v1 = this(2)
  have gf: "get (bp_manager s1) ?fd pn = Some f" and p: "pin_count (frame_of s1 f) \<noteq> 0"
    and d: "view s ?fd pn = Some (data (page (frame_of s1 f)))"
    using D f by (auto simp: page_delivered_def)
  note S = store_ok [OF wf1 gf p pn, of h]
  have gf2: "get (bp_manager (upd_data f h s1)) ?fd pn = Some f" using gf by (simp add: upd_data_def)
  have M: "r3 = SUCCESS" "wf_pool {} s3" "view s3 = view (upd_data f h s1)"
      "get (bp_manager s3) ?fd pn = Some f" "frame_of s3 f = (frame_of (upd_data f h s1) f)\<lparr>dirty := True\<rparr>"
    using mark_dirty_ok [OF S(1) gf2 f] m gf2 by auto
  have U: "r4 = SUCCESS" "ph4 = ph1\<lparr>ph_open := False\<rparr>" "wf_pool {} s4" "view s4 = view s3"
    using unpin_page_ok [OF M(2,4) _ _ f] u M(5) S(3) p pn by (auto simp: synced_def)
  show ?thesis using M U S(2) v1 d by auto
qed

theorem write_page_correct_witness:
  "\<exists>ph1 s1 s3 ph4 s4. get_this_page pool3 0 1 new_handle = (SUCCESS, ph1, s1) \<and>
     mark_dirty (upd_data 1 (\<lambda>d. d(0 := 7)) s1) ph1 = (SUCCESS, s3) \<and>
     unpin_page s3 ph1 = (SUCCESS, ph4, s4) \<and> wf_pool {} s4 \<and>
     view s4 0 1 = Some ((data zero_page)(0 := 7))"
proof -
  have cp: "check_page_num pool3 1 fh0 = SUCCESS"
    by (simp add: check_page_num_def pool3_facts int32_def)
  have get: "get (bp_manager pool3) (fh_desc fh0) 1 = Some 1" by (simp add: pool3_facts pool2_file)
  note g = get_this_page_hit [OF pool3_facts(4) cp get, of new_handle]
  obtain r3 s3 where m: "mark_dirty (upd_data 1 (\<lambda>d. d(0 := 7)) (pin_frame 1 pool3))
      \<lparr>ph_open = True, ph_frame = Some 1\<rparr> = (r3, s3)" by fastforce
  obtain r4 ph4 s4 where u: "unpin_page s3 \<lparr>ph_open = True, ph_frame = Some 1\<rparr> = (r4, ph4, s4)"
    by (metis prod_cases3)
  from write_page_correct [OF pool3_facts(1,3) check_file_id_Inr [OF pool3_facts(4)] _ g _ m u]
  show ?thesis using g m u pool3_facts(2) by (auto simp: pool2_file)
qed

section \<open>Giving a page back\<close>

text \<open>C4: \<^verbatim>\<open>dispose_page\<close> refuses, with the pool unchanged, a page that fails the checks, is
  not buffered or is pinned.  Otherwise, for a clean frame, it frees the frame and clears the
  page's bit, the header stays sound, no other page changes, and the page can no longer be
  fetched.\<close>

theorem dispose_page_correct:
  assumes wf: "wf_pool {} s" and fh: "check_file_id s fid = Inr fh" and ok: "hdr_ok (hdr_data s fh)"
    and clean: "\<And>f. get (bp_manager s) (fh_desc fh) pn = Some f \<Longrightarrow> \<not> dirty (frame_of s f)"
    and c: "dispose_page s fid pn = (r, s')"
  defines "d \<equiv> hdr_data s fh" and "fd \<equiv> fh_desc fh"
  shows "wf_pool {} s' \<and>
    (case r of
       Inl e \<Rightarrow> s' = s \<and> (check_page_num s pn fh = Inl e \<or> e = BUFFERPOOL_PAGE_PINNED \<and>
         (\<forall>f. get (bp_manager s) fd pn = Some f \<longrightarrow> pin_count (frame_of s f) \<noteq> 0))
     | Inr _ \<Rightarrow>
         hdr_ok (hdr_data s' fh) \<and> used_pages (hdr_data s' fh) = used_pages d - {nat pn} \<and>
         view s' = (view s)(fd := (view s fd)(0 \<mapsto> hdr_data s' fh)) \<and>
         check_page_num s' pn fh = Inl BUFFERPOOL_INVALID_PAGE_NUM)"
proof (cases "check_page_num s pn fh")
  case (Inl e)
  then have "r = Inl e" "s' = s" using c fh by (simp_all add: dispose_page_def)
  then show ?thesis using Inl wf by simp
next
  case (Inr u)
  then have cp: "check_page_num s pn fh = SUCCESS" by simp
  note fo = check_file_id_Inr [OF fh] and P = check_page_num_Inr [OF cp]
  show ?thesis
  proof (cases "\<exists>f. get (bp_manager s) fd pn = Some f \<and> pin_count (frame_of s f) = 0")
    case False
    then have "r = Inl BUFFERPOOL_PAGE_PINNED \<and> s' = s"
      using c fh cp by (auto simp: dispose_page_def fd_def split: option.splits if_splits)
    then show ?thesis using False wf by auto
  next
    case True
    then obtain f where f: "get (bp_manager s) (fh_desc fh) pn = Some f" "pin_count (frame_of s f) = 0"
      by (auto simp: fd_def)
    then have "pn \<noteq> 0" using header_frame(2,4) [OF wf fo] by auto
    then have n0: "nat pn \<noteq> 0" using P by linarith
    have "hdr_ok (hdr_dispose (nat pn) d)"
      using hdr_ok_dispose [OF ok, of "nat pn"] P n0 by (simp add: d_def)
    moreover have "used_pages (hdr_dispose (nat pn) d) = used_pages d - {nat pn}"
      by (auto simp: used_pages_def)
    ultimately show ?thesis
      using dispose_page_ok [OF wf fh cp f clean [OF f(1)]] c by (auto simp: d_def fd_def)
  qed
qed

definition pool4 :: DiskBufferPool where
  "pool4 = snd (snd (unpin_page pool3 \<lparr>ph_open = True, ph_frame = Some 1\<rparr>))"

lemma pool4_facts:
  "wf_pool {} pool4" "check_file_id pool4 0 = Inr fh0" "get (bp_manager pool4) 0 1 = Some 1"
  "pin_count (frame_of pool4 1) = 0" "\<not> dirty (frame_of pool4 1)" "page (frame_of pool4 1) = zeroed 1"
  "hdr_data pool4 fh0 = hdr_extend 1 (data header_page)"
proof -
  let ?ph = "\<lparr>ph_open = True, ph_frame = Some 1\<rparr>"
  obtain s' where u: "unpin_page pool3 ?ph = (SUCCESS, ?ph\<lparr>ph_open := False\<rparr>, s')" "wf_pool {} s'"
     "get (bp_manager s') = get (bp_manager pool3)"
     "frame_of s' 1 = (frame_of pool3 1)\<lparr>pin_count := pin_count (frame_of pool3 1) - 1\<rparr>"
    using unpin_page_ok [OF pool3_facts(1,5), of ?ph] pool3_facts by (auto simp: synced_def)
  then have p: "pool4 = s'" by (simp add: pool4_def)
  show "wf_pool {} pool4" "get (bp_manager pool4) 0 1 = Some 1" "pin_count (frame_of pool4 1) = 0"
      "\<not> dirty (frame_of pool4 1)" "page (frame_of pool4 1) = zeroed 1"
    using u pool3_facts by (simp_all add: p)
  show "hdr_data pool4 fh0 = hdr_extend 1 (data header_page)" "check_file_id pool4 0 = Inr fh0"
    using pool3_facts by (auto simp: pool4_def unpin_page_def Let_def pool2_file check_file_id_def split: if_splits)
qed

theorem dispose_page_correct_witness:
  "\<exists>s'. dispose_page pool4 0 1 = (SUCCESS, s') \<and> wf_pool {} s' \<and> used_pages (hdr_data s' fh0) = {0}"
proof -
  have i: "int32 2" by (simp add: int32_def)
  have cp: "check_page_num pool4 1 fh0 = SUCCESS"
    by (simp add: check_page_num_def pool4_facts int32_def)
  have h: "hdr_ok (hdr_data pool4 fh0)"
    using hdr_ok_extend [OF hdr_ok_header_page] by (simp add: pool4_facts)
  obtain r s' where c: "dispose_page pool4 0 1 = (r, s')" by fastforce
  have "r = SUCCESS"
    using dispose_page_ok [OF pool4_facts(1,2) cp _ pool4_facts(4,5)] pool4_facts(3) c
    by (auto simp: pool2_file)
  moreover have "used_pages (hdr_extend 1 (data header_page)) = {0, 1}"
    using i by (auto simp: used_pages_def)
  ultimately show ?thesis
    using dispose_page_correct [OF pool4_facts(1,2) h _ c] pool4_facts c by (auto simp: pool2_file)
qed

section \<open>Where the code departs from the contract\<close>

text \<open>\<^verbatim>\<open>flush_block\<close> compares the result of \<^verbatim>\<open>lseek\<close> with \<^verbatim>\<open>offset - 1\<close> instead of
  \<open>- 1\<close>.  When the seek for any page but page 0 fails and the write after it does not, the page
  is written wherever the descriptor's position was, and the call reports success.\<close>

theorem flush_block_seek_ignored:
  assumes e: "fd_entry (os s) (file_desc (frame_of s f)) = Some (ino, pos)"
    and bad: "os_fault (os s) (os_tick (os s))" and good: "\<not> os_fault (os s) (os_tick (os s) + 1)"
    and pn: "0 < page_num (page (frame_of s f))"
  shows "fst (flush_block s f) = SUCCESS \<and>
    os_inodes (os (snd (flush_block s f))) ino =
      put_page (os_inodes (os s) ino) (page_index pos) (page (frame_of s f))"
proof -
  have "page_num (page (frame_of s f)) * int BP_PAGE_SIZE \<noteq> 0"
    using pn by (simp add: BP_PAGE_SIZE_def)
  then show ?thesis
    using e bad good by (simp add: flush_block_def sys_lseek_def sys_write_def enter_def Let_def)
qed

text \<open>The example file of two pages, where the next system call fails: flushing page 1 overwrites
  whatever page the descriptor points at.\<close>

definition broken_pool :: DiskBufferPool where
  "broken_pool = pool0\<lparr>
     bp_manager := (bp_manager pool0)\<lparr>frames := [blank_frame\<lparr>page := zeroed 1\<rparr>, blank_frame]\<rparr>,
     os := empty_os\<lparr>os_inodes := (\<lambda>_. [header_page, zeroed 1]), os_fds := [Some (0, 0)],
       os_fault := (\<lambda>n. n = 0)\<rparr>\<rparr>"

theorem flush_block_seek_ignored_witness:
  "fst (flush_block broken_pool 0) = SUCCESS \<and>
   os_inodes (os (snd (flush_block broken_pool 0))) 0 = [zeroed 1, zeroed 1]"
  using flush_block_seek_ignored [of broken_pool 0 0 0]
  by (simp add: broken_pool_def empty_os_def blank_frame_def fd_entry_def put_page_def page_index_def)

lemma dispose_dirty:
  assumes wf: "wf_pool {} s" and fh: "check_file_id s fid = Inr fh"
    and pn: "check_page_num s pn fh = SUCCESS" and g: "get (bp_manager s) (fh_desc fh) pn = Some f"
    and p: "pin_count (frame_of s f) = 0" and d: "dirty (frame_of s f)"
  shows "\<exists>s'. dispose_page s fid pn = (SUCCESS, s') \<and> f \<in> set (free_list (bp_manager s')) \<and>
     dirty (frame_of s' f) \<and> page (frame_of s' f) = page (frame_of s f) \<and> \<not> wf_pool {} s'"
proof -
  let ?s1 = "s\<lparr>bp_manager := deleteFrame (bp_manager s) (fh_desc fh) pn f\<rparr>"
  let ?s2 = "store_header fh (hdr_dispose (nat pn)) ?s1"
  note fo = check_file_id_Inr [OF fh]
  have nh: "hdr_frame fh \<noteq> f" using header_frame(4) [OF wf fo] p by auto
  have fn: "hdr_frame fh < length (frames (bp_manager s))" using header_frame(3) [OF wf fo] .
  have e: "dispose_page s fid pn = (SUCCESS, ?s2)"
    by (simp add: dispose_page_def fh pn g p Let_def hdr_dispose_def [abs_def])
  have f2: "frame_of ?s2 f = frame_of s f" using nh fn by (simp add: upd_data_comp)
  have fl: "f \<in> set (free_list (bp_manager ?s2))" by (simp add: upd_data_comp)
  have "\<not> wf_pool {} ?s2" using free_clean [OF _ fl] f2 d by metis
  then show ?thesis using e f2 fl d by metis
qed

text \<open>\<^verbatim>\<open>dispose_page\<close> of a page whose frame is dirty leaves a dirty frame in the free list:
  the next block handed out starts by writing the disposed page's old contents back to disk, over
  whatever has been put at that place in the meantime.\<close>

theorem dispose_dirty_frame:
  assumes wf: "wf_pool {} s" and fh: "check_file_id s fid = Inr fh"
    and pn: "check_page_num s pn fh = SUCCESS" and g: "get (bp_manager s) (fh_desc fh) pn = Some f"
    and p: "pin_count (frame_of s f) = 0" and d: "dirty (frame_of s f)"
  shows "\<exists>s'. dispose_page s fid pn = (SUCCESS, s') \<and> f \<in> set (free_list (bp_manager s')) \<and>
     dirty (frame_of s' f) \<and> page (frame_of s' f) = page (frame_of s f) \<and> \<not> wf_pool {} s'"
  using assms by (rule dispose_dirty)

definition pool5 :: DiskBufferPool where
  "pool5 = snd (mark_dirty pool4 \<lparr>ph_open = True, ph_frame = Some 1\<rparr>)"

theorem dispose_dirty_frame_witness:
  "\<exists>s'. dispose_page pool5 0 1 = (SUCCESS, s') \<and> dirty (frame_of s' 1) \<and> \<not> wf_pool {} s'"
proof -
  let ?ph = "\<lparr>ph_open = True, ph_frame = Some 1\<rparr>"
  have p5: "wf_pool {} pool5" "get (bp_manager pool5) 0 1 = Some 1" "dirty (frame_of pool5 1)"
      "pin_count (frame_of pool5 1) = 0"
    using mark_dirty_ok [OF pool4_facts(1,3), of ?ph] pool4_facts by (auto simp: pool5_def)
  have "length (frames (bp_manager pool4)) = 2"
    by (simp add: pool4_def unpin_page_def pool3_facts [simplified] Let_def)
  then have h: "hdr_data pool5 fh0 = hdr_data pool4 fh0" "open_file pool5 = open_file pool4"
    by (simp_all add: pool5_def mark_dirty_def pool2_file)
  have c: "check_file_id pool5 0 = Inr fh0" using pool4_facts(2) h(2) by (simp add: check_file_id_def MAX_OPEN_FILE_def)
  have cp: "check_page_num pool5 1 fh0 = SUCCESS"
    using h(1) by (simp add: check_page_num_def pool4_facts int32_def)
  from dispose_dirty_frame [OF p5(1) c cp _ p5(4,3)] p5(2) show ?thesis by (auto simp: pool2_file)
qed

text \<open>\<^verbatim>\<open>flush_all_pages\<close> on a file with one buffered dirty page puts the page's frame into
  the free list but, because \<^verbatim>\<open>force_all_pages\<close> passes the frame number where the page number
  belongs, leaves it in the page table (unless the two numbers agree): the frame will be handed
  out for another page while this page still points to it.\<close>

theorem flush_all_pages_double_use:
  assumes wf: "wf_pool {} s" and fh: "check_file_id s fid = Inr fh"
    and t: "table_of s (fh_desc fh) = [(pn, f)]" and d: "dirty (frame_of s f)" and ne: "pn \<noteq> int f"
  shows "\<exists>s'. flush_all_pages s fid = (SUCCESS, s') \<and> f \<in> set (free_list (bp_manager s')) \<and>
     get (bp_manager s') (fh_desc fh) pn = Some f"
proof -
  let ?fd = "fh_desc fh"
  let ?s = "touch_table s ?fd"
  have g: "get (bp_manager s) ?fd pn = Some f"
    using t by (auto simp: table_of_def get_def split: option.splits)
  have gs: "get (bp_manager ?s) ?fd pn = Some f" "frames (bp_manager ?s) = frames (bp_manager s)" "os ?s = os s"
    using t by (simp_all add: touch_table_def get_def)
  have b: "wf_bpm {} (bp_manager s)" and fr: "frames_ok s" and nf: "no_fault (os s)"
    using wf by (simp_all add: wf_pool_def os_wf_def)
  note G = wf_bpm_get [OF b g] and D = frames_okD [OF fr g]
  obtain ino where ino: "fd_inode (os s) ?fd = Some ino" using D by (auto simp: disk_page_def split: option.splits)
  obtain o1 where f1: "flush_block ?s f = (SUCCESS, upd_frame f (dirty_update (\<lambda>_. False)) (?s\<lparr>os := o1\<rparr>))"
      and o1: "os_eq (put_inode (os s) ino (nat pn) (page (frame_of s f))) o1"
    using flush_block_ok [of ?s f ino] nf ino G D gs by auto
  let ?s1 = "upd_frame f (dirty_update (\<lambda>_. False)) (?s\<lparr>os := o1\<rparr>)"
  have f2: "frame_of ?s1 f = (frame_of s f)\<lparr>dirty := False\<rparr>" using G gs by simp
  have "no_fault (os ?s1)" "fd_inode (os ?s1) ?fd = Some ino"
    using o1 nf ino by (simp_all add: os_eq_def put_inode_def no_fault_def)
  then obtain o2 where "flush_block ?s1 f = (SUCCESS, upd_frame f (dirty_update (\<lambda>_. False)) (?s1\<lparr>os := o2\<rparr>))"
    using flush_block_ok [of ?s1 f ino] G D f2 by auto
  then have "flush_all_pages s fid = (SUCCESS, (let s2 = upd_frame f (dirty_update (\<lambda>_. False)) (?s1\<lparr>os := o2\<rparr>)
      in s2\<lparr>bp_manager := deleteFrame (bp_manager s2) ?fd (int f) f\<rparr>))"
    using d f1 gs by (simp add: flush_all_pages_def fh force_all_pages_def t Let_def)
  then show ?thesis using ne gs(1) by (simp add: Let_def)
qed

text \<open>A second file, whose header page 0 is in frame 1, marked dirty.\<close>

definition pool6 :: DiskBufferPool where
  "pool6 = snd (create_file pool2 ''u'')"

definition pool7 :: DiskBufferPool where
  "pool7 = snd (open_file_op pool6 (Some ''u''))"

definition pool8 :: DiskBufferPool where
  "pool8 = snd (mark_dirty pool7 \<lparr>ph_open = True, ph_frame = Some 1\<rparr>)"

lemma pool6_eq:
  "pool6 = pool2\<lparr>os := \<lparr>os_names = [''t'' \<mapsto> 0, ''u'' \<mapsto> 1],
     os_inodes = (\<lambda>_. [])(0 := [header_page], 1 := [header_page]), os_next = 2,
     os_fds = [Some (0, 4096), None], os_clock = 0, os_tick = 15, os_fault = (\<lambda>_. False)\<rparr>\<rparr>"
  by (simp add: pool6_def pool2_eq create_file_def sys_defs)

lemma more_file_ids: "map int [Suc 0..<nat MAX_OPEN_FILE] = 1 # map int [2..<nat MAX_OPEN_FILE]"
proof -
  have "Suc 0 < nat MAX_OPEN_FILE" by (simp add: MAX_OPEN_FILE_def)
  then show ?thesis by (subst upt_conv_Cons) (simp_all add: numeral_2_eq_2)
qed

lemma open_pool6:
  "wf_pool {} pool6" "os_names (os pool6) ''u'' = Some 1" "file_name_id pool6 ''u'' = None"
  "free_file_ids pool6 = 1 # map int [2..<nat MAX_OPEN_FILE]" "file_sound (os pool6) 1"
proof -
  show "wf_pool {} pool6" unfolding pool6_def by (rule create_file_wf [OF pool2_wf])
qed (simp_all add: pool6_eq pool2_eq file_sound_def more_file_ids)

lemma pool7_eq:
  "open_file pool7 1 = Some \<lparr>bopen = True, file_name = ''u'', fh_desc = 1, hdr_frame = 1\<rparr>"
  "page_table (bp_manager pool7) 1 = Some [(0, 1)]" "fst (open_file_op pool6 (Some ''u'')) = Inr 1"
  by (simp_all add: pool7_def pool6_eq pool2_eq open_file_op_def sys_defs allocate_block_def alloc_def
      Pin_def LRUReplacer_init_def claim_frame_def upd_frame_def load_page_def add_page_table_def
      AddPageTable_def blank_frame_def header_frame0_def BP_PAGE_SIZE_def more_file_ids)

theorem flush_all_pages_double_use_witness:
  "\<exists>s'. flush_all_pages pool8 1 = (SUCCESS, s') \<and> 1 \<in> set (free_list (bp_manager s')) \<and>
     get (bp_manager s') 1 0 = Some 1"
proof -
  let ?fh = "\<lparr>bopen = True, file_name = ''u'', fh_desc = 1, hdr_frame = 1\<rparr>"
  have wf7: "wf_pool {} pool7"
    by (cases rule: open_file_cases [OF open_pool6]) (use pool7_eq(3) in \<open>simp_all add: pool7_def\<close>)
  have g7: "get (bp_manager pool7) 1 0 = Some 1" by (simp add: get_def pool7_eq)
  have p8: "wf_pool {} pool8" "dirty (frame_of pool8 1)"
    using mark_dirty_ok [OF wf7 g7, of "\<lparr>ph_open = True, ph_frame = Some 1\<rparr>"] by (auto simp: pool8_def)
  have c: "check_file_id pool8 1 = Inr ?fh" "table_of pool8 (fh_desc ?fh) = [(0, 1)]"
    using pool7_eq by (simp_all add: pool8_def mark_dirty_def check_file_id_def MAX_OPEN_FILE_def table_of_def)
  from flush_all_pages_double_use [OF p8(1) c p8(2)] show ?thesis by simp
qed

end
