(* ===== verification/Record_Page.thy ===== *)
theory Record_Page
  imports Bitmap
begin

text \<open>
  The record pages of \<^verbatim>\<open>src/src/observer/storage/common/record_manager.cpp\<close>: the layout
  functions, the \<^verbatim>\<open>PageHeader\<close> at the start of the page data, the slot bit map behind it, and
  what the handler's operations do to the bytes of one page.  A page is abstracted to a map from
  slots to records (\<open>page_records\<close>), and each operation refines the operation on that map.
\<close>

section \<open>Layout\<close>

text \<open>C++ \<^verbatim>\<open>/\<close> and \<^verbatim>\<open>%\<close> truncate; the sizes are not negative, so \<open>div\<close> and \<open>mod\<close> agree.\<close>

definition align8 :: "int \<Rightarrow> int" where
  "align8 n = n div 8 * 8 + (if n mod 8 = 0 then 0 else 8)"

definition page_fix_size :: int where
  "page_fix_size = 4 + 4 + 4 + 4 + 4"

text \<open>
  \<^verbatim>\<open>(int)((page_size - page_fix_size() - 1) / (record_size + 0.125))\<close> in doubles: numerator and
  denominator are exact, and the quotient of numbers this small is either an integer or further
  from the next one than the rounding error, so the cast gives the floor of the exact quotient.
\<close>

definition page_record_capacity :: "int \<Rightarrow> int \<Rightarrow> int" where
  "page_record_capacity page_size rsize = (page_size - page_fix_size - 1) * 8 div (rsize * 8 + 1)"

definition page_bitmap_size :: "int \<Rightarrow> int" where
  "page_bitmap_size cap = cap div 8 + (if cap mod 8 = 0 then 0 else 1)"

definition page_header_size :: "int \<Rightarrow> int" where
  "page_header_size cap = align8 (page_fix_size + page_bitmap_size cap)"

section \<open>\<^verbatim>\<open>PageHeader\<close>\<close>

definition record_num :: "bytes \<Rightarrow> int" where "record_num d = get_int d 0"
definition record_capacity :: "bytes \<Rightarrow> int" where "record_capacity d = get_int d 4"
definition record_real_size :: "bytes \<Rightarrow> int" where "record_real_size d = get_int d 8"
definition record_size :: "bytes \<Rightarrow> int" where "record_size d = get_int d 12"
definition first_record_offset :: "bytes \<Rightarrow> int" where "first_record_offset d = get_int d 16"

definition set_record_num :: "int \<Rightarrow> bytes \<Rightarrow> bytes" where "set_record_num n d = put_int d 0 n"

text \<open>\<^verbatim>\<open>Bitmap bitmap(bitmap_, page_header_->record_capacity)\<close>.\<close>

definition slot_map :: "bytes \<Rightarrow> Bitmap" where
  "slot_map d = \<lparr>bitmap = 20, bsize = nat (record_capacity d)\<rparr>"

definition slot_offset :: "bytes \<Rightarrow> int \<Rightarrow> int" where
  "slot_offset d index = first_record_offset d + index * record_size d"

text \<open>An access to \<open>n\<close> bytes at \<open>off\<close> that stays inside \<^verbatim>\<open>page.data\<close>.\<close>

definition in_page :: "int \<Rightarrow> int \<Rightarrow> bool" where
  "in_page off n \<longleftrightarrow> 0 \<le> off \<and> 0 \<le> n \<and> off + n \<le> int BP_PAGE_DATA_SIZE"

section \<open>Operations on the bytes of a page\<close>

text \<open>\<^verbatim>\<open>init_empty_page\<close> after the page was fetched.\<close>

definition format_page :: "int \<Rightarrow> bytes \<Rightarrow> bytes" where
  "format_page rsize d =
     (let phy = align8 rsize;
          cap = page_record_capacity (int BP_PAGE_DATA_SIZE) phy;
          d1 = put_int (put_int (put_int (put_int (put_int d 0 0) 4 cap) 8 rsize) 12 phy) 16
                 (page_header_size cap)
      in memset d1 20 0 (nat (page_bitmap_size cap)))"

text \<open>The body of \<^verbatim>\<open>RecordPageHandler::insert_record\<close>, with the slot it used.  A full bit map
  makes \<^verbatim>\<open>set_bit\<close> shift by a negative amount; a record past the end of the page is written
  outside the frame.\<close>

definition page_insert :: "bytes \<Rightarrow> bytes \<Rightarrow> (int \<times> bytes) result" where
  "page_insert src d =
     (if record_num d = record_capacity d then Inl RECORD_NOMEM
      else let index = next_unsetted_bit d (slot_map d) 0 in
        if index < 0 then Inl UB
        else let d1 = set_record_num (record_num d + 1) (set_bit d (slot_map d) (nat index)) in
          if \<not> in_page (slot_offset d1 index) (record_real_size d1) then Inl UB
          else Inr (index, memcpy d1 (nat (slot_offset d1 index)) src 0 (nat (record_real_size d1))))"

definition page_replace :: "int \<Rightarrow> bytes \<Rightarrow> bytes \<Rightarrow> bytes result" where
  "page_replace slot src d =
     (if slot \<ge> record_capacity d then Inl INVALID_ARGUMENT
      else if slot < 0 then Inl UB
      else if \<not> get_bit d (slot_map d) (nat slot) then Inl RECORD_RECORD_NOT_EXIST
      else if \<not> in_page (slot_offset d slot) (record_real_size d) then Inl UB
      else Inr (memcpy d (nat (slot_offset d slot)) src 0 (nat (record_real_size d))))"

definition page_delete :: "int \<Rightarrow> bytes \<Rightarrow> bytes result" where
  "page_delete slot d =
     (if slot \<ge> record_capacity d then Inl INVALID_ARGUMENT
      else if slot < 0 then Inl UB
      else if get_bit d (slot_map d) (nat slot)
      then let d1 = clear_bit d (slot_map d) (nat slot) in Inr (set_record_num (record_num d1 - 1) d1)
      else Inl RECORD_RECORD_NOT_EXIST)"

text \<open>\<^verbatim>\<open>get_record\<close>: the offset of the record's data.\<close>

definition page_get :: "int \<Rightarrow> bytes \<Rightarrow> int result" where
  "page_get slot d =
     (if slot \<ge> record_capacity d then Inl RECORD_INVALIDRID
      else if slot < 0 then Inl UB
      else if \<not> get_bit d (slot_map d) (nat slot) then Inl RECORD_RECORD_NOT_EXIST
      else Inr (slot_offset d slot))"

definition page_next :: "int \<Rightarrow> bytes \<Rightarrow> (int \<times> int) result" where
  "page_next slot d =
     (if slot \<ge> record_capacity d - 1 then Inl RECORD_EOF
      else if slot < - 1 then Inl UB
      else let index = next_setted_bit d (slot_map d) (nat (slot + 1)) in
        if index < 0 then Inl RECORD_EOF else Inr (index, slot_offset d index))"

section \<open>The abstract page\<close>

definition slots :: "bytes \<Rightarrow> nat set" where
  "slots d = {i. int i < record_capacity d \<and> get_bit d (slot_map d) i}"

definition slot_record :: "bytes \<Rightarrow> nat \<Rightarrow> byte list" where
  "slot_record d i =
     map (\<lambda>k. d (nat (slot_offset d (int i)) + k)) [0..<nat (record_real_size d)]"

definition page_records :: "bytes \<Rightarrow> nat \<rightharpoonup> byte list" where
  "page_records d = (\<lambda>i. if i \<in> slots d then Some (slot_record d i) else None)"

definition record_of :: "nat \<Rightarrow> bytes \<Rightarrow> byte list" where
  "record_of n src = map src [0..<n]"

text \<open>A page formatted for records of \<open>rs\<close> bytes that fit.\<close>

definition fits :: "int \<Rightarrow> bool" where
  "fits rs \<longleftrightarrow> 1 \<le> rs \<and> rs \<le> 4064 \<and> \<not> (5 \<le> rs \<and> rs \<le> 8)"

definition cap_of :: "int \<Rightarrow> int" where
  "cap_of rs = page_record_capacity (int BP_PAGE_DATA_SIZE) (align8 rs)"

definition wf_page :: "int \<Rightarrow> bytes \<Rightarrow> bool" where
  "wf_page rs d \<longleftrightarrow> record_capacity d = cap_of rs \<and> record_real_size d = rs \<and> record_size d = align8 rs \<and>
     first_record_offset d = page_header_size (cap_of rs) \<and> record_num d = int (card (slots d))"

section \<open>The layout fits\<close>

definition layout_ok :: "int \<Rightarrow> bool" where
  "layout_ok k = (let cap = 32568 div (64 * k + 1)
     in 1 \<le> cap \<and> (20 + (cap div 8 + (if cap mod 8 = 0 then 0 else 1)) + 7) div 8 * 8 + cap * (8 * k) \<le> 4092)"

lemma layouts_checked: "list_all layout_ok [2..508]"
  by code_simp

lemma div8_up: "(n + 7) div 8 = n div 8 + (if n mod 8 = 0 then 0 else 1)" for n :: int
proof (cases "n mod 8 = 0")
  case True
  then have "8 * (n div 8) = n" by (metis add_0_right mult_div_mod_eq)
  then have "(n + 7) div 8 = n div 8" by linarith
  with True show ?thesis by simp
next
  case False
  then have "1 \<le> n mod 8" using pos_mod_sign [of 8 n] by linarith
  moreover have "8 * (n div 8) + n mod 8 = n" by simp
  ultimately have "(n + 7) div 8 = n div 8 + 1" by linarith
  with False show ?thesis by simp
qed

lemma align8_eq: "align8 n = (n + 7) div 8 * 8"
  by (simp add: align8_def div8_up)

lemma bitmap_size_eq: "page_bitmap_size n = (n + 7) div 8"
  by (simp add: page_bitmap_size_def div8_up)

lemma align8_bounds: "n \<le> align8 n \<and> align8 n < n + 8 \<and> align8 n mod 8 = 0"
proof (intro conjI)
  show "n \<le> align8 n" "align8 n < n + 8" unfolding align8_eq by linarith+
  show "align8 n mod 8 = 0" by (simp add: align8_eq)
qed

lemma cap_of_eq: "cap_of rs = 32568 div (align8 rs * 8 + 1)"
  by (simp add: cap_of_def page_record_capacity_def page_fix_size_def BP_PAGE_DATA_SIZE_def BP_PAGE_SIZE_def)

lemma layout_checked: "2 \<le> k \<Longrightarrow> k \<le> 508 \<Longrightarrow> layout_ok k"
  using layouts_checked unfolding list_all_iff set_upto by simp

text \<open>Header, bit map and slots of a formatted page, side by side inside the page.\<close>

lemma fits_geometry:
  assumes "fits rs"
  shows "1 \<le> cap_of rs" "cap_of rs \<le> 32568"
    "20 + (cap_of rs + 7) div 8 \<le> page_header_size (cap_of rs)"
    "page_header_size (cap_of rs) + (cap_of rs - 1) * align8 rs + rs \<le> 4092"
    "1 \<le> rs" "rs \<le> align8 rs"
proof -
  have rs: "1 \<le> rs" "rs \<le> 4064" "\<not> (5 \<le> rs \<and> rs \<le> 8)" using assms by (auto simp: fits_def)
  show "1 \<le> rs" by (rule rs(1))
  define k where "k = (rs + 7) div 8"
  have al: "align8 rs = k * 8" using align8_eq [of rs] rs by (simp add: k_def)
  have k: "1 \<le> k" "k \<le> 508" using rs unfolding k_def by linarith+
  show le: "rs \<le> align8 rs" using align8_bounds [of rs] rs by simp
  have cap: "cap_of rs = 32568 div (64 * k + 1)" by (simp add: cap_of_eq al algebra_simps)
  have "1 \<le> cap_of rs \<and> page_header_size (cap_of rs) + (cap_of rs - 1) * align8 rs + rs \<le> 4092"
  proof (cases "k = 1")
    case True
    then have "rs \<le> 4" using rs al le by auto
    moreover have "cap_of rs = 501" using cap True by simp
    ultimately show ?thesis
      using True al by (simp add: page_header_size_def page_fix_size_def page_bitmap_size_def align8_def)
  next
    case False
    then have "layout_ok k" using layout_checked [of k] k by simp
    then have L: "1 \<le> cap_of rs" "(20 + page_bitmap_size (cap_of rs) + 7) div 8 * 8 + cap_of rs * (8 * k) \<le> 4092"
      by (simp_all add: layout_ok_def Let_def cap page_bitmap_size_def)
    have "page_header_size (cap_of rs) = (20 + page_bitmap_size (cap_of rs) + 7) div 8 * 8"
      using L(1) by (simp add: page_header_size_def page_fix_size_def align8_eq bitmap_size_eq)
    moreover have "(cap_of rs - 1) * align8 rs + rs \<le> cap_of rs * (8 * k)"
      using le al by (simp add: algebra_simps)
    ultimately show ?thesis using L by linarith
  qed
  then show c: "1 \<le> cap_of rs" "page_header_size (cap_of rs) + (cap_of rs - 1) * align8 rs + rs \<le> 4092"
    by auto
  have "32568 div (64 * k + 1) \<le> 32568" using zdiv_mono2 [of 32568 1 "64 * k + 1"] k by simp
  then show "cap_of rs \<le> 32568" by (simp add: cap)
  show "20 + (cap_of rs + 7) div 8 \<le> page_header_size (cap_of rs)"
    using align8_bounds [of "20 + page_bitmap_size (cap_of rs)"] c(1)
    by (simp add: page_header_size_def page_fix_size_def bitmap_size_eq)
qed

text \<open>Positions of the slots of a well-formed page.\<close>

definition slot_pos :: "int \<Rightarrow> nat \<Rightarrow> nat" where
  "slot_pos rs i = nat (page_header_size (cap_of rs)) + i * nat (align8 rs)"

lemma slot_offset_pos:
  "wf_page rs d \<Longrightarrow> fits rs \<Longrightarrow> slot_offset d (int i) = int (slot_pos rs i)"
  using fits_geometry [of rs] by (simp add: wf_page_def slot_offset_def slot_pos_def)

lemma slot_pos_bounds:
  assumes f: "fits rs" and i: "int i < cap_of rs"
  shows "20 + i div 8 < slot_pos rs i" "20 + j div 8 < slot_pos rs 0 \<or> cap_of rs \<le> int j"
    "slot_pos rs 0 \<le> slot_pos rs i" "slot_pos rs i + nat rs \<le> 4092" "24 \<le> slot_pos rs 0"
proof -
  note G = fits_geometry [OF f]
  have hs: "slot_pos rs 0 = nat (page_header_size (cap_of rs))" by (simp add: slot_pos_def)
  have hs0: "0 \<le> page_header_size (cap_of rs)" using G(1,3) by linarith
  have b: "20 + j div 8 < slot_pos rs 0" if "int j < cap_of rs" for j
  proof -
    have "int (j div 8) < (cap_of rs + 7) div 8" using that by linarith
    then show ?thesis using G(3) hs by linarith
  qed
  show le: "slot_pos rs 0 \<le> slot_pos rs i" by (simp add: slot_pos_def)
  show "20 + i div 8 < slot_pos rs i" using b [OF i] le by linarith
  show "20 + j div 8 < slot_pos rs 0 \<or> cap_of rs \<le> int j" using b [of j] by linarith
  have "int i * align8 rs \<le> (cap_of rs - 1) * align8 rs" using i G by (intro mult_right_mono) auto
  then have "page_header_size (cap_of rs) + int i * align8 rs + rs \<le> 4092" using G(4) by linarith
  then show "slot_pos rs i + nat rs \<le> 4092"
    using G hs0 by (simp add: slot_pos_def nat_int_comparison)
  have "page_header_size (cap_of rs) mod 8 = 0"
    using align8_bounds [of "20 + page_bitmap_size (cap_of rs)"] G(1)
    by (simp add: page_header_size_def page_fix_size_def bitmap_size_eq)
  moreover have "21 \<le> page_header_size (cap_of rs)" using G(1,3) by linarith
  ultimately have "24 \<le> page_header_size (cap_of rs)" by presburger
  then show "24 \<le> slot_pos rs 0" using hs by simp
qed

lemma slot_pos_disjoint:
  assumes f: "fits rs" and ij: "i \<noteq> j"
  shows "slot_pos rs i + nat rs \<le> slot_pos rs j \<or> slot_pos rs j + nat rs \<le> slot_pos rs i"
proof -
  have le: "nat rs \<le> nat (align8 rs)" using fits_geometry(6) [OF f] by simp
  have *: "slot_pos rs a + nat rs \<le> slot_pos rs b" if "a < b" for a b
  proof -
    have "Suc a * nat (align8 rs) \<le> b * nat (align8 rs)" using that by (intro mult_le_mono1) simp
    then show ?thesis using le by (simp add: slot_pos_def)
  qed
  show ?thesis using * [of i j] * [of j i] ij by linarith
qed

section \<open>The operations refine the map of records\<close>

definition same_layout :: "bytes \<Rightarrow> bytes \<Rightarrow> bool" where
  "same_layout d d' \<longleftrightarrow> record_capacity d' = record_capacity d \<and> record_real_size d' = record_real_size d \<and>
     record_size d' = record_size d \<and> first_record_offset d' = first_record_offset d"

lemmas header_defs = record_num_def record_capacity_def record_real_size_def record_size_def
  first_record_offset_def set_record_num_def

lemma same_layoutI: "(\<And>i. 4 \<le> i \<Longrightarrow> i < 20 \<Longrightarrow> d' i = d i) \<Longrightarrow> same_layout d d'"
  unfolding same_layout_def header_defs by (intro conjI get_int_cong) auto

lemma same_layout_simps:
  "same_layout d d' \<Longrightarrow> slot_map d' = slot_map d"
  "same_layout d d' \<Longrightarrow> slot_offset d' = slot_offset d"
  "same_layout d d' \<Longrightarrow> record_real_size d' = record_real_size d"
  "same_layout d d' \<Longrightarrow> record_capacity d' = record_capacity d"
  by (auto simp: same_layout_def slot_map_def slot_offset_def fun_eq_iff)

lemma bits_below_20 [mem_simps]:
  "a < 20 \<Longrightarrow> set_bit m (slot_map d) i a = m a" "a < 20 \<Longrightarrow> clear_bit m (slot_map d) i a = m a"
  by (auto simp: slot_map_def set_bit_out clear_bit_out)

lemma set_record_num_out [mem_simps]: "4 \<le> a \<Longrightarrow> set_record_num n d a = d a"
  by (simp add: set_record_num_def put_int_other)

lemma record_num_set [simp]: "int32 n \<Longrightarrow> record_num (set_record_num n d) = n"
  by (simp add: header_defs)

lemma get_bit_set_record_num [simp]: "get_bit (set_record_num n d) (slot_map e) i = get_bit d (slot_map e) i"
  by (simp add: get_bit_iff slot_map_def set_record_num_out)

lemma record_num_cong: "(\<And>i. i < 4 \<Longrightarrow> d' i = d i) \<Longrightarrow> record_num d' = record_num d"
  unfolding record_num_def by (rule get_int_cong) simp

lemma finite_slots [simp]: "finite (slots d)"
proof (rule finite_subset)
  show "slots d \<subseteq> {..<nat (record_capacity d)}" by (auto simp: slots_def)
qed simp

lemma card_slots: "int (card (slots d)) \<le> max 0 (record_capacity d)"
proof -
  have "slots d \<subseteq> {..<nat (record_capacity d)}" by (auto simp: slots_def)
  then have "card (slots d) \<le> nat (record_capacity d)" by (metis card_lessThan card_mono finite_lessThan)
  then show ?thesis by linarith
qed

lemma first_index_free:
  assumes "wf_page rs d" "fits rs" "record_num d \<noteq> record_capacity d"
  obtains i where "next_unsetted_bit d (slot_map d) 0 = int i" "int i < cap_of rs" "i \<notin> slots d"
proof -
  have cap: "record_capacity d = cap_of rs" "1 \<le> cap_of rs"
    using assms(1) fits_geometry [OF assms(2)] by (simp_all add: wf_page_def)
  have eq: "next_unsetted_bit d (slot_map d) 0 =
      first_index (\<lambda>i. \<not> get_bit d (slot_map d) i) 0 (nat (cap_of rs))"
    using next_unsetted_bit_eq [of 0 "slot_map d" d] cap by (simp add: slot_map_def)
  show ?thesis
  proof (cases rule: first_index_cases [of "\<lambda>i. \<not> get_bit d (slot_map d) i" 0 "nat (cap_of rs)"])
    case None
    then have "slots d = {..<nat (cap_of rs)}" using cap by (auto simp: slots_def)
    then show ?thesis using assms(1,3) cap by (simp add: wf_page_def)
  next
    case (Some i)
    then show ?thesis using that [of i] eq by (simp add: slots_def)
  qed
qed

text \<open>Writing one slot's record leaves the header, the bits and the other slots alone.\<close>

lemma slot_write:
  assumes wf: "wf_page rs d" and f: "fits rs" and i: "int i < cap_of rs"
    and d'_def: "d' = memcpy d (slot_pos rs i) src 0 (nat rs)"
  shows "same_layout d d'" "record_num d' = record_num d" "slots d' = slots d"
    "slot_record d' i = record_of (nat rs) src" "\<And>j. j \<noteq> i \<Longrightarrow> slot_record d' j = slot_record d j"
proof -
  note B = slot_pos_bounds [OF f i]
  show L: "same_layout d d'"
    by (rule same_layoutI) (use B in \<open>simp add: d'_def memcpy_out\<close>)
  show "record_num d' = record_num d"
    by (rule record_num_cong) (use B in \<open>simp add: d'_def memcpy_out\<close>)
  have cap: "record_capacity d = cap_of rs" and real: "record_real_size d = rs"
    using wf by (simp_all add: wf_page_def)
  have bit: "get_bit d' (slot_map d) j = get_bit d (slot_map d) j" if "int j < cap_of rs" for j
  proof -
    have "20 + j div 8 < slot_pos rs i" using B(2) [of j] B(3) that by linarith
    then show ?thesis by (simp add: get_bit_iff slot_map_def d'_def memcpy_out)
  qed
  show "slots d' = slots d"
    using cap bit by (auto simp: slots_def same_layout_simps [OF L])
  have rec: "slot_record d' j = map (\<lambda>k. d' (slot_pos rs j + k)) [0..<nat rs]" for j
    by (simp add: slot_record_def same_layout_simps [OF L] real slot_offset_pos [OF wf f])
  show "slot_record d' i = record_of (nat rs) src"
    unfolding rec by (simp add: record_of_def d'_def memcpy_in)
  have rec0: "slot_record d j = map (\<lambda>k. d (slot_pos rs j + k)) [0..<nat rs]" for j
    by (simp add: slot_record_def real slot_offset_pos [OF wf f])
  show "slot_record d' j = slot_record d j" if "j \<noteq> i" for j
    unfolding rec rec0 using slot_pos_disjoint [OF f that] by (auto simp: d'_def memcpy_out)
qed

text \<open>Changing one slot's bit and the record count leaves the layout and the records alone.\<close>

lemma bit_write:
  assumes wf: "wf_page rs d" and f: "fits rs" and i: "int i < cap_of rs"
    and e: "e = set_bit d (slot_map d) i \<or> e = clear_bit d (slot_map d) i"
    and d'_def: "d' = set_record_num n e"
  shows "same_layout d d'" "\<And>j. int j < cap_of rs \<Longrightarrow> slot_record d' j = slot_record d j"
proof -
  show L: "same_layout d d'"
    by (rule same_layoutI) (use e in \<open>auto simp: d'_def mem_simps\<close>)
  have out: "d' a = d a" if "slot_pos rs 0 \<le> a" for a
  proof -
    have "a \<noteq> 20 + i div 8" "4 \<le> a" using slot_pos_bounds(2) [OF f i, of i] slot_pos_bounds(5) [OF f i] i that by auto
    then show ?thesis using e by (auto simp: d'_def set_record_num_out set_bit_out clear_bit_out slot_map_def)
  qed
  have real: "record_real_size d = rs" using wf by (simp add: wf_page_def)
  show "slot_record d' j = slot_record d j" if "int j < cap_of rs" for j
    using slot_pos_bounds(3) [OF f that]
    by (simp add: slot_record_def same_layout_simps [OF L] real slot_offset_pos [OF wf f] out)
qed

lemma wf_page_layout:
  "wf_page rs d \<Longrightarrow> same_layout d d' \<Longrightarrow> record_num d' = int (card (slots d')) \<Longrightarrow> wf_page rs d'"
  by (simp add: wf_page_def same_layout_def)

lemma count_int32: "fits rs \<Longrightarrow> 0 \<le> n \<Longrightarrow> n \<le> cap_of rs \<Longrightarrow> int32 n"
  using fits_geometry [of rs] by (simp add: int32_def)

lemma page_insert_free:
  assumes wf: "wf_page rs d" and f: "fits rs" and i: "int i < cap_of rs" and ni: "i \<notin> slots d"
    and d1: "d1 = set_record_num (record_num d + 1) (set_bit d (slot_map d) i)"
  shows "wf_page rs d1" "slots d1 = insert i (slots d)"
    "\<And>j. int j < cap_of rs \<Longrightarrow> slot_record d1 j = slot_record d j"
proof -
  note W = bit_write [OF wf f i disjI1 [OF refl] d1]
  have cap: "record_capacity d = cap_of rs" "record_num d = int (card (slots d))"
    using wf by (simp_all add: wf_page_def)
  show sl: "slots d1 = insert i (slots d)"
    unfolding slots_def same_layout_simps [OF W(1)] using i cap by (auto simp: d1)
  have "slots d1 \<subseteq> {..<nat (cap_of rs)}" unfolding sl using i cap by (auto simp: slots_def)
  then have "card (slots d1) \<le> nat (cap_of rs)" by (metis card_lessThan card_mono finite_lessThan)
  then have "int32 (record_num d + 1)"
    using ni sl cap fits_geometry(1) [OF f] by (intro count_int32 [OF f]) auto
  then show "wf_page rs d1"
    using ni sl cap by (intro wf_page_layout [OF wf W(1)]) (simp add: d1)
  show "slot_record d1 j = slot_record d j" if "int j < cap_of rs" for j using W(2) that .
qed

lemma slots_cap: "wf_page rs d \<Longrightarrow> i \<in> slots d \<Longrightarrow> int i < cap_of rs"
  by (simp add: slots_def wf_page_def)

lemma in_page_slot:
  "wf_page rs d \<Longrightarrow> fits rs \<Longrightarrow> int i < cap_of rs \<Longrightarrow> in_page (slot_offset d (int i)) (record_real_size d)"
  using slot_pos_bounds(4) [of rs i] fits_geometry(5) [of rs]
  by (simp add: in_page_def slot_offset_pos wf_page_def BP_PAGE_DATA_SIZE_def BP_PAGE_SIZE_def)

lemma slot_write_records:
  assumes wf: "wf_page rs d" and f: "fits rs" and i: "i \<in> slots d"
    and d': "d' = memcpy d (slot_pos rs i) src 0 (nat rs)"
  shows "wf_page rs d'" "page_records d' = (page_records d)(i \<mapsto> record_of (nat rs) src)"
proof -
  note W = slot_write [OF wf f slots_cap [OF wf i] d']
  show "wf_page rs d'" using wf W(1-3) by (intro wf_page_layout [OF wf W(1)]) (simp add: wf_page_def)
  show "page_records d' = (page_records d)(i \<mapsto> record_of (nat rs) src)"
    using W(3-5) i by (auto simp: page_records_def)
qed

lemma page_insert_ok:
  assumes wf: "wf_page rs d" and f: "fits rs" and room: "record_num d \<noteq> record_capacity d"
  obtains i d' where "page_insert src d = Inr (int i, d')" "wf_page rs d'" "i \<notin> dom (page_records d)"
    "int i < cap_of rs" "page_records d' = (page_records d)(i \<mapsto> record_of (nat rs) src)"
proof -
  obtain i where i: "next_unsetted_bit d (slot_map d) 0 = int i" "int i < cap_of rs" "i \<notin> slots d"
    using first_index_free [OF wf f room] by blast
  define d1 where "d1 = set_record_num (record_num d + 1) (set_bit d (slot_map d) i)"
  note A = page_insert_free [OF wf f i(2,3) d1_def]
  define d2 where "d2 = memcpy d1 (slot_pos rs i) src 0 (nat rs)"
  have i1: "i \<in> slots d1" using A(2) by simp
  note S = slot_write_records [OF A(1) f i1 d2_def]
  have "record_real_size d1 = rs" using A(1) by (simp add: wf_page_def)
  then have "page_insert src d = Inr (int i, d2)"
    using room i(1) in_page_slot [OF A(1) f i(2)] slot_offset_pos [OF A(1) f]
    by (simp add: page_insert_def Let_def d1_def [symmetric] d2_def)
  moreover have "page_records d2 = (page_records d)(i \<mapsto> record_of (nat rs) src)"
    using S(2) A(2,3) slots_cap [OF wf] by (auto simp: page_records_def fun_eq_iff)
  ultimately show ?thesis using that S(1) i by (simp add: page_records_def domIff)
qed

lemma page_delete_ok:
  assumes wf: "wf_page rs d" and f: "fits rs" and i: "i \<in> slots d"
  obtains d' where "page_delete (int i) d = Inr d'" "wf_page rs d'"
    "page_records d' = (page_records d)(i := None)" "record_num d' = record_num d - 1"
proof -
  note ic = slots_cap [OF wf i]
  define e where "e = clear_bit d (slot_map d) i"
  define d' where "d' = set_record_num (record_num e - 1) e"
  note W = bit_write [OF wf f ic disjI2 [OF e_def] d'_def]
  have cap: "record_capacity d = cap_of rs" "record_num d = int (card (slots d))"
    using wf by (simp_all add: wf_page_def)
  have en: "record_num e = record_num d" by (rule record_num_cong) (simp add: e_def bits_below_20)
  have sl: "slots d' = slots d - {i}"
    unfolding slots_def same_layout_simps [OF W(1)] by (auto simp: d'_def e_def)
  have pos: "0 < card (slots d)" using i card_gt_0_iff by fastforce
  have "card (slots d) \<le> nat (cap_of rs)" using card_slots [of d] cap fits_geometry(1) [OF f] by simp
  then have i32: "int32 (record_num d - 1)" using pos cap by (intro count_int32 [OF f]) auto
  then have rn: "record_num d' = record_num d - 1" by (simp add: d'_def en)
  have "wf_page rs d'"
    using rn sl i cap pos by (intro wf_page_layout [OF wf W(1)]) simp
  moreover have "page_records d' = (page_records d)(i := None)"
    using sl W(2) slots_cap [OF wf] by (auto simp: page_records_def fun_eq_iff)
  moreover have "page_delete (int i) d = Inr d'"
    using i ic cap by (simp add: page_delete_def slots_def Let_def e_def [symmetric] d'_def)
  ultimately show ?thesis using that rn by blast
qed

lemma page_get_ok:
  assumes wf: "wf_page rs d" and f: "fits rs"
  shows "page_get (int i) d =
    (if cap_of rs \<le> int i then Inl RECORD_INVALIDRID
     else if i \<notin> slots d then Inl RECORD_RECORD_NOT_EXIST else Inr (int (slot_pos rs i)))"
    and "page_records d i = Some r \<Longrightarrow> r = map (\<lambda>k. d (slot_pos rs i + k)) [0..<nat rs]"
proof -
  have cap: "record_capacity d = cap_of rs" "record_real_size d = rs" using wf by (simp_all add: wf_page_def)
  show "page_get (int i) d =
    (if cap_of rs \<le> int i then Inl RECORD_INVALIDRID
     else if i \<notin> slots d then Inl RECORD_RECORD_NOT_EXIST else Inr (int (slot_pos rs i)))"
    using cap slot_offset_pos [OF wf f] by (simp add: page_get_def slots_def)
  show "page_records d i = Some r \<Longrightarrow> r = map (\<lambda>k. d (slot_pos rs i + k)) [0..<nat rs]"
    using cap slot_offset_pos [OF wf f] by (auto simp: page_records_def slot_record_def split: if_splits)
qed

lemma page_next_ok:
  assumes wf: "wf_page rs d" and f: "fits rs" and lo: "- 1 \<le> slot"
    and ok: "(slot + 1) mod 8 = 0 \<or> d (20 + nat (slot + 1) div 8) \<noteq> 0"
  shows "page_next slot d =
    (case find (\<lambda>i. i \<in> slots d) [nat (slot + 1)..<nat (cap_of rs)] of
       None \<Rightarrow> Inl RECORD_EOF
     | Some i \<Rightarrow> Inr (int i, int (slot_pos rs i)))"
proof (cases "slot \<ge> cap_of rs - 1")
  case True
  then show ?thesis using wf by (simp add: page_next_def wf_page_def)
next
  case False
  have cap: "record_capacity d = cap_of rs" using wf by (simp add: wf_page_def)
  let ?n = "nat (slot + 1)"
  have "int (?n mod 8) = (slot + 1) mod 8" using lo by (simp add: zmod_int)
  then have "?n mod 8 = 0 \<or> d (bitmap (slot_map d) + ?n div 8) \<noteq> 0"
    using ok by (auto simp: slot_map_def)
  then have eq: "next_setted_bit d (slot_map d) ?n = first_index (get_bit d (slot_map d)) ?n (nat (cap_of rs))"
    using next_setted_bit_eq [of ?n "slot_map d" d] False lo cap by (simp add: slot_map_def)
  have cong: "find (get_bit d (slot_map d)) [?n..<nat (cap_of rs)] =
      find (\<lambda>i. i \<in> slots d) [?n..<nat (cap_of rs)]"
    by (rule find_cong) (auto simp: slots_def cap)
  have "page_next slot d = (case find (\<lambda>i. i \<in> slots d) [?n..<nat (cap_of rs)] of
       None \<Rightarrow> Inl RECORD_EOF | Some i \<Rightarrow> Inr (int i, slot_offset d (int i)))"
    using False lo cap eq cong
    by (simp add: page_next_def Let_def first_index_def split: option.splits)
  then show ?thesis by (simp add: slot_offset_pos [OF wf f] split: option.splits)
qed

lemma format_page_ok:
  assumes f: "fits rs"
  shows "wf_page rs (format_page rs d)" "page_records (format_page rs d) = Map.empty"
proof -
  note G = fits_geometry [OF f]
  define d1 where "d1 = put_int (put_int (put_int (put_int (put_int d 0 0) 4 (cap_of rs)) 8 rs) 12 (align8 rs)) 16
                 (page_header_size (cap_of rs))"
  have d': "format_page rs d = memset d1 20 0 (nat ((cap_of rs + 7) div 8))"
    by (simp add: format_page_def Let_def d1_def cap_of_def [symmetric] bitmap_size_eq)
  have "0 \<le> (cap_of rs - 1) * align8 rs" using G by simp
  then have "page_header_size (cap_of rs) \<le> 4092" using G by linarith
  moreover have "align8 rs < rs + 8" using align8_bounds by blast
  moreover have "rs \<le> 4064" using f by (simp add: fits_def)
  ultimately have i32: "int32 0" "int32 (cap_of rs)" "int32 rs" "int32 (align8 rs)" "int32 (page_header_size (cap_of rs))"
    using G by (auto simp: int32_def)
  have H: "record_num (format_page rs d) = 0" "record_capacity (format_page rs d) = cap_of rs"
      "record_real_size (format_page rs d) = rs" "record_size (format_page rs d) = align8 rs"
      "first_record_offset (format_page rs d) = page_header_size (cap_of rs)"
    using i32 by (simp_all add: header_defs d' d1_def mem_simps)
  have "\<not> get_bit (format_page rs d) (slot_map e) i" if "int i < cap_of rs" for i e
  proof -
    have "int (i div 8) < (cap_of rs + 7) div 8" using that by linarith
    then have "i div 8 < nat ((cap_of rs + 7) div 8)" by linarith
    then show ?thesis by (simp add: get_bit_iff slot_map_def d' memset_in)
  qed
  then have sl: "slots (format_page rs d) = {}" by (auto simp: slots_def H)
  then show "wf_page rs (format_page rs d)" using H by (simp add: wf_page_def)
  show "page_records (format_page rs d) = Map.empty" by (simp add: page_records_def sl)
qed

section \<open>Properties\<close>

text \<open>C24: a page formatted for records of 1 to 4064 bytes, but not of 5 to 8, is well formed and
  empty: the header, the bit map and all the slots the capacity promises lie inside the page, one
  after the other.\<close>

theorem format_page_correct:
  assumes "fits rs"
  shows "wf_page rs (format_page rs d) \<and> page_records (format_page rs d) = Map.empty \<and>
    1 \<le> cap_of rs \<and> 20 + page_bitmap_size (cap_of rs) \<le> page_header_size (cap_of rs) \<and>
    page_header_size (cap_of rs) + (cap_of rs - 1) * align8 rs + rs \<le> int BP_PAGE_DATA_SIZE"
  using format_page_ok [OF assms] fits_geometry [OF assms]
  by (simp add: bitmap_size_eq BP_PAGE_DATA_SIZE_def BP_PAGE_SIZE_def)

theorem format_page_correct_witness:
  "wf_page 100 (format_page 100 (\<lambda>_. 255)) \<and> cap_of 100 = 39"
proof -
  have "fits 100" by (simp add: fits_def)
  then show ?thesis
    using format_page_correct [of 100] by (simp add: cap_of_eq align8_def)
qed

text \<open>For records of 5 to 8 bytes the capacity formula forgets that the header is aligned to
  8: the last of the 501 slots ends past the end of the page, whatever the page held before.\<close>

theorem small_records_overflow:
  assumes "5 \<le> rs" "rs \<le> 8"
  shows "record_capacity (format_page rs d) = 501 \<and>
    \<not> in_page (slot_offset (format_page rs d) 500) (record_real_size (format_page rs d))"
proof -
  have "(rs + 7) div 8 = 1" using assms by linarith
  then have al: "align8 rs = 8" by (simp add: align8_eq)
  then have cap: "page_record_capacity (int BP_PAGE_DATA_SIZE) 8 = 501"
    by (simp add: page_record_capacity_def page_fix_size_def BP_PAGE_DATA_SIZE_def BP_PAGE_SIZE_def)
  have hs: "page_header_size 501 = 88"
    by (simp add: page_header_size_def page_fix_size_def page_bitmap_size_def align8_def)
  have "int32 501" "int32 rs" "int32 8" "int32 88" using assms by (simp_all add: int32_def)
  then have "record_capacity (format_page rs d) = 501" "first_record_offset (format_page rs d) = 88"
      "record_size (format_page rs d) = 8" "record_real_size (format_page rs d) = rs"
    by (simp_all add: format_page_def Let_def header_defs al cap hs mem_simps)
  then show ?thesis
    using assms by (simp add: slot_offset_def in_page_def BP_PAGE_DATA_SIZE_def BP_PAGE_SIZE_def)
qed

theorem small_records_overflow_witness:
  "\<not> in_page (slot_offset (format_page 8 (\<lambda>_. 0)) 500) (record_real_size (format_page 8 (\<lambda>_. 0)))"
  using small_records_overflow [of 8 "\<lambda>_. 0"] by simp


definition empty_page :: bytes where
  "empty_page = format_page 3 (\<lambda>_. 0)"

lemma empty_page_ok: "fits 3" "wf_page 3 empty_page" "page_records empty_page = Map.empty"
  "next_unsetted_bit empty_page (slot_map empty_page) 0 = 0" "record_num empty_page \<noteq> record_capacity empty_page"
proof -
  show f: "fits 3" by (simp add: fits_def)
  show wf: "wf_page 3 empty_page" and r: "page_records empty_page = Map.empty"
    using format_page_ok [OF f] by (auto simp: empty_page_def)
  have cap: "record_capacity empty_page = 501" using wf by (simp add: wf_page_def cap_of_eq align8_def)
  have sl: "slots empty_page = {}" using r by (auto simp: page_records_def fun_eq_iff split: if_splits)
  then show "record_num empty_page \<noteq> record_capacity empty_page" using wf cap by (simp add: wf_page_def)
  have "\<not> get_bit empty_page (slot_map empty_page) 0" using sl cap by (auto simp: slots_def)
  then show "next_unsetted_bit empty_page (slot_map empty_page) 0 = 0"
    using next_unsetted_bit_eq [of 0 "slot_map empty_page" empty_page] cap
      first_index_eqI [of 0 0 501 "\<lambda>i. \<not> get_bit empty_page (slot_map empty_page) i"]
    by (simp add: slot_map_def)
qed

definition sample_page :: bytes where
  "sample_page = snd (projr (page_insert (\<lambda>_. 9) empty_page))"

lemma sample_page_ok:
  "page_insert (\<lambda>_. 9) empty_page = Inr (0, sample_page)" "wf_page 3 sample_page"
  "page_records sample_page = [0 \<mapsto> [9, 9, 9]]"
proof -
  note E = empty_page_ok
  obtain i d' where d': "page_insert (\<lambda>_. 9) empty_page = Inr (int i, d')" "wf_page 3 d'"
      "page_records d' = (page_records empty_page)(i \<mapsto> record_of 3 (\<lambda>_. 9))"
    by (rule page_insert_ok [OF E(2,1,5), of "\<lambda>_. 9"]) simp
  have "i = 0" using d'(1) E(4,5) by (auto simp: page_insert_def Let_def split: if_splits)
  moreover from this have "sample_page = d'" using d'(1) by (simp add: sample_page_def)
  ultimately show "page_insert (\<lambda>_. 9) empty_page = Inr (0, sample_page)" "wf_page 3 sample_page"
      "page_records sample_page = [0 \<mapsto> [9, 9, 9]]"
    using d' E(3) by (simp_all add: record_of_def numeral_3_eq_3)
qed


text \<open>Deleting a slot removes exactly that record and keeps the page well formed; a slot past
  the capacity and an empty slot are refused with their own errors.\<close>

theorem page_delete_refines:
  assumes wf: "wf_page rs d" and f: "fits rs" and s: "0 \<le> slot"
  shows "case page_delete slot d of
      Inl e \<Rightarrow> e = (if cap_of rs \<le> slot then INVALID_ARGUMENT else RECORD_RECORD_NOT_EXIST) \<and>
        page_records d (nat slot) = None
    | Inr d' \<Rightarrow> slot < cap_of rs \<and> nat slot \<in> dom (page_records d) \<and> wf_page rs d' \<and>
        page_records d' = (page_records d)(nat slot := None)"
proof (cases "nat slot \<in> slots d")
  case True
  have "int (nat slot) = slot" using s by simp
  then show ?thesis
    using slots_cap [OF wf True] True
    by (rule_tac page_delete_ok [OF wf f True]) (auto simp: page_records_def domIff)
next
  case False
  have cap: "record_capacity d = cap_of rs" using wf by (simp add: wf_page_def)
  then show ?thesis using False s by (auto simp: page_delete_def page_records_def slots_def)
qed

theorem page_delete_refines_witness:
  "\<exists>d'. page_delete 0 sample_page = Inr d' \<and> page_records d' = Map.empty"
  using page_delete_refines [OF sample_page_ok(2) empty_page_ok(1), of 0] sample_page_ok(3)
  by (auto split: sum.splits)

text \<open>Updating a slot in use replaces exactly that record and keeps the page well formed; the
  other slots are refused.\<close>

theorem page_replace_refines:
  assumes wf: "wf_page rs d" and f: "fits rs" and s: "0 \<le> slot"
  shows "case page_replace slot src d of
      Inl e \<Rightarrow> e = (if cap_of rs \<le> slot then INVALID_ARGUMENT else RECORD_RECORD_NOT_EXIST) \<and>
        page_records d (nat slot) = None
    | Inr d' \<Rightarrow> nat slot \<in> dom (page_records d) \<and> wf_page rs d' \<and>
        page_records d' = (page_records d)(nat slot \<mapsto> record_of (nat rs) src)"
proof (cases "nat slot \<in> slots d")
  case True
  have i: "int (nat slot) = slot" using s by simp
  have cap: "record_capacity d = cap_of rs" "record_real_size d = rs" using wf by (simp_all add: wf_page_def)
  note S = slot_write_records [OF wf f True refl, of src]
  have "in_page (slot_offset d slot) rs" "slot_offset d slot = int (slot_pos rs (nat slot))"
    using in_page_slot [OF wf f slots_cap [OF wf True]] slot_offset_pos [OF wf f, of "nat slot"] i cap by simp_all
  then have "page_replace slot src d = Inr (memcpy d (slot_pos rs (nat slot)) src 0 (nat rs))"
    using True i cap s by (simp add: page_replace_def slots_def)
  then show ?thesis using S True by (auto simp: page_records_def domIff)
next
  case False
  have cap: "record_capacity d = cap_of rs" using wf by (simp add: wf_page_def)
  then show ?thesis using False s by (auto simp: page_replace_def page_records_def slots_def)
qed

theorem page_replace_refines_witness:
  "\<exists>d'. page_replace 0 (\<lambda>_. 4) sample_page = Inr d' \<and> page_records d' = [0 \<mapsto> [4, 4, 4]]"
  using page_replace_refines [OF sample_page_ok(2) empty_page_ok(1), of 0 "\<lambda>_. 4"] sample_page_ok(3)
  by (auto simp: record_of_def numeral_3_eq_3 split: sum.splits)

text \<open>The offset \<^verbatim>\<open>get_record\<close> returns for a slot in use is inside the page and holds the
  slot's record; an empty slot and a slot past the capacity are refused with their own errors.\<close>

theorem page_get_refines:
  assumes wf: "wf_page rs d" and f: "fits rs" and s: "0 \<le> slot"
  shows "case page_get slot d of
      Inl e \<Rightarrow> e = (if cap_of rs \<le> slot then RECORD_INVALIDRID else RECORD_RECORD_NOT_EXIST) \<and>
        page_records d (nat slot) = None
    | Inr off \<Rightarrow> in_page off rs \<and> 24 \<le> off \<and>
        page_records d (nat slot) = Some (map (\<lambda>k. d (nat off + k)) [0..<nat rs])"
proof (cases "nat slot \<in> slots d")
  case True
  note P = page_get_ok [OF wf f, of "nat slot"] and c = slots_cap [OF wf True]
  have r: "page_records d (nat slot) = Some (slot_record d (nat slot))" using True by (simp add: page_records_def)
  have "in_page (int (slot_pos rs (nat slot))) rs"
    using in_page_slot [OF wf f c] slot_offset_pos [OF wf f, of "nat slot"] wf by (simp add: wf_page_def)
  moreover have "24 \<le> slot_pos rs (nat slot)" using slot_pos_bounds(3,5) [OF f c] by linarith
  ultimately show ?thesis using P(1) P(2) [OF r] r True c s by simp
next
  case False
  then show ?thesis using page_get_ok(1) [OF wf f, of "nat slot"] s by (simp add: page_records_def)
qed

theorem page_get_refines_witness:
  "\<exists>off. page_get 0 sample_page = Inr off \<and> map (\<lambda>k. sample_page (nat off + k)) [0..<3] = [9, 9, 9]"
  using page_get_refines [OF sample_page_ok(2) empty_page_ok(1), of 0] sample_page_ok(3)
  by (auto split: sum.splits)

text \<open>The scan step \<^verbatim>\<open>get_next_record\<close> finds the next slot in use after the current one, or
  reports the end, as long as the search starts at a byte boundary of the bit map or in a byte
  that still has a record (as it does when the current slot is in use).\<close>

theorem page_next_correct:
  assumes wf: "wf_page rs d" and f: "fits rs" and lo: "- 1 \<le> slot"
    and ok: "(slot + 1) mod 8 = 0 \<or> d (20 + nat (slot + 1) div 8) \<noteq> 0"
  shows "case page_next slot d of
      Inl e \<Rightarrow> e = RECORD_EOF \<and> (\<forall>i \<in> dom (page_records d). int i \<le> slot)
    | Inr (i, off) \<Rightarrow> slot < i \<and> page_get i d = Inr off \<and> nat i \<in> dom (page_records d) \<and>
        (\<forall>j \<in> dom (page_records d). int j \<le> slot \<or> i \<le> int j)"
proof -
  have dom: "dom (page_records d) = slots d" by (auto simp: page_records_def split: if_splits)
  note N = page_next_ok [OF assms]
  show ?thesis
  proof (cases "find (\<lambda>i. i \<in> slots d) [nat (slot + 1)..<nat (cap_of rs)]")
    case None
    have "int i \<le> slot" if "i \<in> slots d" for i
    proof (rule ccontr)
      assume "\<not> int i \<le> slot"
      then have "nat (slot + 1) \<le> i" "i < nat (cap_of rs)" using slots_cap [OF wf that] by linarith+
      then show False using None that by (simp add: find_upt_None_iff)
    qed
    then show ?thesis using N None dom by simp
  next
    case (Some i)
    then have i: "nat (slot + 1) \<le> i" "i \<in> slots d" "\<And>j. nat (slot + 1) \<le> j \<Longrightarrow> j < i \<Longrightarrow> j \<notin> slots d"
      by (auto simp: find_Some_iff_first)
    have "int j \<le> slot \<or> int i \<le> int j" if "j \<in> slots d" for j
      using i(3) [of j] that by linarith
    then show ?thesis
      using N Some dom i page_get_ok(1) [OF wf f, of i] slots_cap [OF wf i(2)] lo by auto
  qed
qed

theorem page_next_correct_witness:
  "(\<exists>off. page_next (- 1) sample_page = Inr (0, off)) \<and> page_next 7 sample_page = Inl RECORD_EOF"
proof -
  have "\<exists>off. page_next (- 1) sample_page = Inr (0, off)"
    using page_next_correct [OF sample_page_ok(2) empty_page_ok(1), of "- 1"] sample_page_ok(3)
    by (auto split: sum.splits prod.splits)
  moreover have "page_next 7 sample_page = Inl RECORD_EOF"
    using page_next_correct [OF sample_page_ok(2) empty_page_ok(1), of 7] sample_page_ok(3)
    by (auto split: sum.splits prod.splits)
  ultimately show ?thesis ..
qed

end
