(* ===== verification/Record_File.thy ===== *)
theory Record_File
  imports Pool_Spec Record_Page
begin

text \<open>
  \<^verbatim>\<open>RecordPageHandler\<close>, \<^verbatim>\<open>RecordFileHandler\<close> and \<^verbatim>\<open>RecordFileScanner\<close> of
  \<^verbatim>\<open>src/src/observer/storage/common/record_manager.cpp\<close>, over the buffer pool.  A handler's
  \<^verbatim>\<open>page_header_\<close> is the frame whose data it points into; it is never reset, so it can outlive
  the pin on that frame.  \<^verbatim>\<open>bitmap_\<close> is always 20 bytes behind it.  A record's \<^verbatim>\<open>data\<close> pointer
  is a frame and an offset into it.  \<^verbatim>\<open>disk_buffer_pool_ != nullptr\<close> is \<open>rph_pool\<close>.
\<close>

section \<open>Data\<close>

record RID =
  rid_page :: int
  rid_slot :: int

record Record =
  rec_rid :: RID
  rec_frame :: nat
  rec_off :: int

record RecordPageHandler =
  rph_pool :: bool
  rph_file_id :: int
  rph_handle :: BPPageHandle
  rph_header :: "nat option"

definition RecordPageHandler_new :: RecordPageHandler where
  "RecordPageHandler_new =
     \<lparr>rph_pool = False, rph_file_id = - 1, rph_handle = new_handle, rph_header = None\<rparr>"

definition fdata :: "DiskBufferPool \<Rightarrow> nat \<Rightarrow> bytes" where
  "fdata s f = data (page (frame_of s f))"

text \<open>The bytes a record points to.\<close>

definition rec_bytes :: "DiskBufferPool \<Rightarrow> Record \<Rightarrow> nat \<Rightarrow> byte list" where
  "rec_bytes s r n = map (\<lambda>k. fdata s (rec_frame r) (nat (rec_off r) + k)) [0..<n]"

section \<open>\<^verbatim>\<open>RecordPageHandler\<close>\<close>

definition rph_page_num :: "DiskBufferPool \<Rightarrow> RecordPageHandler \<Rightarrow> int" where
  "rph_page_num s h =
     (case (rph_header h, ph_frame (rph_handle h)) of
        (Some _, Some f) \<Rightarrow> page_num (page (frame_of s f))
      | _ \<Rightarrow> - 1)"

definition rph_init ::
  "DiskBufferPool \<Rightarrow> RecordPageHandler \<Rightarrow> int \<Rightarrow> int \<Rightarrow> unit result \<times> RecordPageHandler \<times> DiskBufferPool" where
  "rph_init s h file_id pn =
     (if rph_pool h then (Inl RECORD_OPENNED, h, s)
      else case get_this_page s file_id pn (rph_handle h) of
             (Inl e, ph, s1) \<Rightarrow> (Inl e, h\<lparr>rph_handle := ph\<rparr>, s1)
           | (Inr _, ph, s1) \<Rightarrow>
               (case get_data s1 ph of
                  Inl e \<Rightarrow> (Inl e, h\<lparr>rph_handle := ph\<rparr>, s1)
                | Inr _ \<Rightarrow> (SUCCESS, \<lparr>rph_pool = True, rph_file_id = file_id, rph_handle = ph,
                                     rph_header = ph_frame ph\<rparr>, s1)))"

definition rph_init_empty_page ::
  "DiskBufferPool \<Rightarrow> RecordPageHandler \<Rightarrow> int \<Rightarrow> int \<Rightarrow> int \<Rightarrow>
   unit result \<times> RecordPageHandler \<times> DiskBufferPool" where
  "rph_init_empty_page s h file_id pn rsize =
     (case rph_init s h file_id pn of
        (Inl e, h1, s1) \<Rightarrow> (Inl e, h1, s1)
      | (Inr _, h1, s1) \<Rightarrow>
          (case ph_frame (rph_handle h1) of
             None \<Rightarrow> (Inl UB, h1, s1)
           | Some f \<Rightarrow>
               let s2 = upd_data f (format_page rsize) s1
               in (SUCCESS, h1, snd (mark_dirty s2 (rph_handle h1)))))"

definition rph_deinit ::
  "DiskBufferPool \<Rightarrow> RecordPageHandler \<Rightarrow> unit result \<times> RecordPageHandler \<times> DiskBufferPool" where
  "rph_deinit s h =
     (if rph_pool h
      then let (_, ph, s1) = unpin_page s (rph_handle h)
           in (SUCCESS, h\<lparr>rph_handle := ph, rph_pool := False\<rparr>, s1)
      else (SUCCESS, h, s))"

text \<open>The two frames an operation works on: the one \<^verbatim>\<open>page_header_\<close> points into and the one of
  \<^verbatim>\<open>page_handle_\<close>.  A null pointer, or a call through a null \<^verbatim>\<open>disk_buffer_pool_\<close>, is
  undefined behaviour.\<close>

definition rph_frames :: "RecordPageHandler \<Rightarrow> (nat \<times> nat) option" where
  "rph_frames h =
     (case (rph_header h, ph_frame (rph_handle h)) of
        (Some hf, Some gf) \<Rightarrow> Some (hf, gf)
      | _ \<Rightarrow> None)"

definition rph_mark_dirty :: "DiskBufferPool \<Rightarrow> RecordPageHandler \<Rightarrow> unit result \<times> DiskBufferPool" where
  "rph_mark_dirty s h = (if rph_pool h then mark_dirty s (rph_handle h) else (Inl UB, s))"

definition rph_insert_record ::
  "DiskBufferPool \<Rightarrow> RecordPageHandler \<Rightarrow> bytes \<Rightarrow> RID result \<times> DiskBufferPool" where
  "rph_insert_record s h src =
     (case rph_frames h of
        None \<Rightarrow> (Inl UB, s)
      | Some (hf, gf) \<Rightarrow>
          let d = fdata s hf in
          if record_num d = record_capacity d then (Inl RECORD_NOMEM, s)
          else let index = next_unsetted_bit d (slot_map d) 0 in
            if index < 0 then (Inl UB, s)
            else let s1 = upd_data hf (\<lambda>d. set_record_num (record_num d + 1)
                                             (set_bit d (slot_map d) (nat index))) s;
                     d1 = fdata s1 hf in
              if \<not> in_page (slot_offset d1 index) (record_real_size d1) then (Inl UB, s1)
              else let s2 = upd_data gf (\<lambda>g. memcpy g (nat (slot_offset d1 index)) src 0
                                               (nat (record_real_size d1))) s1 in
                case rph_mark_dirty s2 h of
                  (Inl e, s3) \<Rightarrow> (Inl e, s3)
                | (Inr _, s3) \<Rightarrow> (Inr \<lparr>rid_page = rph_page_num s3 h, rid_slot = index\<rparr>, s3))"

definition rph_update_record ::
  "DiskBufferPool \<Rightarrow> RecordPageHandler \<Rightarrow> RID \<Rightarrow> bytes \<Rightarrow> unit result \<times> DiskBufferPool" where
  "rph_update_record s h rid src =
     (case rph_frames h of
        None \<Rightarrow> (Inl UB, s)
      | Some (hf, gf) \<Rightarrow>
          let d = fdata s hf; slot = rid_slot rid in
          if slot \<ge> record_capacity d then (Inl INVALID_ARGUMENT, s)
          else if slot < 0 then (Inl UB, s)
          else if \<not> get_bit d (slot_map d) (nat slot) then (Inl RECORD_RECORD_NOT_EXIST, s)
          else if \<not> in_page (slot_offset d slot) (record_real_size d) then (Inl UB, s)
          else let s1 = upd_data gf (\<lambda>g. memcpy g (nat (slot_offset d slot)) src 0
                                           (nat (record_real_size d))) s
               in rph_mark_dirty s1 h)"

definition rph_delete_record ::
  "DiskBufferPool \<Rightarrow> RecordPageHandler \<Rightarrow> RID \<Rightarrow> unit result \<times> RecordPageHandler \<times> DiskBufferPool" where
  "rph_delete_record s h rid =
     (case rph_frames h of
        None \<Rightarrow> (Inl UB, h, s)
      | Some (hf, gf) \<Rightarrow>
          let d = fdata s hf; slot = rid_slot rid in
          if slot \<ge> record_capacity d then (Inl INVALID_ARGUMENT, h, s)
          else if slot < 0 then (Inl UB, h, s)
          else if get_bit d (slot_map d) (nat slot) then
            let s1 = upd_data hf (\<lambda>d. let d1 = clear_bit d (slot_map d) (nat slot)
                                       in set_record_num (record_num d1 - 1) d1) s in
            (case rph_mark_dirty s1 h of
               (Inl e, s2) \<Rightarrow> (Inl e, h, s2)
             | (Inr _, s2) \<Rightarrow>
                 if record_num (fdata s2 hf) = 0 then
                   let pn = rph_page_num s2 h;
                       (_, h1, s3) = rph_deinit s2 h;
                       (_, s4) = dispose_page s3 (rph_file_id h) pn
                   in (SUCCESS, h1, s4)
                 else (SUCCESS, h, s2))
          else (Inl RECORD_RECORD_NOT_EXIST, h, s))"

definition rph_get_record :: "DiskBufferPool \<Rightarrow> RecordPageHandler \<Rightarrow> RID \<Rightarrow> Record result" where
  "rph_get_record s h rid =
     (case rph_frames h of
        None \<Rightarrow> Inl UB
      | Some (hf, gf) \<Rightarrow>
          (case page_get (rid_slot rid) (fdata s hf) of
             Inl e \<Rightarrow> Inl e
           | Inr off \<Rightarrow> Inr \<lparr>rec_rid = rid, rec_frame = gf, rec_off = off\<rparr>))"

definition rph_get_next_record :: "DiskBufferPool \<Rightarrow> RecordPageHandler \<Rightarrow> Record \<Rightarrow> Record result" where
  "rph_get_next_record s h rec =
     (case rph_frames h of
        None \<Rightarrow> Inl UB
      | Some (hf, gf) \<Rightarrow>
          (case page_next (rid_slot (rec_rid rec)) (fdata s hf) of
             Inl e \<Rightarrow> Inl e
           | Inr (index, off) \<Rightarrow>
               Inr \<lparr>rec_rid = \<lparr>rid_page = rph_page_num s h, rid_slot = index\<rparr>,
                    rec_frame = gf, rec_off = off\<rparr>))"

definition rph_get_first_record :: "DiskBufferPool \<Rightarrow> RecordPageHandler \<Rightarrow> Record \<Rightarrow> Record result" where
  "rph_get_first_record s h rec =
     rph_get_next_record s h (rec\<lparr>rec_rid := (rec_rid rec)\<lparr>rid_slot := - 1\<rparr>\<rparr>)"

text \<open>\<^verbatim>\<open>update_record_in_place\<close>: the updater is the caller's code, run on the record.\<close>

definition rph_update_record_in_place ::
  "DiskBufferPool \<Rightarrow> RecordPageHandler \<Rightarrow> RID \<Rightarrow>
   (DiskBufferPool \<Rightarrow> Record \<Rightarrow> unit result \<times> DiskBufferPool) \<Rightarrow> unit result \<times> DiskBufferPool" where
  "rph_update_record_in_place s h rid updater =
     (case rph_get_record s h rid of
        Inl e \<Rightarrow> (Inl e, s)
      | Inr rec \<Rightarrow>
          let (rc, s1) = updater s rec
          in (case rph_mark_dirty s1 h of
                (Inl e, s2) \<Rightarrow> (Inl e, s2)
              | (Inr _, s2) \<Rightarrow> (rc, s2)))"

definition rph_is_full :: "DiskBufferPool \<Rightarrow> RecordPageHandler \<Rightarrow> bool result" where
  "rph_is_full s h =
     (case rph_header h of
        None \<Rightarrow> Inl UB
      | Some hf \<Rightarrow> Inr (record_num (fdata s hf) \<ge> record_capacity (fdata s hf)))"

section \<open>\<^verbatim>\<open>RecordFileHandler\<close>\<close>

record RecordFileHandler =
  rfh_pool :: bool
  rfh_file_id :: int
  rfh_page :: RecordPageHandler

definition RecordFileHandler_new :: RecordFileHandler where
  "RecordFileHandler_new = \<lparr>rfh_pool = False, rfh_file_id = - 1, rfh_page = RecordPageHandler_new\<rparr>"

definition rfh_init :: "RecordFileHandler \<Rightarrow> int \<Rightarrow> unit result \<times> RecordFileHandler" where
  "rfh_init fh file_id =
     (if rfh_pool fh then (Inl RECORD_OPENNED, fh)
      else (SUCCESS, fh\<lparr>rfh_pool := True, rfh_file_id := file_id\<rparr>))"

definition rfh_close :: "RecordFileHandler \<Rightarrow> RecordFileHandler" where
  "rfh_close fh = fh\<lparr>rfh_pool := False\<rparr>"

text \<open>
  The search for a page with room: in step \<open>i\<close> the page number grows by \<open>i\<close>, modulo the page
  count.  A page number that is not allocated leaves the handler with the header of the page it
  had before, and that header decides whether the page is full.
\<close>

fun probe_pages ::
  "nat list \<Rightarrow> int \<Rightarrow> int \<Rightarrow> int \<Rightarrow> RecordPageHandler \<Rightarrow> DiskBufferPool \<Rightarrow>
   bool result \<times> RecordPageHandler \<times> DiskBufferPool" where
  "probe_pages [] page_count file_id current h s = (Inr False, h, s)"
| "probe_pages (i # is) page_count file_id current h s =
     (let current = (current + int i) mod page_count in
      if current = 0 then probe_pages is page_count file_id current h s
      else
        let (ret, h1, s1) =
              (if current \<noteq> rph_page_num s h
               then let (_, h', s') = rph_deinit s h in rph_init s' h' file_id current
               else (SUCCESS, h, s)) in
        if ret \<noteq> SUCCESS \<and> ret \<noteq> Inl BUFFERPOOL_INVALID_PAGE_NUM
        then (case ret of Inl e \<Rightarrow> (Inl e, h1, s1) | Inr _ \<Rightarrow> (Inr False, h1, s1))
        else (case rph_is_full s1 h1 of
                Inl e \<Rightarrow> (Inl e, h1, s1)
              | Inr full \<Rightarrow>
                  if \<not> full then (Inr True, h1, s1)
                  else probe_pages is page_count file_id current h1 s1))"

definition rfh_new_page ::
  "DiskBufferPool \<Rightarrow> RecordPageHandler \<Rightarrow> int \<Rightarrow> int \<Rightarrow> unit result \<times> RecordPageHandler \<times> DiskBufferPool" where
  "rfh_new_page s h file_id rsize =
     (case allocate_page s file_id new_handle of
        (Inl e, _, s1) \<Rightarrow> (Inl e, h, s1)
      | (Inr _, ph, s1) \<Rightarrow>
          (case ph_frame ph of
             None \<Rightarrow> (Inl UB, h, s1)
           | Some f \<Rightarrow>
               let pn = page_num (page (frame_of s1 f));
                   (_, h1, s2) = rph_deinit s1 h;
                   (ret, h2, s3) = rph_init_empty_page s2 h1 file_id pn rsize;
                   (_, _, s4) = unpin_page s3 ph
               in (ret, h2, s4)))"

definition rfh_insert_record ::
  "DiskBufferPool \<Rightarrow> RecordFileHandler \<Rightarrow> bytes \<Rightarrow> int \<Rightarrow>
   RID result \<times> RecordFileHandler \<times> DiskBufferPool" where
  "rfh_insert_record s fh src rsize =
     (if \<not> rfh_pool fh then (Inl UB, fh, s) else
      let fid = rfh_file_id fh; h = rfh_page fh in
      case get_page_count s fid of
        Inl e \<Rightarrow> (Inl e, fh, s)
      | Inr page_count \<Rightarrow>
          let current = rph_page_num s h;
              (ret, current, h, s) =
                (if current < 0 then
                   if page_count \<ge> 2 then
                     let (ret, h1, s1) = rph_init s h fid 1 in (ret, rph_page_num s1 h1, h1, s1)
                   else (SUCCESS, 0, h, s)
                 else (SUCCESS, current, h, s)) in
          (case ret of
             Inl e \<Rightarrow> (Inl e, fh\<lparr>rfh_page := h\<rparr>, s)
           | Inr _ \<Rightarrow>
               (case probe_pages [0..<nat page_count] page_count fid current h s of
                  (Inl e, h1, s1) \<Rightarrow> (Inl e, fh\<lparr>rfh_page := h1\<rparr>, s1)
                | (Inr found, h1, s1) \<Rightarrow>
                    let (ret, h2, s2) = (if found then (SUCCESS, h1, s1) else rfh_new_page s1 h1 fid rsize) in
                    (case ret of
                       Inl e \<Rightarrow> (Inl e, fh\<lparr>rfh_page := h2\<rparr>, s2)
                     | Inr _ \<Rightarrow>
                         let (r, s3) = rph_insert_record s2 h2 src
                         in (r, fh\<lparr>rfh_page := h2\<rparr>, s3)))))"

text \<open>
  The other operations fetch the page through a handler of their own.  The test
  \<^verbatim>\<open>(ret != page_handler.init(...)) != RC::SUCCESS\<close> does not assign \<^verbatim>\<open>ret\<close>: when the
  fetch fails they return \<^verbatim>\<open>RC::SUCCESS\<close> and do nothing.  The handler's destructor unpins.
\<close>

definition rfh_update_record ::
  "DiskBufferPool \<Rightarrow> RecordFileHandler \<Rightarrow> RID \<Rightarrow> bytes \<Rightarrow> unit result \<times> DiskBufferPool" where
  "rfh_update_record s fh rid src =
     (if \<not> rfh_pool fh then (Inl UB, s) else
      case rph_init s RecordPageHandler_new (rfh_file_id fh) (rid_page rid) of
        (Inl _, _, s1) \<Rightarrow> (SUCCESS, s1)
      | (Inr _, h, s1) \<Rightarrow>
          let (ret, s2) = rph_update_record s1 h rid src; (_, _, s3) = rph_deinit s2 h
          in (ret, s3))"

definition rfh_delete_record ::
  "DiskBufferPool \<Rightarrow> RecordFileHandler \<Rightarrow> RID \<Rightarrow> unit result \<times> DiskBufferPool" where
  "rfh_delete_record s fh rid =
     (if \<not> rfh_pool fh then (Inl UB, s) else
      case rph_init s RecordPageHandler_new (rfh_file_id fh) (rid_page rid) of
        (Inl _, _, s1) \<Rightarrow> (SUCCESS, s1)
      | (Inr _, h, s1) \<Rightarrow>
          let (ret, h1, s2) = rph_delete_record s1 h rid; (_, _, s3) = rph_deinit s2 h1
          in (ret, s3))"

definition rfh_get_record ::
  "DiskBufferPool \<Rightarrow> RecordFileHandler \<Rightarrow> RID option \<Rightarrow> Record option \<Rightarrow>
   unit result \<times> Record option \<times> DiskBufferPool" where
  "rfh_get_record s fh rid_opt rec_opt =
     (case (rid_opt, rec_opt) of
        (Some rid, Some rec) \<Rightarrow>
          if \<not> rfh_pool fh then (Inl UB, rec_opt, s) else
          (case rph_init s RecordPageHandler_new (rfh_file_id fh) (rid_page rid) of
             (Inl _, _, s1) \<Rightarrow> (SUCCESS, rec_opt, s1)
           | (Inr _, h, s1) \<Rightarrow>
               let (_, _, s2) = rph_deinit s1 h in
               (case rph_get_record s1 h rid of
                  Inl e \<Rightarrow> (Inl e, rec_opt, s2)
                | Inr rec1 \<Rightarrow> (SUCCESS, Some rec1, s2)))
      | _ \<Rightarrow> (Inl INVALID_ARGUMENT, rec_opt, s))"

definition rfh_update_record_in_place ::
  "DiskBufferPool \<Rightarrow> RecordFileHandler \<Rightarrow> RID \<Rightarrow>
   (DiskBufferPool \<Rightarrow> Record \<Rightarrow> unit result \<times> DiskBufferPool) \<Rightarrow> unit result \<times> DiskBufferPool" where
  "rfh_update_record_in_place s fh rid updater =
     (if \<not> rfh_pool fh then (Inl UB, s) else
      case rph_init s RecordPageHandler_new (rfh_file_id fh) (rid_page rid) of
        (Inl _, _, s1) \<Rightarrow> (SUCCESS, s1)
      | (Inr _, h, s1) \<Rightarrow>
          let (ret, s2) = rph_update_record_in_place s1 h rid updater; (_, _, s3) = rph_deinit s2 h
          in (ret, s3))"

subsection \<open>Text pages\<close>

text \<open>The part of a long text that does not fit into the record (the first 28 characters do) has a
  page of its own, from offset 24 on.  A text is the list of its characters; the buffer it is in
  ends with a zero byte.\<close>

definition PAGENUMSIZE :: int where "PAGENUMSIZE = 4"
definition TEXTPATCHSIZE :: int where "TEXTPATCHSIZE = 28"

definition c_string :: "byte list \<Rightarrow> bytes" where
  "c_string xs = (\<lambda>i. if i < length xs then xs ! i else 0)"

definition remain_size :: "byte list \<Rightarrow> int" where
  "remain_size xs = min (max 0 (int (length xs) - TEXTPATCHSIZE)) (int BP_PAGE_SIZE - TEXTPATCHSIZE)"

definition text_to_page :: "byte list \<Rightarrow> bytes \<Rightarrow> bytes" where
  "text_to_page xs d =
     memcpy d (nat (TEXTPATCHSIZE - PAGENUMSIZE)) (c_string xs) (nat TEXTPATCHSIZE) (nat (remain_size xs))"

definition insert_text_data ::
  "DiskBufferPool \<Rightarrow> RecordFileHandler \<Rightarrow> byte list \<Rightarrow> int result \<times> DiskBufferPool" where
  "insert_text_data s fh xs =
     (if \<not> rfh_pool fh then (Inl UB, s) else
      case allocate_page s (rfh_file_id fh) new_handle of
        (Inl e, _, s1) \<Rightarrow> (Inl e, s1)
      | (Inr _, ph, s1) \<Rightarrow>
          (case ph_frame ph of
             None \<Rightarrow> (Inl UB, s1)
           | Some f \<Rightarrow>
               let pn = page_num (page (frame_of s1 f));
                   s2 = upd_data f (text_to_page xs) s1;
                   (_, s3) = mark_dirty s2 ph;
                   (ret, _, s4) = unpin_page s3 ph
               in (case ret of Inl e \<Rightarrow> (Inl e, s4) | Inr _ \<Rightarrow> (Inr pn, s4))))"

definition read_text_data ::
  "DiskBufferPool \<Rightarrow> RecordFileHandler \<Rightarrow> bytes \<Rightarrow> int \<Rightarrow> unit result \<times> bytes \<times> DiskBufferPool" where
  "read_text_data s fh dst pn =
     (if \<not> rfh_pool fh then (Inl UB, dst, s) else
      case get_this_page s (rfh_file_id fh) pn new_handle of
        (Inl e, _, s1) \<Rightarrow> (Inl e, dst, s1)
      | (Inr _, ph, s1) \<Rightarrow>
          (case get_data s1 ph of
             Inl e \<Rightarrow> (Inl e, dst, s1)
           | Inr d \<Rightarrow>
               let (ret, _, s2) = unpin_page s1 ph
               in (ret, memcpy dst 0 d (nat (TEXTPATCHSIZE - PAGENUMSIZE))
                          (nat (int BP_PAGE_SIZE - TEXTPATCHSIZE)), s2)))"

definition delete_text_data ::
  "DiskBufferPool \<Rightarrow> RecordFileHandler \<Rightarrow> int \<Rightarrow> int \<Rightarrow> unit result \<times> DiskBufferPool" where
  "delete_text_data s fh pn rsize =
     (if \<not> rfh_pool fh then (Inl UB, s) else
      let (ret, h, s1) = rph_init_empty_page s RecordPageHandler_new (rfh_file_id fh) pn rsize;
          (_, _, s2) = rph_deinit s1 h
      in (ret, s2))"

definition update_text_data ::
  "DiskBufferPool \<Rightarrow> RecordFileHandler \<Rightarrow> byte list \<Rightarrow> int \<Rightarrow> unit result \<times> DiskBufferPool" where
  "update_text_data s fh xs pn =
     (if \<not> rfh_pool fh then (Inl UB, s) else
      case get_this_page s (rfh_file_id fh) pn new_handle of
        (Inl e, _, s1) \<Rightarrow> (Inl e, s1)
      | (Inr _, ph, s1) \<Rightarrow>
          (case get_data s1 ph of
             Inl e \<Rightarrow> (Inl e, s1)
           | Inr _ \<Rightarrow>
               (case ph_frame ph of
                  None \<Rightarrow> (Inl UB, s1)
                | Some f \<Rightarrow>
                    let s2 = upd_data f (\<lambda>d. text_to_page xs
                                 (memset d 0 0 (nat (int BP_PAGE_SIZE - PAGENUMSIZE)))) s1;
                        (_, s3) = mark_dirty s2 ph;
                        (ret, _, s4) = unpin_page s3 ph
                    in (ret, s4))))"

section \<open>\<^verbatim>\<open>RecordFileScanner\<close>\<close>

text \<open>A \<^verbatim>\<open>ConditionFilter\<close> is an interface: any test on the record.\<close>

record RecordFileScanner =
  sc_pool :: bool
  sc_file_id :: int
  sc_filter :: "(DiskBufferPool \<Rightarrow> Record \<Rightarrow> bool) option"
  sc_page :: RecordPageHandler

definition RecordFileScanner_new :: RecordFileScanner where
  "RecordFileScanner_new =
     \<lparr>sc_pool = False, sc_file_id = - 1, sc_filter = None, sc_page = RecordPageHandler_new\<rparr>"

definition close_scan :: "RecordFileScanner \<Rightarrow> unit result \<times> RecordFileScanner" where
  "close_scan sc = (SUCCESS, sc\<lparr>sc_pool := False, sc_filter := None\<rparr>)"

definition open_scan ::
  "RecordFileScanner \<Rightarrow> int \<Rightarrow> (DiskBufferPool \<Rightarrow> Record \<Rightarrow> bool) option \<Rightarrow> unit result \<times> RecordFileScanner" where
  "open_scan sc file_id filt =
     (let (_, sc1) = close_scan sc
      in (SUCCESS, sc1\<lparr>sc_pool := True, sc_file_id := file_id, sc_filter := filt\<rparr>))"

text \<open>The loop of \<^verbatim>\<open>get_next_record\<close>; \<open>None\<close> when it runs forever (it would, on a file whose
  pages carry wrong page numbers).\<close>

definition next_page :: "Record \<Rightarrow> Record" where
  "next_page rec = rec\<lparr>rec_rid := \<lparr>rid_page = rid_page (rec_rid rec) + 1, rid_slot = - 1\<rparr>\<rparr>"

definition scan_fetch ::
  "DiskBufferPool \<Rightarrow> RecordPageHandler \<Rightarrow> int \<Rightarrow> Record \<Rightarrow> unit result \<times> RecordPageHandler \<times> DiskBufferPool" where
  "scan_fetch s h file_id cur =
     (if rid_page (rec_rid cur) \<noteq> rph_page_num s h
      then let (_, h1, s1) = rph_deinit s h in rph_init s1 h1 file_id (rid_page (rec_rid cur))
      else (SUCCESS, h, s))"

definition scan_accepts :: "DiskBufferPool \<Rightarrow> (DiskBufferPool \<Rightarrow> Record \<Rightarrow> bool) option \<Rightarrow> Record \<Rightarrow> bool" where
  "scan_accepts s filt rec = (case filt of None \<Rightarrow> True | Some p \<Rightarrow> p s rec)"

partial_function (option) scan_loop ::
  "int \<Rightarrow> int \<Rightarrow> (DiskBufferPool \<Rightarrow> Record \<Rightarrow> bool) option \<Rightarrow> unit result \<Rightarrow> Record \<Rightarrow>
   RecordPageHandler \<Rightarrow> DiskBufferPool \<Rightarrow>
   (unit result \<times> Record \<times> RecordPageHandler \<times> DiskBufferPool) option" where
  "scan_loop page_count file_id filt ret cur h s =
     (if rid_page (rec_rid cur) < page_count then
        let fetched = scan_fetch s h file_id cur;
            ret1 = fst fetched; h1 = fst (snd fetched); s1 = snd (snd fetched) in
        if ret1 = Inl BUFFERPOOL_INVALID_PAGE_NUM
        then scan_loop page_count file_id filt ret1 (next_page cur) h1 s1
        else if ret1 \<noteq> SUCCESS then Some (ret1, cur, h1, s1)
        else (case rph_get_next_record s1 h1 cur of
                Inr rec \<Rightarrow>
                  if scan_accepts s1 filt rec then Some (SUCCESS, rec, h1, s1)
                  else scan_loop page_count file_id filt SUCCESS rec h1 s1
              | Inl e \<Rightarrow>
                  if e = RECORD_EOF then scan_loop page_count file_id filt (Inl e) (next_page cur) h1 s1
                  else Some (Inl e, cur, h1, s1))
      else Some (ret, cur, h, s))"

definition scan_next_record ::
  "DiskBufferPool \<Rightarrow> RecordFileScanner \<Rightarrow> Record \<Rightarrow>
   (unit result \<times> Record \<times> RecordFileScanner \<times> DiskBufferPool) option" where
  "scan_next_record s sc rec =
     (if \<not> sc_pool sc then Some (Inl RECORD_CLOSED, rec, sc, s)
      else case get_page_count s (sc_file_id sc) of
             Inl e \<Rightarrow> Some (Inl RECORD_EOF, rec, sc, s)
           | Inr page_count \<Rightarrow>
               if page_count = 1 then Some (Inl RECORD_EOF, rec, sc, s)
               else map_option (\<lambda>(ret, cur, h, s1).
                      (ret, if ret = SUCCESS then cur else rec, sc\<lparr>sc_page := h\<rparr>, s1))
                    (scan_loop page_count (sc_file_id sc) (sc_filter sc) SUCCESS rec (sc_page sc) s))"

definition scan_first_record ::
  "DiskBufferPool \<Rightarrow> RecordFileScanner \<Rightarrow> Record \<Rightarrow>
   (unit result \<times> Record \<times> RecordFileScanner \<times> DiskBufferPool) option" where
  "scan_first_record s sc rec = scan_next_record s sc (rec\<lparr>rec_rid := \<lparr>rid_page = 1, rid_slot = - 1\<rparr>\<rparr>)"

end
