(* ===== verification/Record_Spec.thy ===== *)
theory Record_Spec
  imports Record_File
begin

text \<open>
  What the record manager promises, over the views of the buffer pool: each operation fetches the
  record's page, does what the operation on the page's map of records does, and gives the page
  back; every other page stays as it is.
\<close>

section \<open>Fetching and releasing a page\<close>

text \<open>A handler that holds page \<open>pn\<close> of an open file in frame \<open>f\<close>.\<close>

definition holds :: "DiskBufferPool \<Rightarrow> RecordPageHandler \<Rightarrow> int \<Rightarrow> int \<Rightarrow> nat \<Rightarrow> bool" where
  "holds s h fd pn f \<longleftrightarrow> rph_pool h \<and> ph_frame (rph_handle h) = Some f \<and> rph_header h = Some f \<and>
     get (bp_manager s) fd pn = Some f \<and> pin_count (frame_of s f) \<noteq> 0 \<and>
     (pin_count (frame_of s f) = 1 \<longrightarrow> synced s fd pn (frame_of s f))"

lemma rph_init_cases:
  assumes wf: "wf_pool {} s" and pins: "pins_ok s" and fh: "check_file_id s fid = Inr fh"
    and pn: "check_page_num s pn fh = SUCCESS" and h0: "\<not> rph_pool h0"
  obtains (NoMem) h where "rph_init s h0 fid pn = (Inl NOMEM, h, s)" "all_pinned s"
  | (Got) h s1 f where "rph_init s h0 fid pn = (SUCCESS, h, s1)" "wf_pool {} s1" "view s1 = view s"
      "holds s1 h (fh_desc fh) pn f" "view s (fh_desc fh) pn = Some (fdata s1 f)" "rph_file_id h = fid"
      "kept s s1" "pin_count (frame_of s1 f) =
        (case get (bp_manager s) (fh_desc fh) pn of Some g \<Rightarrow> pin_count (frame_of s g) + 1 | None \<Rightarrow> 1)"
proof (cases rule: get_this_page_cases [OF wf pins fh pn, of "rph_handle h0"])
  case 1
  then show ?thesis using NoMem h0 by (simp add: rph_init_def)
next
  case (2 ph s1)
  then obtain f where f: "ph_frame ph = Some f" "ph_open ph" "get (bp_manager s1) (fh_desc fh) pn = Some f"
      "pin_count (frame_of s1 f) \<noteq> 0" "view s (fh_desc fh) pn = Some (fdata s1 f)"
      "pin_count (frame_of s1 f) = 1 \<longrightarrow> synced s1 (fh_desc fh) pn (frame_of s1 f)"
      "pin_count (frame_of s1 f) =
        (case get (bp_manager s) (fh_desc fh) pn of Some g \<Rightarrow> pin_count (frame_of s g) + 1 | None \<Rightarrow> 1)"
    by (auto simp: page_delivered_def fdata_def)
  let ?h = "\<lparr>rph_pool = True, rph_file_id = fid, rph_handle = ph, rph_header = ph_frame ph\<rparr>"
  have "rph_init s h0 fid pn = (SUCCESS, ?h, s1)"
    using 2(1) f h0 by (simp add: rph_init_def get_data_def)
  moreover have "holds s1 ?h (fh_desc fh) pn f" using f by (simp add: holds_def)
  ultimately show ?thesis using Got [of ?h s1 f] 2 f(5,7) by simp
qed

lemma rph_deinit_ok:
  assumes wf: "wf_pool {} s" and h: "holds s h fd pn f" and pn: "pn \<noteq> 0"
  shows "\<exists>h' s'. rph_deinit s h = (SUCCESS, h', s') \<and> wf_pool {} s' \<and> view s' = view s \<and>
    \<not> rph_pool h' \<and> get (bp_manager s') = get (bp_manager s) \<and> open_file s' = open_file s \<and>
    frame_of s' f = (frame_of s f)\<lparr>pin_count := pin_count (frame_of s f) - 1\<rparr>"
proof -
  obtain s' where "unpin_page s (rph_handle h) = (SUCCESS, (rph_handle h)\<lparr>ph_open := False\<rparr>, s')"
      "wf_pool {} s'" "view s' = view s" "get (bp_manager s') = get (bp_manager s)" "open_file s' = open_file s"
      "frame_of s' f = (frame_of s f)\<lparr>pin_count := pin_count (frame_of s f) - 1\<rparr>"
    using unpin_page_ok [OF wf, of fd pn f "rph_handle h"] h pn by (auto simp: holds_def)
  then show ?thesis using h by (simp add: rph_deinit_def holds_def)
qed

text \<open>A store to the held page, marked dirty: the handler still holds the page.\<close>

lemma rph_store_ok:
  assumes wf: "wf_pool {} s" and h: "holds s h fd pn f" and pn: "pn \<noteq> 0"
  shows "\<exists>s'. rph_mark_dirty (upd_data f g s) h = (SUCCESS, s') \<and> wf_pool {} s' \<and> holds s' h fd pn f \<and>
    view s' = (view s)(fd := (view s fd)(pn \<mapsto> g (fdata s f))) \<and> fdata s' f = g (fdata s f) \<and>
    dirty (frame_of s' f) \<and> pin_count (frame_of s' f) = pin_count (frame_of s f)"
proof -
  have G: "get (bp_manager s) fd pn = Some f" "pin_count (frame_of s f) \<noteq> 0"
      "ph_frame (rph_handle h) = Some f" "rph_pool h" using h by (simp_all add: holds_def)
  note S = store_ok [OF wf G(1,2) pn, of g]
  have g2: "get (bp_manager (upd_data f g s)) fd pn = Some f" using G by (simp add: upd_data_def)
  obtain s' where s': "mark_dirty (upd_data f g s) (rph_handle h) = (SUCCESS, s')" "wf_pool {} s'"
      "view s' = view (upd_data f g s)" "get (bp_manager s') = get (bp_manager (upd_data f g s))"
      "frame_of s' f = (frame_of (upd_data f g s) f)\<lparr>dirty := True\<rparr>"
    using mark_dirty_ok [OF S(1) g2 G(3)] by blast
  have "holds s' h fd pn f" using s' S(3) g2 h by (simp add: holds_def synced_def)
  then show ?thesis using s' S G(4) by (auto simp: rph_mark_dirty_def fdata_def)
qed

lemma holds_frames: "holds s h fd pn f \<Longrightarrow> rph_frames h = Some (f, f)"
  by (simp add: holds_def rph_frames_def)

section \<open>The operations of a handler are those of its page\<close>

lemma rph_update_page:
  assumes wf: "wf_pool {} s" and h: "holds s h fd pn f" and pn: "pn \<noteq> 0"
  shows "case page_replace (rid_slot rid) src (fdata s f) of
      Inl e \<Rightarrow> rph_update_record s h rid src = (Inl e, s)
    | Inr d' \<Rightarrow> \<exists>s'. rph_update_record s h rid src = (SUCCESS, s') \<and> wf_pool {} s' \<and> holds s' h fd pn f \<and>
        view s' = (view s)(fd := (view s fd)(pn \<mapsto> d'))"
proof (cases "page_replace (rid_slot rid) src (fdata s f)")
  case (Inl e)
  then show ?thesis
    by (auto simp: rph_update_record_def holds_frames [OF h] page_replace_def Let_def split: if_splits)
next
  case (Inr d')
  let ?d = "fdata s f" and ?sl = "rid_slot rid"
  have g: "d' = memcpy ?d (nat (slot_offset ?d ?sl)) src 0 (nat (record_real_size ?d))"
    and c: "\<not> ?sl \<ge> record_capacity ?d" "\<not> ?sl < 0" "get_bit ?d (slot_map ?d) (nat ?sl)"
      "in_page (slot_offset ?d ?sl) (record_real_size ?d)"
    using Inr by (auto simp: page_replace_def split: if_splits)
  have "rph_update_record s h rid src = rph_mark_dirty (upd_data f (\<lambda>g. memcpy g
      (nat (slot_offset ?d ?sl)) src 0 (nat (record_real_size ?d))) s) h"
    using c by (simp add: rph_update_record_def holds_frames [OF h] Let_def)
  then show ?thesis using rph_store_ok [OF wf h pn] Inr g by auto
qed

lemma upd_data_twice: "upd_data f g (upd_data f g' s) = upd_data f (\<lambda>d. g (g' d)) s"
proof (cases "f < length (frames (bp_manager s))")
  case True
  then show ?thesis by (simp add: upd_data_def upd_frame_def)
next
  case False
  then show ?thesis by (simp add: upd_data_def upd_frame_def list_update_beyond)
qed

lemma rph_insert_page:
  assumes wf: "wf_pool {} s" and h: "holds s h fd pn f" and pn: "pn \<noteq> 0"
  shows "case page_insert src (fdata s f) of
      Inl e \<Rightarrow> fst (rph_insert_record s h src) = Inl e \<and> (e \<noteq> UB \<longrightarrow> snd (rph_insert_record s h src) = s)
    | Inr (i, d') \<Rightarrow> \<exists>s'. rph_insert_record s h src = (Inr \<lparr>rid_page = pn, rid_slot = i\<rparr>, s') \<and>
        wf_pool {} s' \<and> holds s' h fd pn f \<and> view s' = (view s)(fd := (view s fd)(pn \<mapsto> d'))"
proof -
  let ?d = "fdata s f"
  let ?i = "next_unsetted_bit ?d (slot_map ?d) 0"
  let ?g1 = "\<lambda>d. set_record_num (record_num d + 1) (set_bit d (slot_map d) (nat ?i))"
  let ?d1 = "?g1 ?d"
  let ?g2 = "\<lambda>g. memcpy g (nat (slot_offset ?d1 ?i)) src 0 (nat (record_real_size ?d1))"
  have b: "wf_bpm {} (bp_manager s)" using wf by (simp add: wf_pool_def)
  have fn: "f < length (frames (bp_manager s))" using wf_bpm_get [OF b] h by (auto simp: holds_def)
  have d1: "fdata (upd_data f ?g1 s) f = ?d1" using fn by (simp add: fdata_def upd_data_def)
  show ?thesis
  proof (cases "page_insert src ?d")
    case (Inl e)
    then show ?thesis
      using d1 by (auto simp: rph_insert_record_def holds_frames [OF h] page_insert_def Let_def split: if_splits)
  next
    case (Inr r)
    then have c: "record_num ?d \<noteq> record_capacity ?d" "\<not> ?i < 0"
        "in_page (slot_offset ?d1 ?i) (record_real_size ?d1)" and r: "r = (?i, ?g2 ?d1)"
      by (auto simp: page_insert_def Let_def split: if_splits)
    obtain s' where s': "rph_mark_dirty (upd_data f (\<lambda>d. ?g2 (?g1 d)) s) h = (SUCCESS, s')" "wf_pool {} s'"
        "holds s' h fd pn f" "view s' = (view s)(fd := (view s fd)(pn \<mapsto> ?g2 ?d1))"
      using rph_store_ok [OF wf h pn, of "\<lambda>d. ?g2 (?g1 d)"] by auto
    have "rph_page_num s' h = pn"
      using wf_bpm_get [of "{}" "bp_manager s'" fd pn f] s'(2,3)
      by (simp add: rph_page_num_def holds_def wf_pool_def)
    then have "rph_insert_record s h src = (Inr \<lparr>rid_page = pn, rid_slot = ?i\<rparr>, s')"
      using c s'(1) d1 by (simp add: rph_insert_record_def holds_frames [OF h] Let_def upd_data_twice)
    then show ?thesis using Inr r s' by simp
  qed
qed

lemma rph_delete_page:
  assumes wf: "wf_pool {} s" and h: "holds s h fd pn f" and pn: "pn \<noteq> 0"
    and d': "page_delete (rid_slot rid) (fdata s f) = Inr d'"
  shows "\<exists>s2. wf_pool {} s2 \<and> holds s2 h fd pn f \<and> view s2 = (view s)(fd := (view s fd)(pn \<mapsto> d')) \<and>
    fdata s2 f = d' \<and> dirty (frame_of s2 f) \<and> pin_count (frame_of s2 f) = pin_count (frame_of s f) \<and>
    open_file s2 = open_file s \<and>
    rph_delete_record s h rid =
      (if record_num d' = 0
       then let (_, h1, s3) = rph_deinit s2 h; (_, s4) = dispose_page s3 (rph_file_id h) pn
            in (SUCCESS, h1, s4)
       else (SUCCESS, h, s2))"
proof -
  let ?d = "fdata s f" and ?sl = "rid_slot rid"
  let ?g = "\<lambda>d. let d1 = clear_bit d (slot_map d) (nat ?sl) in set_record_num (record_num d1 - 1) d1"
  have c: "\<not> ?sl \<ge> record_capacity ?d" "\<not> ?sl < 0" "get_bit ?d (slot_map ?d) (nat ?sl)" and g: "d' = ?g ?d"
    using d' by (auto simp: page_delete_def Let_def split: if_splits)
  obtain s2 where s2: "rph_mark_dirty (upd_data f ?g s) h = (SUCCESS, s2)" "wf_pool {} s2" "holds s2 h fd pn f"
      "view s2 = (view s)(fd := (view s fd)(pn \<mapsto> ?g ?d))" "fdata s2 f = ?g ?d" "dirty (frame_of s2 f)"
      "pin_count (frame_of s2 f) = pin_count (frame_of s f)"
    using rph_store_ok [OF wf h pn, of ?g] by blast
  have p: "rph_page_num s2 h = pn"
    using wf_bpm_get [of "{}" "bp_manager s2" fd pn f] s2(2,3) by (simp add: rph_page_num_def holds_def wf_pool_def)
  have s2e: "s2 = upd_frame f (dirty_update (\<lambda>_. True)) (upd_data f ?g s)"
    using s2(1) h by (simp add: rph_mark_dirty_def mark_dirty_def holds_def)
  have "open_file s2 = open_file s" by (simp add: s2e upd_data_def)
  moreover have "rph_delete_record s h rid =
      (if record_num d' = 0
       then let (_, h1, s3) = rph_deinit s2 h; (_, s4) = dispose_page s3 (rph_file_id h) pn
            in (SUCCESS, h1, s4)
       else (SUCCESS, h, s2))"
    using c s2(1,5) p g by (simp add: rph_delete_record_def holds_frames [OF h] Let_def)
  ultimately show ?thesis using s2 g by auto
qed

section \<open>A small record file\<close>

text \<open>Page 1 of the example file, formatted for records of 3 bytes, with one and with two records.\<close>

definition demo_handler :: RecordPageHandler where
  "demo_handler = \<lparr>rph_pool = True, rph_file_id = 0, rph_handle = \<lparr>ph_open = True, ph_frame = Some 1\<rparr>,
     rph_header = Some 1\<rparr>"

definition demo_file :: RecordFileHandler where
  "demo_file = \<lparr>rfh_pool = True, rfh_file_id = 0, rfh_page = RecordPageHandler_new\<rparr>"

definition demo_open :: DiskBufferPool where
  "demo_open = snd (rph_mark_dirty (upd_data 1 (format_page 3) (pin_frame 1 pool4)) demo_handler)"

definition demo_one :: DiskBufferPool where
  "demo_one = snd (rph_insert_record demo_open demo_handler (\<lambda>_. 9))"

definition demo_two :: DiskBufferPool where
  "demo_two = snd (rph_insert_record demo_one demo_handler (\<lambda>_. 7))"

definition demo_close :: "DiskBufferPool \<Rightarrow> DiskBufferPool" where
  "demo_close s = snd (snd (rph_deinit s demo_handler))"

lemma insert_keeps:
  "g \<noteq> 1 \<Longrightarrow> frame_of (snd (rph_insert_record s demo_handler src)) g = frame_of s g"
  "length (frames (bp_manager (snd (rph_insert_record s demo_handler src)))) = length (frames (bp_manager s))"
  "open_file (snd (rph_insert_record s demo_handler src)) = open_file s"
  by (auto simp: rph_insert_record_def demo_handler_def rph_frames_def rph_mark_dirty_def mark_dirty_def
      upd_data_def upd_frame_def Let_def)

definition demo_state :: "DiskBufferPool \<Rightarrow> bytes \<Rightarrow> bool" where
  "demo_state s d \<longleftrightarrow> wf_pool {} s \<and> holds s demo_handler 0 1 1 \<and> view s 0 1 = Some d \<and>
     view s 0 0 = view pool4 0 0 \<and> open_file s = open_file pool4 \<and> length (frames (bp_manager s)) = 2 \<and>
     pin_count (frame_of s 0) = 1 \<and> pin_count (frame_of s 1) = 1"

lemma demo_open_state: "demo_state demo_open empty_page"
proof -
  note F = pool4_facts
  have l: "length (frames (bp_manager pool4)) = 2"
    by (simp add: pool4_def unpin_page_def pool3_facts [simplified] Let_def)
  have p0: "pin_count (frame_of pool4 0) = 1"
    using pool3_facts(12) by (simp add: pool4_def unpin_page_def Let_def pool3_facts [simplified])
  have pd: "data (page (frame_of pool4 1)) = data zero_page"
    using F(6) by simp
  note P = pin_frame_ok [OF F(1,3)] kept_pin_frame [OF F(1,3)]
  have h: "holds (pin_frame 1 pool4) demo_handler 0 1 1"
    using F l frames_okD [of pool4 0 1 1]
    by (simp add: holds_def demo_handler_def synced_def wf_pool_def)
  obtain s' where s': "rph_mark_dirty (upd_data 1 (format_page 3) (pin_frame 1 pool4)) demo_handler = (SUCCESS, s')"
      "wf_pool {} s'" "holds s' demo_handler 0 1 1"
      "view s' = (view (pin_frame 1 pool4))(0 := (view (pin_frame 1 pool4) 0)(1 \<mapsto> format_page 3 (fdata (pin_frame 1 pool4) 1)))"
      "pin_count (frame_of s' 1) = pin_count (frame_of (pin_frame 1 pool4) 1)"
    using rph_store_ok [OF _ h, of "format_page 3"] P(1) F(4) by auto
  have fd: "fdata (pin_frame 1 pool4) 1 = (\<lambda>_. 0)" using l pd by (simp add: fdata_def zero_page_def)
  have e: "demo_open = s'" using s'(1) by (simp add: demo_open_def)
  have "open_file demo_open = open_file pool4" "length (frames (bp_manager demo_open)) = 2"
      "pin_count (frame_of demo_open 0) = 1"
    using l p0 by (simp_all add: demo_open_def rph_mark_dirty_def demo_handler_def mark_dirty_def upd_data_def)
  then show ?thesis
    using s' P(2) F(4) l fd unfolding e by (simp add: demo_state_def empty_page_def)
qed

lemma demo_insert_state:
  assumes s: "demo_state s d" and i: "page_insert src d = Inr (i, d')"
  shows "demo_state (snd (rph_insert_record s demo_handler src)) d'"
proof -
  have h: "wf_pool {} s" "holds s demo_handler 0 1 1" and v: "view s 0 1 = Some d"
    using s by (simp_all add: demo_state_def)
  have d: "fdata s 1 = d" using h(2) v by (simp add: holds_def view_def fdata_def)
  obtain s' where s': "rph_insert_record s demo_handler src = (Inr \<lparr>rid_page = 1, rid_slot = i\<rparr>, s')"
      "wf_pool {} s'" "holds s' demo_handler 0 1 1" "view s' = (view s)(0 := (view s 0)(1 \<mapsto> d'))"
    using rph_insert_page [OF h, of src] i d by auto
  have "pin_count (frame_of s' 1) = 1"
    using s'(1) s d i h(2) by (auto simp: demo_state_def rph_insert_record_def holds_frames Let_def page_insert_def
        rph_mark_dirty_def mark_dirty_def demo_handler_def upd_data_def split: if_splits)
  then show ?thesis
    using s' s insert_keeps [where s = s and src = src] by (simp add: demo_state_def)
qed

section \<open>Properties\<close>

text \<open>The situation of the file operations: an open file, one of its allocated pages, formatted
  for records of \<open>rs\<close> bytes.\<close>

definition record_page ::
  "DiskBufferPool \<Rightarrow> RecordFileHandler \<Rightarrow> BPFileHandle \<Rightarrow> int \<Rightarrow> int \<Rightarrow> bytes \<Rightarrow> bool" where
  "record_page s rf fh pn rs d \<longleftrightarrow> wf_pool {} s \<and> pins_ok s \<and> rfh_pool rf \<and>
     check_file_id s (rfh_file_id rf) = Inr fh \<and> check_page_num s pn fh = SUCCESS \<and> pn \<noteq> 0 \<and>
     view s (fh_desc fh) pn = Some d \<and> wf_page rs d \<and> fits rs"

lemma record_pageD:
  assumes "record_page s rf fh pn rs d"
  shows "wf_pool {} s" "pins_ok s" "rfh_pool rf" "check_file_id s (rfh_file_id rf) = Inr fh"
    "check_page_num s pn fh = SUCCESS" "pn \<noteq> 0" "view s (fh_desc fh) pn = Some d" "wf_page rs d" "fits rs"
  using assms by (simp_all add: record_page_def)

lemma header_view:
  "wf_pool L s \<Longrightarrow> open_file s fid = Some fh \<Longrightarrow> view s (fh_desc fh) 0 = Some (hdr_data s fh)"
  using header_frame(2) [of L s fid fh] by (simp add: view_def)

text \<open>The checks depend on the open files and the header page only.\<close>

lemma checks_kept:
  assumes "wf_pool {} s" "wf_pool {} s'" "open_file s' = open_file s" "check_file_id s fid = Inr fh"
    and "view s' (fh_desc fh) 0 = view s (fh_desc fh) 0"
  shows "check_file_id s' fid = Inr fh" "check_page_num s' pn fh = check_page_num s pn fh"
proof -
  have o: "open_file s fid = Some fh" using assms(4) by (rule check_file_id_Inr)
  show "check_file_id s' fid = Inr fh" using assms(3,4) by (simp add: check_file_id_def split: if_splits)
  have "hdr_data s' fh = hdr_data s fh"
    using header_view [OF assms(1) o] header_view [OF assms(2), of fid fh] o assms(3,5) by simp
  then show "check_page_num s' pn fh = check_page_num s pn fh" by (simp add: check_page_num_def)
qed

lemma demo_record_page:
  assumes s: "demo_state s d" and d: "wf_page 3 d"
  shows "record_page (demo_close s) demo_file fh0 1 3 d" "\<not> all_pinned (demo_close s)"
    "get (bp_manager (demo_close s)) 0 1 = Some 1" "pin_count (frame_of (demo_close s) 1) = 0"
proof -
  have h: "wf_pool {} s" "holds s demo_handler 0 1 1" using s by (simp_all add: demo_state_def)
  obtain h' s' where s': "rph_deinit s demo_handler = (SUCCESS, h', s')" "wf_pool {} s'" "view s' = view s"
      "get (bp_manager s') = get (bp_manager s)" "open_file s' = open_file s"
      "frame_of s' 1 = (frame_of s 1)\<lparr>pin_count := pin_count (frame_of s 1) - 1\<rparr>"
    using rph_deinit_ok [OF h] by auto
  have e: "demo_close s = s'" by (simp add: demo_close_def s'(1))
  have l: "length (frames (bp_manager s)) = 2" using s by (simp add: demo_state_def)
  have p: "pin_count (frame_of s' 0) = 1" "length (frames (bp_manager s')) = 2"
    using s l e by (auto simp: demo_close_def rph_deinit_def demo_handler_def unpin_page_def Let_def demo_state_def)
  have p1: "pin_count (frame_of s' 1) = 0" using s'(6) s by (simp add: demo_state_def)
  then have pins: "pins_ok s'" using p by (auto simp: pins_ok_def in_set_conv_nth less_2_cases_iff)
  have v: "view s' (fh_desc fh0) 0 = view pool4 (fh_desc fh0) 0" "view s' 0 1 = Some d" "open_file s' = open_file pool4"
    using s s' by (simp_all add: demo_state_def pool2_file)
  have "check_page_num pool4 1 fh0 = SUCCESS" by (simp add: check_page_num_def pool4_facts int32_def)
  then have "check_file_id s' 0 = Inr fh0" "check_page_num s' 1 fh0 = SUCCESS"
    using checks_kept [OF pool4_facts(1) s'(2) v(3) pool4_facts(2) v(1)] by simp_all
  then show "record_page (demo_close s) demo_file fh0 1 3 d"
    using s'(2) pins v(2) d empty_page_ok(1) by (simp add: record_page_def e demo_file_def pool2_file)
  show "get (bp_manager (demo_close s)) 0 1 = Some 1" using h(2) s'(4) by (simp add: e holds_def)
  show "pin_count (frame_of (demo_close s) 1) = 0" using p1 by (simp add: e)
  show "\<not> all_pinned (demo_close s)"
  proof
    assume "all_pinned (demo_close s)"
    then have "pin_count (frame_of s' 1) \<noteq> 0" using p(2) by (simp add: all_pinned_def e)
    then show False using p1 by simp
  qed
qed

lemma demo_one_state: "demo_state demo_one sample_page"
  unfolding demo_one_def by (rule demo_insert_state [OF demo_open_state sample_page_ok(1)])

text \<open>The page with two records.\<close>

lemma demo_two_page:
  obtains d where "demo_state demo_two d" "wf_page 3 d" "record_num d = 2" "0 \<in> slots d"
proof -
  have sl: "slots sample_page = {0}"
    using sample_page_ok(3) by (auto simp: page_records_def fun_eq_iff split: if_splits)
  then have "record_num sample_page \<noteq> record_capacity sample_page"
    using sample_page_ok(2) by (simp add: wf_page_def cap_of_eq align8_def)
  then obtain i d where d: "page_insert (\<lambda>_. 7) sample_page = Inr (int i, d)" "wf_page 3 d"
      "i \<notin> dom (page_records sample_page)" "page_records d = (page_records sample_page)(i \<mapsto> record_of (nat 3) (\<lambda>_. 7))"
    by (rule page_insert_ok [OF sample_page_ok(2) empty_page_ok(1)])
  have i: "i \<noteq> 0" using d(3) sample_page_ok(3) by auto
  have "slots d = {0, i}"
    using d(4) sample_page_ok(3) by (auto simp: page_records_def fun_eq_iff split: if_splits)
  moreover from this have "record_num d = 2" using d(2) i by (simp add: wf_page_def)
  ultimately show ?thesis
    using that [of d] d(2) demo_insert_state [OF demo_one_state d(1)] by (simp add: demo_two_def)
qed

text \<open>C5: \<^verbatim>\<open>RecordFileHandler::update_record\<close> replaces the record in its page and changes nothing
  else, or reports why it cannot and changes nothing; the pool stays well formed and the page is
  given back.  When no frame is free it reports success without having updated anything: the
  failure of \<^verbatim>\<open>init\<close> is lost in \<^verbatim>\<open>(ret != init(...)) != RC::SUCCESS\<close>.\<close>

theorem rfh_update_record_correct:
  assumes P: "record_page s rf fh (rid_page rid) rs d"
    and c: "rfh_update_record s rf rid src = (r, s')"
  shows "wf_pool {} s' \<and>
    (all_pinned s \<and> r = SUCCESS \<and> s' = s \<or>
     (case page_replace (rid_slot rid) src d of
        Inl e \<Rightarrow> r = Inl e \<and> view s' = view s
      | Inr d' \<Rightarrow> r = SUCCESS \<and> view s' = (view s)(fh_desc fh := (view s (fh_desc fh))(rid_page rid \<mapsto> d'))))"
proof (cases rule: rph_init_cases [OF record_pageD(1,2,4,5) [OF P], of RecordPageHandler_new])
  case 1
  then show ?case by (simp add: RecordPageHandler_new_def)
next
  case (2 h)
  then show ?thesis using c record_pageD [OF P] by (simp add: rfh_update_record_def)
next
  case (3 h s1 f)
  note D = record_pageD [OF P]
  have d: "fdata s1 f = d" using 3(5) D(7) by simp
  obtain u s2 where u: "rph_update_record s1 h rid src = (u, s2)" by fastforce
  have U: "case page_replace (rid_slot rid) src d of
      Inl e \<Rightarrow> u = Inl e \<and> s2 = s1
    | Inr d' \<Rightarrow> u = SUCCESS \<and> wf_pool {} s2 \<and> holds s2 h (fh_desc fh) (rid_page rid) f \<and>
        view s2 = (view s1)(fh_desc fh := (view s1 (fh_desc fh))(rid_page rid \<mapsto> d'))"
    using rph_update_page [OF 3(2,4) D(6), of rid src] u d by (auto split: sum.splits)
  then have w2: "wf_pool {} s2" "holds s2 h (fh_desc fh) (rid_page rid) f"
    using 3(2,4) by (auto split: sum.splits)
  obtain h' s3 where d3: "rph_deinit s2 h = (SUCCESS, h', s3)" "wf_pool {} s3" "view s3 = view s2"
    using rph_deinit_ok [OF w2 D(6)] by blast
  have "r = u" "s' = s3" using c D(3) 3(1) u d3(1) by (simp_all add: rfh_update_record_def)
  then show ?thesis using U d3 3(3) by (auto split: sum.splits)
qed

theorem rfh_update_record_correct_witness:
  "\<exists>s' d'. rfh_update_record (demo_close demo_one) demo_file \<lparr>rid_page = 1, rid_slot = 0\<rparr> (\<lambda>_. 4) = (SUCCESS, s') \<and>
     view s' 0 1 = Some d' \<and> page_records d' = [0 \<mapsto> [4, 4, 4]]"
proof -
  note R = demo_record_page [OF demo_one_state sample_page_ok(2)]
  let ?rid = "\<lparr>rid_page = 1, rid_slot = 0\<rparr>"
  obtain r s' where c: "rfh_update_record (demo_close demo_one) demo_file ?rid (\<lambda>_. 4) = (r, s')" by fastforce
  have "0 \<in> slots sample_page" using sample_page_ok(3) by (auto simp: page_records_def fun_eq_iff split: if_splits)
  note W = slot_write_records [OF sample_page_ok(2) empty_page_ok(1) this refl, of "\<lambda>_. 4"]
  have "page_replace 0 (\<lambda>_. 4) sample_page = Inr (memcpy sample_page (slot_pos 3 0) (\<lambda>_. 4) 0 3)"
    using \<open>0 \<in> slots sample_page\<close> in_page_slot [OF sample_page_ok(2) empty_page_ok(1), of 0]
      slots_cap [OF sample_page_ok(2), of 0] slot_offset_pos [OF sample_page_ok(2) empty_page_ok(1), of 0] sample_page_ok(2)
    by (simp add: page_replace_def slots_def wf_page_def)
  then show ?thesis
    using rfh_update_record_correct [OF _ c, of fh0 3 sample_page] R c W(2) sample_page_ok(3)
    by (simp add: pool2_file record_of_def numeral_3_eq_3)
qed

text \<open>C7: \<^verbatim>\<open>RecordFileHandler::get_record\<close> of a record in use points the caller at exactly the
  record's bytes; a missing record is reported; nothing changes.  When no frame is free it reports
  success with the caller's record untouched.\<close>

theorem rfh_get_record_correct:
  assumes P: "record_page s rf fh (rid_page rid) rs d" and sl: "0 \<le> rid_slot rid"
    and c: "rfh_get_record s rf (Some rid) (Some rec) = (r, rec', s')"
  shows "wf_pool {} s' \<and> view s' = view s \<and>
    (all_pinned s \<and> r = SUCCESS \<and> rec' = Some rec \<and> s' = s \<or>
     (case page_records d (nat (rid_slot rid)) of
        Some bs \<Rightarrow> r = SUCCESS \<and> (\<exists>x. rec' = Some x \<and> rec_rid x = rid \<and> rec_bytes s' x (nat rs) = bs)
      | None \<Rightarrow> r = Inl (if cap_of rs \<le> rid_slot rid then RECORD_INVALIDRID else RECORD_RECORD_NOT_EXIST) \<and>
          rec' = Some rec))"
proof (cases rule: rph_init_cases [OF record_pageD(1,2,4,5) [OF P], of RecordPageHandler_new])
  case 1
  then show ?case by (simp add: RecordPageHandler_new_def)
next
  case (2 h)
  then show ?thesis using c record_pageD [OF P] by (simp add: rfh_get_record_def)
next
  case (3 h s1 f)
  note D = record_pageD [OF P]
  have d: "fdata s1 f = d" using 3(5) D(7) by simp
  obtain h' s3 where d3: "rph_deinit s1 h = (SUCCESS, h', s3)" "wf_pool {} s3" "view s3 = view s1"
      "frame_of s3 f = (frame_of s1 f)\<lparr>pin_count := pin_count (frame_of s1 f) - 1\<rparr>"
    using rph_deinit_ok [OF 3(2,4) D(6)] by blast
  let ?i = "nat (rid_slot rid)"
  have i: "int ?i = rid_slot rid" using sl by simp
  note G = page_get_ok [OF D(8,9), of ?i, unfolded i]
  have e: "(r, rec', s') = (case page_get (rid_slot rid) d of Inl e \<Rightarrow> (Inl e, Some rec, s3)
      | Inr off \<Rightarrow> (SUCCESS, Some \<lparr>rec_rid = rid, rec_frame = f, rec_off = off\<rparr>, s3))"
    using c D(3) 3(1) d3(1) by (auto simp: rfh_get_record_def rph_get_record_def holds_frames [OF 3(4)] d split: sum.splits)
  show ?thesis
  proof (cases "page_records d ?i")
    case None
    then have "?i \<notin> slots d" by (auto simp: page_records_def)
    then show ?thesis using None e G(1) d3 3(3) by auto
  next
    case (Some bs)
    then have m: "?i \<in> slots d" by (auto simp: page_records_def split: if_splits)
    then have "page_get (rid_slot rid) d = Inr (int (slot_pos rs ?i))"
      using G(1) slots_cap [OF D(8) m] i by simp
    moreover have "fdata s3 f = d" using d3(4) d by (simp add: fdata_def)
    ultimately show ?thesis using Some e G(2) [OF Some] d3 3(3) by (auto simp: rec_bytes_def)
  qed
qed

definition blank_record :: Record where
  "blank_record = \<lparr>rec_rid = \<lparr>rid_page = 0, rid_slot = 0\<rparr>, rec_frame = 0, rec_off = 0\<rparr>"

theorem rfh_get_record_correct_witness:
  "\<exists>x s'. rfh_get_record (demo_close demo_one) demo_file (Some \<lparr>rid_page = 1, rid_slot = 0\<rparr>) (Some blank_record) =
     (SUCCESS, Some x, s') \<and> rec_bytes s' x 3 = [9, 9, 9]"
proof -
  note R = demo_record_page [OF demo_one_state sample_page_ok(2)]
  obtain r rec' s' where c: "rfh_get_record (demo_close demo_one) demo_file
      (Some \<lparr>rid_page = 1, rid_slot = 0\<rparr>) (Some blank_record) = (r, rec', s')" by (metis prod_cases3)
  from rfh_get_record_correct [OF _ _ c, of fh0 3 sample_page] R c sample_page_ok(3) show ?thesis by auto
qed

text \<open>C6: \<^verbatim>\<open>RecordFileHandler::delete_record\<close> on a page with other records removes the record from
  its page and changes nothing else; an empty slot is reported and nothing changes; the pool stays
  well formed and the page is given back.  When no frame is free it reports success without having
  deleted anything.\<close>

theorem rfh_delete_record_correct:
  assumes P: "record_page s rf fh (rid_page rid) rs d" and many: "1 < record_num d"
    and c: "rfh_delete_record s rf rid = (r, s')"
  shows "wf_pool {} s' \<and>
    (all_pinned s \<and> r = SUCCESS \<and> s' = s \<or>
     (case page_delete (rid_slot rid) d of
        Inl e \<Rightarrow> r = Inl e \<and> view s' = view s
      | Inr d' \<Rightarrow> r = SUCCESS \<and> view s' = (view s)(fh_desc fh := (view s (fh_desc fh))(rid_page rid \<mapsto> d'))))"
proof (cases rule: rph_init_cases [OF record_pageD(1,2,4,5) [OF P], of RecordPageHandler_new])
  case 1
  then show ?case by (simp add: RecordPageHandler_new_def)
next
  case (2 h)
  then show ?thesis using c record_pageD [OF P] by (simp add: rfh_delete_record_def)
next
  case (3 h s1 f)
  note D = record_pageD [OF P]
  have d: "fdata s1 f = d" using 3(5) D(7) by simp
  have D1: "\<exists>h' s3. rph_deinit s2 h = (SUCCESS, h', s3) \<and> wf_pool {} s3 \<and> view s3 = view s2"
    if "wf_pool {} s2" "holds s2 h (fh_desc fh) (rid_page rid) f" for s2
    using rph_deinit_ok [OF that D(6)] by blast
  show ?thesis
  proof (cases "page_delete (rid_slot rid) d")
    case (Inl e)
    then have "rph_delete_record s1 h rid = (Inl e, h, s1)"
      using d by (auto simp: rph_delete_record_def holds_frames [OF 3(4)] page_delete_def Let_def split: if_splits)
    then show ?thesis using D1 [OF 3(2,4)] c D(3) 3(1,3) Inl by (auto simp: rfh_delete_record_def)
  next
    case (Inr d')
    have i: "nat (rid_slot rid) \<in> slots d" "0 \<le> rid_slot rid"
      using Inr by (auto simp: page_delete_def slots_def split: if_splits)
    have "record_num d' = record_num d - 1"
      using i(2) Inr by (rule_tac page_delete_ok [OF D(8,9) i(1)]) simp
    then have "record_num d' \<noteq> 0" using many by simp
    then obtain s2 where s2: "wf_pool {} s2" "holds s2 h (fh_desc fh) (rid_page rid) f"
        "view s2 = (view s1)(fh_desc fh := (view s1 (fh_desc fh))(rid_page rid \<mapsto> d'))"
        "rph_delete_record s1 h rid = (SUCCESS, h, s2)"
      using rph_delete_page [OF 3(2,4) D(6), of rid d'] Inr d by auto
    then show ?thesis using D1 [OF s2(1,2)] c D(3) 3(1,3) Inr by (auto simp: rfh_delete_record_def)
  qed
qed

theorem rfh_delete_record_correct_witness:
  "\<exists>s' d'. rfh_delete_record (demo_close demo_two) demo_file \<lparr>rid_page = 1, rid_slot = 0\<rparr> = (SUCCESS, s') \<and>
     wf_pool {} s' \<and> view s' 0 1 = Some d' \<and> page_records d' 0 = None"
proof -
  obtain d where d: "demo_state demo_two d" "wf_page 3 d" "record_num d = 2" "0 \<in> slots d"
    by (rule demo_two_page)
  note R = demo_record_page [OF d(1,2)]
  obtain d' where d': "page_delete 0 d = Inr d'" "page_records d' = (page_records d)(0 := None)"
    by (rule page_delete_ok [OF d(2) empty_page_ok(1) d(4)]) simp
  obtain r s' where c: "rfh_delete_record (demo_close demo_two) demo_file \<lparr>rid_page = 1, rid_slot = 0\<rparr> = (r, s')"
    by fastforce
  from rfh_delete_record_correct [OF _ _ c, of fh0 3 d] R c d(3) d' show ?thesis by (simp add: pool2_file)
qed

text \<open>Deleting the only record of a page that nobody else has pinned disposes the page while its
  frame is dirty, so the pool is left with a dirty frame in its free list: its next use for another
  page first writes the deleted page back to disk.\<close>

theorem rfh_delete_last_record:
  assumes P: "record_page s rf fh (rid_page rid) rs d" and one: "record_num d = 1"
    and del: "0 \<le> rid_slot rid" "page_records d (nat (rid_slot rid)) \<noteq> None"
    and room: "\<not> all_pinned s"
    and np: "\<And>f. get (bp_manager s) (fh_desc fh) (rid_page rid) = Some f \<Longrightarrow> pin_count (frame_of s f) = 0"
    and c: "rfh_delete_record s rf rid = (r, s')"
  shows "r = SUCCESS \<and> \<not> wf_pool {} s'"
proof (cases rule: rph_init_cases [OF record_pageD(1,2,4,5) [OF P], of RecordPageHandler_new])
  case 1
  then show ?case by (simp add: RecordPageHandler_new_def)
next
  case (2 h)
  then show ?thesis using room by simp
next
  case (3 h s1 f)
  note D = record_pageD [OF P]
  let ?fd = "fh_desc fh" and ?pn = "rid_page rid"
  have d: "fdata s1 f = d" using 3(5) D(7) by simp
  have p1: "pin_count (frame_of s1 f) = 1" using 3(8) np by (auto split: option.splits)
  have i: "nat (rid_slot rid) \<in> slots d" using del(2) by (auto simp: page_records_def split: if_splits)
  obtain d' where d': "page_delete (rid_slot rid) d = Inr d'" "record_num d' = 0"
    using del(1) one by (rule_tac page_delete_ok [OF D(8,9) i]) simp
  obtain s2 where s2: "wf_pool {} s2" "holds s2 h ?fd ?pn f"
      "view s2 = (view s1)(?fd := (view s1 ?fd)(?pn \<mapsto> d'))" "dirty (frame_of s2 f)"
      "pin_count (frame_of s2 f) = 1" "open_file s2 = open_file s1"
      "rph_delete_record s1 h rid = (let (_, h1, s3) = rph_deinit s2 h;
         (_, s4) = dispose_page s3 (rph_file_id h) ?pn in (SUCCESS, h1, s4))"
    using rph_delete_page [OF 3(2,4) D(6), of rid d'] d' d p1 by auto
  obtain h' s3 where s3: "rph_deinit s2 h = (SUCCESS, h', s3)" "wf_pool {} s3" "view s3 = view s2" "\<not> rph_pool h'"
      "get (bp_manager s3) = get (bp_manager s2)" "open_file s3 = open_file s2"
      "frame_of s3 f = (frame_of s2 f)\<lparr>pin_count := pin_count (frame_of s2 f) - 1\<rparr>"
    using rph_deinit_ok [OF s2(1,2) D(6)] by blast
  have "open_file s3 = open_file s" using s2(6) s3(6) 3(7) by (simp add: kept_def)
  moreover have "view s3 ?fd 0 = view s ?fd 0" using s3(3) s2(3) 3(3) D(6) by simp
  ultimately have C: "check_file_id s3 (rfh_file_id rf) = Inr fh" "check_page_num s3 ?pn fh = SUCCESS"
    using checks_kept [OF D(1) s3(2) _ D(4)] D(5) by simp_all
  have g3: "get (bp_manager s3) ?fd ?pn = Some f" using s3(5) s2(2) by (simp add: holds_def)
  obtain s4 where "dispose_page s3 (rfh_file_id rf) ?pn = (SUCCESS, s4)" "\<not> wf_pool {} s4"
    using dispose_dirty [OF s3(2) C g3] s3(7) s2(4,5) by auto
  moreover have "rph_file_id h = rfh_file_id rf" using 3(6) .
  ultimately show ?thesis
    using c D(3) 3(1) s2(7) s3(1,4) by (auto simp: rfh_delete_record_def rph_deinit_def)
qed

theorem rfh_delete_last_record_witness:
  "\<exists>s'. rfh_delete_record (demo_close demo_one) demo_file \<lparr>rid_page = 1, rid_slot = 0\<rparr> = (SUCCESS, s') \<and> \<not> wf_pool {} s'"
proof -
  note R = demo_record_page [OF demo_one_state sample_page_ok(2)]
  have "slots sample_page = {0}"
    using sample_page_ok(3) by (auto simp: page_records_def fun_eq_iff split: if_splits)
  then have one: "record_num sample_page = 1" using sample_page_ok(2) by (simp add: wf_page_def)
  obtain r s' where c: "rfh_delete_record (demo_close demo_one) demo_file \<lparr>rid_page = 1, rid_slot = 0\<rparr> = (r, s')"
    by fastforce
  from rfh_delete_last_record [OF _ one _ _ R(2) _ c, of fh0 3] R c sample_page_ok(3)
  show ?thesis by (auto simp: pool2_file)
qed

end
