(* ===== verification/Key_Compare.thy ===== *)
theory Key_Compare
  imports Record_File Complex_Main "HOL-Library.Product_Lexorder"
begin

text \<open>
  The comparison of index keys of \<^verbatim>\<open>src/src/observer/storage/common/bplus_tree.cpp\<close>
  (\<^verbatim>\<open>float_compare\<close>, \<^verbatim>\<open>CmpRid\<close>, \<^verbatim>\<open>CompareKey\<close>, \<^verbatim>\<open>CmpKey\<close>,
  \<^verbatim>\<open>satisfy_condition\<close>).  A key is the bytes of an attribute followed by the eight bytes of
  a \<^verbatim>\<open>RID\<close>.  \<open>key_order\<close> is what the tree needs of a comparison; it holds for every attribute
  type but \<^verbatim>\<open>FLOATS\<close>.
\<close>

section \<open>Types\<close>

datatype AttrType = UNDEFINED | CHARS | INTS | DATES | TEXTS | FLOATS

datatype CompOp = EQUAL_TO | LESS_EQUAL | NOT_EQUAL | LESS_THAN | GREAT_EQUAL | GREAT_THAN
  | IS | IS_NOT | IN_OP | NOT_IN_OP | NO_OP

type_synonym key = "byte list"

definition key_bytes :: "key \<Rightarrow> bytes" where
  "key_bytes k = (\<lambda>i. if i < length k then k ! i else 0)"

text \<open>A \<^verbatim>\<open>RID\<close> in memory: two \<^verbatim>\<open>int\<close>s.\<close>

definition get_rid :: "bytes \<Rightarrow> nat \<Rightarrow> RID" where
  "get_rid d a = \<lparr>rid_page = get_int d a, rid_slot = get_int d (a + 4)\<rparr>"

definition put_rid :: "bytes \<Rightarrow> nat \<Rightarrow> RID \<Rightarrow> bytes" where
  "put_rid d a r = put_int (put_int d a (rid_page r)) (a + 4) (rid_slot r)"

definition rid_bytes :: "RID \<Rightarrow> byte list" where
  "rid_bytes r = map (put_rid (\<lambda>_. 0) 0 r) [0..<8]"

section \<open>Comparisons\<close>

text \<open>
  A \<^verbatim>\<open>float\<close> is read as the rational number its 32 bits stand for (infinities and NaNs, which
  the SQL front end cannot produce, are read as if the exponent range went on).  \<^verbatim>\<open>f1 - f2\<close> is
  the exact difference rounded to a float, and the rounded difference is below \<^verbatim>\<open>1e-6\<close> exactly
  when the difference is below \<open>float_eps\<close>, the middle between the floats on both sides of
  \<^verbatim>\<open>1e-6\<close> (the lower one has an odd significand, so the middle itself rounds up).
\<close>

definition float_val :: "32 word \<Rightarrow> rat" where
  "float_val w =
     (let m = unat (take_bit 23 w); e = unat (take_bit 8 (drop_bit 23 w));
          v = (if e = 0 then of_nat m / 2 ^ 149
               else if e < 150 then of_nat (2 ^ 23 + m) / 2 ^ (150 - e)
               else of_nat (2 ^ 23 + m) * 2 ^ (e - 150))
      in if bit w 31 then - v else v)"

definition float_eps :: rat where
  "float_eps = 17592187 / 17592186044416"

definition float_compare :: "rat \<Rightarrow> rat \<Rightarrow> int" where
  "float_compare f1 f2 =
     (let result = f1 - f2 in
      if result < float_eps \<and> result > - float_eps then 0 else if result > 0 then 1 else - 1)"

definition CmpRid :: "RID \<Rightarrow> RID \<Rightarrow> int" where
  "CmpRid r1 r2 =
     (if rid_page r1 > rid_page r2 then 1
      else if rid_page r1 < rid_page r2 then - 1
      else if rid_slot r1 > rid_slot r2 then 1
      else if rid_slot r1 < rid_slot r2 then - 1
      else 0)"

text \<open>\<^verbatim>\<open>strncmp\<close>: bytes compared as unsigned numbers up to the first difference, the first zero
  byte or the \<open>n\<close>-th byte.\<close>

fun strncmp :: "byte list \<Rightarrow> byte list \<Rightarrow> nat \<Rightarrow> int" where
  "strncmp xs ys 0 = 0"
| "strncmp xs ys (Suc n) =
     (let x = (case xs of [] \<Rightarrow> 0 | b # _ \<Rightarrow> b); y = (case ys of [] \<Rightarrow> 0 | b # _ \<Rightarrow> b) in
      if x < y then - 1 else if y < x then 1
      else if x = 0 then 0 else strncmp (tl xs) (tl ys) n)"

text \<open>\<open>- 2\<close> is the result for an unknown attribute type, after the panic log.\<close>

definition CompareKey :: "key \<Rightarrow> key \<Rightarrow> AttrType \<Rightarrow> nat \<Rightarrow> int" where
  "CompareKey pdata pkey attr_type attr_length =
     (case attr_type of
        INTS \<Rightarrow>
          let i1 = get_int (key_bytes pdata) 0; i2 = get_int (key_bytes pkey) 0
          in if i1 > i2 then 1 else if i1 < i2 then - 1 else 0
      | FLOATS \<Rightarrow> float_compare (float_val (get32 (key_bytes pdata) 0)) (float_val (get32 (key_bytes pkey) 0))
      | CHARS \<Rightarrow> strncmp pdata pkey attr_length
      | DATES \<Rightarrow> strncmp pdata pkey attr_length
      | _ \<Rightarrow> - 2)"

definition CmpKey :: "AttrType \<Rightarrow> nat \<Rightarrow> key \<Rightarrow> key \<Rightarrow> int" where
  "CmpKey attr_type attr_length pdata pkey =
     (let result = CompareKey pdata pkey attr_type attr_length in
      if 0 \<noteq> result then result
      else CmpRid (get_rid (key_bytes pdata) attr_length) (get_rid (key_bytes pkey) attr_length))"

text \<open>\<^verbatim>\<open>BplusTreeScanner::satisfy_condition\<close>; the combinations that only log a panic give
  \<^verbatim>\<open>false\<close>.  For floats \<^verbatim>\<open>==\<close> and \<^verbatim>\<open>!=\<close> are taken up to \<^verbatim>\<open>1e-6\<close>, the others exactly.\<close>

definition satisfy_condition :: "AttrType \<Rightarrow> nat \<Rightarrow> CompOp \<Rightarrow> key \<Rightarrow> key \<Rightarrow> bool" where
  "satisfy_condition attr_type attr_length comp_op pkey val =
     (if comp_op = NO_OP then True
      else
        let i1 = get_int (key_bytes pkey) 0; i2 = get_int (key_bytes val) 0;
            f1 = float_val (get32 (key_bytes pkey) 0); f2 = float_val (get32 (key_bytes val) 0);
            s = strncmp pkey val attr_length;
            test = (\<lambda>(ri, rf, rs). case attr_type of
                      INTS \<Rightarrow> ri | FLOATS \<Rightarrow> rf | CHARS \<Rightarrow> rs | DATES \<Rightarrow> rs | _ \<Rightarrow> False)
        in (case comp_op of
              EQUAL_TO \<Rightarrow> test (i1 = i2, float_compare f1 f2 = 0, s = 0)
            | LESS_THAN \<Rightarrow> test (i1 < i2, f1 < f2, s < 0)
            | GREAT_THAN \<Rightarrow> test (i1 > i2, f1 > f2, s > 0)
            | LESS_EQUAL \<Rightarrow> test (i1 \<le> i2, f1 \<le> f2, s \<le> 0)
            | GREAT_EQUAL \<Rightarrow> test (i1 \<ge> i2, f1 \<ge> f2, s \<ge> 0)
            | NOT_EQUAL \<Rightarrow> test (i1 \<noteq> i2, float_compare f1 f2 \<noteq> 0, s \<noteq> 0)
            | _ \<Rightarrow> False))"

section \<open>What the tree needs of a comparison\<close>

locale key_order =
  fixes cmp :: "'k \<Rightarrow> 'k \<Rightarrow> int"
  assumes cmp_refl: "cmp x x = 0"
    and cmp_flip: "cmp x y < 0 \<longleftrightarrow> cmp y x > 0"
    and cmp_trans: "cmp x y \<le> 0 \<Longrightarrow> cmp y z \<le> 0 \<Longrightarrow> cmp x z \<le> 0"
begin

definition lt :: "'k \<Rightarrow> 'k \<Rightarrow> bool" where
  "lt x y \<longleftrightarrow> cmp x y < 0"

definition sorted_keys :: "'k list \<Rightarrow> bool" where
  "sorted_keys ks \<longleftrightarrow> sorted_wrt lt ks"

lemma cmp_zero_sym: "cmp x y = 0 \<longleftrightarrow> cmp y x = 0"
  using cmp_flip [of x y] cmp_flip [of y x] by linarith

lemma not_lt: "\<not> lt x y \<longleftrightarrow> cmp y x \<le> 0"
  using cmp_flip [of x y] cmp_zero_sym [of x y] unfolding lt_def by linarith

lemma lt_irrefl: "\<not> lt x x"
  by (simp add: lt_def cmp_refl)

lemma le_lt_trans: "cmp x y \<le> 0 \<Longrightarrow> lt y z \<Longrightarrow> lt x z"
  using cmp_trans [of z x y] not_lt [of x z] not_lt [of y z] by (auto simp: lt_def)

lemma lt_le_trans: "lt x y \<Longrightarrow> cmp y z \<le> 0 \<Longrightarrow> lt x z"
  using cmp_trans [of y z x] not_lt [of x z] not_lt [of x y] by (auto simp: lt_def)

lemma lt_trans: "lt x y \<Longrightarrow> lt y z \<Longrightarrow> lt x z"
  using le_lt_trans [of x y z] by (simp add: lt_def)

lemma zero_trans: "cmp x y = 0 \<Longrightarrow> cmp y z = 0 \<Longrightarrow> cmp x z = 0"
  using cmp_trans [of x y z] cmp_trans [of z y x] cmp_zero_sym [of x y] cmp_zero_sym [of y z]
    cmp_flip [of x z] by linarith

end

section \<open>The comparisons that have it\<close>

lemma int_compare_order:
  "key_order (\<lambda>x y. let i1 = f x; i2 = f y in if i1 > i2 then 1 else if i1 < i2 then - 1 else 0 :: int)"
  for f :: "'k \<Rightarrow> int"
  by unfold_locales (auto simp: Let_def split: if_splits)

lemma CmpRid_order: "key_order (\<lambda>x y. CmpRid (f x) (f y))"
  by unfold_locales (auto simp: CmpRid_def split: if_splits)

lemma strncmp_refl: "strncmp xs xs n = 0"
  by (induction n arbitrary: xs) (auto simp: Let_def)

lemma strncmp_flip: "strncmp xs ys n < 0 \<longleftrightarrow> strncmp ys xs n > 0"
  by (induction n arbitrary: xs ys) (auto simp: Let_def)

lemma strncmp_trans: "strncmp xs ys n \<le> 0 \<Longrightarrow> strncmp ys zs n \<le> 0 \<Longrightarrow> strncmp xs zs n \<le> 0"
proof (induction n arbitrary: xs ys zs)
  case (Suc n)
  define hd0 :: "byte list \<Rightarrow> byte" where "hd0 = (\<lambda>xs. case xs of [] \<Rightarrow> 0 | b # _ \<Rightarrow> b)"
  have step: "strncmp us vs (Suc n) \<le> 0 \<longleftrightarrow> hd0 us < hd0 vs \<or>
      hd0 us = hd0 vs \<and> (hd0 us = 0 \<or> strncmp (tl us) (tl vs) n \<le> 0)" for us vs
    by (auto simp: Let_def hd0_def)
  show ?case
    using Suc.prems Suc.IH [of "tl xs" "tl ys" "tl zs"] unfolding step by auto
qed simp

lemma strncmp_order: "key_order (\<lambda>x y. strncmp x y n)"
  by unfold_locales (auto simp: strncmp_refl strncmp_flip intro: strncmp_trans)

lemma lex_order:
  assumes "key_order c1" "key_order c2"
  shows "key_order (\<lambda>x y. if 0 \<noteq> c1 x y then c1 x y else c2 x y)"
proof
  fix x y z
  note l1 = key_order.le_lt_trans [OF assms(1), unfolded key_order.lt_def [OF assms(1)]]
    and l2 = key_order.lt_le_trans [OF assms(1), unfolded key_order.lt_def [OF assms(1)]]
    and zs = key_order.cmp_zero_sym [OF assms(1)]
  show "(if 0 \<noteq> c1 x x then c1 x x else c2 x x) = 0"
    using key_order.cmp_refl [OF assms(1)] key_order.cmp_refl [OF assms(2)] by simp
  show "((if 0 \<noteq> c1 x y then c1 x y else c2 x y) < 0) = (0 < (if 0 \<noteq> c1 y x then c1 y x else c2 y x))"
    using key_order.cmp_flip [OF assms(1), of x y] key_order.cmp_flip [OF assms(2), of x y] zs [of x y] by auto
  assume a: "(if 0 \<noteq> c1 x y then c1 x y else c2 x y) \<le> 0" "(if 0 \<noteq> c1 y z then c1 y z else c2 y z) \<le> 0"
  show "(if 0 \<noteq> c1 x z then c1 x z else c2 x z) \<le> 0"
  proof (cases "c1 x y = 0 \<and> c1 y z = 0")
    case True
    then show ?thesis
      using a key_order.zero_trans [OF assms(1), of x y z] key_order.cmp_trans [OF assms(2), of x y z] by simp
  next
    case False
    then have "c1 x z < 0" using a l1 [of x y z] l2 [of x y z] by (auto split: if_splits)
    then show ?thesis by simp
  qed
qed

lemma CmpKey_order:
  assumes "t \<in> {INTS, CHARS, DATES}"
  shows "key_order (CmpKey t n)"
proof -
  have "key_order (\<lambda>x y. CompareKey x y t n)"
    using assms int_compare_order [of "\<lambda>k. get_int (key_bytes k) 0"] strncmp_order [of n]
    by (auto simp: CompareKey_def)
  from lex_order [OF this CmpRid_order [of "\<lambda>k. get_rid (key_bytes k) n"]]
  show ?thesis by (simp add: CmpKey_def [abs_def] Let_def)
qed

interpretation int_keys: key_order "CmpKey INTS n" for n
  by (rule CmpKey_order) simp

interpretation char_keys: key_order "CmpKey CHARS n" for n
  by (rule CmpKey_order) simp

interpretation date_keys: key_order "CmpKey DATES n" for n
  by (rule CmpKey_order) simp

section \<open>Properties\<close>

text \<open>C22: for \<^verbatim>\<open>INTS\<close>, \<^verbatim>\<open>CHARS\<close> and \<^verbatim>\<open>DATES\<close> attributes \<^verbatim>\<open>CmpKey\<close> is a comparison the
  tree can rely on: reflexive, antisymmetric in its sign and transitive.\<close>

theorem CmpKey_total_order:
  assumes "t \<in> {INTS, CHARS, DATES}"
  shows "CmpKey t n x x = 0 \<and> (CmpKey t n x y < 0 \<longleftrightarrow> CmpKey t n y x > 0) \<and>
    (CmpKey t n x y \<le> 0 \<longrightarrow> CmpKey t n y z \<le> 0 \<longrightarrow> CmpKey t n x z \<le> 0)"
  using CmpKey_order [OF assms, of n] unfolding key_order_def by blast

theorem CmpKey_total_order_witness:
  "CmpKey CHARS 1 [97] [98] \<le> 0 \<and> CmpKey CHARS 1 [98] [99] \<le> 0 \<and> CmpKey CHARS 1 [97] [99] \<le> 0"
proof -
  have "CmpKey CHARS 1 [97] [98] \<le> 0" "CmpKey CHARS 1 [98] [99] \<le> 0"
    by (simp_all add: CmpKey_def CompareKey_def)
  then show ?thesis using CmpKey_total_order [of CHARS 1 "[97]" "[98]" "[99]"] by simp
qed

lemma float_val_numeral:
  "float_val w = (let u = unat w; m = u mod 2 ^ 23; e = u div 2 ^ 23 mod 2 ^ 8;
          v = (if e = 0 then of_nat m / 2 ^ 149
               else if e < 150 then of_nat (2 ^ 23 + m) / 2 ^ (150 - e)
               else of_nat (2 ^ 23 + m) * 2 ^ (e - 150))
      in if odd (u div 2 ^ 31) then - v else v)"
proof -
  have "unat (take_bit 23 w) = unat w mod 2 ^ 23"
    by (subst unsigned_take_bit_eq) (simp add: take_bit_eq_mod)
  moreover have "unat (take_bit 8 (drop_bit 23 w)) = unat w div 2 ^ 23 mod 2 ^ 8"
    by (subst unsigned_take_bit_eq, subst unat_drop_bit_eq) (simp add: take_bit_eq_mod drop_bit_eq_div)
  moreover have "bit w 31 = odd (unat w div 2 ^ 31)"
    using bit_unsigned_iff [of w 31, where 'a = nat] by (simp add: bit_iff_odd)
  ultimately show ?thesis by (simp only: float_val_def Let_def)
qed

text \<open>For \<^verbatim>\<open>FLOATS\<close> it is not: with the tolerance of \<^verbatim>\<open>float_compare\<close>, three floats can
  be pairwise equal to their neighbour and yet the first is less than the last.  The order of the
  keys in an index on such a column is then not defined.\<close>

theorem float_compare_not_transitive:
  "float_compare (float_val 0) (float_val 891359152) = 0 \<and>
   float_compare (float_val 891359152) (float_val 899747760) = 0 \<and>
   float_compare (float_val 0) (float_val 899747760) < 0"
  by (simp add: float_val_numeral float_compare_def float_eps_def Let_def)

end
