(* ===== verification/Table_Meta.thy ===== *)
theory Table_Meta
  imports Key_Compare
begin

text \<open>
  \<^verbatim>\<open>FieldMeta\<close>, \<^verbatim>\<open>IndexMeta\<close> and \<^verbatim>\<open>TableMeta\<close>
  (\<^verbatim>\<open>src/src/observer/storage/common/{field,index,table}_meta.cpp\<close>): the columns of a table,
  where each of them lies in a record, and the lookups by name and by offset.  Names are
  \<^verbatim>\<open>std::string\<close>s without zero bytes, so \<^verbatim>\<open>strcmp\<close> on them is equality; a null
  \<^verbatim>\<open>const char *\<close> is \<open>None\<close>.  The conversion to and from JSON is the work of a third-party
  library and is not modelled.
\<close>

section \<open>\<^verbatim>\<open>FieldMeta\<close>\<close>

definition ATTR_TYPE_NAME :: "(AttrType \<times> string) list" where
  "ATTR_TYPE_NAME =
     [(UNDEFINED, ''undefined''), (CHARS, ''chars''), (INTS, ''ints''), (DATES, ''dates''),
      (TEXTS, ''texts''), (FLOATS, ''floats'')]"

definition attr_type_to_string :: "AttrType \<Rightarrow> string" where
  "attr_type_to_string ty = (case map_of ATTR_TYPE_NAME ty of Some s \<Rightarrow> s | None \<Rightarrow> ''unknown'')"

definition attr_type_from_string :: "string \<Rightarrow> AttrType" where
  "attr_type_from_string s =
     (case find (\<lambda>(_, n). n = s) ATTR_TYPE_NAME of Some (ty, _) \<Rightarrow> ty | None \<Rightarrow> UNDEFINED)"

record FieldMeta =
  fm_name :: string
  fm_type :: AttrType
  fm_offset :: int
  fm_len :: int
  fm_visible :: bool
  fm_nullable :: bool

definition FieldMeta_init :: "string option \<Rightarrow> AttrType \<Rightarrow> int \<Rightarrow> int \<Rightarrow> bool \<Rightarrow> bool \<Rightarrow> FieldMeta result" where
  "FieldMeta_init name ty off len visible nullable =
     (case name of
        None \<Rightarrow> Inl INVALID_ARGUMENT
      | Some n \<Rightarrow>
          if n = [] then Inl INVALID_ARGUMENT
          else if ty = UNDEFINED \<or> off < 0 \<or> len \<le> 0 then Inl INVALID_ARGUMENT
          else Inr \<lparr>fm_name = n, fm_type = ty, fm_offset = off, fm_len = len,
                    fm_visible = visible, fm_nullable = nullable\<rparr>)"

section \<open>\<^verbatim>\<open>IndexMeta\<close>\<close>

record IndexMeta =
  im_name :: string
  im_fields :: "string list"

definition is_blank :: "string \<Rightarrow> bool" where
  "is_blank s = list_all (\<lambda>c. of_char c \<in> {9 :: nat, 10, 11, 12, 13, 32}) s"

definition IndexMeta_init :: "string option \<Rightarrow> FieldMeta list \<Rightarrow> IndexMeta result" where
  "IndexMeta_init name fds =
     (case name of
        None \<Rightarrow> Inl INVALID_ARGUMENT
      | Some n \<Rightarrow> if is_blank n then Inl INVALID_ARGUMENT
                  else Inr \<lparr>im_name = n, im_fields = map fm_name fds\<rparr>)"

text \<open>\<^verbatim>\<open>IndexMeta::field\<close>: the first field.\<close>

definition im_field :: "IndexMeta \<Rightarrow> string" where
  "im_field im = hd (im_fields im)"

section \<open>\<^verbatim>\<open>TableMeta\<close>\<close>

record AttrInfo =
  ai_name :: "string option"
  ai_type :: AttrType
  ai_length :: int
  ai_nullable :: int

definition DATESSIZE :: int where "DATESSIZE = 12"
definition TEXTSIZE :: int where "TEXTSIZE = PAGENUMSIZE + TEXTPATCHSIZE"

definition attr_info_init :: "string \<Rightarrow> AttrType \<Rightarrow> int \<Rightarrow> int \<Rightarrow> AttrInfo" where
  "attr_info_init name ty len nullable =
     \<lparr>ai_name = Some name, ai_type = ty,
      ai_length = (if ty = DATES then DATESSIZE else if ty = TEXTS then TEXTSIZE else len),
      ai_nullable = nullable\<rparr>"

record TableMeta =
  tm_name :: string
  tm_fields :: "FieldMeta list"
  tm_indexes :: "IndexMeta list"
  tm_record_size :: int

definition TableMeta_new :: TableMeta where
  "TableMeta_new = \<lparr>tm_name = '''', tm_fields = [], tm_indexes = [], tm_record_size = 0\<rparr>"

text \<open>The fields every table has; filled in once, before the first table exists.  The name, type
  and length are those of \<^verbatim>\<open>Trx::trx_field_name\<close> and its companions.\<close>

definition trx_field_name :: string where "trx_field_name = ''__trx''"
definition trx_field_type :: AttrType where "trx_field_type = INTS"
definition trx_field_len :: int where "trx_field_len = 4"

definition init_sys_fields :: "FieldMeta list result" where
  "init_sys_fields =
     (case FieldMeta_init (Some trx_field_name) trx_field_type 0 trx_field_len False False of
        Inl e \<Rightarrow> Inl e
      | Inr f \<Rightarrow> Inr [f])"

definition sys_field_num :: nat where
  "sys_field_num = 1"

fun init_fields :: "AttrInfo list \<Rightarrow> int \<Rightarrow> (FieldMeta list \<times> int) result" where
  "init_fields [] off = Inr ([], off)"
| "init_fields (a # as) off =
     (case FieldMeta_init (ai_name a) (ai_type a) off (ai_length a) True (ai_nullable a = 1) of
        Inl e \<Rightarrow> Inl e
      | Inr f \<Rightarrow>
          (case init_fields as (off + ai_length a) of
             Inl e \<Rightarrow> Inl e
           | Inr (fs, off') \<Rightarrow> Inr (f # fs, off')))"

definition null_bitmap_len :: "nat \<Rightarrow> int" where
  "null_bitmap_len n = align8 (int n) div 8"

definition TableMeta_init :: "string option \<Rightarrow> AttrInfo list \<Rightarrow> TableMeta \<Rightarrow> TableMeta result" where
  "TableMeta_init name attributes tm =
     (case name of
        None \<Rightarrow> Inl INVALID_ARGUMENT
      | Some n \<Rightarrow>
          if n = [] then Inl INVALID_ARGUMENT
          else if attributes = [] then Inl INVALID_ARGUMENT
          else
            (case init_sys_fields of
               Inl e \<Rightarrow> Inl e
             | Inr sys \<Rightarrow>
                 (case init_fields attributes (fm_offset (last sys) + fm_len (last sys)) of
                    Inl e \<Rightarrow> Inl e
                  | Inr (fs, off) \<Rightarrow>
                      let fds = sys @ fs; bl = null_bitmap_len (length fds)
                      in Inr (tm\<lparr>tm_fields := map (\<lambda>f. f\<lparr>fm_offset := fm_offset f + bl\<rparr>) fds,
                               tm_record_size := off + bl, tm_name := n\<rparr>))))"

definition add_index :: "IndexMeta \<Rightarrow> TableMeta \<Rightarrow> TableMeta" where
  "add_index im tm = tm\<lparr>tm_indexes := tm_indexes tm @ [im]\<rparr>"

definition trx_field :: "TableMeta \<Rightarrow> FieldMeta" where
  "trx_field tm = tm_fields tm ! 0"

definition field_num :: "TableMeta \<Rightarrow> nat" where
  "field_num tm = length (tm_fields tm)"

definition field_named :: "TableMeta \<Rightarrow> string option \<Rightarrow> FieldMeta option" where
  "field_named tm name =
     (case name of None \<Rightarrow> None | Some n \<Rightarrow> find (\<lambda>f. fm_name f = n) (tm_fields tm))"

fun index_where :: "('a \<Rightarrow> bool) \<Rightarrow> 'a list \<Rightarrow> int \<Rightarrow> int" where
  "index_where P [] i = - 1"
| "index_where P (x # xs) i = (if P x then i else index_where P xs (i + 1))"

definition field_index :: "TableMeta \<Rightarrow> string option \<Rightarrow> int" where
  "field_index tm name =
     (case name of None \<Rightarrow> - 1 | Some n \<Rightarrow> index_where (\<lambda>f. fm_name f = n) (tm_fields tm) 0)"

definition find_field_by_offset :: "TableMeta \<Rightarrow> int \<Rightarrow> FieldMeta option" where
  "find_field_by_offset tm off = find (\<lambda>f. fm_offset f = off) (tm_fields tm)"

definition index_named :: "TableMeta \<Rightarrow> string \<Rightarrow> IndexMeta option" where
  "index_named tm name = find (\<lambda>im. im_name im = name) (tm_indexes tm)"

definition find_index_by_field :: "TableMeta \<Rightarrow> string \<Rightarrow> IndexMeta option" where
  "find_index_by_field tm field = find (\<lambda>im. im_field im = field) (tm_indexes tm)"

definition find_index_by_fields :: "TableMeta \<Rightarrow> string list \<Rightarrow> IndexMeta option" where
  "find_index_by_fields tm names = find (\<lambda>im. im_fields im = names) (tm_indexes tm)"

section \<open>Lemmas\<close>

lemma find_SomeD: "find P xs = Some x \<Longrightarrow> P x \<and> x \<in> set xs"
  by (induction xs) (auto split: if_splits)

lemma index_where_correct:
  "case find P xs of
     None \<Rightarrow> index_where P xs i = - 1
   | Some x \<Rightarrow> (\<exists>k < length xs. index_where P xs i = i + int k \<and> xs ! k = x \<and> P x \<and> (\<forall>j < k. \<not> P (xs ! j)))"
proof (induction xs arbitrary: i)
  case (Cons a xs)
  show ?case
  proof (cases "P a \<or> find P xs = None")
    case True
    then show ?thesis using Cons [of "i + 1"] by (auto split: option.splits)
  next
    case False
    then obtain x where x: "find P xs = Some x" "\<not> P a" by auto
    then obtain k where k: "k < length xs" "index_where P xs (i + 1) = i + 1 + int k" "xs ! k = x" "P x"
      "\<forall>j < k. \<not> P (xs ! j)"
      using Cons [of "i + 1"] by auto
    then have "\<forall>j < Suc k. \<not> P ((a # xs) ! j)" using x by (auto simp: nth_Cons split: nat.split)
    then show ?thesis using x k by (auto intro!: exI [of _ "Suc k"])
  qed
qed simp

text \<open>The offsets of a list of fields laid out one behind the other.\<close>

fun laid_out :: "FieldMeta list \<Rightarrow> int \<Rightarrow> int \<Rightarrow> bool" where
  "laid_out [] a b \<longleftrightarrow> a = b"
| "laid_out (f # fs) a b \<longleftrightarrow> fm_offset f = a \<and> 0 < fm_len f \<and> laid_out fs (a + fm_len f) b"

lemma laid_out_le: "laid_out fs a b \<Longrightarrow> a \<le> b"
  by (induction fs a b rule: laid_out.induct) auto

lemma laid_out_shift:
  "laid_out fs a b \<Longrightarrow> laid_out (map (\<lambda>f. f\<lparr>fm_offset := fm_offset f + k\<rparr>) fs) (a + k) (b + k)"
  by (induction fs a b rule: laid_out.induct) (auto simp: add_ac)

lemma laid_out_nth:
  "laid_out fs a b \<Longrightarrow> i < length fs \<Longrightarrow>
   0 < fm_len (fs ! i) \<and> a \<le> fm_offset (fs ! i) \<and> fm_offset (fs ! i) + fm_len (fs ! i) \<le> b"
proof (induction fs a b arbitrary: i rule: laid_out.induct)
  case (2 f fs a b)
  then show ?case using laid_out_le [of fs "a + fm_len f" b] by (cases i) fastforce+
qed simp

lemma laid_out_disjoint:
  "laid_out fs a b \<Longrightarrow> i < j \<Longrightarrow> j < length fs \<Longrightarrow> fm_offset (fs ! i) + fm_len (fs ! i) \<le> fm_offset (fs ! j)"
proof (induction fs a b arbitrary: i j rule: laid_out.induct)
  case (2 f fs a b)
  then obtain j' where "j = Suc j'" by (cases j) auto
  then show ?case using 2 laid_out_nth [of fs "a + fm_len f" b j'] by (cases i) auto
qed simp

lemma init_fields_correct:
  "init_fields as off = Inr (fs, off') \<Longrightarrow>
   laid_out fs off off' \<and> length fs = length as \<and>
   (\<forall>i < length as. Some (fm_name (fs ! i)) = ai_name (as ! i) \<and> fm_type (fs ! i) = ai_type (as ! i) \<and>
      fm_len (fs ! i) = ai_length (as ! i) \<and> fm_visible (fs ! i) \<and>
      fm_nullable (fs ! i) = (ai_nullable (as ! i) = 1))"
proof (induction as off arbitrary: fs rule: init_fields.induct)
  case (2 a as off)
  then obtain f gs where f: "FieldMeta_init (ai_name a) (ai_type a) off (ai_length a) True (ai_nullable a = 1) = Inr f"
    "init_fields as (off + ai_length a) = Inr (gs, off')" "fs = f # gs"
    by (auto split: sum.splits)
  then have "fm_offset f = off" "0 < fm_len f" "fm_len f = ai_length a" "Some (fm_name f) = ai_name a"
    "fm_type f = ai_type a" "fm_visible f" "fm_nullable f = (ai_nullable a = 1)"
    by (auto simp: FieldMeta_init_def split: option.splits if_splits)
  then show ?case using 2(1) [OF f(1,2)] f(3) by (auto simp: nth_Cons split: nat.split)
qed simp

text \<open>\<open>wf_meta\<close>: what a table's metadata guarantees about its records.\<close>

definition wf_meta :: "TableMeta \<Rightarrow> bool" where
  "wf_meta tm \<longleftrightarrow>
     (let bl = null_bitmap_len (field_num tm) in
      laid_out (tm_fields tm) bl (tm_record_size tm) \<and> tm_fields tm \<noteq> [] \<and>
      fm_name (trx_field tm) = trx_field_name \<and> fm_type (trx_field tm) = INTS \<and>
      fm_offset (trx_field tm) = bl \<and> fm_len (trx_field tm) = 4)"

lemma TableMeta_init_cases:
  assumes "TableMeta_init name attributes tm = Inr tm'"
  obtains f0 fs off where "init_sys_fields = Inr [f0]" "init_fields attributes 4 = Inr (fs, off)"
    "f0 = \<lparr>fm_name = trx_field_name, fm_type = INTS, fm_offset = 0, fm_len = 4,
           fm_visible = False, fm_nullable = False\<rparr>"
    "tm_fields tm' = map (\<lambda>f. f\<lparr>fm_offset := fm_offset f + null_bitmap_len (Suc (length fs))\<rparr>) (f0 # fs)"
    "tm_record_size tm' = off + null_bitmap_len (Suc (length fs))" "name = Some (tm_name tm')"
    "attributes \<noteq> []"
  using assms
  by (auto simp: TableMeta_init_def init_sys_fields_def FieldMeta_init_def trx_field_name_def
      trx_field_len_def trx_field_type_def Let_def split: option.splits if_splits sum.splits)

lemma TableMeta_init_wf:
  assumes "TableMeta_init name attributes tm = Inr tm'"
  shows "wf_meta tm'"
proof -
  obtain f0 fs off where "init_sys_fields = Inr [f0]" and f: "init_fields attributes 4 = Inr (fs, off)"
    "f0 = \<lparr>fm_name = trx_field_name, fm_type = INTS, fm_offset = 0, fm_len = 4,
           fm_visible = False, fm_nullable = False\<rparr>"
    "tm_fields tm' = map (\<lambda>f. f\<lparr>fm_offset := fm_offset f + null_bitmap_len (Suc (length fs))\<rparr>) (f0 # fs)"
    "tm_record_size tm' = off + null_bitmap_len (Suc (length fs))"
    using assms by (rule TableMeta_init_cases)
  have "laid_out (f0 # fs) 0 off" using init_fields_correct [OF f(1)] f(2) by simp
  then have "laid_out (tm_fields tm') (0 + null_bitmap_len (Suc (length fs))) (tm_record_size tm')"
    using laid_out_shift unfolding f(3,4) by blast
  then show ?thesis using f by (simp add: wf_meta_def trx_field_def field_num_def)
qed

lemma field_num_init:
  assumes "TableMeta_init name attributes tm = Inr tm'"
  shows "field_num tm' = sys_field_num + length attributes"
proof -
  obtain f0 fs off where "init_sys_fields = Inr [f0]" and f: "init_fields attributes 4 = Inr (fs, off)"
    and "f0 = \<lparr>fm_name = trx_field_name, fm_type = INTS, fm_offset = 0, fm_len = 4,
           fm_visible = False, fm_nullable = False\<rparr>"
    and m: "tm_fields tm' = map (\<lambda>f. f\<lparr>fm_offset := fm_offset f + null_bitmap_len (Suc (length fs))\<rparr>) (f0 # fs)"
    using assms by (rule TableMeta_init_cases)
  show ?thesis using m init_fields_correct [OF f] by (simp add: field_num_def sys_field_num_def)
qed

lemma null_bitmap_len_bound: "int n \<le> 8 * null_bitmap_len n" "0 \<le> null_bitmap_len n"
  by (simp_all add: null_bitmap_len_def align8_eq)


definition demo_attributes :: "AttrInfo list" where
  "demo_attributes = [attr_info_init ''id'' INTS 4 0, attr_info_init ''born'' DATES 4 1]"


lemma find_field_laid_out:
  "laid_out fs a b \<Longrightarrow> i < length fs \<Longrightarrow> find (\<lambda>f. fm_offset f = fm_offset (fs ! i)) fs = Some (fs ! i)"
proof (induction fs a b arbitrary: i rule: laid_out.induct)
  case (2 f fs a b)
  then show ?case using laid_out_nth [of fs "a + fm_len f" b] by (cases i) fastforce+
qed simp

text \<open>The search for a field by its offset in the record, which decides which index a condition
  can use, finds exactly the field that lies there.\<close>

theorem find_field_by_offset_correct:
  assumes "TableMeta_init name attributes tm = Inr tm'" "i < field_num tm'"
  shows "find_field_by_offset tm' (fm_offset (tm_fields tm' ! i)) = Some (tm_fields tm' ! i)"
  using TableMeta_init_wf [OF assms(1)] assms(2) find_field_laid_out
  by (auto simp: wf_meta_def Let_def find_field_by_offset_def field_num_def)

lemma find_field_by_offset_correct_witness:
  "\<exists>tm'. TableMeta_init (Some ''t'') demo_attributes TableMeta_new = Inr tm' \<and>
     find_field_by_offset tm' (fm_offset (tm_fields tm' ! 2)) = Some (tm_fields tm' ! 2)"
proof -
  define tm' where "tm' = projr (TableMeta_init (Some ''t'') demo_attributes TableMeta_new)"
  have *: "TableMeta_init (Some ''t'') demo_attributes TableMeta_new = Inr tm'" "2 < field_num tm'"
    unfolding tm'_def by code_simp+
  then show ?thesis using find_field_by_offset_correct [OF *] by blast
qed

text \<open>The index of a field and the field found by name agree: the index is that of the first
  field of this name, and minus one exactly when there is no such field.\<close>

theorem field_index_correct:
  "case field_named tm name of
     None \<Rightarrow> field_index tm name = - 1
   | Some f \<Rightarrow> (\<exists>k < field_num tm. field_index tm name = int k \<and> tm_fields tm ! k = f \<and>
                  name = Some (fm_name f) \<and> (\<forall>j < k. fm_name (tm_fields tm ! j) \<noteq> fm_name f))"
proof (cases name)
  case (Some n)
  show ?thesis
    using index_where_correct [of "\<lambda>f. fm_name f = n" "tm_fields tm" 0] Some
    by (auto simp: field_named_def field_index_def field_num_def split: option.splits)
qed (simp add: field_named_def field_index_def)

text \<open>Every attribute type is read back from the name it is written under.\<close>

theorem attr_type_roundtrip: "attr_type_from_string (attr_type_to_string ty) = ty"
  by (cases ty) (simp_all add: attr_type_from_string_def attr_type_to_string_def ATTR_TYPE_NAME_def)

end
