(* ===== verification/Trx.thy ===== *)
theory Trx
  imports Table_Meta
begin

text \<open>
  \<^verbatim>\<open>Trx\<close> of \<^verbatim>\<open>src/src/observer/storage/trx/trx.cpp\<close>: the operations a transaction has
  logged, and the transaction field of a record, which decides who sees the record.  A
  \<^verbatim>\<open>Table *\<close> is a number.  The two nested hash containers of the log are a map from table and
  record id to the type of the operation; their order of enumeration, which only commit and
  rollback see, is an argument there (theory \<open>Table\<close>).  The counter behind \<^verbatim>\<open>next_trx_id\<close> is
  passed along.
\<close>

section \<open>State\<close>

datatype OperationType = INSERT | UPDATE | DELETE | OP_UNDEFINED

record Trx =
  trx_id :: "32 word"
  operations :: "nat \<Rightarrow> RID \<Rightarrow> OperationType option"

definition Trx_new :: Trx where
  "Trx_new = \<lparr>trx_id = 0, operations = (\<lambda>_ _. None)\<rparr>"

definition DELETED_FLAG_BIT_MASK :: "32 word" where
  "DELETED_FLAG_BIT_MASK = 0x80000000"

definition TRX_ID_BIT_MASK :: "32 word" where
  "TRX_ID_BIT_MASK = 0x7FFFFFFF"

text \<open>\<^verbatim>\<open>next_trx_id\<close>: the incremented counter is the new id.\<close>

definition next_trx_id :: "32 word \<Rightarrow> 32 word" where
  "next_trx_id counter = counter + 1"

section \<open>The transaction field of a record\<close>

definition set_record_trx_id :: "TableMeta \<Rightarrow> 32 word \<Rightarrow> bool \<Rightarrow> bytes \<Rightarrow> bytes" where
  "set_record_trx_id tm tid deleted r =
     put32 r (nat (fm_offset (trx_field tm))) (if deleted then or tid DELETED_FLAG_BIT_MASK else tid)"

definition get_record_trx_id :: "TableMeta \<Rightarrow> bytes \<Rightarrow> 32 word \<times> bool" where
  "get_record_trx_id tm r =
     (let trx = get32 r (nat (fm_offset (trx_field tm)))
      in (and trx TRX_ID_BIT_MASK, and trx DELETED_FLAG_BIT_MASK \<noteq> 0))"

definition init_trx_info :: "Trx \<Rightarrow> TableMeta \<Rightarrow> bytes \<Rightarrow> bytes" where
  "init_trx_info t tm r = set_record_trx_id tm (trx_id t) False r"

definition is_visible :: "Trx \<Rightarrow> TableMeta \<Rightarrow> bytes \<Rightarrow> bool" where
  "is_visible t tm r =
     (let (record_trx_id, record_deleted) = get_record_trx_id tm r in
      if 0 = record_trx_id \<or> record_trx_id = trx_id t then \<not> record_deleted else record_deleted)"

text \<open>\<^verbatim>\<open>Trx::commit_insert\<close> and \<^verbatim>\<open>Trx::rollback_delete\<close>.\<close>

definition trx_commit_insert :: "TableMeta \<Rightarrow> bytes \<Rightarrow> bytes" where
  "trx_commit_insert tm r = set_record_trx_id tm 0 False r"

definition trx_rollback_delete :: "TableMeta \<Rightarrow> bytes \<Rightarrow> bytes" where
  "trx_rollback_delete tm r = set_record_trx_id tm 0 False r"

section \<open>The log\<close>

definition find_operation :: "Trx \<Rightarrow> nat \<Rightarrow> RID \<Rightarrow> OperationType option" where
  "find_operation t table rid = operations t table rid"

text \<open>\<^verbatim>\<open>emplace\<close> does not replace an operation on the same record.\<close>

definition insert_operation :: "Trx \<Rightarrow> nat \<Rightarrow> OperationType \<Rightarrow> RID \<Rightarrow> Trx" where
  "insert_operation t table ty rid =
     (case operations t table rid of
        Some _ \<Rightarrow> t
      | None \<Rightarrow> t\<lparr>operations := (operations t)(table := (operations t table)(rid := Some ty))\<rparr>)"

definition delete_operation :: "Trx \<Rightarrow> nat \<Rightarrow> RID \<Rightarrow> Trx" where
  "delete_operation t table rid =
     t\<lparr>operations := (operations t)(table := (operations t table)(rid := None))\<rparr>"

definition start_if_not_started :: "Trx \<Rightarrow> 32 word \<Rightarrow> Trx \<times> 32 word" where
  "start_if_not_started t counter =
     (if trx_id t = 0 then let tid = next_trx_id counter in (t\<lparr>trx_id := tid\<rparr>, tid) else (t, counter))"

definition trx_insert_record :: "Trx \<Rightarrow> 32 word \<Rightarrow> nat \<Rightarrow> RID \<Rightarrow> unit result \<times> Trx \<times> 32 word" where
  "trx_insert_record t counter table rid =
     (if find_operation t table rid \<noteq> None then (Inl GENERIC_ERROR, t, counter)
      else let (t, counter) = start_if_not_started t counter
           in (SUCCESS, insert_operation t table INSERT rid, counter))"

text \<open>\<^verbatim>\<open>Trx::delete_record\<close>; the last component is what happens to the memory of the record.\<close>

definition trx_delete_record ::
  "Trx \<Rightarrow> 32 word \<Rightarrow> nat \<Rightarrow> TableMeta \<Rightarrow> RID \<Rightarrow> unit result \<times> Trx \<times> 32 word \<times> (bytes \<Rightarrow> bytes)" where
  "trx_delete_record t counter table tm rid =
     (let (t, counter) = start_if_not_started t counter in
      case find_operation t table rid of
        Some op \<Rightarrow>
          if op = INSERT then (SUCCESS, delete_operation t table rid, counter, id)
          else (Inl GENERIC_ERROR, t, counter, id)
      | None \<Rightarrow>
          (SUCCESS, insert_operation t table DELETE rid, counter, set_record_trx_id tm (trx_id t) True))"

section \<open>Who sees a record\<close>

text \<open>An id is valid when it is positive as an \<^verbatim>\<open>int32_t\<close>, or zero for a committed record.\<close>

lemma mask_bits:
  "bit DELETED_FLAG_BIT_MASK n \<longleftrightarrow> n = 31" "bit TRX_ID_BIT_MASK n \<longleftrightarrow> n < 31"
proof -
  have d: "DELETED_FLAG_BIT_MASK = 2 ^ 31" and m: "TRX_ID_BIT_MASK = mask 31"
    by (simp_all add: DELETED_FLAG_BIT_MASK_def TRX_ID_BIT_MASK_def mask_eq_exp_minus_1)
  show "bit DELETED_FLAG_BIT_MASK n \<longleftrightarrow> n = 31" unfolding d bit_exp_iff by auto
  show "bit TRX_ID_BIT_MASK n \<longleftrightarrow> n < 31" unfolding m bit_mask_iff by auto
qed

lemma small_id_bit:
  assumes "tid < DELETED_FLAG_BIT_MASK"
  shows "\<not> bit tid 31"
proof -
  have "unat tid < 2 ^ 31" using assms by (simp add: DELETED_FLAG_BIT_MASK_def word_less_nat_alt)
  then have "\<not> bit (unat tid) 31" by (simp add: bit_iff_odd)
  then show ?thesis by (simp add: bit_unsigned_iff)
qed

lemma get_set_record_trx_id:
  assumes "tid < DELETED_FLAG_BIT_MASK"
  shows "get_record_trx_id tm (set_record_trx_id tm tid deleted r) = (tid, deleted)"
proof -
  note b = small_id_bit [OF assms]
  have "and (or tid DELETED_FLAG_BIT_MASK) TRX_ID_BIT_MASK = tid"
  proof (rule bit_word_eqI)
    fix n
    assume "n < LENGTH(32)"
    then show "bit (and (or tid DELETED_FLAG_BIT_MASK) TRX_ID_BIT_MASK) n = bit tid n"
      using b by (cases "n = 31") (auto simp: bit_and_iff bit_or_iff mask_bits)
  qed
  moreover have "and tid TRX_ID_BIT_MASK = tid"
  proof (rule bit_word_eqI)
    fix n
    assume "n < LENGTH(32)"
    then show "bit (and tid TRX_ID_BIT_MASK) n = bit tid n"
      using b by (cases "n = 31") (auto simp: bit_and_iff mask_bits)
  qed
  moreover have "and tid DELETED_FLAG_BIT_MASK = 0"
    by (rule bit_word_eqI) (use b in \<open>auto simp: bit_and_iff mask_bits\<close>)
  moreover have "bit (and (or tid DELETED_FLAG_BIT_MASK) DELETED_FLAG_BIT_MASK) 31"
    by (simp add: bit_and_iff bit_or_iff mask_bits)
  then have "and (or tid DELETED_FLAG_BIT_MASK) DELETED_FLAG_BIT_MASK \<noteq> 0" by force
  ultimately show ?thesis by (simp add: get_record_trx_id_def set_record_trx_id_def)
qed

text \<open>The number of a transaction and the deletion mark are read back from a record as they were
  written, for every number below the mark.\<close>

theorem record_trx_id_roundtrip:
  assumes "tid < DELETED_FLAG_BIT_MASK"
  shows "get_record_trx_id tm (set_record_trx_id tm tid deleted r) = (tid, deleted)"
  using assms by (rule get_set_record_trx_id)

lemma record_trx_id_roundtrip_witness:
  "get_record_trx_id TableMeta_new (set_record_trx_id TableMeta_new 5 True (\<lambda>_. 0)) = (5, True)"
  using record_trx_id_roundtrip [of 5 TableMeta_new True "\<lambda>_. 0"]
  by (simp add: DELETED_FLAG_BIT_MASK_def)

text \<open>C30: a record that transaction \<open>tid\<close> has inserted is visible to that transaction only; one that
  it has marked as deleted is visible to all others; once the field is reset to zero, by the commit of
  the insertion or the rollback of the deletion, the record is visible to everyone.\<close>

theorem visibility:
  assumes "0 < tid" "tid < DELETED_FLAG_BIT_MASK"
  shows "(is_visible t tm (set_record_trx_id tm tid False r) \<longleftrightarrow> trx_id t = tid) \<and>
    (is_visible t tm (set_record_trx_id tm tid True r) \<longleftrightarrow> trx_id t \<noteq> tid) \<and>
    is_visible t tm (trx_commit_insert tm r) \<and> is_visible t tm (trx_rollback_delete tm r)"
  using assms get_set_record_trx_id [of tid] get_set_record_trx_id [of 0]
  by (auto simp: is_visible_def trx_commit_insert_def trx_rollback_delete_def DELETED_FLAG_BIT_MASK_def)

lemma visibility_witness:
  "\<not> is_visible Trx_new TableMeta_new (set_record_trx_id TableMeta_new 5 False (\<lambda>_. 0))"
  using visibility [of 5 Trx_new TableMeta_new "\<lambda>_. 0"]
  by (simp add: DELETED_FLAG_BIT_MASK_def Trx_new_def)

text \<open>A transaction that deletes a record it has inserted itself is told that it succeeded, but
  only the insertion disappears from its log: the record is not touched, stays visible to the
  transaction, and neither commit nor rollback will look at it again.\<close>

theorem delete_own_insert:
  assumes "0 < trx_id t" "trx_id t < DELETED_FLAG_BIT_MASK" "find_operation t table rid = Some INSERT"
    and "trx_delete_record t counter table tm rid = (rc, t', counter', change)"
  shows "rc = SUCCESS \<and> find_operation t' table rid = None \<and>
    (\<forall>r. change r = r \<and> (is_visible t tm (init_trx_info t tm r) \<longrightarrow> is_visible t' tm (change (init_trx_info t tm r))))"
proof -
  have "trx_id t \<noteq> 0" using assms(1) by (simp add: word_gt_0)
  then have "trx_delete_record t counter table tm rid = (SUCCESS, delete_operation t table rid, counter, id)"
    using assms(3) by (simp add: trx_delete_record_def start_if_not_started_def)
  then show ?thesis using assms(4) by (auto simp: find_operation_def delete_operation_def is_visible_def)
qed

lemma delete_own_insert_witness:
  "fst (trx_delete_record
     \<lparr>trx_id = 1, operations = (\<lambda>_ _. Some INSERT)\<rparr> 1 0 TableMeta_new \<lparr>rid_page = 1, rid_slot = 0\<rparr>) = SUCCESS"
proof -
  let ?t = "\<lparr>trx_id = 1, operations = (\<lambda>_ _. Some INSERT)\<rparr>"
  let ?x = "trx_delete_record ?t 1 0 TableMeta_new \<lparr>rid_page = 1, rid_slot = 0\<rparr>"
  show ?thesis
    using delete_own_insert [of ?t 0 "\<lparr>rid_page = 1, rid_slot = 0\<rparr>" 1 TableMeta_new
        "fst ?x" "fst (snd ?x)" "fst (snd (snd ?x))" "snd (snd (snd ?x))"]
    by (simp add: DELETED_FLAG_BIT_MASK_def find_operation_def)
qed

end
