(* ===== verification/Values.thy ===== *)
theory Values
  imports Key_Compare "HOL-Library.Log_Nat"
begin

text \<open>
  Attribute values of the parse tree (\<^verbatim>\<open>Value\<close> of
  \<^verbatim>\<open>src/src/observer/sql/parser/parse_defs.h\<close>, built by \<^verbatim>\<open>parse.cpp\<close>) and the C
  string functions the layers above the record manager apply to them.  A pointer is the memory
  from its address on, a function from offsets to bytes; what lies behind an allocated block is
  whatever the memory held before, so a read past the end sees it.
\<close>

section \<open>C strings in memory\<close>

text \<open>\<^verbatim>\<open>strcmp\<close> and \<^verbatim>\<open>strlen\<close>; only the sign of the result of \<^verbatim>\<open>strcmp\<close> is
  specified.  Every string of the program lies in a page or in a statement of less than a page, so
  a search that finds no end within \<open>BP_PAGE_SIZE\<close> bytes has left its buffer.\<close>

fun strcmp_from :: "nat \<Rightarrow> bytes \<Rightarrow> bytes \<Rightarrow> nat \<Rightarrow> int result" where
  "strcmp_from 0 a b i = Inl UB"
| "strcmp_from (Suc n) a b i =
     (if a i < b i then Inr (- 1) else if b i < a i then Inr 1
      else if a i = 0 then Inr 0 else strcmp_from n a b (i + 1))"

definition strcmp :: "bytes \<Rightarrow> bytes \<Rightarrow> int result" where
  "strcmp a b = strcmp_from BP_PAGE_SIZE a b 0"

fun strlen_from :: "nat \<Rightarrow> bytes \<Rightarrow> nat \<Rightarrow> nat result" where
  "strlen_from 0 a i = Inl UB"
| "strlen_from (Suc n) a i = (if a i = 0 then Inr i else strlen_from n a (i + 1))"

definition strlen :: "bytes \<Rightarrow> nat result" where
  "strlen a = strlen_from BP_PAGE_SIZE a 0"

text \<open>\<open>string_at a xs\<close>: the string at \<open>a\<close> is \<open>xs\<close>.\<close>

definition string_at :: "bytes \<Rightarrow> byte list \<Rightarrow> bool" where
  "string_at a xs \<longleftrightarrow> (\<forall>i < length xs. a i = xs ! i) \<and> a (length xs) = 0 \<and> 0 \<notin> set xs"

definition store_string :: "bytes \<Rightarrow> nat \<Rightarrow> byte list \<Rightarrow> bytes" where
  "store_string d a xs = memcpy d a (c_string xs) 0 (length xs + 1)"

text \<open>The order of two strings.\<close>

fun lexcmp :: "byte list \<Rightarrow> byte list \<Rightarrow> int" where
  "lexcmp [] [] = 0"
| "lexcmp [] (y # ys) = - 1"
| "lexcmp (x # xs) [] = 1"
| "lexcmp (x # xs) (y # ys) = (if x < y then - 1 else if y < x then 1 else lexcmp xs ys)"

section \<open>Integers and floats\<close>

text \<open>The conversion of an \<^verbatim>\<open>int\<close> to the nearest \<^verbatim>\<open>float\<close>, ties to even: 23 bits of
  significand below the leading one.  A significand rounded up to the next power of two carries
  into the exponent.\<close>

definition float_of_int :: "int \<Rightarrow> 32 word" where
  "float_of_int n =
     (let m = nat \<bar>n\<bar>; e = floorlog 2 m - 1;
          sig = (if e \<le> 23 then m * 2 ^ (23 - e)
                 else let q = m div 2 ^ (e - 23); r = m mod 2 ^ (e - 23); h = 2 ^ (e - 24)
                      in if r > h \<or> r = h \<and> odd q then q + 1 else q)
      in if m = 0 then 0
         else or (if n < 0 then push_bit 31 1 else 0) (of_nat ((e + 127) * 2 ^ 23 + (sig - 2 ^ 23))))"

section \<open>\<^verbatim>\<open>Value\<close>\<close>

record Value =
  vtype :: AttrType
  visnull :: int
  vdata :: "bytes option"

text \<open>The initialisers; \<open>mem\<close> is the memory \<^verbatim>\<open>malloc\<close> or \<^verbatim>\<open>strdup\<close> hands out, with
  its old contents.\<close>

definition value_init_null :: Value where
  "value_init_null = \<lparr>vtype = UNDEFINED, visnull = 1, vdata = None\<rparr>"

definition value_init_integer :: "bytes \<Rightarrow> int \<Rightarrow> Value" where
  "value_init_integer mem v = \<lparr>vtype = INTS, visnull = 0, vdata = Some (put_int mem 0 v)\<rparr>"

definition value_init_float :: "bytes \<Rightarrow> 32 word \<Rightarrow> Value" where
  "value_init_float mem v = \<lparr>vtype = FLOATS, visnull = 0, vdata = Some (put32 mem 0 v)\<rparr>"

definition value_init_string :: "bytes \<Rightarrow> byte list \<Rightarrow> Value" where
  "value_init_string mem v = \<lparr>vtype = CHARS, visnull = 0, vdata = Some (store_string mem 0 v)\<rparr>"

definition value_destroy :: "Value \<Rightarrow> Value" where
  "value_destroy v = v\<lparr>vtype := UNDEFINED, visnull := 0, vdata := None\<rparr>"

section \<open>Lemmas\<close>

lemma store_string_at: "0 \<notin> set xs \<Longrightarrow> string_at (store_string d 0 xs) xs"
  by (auto simp: string_at_def store_string_def memcpy_def c_string_def)

lemma strcmp_from_string_at:
  assumes "string_at a xs" "string_at b ys" "i \<le> length xs" "i \<le> length ys"
    and "length xs < i + n" "take i xs = take i ys"
  shows "strcmp_from n a b i = Inr (lexcmp (drop i xs) (drop i ys))"
  using assms
proof (induction n arbitrary: i)
  case (Suc n)
  consider "i = length xs" "i = length ys" | "i = length xs" "i < length ys"
    | "i < length xs" "i = length ys" | "i < length xs" "i < length ys"
    using Suc.prems by linarith
  then show ?case
  proof cases
    case 2
    then have "ys ! i \<noteq> 0" using Suc.prems(2) by (metis string_at_def nth_mem)
    then have "0 < ys ! i" by (simp add: word_gt_0)
    then show ?thesis using Suc.prems 2 by (simp add: string_at_def flip: Cons_nth_drop_Suc)
  next
    case 3
    then have "xs ! i \<noteq> 0" using Suc.prems(1) by (metis string_at_def nth_mem)
    then have "0 < xs ! i" by (simp add: word_gt_0)
    then show ?thesis using Suc.prems 3 by (simp add: string_at_def flip: Cons_nth_drop_Suc)
  next
    case 4
    then have nz: "xs ! i \<noteq> 0" using Suc.prems(1) by (metis string_at_def nth_mem)
    have "xs ! i = ys ! i \<Longrightarrow> take (Suc i) xs = take (Suc i) ys"
      using 4 Suc.prems by (simp add: take_Suc_conv_app_nth)
    then show ?thesis
      using Suc.IH [of "Suc i"] Suc.prems 4 nz by (auto simp: string_at_def simp flip: Cons_nth_drop_Suc)
  qed (use Suc.prems in \<open>auto simp: string_at_def\<close>)
qed simp

lemma strcmp_string_at:
  assumes "string_at a xs" "string_at b ys" "length xs < BP_PAGE_SIZE"
  shows "strcmp a b = Inr (lexcmp xs ys)"
  using strcmp_from_string_at [OF assms(1,2), of 0 BP_PAGE_SIZE] assms(3) by (simp add: strcmp_def)

lemma strlen_from_string_at:
  "string_at a xs \<Longrightarrow> i \<le> length xs \<Longrightarrow> length xs < i + n \<Longrightarrow> strlen_from n a i = Inr (length xs)"
proof (induction n arbitrary: i)
  case (Suc n)
  have "i < length xs \<Longrightarrow> xs ! i \<noteq> 0" using Suc.prems(1) by (metis string_at_def nth_mem)
  then show ?case using Suc by (cases "i = length xs") (auto simp: string_at_def)
qed simp

lemma strlen_string_at: "string_at a xs \<Longrightarrow> length xs < BP_PAGE_SIZE \<Longrightarrow> strlen a = Inr (length xs)"
  by (simp add: strlen_def strlen_from_string_at)

lemma lexcmp_append:
  "length xs = length ys \<Longrightarrow>
   lexcmp (xs @ us) (ys @ vs) = (if lexcmp xs ys \<noteq> 0 then lexcmp xs ys else lexcmp us vs)"
  by (induction xs ys rule: list_induct2) auto

lemma lexcmp_refl [simp]: "lexcmp xs xs = 0"
  by (induction xs) auto

lemma lexcmp_0_iff: "lexcmp xs ys = 0 \<longleftrightarrow> xs = ys"
  by (induction xs ys rule: lexcmp.induct) auto

subsection \<open>Exactness of \<open>float_of_int\<close>\<close>

lemma bit_31_of_nat: "x < 2 ^ 31 \<Longrightarrow> \<not> bit (of_nat x :: 32 word) 31"
  by (metis bit_nat_iff bit_of_nat_iff bit_take_bit_iff order_less_irrefl take_bit_nat_eq_self)

lemma float_val_fields:
  fixes M E :: nat and w :: "32 word"
  assumes M: "M < 2 ^ 23" and E: "E < 256" and w: "w = or s (of_nat (E * 2 ^ 23 + M))"
    and s: "s = 0 \<or> s = push_bit 31 1"
  shows "unat (take_bit 23 w) = M" "unat (take_bit 8 (drop_bit 23 w)) = E"
    "bit w 31 \<longleftrightarrow> s \<noteq> 0"
proof -
  define x where "x = E * 2 ^ 23 + M"
  have x: "x < 2 ^ 31" using M E by (simp add: x_def)
  have w: "w = or s (of_nat x)" using w by (simp add: x_def)
  have t: "take_bit k (unat w) = take_bit k x" if "k \<le> 31" for k
  proof -
    have "take_bit k s = 0" using s
    proof
      assume "s = push_bit 31 1"
      then have "take_bit k s = push_bit 31 (take_bit (k - 31) 1)" by (simp only: take_bit_push_bit)
      then show ?thesis using that by simp
    qed simp
    then have "take_bit k w = take_bit k (of_nat x :: 32 word)" using w by simp
    moreover have "unat (take_bit k (of_nat x :: 32 word)) = take_bit k x"
      using x that by (simp add: unsigned_take_bit_eq unsigned_of_nat take_bit_take_bit min_def)
    ultimately show ?thesis by (metis unsigned_take_bit_eq)
  qed
  show "unat (take_bit 23 w) = M"
    unfolding unsigned_take_bit_eq using t [of 23] M by (simp add: x_def take_bit_eq_mod)
  have "unat (take_bit 8 (drop_bit 23 w)) = drop_bit 23 (take_bit 31 (unat w))"
    by (simp add: unsigned_take_bit_eq unsigned_drop_bit_eq take_bit_drop_bit)
  also have "\<dots> = E" using t [of 31] x M by (simp add: x_def take_bit_nat_eq_self drop_bit_eq_div)
  finally show "unat (take_bit 8 (drop_bit 23 w)) = E" .
  show "bit w 31 \<longleftrightarrow> s \<noteq> 0"
    using s bit_31_of_nat [OF x] w by (auto simp: bit_or_iff bit_push_bit_iff)
qed

lemma leading_bit:
  assumes "0 < m"
  shows "2 ^ (floorlog 2 m - 1) \<le> m" "m < 2 * 2 ^ (floorlog 2 m - 1)"
proof -
  have "0 < floorlog 2 m" using assms floorlog_eq_zero_iff [of 2 m] by simp
  then show "2 ^ (floorlog 2 m - 1) \<le> m" "m < 2 * 2 ^ (floorlog 2 m - 1)"
    using floorlog_bounds [of m 2] assms by (auto simp flip: power_Suc)
qed

lemma float_of_int_exact:
  assumes "\<bar>n\<bar> \<le> 2 ^ 24"
  shows "float_val (float_of_int n) = of_int n"
proof (cases "n = 0")
  case True
  then show ?thesis by (simp add: float_of_int_def float_val_def)
next
  case False
  define m where "m = nat \<bar>n\<bar>"
  define e where "e = floorlog 2 m - 1"
  define s :: "32 word" where "s = (if n < 0 then push_bit 31 1 else 0)"
  have m: "0 < m" "m \<le> 2 ^ 24" using assms False by (auto simp: m_def nat_le_iff)
  have lb: "2 ^ e \<le> m" "m < 2 * 2 ^ e" using leading_bit [OF m(1)] by (auto simp: e_def)
  have "(2 :: nat) ^ e \<le> 2 ^ 24" using lb(1) m(2) by linarith
  then have e: "e \<le> 24" using power_le_imp_le_exp [of "2 :: nat" e 24] by simp
  obtain sig where sig: "float_of_int n = or s (of_nat ((e + 127) * 2 ^ 23 + (sig - 2 ^ 23)))"
    "2 ^ 23 \<le> sig" "sig < 2 ^ 24"
    "e < 23 \<Longrightarrow> sig = m * 2 ^ (23 - e)" "23 \<le> e \<Longrightarrow> m = sig * 2 ^ (e - 23)"
  proof (cases "e \<le> 23")
    case True
    have p: "(2 :: nat) ^ 23 = 2 ^ e * 2 ^ (23 - e)" using True by (simp flip: power_add)
    show ?thesis
    proof (rule that [of "m * 2 ^ (23 - e)"])
      show "2 ^ 23 \<le> m * 2 ^ (23 - e)" unfolding p using lb(1) by simp
      have "m * 2 ^ (23 - e) < 2 * 2 ^ e * 2 ^ (23 - e)" using lb(2) by simp
      also have "\<dots> = 2 ^ 24" using p by simp
      finally show "m * 2 ^ (23 - e) < 2 ^ 24" .
    qed (use True m in \<open>auto simp: float_of_int_def m_def e_def s_def Let_def\<close>)
  next
    case False
    then have "e = 24" using e by simp
    moreover then have "m = 2 ^ 24" using lb m by simp
    ultimately show ?thesis
      using m by (intro that [of "2 ^ 23"]) (auto simp: float_of_int_def m_def e_def s_def Let_def)
  qed
  have f: "unat (take_bit 23 (float_of_int n)) = sig - 2 ^ 23"
    "unat (take_bit 8 (drop_bit 23 (float_of_int n))) = e + 127"
    "bit (float_of_int n) 31 \<longleftrightarrow> s \<noteq> 0"
    using float_val_fields [OF _ _ sig(1)] sig(2,3) e by (simp_all add: s_def)
  have "s \<noteq> 0 \<longleftrightarrow> n < 0" by (auto simp: s_def)
  moreover have "(if n < 0 then - rat_of_nat m else rat_of_nat m) = of_int n"
    by (simp add: m_def)
  moreover have "rat_of_nat sig / 2 ^ (23 - e) = of_nat m" if "e < 23" using sig(4) that by simp
  moreover have "rat_of_nat sig * 2 ^ (e - 23) = of_nat m" if "\<not> e < 23" using sig(5) that by simp
  ultimately show ?thesis using sig(2) f by (auto simp: float_val_def Let_def)
qed

end
