(* ===== verification/Date_Util.thy ===== *)
theory Date_Util
  imports Values
begin

text \<open>
  \<^verbatim>\<open>DateUtil\<close> of \<^verbatim>\<open>src/src/observer/storage/common/meta_util.cpp\<close>: the check of a date
  literal and its rewriting, in place, to the form \<^verbatim>\<open>YYYY-MM-DD\<close> that is stored in records.
  Stored dates are compared as strings; the last section shows that this is the order of the
  calendar.
\<close>

section \<open>The functions of the C and C++ libraries\<close>

definition is_digit :: "byte \<Rightarrow> bool" where
  "is_digit b \<longleftrightarrow> 48 \<le> b \<and> b \<le> 57"

definition dash :: byte where
  "dash = 45"

text \<open>The number a sequence of digits denotes, and \<^verbatim>\<open>atoi\<close> on a string that starts with digits or
  with a minus sign.\<close>

definition digits_val :: "byte list \<Rightarrow> nat" where
  "digits_val ds = foldl (\<lambda>a b. 10 * a + (unat b - 48)) 0 ds"

definition atoi :: "byte list \<Rightarrow> int" where
  "atoi s =
     (case s of
        [] \<Rightarrow> 0
      | c # cs \<Rightarrow> if c = dash then - int (digits_val (takeWhile is_digit cs))
                  else int (digits_val (takeWhile is_digit s)))"

text \<open>\<^verbatim>\<open>strchr(s, '-') + 1\<close>.\<close>

definition after_dash :: "byte list \<Rightarrow> byte list" where
  "after_dash s = tl (dropWhile (\<lambda>c. c \<noteq> dash) s)"

text \<open>The match of \<^verbatim>\<open>^[0-9]{0,4}-[0-9]{1,2}-[0-9]{1,2}$\<close>.  A dash is no digit, so the
  greedy match of each group is the only one.\<close>

definition date_match :: "byte list \<Rightarrow> bool" where
  "date_match s =
     (let y = takeWhile is_digit s; r = dropWhile is_digit s;
          m = takeWhile is_digit (tl r); r' = dropWhile is_digit (tl r);
          d = tl r'
      in length y \<le> 4 \<and> r \<noteq> [] \<and> hd r = dash \<and>
         length m \<in> {1, 2} \<and> r' \<noteq> [] \<and> hd r' = dash \<and>
         length d \<in> {1, 2} \<and> list_all is_digit d)"

text \<open>\<^verbatim>\<open>sprintf\<close> of a number with \<^verbatim>\<open>%0wd\<close>.\<close>

fun dec :: "nat \<Rightarrow> byte list" where
  "dec n = (if n < 10 then [48 + of_nat n] else dec (n div 10) @ [48 + of_nat (n mod 10)])"

declare dec.simps [simp del]

definition zpad :: "nat \<Rightarrow> nat \<Rightarrow> byte list" where
  "zpad w n = replicate (w - length (dec n)) 48 @ dec n"

text \<open>The string at an address; a string that does not end within 11 bytes is too long to be a
  date.\<close>

definition c_str :: "bytes \<Rightarrow> byte list" where
  "c_str a = takeWhile (\<lambda>b. b \<noteq> 0) (map a [0..<11])"

section \<open>\<^verbatim>\<open>DateUtil\<close>\<close>

record DateUtil =
  uy :: int
  um :: int
  ud :: int

definition theGlobalDateUtil :: DateUtil where
  "theGlobalDateUtil = \<lparr>uy = 2038, um = 3, ud = 1\<rparr>"

definition check_dateRange :: "DateUtil \<Rightarrow> int \<Rightarrow> int \<Rightarrow> int \<Rightarrow> bool" where
  "check_dateRange u y m d =
     (let isvalid = (if y \<noteq> uy u then y < uy u
                     else if m \<noteq> um u then m < um u
                     else if d \<noteq> ud u then d < ud u
                     else True)
      in if \<not> isvalid then False else y \<ge> 1970)"

definition Check_and_format_date :: "DateUtil \<Rightarrow> bytes \<Rightarrow> unit result \<times> bytes" where
  "Check_and_format_date u dat =
     (let s = c_str dat in
      if \<not> date_match s then (Inl SCHEMA_FIELD_TYPE_MISMATCH, dat)
      else
        let y = atoi s; s1 = after_dash s; m = atoi s1; s2 = after_dash s1; d = atoi s2 in
        if y < 0 \<or> m < 0 \<or> d < 0 then (Inl SCHEMA_FIELD_TYPE_MISMATCH, dat)
        else
          let leapyear = (if y mod 400 = 0 \<or> (y mod 4 = 0 \<and> y mod 100 \<noteq> 0) then 1 else 0) in
          if m > 12 \<or> m < 1 \<or> d > 31 \<or> d < 1 \<or>
             ((m = 4 \<or> m = 6 \<or> m = 9 \<or> m = 11) \<and> d > 30) \<or> (m = 2 \<and> d > 28 + leapyear)
          then (Inl SCHEMA_FIELD_TYPE_MISMATCH, dat)
          else if \<not> check_dateRange u y m d then (Inl SCHEMA_FIELD_TYPE_MISMATCH, dat)
          else
            let tp = store_string dat 0 (zpad 4 (nat y));
                tp = store_string tp 5 (zpad 2 (nat m));
                tp = store_string tp 8 (zpad 2 (nat d))
            in (SUCCESS, tp(4 := dash, 7 := dash, 10 := 0, 11 := 0)))"

section \<open>Numbers and digits\<close>

lemma digits_val_Nil [simp]: "digits_val [] = 0"
  by (simp add: digits_val_def)

lemma digits_val_snoc [simp]: "digits_val (xs @ [b]) = 10 * digits_val xs + (unat b - 48)"
  by (simp add: digits_val_def)

lemma digits_val_append: "digits_val (xs @ ys) = digits_val xs * 10 ^ length ys + digits_val ys"
  by (induction ys rule: rev_induct) (simp_all flip: append_assoc)

lemma digits_val_Cons: "digits_val (b # xs) = (unat b - 48) * 10 ^ length xs + digits_val xs"
  using digits_val_append [of "[b]" xs] digits_val_snoc [of "[]" b] by simp

lemma is_digit_unat: "is_digit b \<longleftrightarrow> 48 \<le> unat b \<and> unat b \<le> 57"
  by (simp add: is_digit_def word_le_nat_alt)

lemma digits_val_less: "list_all is_digit xs \<Longrightarrow> digits_val xs < 10 ^ length xs"
proof (induction xs)
  case (Cons b xs)
  then have "is_digit b" by simp
  then have "unat b - 48 \<le> 9" unfolding is_digit_unat by linarith
  then have "(unat b - 48) * 10 ^ length xs \<le> 9 * 10 ^ length xs" by (rule mult_right_mono) simp
  moreover have "digits_val xs < 10 ^ length xs" using Cons by simp
  ultimately show ?case unfolding digits_val_Cons by (simp add: algebra_simps del: mult_le_cancel2)
qed simp

lemma unat_digit: "n < 10 \<Longrightarrow> unat (48 + of_nat n :: byte) = 48 + n"
  by (simp add: unat_word_ariths unat_of_nat)

lemma dec_digits: "list_all is_digit (dec n)"
  by (induction n rule: dec.induct) (subst dec.simps, auto simp: is_digit_unat [of "48 + _"] unat_digit)

lemma digits_val_dec [simp]: "digits_val (dec n) = n"
  by (induction n rule: dec.induct) (subst dec.simps, auto simp: unat_digit digits_val_Cons)

lemma length_dec_le: "n < 10 ^ w \<Longrightarrow> 0 < w \<Longrightarrow> length (dec n) \<le> w"
proof (induction n arbitrary: w rule: dec.induct)
  case (1 n)
  show ?case
  proof (cases "n < 10")
    case True
    then show ?thesis using 1 by (subst dec.simps) simp
  next
    case False
    then obtain v where w: "w = Suc v" "0 < v" using 1 by (cases w; cases "w - 1") auto
    then have "n div 10 < 10 ^ v" using 1 by (simp add: less_mult_imp_div_less mult.commute)
    then show ?thesis using 1(1) [of v] False w by (subst dec.simps) simp
  qed
qed

lemma zpad_digits: "list_all is_digit (zpad w n)"
  by (simp add: zpad_def dec_digits list_all_length is_digit_def nth_append)
    (metis dec_digits is_digit_def list_all_length add_diff_inverse_nat nat_add_left_cancel_less)

lemma digits_val_zeros: "digits_val (replicate k 48 @ xs) = digits_val xs"
  by (induction k) (simp_all add: digits_val_Cons)

lemma digits_val_zpad [simp]: "digits_val (zpad w n) = n"
  by (simp add: zpad_def digits_val_zeros)

lemma length_zpad [simp]: "n < 10 ^ w \<Longrightarrow> 0 < w \<Longrightarrow> length (zpad w n) = w"
  using length_dec_le [of n w] by (simp add: zpad_def)

text \<open>On digit strings of one length the order of strings is the order of numbers.\<close>

lemma lexcmp_digits:
  "length xs = length ys \<Longrightarrow> list_all is_digit xs \<Longrightarrow> list_all is_digit ys \<Longrightarrow>
   lexcmp xs ys = sgn (int (digits_val xs) - int (digits_val ys))"
proof (induction xs ys rule: list_induct2)
  case (Cons x xs y ys)
  have less: "(a - 48) * 10 ^ k + u < (b - 48) * 10 ^ k + v"
    if "48 \<le> a" "a < b" "u < 10 ^ k" for a b k u v :: nat
  proof -
    have "(a - 48) * 10 ^ k + u < (a - 48 + 1) * 10 ^ k" using that(3) by simp
    also have "\<dots> \<le> (b - 48) * 10 ^ k" using that(1,2) by (intro mult_right_mono) auto
    finally show ?thesis by simp
  qed
  have d: "48 \<le> unat x" "48 \<le> unat y" "digits_val xs < 10 ^ length ys" "digits_val ys < 10 ^ length ys"
    using Cons digits_val_less [of xs] digits_val_less [of ys] by (auto simp: is_digit_unat [of x] is_digit_unat [of y])
  consider "unat x < unat y" | "unat y < unat x" | "x = y" by (metis linorder_neqE_nat unsigned_word_eqI)
  then show ?case
  proof cases
    case 1
    then have "digits_val (x # xs) < digits_val (y # ys)"
      using less d Cons.hyps by (simp only: digits_val_Cons)
    then show ?thesis using 1 by (simp add: word_less_nat_alt)
  next
    case 2
    then have "digits_val (y # ys) < digits_val (x # xs)"
      using less d Cons.hyps by (simp only: digits_val_Cons)
    then show ?thesis using 2 by (simp add: word_less_nat_alt)
  next
    case 3
    then show ?thesis using Cons by (simp add: digits_val_Cons)
  qed
qed simp

section \<open>The stored form\<close>

definition real_date :: "nat \<Rightarrow> nat \<Rightarrow> nat \<Rightarrow> bool" where
  "real_date y m d \<longleftrightarrow>
     1 \<le> m \<and> m \<le> 12 \<and> 1 \<le> d \<and>
     d \<le> (if m = 2 then (if 4 dvd y \<and> (\<not> 100 dvd y \<or> 400 dvd y) then 29 else 28)
          else if m \<in> {4, 6, 9, 11} then 30 else 31)"

definition date_string :: "nat \<Rightarrow> nat \<Rightarrow> nat \<Rightarrow> byte list" where
  "date_string y m d = zpad 4 y @ dash # zpad 2 m @ dash # zpad 2 d"

text \<open>What a literal of the accepted form denotes.\<close>

definition date_literal :: "byte list \<Rightarrow> nat \<Rightarrow> nat \<Rightarrow> nat \<Rightarrow> bool" where
  "date_literal s y m d \<longleftrightarrow>
     (\<exists>ys ms ds. s = ys @ dash # ms @ dash # ds \<and> list_all is_digit (ys @ ms @ ds) \<and>
        length ys \<in> {1, 2, 3, 4} \<and> length ms \<in> {1, 2} \<and> length ds \<in> {1, 2} \<and>
        y = digits_val ys \<and> m = digits_val ms \<and> d = digits_val ds)"

lemma dash_no_digit [simp]: "\<not> is_digit dash"
  by (simp add: is_digit_def dash_def)

lemma takeWhile_digits:
  "list_all is_digit xs \<Longrightarrow> takeWhile is_digit (xs @ dash # ys) = xs"
  "list_all is_digit xs \<Longrightarrow> dropWhile is_digit (xs @ dash # ys) = dash # ys"
  "list_all is_digit xs \<Longrightarrow> takeWhile is_digit xs = xs"
  by (induction xs) auto

lemma after_dash_digits [simp]: "list_all is_digit xs \<Longrightarrow> after_dash (xs @ dash # ys) = ys"
  unfolding after_dash_def by (induction xs) (auto simp: is_digit_def dash_def)

lemma atoi_digits:
  assumes "list_all is_digit xs" "xs \<noteq> []"
  shows "atoi (xs @ dash # ys) = int (digits_val xs)" "atoi xs = int (digits_val xs)"
proof -
  obtain x zs where "xs = x # zs" "x \<noteq> dash" using assms dash_no_digit
    by (metis list.exhaust list.pred_inject(2))
  then show "atoi (xs @ dash # ys) = int (digits_val xs)" "atoi xs = int (digits_val xs)"
    using takeWhile_digits [OF assms(1)] by (simp_all add: atoi_def)
qed

lemma date_match_split:
  assumes "date_match s"
  obtains ys ms ds where "s = ys @ dash # ms @ dash # ds" "list_all is_digit (ys @ ms @ ds)"
    "length ys \<le> 4" "length ms \<in> {1, 2}" "length ds \<in> {1, 2}"
proof -
  define ys r where "ys = takeWhile is_digit s" and "r = dropWhile is_digit s"
  define ms r' where "ms = takeWhile is_digit (tl r)" and "r' = dropWhile is_digit (tl r)"
  have dm: "length ys \<le> 4" "r \<noteq> []" "hd r = dash" "length ms \<in> {1, 2}" "r' \<noteq> []" "hd r' = dash"
    "length (tl r') \<in> {1, 2}" "list_all is_digit (tl r')"
    using assms by (auto simp: date_match_def Let_def ys_def r_def ms_def r'_def)
  have "s = ys @ r" "tl r = ms @ r'" by (simp_all add: ys_def r_def ms_def r'_def)
  moreover have "r = dash # tl r" "r' = dash # tl r'" using dm by (metis list.collapse)+
  ultimately have "s = ys @ dash # ms @ dash # tl r'" by metis
  moreover have "list_all is_digit ys" "list_all is_digit ms"
    by (auto simp: ys_def ms_def list_all_iff dest: set_takeWhileD)
  ultimately show ?thesis using dm by (intro that [of ys ms "tl r'"]) auto
qed

lemma date_literal_match:
  assumes "date_literal s y m d"
  shows "date_match s" "atoi s = int y" "atoi (after_dash s) = int m"
    "atoi (after_dash (after_dash s)) = int d"
proof -
  from assms obtain ys ms ds where s: "s = ys @ dash # ms @ dash # ds" "list_all is_digit (ys @ ms @ ds)"
    "length ys \<in> {1, 2, 3, 4}" "length ms \<in> {1, 2}" "length ds \<in> {1, 2}"
    "y = digits_val ys" "m = digits_val ms" "d = digits_val ds"
    by (auto simp: date_literal_def)
  then have ne: "ys \<noteq> []" "ms \<noteq> []" "ds \<noteq> []" by auto
  show "date_match s" using s by (auto simp: date_match_def takeWhile_digits)
  show "atoi s = int y" "atoi (after_dash s) = int m" "atoi (after_dash (after_dash s)) = int d"
    using s ne by (simp_all add: atoi_digits)
qed

definition in_range :: "nat \<Rightarrow> nat \<Rightarrow> nat \<Rightarrow> bool" where
  "in_range y m d \<longleftrightarrow> (1970, 1, 1) \<le> (y, m, d) \<and> (y, m, d) \<le> (2038, 3, 1)"

lemma in_range_check:
  "real_date y m d \<Longrightarrow> check_dateRange theGlobalDateUtil (int y) (int m) (int d) \<longleftrightarrow> in_range y m d"
  by (auto simp: check_dateRange_def theGlobalDateUtil_def in_range_def real_date_def)

lemma date_bounds:
  assumes "real_date y m d" "in_range y m d"
  shows "y < 10000" "m < 100" "d < 100"
proof -
  show "y < 10000" using assms(2) by (auto simp: in_range_def)
  show "m < 100" "d < 100"
    using assms(1) unfolding real_date_def by (auto split: if_split_asm)
qed

lemma real_date_int:
  "real_date y m d \<longleftrightarrow>
     \<not> (int m > 12 \<or> int m < 1 \<or> int d > 31 \<or> int d < 1 \<or>
        ((int m = 4 \<or> int m = 6 \<or> int m = 9 \<or> int m = 11) \<and> int d > 30) \<or>
        (int m = 2 \<and> int d > 28 + (if int y mod 400 = 0 \<or> int y mod 4 = 0 \<and> int y mod 100 \<noteq> 0 then 1 else 0)))"
  (is "_ \<longleftrightarrow> \<not> ?bad")
proof -
  have leap: "(int y mod 400 = 0 \<or> int y mod 4 = 0 \<and> int y mod 100 \<noteq> 0) \<longleftrightarrow>
      4 dvd y \<and> (\<not> 100 dvd y \<or> 400 dvd y)"
  proof -
    have "int y mod 400 = 0 \<longleftrightarrow> 400 dvd y" "int y mod 100 = 0 \<longleftrightarrow> 100 dvd y" "int y mod 4 = 0 \<longleftrightarrow> 4 dvd y"
      by (metis dvd_eq_mod_eq_0 int_dvd_int_iff of_nat_numeral)+
    moreover have "400 dvd y \<Longrightarrow> 4 dvd y" using dvd_trans [of 4 400 y] by simp
    ultimately show ?thesis by auto
  qed
  show ?thesis unfolding leap real_date_def by auto
qed

lemma date_string_no_zero: "0 \<notin> set (date_string y m d)"
proof -
  have "is_digit b \<Longrightarrow> b \<noteq> 0" for b by (auto simp: is_digit_def)
  then show ?thesis
    using zpad_digits [of 4 y] zpad_digits [of 2 m] zpad_digits [of 2 d]
    by (auto simp: date_string_def dash_def list_all_iff)
qed

lemma string_atI: "0 \<notin> set xs \<Longrightarrow> (\<And>i. i < length xs + 1 \<Longrightarrow> a i = (xs @ [0]) ! i) \<Longrightarrow> string_at a xs"
  by (simp add: string_at_def nth_append)

lemma length_2_4:
  "length xs = 2 \<Longrightarrow> \<exists>u v. xs = [u, v]" "length xs = 4 \<Longrightarrow> \<exists>p q r t. xs = [p, q, r, t]"
  by (auto simp: length_Suc_conv numeral_eq_Suc)

lemma stored_form:
  fixes a :: bytes
  assumes "y < 10000" "m < 100" "d < 100"
  defines "a1 \<equiv> store_string a 0 (zpad 4 y)"
  defines "a2 \<equiv> store_string a1 5 (zpad 2 m)"
  defines "a3 \<equiv> store_string a2 8 (zpad 2 d)"
  shows "string_at (a3(4 := dash, 7 := dash, 10 := 0, 11 := 0)) (date_string y m d)"
proof -
  obtain p q r t where y: "zpad 4 y = [p, q, r, t]"
    using length_2_4(2) [of "zpad 4 y"] length_zpad [of y 4] assms(1) by auto
  obtain u v where m: "zpad 2 m = [u, v]"
    using length_2_4(1) [of "zpad 2 m"] length_zpad [of m 2] assms(2) by auto
  obtain w x where d: "zpad 2 d = [w, x]"
    using length_2_4(1) [of "zpad 2 d"] length_zpad [of d 2] assms(3) by auto
  have s: "date_string y m d = [p, q, r, t, dash, u, v, dash, w, x]"
    by (simp add: date_string_def y m d)
  show ?thesis
  proof (rule string_atI [OF date_string_no_zero])
    fix i
    assume "i < length (date_string y m d) + 1"
    then have "i < 11" by (simp add: s)
    then have "i \<in> {0, 1, 2, 3, 4, 5, 6, 7, 8, 9, 10}" by simp arith
    then show "(a3(4 := dash, 7 := dash, 10 := 0, 11 := 0)) i = (date_string y m d @ [0]) ! i"
      unfolding s a1_def a2_def a3_def store_string_def memcpy_def c_string_def y m d
      by (elim insertE emptyE) simp_all
  qed
qed

lemma date_accepted:
  assumes l: "date_literal (c_str dat) y m d" and r: "real_date y m d" "in_range y m d"
  shows "\<exists>dat'. Check_and_format_date theGlobalDateUtil dat = (SUCCESS, dat') \<and>
           string_at dat' (date_string y m d) \<and> dat' 11 = 0"
proof -
  note b = date_bounds [OF r]
  have c: "check_dateRange theGlobalDateUtil (int y) (int m) (int d)" using r by (simp add: in_range_check)
  show ?thesis
    using stored_form [OF b, of dat] r(1) [unfolded real_date_int] c
    by (simp add: Check_and_format_date_def date_literal_match [OF l] Let_def)
qed

lemma date_rejected:
  assumes "\<not> (\<exists>y m d. date_literal (c_str dat) y m d \<and> real_date y m d \<and> in_range y m d)"
  shows "Check_and_format_date theGlobalDateUtil dat = (Inl SCHEMA_FIELD_TYPE_MISMATCH, dat)"
proof (cases "date_match (c_str dat)")
  case True
  then obtain ys ms ds where s: "c_str dat = ys @ dash # ms @ dash # ds" "list_all is_digit (ys @ ms @ ds)"
    "length ys \<le> 4" "length ms \<in> {1, 2}" "length ds \<in> {1, 2}"
    by (rule date_match_split)
  show ?thesis
  proof (cases "ys = []")
    case True
    then have c: "c_str dat = dash # ms @ dash # ds" "list_all is_digit ms" "ms \<noteq> []" using s by auto
    have "atoi (c_str dat) = - int (digits_val ms)"
      using c(1,2) by (simp add: atoi_def takeWhile_digits)
    moreover have "atoi (after_dash (c_str dat)) = int (digits_val ms)"
      using c atoi_digits(1) [of ms ds] by (simp add: after_dash_def)
    ultimately show ?thesis by (auto simp: Check_and_format_date_def Let_def)
  next
    case False
    define y m d where "y = digits_val ys" and "m = digits_val ms" and "d = digits_val ds"
    have l: "date_literal (c_str dat) y m d"
      unfolding date_literal_def using s False by (intro exI [of _ ys] exI [of _ ms] exI [of _ ds])
        (auto simp: y_def m_def d_def le_Suc_eq numeral_eq_Suc)
    then have "\<not> real_date y m d \<or> \<not> check_dateRange theGlobalDateUtil (int y) (int m) (int d)"
      using assms in_range_check by blast
    then show ?thesis
      unfolding real_date_int by (auto simp: Check_and_format_date_def date_literal_match [OF l] Let_def)
  qed
qed (simp add: Check_and_format_date_def)


lemma lexcmp_Cons_same: "lexcmp (x # xs) (x # ys) = lexcmp xs ys"
  by simp

lemma lexcmp_date_string:
  assumes "y < 10000" "y' < 10000" "m < 100" "m' < 100" "d < 100" "d' < 100"
  shows "lexcmp (date_string y m d) (date_string y' m' d') =
    (if (y, m, d) < (y', m', d') then - 1 else if (y, m, d) = (y', m', d') then 0 else 1)"
proof -
  have z: "lexcmp (zpad 4 y) (zpad 4 y') = sgn (int y - int y')"
    "lexcmp (zpad 2 m) (zpad 2 m') = sgn (int m - int m')"
    "lexcmp (zpad 2 d) (zpad 2 d') = sgn (int d - int d')"
    using assms by (simp_all add: lexcmp_digits zpad_digits)
  have "lexcmp (date_string y m d) (date_string y' m' d') =
      (if y \<noteq> y' then sgn (int y - int y') else if m \<noteq> m' then sgn (int m - int m') else sgn (int d - int d'))"
    using assms unfolding date_string_def by (simp add: lexcmp_append z sgn_eq_0_iff)
  then show ?thesis by (auto simp: sgn_if)
qed

lemma strcmp_date_strings:
  assumes "string_at a (date_string y m d)" "real_date y m d" "in_range y m d"
    and "string_at b (date_string y' m' d')" "real_date y' m' d'" "in_range y' m' d'"
  shows "strcmp a b =
    Inr (if (y, m, d) < (y', m', d') then - 1 else if (y, m, d) = (y', m', d') then 0 else 1)"
proof -
  note b = date_bounds [OF assms(2,3)] date_bounds [OF assms(5,6)]
  then have "length (date_string y m d) < BP_PAGE_SIZE" by (simp add: date_string_def BP_PAGE_SIZE_def)
  then show ?thesis using strcmp_string_at assms(1,4) lexcmp_date_string b by simp
qed

text \<open>Comparing two stored dates as strings, as the condition filter and the index do, is
  comparing the days.\<close>

theorem stored_dates_ordered:
  assumes "string_at a (date_string y m d)" "real_date y m d" "in_range y m d"
    and "string_at b (date_string y' m' d')" "real_date y' m' d'" "in_range y' m' d'"
  shows "strcmp a b =
    Inr (if (y, m, d) < (y', m', d') then - 1 else if (y, m, d) = (y', m', d') then 0 else 1)"
  using assms by (rule strcmp_date_strings)

lemma stored_dates_ordered_witness:
  "strcmp (store_string (\<lambda>_. 7) 0 (date_string 1999 12 31)) (store_string (\<lambda>_. 9) 0 (date_string 2000 1 1)) =
     Inr (- 1)"
  using stored_dates_ordered [where a = "store_string (\<lambda>_. 7) 0 (date_string 1999 12 31)"
      and b = "store_string (\<lambda>_. 9) 0 (date_string 2000 1 1)"
      and y = 1999 and m = 12 and d = 31 and y' = 2000 and m' = 1 and d' = 1]
  by (simp add: store_string_at date_string_no_zero real_date_def in_range_def)

text \<open>The date literal of a statement is a copy of exactly its own length, and the formatted date
  needs twelve bytes: formatting a literal of ten characters, the usual case, writes the byte
  behind the copy.\<close>

lemma date_format_overruns:
  assumes "date_literal (c_str dat) y m d" "real_date y m d" "in_range y m d" "dat 11 \<noteq> 0"
  shows "\<exists>i > length (c_str dat). snd (Check_and_format_date theGlobalDateUtil dat) i \<noteq> dat i"
proof -
  have "length (c_str dat) \<le> 10"
    using assms(1) by (auto simp: date_literal_def)
  then show ?thesis using date_accepted [OF assms(1-3)] assms(4) by (intro exI [of _ 11]) auto
qed

end
