(* ===== verification/Condition_Filter.thy ===== *)
theory Condition_Filter
  imports Date_Util Table_Meta
begin

text \<open>
  The filters of \<^verbatim>\<open>src/src/observer/storage/common/condition_filter.cpp\<close> that work on records:
  \<^verbatim>\<open>DefaultConditionFilter\<close> and \<^verbatim>\<open>CompositeConditionFilter\<close> (updates and deletes), and
  \<^verbatim>\<open>Filter\<close> (table scans of a query).  A record is the memory its \<^verbatim>\<open>data\<close> points to.
  The two \<^verbatim>\<open>ConDesc\<close> variables of \<^verbatim>\<open>init\<close> are not initialised: what the stack held
  before is an argument.
\<close>

section \<open>Data\<close>

record RelAttr =
  relation_name :: "string option"
  attribute_name :: "string option"

text \<open>A condition without expressions and subqueries, which only the executors look at.\<close>

record Condition =
  left_is_attr :: int
  left_value :: Value
  left_attr :: RelAttr
  comp :: CompOp
  right_is_attr :: int
  right_value :: Value
  right_attr :: RelAttr

record ConDesc =
  cd_is_attr :: bool
  cd_index :: int
  cd_length :: int
  cd_offset :: int
  cd_is_null :: bool
  cd_value :: "bytes option"

record DefaultConditionFilter =
  df_table :: TableMeta
  df_left :: ConDesc
  df_right :: ConDesc
  df_attr_type :: AttrType
  df_comp_op :: CompOp

section \<open>\<^verbatim>\<open>compare_result\<close>\<close>

definition compare_result :: "int \<Rightarrow> CompOp \<Rightarrow> bool" where
  "compare_result cmp_result comp_op =
     (case comp_op of
        EQUAL_TO \<Rightarrow> 0 = cmp_result
      | LESS_EQUAL \<Rightarrow> cmp_result \<le> 0
      | NOT_EQUAL \<Rightarrow> cmp_result \<noteq> 0
      | LESS_THAN \<Rightarrow> cmp_result < 0
      | GREAT_EQUAL \<Rightarrow> cmp_result \<ge> 0
      | GREAT_THAN \<Rightarrow> cmp_result > 0
      | _ \<Rightarrow> False)"

text \<open>The comparison of two values, which \<^verbatim>\<open>DefaultConditionFilter::filter\<close> and
  \<^verbatim>\<open>Filter::filter\<close> both contain.  The difference of two \<^verbatim>\<open>int\<close>s can leave the range of
  \<^verbatim>\<open>int\<close>, which is undefined behaviour.\<close>

definition compare_values :: "AttrType \<Rightarrow> bytes \<Rightarrow> bytes \<Rightarrow> int result" where
  "compare_values attr_type a b =
     (case attr_type of
        CHARS \<Rightarrow> strcmp a b
      | INTS \<Rightarrow> (let d = get_int a 0 - get_int b 0 in if int32 d then Inr d else Inl UB)
      | FLOATS \<Rightarrow> Inr (float_compare (float_val (get32 a 0)) (float_val (get32 b 0)))
      | DATES \<Rightarrow> strcmp a b
      | _ \<Rightarrow> Inr 0)"

definition compare_with :: "AttrType \<Rightarrow> CompOp \<Rightarrow> bytes \<Rightarrow> bytes \<Rightarrow> bool result" where
  "compare_with attr_type op a b =
     (case compare_values attr_type a b of Inl e \<Rightarrow> Inl e | Inr r \<Rightarrow> Inr (compare_result r op))"

section \<open>\<^verbatim>\<open>DefaultConditionFilter\<close>\<close>

definition df_init ::
  "TableMeta \<Rightarrow> ConDesc \<Rightarrow> ConDesc \<Rightarrow> AttrType \<Rightarrow> CompOp \<Rightarrow> DefaultConditionFilter result" where
  "df_init tm left right attr_type comp_op =
     (if attr_type = UNDEFINED \<and> \<not> cd_is_null left then Inl INVALID_ARGUMENT
      else if comp_op = NO_OP then Inl INVALID_ARGUMENT
      else Inr \<lparr>df_table = tm, df_left = left, df_right = right, df_attr_type = attr_type,
                df_comp_op = comp_op\<rparr>)"

text \<open>One side of a condition; \<open>other_is_attr\<close> and \<open>other\<close> are the other side, whose type turns a
  string into a date.\<close>

definition is_date_attr :: "TableMeta \<Rightarrow> RelAttr \<Rightarrow> bool" where
  "is_date_attr tm a =
     (case field_named tm (attribute_name a) of None \<Rightarrow> False | Some f \<Rightarrow> fm_type f = DATES)"

definition df_side ::
  "TableMeta \<Rightarrow> ConDesc \<Rightarrow> int \<Rightarrow> RelAttr \<Rightarrow> Value \<Rightarrow> int \<Rightarrow> RelAttr \<Rightarrow> (ConDesc \<times> AttrType) result" where
  "df_side tm junk is_attr attr val other_is_attr other =
     (if is_attr = 1 then
        (case field_named tm (attribute_name attr) of
           None \<Rightarrow> Inl SCHEMA_FIELD_MISSING
         | Some f \<Rightarrow>
             Inr (junk\<lparr>cd_is_attr := True, cd_index := field_index tm (attribute_name attr),
                       cd_length := fm_len f, cd_offset := fm_offset f, cd_value := None\<rparr>, fm_type f))
      else
        let d = junk\<lparr>cd_is_attr := False, cd_length := 0, cd_offset := 0\<rparr> in
        if visnull val \<noteq> 0 then Inr (d\<lparr>cd_is_null := True\<rparr>, UNDEFINED)
        else Inr (d\<lparr>cd_is_null := False, cd_value := vdata val\<rparr>,
                  if other_is_attr \<noteq> 0 \<and> is_date_attr tm other \<and> vtype val = CHARS then DATES
                  else vtype val))"

text \<open>A value compared with a date column is checked and formatted in the buffer of the condition;
  the descriptor points to the same buffer.\<close>

definition format_side ::
  "TableMeta \<Rightarrow> int \<Rightarrow> Value \<Rightarrow> int \<Rightarrow> RelAttr \<Rightarrow> ConDesc \<Rightarrow> (ConDesc \<times> Value) result \<times> Value" where
  "format_side tm is_attr val other_is_attr other d =
     (if is_attr = 0 \<and> visnull val = 0 \<and> other_is_attr \<noteq> 0 then
        if \<not> is_date_attr tm other then (Inr (d, val), val)
        else (case cd_value d of
                None \<Rightarrow> (Inl UB, val)
              | Some buf \<Rightarrow>
                  let (r, buf') = Check_and_format_date theGlobalDateUtil buf; val' = val\<lparr>vdata := Some buf'\<rparr>
                  in if r \<noteq> SUCCESS then (Inl SCHEMA_FIELD_TYPE_MISMATCH, val')
                     else (Inr (d\<lparr>cd_value := Some buf'\<rparr>, val'), val'))
      else (Inr (d, val), val))"

definition df_init_condition ::
  "TableMeta \<Rightarrow> ConDesc \<Rightarrow> ConDesc \<Rightarrow> Condition \<Rightarrow> DefaultConditionFilter result \<times> Condition" where
  "df_init_condition tm junk_left junk_right c =
     (case df_side tm junk_left (left_is_attr c) (left_attr c) (left_value c) (right_is_attr c) (right_attr c) of
        Inl e \<Rightarrow> (Inl e, c)
      | Inr (left, type_left) \<Rightarrow>
          (case df_side tm junk_right (right_is_attr c) (right_attr c) (right_value c) (left_is_attr c) (left_attr c) of
             Inl e \<Rightarrow> (Inl e, c)
           | Inr (right, type_right) \<Rightarrow>
               (case format_side tm (left_is_attr c) (left_value c) (right_is_attr c) (right_attr c) left of
                  (Inl e, v) \<Rightarrow> (Inl e, c\<lparr>left_value := v\<rparr>)
                | (Inr (left, v), _) \<Rightarrow>
                    let c = c\<lparr>left_value := v\<rparr> in
                    (case format_side tm (right_is_attr c) (right_value c) (left_is_attr c) (left_attr c) right of
                       (Inl e, w) \<Rightarrow> (Inl e, c\<lparr>right_value := w\<rparr>)
                     | (Inr (right, w), _) \<Rightarrow>
                         let c = c\<lparr>right_value := w\<rparr> in
                         if \<not> cd_is_null left \<and> \<not> cd_is_null right \<and> type_left \<noteq> type_right
                         then (Inl SCHEMA_FIELD_TYPE_MISMATCH, c)
                         else if (comp c = IS \<or> comp c = IS_NOT) \<and> \<not> cd_is_null right
                         then (Inl SCHEMA_FIELD_TYPE_MISMATCH, c)
                         else (df_init tm left right type_left (comp c), c)))))"

text \<open>The pointer a side stands for on a record, null for an SQL null.\<close>

definition side_value :: "TableMeta \<Rightarrow> ConDesc \<Rightarrow> bytes \<Rightarrow> bytes option" where
  "side_value tm d r =
     (if cd_is_attr d then
        if get_bit r \<lparr>bitmap = 0, bsize = field_num tm\<rparr> (nat (cd_index d)) then None
        else Some (\<lambda>i. r (nat (cd_offset d) + i))
      else if cd_is_null d then None
      else cd_value d)"

definition df_filter :: "DefaultConditionFilter \<Rightarrow> bytes \<Rightarrow> bool result" where
  "df_filter f r =
     (case (side_value (df_table f) (df_left f) r, side_value (df_table f) (df_right f) r) of
        (None, None) \<Rightarrow> Inr (df_comp_op f = IS)
      | (Some _, None) \<Rightarrow> Inr (df_comp_op f = IS_NOT)
      | (None, Some _) \<Rightarrow> Inr False
      | (Some a, Some b) \<Rightarrow> compare_with (df_attr_type f) (df_comp_op f) a b)"

section \<open>\<^verbatim>\<open>Filter\<close>\<close>

record FilterDesc =
  fd_is_attr :: bool
  fd_table_name :: string
  fd_field_name :: string
  fd_value :: Value
  fd_attr_length :: int
  fd_attr_offset :: int

record Filter =
  f_left :: FilterDesc
  f_right :: FilterDesc
  f_comp_op :: CompOp

text \<open>\<^verbatim>\<open>bind_table\<close>; of the fresh \<^verbatim>\<open>Value\<close> only the type is set, the rest is \<open>junk\<close>.\<close>

definition bind_side :: "TableMeta \<Rightarrow> Value \<Rightarrow> FilterDesc \<Rightarrow> FilterDesc result" where
  "bind_side tm junk d =
     (if fd_is_attr d then
        (case field_named tm (Some (fd_field_name d)) of
           None \<Rightarrow> Inl SCHEMA_FIELD_MISSING
         | Some f \<Rightarrow> Inr (d\<lparr>fd_attr_length := fm_len f, fd_attr_offset := fm_offset f,
                            fd_value := junk\<lparr>vtype := fm_type f\<rparr>\<rparr>))
      else Inr d)"

definition date_side :: "FilterDesc \<Rightarrow> FilterDesc \<Rightarrow> FilterDesc" where
  "date_side other d =
     (if fd_is_attr other \<and> vtype (fd_value other) = DATES \<and> \<not> fd_is_attr d \<and> vtype (fd_value d) = CHARS
      then d\<lparr>fd_value := (fd_value d)\<lparr>vtype := DATES\<rparr>\<rparr> else d)"

definition check_date_side :: "FilterDesc \<Rightarrow> unit result \<times> FilterDesc" where
  "check_date_side d =
     (if \<not> fd_is_attr d \<and> vtype (fd_value d) = DATES then
        (case vdata (fd_value d) of
           None \<Rightarrow> (Inl UB, d)
         | Some buf \<Rightarrow>
             let (r, buf') = Check_and_format_date theGlobalDateUtil buf
             in (r, d\<lparr>fd_value := (fd_value d)\<lparr>vdata := Some buf'\<rparr>\<rparr>))
      else (SUCCESS, d))"

definition bind_table :: "TableMeta \<Rightarrow> Value \<Rightarrow> Value \<Rightarrow> Filter \<Rightarrow> unit result \<times> Filter" where
  "bind_table tm junk_left junk_right f =
     (case bind_side tm junk_left (f_left f) of
        Inl e \<Rightarrow> (Inl e, f)
      | Inr l \<Rightarrow>
          (case bind_side tm junk_right (f_right f) of
             Inl e \<Rightarrow> (Inl e, f\<lparr>f_left := l\<rparr>)
           | Inr r \<Rightarrow>
               let r = date_side l r; l = date_side r l; (res_l, l) = check_date_side l in
               if res_l = Inl UB then (Inl UB, f\<lparr>f_left := l, f_right := r\<rparr>)
               else if res_l \<noteq> SUCCESS then (Inl SCHEMA_FIELD_TYPE_MISMATCH, f\<lparr>f_left := l, f_right := r\<rparr>)
               else
                 let (res_r, r) = check_date_side r; f = f\<lparr>f_left := l, f_right := r\<rparr> in
                 if res_r = Inl UB then (Inl UB, f)
                 else if res_r \<noteq> SUCCESS then (Inl SCHEMA_FIELD_TYPE_MISMATCH, f)
                 else if vtype (fd_value l) \<noteq> vtype (fd_value r) then (Inl SCHEMA_FIELD_TYPE_MISMATCH, f)
                 else (SUCCESS, f)))"

definition filter_side :: "FilterDesc \<Rightarrow> bytes \<Rightarrow> bytes option" where
  "filter_side d r = (if fd_is_attr d then Some (\<lambda>i. r (nat (fd_attr_offset d) + i)) else vdata (fd_value d))"

text \<open>\<^verbatim>\<open>Filter::filter(const Record &)\<close>; a failed assertion or a null pointer is \<open>UB\<close>.  The null
  bitmap of the record is not looked at.\<close>

definition Filter_filter :: "Filter \<Rightarrow> bytes \<Rightarrow> bool result" where
  "Filter_filter f r =
     (if vtype (fd_value (f_left f)) \<noteq> vtype (fd_value (f_right f)) then Inl UB
      else case (filter_side (f_left f) r, filter_side (f_right f) r) of
             (Some a, Some b) \<Rightarrow> compare_with (vtype (fd_value (f_left f))) (f_comp_op f) a b
           | _ \<Rightarrow> Inl UB)"

section \<open>\<^verbatim>\<open>CompositeConditionFilter\<close>\<close>

text \<open>The classes that implement \<^verbatim>\<open>ConditionFilter\<close>; \<^verbatim>\<open>filter_num_\<close> is the length of the
  array.\<close>

datatype ConditionFilter =
    Default DefaultConditionFilter
  | Record_Filter Filter
  | Composite "ConditionFilter list"

text \<open>\<^verbatim>\<open>CompositeConditionFilter::init(Table &, const Condition *, int)\<close>: \<open>stack\<close> gives the old
  contents of the two descriptors in each call.\<close>

fun composite_filters ::
  "TableMeta \<Rightarrow> (nat \<Rightarrow> ConDesc \<times> ConDesc) \<Rightarrow> nat \<Rightarrow> Condition list \<Rightarrow> ConditionFilter list result" where
  "composite_filters tm stack i [] = Inr []"
| "composite_filters tm stack i (c # cs) =
     (case fst (df_init_condition tm (fst (stack i)) (snd (stack i)) c) of
        Inl e \<Rightarrow> Inl e
      | Inr f \<Rightarrow>
          (case composite_filters tm stack (i + 1) cs of
             Inl e \<Rightarrow> Inl e
           | Inr fs \<Rightarrow> Inr (Default f # fs)))"

definition composite_init ::
  "TableMeta \<Rightarrow> (nat \<Rightarrow> ConDesc \<times> ConDesc) \<Rightarrow> Condition list \<Rightarrow> ConditionFilter result" where
  "composite_init tm stack cs =
     (case composite_filters tm stack 0 cs of Inl e \<Rightarrow> Inl e | Inr fs \<Rightarrow> Inr (Composite fs))"

fun filter_record :: "ConditionFilter \<Rightarrow> bytes \<Rightarrow> bool result"
  and filter_all :: "ConditionFilter list \<Rightarrow> bytes \<Rightarrow> bool result" where
  "filter_record (Default f) r = df_filter f r"
| "filter_record (Record_Filter f) r = Filter_filter f r"
| "filter_record (Composite fs) r = filter_all fs r"
| "filter_all [] r = Inr True"
| "filter_all (f # fs) r =
     (case filter_record f r of
        Inl e \<Rightarrow> Inl e
      | Inr b \<Rightarrow> if b then filter_all fs r else Inr False)"

section \<open>What the conditions mean\<close>

definition sql_compare :: "CompOp \<Rightarrow> 'a :: linorder \<Rightarrow> 'a \<Rightarrow> bool" where
  "sql_compare op a b =
     (case op of
        EQUAL_TO \<Rightarrow> a = b | LESS_EQUAL \<Rightarrow> a \<le> b | NOT_EQUAL \<Rightarrow> a \<noteq> b
      | LESS_THAN \<Rightarrow> a < b | GREAT_EQUAL \<Rightarrow> b \<le> a | GREAT_THAN \<Rightarrow> b < a
      | _ \<Rightarrow> False)"

lemma compare_result_sign:
  "(d < 0 \<longleftrightarrow> a < b) \<Longrightarrow> (d = 0 \<longleftrightarrow> a = b) \<Longrightarrow> compare_result d op = sql_compare op a b"
  by (cases op) (auto simp: compare_result_def sql_compare_def)

text \<open>The field a condition names, and whether it is null in a record.\<close>

definition is_null_in :: "TableMeta \<Rightarrow> RelAttr \<Rightarrow> bytes \<Rightarrow> bool" where
  "is_null_in tm a r = get_bit r \<lparr>bitmap = 0, bsize = field_num tm\<rparr> (nat (field_index tm (attribute_name a)))"

definition field_mem :: "FieldMeta \<Rightarrow> bytes \<Rightarrow> bytes" where
  "field_mem f r = (\<lambda>i. r (nat (fm_offset f) + i))"

text \<open>The filter made of a condition that compares a field with a value of its type.\<close>

lemma df_init_attr_value:
  assumes "left_is_attr c = 1" "field_named tm (attribute_name (left_attr c)) = Some f"
    and "right_is_attr c = 0" "visnull (right_value c) = 0" "fm_type f \<noteq> UNDEFINED"
    and "comp c \<notin> {IS, IS_NOT, NO_OP}"
    and "(vtype (right_value c) = fm_type f \<or> cd_is_null junk_left) \<and> fm_type f \<noteq> DATES \<and>
           vdata (right_value c) = Some v \<or>
         vtype (right_value c) = CHARS \<and> fm_type f = DATES \<and> vdata (right_value c) = Some buf \<and>
         Check_and_format_date theGlobalDateUtil buf = (SUCCESS, v)"
  shows "\<exists>flt. fst (df_init_condition tm junk_left junk_right c) = Inr flt \<and>
    (\<forall>r. df_filter flt r =
       (if is_null_in tm (left_attr c) r then Inr False
        else compare_with (fm_type f) (comp c) (field_mem f r) v))"
proof -
  define left where "left = junk_left\<lparr>cd_is_attr := True, cd_index := field_index tm (attribute_name (left_attr c)),
    cd_length := fm_len f, cd_offset := fm_offset f, cd_value := None\<rparr>"
  define right where "right = junk_right\<lparr>cd_is_attr := False, cd_length := 0, cd_offset := 0,
    cd_is_null := False, cd_value := vdata (right_value c)\<rparr>"
  have d: "is_date_attr tm (left_attr c) \<longleftrightarrow> fm_type f = DATES"
    using assms(2) by (simp add: is_date_attr_def)
  define ty where "ty = (if fm_type f = DATES then DATES else vtype (right_value c))"
  have sides: "df_side tm junk_left (left_is_attr c) (left_attr c) (left_value c) (right_is_attr c) (right_attr c) =
      Inr (left, fm_type f)"
    "df_side tm junk_right (right_is_attr c) (right_attr c) (right_value c) (left_is_attr c) (left_attr c) =
      Inr (right, ty)"
    using assms(1-4,7) d by (auto simp: df_side_def left_def right_def ty_def)
  have ok: "cd_is_null left \<or> fm_type f = ty" using assms(7) by (auto simp: left_def ty_def)
  have formats: "format_side tm (left_is_attr c) (left_value c) (right_is_attr c) (right_attr c) left =
      (Inr (left, left_value c), left_value c)"
    "\<exists>w. format_side tm (right_is_attr c) (right_value c) (left_is_attr c) (left_attr c) right =
      (Inr (right\<lparr>cd_value := Some v\<rparr>, w), w)"
    using assms(1,3,4,7) d by (auto simp: format_side_def right_def Let_def)
  then obtain w where w: "format_side tm (right_is_attr c) (right_value c) (left_is_attr c) (left_attr c) right =
      (Inr (right\<lparr>cd_value := Some v\<rparr>, w), w)"
    by blast
  have "fst (df_init_condition tm junk_left junk_right c) =
      df_init tm left (right\<lparr>cd_value := Some v\<rparr>) (fm_type f) (comp c)"
    using assms(6) ok by (auto simp: df_init_condition_def sides formats(1) w)
  then show ?thesis
    using assms(5,6)
    by (auto simp: df_init_def df_filter_def side_value_def is_null_in_def field_mem_def left_def right_def)
qed

lemma c_str_string_at:
  assumes "string_at a s" "length s \<le> 10"
  shows "c_str a = s"
proof -
  have "map a [0..<11] = s @ 0 # map a [Suc (length s)..<11]"
  proof -
    have "[0..<11] = [0..<length s] @ length s # [Suc (length s)..<11]"
      using assms(2) upt_add_eq_append [of 0 "length s" "11 - length s"] by (simp add: upt_conv_Cons)
    moreover have "map a [0..<length s] = s"
      using assms(1) by (auto simp: string_at_def intro: nth_equalityI)
    ultimately show ?thesis using assms(1) by (simp add: string_at_def)
  qed
  moreover have "0 \<notin> set s \<Longrightarrow> takeWhile (\<lambda>b. b \<noteq> 0) (s @ 0 # us) = s" for us
    by (induction s) auto
  ultimately show ?thesis using assms(1) unfolding c_str_def string_at_def by simp
qed

lemma date_literal_bytes:
  assumes "date_literal s y m d"
  shows "0 \<notin> set s \<and> length s \<le> 10"
proof -
  have "\<not> is_digit 0" "dash \<noteq> 0" by (simp_all add: is_digit_def dash_def)
  moreover obtain ys ms ds where s: "s = ys @ dash # ms @ dash # ds" "list_all is_digit (ys @ ms @ ds)"
    "length ys \<in> {1, 2, 3, 4}" "length ms \<in> {1, 2}" "length ds \<in> {1, 2}"
    using assms by (auto simp: date_literal_def)
  ultimately have "0 \<notin> set s" by (auto simp: list_all_iff)
  moreover have "length ys \<le> 4" "length ms \<le> 2" "length ds \<le> 2" using s(3-5) by auto
  ultimately show ?thesis using s(1) by simp
qed

lemma compare_result_cmp:
  "compare_result (if a < b then - 1 else if a = b then 0 else 1) op = sql_compare op a b"
  by (rule compare_result_sign) auto

text \<open>A condition between a date column and a date literal, in any of the spellings that are
  accepted, holds of a record exactly when the column is not null and the day stored in it is in
  the relation to the day of the literal, whatever the uninitialised descriptors contained.\<close>

theorem date_condition_correct:
  assumes "left_is_attr c = 1" "field_named tm (attribute_name (left_attr c)) = Some f" "fm_type f = DATES"
    and "right_is_attr c = 0" "right_value c = value_init_string mem s"
    and "date_literal s y m d" "real_date y m d" "in_range y m d"
    and "comp c \<notin> {IS, IS_NOT, NO_OP}"
    and "string_at (field_mem f r) (date_string y' m' d')" "real_date y' m' d'" "in_range y' m' d'"
  shows "\<exists>flt. fst (df_init_condition tm junk_left junk_right c) = Inr flt \<and>
    df_filter flt r =
      Inr (\<not> is_null_in tm (left_attr c) r \<and> sql_compare (comp c) (y', m', d') (y, m, d))"
proof -
  let ?buf = "store_string mem 0 s"
  have "c_str ?buf = s"
    using date_literal_bytes [OF assms(6)] by (simp add: c_str_string_at store_string_at)
  then obtain v where v: "Check_and_format_date theGlobalDateUtil ?buf = (SUCCESS, v)"
    "string_at v (date_string y m d)"
    using date_accepted [of ?buf y m d] assms(6-8) by auto
  have cmp: "compare_with DATES (comp c) (field_mem f r) v =
      Inr (sql_compare (comp c) (y', m', d') (y, m, d))"
    using strcmp_date_strings [OF assms(10-12) v(2) assms(7,8)]
    by (simp only: compare_with_def compare_values_def AttrType.simps sum.simps compare_result_cmp)
  show ?thesis
    using df_init_attr_value [of c tm f junk_left v ?buf junk_right] assms v(1) cmp
    by (auto simp: value_init_string_def)
qed

lemma string_at_store: "0 \<notin> set xs \<Longrightarrow> string_at (\<lambda>i. store_string d a xs (a + i)) xs"
  by (auto simp: string_at_def store_string_def memcpy_def c_string_def)

definition junk_desc :: ConDesc where
  "junk_desc = \<lparr>cd_is_attr = False, cd_index = 0, cd_length = 0, cd_offset = 0, cd_is_null = False, cd_value = None\<rparr>"

definition demo_meta :: TableMeta where
  "demo_meta = projr (TableMeta_init (Some ''t'') demo_attributes TableMeta_new)"

definition attr_named :: "string \<Rightarrow> RelAttr" where
  "attr_named n = \<lparr>relation_name = None, attribute_name = Some n\<rparr>"

text \<open>The condition \<open>n op v\<close>.\<close>

definition attr_value :: "string \<Rightarrow> CompOp \<Rightarrow> Value \<Rightarrow> Condition" where
  "attr_value n op v = \<lparr>left_is_attr = 1, left_value = value_init_null, left_attr = attr_named n, comp = op,
     right_is_attr = 0, right_value = v, right_attr = attr_named []\<rparr>"

lemma attr_value_simps [simp]:
  "left_is_attr (attr_value n op v) = 1" "left_attr (attr_value n op v) = attr_named n"
  "comp (attr_value n op v) = op" "right_is_attr (attr_value n op v) = 0"
  "right_value (attr_value n op v) = v" "attribute_name (attr_named n) = Some n"
  by (simp_all add: attr_value_def attr_named_def)

lemma demo_meta_fields:
  "field_named demo_meta (Some ''id'') = Some (tm_fields demo_meta ! 1)"
  "field_named demo_meta (Some ''born'') = Some (tm_fields demo_meta ! 2)"
  "fm_type (tm_fields demo_meta ! 1) = INTS" "fm_type (tm_fields demo_meta ! 2) = DATES"
  "fm_offset (tm_fields demo_meta ! 1) = 5" "fm_offset (tm_fields demo_meta ! 2) = 9"
  "field_index demo_meta (Some ''id'') = 1" "field_index demo_meta (Some ''born'') = 2"
  unfolding demo_meta_def by code_simp+

lemma date_condition_correct_witness:
  "\<exists>flt. fst (df_init_condition demo_meta junk_desc junk_desc
       (attr_value ''born'' LESS_THAN (value_init_string (\<lambda>_. 7) (date_string 2000 1 1)))) = Inr flt \<and>
     df_filter flt (store_string (\<lambda>_. 0) 9 (date_string 1999 12 31)) = Inr True"
proof -
  let ?c = "attr_value ''born'' LESS_THAN (value_init_string (\<lambda>_. 7) (date_string 2000 1 1))"
  let ?r = "store_string (\<lambda>_. 0) 9 (date_string 1999 12 31)"
  have "date_literal (date_string 2000 1 1) 2000 1 1"
    unfolding date_literal_def date_string_def using zpad_digits
    by (intro exI [of _ "zpad 4 2000"] exI [of _ "zpad 2 1"]) auto
  moreover have "real_date 2000 1 1" "in_range 2000 1 1" "real_date 1999 12 31" "in_range 1999 12 31"
    by (simp_all add: real_date_def in_range_def)
  moreover have "string_at (field_mem (tm_fields demo_meta ! 2) ?r) (date_string 1999 12 31)"
    using string_at_store [OF date_string_no_zero] by (simp add: field_mem_def demo_meta_fields)
  moreover have "\<not> is_null_in demo_meta (left_attr ?c) ?r"
    by (simp add: is_null_in_def demo_meta_fields get_bit_def store_string_def memcpy_def)
  ultimately show ?thesis
    using date_condition_correct [of ?c demo_meta "tm_fields demo_meta ! 2" "\<lambda>_. 7" "date_string 2000 1 1"
        2000 1 1 ?r 1999 12 31 junk_desc junk_desc]
    by (simp add: demo_meta_fields sql_compare_def)
qed

text \<open>A condition between an integer column and an integer holds exactly when the column is not
  null and the two numbers are in the relation; when their difference is no \<^verbatim>\<open>int\<close> the
  comparison overflows.\<close>

theorem int_condition_correct:
  assumes "left_is_attr c = 1" "field_named tm (attribute_name (left_attr c)) = Some f" "fm_type f = INTS"
    and "right_is_attr c = 0" "right_value c = value_init_integer mem v" "int32 v"
    and "comp c \<notin> {IS, IS_NOT, NO_OP}"
  shows "\<exists>flt. fst (df_init_condition tm junk_left junk_right c) = Inr flt \<and>
    (\<forall>r. df_filter flt r =
       (if is_null_in tm (left_attr c) r then Inr False
        else let a = get_int (field_mem f r) 0
             in if int32 (a - v) then Inr (sql_compare (comp c) a v) else Inl UB))"
proof -
  have "compare_with INTS op a (put_int mem 0 v) =
      (if int32 (get_int a 0 - v) then Inr (sql_compare op (get_int a 0) v) else Inl UB)" for op a
    using assms(6)
    by (auto simp: compare_with_def compare_values_def Let_def intro!: compare_result_sign)
  moreover obtain flt where "fst (df_init_condition tm junk_left junk_right c) = Inr flt"
    "\<forall>r. df_filter flt r = (if is_null_in tm (left_attr c) r then Inr False
       else compare_with INTS (comp c) (field_mem f r) (put_int mem 0 v))"
    using df_init_attr_value [of c tm f junk_left "put_int mem 0 v" undefined junk_right] assms
    by (auto simp: value_init_integer_def)
  ultimately show ?thesis by (intro exI [of _ flt]) (simp add: Let_def)
qed

lemma int_condition_correct_witness:
  "\<exists>flt. fst (df_init_condition demo_meta junk_desc junk_desc
       (attr_value ''id'' GREAT_THAN (value_init_integer (\<lambda>_. 7) 3))) = Inr flt \<and>
     df_filter flt (put_int (\<lambda>_. 0) 5 8) = Inr True"
proof -
  have "get_int (\<lambda>i. put_int (\<lambda>_. 0) 5 8 (5 + i)) 0 = 8" by code_simp
  moreover have "\<not> is_null_in demo_meta (attr_named ''id'') (put_int (\<lambda>_. 0) 5 8)"
    by (simp add: is_null_in_def demo_meta_fields get_bit_def put_int_other)
  ultimately show ?thesis
    using int_condition_correct [of "attr_value ''id'' GREAT_THAN (value_init_integer (\<lambda>_. 7) 3)" demo_meta
        "tm_fields demo_meta ! 1" "\<lambda>_. 7" 3 junk_desc junk_desc]
    by (auto simp: demo_meta_fields field_mem_def int32_def sql_compare_def Let_def simp del: One_nat_def)
qed

text \<open>A comparison of a column with null: \<^verbatim>\<open>is null\<close> holds exactly of the records where the
  column is null, \<^verbatim>\<open>is not null\<close> exactly of the others, and any other operator of none.\<close>

theorem null_condition_correct:
  assumes "left_is_attr c = 1" "field_named tm (attribute_name (left_attr c)) = Some f" "fm_type f \<noteq> UNDEFINED"
    and "right_is_attr c = 0" "right_value c = value_init_null" "comp c \<noteq> NO_OP"
  shows "\<exists>flt. fst (df_init_condition tm junk_left junk_right c) = Inr flt \<and>
    (\<forall>r. df_filter flt r = Inr (if is_null_in tm (left_attr c) r then comp c = IS else comp c = IS_NOT))"
  using assms
  by (simp add: df_init_condition_def df_side_def format_side_def is_date_attr_def df_init_def df_filter_def
      side_value_def is_null_in_def value_init_null_def)

lemma null_condition_correct_witness:
  "\<exists>flt. fst (df_init_condition demo_meta junk_desc junk_desc (attr_value ''born'' IS value_init_null)) = Inr flt \<and>
     df_filter flt (\<lambda>_. 255) = Inr True"
proof -
  have "is_null_in demo_meta (attr_named ''born'') (\<lambda>_. 255)"
    by (simp add: is_null_in_def demo_meta_fields get_bit_def)
  then show ?thesis
    using null_condition_correct [of "attr_value ''born'' IS value_init_null" demo_meta "tm_fields demo_meta ! 2"
        junk_desc junk_desc]
    by (auto simp: demo_meta_fields)
qed

text \<open>The null flag of a descriptor is never set for a column.  Comparing an integer column with
  a string is refused when the flag happens to be clear, and accepted when it happens to be set: then
  the filter compares the column with the first four characters of the string.\<close>

theorem uninitialised_null_flag:
  assumes "left_is_attr c = 1" "field_named tm (attribute_name (left_attr c)) = Some f" "fm_type f = INTS"
    and "right_is_attr c = 0" "right_value c = value_init_string mem s"
    and "comp c \<notin> {IS, IS_NOT, NO_OP}"
  shows "fst (df_init_condition tm (j\<lparr>cd_is_null := False\<rparr>) junk_right c) = Inl SCHEMA_FIELD_TYPE_MISMATCH \<and>
    (\<exists>flt. fst (df_init_condition tm (j\<lparr>cd_is_null := True\<rparr>) junk_right c) = Inr flt \<and>
       (\<forall>r. df_filter flt r =
          (if is_null_in tm (left_attr c) r then Inr False
           else compare_with INTS (comp c) (field_mem f r) (store_string mem 0 s))))"
proof
  show "fst (df_init_condition tm (j\<lparr>cd_is_null := False\<rparr>) junk_right c) = Inl SCHEMA_FIELD_TYPE_MISMATCH"
    using assms
    by (simp add: df_init_condition_def df_side_def format_side_def is_date_attr_def value_init_string_def)
next
  have "fm_type f = INTS" "vdata (right_value c) = Some (store_string mem 0 s)" "visnull (right_value c) = 0"
    using assms(3,5) by (simp_all add: value_init_string_def)
  then show "\<exists>flt. fst (df_init_condition tm (j\<lparr>cd_is_null := True\<rparr>) junk_right c) = Inr flt \<and>
       (\<forall>r. df_filter flt r =
          (if is_null_in tm (left_attr c) r then Inr False
           else compare_with INTS (comp c) (field_mem f r) (store_string mem 0 s)))"
    using df_init_attr_value [of c tm f "j\<lparr>cd_is_null := True\<rparr>" "store_string mem 0 s" undefined junk_right] assms
    by (simp only: AttrType.simps) simp
qed

lemma uninitialised_null_flag_witness:
  "fst (df_init_condition demo_meta (junk_desc\<lparr>cd_is_null := False\<rparr>) junk_desc
     (attr_value ''id'' EQUAL_TO (value_init_string (\<lambda>_. 7) [65]))) = Inl SCHEMA_FIELD_TYPE_MISMATCH"
  using uninitialised_null_flag [of "attr_value ''id'' EQUAL_TO (value_init_string (\<lambda>_. 7) [65])" demo_meta
      "tm_fields demo_meta ! 1" "\<lambda>_. 7" "[65]" junk_desc junk_desc]
  by (simp add: demo_meta_fields del: One_nat_def)

text \<open>A record that differs from another only in front of its fields looks the same to a bound
  \<^verbatim>\<open>Filter\<close>.\<close>

lemma compare_with_cong: "a = a' \<Longrightarrow> b = b' \<Longrightarrow> compare_with ty op a b = compare_with ty op a' b'"
  by simp

lemma bind_side_offset:
  assumes "wf_meta tm" "bind_side tm junk d = Inr d'" "fd_is_attr d'"
  shows "null_bitmap_len (field_num tm) \<le> fd_attr_offset d'"
proof -
  obtain f where f: "f \<in> set (tm_fields tm)" "fd_attr_offset d' = fm_offset f"
    using assms(2,3) find_SomeD by (fastforce simp: bind_side_def field_named_def split: if_splits option.splits)
  then obtain k where "k < length (tm_fields tm)" "f = tm_fields tm ! k" by (metis in_set_conv_nth)
  then show ?thesis using f(2) assms(1) laid_out_nth by (auto simp: wf_meta_def Let_def)
qed

lemma bind_table_offsets:
  assumes "wf_meta tm" "bind_table tm jl jr f = (SUCCESS, f')"
  shows "\<forall>d \<in> {f_left f', f_right f'}. fd_is_attr d \<longrightarrow> null_bitmap_len (field_num tm) \<le> fd_attr_offset d"
proof -
  obtain l r where lr: "bind_side tm jl (f_left f) = Inr l" "bind_side tm jr (f_right f) = Inr r"
    using assms(2) by (auto simp: bind_table_def split: sum.splits)
  have date: "fd_is_attr (date_side a b) = fd_is_attr b" "fd_attr_offset (date_side a b) = fd_attr_offset b" for a b
    by (simp_all add: date_side_def)
  have chk: "fd_is_attr (snd (check_date_side b)) = fd_is_attr b"
    "fd_attr_offset (snd (check_date_side b)) = fd_attr_offset b" for b
    by (simp_all add: check_date_side_def Let_def split: option.split prod.split)
  have "f_left f' = snd (check_date_side (date_side (date_side l r) l)) \<and> f_right f' = snd (check_date_side (date_side l r))"
    using assms(2) by (auto simp: bind_table_def lr Let_def split: prod.splits if_splits)
  then show ?thesis using lr assms(1) bind_side_offset date chk by auto
qed

text \<open>The filter of a table scan never looks at the null bitmap: two records that agree behind
  it are treated alike, so a column that is null is compared by whatever its bytes are.\<close>

theorem Filter_ignores_nulls:
  assumes "wf_meta tm" "bind_table tm junk_left junk_right f = (SUCCESS, f')"
    and "\<And>i. null_bitmap_len (field_num tm) \<le> int i \<Longrightarrow> r i = r' i"
  shows "Filter_filter f' r = Filter_filter f' r'"
proof -
  have "filter_side d r = filter_side d r'" if "d \<in> {f_left f', f_right f'}" for d
    using bind_table_offsets [OF assms(1,2)] that assms(3) null_bitmap_len_bound(2) [of "field_num tm"]
    by (auto simp: filter_side_def)
  then show ?thesis by (simp add: Filter_filter_def)
qed

definition demo_filter :: Filter where
  "demo_filter =
     (let d = \<lparr>fd_is_attr = True, fd_table_name = ''t'', fd_field_name = ''id'', fd_value = value_init_null,
               fd_attr_length = - 1, fd_attr_offset = - 1\<rparr>
      in \<lparr>f_left = d, f_right = d\<lparr>fd_is_attr := False, fd_value := value_init_integer (\<lambda>_. 7) 0\<rparr>,
          f_comp_op = EQUAL_TO\<rparr>)"

lemma Filter_ignores_nulls_witness:
  "Filter_filter (snd (bind_table demo_meta value_init_null value_init_null demo_filter)) ((\<lambda>_. 0)(0 := 2)) =
     Filter_filter (snd (bind_table demo_meta value_init_null value_init_null demo_filter)) (\<lambda>_. 0)"
proof -
  have "TableMeta_init (Some ''t'') demo_attributes TableMeta_new = Inr demo_meta"
    unfolding demo_meta_def by code_simp
  then have "wf_meta demo_meta" by (rule TableMeta_init_wf)
  moreover have "bind_table demo_meta value_init_null value_init_null demo_filter =
      (SUCCESS, snd (bind_table demo_meta value_init_null value_init_null demo_filter))"
    by (simp add: bind_table_def demo_filter_def bind_side_def demo_meta_fields date_side_def check_date_side_def
        value_init_integer_def Let_def del: One_nat_def)
  moreover have "null_bitmap_len (field_num demo_meta) = 1" unfolding demo_meta_def by code_simp
  ultimately show ?thesis by (intro Filter_ignores_nulls [where tm = demo_meta]) auto
qed

end
