(* ===== verification/Bplus_Node.thy ===== *)
theory Bplus_Node
  imports Key_Compare
begin

text \<open>
  The nodes of the B+ tree of \<^verbatim>\<open>src/src/observer/storage/common/bplus_tree.cpp\<close>: how they are
  laid out in a page, and what the tree's operations do to the nodes they hold.  \<^verbatim>\<open>keys\<close> and
  \<^verbatim>\<open>rids\<close> are arrays inside the page; here they are functions from indices, so that what lies
  beyond \<^verbatim>\<open>key_num\<close> is still there.  The loops over them are written as the code has them, with
  lemmas that say what they compute.  In a leaf \<^verbatim>\<open>rids[order - 1]\<close> is the next leaf.
\<close>

section \<open>Data\<close>

record IndexFileHeader =
  attr_length :: int
  key_length :: int
  attr_type :: AttrType
  root_page :: int
  node_num :: int
  torder :: int

record IndexNode =
  is_leaf :: int
  key_num :: int
  parent :: int
  nkeys :: "nat \<Rightarrow> key"
  nrids :: "nat \<Rightarrow> RID"

abbreviation kn :: "IndexNode \<Rightarrow> nat" where
  "kn n \<equiv> nat (key_num n)"

section \<open>Layout\<close>

text \<open>\<^verbatim>\<open>sizeof(IndexFileHeader)\<close> is 24 and \<^verbatim>\<open>sizeof(IndexNode)\<close> 32, with two pointers that
  \<^verbatim>\<open>get_index_node\<close> sets whenever it is called and that are not represented.\<close>

definition attr_code :: "AttrType \<Rightarrow> int" where
  "attr_code t = (case t of UNDEFINED \<Rightarrow> 0 | CHARS \<Rightarrow> 1 | INTS \<Rightarrow> 2 | DATES \<Rightarrow> 3 | TEXTS \<Rightarrow> 4 | FLOATS \<Rightarrow> 5)"

definition attr_of_code :: "int \<Rightarrow> AttrType" where
  "attr_of_code i = (if i = 1 then CHARS else if i = 2 then INTS else if i = 3 then DATES
     else if i = 4 then TEXTS else if i = 5 then FLOATS else UNDEFINED)"

definition get_index_header :: "bytes \<Rightarrow> IndexFileHeader" where
  "get_index_header d =
     \<lparr>attr_length = get_int d 0, key_length = get_int d 4, attr_type = attr_of_code (get_int d 8),
      root_page = get_int d 12, node_num = get_int d 16, torder = get_int d 20\<rparr>"

definition put_index_header :: "IndexFileHeader \<Rightarrow> bytes \<Rightarrow> bytes" where
  "put_index_header h d =
     put_int (put_int (put_int (put_int (put_int (put_int d 0 (attr_length h)) 4 (key_length h))
       8 (attr_code (attr_type h))) 12 (root_page h)) 16 (node_num h)) 20 (torder h)"

definition keys_at :: nat where "keys_at = 24 + 32"

definition rids_at :: "IndexFileHeader \<Rightarrow> nat" where
  "rids_at h = keys_at + nat (torder h) * nat (key_length h)"

definition get_index_node :: "IndexFileHeader \<Rightarrow> bytes \<Rightarrow> IndexNode" where
  "get_index_node h d =
     \<lparr>is_leaf = get_int d 24, key_num = get_int d 28, parent = get_int d 32,
      nkeys = (\<lambda>i. map (\<lambda>k. d (keys_at + i * nat (key_length h) + k)) [0..<nat (key_length h)]),
      nrids = (\<lambda>i. get_rid d (rids_at h + i * 8))\<rparr>"

text \<open>Storing a node: the three integers and \<^verbatim>\<open>order\<close> keys and \<^verbatim>\<open>rids\<close>.\<close>

definition put_index_node :: "IndexFileHeader \<Rightarrow> IndexNode \<Rightarrow> bytes \<Rightarrow> bytes" where
  "put_index_node h n d =
     (let d1 = put_int (put_int (put_int d 24 (is_leaf n)) 28 (key_num n)) 32 (parent n);
          kl = nat (key_length h); ord = nat (torder h)
      in (\<lambda>a. if keys_at \<le> a \<and> a < rids_at h
              then nkeys n ((a - keys_at) div kl) ! ((a - keys_at) mod kl)
              else if rids_at h \<le> a \<and> a < rids_at h + ord * 8
              then rid_bytes (nrids n ((a - rids_at h) div 8)) ! ((a - rids_at h) mod 8)
              else d1 a))"

section \<open>Loops over the arrays\<close>

text \<open>\<^verbatim>\<open>for (i = n; i > p; i--) a[i] = a[i - 1];\<close>\<close>

fun shift_up :: "(nat \<Rightarrow> 'a) \<Rightarrow> nat \<Rightarrow> nat \<Rightarrow> nat \<Rightarrow> 'a" where
  "shift_up a p n = (if p < n then shift_up (a(n := a (n - 1))) p (n - 1) else a)"

text \<open>\<^verbatim>\<open>for (i = p; i < n; i++) a[i] = a[i + 1];\<close>\<close>

function shift_down :: "(nat \<Rightarrow> 'a) \<Rightarrow> nat \<Rightarrow> nat \<Rightarrow> nat \<Rightarrow> 'a" where
  "shift_down a p n = (if p < n then shift_down (a(p := a (p + 1))) (p + 1) n else a)"
  by pat_completeness auto
termination
  by (relation "measure (\<lambda>(a, p, n). n - p)") auto

text \<open>\<^verbatim>\<open>for (i = 0, j = 0; i < n; i++, j++) { if (j == p) j++; temp[j] = a[i]; }\<close>\<close>

function spread :: "(nat \<Rightarrow> 'a) \<Rightarrow> (nat \<Rightarrow> 'a) \<Rightarrow> nat \<Rightarrow> nat \<Rightarrow> nat \<Rightarrow> nat \<Rightarrow> nat \<Rightarrow> 'a" where
  "spread temp a p i j n =
     (if i < n then
        let j = (if j = p then j + 1 else j) in spread (temp(j := a i)) a p (i + 1) (j + 1) n
      else temp)"
  by pat_completeness auto
termination
  by (relation "measure (\<lambda>(temp, a, p, i, j, n). n - i)") auto

text \<open>\<^verbatim>\<open>for (; i < n; i++, j++) dst[j] = src[i];\<close>\<close>

function copy_array :: "(nat \<Rightarrow> 'a) \<Rightarrow> (nat \<Rightarrow> 'a) \<Rightarrow> nat \<Rightarrow> nat \<Rightarrow> nat \<Rightarrow> nat \<Rightarrow> 'a" where
  "copy_array dst src i j n = (if i < n then copy_array (dst(j := src i)) src (i + 1) (j + 1) n else dst)"
  by pat_completeness auto
termination
  by (relation "measure (\<lambda>(dst, src, i, j, n). n - i)") auto

declare shift_up.simps [simp del] shift_down.simps [simp del] spread.simps [simp del] copy_array.simps [simp del]

lemma shift_up_eq: "shift_up a p n = (\<lambda>i. if p < i \<and> i \<le> n then a (i - 1) else a i)"
proof (induction n arbitrary: a)
  case (Suc n)
  show ?case
    by (subst shift_up.simps, unfold diff_Suc_1 Suc) (auto simp: fun_eq_iff le_Suc_eq)
qed (auto simp: shift_up.simps fun_eq_iff)

lemma shift_down_eq: "shift_down a p n = (\<lambda>i. if p \<le> i \<and> i < n then a (i + 1) else a i)"
proof (induction "n - p" arbitrary: a p)
  case (Suc m)
  then have "shift_down (a(p := a (p + 1))) (p + 1) n =
      (\<lambda>i. if p + 1 \<le> i \<and> i < n then (a(p := a (p + 1))) (i + 1) else (a(p := a (p + 1))) i)"
    by (intro Suc.hyps(1)) simp
  moreover have "shift_down a p n = shift_down (a(p := a (p + 1))) (p + 1) n"
    using Suc.hyps(2) by (subst shift_down.simps) (auto simp: Let_def)
  ultimately show ?case using Suc.hyps(2) by (auto simp: fun_eq_iff)
qed (auto simp: shift_down.simps fun_eq_iff)

lemma copy_array_eq: "copy_array dst src i j n = (\<lambda>k. if j \<le> k \<and> k < j + (n - i) then src (i + (k - j)) else dst k)"
proof (induction "n - i" arbitrary: dst i j)
  case (Suc m)
  then have "copy_array (dst(j := src i)) src (i + 1) (j + 1) n =
      (\<lambda>k. if j + 1 \<le> k \<and> k < j + 1 + (n - (i + 1)) then src (i + 1 + (k - (j + 1))) else (dst(j := src i)) k)"
    by (intro Suc.hyps(1)) simp
  moreover have "copy_array dst src i j n = copy_array (dst(j := src i)) src (i + 1) (j + 1) n"
    using Suc.hyps(2) by (subst copy_array.simps) (auto simp: Let_def)
  ultimately show ?case using Suc.hyps(2) by (auto simp: fun_eq_iff Suc_diff_le intro!: arg_cong [of _ _ src])
qed (auto simp: copy_array.simps fun_eq_iff)

text \<open>\<^verbatim>\<open>spread\<close> leaves index \<open>p\<close> of \<^verbatim>\<open>temp\<close> free.\<close>

lemma spread_after: "p < j \<Longrightarrow> spread temp a p i j n = copy_array temp a i j n"
proof (induction "n - i" arbitrary: temp i j)
  case (Suc m)
  then have "spread (temp(j := a i)) a p (i + 1) (j + 1) n = copy_array (temp(j := a i)) a (i + 1) (j + 1) n"
    by simp
  moreover have "spread temp a p i j n = spread (temp(j := a i)) a p (i + 1) (j + 1) n"
    using Suc.hyps(2) Suc.prems by (subst spread.simps) (auto simp: Let_def)
  moreover have "copy_array temp a i j n = copy_array (temp(j := a i)) a (i + 1) (j + 1) n"
    using Suc.hyps(2) by (subst copy_array.simps) (auto simp: Let_def)
  ultimately show ?case by simp
qed (simp add: spread.simps copy_array.simps)

lemma spread_at:
  assumes "p < n"
  shows "spread temp a p p p n = (\<lambda>k. if p < k \<and> k \<le> n then a (k - 1) else temp k)"
proof -
  have "spread temp a p p p n = spread (temp(p + 1 := a p)) a p (p + 1) (p + 2) n"
    using assms by (subst spread.simps) simp
  also have "\<dots> = copy_array (temp(p + 1 := a p)) a (p + 1) (p + 2) n"
    by (rule spread_after) simp
  finally show ?thesis
    using assms by (auto simp: copy_array_eq fun_eq_iff intro!: arg_cong [of _ _ a])
qed

lemma spread_eq:
  "i \<le> p \<Longrightarrow> spread temp a p i i n =
     (\<lambda>k. if i \<le> k \<and> k < min p n then a k else if p < k \<and> k \<le> n then a (k - 1) else temp k)"
proof (induction "n - i" arbitrary: temp i)
  case 0
  then show ?case by (subst spread.simps) (auto simp: fun_eq_iff)
next
  case (Suc m)
  then have lt: "i < n" by simp
  show ?case
  proof (cases "i = p")
    case True
    then show ?thesis using lt by (auto simp: spread_at fun_eq_iff)
  next
    case False
    then have "spread temp a p i i n = spread (temp(i := a i)) a p (i + 1) (i + 1) n"
      using lt by (subst spread.simps) simp
    also have "\<dots> = (\<lambda>k. if i + 1 \<le> k \<and> k < min p n then a k
        else if p < k \<and> k \<le> n then a (k - 1) else (temp(i := a i)) k)"
      using Suc.hyps Suc.prems False by (intro Suc.hyps(1)) auto
    finally show ?thesis using lt False Suc.prems by (auto simp: fun_eq_iff)
  qed
qed

section \<open>What the operations do to nodes\<close>

text \<open>Comparison of keys as the file header says.\<close>

definition kcmp :: "IndexFileHeader \<Rightarrow> key \<Rightarrow> key \<Rightarrow> int" where
  "kcmp h a b = CmpKey (attr_type h) (nat (attr_length h)) a b"

text \<open>\<^verbatim>\<open>for (i = 0; i < n; i++) if (P(i)) break;\<close> and the value of \<^verbatim>\<open>i\<close> after it.\<close>

definition first_pos :: "(nat \<Rightarrow> bool) \<Rightarrow> nat \<Rightarrow> nat" where
  "first_pos P n = (case find P [0..<n] of None \<Rightarrow> n | Some i \<Rightarrow> i)"

text \<open>The search of \<^verbatim>\<open>insert_into_leaf\<close>, which stops at an equal key.\<close>

definition leaf_position :: "IndexFileHeader \<Rightarrow> IndexNode \<Rightarrow> key \<Rightarrow> nat result" where
  "leaf_position h node pkey =
     (let i = first_pos (\<lambda>i. kcmp h pkey (nkeys node i) = 0 \<or> kcmp h pkey (nkeys node i) < 0) (kn node)
      in if i < kn node \<and> kcmp h pkey (nkeys node i) = 0 then Inl RECORD_DUPLICATE_KEY else Inr i)"

text \<open>The search of \<^verbatim>\<open>find_leaf\<close> and of \<^verbatim>\<open>insert_into_leaf_after_split\<close>.\<close>

definition upper_position :: "IndexFileHeader \<Rightarrow> IndexNode \<Rightarrow> key \<Rightarrow> nat" where
  "upper_position h node pkey = first_pos (\<lambda>i. kcmp h pkey (nkeys node i) < 0) (kn node)"

definition leaf_store :: "IndexNode \<Rightarrow> nat \<Rightarrow> key \<Rightarrow> RID \<Rightarrow> IndexNode" where
  "leaf_store node pos pkey rid =
     node\<lparr>nkeys := (shift_up (nkeys node) pos (kn node))(pos := pkey),
          nrids := (shift_up (nrids node) pos (kn node))(pos := rid),
          key_num := key_num node + 1\<rparr>"

definition page_rid :: "int \<Rightarrow> RID" where
  "page_rid pn = \<lparr>rid_page = pn, rid_slot = - 1\<rparr>"

text \<open>
  \<^verbatim>\<open>insert_into_leaf_after_split\<close>: the temporary arrays, then the two halves, then the chain of
  leaves.  \<^verbatim>\<open>malloc\<close> leaves what the temporary arrays hold open; every cell that is read has
  been written when the leaf has \<^verbatim>\<open>order - 1\<close> keys, so the start value is immaterial.
\<close>

definition leaf_split ::
  "IndexFileHeader \<Rightarrow> IndexNode \<Rightarrow> IndexNode \<Rightarrow> int \<Rightarrow> key \<Rightarrow> RID \<Rightarrow> IndexNode \<times> IndexNode" where
  "leaf_split h leaf new_node new_page pkey rid =
     (let new_node = new_node\<lparr>key_num := 0, is_leaf := 1, parent := parent leaf\<rparr>;
          pos = upper_position h leaf pkey;
          temp_keys = (spread (\<lambda>_. []) (nkeys leaf) pos 0 0 (kn leaf))(pos := pkey);
          temp_pointers = (spread (\<lambda>_. page_rid 0) (nrids leaf) pos 0 0 (kn leaf))(pos := rid);
          ord = nat (torder h); split = ord div 2;
          leaf = leaf\<lparr>nkeys := copy_array (nkeys leaf) temp_keys 0 0 split,
                      nrids := copy_array (nrids leaf) temp_pointers 0 0 split, key_num := int split\<rparr>;
          new_node = new_node\<lparr>nkeys := copy_array (nkeys new_node) temp_keys split 0 ord,
                      nrids := copy_array (nrids new_node) temp_pointers split 0 ord,
                      key_num := int (ord - split)\<rparr>;
          new_node = new_node\<lparr>nrids := (nrids new_node)(ord - 1 := nrids leaf (ord - 1))\<rparr>;
          leaf = leaf\<lparr>nrids := (nrids leaf)(ord - 1 := page_rid new_page)\<rparr>
      in (leaf, new_node))"

text \<open>The position of a child in an inner node: \<^verbatim>\<open>key_num + 1\<close> when it is not there.\<close>

definition child_position :: "IndexNode \<Rightarrow> int \<Rightarrow> nat" where
  "child_position node child = first_pos (\<lambda>i. rid_page (nrids node i) = child) (nat (key_num node + 1))"

definition intern_store :: "IndexNode \<Rightarrow> nat \<Rightarrow> key \<Rightarrow> int \<Rightarrow> IndexNode" where
  "intern_store node pos pkey right_page =
     node\<lparr>nkeys := (shift_up (nkeys node) pos (kn node))(pos := pkey),
          nrids := (shift_up (nrids node) (pos + 1) (kn node + 1))(pos + 1 := page_rid right_page),
          key_num := key_num node + 1\<rparr>"

text \<open>\<^verbatim>\<open>insert_intern_node_after_split\<close> up to the children's parent pointers; the third result is
  the key that moves up.\<close>

definition intern_split ::
  "IndexFileHeader \<Rightarrow> IndexNode \<Rightarrow> IndexNode \<Rightarrow> nat \<Rightarrow> key \<Rightarrow> int \<Rightarrow> IndexNode \<times> IndexNode \<times> key" where
  "intern_split h inner new_node pos pkey right_page =
     (let new_node = new_node\<lparr>key_num := 0, is_leaf := 0, parent := parent inner\<rparr>;
          temp_pointers = (spread (\<lambda>_. page_rid 0) (nrids inner) (pos + 1) 0 0 (kn inner + 1))
                            (pos + 1 := page_rid right_page);
          temp_keys = (spread (\<lambda>_. []) (nkeys inner) pos 0 0 (kn inner))(pos := pkey);
          ord = nat (torder h); split = (ord + 1) div 2; i = split - 1;
          inner = inner\<lparr>nkeys := copy_array (nkeys inner) temp_keys 0 0 i,
                        nrids := (copy_array (nrids inner) temp_pointers 0 0 i)(i := temp_pointers i),
                        key_num := int i\<rparr>;
          new_key = temp_keys i;
          j = ord - split;
          new_node = new_node\<lparr>nkeys := copy_array (nkeys new_node) temp_keys split 0 ord,
                        nrids := (copy_array (nrids new_node) temp_pointers split 0 ord)(j := temp_pointers ord),
                        key_num := int j\<rparr>
      in (inner, new_node, new_key))"

definition node_delete :: "IndexFileHeader \<Rightarrow> IndexNode \<Rightarrow> key \<Rightarrow> IndexNode result" where
  "node_delete h node pkey =
     (let i = first_pos (\<lambda>i. kcmp h pkey (nkeys node i) = 0) (kn node) in
      if i \<ge> kn node then Inl RECORD_INVALID_KEY
      else Inr (node\<lparr>nkeys := shift_down (nkeys node) i (kn node - 1),
                     nrids := (if is_leaf node \<noteq> 0 then shift_down (nrids node) i (kn node - 1)
                               else shift_down (nrids node) (i + 1) (kn node)),
                     key_num := key_num node - 1\<rparr>))"

text \<open>The merge of \<^verbatim>\<open>coalesce_node\<close>; \<open>k\<close> is the position of the left node in the parent.\<close>

definition parent_position :: "IndexNode \<Rightarrow> int \<Rightarrow> nat" where
  "parent_position par child = first_pos (\<lambda>i. rid_page (nrids par i) = child) (kn par)"

definition node_merge :: "IndexFileHeader \<Rightarrow> IndexNode \<Rightarrow> IndexNode \<Rightarrow> key \<Rightarrow> IndexNode" where
  "node_merge h left right parent_key =
     (let start = kn left;
          (left, start) =
            (if is_leaf left = 0
             then (left\<lparr>nkeys := (nkeys left)(start := parent_key), key_num := key_num left + 1\<rparr>, start + 1)
             else (left, start));
          left = left\<lparr>nkeys := copy_array (nkeys left) (nkeys right) 0 start (kn right),
                      nrids := copy_array (nrids left) (nrids right) 0 start (kn right),
                      key_num := key_num left + int (kn right)\<rparr>
      in if is_leaf left \<noteq> 0
         then left\<lparr>nrids := (nrids left)(nat (torder h) - 1 := nrids right (nat (torder h) - 1))\<rparr>
         else left\<lparr>nrids := (nrids left)(start + kn right := nrids right (kn right))\<rparr>)"

text \<open>
  The four cases of \<^verbatim>\<open>redistribute_nodes\<close>.  In the second the record id of the key that moves
  is not copied, and the loops of the last two move one child pointer too few.
\<close>

definition redistribute ::
  "IndexFileHeader \<Rightarrow> IndexNode \<Rightarrow> IndexNode \<Rightarrow> IndexNode \<Rightarrow> nat \<Rightarrow> IndexNode \<times> IndexNode \<times> IndexNode" where
  "redistribute h left right par k =
     (if is_leaf left \<noteq> 0 then
        if key_num left < torder h div 2 then
          let left = left\<lparr>nkeys := (nkeys left)(kn left := nkeys right 0),
                          nrids := (nrids left)(kn left := nrids right 0), key_num := key_num left + 1\<rparr>;
              right = right\<lparr>nkeys := shift_down (nkeys right) 0 (kn right - 1),
                            nrids := shift_down (nrids right) 0 (kn right - 1), key_num := key_num right - 1\<rparr>
          in (left, right, par\<lparr>nkeys := (nkeys par)(k := nkeys right 0)\<rparr>)
        else
          let right = right\<lparr>nkeys := (shift_up (nkeys right) 0 (kn right))(0 := nkeys left (kn left - 1)),
                            nrids := shift_up (nrids right) 0 (kn right), key_num := key_num right + 1\<rparr>;
              left = left\<lparr>key_num := key_num left - 1\<rparr>
          in (left, right, par\<lparr>nkeys := (nkeys par)(k := nkeys right 0)\<rparr>)
      else
        if key_num left < (torder h + 1) div 2 - 1 then
          let left = left\<lparr>nkeys := (nkeys left)(kn left := nkeys par k),
                          nrids := (nrids left)(kn left + 1 := nrids right 0), key_num := key_num left + 1\<rparr>;
              par = par\<lparr>nkeys := (nkeys par)(k := nkeys right 0)\<rparr>;
              right = right\<lparr>nkeys := shift_down (nkeys right) 0 (kn right - 1),
                            nrids := shift_down (nrids right) 0 (kn right - 1), key_num := key_num right - 1\<rparr>
          in (left, right, par)
        else
          let right = right\<lparr>nkeys := (shift_up (nkeys right) 0 (kn right))(0 := nkeys par k),
                            nrids := (shift_up (nrids right) 0 (kn right))(0 := nrids left (kn left)),
                            key_num := key_num right + 1\<rparr>;
              par = par\<lparr>nkeys := (nkeys par)(k := nkeys left (kn left - 1))\<rparr>;
              left = left\<lparr>key_num := key_num left - 1\<rparr>
          in (left, right, par))"

end
