(* ===== verification/Bplus_Tree.thy ===== *)
theory Bplus_Tree
  imports Bplus_Node
begin

text \<open>
  \<^verbatim>\<open>BplusTreeHandler\<close> of \<^verbatim>\<open>src/src/observer/storage/common/bplus_tree.cpp\<close> over the buffer
  pool.  A call that returns an error code is an operation from a state to a result and a state;
  \<open>bindR\<close> is \<^verbatim>\<open>if (rc != SUCCESS) return rc;\<close>, so every early return leaves pinned what the
  code leaves pinned.  A page handle is a local variable of the operation and starts fresh.
  \<^verbatim>\<open>malloc\<close> does not fail.  The descent from the root, the way up after a split and the way up
  after a merge follow page numbers stored in pages and end only if these form a tree: they are
  partial functions, and not returning is \<open>None\<close>.
\<close>

section \<open>State\<close>

record BplusTreeHandler =
  bt_pool :: bool
  bt_file_id :: int
  bt_header_dirty :: bool
  bt_header :: IndexFileHeader
  pool :: DiskBufferPool

type_synonym 'a tree_op = "BplusTreeHandler \<Rightarrow> 'a result \<times> BplusTreeHandler"

definition bindR :: "'a tree_op \<Rightarrow> ('a \<Rightarrow> 'b tree_op) \<Rightarrow> 'b tree_op" where
  "bindR m f t = (case m t of (Inl e, t1) \<Rightarrow> (Inl e, t1) | (Inr x, t1) \<Rightarrow> f x t1)"

definition retR :: "'a \<Rightarrow> 'a tree_op" where
  "retR x t = (Inr x, t)"

definition failR :: "rc \<Rightarrow> 'a tree_op" where
  "failR e t = (Inl e, t)"

definition pool_op :: "(DiskBufferPool \<Rightarrow> 'a result \<times> DiskBufferPool) \<Rightarrow> 'a tree_op" where
  "pool_op f t = (let (r, p) = f (pool t) in (r, t\<lparr>pool := p\<rparr>))"

section \<open>Page accesses\<close>

text \<open>\<^verbatim>\<open>get_this_page\<close> or \<^verbatim>\<open>allocate_page\<close>, followed by \<^verbatim>\<open>get_data\<close>.\<close>

definition with_data ::
  "unit result \<times> BPPageHandle \<times> DiskBufferPool \<Rightarrow> BPPageHandle result \<times> DiskBufferPool" where
  "with_data r =
     (case r of
        (Inl e, _, p) \<Rightarrow> (Inl e, p)
      | (Inr _, ph, p) \<Rightarrow> (case get_data p ph of Inl e \<Rightarrow> (Inl e, p) | Inr _ \<Rightarrow> (Inr ph, p)))"

definition fetch :: "int \<Rightarrow> BPPageHandle tree_op" where
  "fetch pn t =
     (if bt_pool t then pool_op (\<lambda>p. with_data (get_this_page p (bt_file_id t) pn new_handle)) t
      else (Inl UB, t))"

definition allocate :: "BPPageHandle tree_op" where
  "allocate t =
     (if bt_pool t then pool_op (\<lambda>p. with_data (allocate_page p (bt_file_id t) new_handle)) t
      else (Inl UB, t))"

definition unpin :: "BPPageHandle \<Rightarrow> unit tree_op" where
  "unpin ph = pool_op (\<lambda>p. let (r, _, p1) = unpin_page p ph in (r, p1))"

text \<open>\<^verbatim>\<open>mark_dirty\<close> and \<^verbatim>\<open>unpin_page\<close>, as at the end of every operation that wrote a page.\<close>

definition release :: "BPPageHandle \<Rightarrow> unit tree_op" where
  "release ph = bindR (pool_op (\<lambda>p. mark_dirty p ph)) (\<lambda>_. unpin ph)"

definition page_of :: "BPPageHandle \<Rightarrow> int tree_op" where
  "page_of ph t = (get_page_num (pool t) ph, t)"

definition read_node :: "BPPageHandle \<Rightarrow> IndexNode tree_op" where
  "read_node ph t =
     (case ph_frame ph of
        None \<Rightarrow> (Inl UB, t)
      | Some f \<Rightarrow> (Inr (get_index_node (bt_header t) (fdata (pool t) f)), t))"

definition write_data :: "BPPageHandle \<Rightarrow> (bytes \<Rightarrow> bytes) \<Rightarrow> unit tree_op" where
  "write_data ph g t =
     (case ph_frame ph of
        None \<Rightarrow> (Inl UB, t)
      | Some f \<Rightarrow> (Inr (), t\<lparr>pool := upd_data f g (pool t)\<rparr>))"

definition write_node :: "BPPageHandle \<Rightarrow> IndexNode \<Rightarrow> unit tree_op" where
  "write_node ph n t = write_data ph (put_index_node (bt_header t) n) t"

text \<open>\<^verbatim>\<open>node->parent = p\<close> for the page of a child.\<close>

definition set_parent :: "int \<Rightarrow> int \<Rightarrow> unit tree_op" where
  "set_parent p child =
     bindR (fetch child) (\<lambda>ph. bindR (write_data ph (\<lambda>d. put_int d 32 p)) (\<lambda>_. release ph))"

fun set_parents :: "int \<Rightarrow> int list \<Rightarrow> unit tree_op" where
  "set_parents p [] = retR ()"
| "set_parents p (c # cs) = bindR (set_parent p c) (\<lambda>_. set_parents p cs)"

section \<open>Files\<close>

definition new_index_header :: "AttrType \<Rightarrow> int \<Rightarrow> int \<Rightarrow> IndexFileHeader" where
  "new_index_header ty len pn =
     \<lparr>attr_length = len, key_length = len + 8, attr_type = ty, root_page = pn, node_num = 1,
      torder = (int BP_PAGE_DATA_SIZE - 24 - 32) div ((len + 16) mod 2 ^ 64)\<rparr>"

definition new_index_page :: "IndexFileHeader \<Rightarrow> bytes \<Rightarrow> bytes" where
  "new_index_page h d = put_int (put_int (put_int (put_index_header h d) 24 1) 28 0) 32 (- 1)"

definition tree_create :: "string \<Rightarrow> AttrType \<Rightarrow> int \<Rightarrow> unit tree_op" where
  "tree_create name ty len =
     bindR (pool_op (\<lambda>p. create_file p name)) (\<lambda>_.
     bindR (pool_op (\<lambda>p. open_file_op p (Some name))) (\<lambda>fid.
     bindR (pool_op (\<lambda>p. with_data (allocate_page p fid new_handle))) (\<lambda>ph.
     bindR (page_of ph) (\<lambda>pn.
     bindR (write_data ph (new_index_page (new_index_header ty len pn))) (\<lambda>_.
     bindR (release ph) (\<lambda>_ t.
       (SUCCESS, t\<lparr>bt_pool := True, bt_file_id := fid, bt_header_dirty := False,
          bt_header := get_index_header (fdata (pool t) (the (ph_frame ph)))\<rparr>)))))))"

definition tree_open :: "string \<Rightarrow> unit tree_op" where
  "tree_open name t =
     (if bt_pool t then (Inl RECORD_OPENNED, t)
      else
        bindR (pool_op (\<lambda>p. open_file_op p (Some name))) (\<lambda>fid.
        bindR (pool_op (\<lambda>p. with_data (get_this_page p fid 1 new_handle))) (\<lambda>ph t.
          unpin ph (t\<lparr>bt_pool := True, bt_file_id := fid, bt_header_dirty := False,
             bt_header := get_index_header (fdata (pool t) (the (ph_frame ph)))\<rparr>))) t)"

definition tree_sync :: "unit tree_op" where
  "tree_sync t = (if bt_pool t then pool_op (\<lambda>p. flush_all_pages p (bt_file_id t)) t else (Inl UB, t))"

definition tree_close :: "unit tree_op" where
  "tree_close t =
     (if \<not> bt_pool t then (Inl UB, t)
      else let (_, t1) = tree_sync t;
               (_, t2) = pool_op (\<lambda>p. close_file p (bt_file_id t1)) t1
           in (SUCCESS, t2\<lparr>bt_file_id := - 1, bt_pool := False\<rparr>))"

section \<open>Search\<close>

definition mk_key :: "IndexFileHeader \<Rightarrow> bytes \<Rightarrow> RID \<Rightarrow> key" where
  "mk_key h src rid = map src [0..<nat (attr_length h)] @ rid_bytes rid"

text \<open>The common loop of \<^verbatim>\<open>find_leaf\<close> and \<^verbatim>\<open>get_first_leaf_page\<close>: \<open>pos\<close> picks the child.\<close>

definition descend_step :: "(IndexNode \<Rightarrow> nat) \<Rightarrow> BPPageHandle \<Rightarrow> (BPPageHandle + int) tree_op" where
  "descend_step pos ph =
     bindR (read_node ph) (\<lambda>node.
       if is_leaf node = 0
       then bindR (unpin ph) (\<lambda>_. bindR (fetch (rid_page (nrids node (pos node)))) (\<lambda>ph'. retR (Inl ph')))
       else bindR (page_of ph) (\<lambda>pn. bindR (unpin ph) (\<lambda>_. retR (Inr pn))))"

partial_function (option) descend ::
  "(IndexNode \<Rightarrow> nat) \<Rightarrow> BPPageHandle \<Rightarrow> BplusTreeHandler \<Rightarrow> (int result \<times> BplusTreeHandler) option" where
  "descend pos ph t =
     (case descend_step pos ph t of
        (Inl e, t1) \<Rightarrow> Some (Inl e, t1)
      | (Inr r, t1) \<Rightarrow> (case r of Inl ph' \<Rightarrow> descend pos ph' t1 | Inr pn \<Rightarrow> Some (Inr pn, t1)))"

type_synonym 'a tree_loop = "BplusTreeHandler \<Rightarrow> ('a result \<times> BplusTreeHandler) option"

definition bindO :: "'a tree_loop \<Rightarrow> ('a \<Rightarrow> 'b tree_loop) \<Rightarrow> 'b tree_loop" where
  "bindO m f t =
     (case m t of None \<Rightarrow> None | Some (Inl e, t1) \<Rightarrow> Some (Inl e, t1) | Some (Inr x, t1) \<Rightarrow> f x t1)"

definition liftO :: "'a tree_op \<Rightarrow> 'a tree_loop" where
  "liftO m t = Some (m t)"

definition find_leaf :: "key \<Rightarrow> int tree_loop" where
  "find_leaf pkey t =
     bindO (liftO (fetch (root_page (bt_header t))))
       (\<lambda>ph t1. descend (\<lambda>n. upper_position (bt_header t1) n pkey) ph t1) t"

definition get_first_leaf_page :: "int tree_loop" where
  "get_first_leaf_page t = bindO (liftO (fetch (root_page (bt_header t)))) (descend (\<lambda>_. 0)) t"

section \<open>Insertion\<close>

text \<open>A duplicate key is reported without unpinning the page.\<close>

definition insert_into_leaf :: "int \<Rightarrow> key \<Rightarrow> RID \<Rightarrow> unit tree_op" where
  "insert_into_leaf leaf_page pkey rid =
     bindR (fetch leaf_page) (\<lambda>ph.
     bindR (read_node ph) (\<lambda>node t.
       (case leaf_position (bt_header t) node pkey of
          Inl e \<Rightarrow> (Inl e, t)
        | Inr pos \<Rightarrow> bindR (write_node ph (leaf_store node pos pkey rid)) (\<lambda>_. release ph) t)))"

definition insert_into_new_root :: "int \<Rightarrow> key \<Rightarrow> int \<Rightarrow> unit tree_op" where
  "insert_into_new_root left_page pkey right_page =
     bindR allocate (\<lambda>ph.
     bindR (page_of ph) (\<lambda>root.
     bindR (read_node ph) (\<lambda>node.
     bindR (write_node ph (node\<lparr>is_leaf := 0, key_num := 1, parent := - 1,
              nkeys := (nkeys node)(0 := pkey),
              nrids := (nrids node)(0 := page_rid left_page, 1 := page_rid right_page)\<rparr>)) (\<lambda>_.
     bindR (release ph) (\<lambda>_.
     bindR (set_parent root left_page) (\<lambda>_.
     bindR (set_parent root right_page) (\<lambda>_ t.
       (SUCCESS, t\<lparr>bt_header := (bt_header t)\<lparr>root_page := root\<rparr>, bt_header_dirty := True\<rparr>))))))))"

text \<open>When \<^verbatim>\<open>left_page\<close> is not a child of the node the position is one too large; the store is
  outside the array if the node is also nearly full.\<close>

definition insert_intern_node :: "int \<Rightarrow> int \<Rightarrow> int \<Rightarrow> key \<Rightarrow> unit tree_op" where
  "insert_intern_node parent_page left_page right_page pkey =
     bindR (fetch parent_page) (\<lambda>ph.
     bindR (read_node ph) (\<lambda>node t.
       (let pos = child_position node left_page in
        if int pos + 1 \<ge> torder (bt_header t) then (Inl UB, t)
        else bindR (write_node ph (intern_store node pos pkey right_page)) (\<lambda>_. release ph) t)))"

text \<open>\<^verbatim>\<open>insert_intern_node_after_split\<close> up to its last call, \<^verbatim>\<open>insert_into_parent\<close>, whose
  arguments are the result.\<close>

definition split_intern_node :: "int \<Rightarrow> int \<Rightarrow> int \<Rightarrow> key \<Rightarrow> (int \<times> int \<times> key \<times> int) tree_op" where
  "split_intern_node inter_page left_page right_page pkey =
     bindR (fetch inter_page) (\<lambda>ph1.
     bindR allocate (\<lambda>ph2.
     bindR (page_of ph2) (\<lambda>new_page.
     bindR (read_node ph1) (\<lambda>inner_node.
     bindR (read_node ph2) (\<lambda>new_node t.
       (let h = bt_header t; pos = child_position inner_node left_page in
        if int pos \<ge> torder h then (Inl UB, t)
        else
          let (inner', new', new_key) = intern_split h inner_node new_node pos pkey right_page in
          bindR (write_node ph1 inner') (\<lambda>_.
          bindR (write_node ph2 new') (\<lambda>_.
          bindR (set_parents new_page (map (\<lambda>i. rid_page (nrids new' i)) [0..<Suc (kn new')])) (\<lambda>_.
          bindR (release ph1) (\<lambda>_.
          bindR (release ph2) (\<lambda>_.
            retR (parent inner_node, inter_page, new_key, new_page)))))) t))))))"

text \<open>One round of \<^verbatim>\<open>insert_into_parent\<close>: finished, or the call to make next.\<close>

definition insert_into_parent_step ::
  "int \<Rightarrow> int \<Rightarrow> key \<Rightarrow> int \<Rightarrow> (int \<times> int \<times> key \<times> int) option tree_op" where
  "insert_into_parent_step parent_page left_page pkey right_page =
     (if parent_page = - 1
      then bindR (insert_into_new_root left_page pkey right_page) (\<lambda>_. retR None)
      else
        bindR (fetch parent_page) (\<lambda>ph.
        bindR (read_node ph) (\<lambda>node.
        bindR (unpin ph) (\<lambda>_ t.
          (if key_num node < torder (bt_header t) - 1
           then bindR (insert_intern_node parent_page left_page right_page pkey) (\<lambda>_. retR None) t
           else bindR (split_intern_node parent_page left_page right_page pkey) (\<lambda>next. retR (Some next)) t)))))"

partial_function (option) insert_into_parent :: "int \<Rightarrow> int \<Rightarrow> key \<Rightarrow> int \<Rightarrow> unit tree_loop" where
  "insert_into_parent parent_page left_page pkey right_page t =
     (case insert_into_parent_step parent_page left_page pkey right_page t of
        (Inl e, t1) \<Rightarrow> Some (Inl e, t1)
      | (Inr r, t1) \<Rightarrow>
          (case r of
             None \<Rightarrow> Some (SUCCESS, t1)
           | Some q \<Rightarrow> insert_into_parent (fst q) (fst (snd q)) (fst (snd (snd q))) (snd (snd (snd q))) t1))"

definition insert_intern_node_after_split :: "int \<Rightarrow> int \<Rightarrow> int \<Rightarrow> key \<Rightarrow> unit tree_loop" where
  "insert_intern_node_after_split inter_page left_page right_page pkey =
     bindO (liftO (split_intern_node inter_page left_page right_page pkey))
       (\<lambda>(parent_page, page, new_key, new_page). insert_into_parent parent_page page new_key new_page)"

definition split_leaf_node :: "int \<Rightarrow> key \<Rightarrow> RID \<Rightarrow> (int \<times> int \<times> key \<times> int) tree_op" where
  "split_leaf_node leaf_page pkey rid =
     bindR (fetch leaf_page) (\<lambda>ph1.
     bindR allocate (\<lambda>ph2.
     bindR (page_of ph2) (\<lambda>new_page.
     bindR (read_node ph1) (\<lambda>leaf.
     bindR (read_node ph2) (\<lambda>new_node t.
       (if key_num leaf \<ge> torder (bt_header t) then (Inl UB, t)
        else
          let (leaf', new') = leaf_split (bt_header t) leaf new_node new_page pkey rid in
          bindR (write_node ph1 leaf') (\<lambda>_.
          bindR (write_node ph2 new') (\<lambda>_.
          bindR (release ph1) (\<lambda>_.
          bindR (release ph2) (\<lambda>_.
            retR (parent leaf, leaf_page, nkeys new' 0, new_page))))) t))))))"

definition insert_into_leaf_after_split :: "int \<Rightarrow> key \<Rightarrow> RID \<Rightarrow> unit tree_loop" where
  "insert_into_leaf_after_split leaf_page pkey rid =
     bindO (liftO (split_leaf_node leaf_page pkey rid))
       (\<lambda>(parent_page, page, new_key, new_page). insert_into_parent parent_page page new_key new_page)"

text \<open>The result of \<^verbatim>\<open>insert_into_leaf_after_split\<close> is dropped.\<close>

definition ignore_rc :: "unit tree_loop \<Rightarrow> unit tree_loop" where
  "ignore_rc m t = (case m t of None \<Rightarrow> None | Some (_, t1) \<Rightarrow> Some (SUCCESS, t1))"

definition insert_entry :: "bytes \<Rightarrow> RID \<Rightarrow> unit tree_loop" where
  "insert_entry pkey rid t =
     (if \<not> bt_pool t then Some (Inl RECORD_CLOSED, t)
      else
        let key = mk_key (bt_header t) pkey rid in
        bindO (find_leaf key) (\<lambda>leaf_page.
        bindO (liftO (fetch leaf_page)) (\<lambda>ph.
        bindO (liftO (read_node ph)) (\<lambda>leaf.
        bindO (liftO (unpin ph)) (\<lambda>_ t.
          (if key_num leaf < torder (bt_header t) - 1
           then liftO (insert_into_leaf leaf_page key rid) t
           else ignore_rc (insert_into_leaf_after_split leaf_page key rid) t))))) t)"

text \<open>The page of the leaf stays pinned.\<close>

definition get_entry :: "bytes \<Rightarrow> RID \<Rightarrow> RID tree_loop" where
  "get_entry pkey rid t =
     (let h = bt_header t; key = mk_key h pkey rid in
      bindO (find_leaf key) (\<lambda>leaf_page.
      bindO (liftO (fetch leaf_page)) (\<lambda>ph.
      bindO (liftO (read_node ph)) (\<lambda>leaf t.
        (let i = first_pos (\<lambda>i. kcmp h key (nkeys leaf i) = 0) (kn leaf) in
         if i < kn leaf then Some (Inr (nrids leaf i), t) else Some (Inl RECORD_INVALID_KEY, t))))) t)"

section \<open>Deletion\<close>

text \<open>A key that is not in the node is reported without unpinning the page.\<close>

definition delete_entry_from_node :: "int \<Rightarrow> key \<Rightarrow> unit tree_op" where
  "delete_entry_from_node node_page pkey =
     bindR (fetch node_page) (\<lambda>ph.
     bindR (read_node ph) (\<lambda>node t.
       (case node_delete (bt_header t) node pkey of
          Inl e \<Rightarrow> (Inl e, t)
        | Inr node' \<Rightarrow> bindR (write_node ph node') (\<lambda>_. release ph) t)))"

text \<open>\<^verbatim>\<open>coalesce_node\<close> up to its last call, \<^verbatim>\<open>delete_entry_internal\<close>, whose arguments are the
  result.  The three nodes are in different pages.\<close>

definition merge_nodes :: "int \<Rightarrow> int \<Rightarrow> (int \<times> key) tree_op" where
  "merge_nodes left_page right_page =
     bindR (fetch left_page) (\<lambda>lh.
     bindR (fetch right_page) (\<lambda>rh.
     bindR (read_node lh) (\<lambda>left.
     bindR (fetch (parent left)) (\<lambda>ph.
     bindR (read_node rh) (\<lambda>right.
     bindR (read_node ph) (\<lambda>par t.
       (let h = bt_header t; tmp_key = nkeys par (parent_position par left_page);
            left' = node_merge h left right tmp_key;
            moved = (if is_leaf left \<noteq> 0 then []
                     else map (\<lambda>i. rid_page (nrids left' i)) [Suc (kn left)..<Suc (kn left')]) in
        bindR (write_node lh left') (\<lambda>_.
        bindR (set_parents left_page moved) (\<lambda>_.
        bindR (release lh) (\<lambda>_.
        bindR (unpin rh) (\<lambda>_.
        bindR (\<lambda>t. pool_op (\<lambda>p. dispose_page p (bt_file_id t) right_page) t) (\<lambda>_.
        bindR (unpin ph) (\<lambda>_.
          retR (parent left, tmp_key))))))) t)))))))"

definition redistribute_nodes :: "int \<Rightarrow> int \<Rightarrow> unit tree_op" where
  "redistribute_nodes left_page right_page =
     bindR (fetch left_page) (\<lambda>lh.
     bindR (fetch right_page) (\<lambda>rh.
     bindR (read_node lh) (\<lambda>left.
     bindR (fetch (parent left)) (\<lambda>ph.
     bindR (read_node rh) (\<lambda>right.
     bindR (read_node ph) (\<lambda>par t.
       (let h = bt_header t;
            (left', right', par') = redistribute h left right par (parent_position par left_page);
            moved = (if is_leaf left \<noteq> 0 then retR ()
                     else if key_num left < (torder h + 1) div 2 - 1
                     then set_parent left_page (rid_page (nrids left' (kn left')))
                     else set_parent right_page (rid_page (nrids right' 0))) in
        bindR (write_node lh left') (\<lambda>_.
        bindR (write_node rh right') (\<lambda>_.
        bindR (write_node ph par') (\<lambda>_.
        bindR moved (\<lambda>_.
        bindR (release lh) (\<lambda>_.
        bindR (release rh) (\<lambda>_. release ph)))))) t)))))))"

text \<open>The root: when it has lost its last key its only child becomes the root.\<close>

definition shrink_root :: "BPPageHandle \<Rightarrow> int \<Rightarrow> IndexNode \<Rightarrow> unit tree_op" where
  "shrink_root ph pn node =
     (if key_num node = 0 \<and> is_leaf node = 0
      then
        bindR (set_parent (- 1) (rid_page (nrids node 0))) (\<lambda>_.
        bindR (\<lambda>t. (SUCCESS, t\<lparr>bt_header := (bt_header t)\<lparr>root_page := rid_page (nrids node 0)\<rparr>,
                          bt_header_dirty := True\<rparr>)) (\<lambda>_.
        bindR (unpin ph) (\<lambda>_ t. pool_op (\<lambda>p. dispose_page p (bt_file_id t) pn) t)))
      else unpin ph)"

definition min_keys :: "IndexFileHeader \<Rightarrow> IndexNode \<Rightarrow> int" where
  "min_keys h node = (if is_leaf node \<noteq> 0 then torder h div 2 else (torder h + 1) div 2 - 1)"

text \<open>The node and a neighbour, left then right: entries move over, or the two are merged.\<close>

definition rebalance :: "BPPageHandle \<Rightarrow> int \<Rightarrow> IndexNode \<Rightarrow> (int \<times> key) option tree_op" where
  "rebalance ph pn node =
     bindR (fetch (parent node)) (\<lambda>parh.
     bindR (read_node parh) (\<lambda>par.
       (let delete_index = child_position par pn;
            left_page = (if delete_index = 0 then pn else rid_page (nrids par (delete_index - 1)));
            right_page = (if delete_index = 0 then rid_page (nrids par 1) else pn);
            sibling = (if delete_index = 0 then right_page else left_page) in
        bindR (fetch sibling) (\<lambda>sh.
        bindR (read_node sh) (\<lambda>sib.
        bindR (unpin ph) (\<lambda>_.
        bindR (unpin parh) (\<lambda>_.
        bindR (unpin sh) (\<lambda>_ t.
          (if key_num sib > min_keys (bt_header t) node
           then bindR (redistribute_nodes left_page right_page) (\<lambda>_. retR None) t
           else bindR (merge_nodes left_page right_page) (\<lambda>q. retR (Some q)) t)))))))))"

text \<open>One round of \<^verbatim>\<open>delete_entry_internal\<close>.\<close>

definition delete_step :: "int \<Rightarrow> key \<Rightarrow> (int \<times> key) option tree_op" where
  "delete_step pn pkey =
     bindR (delete_entry_from_node pn pkey) (\<lambda>_.
     bindR (fetch pn) (\<lambda>ph.
     bindR (read_node ph) (\<lambda>node t.
       (if parent node = - 1 then bindR (shrink_root ph pn node) (\<lambda>_. retR None) t
        else if key_num node \<ge> min_keys (bt_header t) node then bindR (unpin ph) (\<lambda>_. retR None) t
        else rebalance ph pn node t))))"

partial_function (option) delete_entry_internal :: "int \<Rightarrow> key \<Rightarrow> unit tree_loop" where
  "delete_entry_internal pn pkey t =
     (case delete_step pn pkey t of
        (Inl e, t1) \<Rightarrow> Some (Inl e, t1)
      | (Inr r, t1) \<Rightarrow>
          (case r of
             None \<Rightarrow> Some (SUCCESS, t1)
           | Some q \<Rightarrow> delete_entry_internal (fst q) (snd q) t1))"

definition coalesce_node :: "int \<Rightarrow> int \<Rightarrow> unit tree_loop" where
  "coalesce_node left_page right_page =
     bindO (liftO (merge_nodes left_page right_page)) (\<lambda>(parent_page, tmp_key). delete_entry_internal parent_page tmp_key)"

definition delete_entry :: "bytes \<Rightarrow> RID \<Rightarrow> unit tree_loop" where
  "delete_entry src rid t =
     (let key = mk_key (bt_header t) src rid
      in bindO (find_leaf key) (\<lambda>leaf_page. delete_entry_internal leaf_page key) t)"

section \<open>Scans\<close>

text \<open>The first index position of \<open>node\<close> at which a scan for \<open>op\<close> starts.\<close>

definition scan_start :: "IndexFileHeader \<Rightarrow> CompOp \<Rightarrow> key \<Rightarrow> IndexNode \<Rightarrow> nat" where
  "scan_start h op key node =
     first_pos (\<lambda>i. let tmp = CompareKey (nkeys node i) key (attr_type h) (nat (attr_length h)) in
                   op \<in> {EQUAL_TO, GREAT_EQUAL} \<and> tmp \<ge> 0 \<or> op = GREAT_THAN \<and> tmp > 0) (kn node)"

text \<open>The loop over the chain of leaves; pages that hold no start stay pinned, but for the last.\<close>

partial_function (option) leaf_chain ::
  "CompOp \<Rightarrow> key \<Rightarrow> BPPageHandle option \<Rightarrow> int \<Rightarrow> (int \<times> int) tree_loop" where
  "leaf_chain op key prev next t =
     (if next > 0 then
        (case bindR (fetch next) (\<lambda>ph. bindR (read_node ph) (\<lambda>node. retR (ph, node))) t of
           (Inl e, t1) \<Rightarrow> Some (Inl e, t1)
         | (Inr r, t1) \<Rightarrow>
             let ph = fst r; node = snd r; i = scan_start (bt_header t1) op key node in
             if i < kn node
             then Some (bindR (page_of ph) (\<lambda>pn. bindR (unpin ph) (\<lambda>_. retR (pn, int i))) t1)
             else leaf_chain op key (Some ph) (rid_page (nrids node (nat (torder (bt_header t1)) - 1))) t1)
      else (case prev of
              None \<Rightarrow> Some (Inl UB, t)
            | Some ph \<Rightarrow> Some (bindR (unpin ph) (\<lambda>_. failR RECORD_EOF) t)))"

definition find_first_index_satisfied :: "CompOp \<Rightarrow> bytes \<Rightarrow> (int \<times> int) tree_loop" where
  "find_first_index_satisfied op src t =
     (if op \<in> {LESS_THAN, LESS_EQUAL, NOT_EQUAL}
      then bindO get_first_leaf_page (\<lambda>pn. liftO (retR (pn, 0))) t
      else
        let h = bt_header t; pkey = mk_key h src \<lparr>rid_page = - 1, rid_slot = - 1\<rparr>
        in bindO (find_leaf pkey)
             (leaf_chain op (map src [0..<nat (attr_length h)]) None) t)"

record BplusTreeScanner =
  ts_opened :: bool
  ts_comp_op :: CompOp
  ts_value :: key
  ts_num_fixed :: nat
  ts_pinned :: nat
  ts_handles :: "nat \<Rightarrow> BPPageHandle"
  ts_next_handle :: nat
  ts_index :: int
  ts_next_page :: int

definition BplusTreeScanner_new :: BplusTreeScanner where
  "BplusTreeScanner_new =
     \<lparr>ts_opened = False, ts_comp_op = NO_OP, ts_value = [], ts_num_fixed = 0, ts_pinned = 0,
      ts_handles = (\<lambda>_. new_handle), ts_next_handle = 0, ts_index = - 1, ts_next_page = - 1\<rparr>"

definition scanner_open ::
  "CompOp \<Rightarrow> bytes \<Rightarrow> BplusTreeScanner \<Rightarrow> BplusTreeHandler \<Rightarrow>
   (unit result \<times> BplusTreeScanner \<times> BplusTreeHandler) option" where
  "scanner_open op src sc t =
     (if ts_opened sc then Some (Inl RECORD_OPENNED, sc, t)
      else
        let sc1 = sc\<lparr>ts_comp_op := op, ts_value := map src [0..<nat (attr_length (bt_header t))]\<rparr> in
        (case find_first_index_satisfied op src t of
           None \<Rightarrow> None
         | Some (r, t1) \<Rightarrow>
             let started = (\<lambda>pn i. sc1\<lparr>ts_next_page := pn, ts_index := i, ts_num_fixed := 1,
                              ts_next_handle := 0, ts_pinned := 0, ts_opened := True\<rparr>) in
             (case r of
                Inr (pn, i) \<Rightarrow> Some (SUCCESS, started pn i, t1)
              | Inl e \<Rightarrow> if e = RECORD_EOF then Some (SUCCESS, started (- 1) (- 1), t1)
                        else Some (Inl e, sc1, t1))))"

definition scanner_close :: "BplusTreeScanner \<Rightarrow> unit result \<times> BplusTreeScanner" where
  "scanner_close sc =
     (if \<not> ts_opened sc then (Inl RECORD_SCANCLOSED, sc)
      else (SUCCESS, sc\<lparr>ts_value := [], ts_opened := False\<rparr>))"

text \<open>\<^verbatim>\<open>get_next_idx_in_memory\<close>: over the pinned pages, then over the keys of each.\<close>

fun scan_pages :: "nat list \<Rightarrow> BplusTreeScanner \<Rightarrow> BplusTreeHandler \<Rightarrow> RID result \<times> BplusTreeScanner" where
  "scan_pages [] sc t = (Inl RECORD_NO_MORE_IDX_IN_MEM, sc)"
| "scan_pages (k # ks) sc t =
     (let h = bt_header t in
      case get_data (pool t) (ts_handles sc k) of
        Inl e \<Rightarrow> (Inl e, sc\<lparr>ts_next_handle := k\<rparr>)
      | Inr d \<Rightarrow>
          let node = get_index_node h d in
          (case find (\<lambda>i. satisfy_condition (attr_type h) (nat (attr_length h)) (ts_comp_op sc)
                            (nkeys node i) (ts_value sc)) [nat (ts_index sc)..<kn node] of
             Some i \<Rightarrow> (Inr (nrids node i), sc\<lparr>ts_next_handle := k, ts_index := int i + 1\<rparr>)
           | None \<Rightarrow> scan_pages ks (sc\<lparr>ts_next_handle := k + 1, ts_index := 0\<rparr>) t))"

definition get_next_idx_in_memory ::
  "BplusTreeScanner \<Rightarrow> BplusTreeHandler \<Rightarrow> RID result \<times> BplusTreeScanner" where
  "get_next_idx_in_memory sc t =
     (if ts_next_handle sc \<ge> ts_pinned sc then (Inl RECORD_NO_MORE_IDX_IN_MEM, sc)
      else if ts_next_page sc = - 1 \<and> ts_index sc = - 1 then (Inl RECORD_EOF, sc)
      else if ts_index sc < 0 then (Inl UB, sc)
      else scan_pages [ts_next_handle sc..<ts_pinned sc] sc t)"

fun unpin_handles :: "BPPageHandle list \<Rightarrow> unit tree_op" where
  "unpin_handles [] = retR ()"
| "unpin_handles (ph # phs) = bindR (unpin ph) (\<lambda>_. unpin_handles phs)"

fun pin_pages ::
  "nat list \<Rightarrow> BplusTreeScanner \<Rightarrow> BplusTreeHandler \<Rightarrow> unit result \<times> BplusTreeScanner \<times> BplusTreeHandler" where
  "pin_pages [] sc t = (SUCCESS, sc, t)"
| "pin_pages (i # is) sc t =
     (if ts_next_page sc \<le> 0 then (SUCCESS, sc, t)
      else
        (case bindR (fetch (ts_next_page sc)) (\<lambda>ph. bindR (read_node ph) (\<lambda>node. retR (ph, node))) t of
           (Inl e, t1) \<Rightarrow> (Inl e, sc, t1)
         | (Inr (ph, node), t1) \<Rightarrow>
             pin_pages is (sc\<lparr>ts_handles := (ts_handles sc)(i := ph), ts_pinned := ts_pinned sc + 1,
               ts_next_page := rid_page (nrids node (nat (torder (bt_header t1)) - 1))\<rparr>) t1))"

definition find_idx_pages ::
  "BplusTreeScanner \<Rightarrow> BplusTreeHandler \<Rightarrow> unit result \<times> BplusTreeScanner \<times> BplusTreeHandler" where
  "find_idx_pages sc t =
     (if \<not> ts_opened sc then (Inl RECORD_CLOSED, sc, t)
      else
        (case unpin_handles (map (ts_handles sc) [0..<ts_pinned sc]) t of
           (Inl e, t1) \<Rightarrow> (Inl e, sc, t1)
         | (Inr _, t1) \<Rightarrow>
             (case pin_pages [0..<ts_num_fixed sc] (sc\<lparr>ts_next_handle := 0, ts_pinned := 0\<rparr>) t1 of
                (Inl e, sc1, t2) \<Rightarrow> (Inl e, sc1, t2)
              | (Inr _, sc1, t2) \<Rightarrow>
                  (if ts_pinned sc1 > 0 then SUCCESS else Inl RECORD_EOF, sc1, t2))))"

definition next_entry ::
  "BplusTreeScanner \<Rightarrow> BplusTreeHandler \<Rightarrow> RID result \<times> BplusTreeScanner \<times> BplusTreeHandler" where
  "next_entry sc t =
     (if \<not> ts_opened sc then (Inl RECORD_CLOSED, sc, t)
      else
        (case get_next_idx_in_memory sc t of
           (Inl e, sc1) \<Rightarrow>
             if e = RECORD_NO_MORE_IDX_IN_MEM then
               (case find_idx_pages sc1 t of
                  (Inl e, sc2, t1) \<Rightarrow> (Inl e, sc2, t1)
                | (Inr _, sc2, t1) \<Rightarrow> let (r, sc3) = get_next_idx_in_memory sc2 t1 in (r, sc3, t1))
             else (Inl e, sc1, t)
         | (Inr rid, sc1) \<Rightarrow> (Inr rid, sc1, t)))"

section \<open>\<^verbatim>\<open>BplusTreeIndex\<close>\<close>

text \<open>The class of \<^verbatim>\<open>bplus_tree_index.cpp\<close> over the handler; \<open>bi_offset\<close> is the offset of the
  indexed field in a record.\<close>

record BplusTreeIndex =
  bi_inited :: bool
  bi_unique :: int
  bi_offset :: nat
  bi_handler :: BplusTreeHandler

definition field_at :: "BplusTreeIndex \<Rightarrow> bytes \<Rightarrow> bytes" where
  "field_at ix rec = (\<lambda>i. rec (bi_offset ix + i))"

definition index_create ::
  "string \<Rightarrow> nat \<Rightarrow> AttrType \<Rightarrow> int \<Rightarrow> BplusTreeIndex \<Rightarrow> unit result \<times> BplusTreeIndex" where
  "index_create name off ty len ix =
     (if bi_inited ix then (Inl RECORD_OPENNED, ix)
      else let (r, t) = tree_create name ty len (bi_handler ix)
           in (r, ix\<lparr>bi_offset := off, bi_handler := t, bi_inited := (r = SUCCESS)\<rparr>))"

definition index_open :: "string \<Rightarrow> nat \<Rightarrow> BplusTreeIndex \<Rightarrow> unit result \<times> BplusTreeIndex" where
  "index_open name off ix =
     (if bi_inited ix then (Inl RECORD_OPENNED, ix)
      else let (r, t) = tree_open name (bi_handler ix)
           in (r, ix\<lparr>bi_offset := off, bi_handler := t, bi_inited := (r = SUCCESS)\<rparr>))"

definition index_close :: "BplusTreeIndex \<Rightarrow> unit result \<times> BplusTreeIndex" where
  "index_close ix =
     (if bi_inited ix
      then let (r, t) = tree_close (bi_handler ix)
           in if r = Inl UB then (r, ix) else (SUCCESS, ix\<lparr>bi_handler := t, bi_inited := False\<rparr>)
      else (SUCCESS, ix))"

definition index_sync :: "BplusTreeIndex \<Rightarrow> unit result \<times> BplusTreeIndex" where
  "index_sync ix = (let (r, t) = tree_sync (bi_handler ix) in (r, ix\<lparr>bi_handler := t\<rparr>))"

text \<open>A scanner that cannot be opened is a null pointer.\<close>

definition create_scanner ::
  "CompOp \<Rightarrow> bytes \<Rightarrow> BplusTreeHandler \<Rightarrow> (BplusTreeScanner option \<times> BplusTreeHandler) option" where
  "create_scanner op src t =
     (case scanner_open op src BplusTreeScanner_new t of
        None \<Rightarrow> None
      | Some (r, sc, t1) \<Rightarrow> Some (if r = SUCCESS then Some sc else None, t1))"

text \<open>The uniqueness check of \<^verbatim>\<open>insert_entry\<close>; destroying the scanner unpins nothing.\<close>

definition unique_check :: "bytes \<Rightarrow> unit tree_loop" where
  "unique_check src t =
     (case create_scanner EQUAL_TO src t of
        None \<Rightarrow> None
      | Some (None, t1) \<Rightarrow> Some (Inl UB, t1)
      | Some (Some sc, t1) \<Rightarrow>
          let (r, _, t2) = next_entry sc t1
          in Some (case r of Inr _ \<Rightarrow> Inl RECORD_DUPLICATE_KEY | Inl _ \<Rightarrow> SUCCESS, t2))"

definition index_op :: "BplusTreeIndex \<Rightarrow> unit tree_loop \<Rightarrow> (unit result \<times> BplusTreeIndex) option" where
  "index_op ix m = map_option (\<lambda>(r, t). (r, ix\<lparr>bi_handler := t\<rparr>)) (m (bi_handler ix))"

definition index_insert_entry :: "bytes \<Rightarrow> RID \<Rightarrow> BplusTreeIndex \<Rightarrow> (unit result \<times> BplusTreeIndex) option" where
  "index_insert_entry rec rid ix =
     (let src = field_at ix rec in
      index_op ix (if bi_unique ix = 1 then bindO (unique_check src) (\<lambda>_. insert_entry src rid)
                   else insert_entry src rid))"

definition index_delete_entry :: "bytes \<Rightarrow> RID \<Rightarrow> BplusTreeIndex \<Rightarrow> (unit result \<times> BplusTreeIndex) option" where
  "index_delete_entry rec rid ix = index_op ix (delete_entry (field_at ix rec) rid)"

end
