(* ===== verification/Bplus_Spec.thy ===== *)
theory Bplus_Spec
  imports Bplus_Tree
begin

text \<open>
  What the operations on the nodes of the B+ tree guarantee.  A node is abstracted to lists: the keys and
  record ids of a leaf, the keys and child pages of an inner node.  \<open>ins_at\<close> and \<open>del_at\<close> are the
  list operations the array loops refine.  The last part carries the results to the operations
  of the handler.
\<close>

section \<open>Arrays as lists\<close>

definition arr :: "(nat \<Rightarrow> 'a) \<Rightarrow> nat \<Rightarrow> 'a list" where
  "arr a n = map a [0..<n]"

definition ins_at :: "nat \<Rightarrow> 'a \<Rightarrow> 'a list \<Rightarrow> 'a list" where
  "ins_at p x xs = take p xs @ x # drop p xs"

definition del_at :: "nat \<Rightarrow> 'a list \<Rightarrow> 'a list" where
  "del_at p xs = take p xs @ drop (Suc p) xs"

lemma length_arr [simp]: "length (arr a n) = n"
  by (simp add: arr_def)

lemma nth_arr [simp]: "i < n \<Longrightarrow> arr a n ! i = a i"
  by (simp add: arr_def)

lemma arr_cong: "(\<And>i. i < n \<Longrightarrow> a i = b i) \<Longrightarrow> arr a n = arr b n"
  by (simp add: arr_def)

lemma take_arr [simp]: "take k (arr a n) = arr a (min k n)"
  by (rule nth_equalityI) auto

lemma set_arr: "set (arr a n) = a ` {..<n}"
  by (auto simp: arr_def)

lemma arr_Suc: "arr a (Suc n) = arr a n @ [a n]"
  by (simp add: arr_def)

lemma arr_append: "arr a (m + n) = arr a m @ arr (\<lambda>i. a (m + i)) n"
  by (induction n) (simp_all add: arr_Suc, simp add: arr_def)

lemma drop_arr: "drop k (arr a n) = arr (\<lambda>i. a (k + i)) (n - k)"
  by (rule nth_equalityI) auto

lemma nth_ins_at: "p \<le> length xs \<Longrightarrow>
  ins_at p x xs ! i = (if i < p then xs ! i else if i = p then x else xs ! (i - 1))"
  by (auto simp: ins_at_def nth_append nth_Cons min_def split: nat.splits intro!: arg_cong [of _ _ "(!) xs"])

lemma length_ins_at [simp]: "p \<le> length xs \<Longrightarrow> length (ins_at p x xs) = Suc (length xs)"
  by (simp add: ins_at_def)

lemma length_del_at [simp]: "p < length xs \<Longrightarrow> length (del_at p xs) = length xs - 1"
  by (simp add: del_at_def)

lemma nth_del_at: "p < length xs \<Longrightarrow> del_at p xs ! i = (if i < p then xs ! i else xs ! Suc i)"
  by (auto simp: del_at_def nth_append)

lemma arr_shift_up: "p \<le> n \<Longrightarrow> arr ((shift_up a p n)(p := x)) (Suc n) = ins_at p x (arr a n)"
  by (rule nth_equalityI) (auto simp: shift_up_eq nth_ins_at)

lemma arr_shift_down: "p < n \<Longrightarrow> arr (shift_down a p (n - 1)) (n - 1) = del_at p (arr a n)"
  by (rule nth_equalityI) (auto simp: shift_down_eq nth_del_at)

lemma arr_spread: "p \<le> n \<Longrightarrow> arr ((spread temp a p 0 0 n)(p := x)) (Suc n) = ins_at p x (arr a n)"
  by (rule nth_equalityI) (auto simp: spread_eq nth_ins_at)

lemma arr_copy: "i \<le> n \<Longrightarrow> arr (copy_array dst src i j n) (j + (n - i)) = arr dst j @ drop i (arr src n)"
  by (rule nth_equalityI) (auto simp: copy_array_eq nth_append)

lemma arr_halves:
  assumes "m \<le> n"
  shows "arr (copy_array a s 0 0 m) m @ arr (copy_array b s m 0 n) (n - m) = arr s n"
  using assms by (intro nth_equalityI) (auto simp: nth_append copy_array_eq)

lemma arr_upd_out [simp]: "n \<le> k \<Longrightarrow> arr (a(k := x)) n = arr a n"
  by (rule arr_cong) simp

lemma first_pos_le [simp]: "first_pos P n \<le> n"
  by (auto simp: first_pos_def find_Some_iff_first split: option.splits)

lemma first_pos_lt: "first_pos P n < n \<Longrightarrow> P (first_pos P n)"
  using find_Some_iff_first [of P 0 n] by (cases "find P [0..<n]") (simp_all add: first_pos_def, blast)

lemma before_first_pos: "i < first_pos P n \<Longrightarrow> \<not> P i"
  by (auto simp: first_pos_def find_Some_iff_first find_upt_None_iff split: option.splits)

lemma first_pos_eqI: "P i \<Longrightarrow> (\<And>j. j < i \<Longrightarrow> \<not> P j) \<Longrightarrow> i < n \<Longrightarrow> first_pos P n = i"
  by (metis before_first_pos first_pos_le first_pos_lt le_neq_implies_less linorder_neqE_nat order.strict_trans)

section \<open>Sorted nodes\<close>

definition keys_of :: "IndexNode \<Rightarrow> key list" where
  "keys_of n = arr (nkeys n) (kn n)"

definition rids_of :: "IndexNode \<Rightarrow> RID list" where
  "rids_of n = arr (nrids n) (kn n)"

definition children :: "IndexNode \<Rightarrow> RID list" where
  "children n = arr (nrids n) (Suc (kn n))"

definition next_leaf :: "IndexFileHeader \<Rightarrow> IndexNode \<Rightarrow> RID" where
  "next_leaf h n = nrids n (nat (torder h) - 1)"

definition ordered :: "IndexFileHeader \<Rightarrow> key list \<Rightarrow> bool" where
  "ordered h ks \<longleftrightarrow> sorted_wrt (\<lambda>a b. kcmp h a b < 0) ks"

definition good_type :: "IndexFileHeader \<Rightarrow> bool" where
  "good_type h \<longleftrightarrow> attr_type h \<in> {INTS, CHARS, DATES}"

lemma kcmp_order: "good_type h \<Longrightarrow> key_order (kcmp h)"
  using CmpKey_order [of "attr_type h" "nat (attr_length h)"] by (simp add: good_type_def kcmp_def [abs_def])

lemma leaf_position_le: "leaf_position h n k = Inr p \<Longrightarrow> p \<le> kn n"
  by (auto simp: leaf_position_def Let_def split: if_splits)

lemma upper_position_le [simp]: "upper_position h n k \<le> kn n"
  by (simp add: upper_position_def)


context key_order
begin

lemma sorted_ins_at:
  assumes "sorted_wrt lt xs" and "p \<le> length xs"
    and "\<And>i. i < p \<Longrightarrow> lt (xs ! i) x"
    and "p < length xs \<Longrightarrow> lt x (xs ! p)"
  shows "sorted_wrt lt (ins_at p x xs)"
proof -
  have above: "lt x y" if y: "y \<in> set (drop p xs)" for y
  proof -
    obtain i where "i < length xs - p" "y = drop p xs ! i" using y unfolding in_set_conv_nth by auto
    then have i: "p + i < length xs" "y = xs ! (p + i)" by auto
    have "i = 0 \<or> lt (xs ! p) (xs ! (p + i))"
      using assms(1) i by (cases i) (auto simp: sorted_wrt_iff_nth_less)
    then show ?thesis using assms(4) i lt_trans [of x "xs ! p" y] by auto
  qed
  have below: "lt y x" if "y \<in> set (take p xs)" for y
    using that assms(3) by (auto simp: in_set_conv_nth)
  have "sorted_wrt lt (take p xs @ drop p xs)" using assms(1) by simp
  then show ?thesis
    using above below by (auto simp: ins_at_def sorted_wrt_append simp del: append_take_drop_id)
qed

lemma not_equal_from:
  assumes "sorted_wrt lt xs" and "\<And>i. i < p \<Longrightarrow> lt (xs ! i) x"
    and "p < length xs \<Longrightarrow> lt x (xs ! p)" and "y \<in> set xs"
  shows "cmp x y \<noteq> 0"
proof -
  obtain i where i: "i < length xs" "y = xs ! i" using assms(4) by (auto simp: in_set_conv_nth)
  consider "i < p" | "i = p" | "p < i" by linarith
  then show ?thesis
  proof cases
    case 1 then show ?thesis using assms(2) [of i] i(2) cmp_zero_sym [of x y] by (auto simp: lt_def)
  next
    case 2 then show ?thesis using assms(3) i by (auto simp: lt_def)
  next
    case 3
    then have "lt (xs ! p) (xs ! i)" using assms(1) i by (auto simp: sorted_wrt_iff_nth_less)
    then have "lt x y" using assms(3) i 3 lt_trans [of x "xs ! p" y] by auto
    then show ?thesis by (simp add: lt_def)
  qed
qed

lemma pos_lt: "cmp x y > 0 \<longleftrightarrow> lt y x"
  using cmp_flip [of y x] by (simp add: lt_def)

end

lemma ordered_lt: "good_type h \<Longrightarrow> ordered h = sorted_wrt (key_order.lt (kcmp h))"
  using key_order.lt_def [OF kcmp_order, of h] unfolding ordered_def [abs_def] by presburger

lemma leaf_position_cases:
  assumes "good_type h" "leaf_position h n k = Inr p"
  shows "p \<le> length (keys_of n)" "\<And>i. i < p \<Longrightarrow> key_order.lt (kcmp h) (keys_of n ! i) k"
    "p < length (keys_of n) \<Longrightarrow> key_order.lt (kcmp h) k (keys_of n ! p)"
proof -
  define P where "P = (\<lambda>i. kcmp h k (nkeys n i) = 0 \<or> kcmp h k (nkeys n i) < 0)"
  have p: "p = first_pos P (kn n)" and nd: "p < kn n \<Longrightarrow> kcmp h k (nkeys n p) \<noteq> 0"
    using assms(2) by (auto simp: leaf_position_def Let_def P_def split: if_splits)
  note lt = key_order.lt_def [OF kcmp_order [OF assms(1)]]
  show "p \<le> length (keys_of n)" by (simp add: p keys_of_def)
  then have "i < p \<Longrightarrow> i < kn n" for i by (simp add: keys_of_def)
  then show "i < p \<Longrightarrow> key_order.lt (kcmp h) (keys_of n ! i) k" for i
    using before_first_pos [of i P "kn n"] key_order.pos_lt [OF kcmp_order [OF assms(1)], of k "nkeys n i"]
    by (auto simp: p keys_of_def P_def)
  show "p < length (keys_of n) \<Longrightarrow> key_order.lt (kcmp h) k (keys_of n ! p)"
    using first_pos_lt [of P "kn n"] nd by (auto simp: p keys_of_def lt P_def)
qed

lemma upper_position_cases:
  assumes "good_type h" "\<forall>x\<in>set (keys_of n). kcmp h k x \<noteq> 0"
  shows "\<And>i. i < upper_position h n k \<Longrightarrow> key_order.lt (kcmp h) (keys_of n ! i) k"
    "upper_position h n k < length (keys_of n) \<Longrightarrow> key_order.lt (kcmp h) k (keys_of n ! upper_position h n k)"
proof -
  define P where "P = (\<lambda>i. kcmp h k (nkeys n i) < 0)"
  have p: "upper_position h n k = first_pos P (kn n)" by (simp add: upper_position_def P_def)
  note lt = key_order.lt_def [OF kcmp_order [OF assms(1)]]
  show "key_order.lt (kcmp h) (keys_of n ! i) k" if i: "i < upper_position h n k" for i
  proof -
    have "i < kn n" using i upper_position_le [of h n k] by linarith
    moreover from this have "kcmp h k (nkeys n i) \<noteq> 0" using assms(2) by (auto simp: keys_of_def set_arr)
    ultimately show ?thesis
      using before_first_pos [of i P "kn n"] i key_order.pos_lt [OF kcmp_order [OF assms(1)], of k "nkeys n i"]
      by (auto simp: p keys_of_def P_def)
  qed
  show "upper_position h n k < length (keys_of n) \<Longrightarrow>
      key_order.lt (kcmp h) k (keys_of n ! upper_position h n k)"
    using first_pos_lt [of P "kn n"] by (auto simp: p keys_of_def lt P_def)
qed

lemma leaf_store_lists:
  assumes "0 \<le> key_num n" "p \<le> kn n"
  shows "keys_of (leaf_store n p k r) = ins_at p k (keys_of n)"
    "rids_of (leaf_store n p k r) = ins_at p r (rids_of n)"
  using assms arr_shift_up [of p "kn n" "nkeys n" k] arr_shift_up [of p "kn n" "nrids n" r]
  by (simp_all add: keys_of_def rids_of_def leaf_store_def nat_add_distrib)

section \<open>Small nodes\<close>

text \<open>Nodes of order 4 over one-character keys, the record id of an entry being its position.\<close>

definition demo_header :: IndexFileHeader where
  "demo_header = \<lparr>attr_length = 1, key_length = 9, attr_type = CHARS, root_page = 1, node_num = 1, torder = 4\<rparr>"

definition demo_key :: "byte \<Rightarrow> key" where
  "demo_key b = [b, 0, 0, 0, 0, 0, 0, 0, 0]"

definition demo_node :: "int \<Rightarrow> byte list \<Rightarrow> int \<Rightarrow> IndexNode" where
  "demo_node leaf bs from =
     \<lparr>is_leaf = leaf, key_num = int (length bs), parent = - 1,
      nkeys = (\<lambda>i. if i < length bs then demo_key (bs ! i) else []), nrids = (\<lambda>i. page_rid (from + int i))\<rparr>"

lemma demo_good: "good_type demo_header" "torder demo_header = 4"
  by (simp_all add: good_type_def demo_header_def)

lemma demo_kcmp: "kcmp demo_header (demo_key a) (demo_key b) =
  (if a < b then - 1 else if b < a then 1 else 0)"
  by (simp add: kcmp_def CmpKey_def CompareKey_def demo_header_def demo_key_def CmpRid_def key_bytes_def get_rid_def)

lemma demo_keys: "keys_of (demo_node l bs f) = map demo_key bs" "kn (demo_node l bs f) = length bs"
  by (auto simp: keys_of_def demo_node_def arr_def intro!: nth_equalityI)

lemma demo_ordered: "ordered demo_header (map demo_key bs) \<longleftrightarrow> sorted_wrt (<) bs"
proof -
  have "kcmp demo_header (demo_key a) (demo_key b) < 0 \<longleftrightarrow> a < b" for a b by (simp add: demo_kcmp)
  then show ?thesis by (simp add: ordered_def sorted_wrt_map)
qed

lemma demo_rids: "rids_of (demo_node l bs f) = map (\<lambda>i. page_rid (f + int i)) [0..<length bs]"
  "children (demo_node l bs f) = map (\<lambda>i. page_rid (f + int i)) [0..<Suc (length bs)]"
  by (simp_all add: rids_of_def children_def demo_node_def arr_def)

lemma demo_fields: "is_leaf (demo_node l bs f) = l" "key_num (demo_node l bs f) = int (length bs)"
  "nrids (demo_node l bs f) i = page_rid (f + int i)"
  "nkeys (demo_node l bs f) i = (if i < length bs then demo_key (bs ! i) else [])"
  by (simp_all add: demo_node_def)

lemmas demo_simps = demo_fields demo_good demo_kcmp demo_keys demo_ordered demo_rids

section \<open>Leaves\<close>

lemma leaf_insert_cases:
  assumes "good_type h" "0 \<le> key_num n" "ordered h (keys_of n)"
  shows "case leaf_position h n k of
      Inl e \<Rightarrow> e = RECORD_DUPLICATE_KEY \<and> (\<exists>x\<in>set (keys_of n). kcmp h k x = 0)
    | Inr p \<Rightarrow> (\<forall>x\<in>set (keys_of n). kcmp h k x \<noteq> 0) \<and>
        keys_of (leaf_store n p k r) = ins_at p k (keys_of n) \<and>
        rids_of (leaf_store n p k r) = ins_at p r (rids_of n) \<and>
        ordered h (keys_of (leaf_store n p k r))"
proof (cases "leaf_position h n k")
  case (Inl e)
  then show ?thesis
    by (auto simp: leaf_position_def Let_def keys_of_def set_arr split: if_splits)
next
  case (Inr p)
  note ko = kcmp_order [OF assms(1)] and pos = leaf_position_cases [OF assms(1) Inr]
  have "p \<le> kn n" by (rule leaf_position_le [OF Inr])
  note lists = leaf_store_lists [OF assms(2) this, of k r]
  have sorted: "sorted_wrt (key_order.lt (kcmp h)) (keys_of n)"
    using assms(3) by (simp add: ordered_lt [OF assms(1)])
  have "kcmp h k x \<noteq> 0" if "x \<in> set (keys_of n)" for x
    using key_order.not_equal_from [OF ko sorted pos(2,3) that] by simp
  moreover have "ordered h (ins_at p k (keys_of n))"
    using key_order.sorted_ins_at [OF ko sorted pos] by (simp add: ordered_lt [OF assms(1)])
  ultimately show ?thesis by (simp add: Inr lists)
qed

text \<open>Inserting into a leaf.  On a leaf with strictly increasing keys \<^verbatim>\<open>insert_into_leaf\<close>
  reports \<^verbatim>\<open>RECORD_DUPLICATE_KEY\<close> exactly when the key is there, and otherwise puts key and
  record id at the same place, keeps all other entries and keeps the keys strictly increasing.\<close>

theorem leaf_insert_correct:
  assumes "good_type h" "0 \<le> key_num n" "ordered h (keys_of n)"
  shows "case leaf_position h n k of
      Inl e \<Rightarrow> e = RECORD_DUPLICATE_KEY \<and> (\<exists>x\<in>set (keys_of n). kcmp h k x = 0)
    | Inr p \<Rightarrow> (\<forall>x\<in>set (keys_of n). kcmp h k x \<noteq> 0) \<and>
        keys_of (leaf_store n p k r) = ins_at p k (keys_of n) \<and>
        rids_of (leaf_store n p k r) = ins_at p r (rids_of n) \<and>
        ordered h (keys_of (leaf_store n p k r))"
  by (rule leaf_insert_cases [OF assms])

lemma demo_position: "leaf_position demo_header (demo_node 1 [97, 99] 5) (demo_key 98) = Inr 1"
  by (simp add: leaf_position_def Let_def demo_keys(2) first_pos_def) (simp add: demo_node_def demo_kcmp upt_rec)

theorem leaf_insert_correct_witness:
  "keys_of (leaf_store (demo_node 1 [97, 99] 5) 1 (demo_key 98) (page_rid 7)) = map demo_key [97, 98, 99]"
  using leaf_insert_correct [of demo_header "demo_node 1 [97, 99] 5" "demo_key 98" "page_rid 7"]
    demo_ordered [of "[97, 99]"]
  by (simp add: demo_position demo_simps ins_at_def)

lemma leaf_split_keys:
  assumes "kn leaf = nat (torder h) - 1" "2 \<le> torder h"
    and sp: "leaf_split h leaf new new_page k r = (l, n)"
  shows "keys_of l @ keys_of n = ins_at (upper_position h leaf k) k (keys_of leaf)"
    "rids_of l @ rids_of n = ins_at (upper_position h leaf k) r (rids_of leaf)"
proof -
  define ord where "ord = nat (torder h)"
  have ord: "2 \<le> ord" "kn leaf = ord - 1" and h: "torder h = int ord" using assms(1,2) by (auto simp: ord_def)
  define tk where "tk = (spread (\<lambda>_. []) (nkeys leaf) (upper_position h leaf k) 0 0 (kn leaf))
    (upper_position h leaf k := k)"
  define tp where "tp = (spread (\<lambda>_. page_rid 0) (nrids leaf) (upper_position h leaf k) 0 0 (kn leaf))
    (upper_position h leaf k := r)"
  have tk: "arr tk ord = ins_at (upper_position h leaf k) k (keys_of leaf)"
    using arr_spread [OF upper_position_le [of h leaf k]] ord by (simp add: tk_def keys_of_def)
  have tp: "arr tp ord = ins_at (upper_position h leaf k) r (rids_of leaf)"
    using arr_spread [OF upper_position_le [of h leaf k]] ord by (simp add: tp_def rids_of_def)
  have "keys_of l = arr (copy_array (nkeys leaf) tk 0 0 (ord div 2)) (ord div 2)"
    "keys_of n = arr (copy_array (nkeys new) tk (ord div 2) 0 ord) (ord - ord div 2)"
    "rids_of l = arr (copy_array (nrids leaf) tp 0 0 (ord div 2)) (ord div 2)"
    "rids_of n = arr (copy_array (nrids new) tp (ord div 2) 0 ord) (ord - ord div 2)"
    using sp ord(1) by (auto simp: leaf_split_def Let_def keys_of_def rids_of_def h tk_def tp_def simp del: of_nat_diff)
  then show "keys_of l @ keys_of n = ins_at (upper_position h leaf k) k (keys_of leaf)"
    "rids_of l @ rids_of n = ins_at (upper_position h leaf k) r (rids_of leaf)"
    using tk tp by (simp_all add: arr_halves)
qed

text \<open>C19: splitting a full leaf.  For a key that is not in the leaf, the two leaves together hold
  the entries of the old one with the new entry in its place, still strictly increasing; they
  hold \<^verbatim>\<open>order / 2\<close> and \<^verbatim>\<open>order - order / 2\<close> keys, and the new leaf stands behind the old one
  in the chain of leaves.\<close>

theorem leaf_split_correct:
  assumes "good_type h" "2 \<le> torder h" "kn leaf = nat (torder h) - 1" "ordered h (keys_of leaf)"
    and "\<forall>x\<in>set (keys_of leaf). kcmp h k x \<noteq> 0"
  shows "case leaf_split h leaf new new_page k r of (l, n) \<Rightarrow>
      keys_of l @ keys_of n = ins_at (upper_position h leaf k) k (keys_of leaf) \<and>
      rids_of l @ rids_of n = ins_at (upper_position h leaf k) r (rids_of leaf) \<and>
      ordered h (keys_of l @ keys_of n) \<and>
      key_num l = torder h div 2 \<and> key_num n = torder h - torder h div 2 \<and>
      next_leaf h l = page_rid new_page \<and> next_leaf h n = next_leaf h leaf \<and>
      is_leaf n = 1 \<and> parent n = parent leaf \<and> parent l = parent leaf"
proof -
  obtain l n where sp: "leaf_split h leaf new new_page k r = (l, n)" by fastforce
  note lists = leaf_split_keys [OF assms(3,2) sp] and ko = kcmp_order [OF assms(1)]
  have "ordered h (ins_at (upper_position h leaf k) k (keys_of leaf))"
    using key_order.sorted_ins_at [OF ko, of "keys_of leaf" "upper_position h leaf k" k] assms(4)
      upper_position_cases [OF assms(1,5)] by (simp add: ordered_lt [OF assms(1)]) (simp add: keys_of_def)
  moreover have "key_num l = torder h div 2 \<and> key_num n = torder h - torder h div 2 \<and>
      is_leaf n = 1 \<and> parent n = parent leaf \<and> parent l = parent leaf"
    using sp assms(2) by (auto simp: leaf_split_def Let_def of_nat_diff nat_div_distrib zdiv_int)
  moreover have "next_leaf h l = page_rid new_page \<and> next_leaf h n = next_leaf h leaf"
    using sp assms(2) by (auto simp: leaf_split_def Let_def next_leaf_def copy_array_eq)
  ultimately show ?thesis using lists by (simp add: sp)
qed

theorem leaf_split_correct_witness:
  "case leaf_split demo_header (demo_node 1 [97, 99, 101] 5) (demo_node 1 [] 0) 2 (demo_key 98) (page_rid 9) of
     (l, n) \<Rightarrow> ordered demo_header (keys_of l @ keys_of n) \<and> key_num l = 2 \<and> key_num n = 2"
  using leaf_split_correct [where h = demo_header and leaf = "demo_node 1 [97, 99, 101] 5" and k = "demo_key 98"
      and new = "demo_node 1 [] 0" and new_page = 2 and r = "page_rid 9"] demo_ordered [of "[97, 99, 101]"]
  by (auto simp: demo_simps split: prod.splits)

section \<open>Inner nodes\<close>

text \<open>Inserting a separator and a child to its right into an inner node that has room: both
  land at the position of the left child, nothing else changes.\<close>

theorem intern_insert_correct:
  assumes "0 \<le> key_num n" "i \<le> kn n" "rid_page (nrids n i) = left_page"
    and "\<forall>j<i. rid_page (nrids n j) \<noteq> left_page"
  shows "child_position n left_page = i \<and>
    keys_of (intern_store n i k right_page) = ins_at i k (keys_of n) \<and>
    children (intern_store n i k right_page) = ins_at (i + 1) (page_rid right_page) (children n)"
proof -
  have "child_position n left_page = i"
    unfolding child_position_def using assms by (intro first_pos_eqI) (auto simp: nat_add_distrib)
  moreover have "keys_of (intern_store n i k right_page) = ins_at i k (keys_of n)"
    using assms arr_shift_up [of i "kn n" "nkeys n" k]
    by (simp add: keys_of_def intern_store_def nat_add_distrib)
  moreover have "children (intern_store n i k right_page) = ins_at (i + 1) (page_rid right_page) (children n)"
    using assms arr_shift_up [of "i + 1" "Suc (kn n)" "nrids n" "page_rid right_page"]
    by (simp add: children_def intern_store_def nat_add_distrib)
  ultimately show ?thesis by blast
qed

theorem intern_insert_correct_witness:
  "children (intern_store (demo_node 0 [97, 99] 5) 1 (demo_key 98) 9) = map page_rid [5, 6, 9, 7]"
  using intern_insert_correct [of "demo_node 0 [97, 99] 5" 1 6 "demo_key 98" 9]
  by (simp add: demo_simps ins_at_def page_rid_def upt_rec)

lemma arr_split_middle:
  assumes "m < n"
  shows "arr (copy_array a s 0 0 m) m @ s m # arr (copy_array b s (Suc m) 0 n) (n - Suc m) = arr s n"
  using assms
  by (intro nth_equalityI) (auto simp: nth_append nth_Cons copy_array_eq split: nat.splits intro!: arg_cong [of _ _ s])

lemma arr_split_children:
  assumes "m < n"
  shows "arr ((copy_array a s 0 0 m)(m := s m)) (Suc m) @
      arr ((copy_array b s (Suc m) 0 n)(n - Suc m := s n)) (Suc (n - Suc m)) = arr s (Suc n)"
  using assms by (intro nth_equalityI) (auto simp: nth_append copy_array_eq intro!: arg_cong [of _ _ s])

text \<open>Splitting a full inner node.  The separators of the two nodes with the key that moves up
  between them are the old separators with the new one in its place, and the children likewise.\<close>

theorem intern_split_correct:
  assumes "2 \<le> torder h" "kn inner = nat (torder h) - 1" "pos \<le> kn inner"
  shows "case intern_split h inner new pos k right_page of (l, n, new_key) \<Rightarrow>
      keys_of l @ new_key # keys_of n = ins_at pos k (keys_of inner) \<and>
      children l @ children n = ins_at (pos + 1) (page_rid right_page) (children inner) \<and>
      key_num l = (torder h + 1) div 2 - 1 \<and> key_num n = torder h - (torder h + 1) div 2 \<and>
      is_leaf n = 0 \<and> parent n = parent inner \<and> parent l = parent inner"
proof -
  define ord m where "ord = nat (torder h)" and "m = (ord + 1) div 2 - 1"
  have ord: "2 \<le> ord" "kn inner = ord - 1" "Suc (kn inner) = ord" "m < ord" "(ord + 1) div 2 = Suc m"
    and h: "torder h = int ord"
    using assms(1,2) by (auto simp: ord_def m_def)
  define tk where "tk = (spread (\<lambda>_. []) (nkeys inner) pos 0 0 (kn inner))(pos := k)"
  define tp where "tp = (spread (\<lambda>_. page_rid 0) (nrids inner) (pos + 1) 0 0 (kn inner + 1))
    (pos + 1 := page_rid right_page)"
  have tk: "arr tk ord = ins_at pos k (keys_of inner)"
    using arr_spread [OF assms(3), of "\<lambda>_. []" "nkeys inner" k] ord(3) by (simp add: tk_def keys_of_def)
  have tp: "arr tp (Suc ord) = ins_at (pos + 1) (page_rid right_page) (children inner)"
    using arr_spread [of "pos + 1" "kn inner + 1" "\<lambda>_. page_rid 0" "nrids inner" "page_rid right_page"] assms(3) ord(3)
    by (simp add: tp_def children_def)
  define l n where "l = inner\<lparr>nkeys := copy_array (nkeys inner) tk 0 0 m,
      nrids := (copy_array (nrids inner) tp 0 0 m)(m := tp m), key_num := int m\<rparr>"
    and "n = new\<lparr>key_num := int (ord - Suc m), is_leaf := 0, parent := parent inner,
      nkeys := copy_array (nkeys new) tk (Suc m) 0 ord,
      nrids := (copy_array (nrids new) tp (Suc m) 0 ord)(ord - Suc m := tp ord)\<rparr>"
  have sp: "intern_split h inner new pos k right_page = (l, n, tk m)"
    unfolding intern_split_def Let_def h nat_int ord(5) tk_def [symmetric] tp_def [symmetric]
    by (simp add: l_def n_def)
  have "keys_of l @ tk m # keys_of n = arr tk ord"
    using arr_split_middle [OF ord(4), of "nkeys inner" tk "nkeys new"]
    by (simp add: keys_of_def l_def n_def del: of_nat_diff)
  moreover have "children l @ children n = arr tp (Suc ord)"
    using arr_split_children [OF ord(4), of "nrids inner" tp "nrids new"]
    by (simp add: children_def l_def n_def del: of_nat_diff)
  moreover have "key_num l = (torder h + 1) div 2 - 1 \<and> key_num n = torder h - (torder h + 1) div 2"
    using ord(4,5) by (simp add: l_def n_def h flip: of_nat_Suc) linarith
  ultimately show ?thesis by (simp add: sp tk tp) (simp add: l_def n_def)
qed

theorem intern_split_correct_witness:
  "case intern_split demo_header (demo_node 0 [97, 99, 101] 5) (demo_node 1 [] 0) 1 (demo_key 98) 9 of
     (l, n, new_key) \<Rightarrow> keys_of l @ new_key # keys_of n = map demo_key [97, 98, 99, 101] \<and>
       children l @ children n = map page_rid [5, 6, 9, 7, 8]"
  using intern_split_correct [where h = demo_header and inner = "demo_node 0 [97, 99, 101] 5" and pos = 1
      and new = "demo_node 1 [] 0" and k = "demo_key 98" and right_page = 9]
  by (auto simp: demo_simps ins_at_def upt_rec split: prod.splits)

section \<open>Deletion\<close>

text \<open>Deleting from a node.  A key that is not there is reported; otherwise its position is
  removed from the keys, with the record id of the same position in a leaf and with the child to
  the right of it in an inner node.\<close>

theorem node_delete_correct:
  assumes "0 \<le> key_num n"
  shows "case node_delete h n k of
      Inl e \<Rightarrow> e = RECORD_INVALID_KEY \<and> (\<forall>x\<in>set (keys_of n). kcmp h k x \<noteq> 0)
    | Inr n' \<Rightarrow> (\<exists>i<kn n. kcmp h k (nkeys n i) = 0 \<and> keys_of n' = del_at i (keys_of n) \<and>
        (if is_leaf n \<noteq> 0 then rids_of n' = del_at i (rids_of n)
         else children n' = del_at (Suc i) (children n)))"
proof -
  define P where "P = (\<lambda>i. kcmp h k (nkeys n i) = 0)"
  define i where "i = first_pos P (kn n)"
  show ?thesis
  proof (cases "i < kn n")
    case False
    then have "\<not> P j" if "j < kn n" for j using before_first_pos [of j P "kn n"] that by (simp add: i_def)
    with False show ?thesis
      by (auto simp: node_delete_def Let_def i_def P_def keys_of_def set_arr)
  next
    case True
    then have "kcmp h k (nkeys n i) = 0" using first_pos_lt [of P "kn n"] by (simp add: i_def P_def)
    moreover have "nat (key_num n - 1) = kn n - 1" using assms True by simp
    moreover have "Suc (kn n - 1) = kn n" using True by simp
    ultimately show ?thesis
      using True arr_shift_down [of i "kn n" "nkeys n"] arr_shift_down [of i "kn n" "nrids n"]
        arr_shift_down [of "Suc i" "Suc (kn n)" "nrids n"]
      by (auto simp: node_delete_def Let_def i_def [symmetric, unfolded P_def] keys_of_def rids_of_def children_def
          intro!: exI [of _ i])
  qed
qed

theorem node_delete_correct_witness:
  "node_delete demo_header (demo_node 1 [97, 99] 5) (demo_key 98) = Inl RECORD_INVALID_KEY"
  using node_delete_correct [of "demo_node 1 [97, 99] 5" demo_header "demo_key 98"]
  by (auto simp: demo_simps less_2_cases_iff split: sum.splits)

text \<open>Merging two neighbours.  The left leaf gets the entries of the right one behind its own
  and its place in the chain of leaves; the left inner node gets the separator of the parent,
  then the separators and the children of the right one.\<close>

theorem node_merge_correct:
  assumes "0 \<le> key_num left" "0 \<le> key_num right" "kn left + kn right < nat (torder h)"
  shows "if is_leaf left \<noteq> 0
    then keys_of (node_merge h left right pk) = keys_of left @ keys_of right \<and>
      rids_of (node_merge h left right pk) = rids_of left @ rids_of right \<and>
      next_leaf h (node_merge h left right pk) = next_leaf h right
    else keys_of (node_merge h left right pk) = keys_of left @ pk # keys_of right \<and>
      children (node_merge h left right pk) = children left @ children right"
proof (cases "is_leaf left = 0")
  case False
  then have "node_merge h left right pk =
      left\<lparr>nkeys := copy_array (nkeys left) (nkeys right) 0 (kn left) (kn right),
        nrids := (copy_array (nrids left) (nrids right) 0 (kn left) (kn right))
          (nat (torder h) - 1 := nrids right (nat (torder h) - 1)),
        key_num := key_num left + key_num right\<rparr>"
    using assms(2) by (simp add: node_merge_def Let_def)
  moreover have "arr (copy_array a s 0 (kn left) (kn right)) (kn left + kn right) = arr a (kn left) @ arr s (kn right)"
    for a s :: "nat \<Rightarrow> key" using arr_copy [of 0 "kn right" a s "kn left"] by simp
  moreover have "arr (copy_array a s 0 (kn left) (kn right)) (kn left + kn right) = arr a (kn left) @ arr s (kn right)"
    for a s :: "nat \<Rightarrow> RID" using arr_copy [of 0 "kn right" a s "kn left"] by simp
  moreover have "kn left + kn right \<le> nat (torder h) - 1" using assms(3) by linarith
  ultimately show ?thesis
    using False assms(1,2) by (simp add: keys_of_def rids_of_def next_leaf_def nat_add_distrib)
next
  case True
  then have m: "node_merge h left right pk =
      left\<lparr>nkeys := copy_array ((nkeys left)(kn left := pk)) (nkeys right) 0 (Suc (kn left)) (kn right),
        nrids := (copy_array (nrids left) (nrids right) 0 (Suc (kn left)) (kn right))
          (Suc (kn left) + kn right := nrids right (kn right)),
        key_num := key_num left + 1 + key_num right\<rparr>"
    using assms(2) by (simp add: node_merge_def Let_def)
  have "nat (key_num left + 1 + key_num right) = Suc (kn left) + kn right"
    using assms(1,2) by (simp add: nat_add_distrib)
  then show ?thesis
    using True arr_copy [of 0 "kn right" "(nkeys left)(kn left := pk)" "nkeys right" "Suc (kn left)"]
      arr_copy [of 0 "kn right" "nrids left" "nrids right" "Suc (kn left)"]
    by (simp add: m keys_of_def children_def arr_Suc)
qed

theorem node_merge_correct_witness:
  "keys_of (node_merge demo_header (demo_node 0 [97] 5) (demo_node 0 [101] 7) (demo_key 99)) = map demo_key [97, 99, 101]"
  using node_merge_correct [of "demo_node 0 [97] 5" "demo_node 0 [101] 7" demo_header "demo_key 99"]
  by (simp add: demo_simps)

text \<open>Moving the first entry of the right leaf to the left one keeps all entries in order, and
  the separator in the parent becomes the first key of the right leaf.\<close>

theorem redistribute_leaf_left:
  assumes "is_leaf left \<noteq> 0" "0 \<le> key_num left" "key_num left < torder h div 2" "1 \<le> key_num right"
  shows "case redistribute h left right par k of (l, r, p) \<Rightarrow>
      keys_of l @ keys_of r = keys_of left @ keys_of right \<and>
      rids_of l @ rids_of r = rids_of left @ rids_of right \<and>
      key_num l = key_num left + 1 \<and> key_num r = key_num right - 1 \<and>
      nkeys p k = nkeys r 0 \<and> (\<forall>j. j \<noteq> k \<longrightarrow> nkeys p j = nkeys par j)"
proof -
  have n: "nat (key_num left + 1) = Suc (kn left)" "nat (key_num right - 1) = kn right - 1" "0 < kn right"
    using assms by auto
  have first: "a 0 # arr (shift_down a 0 (kn right - 1)) (kn right - 1) = arr a (kn right)" for a :: "nat \<Rightarrow> key"
    using n(3) by (intro nth_equalityI) (auto simp: nth_Cons shift_down_eq split: nat.splits)
  have first': "a 0 # arr (shift_down a 0 (kn right - 1)) (kn right - 1) = arr a (kn right)" for a :: "nat \<Rightarrow> RID"
    using n(3) by (intro nth_equalityI) (auto simp: nth_Cons shift_down_eq split: nat.splits)
  show ?thesis
    using assms first [of "nkeys right"] first' [of "nrids right"]
    by (simp add: redistribute_def keys_of_def rids_of_def n arr_Suc)
qed

theorem redistribute_leaf_left_witness:
  "case redistribute demo_header (demo_node 1 [97] 5) (demo_node 1 [99, 101] 7) (demo_node 0 [99] 2) 0 of
     (l, r, p) \<Rightarrow> keys_of l @ keys_of r = map demo_key [97, 99, 101] \<and> nkeys p 0 = nkeys r 0"
  using redistribute_leaf_left [where left = "demo_node 1 [97] 5" and h = demo_header
      and right = "demo_node 1 [99, 101] 7" and par = "demo_node 0 [99] 2" and k = 0]
  by (auto simp: demo_simps split: prod.splits)

text \<open>Moving the last entry of the left leaf to the right one copies the key but not the
  record id: the key stands in front of the keys of the right leaf with the record id of the
  right leaf's first entry, and its own record id is in neither leaf.\<close>

theorem redistribute_leaf_right_wrong_rid:
  assumes "is_leaf left \<noteq> 0" "torder h div 2 \<le> key_num left" "1 \<le> key_num left" "1 \<le> key_num right"
    and "distinct (rids_of left @ rids_of right)"
  shows "case redistribute h left right par k of (l, r, p) \<Rightarrow>
      keys_of r = nkeys left (kn left - 1) # keys_of right \<and>
      rids_of r = nrids right 0 # rids_of right \<and>
      nrids left (kn left - 1) \<notin> set (rids_of l @ rids_of r)"
proof -
  have n: "nat (key_num left - 1) = kn left - 1" "nat (key_num right + 1) = Suc (kn right)" "0 < kn right"
    and kl: "arr (nrids left) (kn left) = arr (nrids left) (kn left - 1) @ [nrids left (kn left - 1)]"
    using assms arr_Suc [of "nrids left" "kn left - 1"] by auto
  have keys: "arr ((shift_up (nkeys right) 0 (kn right))(0 := nkeys left (kn left - 1))) (Suc (kn right)) =
      nkeys left (kn left - 1) # arr (nkeys right) (kn right)"
    using arr_shift_up [of 0 "kn right" "nkeys right"] by (simp add: ins_at_def)
  have rids: "arr (shift_up (nrids right) 0 (kn right)) (Suc (kn right)) = nrids right 0 # arr (nrids right) (kn right)"
    using arr_shift_up [of 0 "kn right" "nrids right" "nrids right 0"]
    by (simp add: ins_at_def shift_up_eq fun_upd_idem)
  have "nrids right 0 \<in> set (rids_of right)" using n(3) by (auto simp: rids_of_def set_arr)
  then have "nrids left (kn left - 1) \<notin> set (arr (nrids left) (kn left - 1) @ nrids right 0 # rids_of right)"
    using assms(5) by (auto simp: rids_of_def [of left] kl)
  then show ?thesis
    using assms(1,2) by (simp add: redistribute_def keys_of_def rids_of_def n keys [simplified] rids)
qed

theorem redistribute_leaf_right_wrong_rid_witness:
  "case redistribute demo_header (demo_node 1 [95, 96, 97] 2) (demo_node 1 [99] 7) (demo_node 0 [99] 2) 0 of
     (l, r, p) \<Rightarrow> keys_of r = map demo_key [97, 99] \<and> rids_of r = map page_rid [7, 7]"
  using redistribute_leaf_right_wrong_rid [where left = "demo_node 1 [95, 96, 97] 2" and h = demo_header
      and right = "demo_node 1 [99] 7" and par = "demo_node 0 [99] 2" and k = 0]
  by (auto simp: demo_simps upt_rec page_rid_def split: prod.splits)

text \<open>Moving a child from the right inner node to the left one loses the last child of the
  right node, with everything below it.\<close>

theorem redistribute_intern_left_loses_child:
  assumes "is_leaf left = 0" "0 \<le> key_num left" "key_num left < (torder h + 1) div 2 - 1" "1 \<le> key_num right"
    and "distinct (children left @ children right)"
  shows "case redistribute h left right par k of (l, r, p) \<Rightarrow>
      nrids right (kn right) \<in> set (children right) \<and> nrids right (kn right) \<notin> set (children l @ children r)"
proof -
  have n: "nat (key_num left + 1) = Suc (kn left)" "Suc (nat (key_num right - 1)) = kn right" "0 < kn right"
    using assms by auto
  have diff: "i < kn right \<Longrightarrow> nrids right i \<noteq> nrids right (kn right)" for i
    using assms(5) nth_eq_iff_index_eq [of "children right" i "kn right"] by (auto simp: children_def)
  have "nrids right (kn right) \<notin> set (children left)"
    using assms(5) by (auto simp: children_def set_arr)
  then have "nrids right (kn right) \<notin> set (arr ((nrids left)(Suc (kn left) := nrids right 0)) (Suc (Suc (kn left))))"
    using diff [of 0] n(3) by (simp add: arr_Suc [of _ "Suc (kn left)"] children_def)
  moreover have "nrids right (kn right) \<notin> set (arr (shift_down (nrids right) 0 (kn right - 1)) (kn right))"
    using diff by (auto simp: set_arr shift_down_eq dest: sym)
  ultimately show ?thesis
    using assms(1,3) by (simp add: redistribute_def children_def n) (simp add: set_arr)
qed

theorem redistribute_intern_left_loses_child_witness:
  "case redistribute demo_header (demo_node 0 [] 5) (demo_node 0 [99, 101] 7) (demo_node 0 [98] 2) 0 of
     (l, r, p) \<Rightarrow> page_rid 9 \<notin> set (children l @ children r)"
  using redistribute_intern_left_loses_child [where left = "demo_node 0 [] 5" and h = demo_header
      and right = "demo_node 0 [99, 101] 7" and par = "demo_node 0 [98] 2" and k = 0]
  by (auto simp: demo_simps upt_rec page_rid_def split: prod.splits)

section \<open>Nodes in pages\<close>

lemma get_int_shift: "get_int d (a + b) = get_int (\<lambda>i. d (a + i)) b"
  by (simp add: get_int_def get32_def add.assoc)

lemma rid_bytes_nth: "j < 8 \<Longrightarrow> rid_bytes r ! j = put_rid (\<lambda>_. 0) 0 r j"
  by (simp add: rid_bytes_def)

lemma get_rid_bytes:
  assumes "\<And>j. j < 8 \<Longrightarrow> d (a + j) = rid_bytes r ! j" "int32 (rid_page r)" "int32 (rid_slot r)"
  shows "get_rid d a = r"
proof -
  have "get_int d (a + b) = get_int (put_rid (\<lambda>_. 0) 0 r) b" if "b \<le> 4" for b
    unfolding get_int_shift using that assms(1) by (intro get_int_cong) (simp add: rid_bytes_nth)
  from this [of 0] this [of 4] show ?thesis
    using assms(2,3) by (simp add: get_rid_def put_rid_def get_int_put_int_other)
qed

text \<open>A node that fits a page of the index.\<close>

definition node_fits :: "IndexFileHeader \<Rightarrow> IndexNode \<Rightarrow> bool" where
  "node_fits h n \<longleftrightarrow> int32 (is_leaf n) \<and> int32 (key_num n) \<and> int32 (parent n) \<and>
     (\<forall>i<nat (torder h). length (nkeys n i) = nat (key_length h) \<and>
        int32 (rid_page (nrids n i)) \<and> int32 (rid_slot (nrids n i)))"

lemma put_node_key:
  assumes "i < nat (torder h)" "k < nat (key_length h)"
  shows "put_index_node h n d (keys_at + i * nat (key_length h) + k) = nkeys n i ! k"
proof -
  have "i * nat (key_length h) + k < Suc i * nat (key_length h)" using assms(2) by simp
  also have "\<dots> \<le> nat (torder h) * nat (key_length h)" using assms(1) by (intro mult_le_mono1) simp
  finally show ?thesis using assms(2) by (simp add: put_index_node_def rids_at_def Let_def add.assoc)
qed

lemma put_node_rid:
  assumes "i < nat (torder h)" "j < 8"
  shows "put_index_node h n d (rids_at h + i * 8 + j) = rid_bytes (nrids n i) ! j"
  using assms by (simp add: put_index_node_def Let_def add.assoc)

lemma put_node_low: "a < keys_at \<Longrightarrow>
  put_index_node h n d a = put_int (put_int (put_int d 24 (is_leaf n)) 28 (key_num n)) 32 (parent n) a"
  by (simp add: put_index_node_def Let_def rids_at_def)

lemma index_node_roundtrip':
  fixes d :: bytes
  assumes "node_fits h n"
  defines "m \<equiv> get_index_node h (put_index_node h n d)"
  shows "is_leaf m = is_leaf n" "key_num m = key_num n" "parent m = parent n"
    "\<And>i. i < nat (torder h) \<Longrightarrow> nkeys m i = nkeys n i" "\<And>i. i < nat (torder h) \<Longrightarrow> nrids m i = nrids n i"
    "get_index_header (put_index_node h n d) = get_index_header d"
proof -
  let ?d = "put_index_node h n d"
  have ints: "get_int ?d a =
      get_int (put_int (put_int (put_int d 24 (is_leaf n)) 28 (key_num n)) 32 (parent n)) a" if "a \<le> 32" for a
    using that by (intro get_int_cong put_node_low) (simp add: keys_at_def)
  show "is_leaf m = is_leaf n" "key_num m = key_num n" "parent m = parent n"
    using assms(1) by (simp_all add: m_def get_index_node_def ints node_fits_def get_int_put_int_other)
  show "nkeys m i = nkeys n i" if "i < nat (torder h)" for i
    using assms(1) that by (intro nth_equalityI) (simp_all add: m_def get_index_node_def node_fits_def put_node_key)
  have "get_rid ?d (rids_at h + i * 8) = nrids n i" if "i < nat (torder h)" for i
    using assms(1) that by (intro get_rid_bytes) (simp_all add: node_fits_def put_node_rid)
  then show "i < nat (torder h) \<Longrightarrow> nrids m i = nrids n i" for i by (simp add: m_def get_index_node_def)
  show "get_index_header ?d = get_index_header d"
    by (simp add: get_index_header_def ints get_int_put_int_other)
qed

text \<open>A node stored in a page is read back: its three integers and all \<^verbatim>\<open>order\<close> keys and record
  ids; the file header in front of it is untouched.\<close>

theorem index_node_roundtrip:
  assumes "node_fits h n"
  shows "let m = get_index_node h (put_index_node h n d) in
    is_leaf m = is_leaf n \<and> key_num m = key_num n \<and> parent m = parent n \<and>
    (\<forall>i<nat (torder h). nkeys m i = nkeys n i \<and> nrids m i = nrids n i) \<and>
    get_index_header (put_index_node h n d) = get_index_header d"
  using index_node_roundtrip' [OF assms, where d = d] by (simp add: Let_def)

theorem index_node_roundtrip_witness:
  "key_num (get_index_node demo_header (put_index_node demo_header
     ((demo_node 1 [97] 5)\<lparr>nkeys := \<lambda>_. demo_key 97\<rparr>) (\<lambda>_. 0))) = 1"
  using index_node_roundtrip [of demo_header "(demo_node 1 [97] 5)\<lparr>nkeys := \<lambda>_. demo_key 97\<rparr>" "\<lambda>_. 0"]
  by (simp add: Let_def node_fits_def demo_simps int32_def) (simp add: demo_node_def demo_header_def demo_key_def page_rid_def)

end
