(* ===== verification/Bplus_Access.thy ===== *)
theory Bplus_Access
  imports Bplus_Spec Record_Spec
begin

text \<open>
  The page accesses of the B+ tree over the buffer pool: a page that is fetched, read or written,
  and given back.  \<open>tree_ready\<close> is the state between accesses; as long as not every frame is pinned
  an access succeeds and leaves such a state again, because it gives back every pin it takes.
\<close>

section \<open>Pin counts\<close>

lemma load_page_frames:
  assumes "load_page s pn fh f = (SUCCESS, s')" "f < length (frames (bp_manager s))"
  shows "length (frames (bp_manager s')) = length (frames (bp_manager s))"
    "\<And>g. g \<noteq> f \<Longrightarrow> frame_of s' g = frame_of s g"
  using assms by (auto simp: load_page_def Let_def split: prod.splits option.splits if_splits)

lemma get_this_page_pins:
  assumes wf: "wf_pool {} s" and fh: "check_file_id s fid = Inr fh" and pn: "check_page_num s pn fh = SUCCESS"
    and g: "get_this_page s fid pn ph = (SUCCESS, ph', s')" and f: "ph_frame ph' = Some f"
  shows "length (frames (bp_manager s')) = length (frames (bp_manager s))"
    "\<And>g. g \<noteq> f \<Longrightarrow> pin_count (frame_of s' g) = pin_count (frame_of s g)"
    "get (bp_manager s) (fh_desc fh) pn \<noteq> None \<Longrightarrow> free_list (bp_manager s') = free_list (bp_manager s)"
    "get (bp_manager s) (fh_desc fh) pn \<noteq> None \<Longrightarrow> get (bp_manager s) (fh_desc fh) pn = Some f"
proof -
  have "length (frames (bp_manager s')) = length (frames (bp_manager s)) \<and>
    (\<forall>g. g \<noteq> f \<longrightarrow> pin_count (frame_of s' g) = pin_count (frame_of s g)) \<and>
    (get (bp_manager s) (fh_desc fh) pn \<noteq> None \<longrightarrow>
      free_list (bp_manager s') = free_list (bp_manager s) \<and> get (bp_manager s) (fh_desc fh) pn = Some f)"
  proof (cases "get (bp_manager s) (fh_desc fh) pn")
    case (Some x)
    have b: "wf_bpm {} (bp_manager s)" using wf by (simp add: wf_pool_def)
    have "x < length (frames (bp_manager s))" using wf_bpm_get [OF b Some] by simp
    then show ?thesis using get_this_page_hit [OF fh pn Some, of ph] g f Some by auto
  next
    case None
    show ?thesis
    proof (cases rule: allocate_block_cases [OF wf])
      case 1
      then show ?thesis using g by (simp add: get_this_page_def fh pn None)
    next
      case (2 x s1)
      have bt: "length (frames (bp_manager s1)) = length (frames (bp_manager s))" "x < length (frames (bp_manager s))"
          "\<And>y. y \<noteq> x \<Longrightarrow> frame_of s1 y = frame_of s y"
        using 2(2) by (auto simp: block_taken_def)
      let ?c = "claim_frame x (fh_desc fh) s1"
      obtain r s2 where l: "load_page ?c pn fh x = (r, s2)" by fastforce
      then have r: "r = SUCCESS" "f = x" "s' = add_page_table s2 (fh_desc fh) pn x"
        using g f 2(1) by (auto simp: get_this_page_def fh pn None Let_def split: sum.splits)
      have c: "x < length (frames (bp_manager ?c))" using bt by (simp add: claim_frame_def)
      note L = load_page_frames [OF l [unfolded r(1)] c]
      show ?thesis
        using L bt None by (simp add: r add_page_table_def AddPageTable_def claim_frame_def)
    qed
  qed
  then show "length (frames (bp_manager s')) = length (frames (bp_manager s))"
    "\<And>g. g \<noteq> f \<Longrightarrow> pin_count (frame_of s' g) = pin_count (frame_of s g)"
    "get (bp_manager s) (fh_desc fh) pn \<noteq> None \<Longrightarrow> free_list (bp_manager s') = free_list (bp_manager s)"
    "get (bp_manager s) (fh_desc fh) pn \<noteq> None \<Longrightarrow> get (bp_manager s) (fh_desc fh) pn = Some f"
    by blast+
qed

lemma unpin_page_frames:
  assumes "unpin_page s ph = (SUCCESS, ph', s')" "ph_frame ph = Some f" "f < length (frames (bp_manager s))"
  shows "length (frames (bp_manager s')) = length (frames (bp_manager s))"
    "free_list (bp_manager s') = free_list (bp_manager s)"
    "\<And>g. g \<noteq> f \<Longrightarrow> frame_of s' g = frame_of s g"
  using assms by (auto simp: unpin_page_def Let_def split: if_splits)

section \<open>Borrowing a page\<close>

definition tree_ready :: "BplusTreeHandler \<Rightarrow> BPFileHandle \<Rightarrow> bool" where
  "tree_ready t fh \<longleftrightarrow> bt_pool t \<and> wf_pool {} (pool t) \<and> pins_ok (pool t) \<and> \<not> all_pinned (pool t) \<and>
     check_file_id (pool t) (bt_file_id t) = Inr fh"

definition tree_page :: "BplusTreeHandler \<Rightarrow> BPFileHandle \<Rightarrow> int \<Rightarrow> bool" where
  "tree_page t fh pn \<longleftrightarrow> pn \<noteq> 0 \<and> check_page_num (pool t) pn fh = SUCCESS"

text \<open>The state \<open>t1\<close> while page \<open>pn\<close> is held in frame \<open>f\<close>, having been fetched in state \<open>t\<close>.\<close>

definition borrowed ::
  "BplusTreeHandler \<Rightarrow> BPFileHandle \<Rightarrow> int \<Rightarrow> BPPageHandle \<Rightarrow> nat \<Rightarrow> BplusTreeHandler \<Rightarrow> bool" where
  "borrowed t fh pn ph f t1 \<longleftrightarrow> pn \<noteq> 0 \<and> ph_open ph \<and> ph_frame ph = Some f \<and>
     t1 = t\<lparr>pool := pool t1\<rparr> \<and> wf_pool {} (pool t1) \<and> open_file (pool t1) = open_file (pool t) \<and>
     get (bp_manager (pool t1)) (fh_desc fh) pn = Some f \<and> pin_count (frame_of (pool t1) f) \<noteq> 0 \<and>
     (pin_count (frame_of (pool t1) f) = 1 \<longrightarrow> synced (pool t1) (fh_desc fh) pn (frame_of (pool t1) f)) \<and>
     length (frames (bp_manager (pool t1))) = length (frames (bp_manager (pool t))) \<and>
     (\<forall>g. g \<noteq> f \<longrightarrow> pin_count (frame_of (pool t1) g) = pin_count (frame_of (pool t) g)) \<and>
     (pin_count (frame_of (pool t1) f) = 1 \<or>
      free_list (bp_manager (pool t1)) = free_list (bp_manager (pool t)) \<and>
      pin_count (frame_of (pool t1) f) = pin_count (frame_of (pool t) f) + 1)"

lemma fetch_ok:
  assumes t: "tree_ready t fh" and pn: "tree_page t fh pn"
  obtains ph f t1 where "fetch pn t = (Inr ph, t1)" "borrowed t fh pn ph f t1"
    "view (pool t1) = view (pool t)" "view (pool t) (fh_desc fh) pn = Some (fdata (pool t1) f)"
proof -
  have R: "bt_pool t" "wf_pool {} (pool t)" "pins_ok (pool t)" "\<not> all_pinned (pool t)"
      "check_file_id (pool t) (bt_file_id t) = Inr fh" "pn \<noteq> 0" "check_page_num (pool t) pn fh = SUCCESS"
    using t pn by (simp_all add: tree_ready_def tree_page_def)
  show ?thesis
  proof (cases rule: get_this_page_cases [OF R(2,3,5,7), of new_handle])
    case 1
    then show ?thesis using R(4) by simp
  next
    case (2 ph s')
    then obtain f where f: "ph_frame ph = Some f" "ph_open ph" "get (bp_manager s') (fh_desc fh) pn = Some f"
        "pin_count (frame_of s' f) \<noteq> 0" "view (pool t) (fh_desc fh) pn = Some (fdata s' f)"
        "pin_count (frame_of s' f) = 1 \<longrightarrow> synced s' (fh_desc fh) pn (frame_of s' f)"
        "pin_count (frame_of s' f) =
          (case get (bp_manager (pool t)) (fh_desc fh) pn of Some g \<Rightarrow> pin_count (frame_of (pool t) g) + 1 | None \<Rightarrow> 1)"
      by (auto simp: page_delivered_def fdata_def)
    note P = get_this_page_pins [OF R(2,5,7) 2(1) f(1)]
    have o: "open_file s' = open_file (pool t)" using 2(5) by (simp add: kept_def)
    have "fetch pn t = (Inr ph, t\<lparr>pool := s'\<rparr>)"
      using R(1) 2(1) f(1,2) by (simp add: fetch_def pool_op_def with_data_def get_data_def)
    moreover have "borrowed t fh pn ph f (t\<lparr>pool := s'\<rparr>)"
      unfolding borrowed_def
      using f P o 2(2) R(6) by (auto split: option.splits)
    ultimately show ?thesis using that 2(3) f(5) by simp
  qed
qed

lemma borrowed_frame: "borrowed t fh pn ph f t1 \<Longrightarrow> f < length (frames (bp_manager (pool t1)))"
  using wf_bpm_get [of "{}" "bp_manager (pool t1)" "fh_desc fh" pn f] by (simp add: borrowed_def wf_pool_def)

lemma borrowed_fields:
  "borrowed t fh pn ph f t1 \<Longrightarrow> bt_pool t1 = bt_pool t \<and> bt_file_id t1 = bt_file_id t \<and>
   bt_header t1 = bt_header t \<and> bt_header_dirty t1 = bt_header_dirty t"
  unfolding borrowed_def by (metis BplusTreeHandler.ext_inject BplusTreeHandler.surjective BplusTreeHandler.update_convs(5))

lemma read_borrowed:
  "borrowed t fh pn ph f t1 \<Longrightarrow> read_node ph t1 = (Inr (get_index_node (bt_header t) (fdata (pool t1) f)), t1)"
  using borrowed_fields [of t fh pn ph f t1] by (simp add: borrowed_def read_node_def)

lemma page_of_borrowed:
  assumes "borrowed t fh pn ph f t1"
  shows "page_of ph t1 = (Inr pn, t1)"
proof -
  have "page_num (page (frame_of (pool t1) f)) = pn"
    using wf_bpm_get [of "{}" "bp_manager (pool t1)" "fh_desc fh" pn f] assms by (simp add: borrowed_def wf_pool_def)
  then show ?thesis using assms by (simp add: borrowed_def page_of_def get_page_num_def)
qed

section \<open>Giving it back\<close>

lemma unpin_borrowed:
  assumes t: "tree_ready t fh" and B: "borrowed t fh pn ph f t1"
    and h0: "view (pool t1) (fh_desc fh) 0 = view (pool t) (fh_desc fh) 0"
  obtains t2 where "unpin ph t1 = (SUCCESS, t2)" "tree_ready t2 fh" "t2 = t\<lparr>pool := pool t2\<rparr>"
    "view (pool t2) = view (pool t1)" "open_file (pool t2) = open_file (pool t)"
    "\<And>p. tree_page t2 fh p = tree_page t fh p"
proof -
  note F = borrowed_frame [OF B]
  have G: "wf_pool {} (pool t1)" "get (bp_manager (pool t1)) (fh_desc fh) pn = Some f"
      "pin_count (frame_of (pool t1) f) \<noteq> 0" "ph_frame ph = Some f" "pn \<noteq> 0"
    using B by (simp_all add: borrowed_def)
  have last: "pin_count (frame_of (pool t1) f) = 1 \<Longrightarrow> synced (pool t1) (fh_desc fh) pn (frame_of (pool t1) f) \<and> pn \<noteq> 0"
    using B by (simp add: borrowed_def)
  obtain s' where s': "unpin_page (pool t1) ph = (SUCCESS, ph\<lparr>ph_open := False\<rparr>, s')" "wf_pool {} s'"
      "view s' = view (pool t1)" "open_file s' = open_file (pool t1)"
      "frame_of s' f = (frame_of (pool t1) f)\<lparr>pin_count := pin_count (frame_of (pool t1) f) - 1\<rparr>"
    using unpin_page_ok [OF G(1,2,3) last G(4)] by blast
  note U = unpin_page_frames [OF s'(1) G(4) F]
  let ?t2 = "t\<lparr>pool := s'\<rparr>"
  have pins: "pin_count (frame_of s' g) = pin_count (frame_of (pool t) g)" if "g \<noteq> f" for g
    using B U(3) [OF that] that by (simp add: borrowed_def)
  have pf: "pin_count (frame_of s' f) = 0 \<or>
      free_list (bp_manager s') = free_list (bp_manager (pool t)) \<and> pin_count (frame_of s' f) = pin_count (frame_of (pool t) f)"
    using B s'(5) U(2) by (auto simp: borrowed_def)
  have l: "length (frames (bp_manager s')) = length (frames (bp_manager (pool t)))" "f < length (frames (bp_manager s'))"
    using B U(1) F by (simp_all add: borrowed_def)
  have po: "pins_ok (pool t)" "\<not> all_pinned (pool t)" "check_file_id (pool t) (bt_file_id t) = Inr fh"
      "wf_pool {} (pool t)" "bt_pool t"
    using t by (simp_all add: tree_ready_def)
  have pc: "pin_count (frame_of s' g) \<noteq> - 1" if "g < length (frames (bp_manager s'))" for g
    using pins [of g] pf pins_okD [OF po(1), of g] that l(1) by (cases "g = f") auto
  then have "pins_ok s'" unfolding pins_ok_def by (metis in_set_conv_nth)
  moreover have "\<not> all_pinned s'"
    using po(2) l pins pf unfolding all_pinned_def by metis
  moreover have o: "open_file s' = open_file (pool t)" using s'(4) B by (simp add: borrowed_def)
  note C = checks_kept [OF po(4) s'(2) o po(3)]
  have v0: "view s' (fh_desc fh) 0 = view (pool t) (fh_desc fh) 0" using h0 s'(3) by simp
  ultimately have "tree_ready ?t2 fh" using s'(2) po(5) C(1) [OF v0] by (simp add: tree_ready_def)
  moreover have "tree_page ?t2 fh p = tree_page t fh p" for p using C(2) [OF v0] by (simp add: tree_page_def)
  moreover have "t1 = t\<lparr>pool := pool t1\<rparr>" using B by (simp add: borrowed_def)
  then have "unpin ph t1 = (SUCCESS, ?t2)"
    using s'(1) by (simp add: unpin_def pool_op_def) (metis BplusTreeHandler.update_convs(5) BplusTreeHandler.surjective)
  ultimately show ?thesis using that [of ?t2] s'(3) o by simp
qed

lemma write_borrowed:
  assumes t: "tree_ready t fh" and B: "borrowed t fh pn ph f t1" and v: "view (pool t1) = view (pool t)"
  obtains t2 where "bindR (write_data ph g) (\<lambda>_. release ph) t1 = (SUCCESS, t2)" "tree_ready t2 fh"
    "t2 = t\<lparr>pool := pool t2\<rparr>" "open_file (pool t2) = open_file (pool t)"
    "view (pool t2) = (view (pool t))(fh_desc fh := (view (pool t) (fh_desc fh))(pn \<mapsto> g (fdata (pool t1) f)))"
    "\<And>p. tree_page t2 fh p = tree_page t fh p"
proof -
  note F = borrowed_frame [OF B]
  have G: "wf_pool {} (pool t1)" "get (bp_manager (pool t1)) (fh_desc fh) pn = Some f"
      "pin_count (frame_of (pool t1) f) \<noteq> 0" "ph_frame ph = Some f" "pn \<noteq> 0"
    using B by (simp_all add: borrowed_def)
  let ?s2 = "upd_data f g (pool t1)"
  note S = store_ok [OF G(1,2,3,5), of g]
  have g2: "get (bp_manager ?s2) (fh_desc fh) pn = Some f" using G(2) by (simp add: upd_data_def)
  let ?s3 = "upd_frame f (dirty_update (\<lambda>_. True)) ?s2"
  have m: "mark_dirty ?s2 ph = (SUCCESS, ?s3)" using G(4) by (simp add: mark_dirty_def)
  have s3: "wf_pool {} ?s3" "view ?s3 = view ?s2" using mark_dirty_ok [OF S(1) g2 G(4)] m by auto
  let ?t3 = "t\<lparr>pool := ?s3\<rparr>"
  have "borrowed t fh pn ph f ?t3"
    using B F s3(1) by (auto simp: borrowed_def upd_data_def synced_def)
  moreover have "view (pool ?t3) (fh_desc fh) 0 = view (pool t) (fh_desc fh) 0"
    using s3(2) S(2) G(5) v by simp
  ultimately obtain t2 where t2: "unpin ph ?t3 = (SUCCESS, t2)" "tree_ready t2 fh" "t2 = t\<lparr>pool := pool t2\<rparr>"
      "view (pool t2) = view ?s3" "open_file (pool t2) = open_file (pool t)" "\<And>p. tree_page t2 fh p = tree_page t fh p"
    using unpin_borrowed [OF t, of pn ph f ?t3] by auto
  have t1: "t1\<lparr>pool := x\<rparr> = t\<lparr>pool := x\<rparr>" for x
    using B unfolding borrowed_def by (metis BplusTreeHandler.update_convs(5) BplusTreeHandler.surjective)
  have "bindR (write_data ph g) (\<lambda>_. release ph) t1 = (SUCCESS, t2)"
    using G(4) t2(1) m by (simp add: bindR_def write_data_def release_def pool_op_def t1)
  then show ?thesis using that [of t2] t2 s3(2) S(2) v by (simp add: fdata_def)
qed

text \<open>A look at a page: fetch, read, give back.\<close>

definition node_at :: "BplusTreeHandler \<Rightarrow> BPFileHandle \<Rightarrow> int \<Rightarrow> IndexNode option" where
  "node_at t fh pn = map_option (get_index_node (bt_header t)) (view (pool t) (fh_desc fh) pn)"

text \<open>Two states with the same pages: they differ in what is buffered where.\<close>

definition same_pages :: "BPFileHandle \<Rightarrow> BplusTreeHandler \<Rightarrow> BplusTreeHandler \<Rightarrow> bool" where
  "same_pages fh t t' \<longleftrightarrow> t' = t\<lparr>pool := pool t'\<rparr> \<and> view (pool t') = view (pool t) \<and> tree_ready t' fh \<and>
     (\<forall>p. tree_page t' fh p = tree_page t fh p)"

lemma same_pagesD:
  assumes "same_pages fh t t'"
  shows "node_at t' fh = node_at t fh" "bt_header t' = bt_header t" "tree_ready t' fh"
    "tree_page t' fh = tree_page t fh" "view (pool t') = view (pool t)" "bt_pool t' = bt_pool t"
    "bt_file_id t' = bt_file_id t"
proof -
  have e: "t' = t\<lparr>pool := pool t'\<rparr>" using assms by (simp add: same_pages_def)
  show "bt_header t' = bt_header t" "bt_pool t' = bt_pool t" "bt_file_id t' = bt_file_id t" by (subst e, simp)+
  then show "node_at t' fh = node_at t fh" using assms by (auto simp: node_at_def same_pages_def)
  show "tree_ready t' fh" "tree_page t' fh = tree_page t fh" "view (pool t') = view (pool t)"
    using assms by (auto simp: same_pages_def)
qed

lemma same_pages_refl: "tree_ready t fh \<Longrightarrow> same_pages fh t t"
  by (simp add: same_pages_def)

lemma same_pages_trans:
  assumes "same_pages fh t t1" "same_pages fh t1 t2"
  shows "same_pages fh t t2"
proof -
  have "t2 = t\<lparr>pool := pool t2\<rparr>"
    using assms unfolding same_pages_def by (metis BplusTreeHandler.update_convs(5) BplusTreeHandler.surjective)
  then show ?thesis using assms by (simp add: same_pages_def)
qed

lemma visit_ok:
  assumes t: "tree_ready t fh" and pn: "tree_page t fh pn" and n: "node_at t fh pn = Some n"
  obtains ph t1 t2 where "fetch pn t = (Inr ph, t1)" "read_node ph t1 = (Inr n, t1)"
    "page_of ph t1 = (Inr pn, t1)" "unpin ph t1 = (SUCCESS, t2)" "same_pages fh t t2" "bt_header t1 = bt_header t"
proof (rule fetch_ok [OF t pn])
  fix ph f t1
  assume F: "fetch pn t = (Inr ph, t1)" and B: "borrowed t fh pn ph f t1"
    and v: "view (pool t1) = view (pool t)" "view (pool t) (fh_desc fh) pn = Some (fdata (pool t1) f)"
  obtain t2 where "unpin ph t1 = (SUCCESS, t2)" "same_pages fh t t2"
    using unpin_borrowed [OF t B] v(1) by (auto simp: same_pages_def)
  moreover have "read_node ph t1 = (Inr n, t1)" using read_borrowed [OF B] n v(2) by (simp add: node_at_def)
  ultimately show ?thesis using that F page_of_borrowed [OF B] borrowed_fields [OF B] by blast
qed

end
