(* ===== verification/Bplus_Search.thy ===== *)
theory Bplus_Search
  imports Bplus_Access
begin

text \<open>
  The B+ tree as a whole.  \<open>tree\<close> is the shape that the page numbers in the nodes describe,
  \<open>stored\<close> says that the pages of the index file hold it, and \<open>search_tree\<close> that its keys are where a
  search looks for them.  On such a tree \<^verbatim>\<open>find_leaf\<close> returns, \<^verbatim>\<open>get_entry\<close> finds exactly the
  entries that are in the leaves, and \<^verbatim>\<open>insert_entry\<close> into a leaf with room adds the entry and
  keeps all this.
\<close>

section \<open>Trees\<close>

datatype tree = Leaf int IndexNode | Inner int IndexNode "tree list"

fun root_of :: "tree \<Rightarrow> int" where
  "root_of (Leaf p n) = p"
| "root_of (Inner p n ts) = p"

fun stored :: "(int \<Rightarrow> IndexNode option) \<Rightarrow> (int \<Rightarrow> bool) \<Rightarrow> tree \<Rightarrow> bool" where
  "stored v ok (Leaf p n) \<longleftrightarrow> ok p \<and> v p = Some n \<and> is_leaf n \<noteq> 0 \<and> 0 \<le> key_num n"
| "stored v ok (Inner p n ts) \<longleftrightarrow> ok p \<and> v p = Some n \<and> is_leaf n = 0 \<and> 0 \<le> key_num n \<and>
     map rid_page (children n) = map root_of ts \<and> (\<forall>t\<in>set ts. stored v ok t)"

fun pages :: "tree \<Rightarrow> int list" where
  "pages (Leaf p n) = [p]"
| "pages (Inner p n ts) = p # concat (map pages ts)"

fun entries :: "tree \<Rightarrow> (key \<times> RID) list" where
  "entries (Leaf p n) = zip (keys_of n) (rids_of n)"
| "entries (Inner p n ts) = concat (map entries ts)"

lemma size_nth [termination_simp]: "i < length ts \<Longrightarrow> size (ts ! i) < Suc (size_list size ts)"
  using size_list_estimation' [of "ts ! i" ts "size (ts ! i)" size] by simp

text \<open>The leaf a search for \<open>k\<close> ends in.\<close>

fun find_in :: "IndexFileHeader \<Rightarrow> key \<Rightarrow> tree \<Rightarrow> int \<times> IndexNode" where
  "find_in h k (Leaf p n) = (p, n)"
| "find_in h k (Inner p n ts) =
     (let i = upper_position h n k in if i < length ts then find_in h k (ts ! i) else (p, n))"

fun search_tree :: "IndexFileHeader \<Rightarrow> tree \<Rightarrow> bool" where
  "search_tree h (Leaf p n) \<longleftrightarrow> ordered h (keys_of n)"
| "search_tree h (Inner p n ts) \<longleftrightarrow> ordered h (keys_of n) \<and>
     (\<forall>i<length ts. search_tree h (ts ! i) \<and>
        (\<forall>x\<in>set (map fst (entries (ts ! i))).
           (0 < i \<longrightarrow> kcmp h (nkeys n (i - 1)) x \<le> 0) \<and> (i < kn n \<longrightarrow> kcmp h x (nkeys n i) < 0)))"

lemma stored_top: "stored v ok tr \<Longrightarrow> ok (root_of tr) \<and> v (root_of tr) \<noteq> None"
  by (cases tr) auto

lemma stored_children:
  assumes "stored v ok (Inner p n ts)"
  shows "length ts = Suc (kn n)" "\<And>i. i \<le> kn n \<Longrightarrow> rid_page (nrids n i) = root_of (ts ! i)"
    "\<And>i. i \<le> kn n \<Longrightarrow> stored v ok (ts ! i)"
proof -
  have m: "map rid_page (children n) = map root_of ts" using assms by simp
  then show l: "length ts = Suc (kn n)" using map_eq_imp_length_eq [OF m] by (simp add: children_def)
  show "rid_page (nrids n i) = root_of (ts ! i)" if "i \<le> kn n" for i
    using arg_cong [OF m, of "\<lambda>xs. xs ! i"] that l by (simp add: children_def)
  show "stored v ok (ts ! i)" if "i \<le> kn n" for i using assms that l by simp
qed

lemma entries_fst: "map fst (entries (Leaf p n)) = keys_of n"
  by (simp add: keys_of_def rids_of_def)

section \<open>\<^verbatim>\<open>find_leaf\<close>\<close>

lemma descend_ok:
  assumes "tree_ready t fh" "stored (node_at t fh) (tree_page t fh) tr"
    and "fetch (root_of tr) t = (Inr ph, t1)"
  shows "\<exists>t2. descend (\<lambda>n. upper_position (bt_header t) n k) ph t1 = Some (Inr (fst (find_in (bt_header t) k tr)), t2) \<and>
    same_pages fh t t2"
  using assms
proof (induction tr arbitrary: t ph t1)
  case (Leaf p n)
  then have "tree_page t fh p" "node_at t fh p = Some n" "is_leaf n \<noteq> 0" by simp_all
  moreover from visit_ok [OF Leaf.prems(1) this(1,2)] obtain t2 where
    "read_node ph t1 = (Inr n, t1)" "page_of ph t1 = (Inr p, t1)" "unpin ph t1 = (SUCCESS, t2)" "same_pages fh t t2"
    using Leaf.prems(3) by (metis Pair_inject old.sum.inject(2) root_of.simps(1))
  ultimately show ?case
    by (subst descend.simps) (simp add: descend_step_def bindR_def retR_def)
next
  case (Inner p n ts)
  note st = stored_children [OF Inner.prems(2)]
  have pn: "tree_page t fh p" "node_at t fh p = Some n" "is_leaf n = 0" using Inner.prems(2) by simp_all
  obtain t2 where V: "read_node ph t1 = (Inr n, t1)" "unpin ph t1 = (SUCCESS, t2)" "same_pages fh t t2"
    using visit_ok [OF Inner.prems(1) pn(1,2)] Inner.prems(3) by (metis Pair_inject old.sum.inject(2) root_of.simps(2))
  note S = same_pagesD [OF V(3)]
  let ?i = "upper_position (bt_header t) n k"
  have i: "?i \<le> kn n" by simp
  then have i': "?i < Suc (kn n)" by (rule le_imp_less_Suc)
  have st2: "stored (node_at t2 fh) (tree_page t2 fh) (ts ! ?i)" using st(3) [OF i] S by simp
  then have "tree_page t2 fh (root_of (ts ! ?i))" using stored_top by blast
  then obtain ph' t3 where F: "fetch (root_of (ts ! ?i)) t2 = (Inr ph', t3)"
    using fetch_ok [OF S(3)] by metis
  have "ts ! ?i \<in> set ts" using st(1) i' by simp
  from Inner.IH [OF this S(3) st2 F] obtain t4 where
    "descend (\<lambda>n. upper_position (bt_header t) n k) ph' t3 = Some (Inr (fst (find_in (bt_header t) k (ts ! ?i))), t4)"
    "same_pages fh t2 t4"
    unfolding S(2) by blast
  then show ?case
    using V F st(1) st(2) [OF i] pn(3) i' same_pages_trans [OF V(3)]
    by (subst descend.simps) (simp add: descend_step_def bindR_def retR_def Let_def)
qed

lemma find_leaf_ok:
  assumes "tree_ready t fh" "stored (node_at t fh) (tree_page t fh) tr" "root_of tr = root_page (bt_header t)"
  obtains t2 where "find_leaf k t = Some (Inr (fst (find_in (bt_header t) k tr)), t2)" "same_pages fh t t2"
proof -
  have "tree_page t fh (root_of tr)" using stored_top [OF assms(2)] by blast
  then obtain ph f t1 where F: "fetch (root_of tr) t = (Inr ph, t1)" and B: "borrowed t fh (root_of tr) ph f t1"
    using fetch_ok [OF assms(1)] by metis
  have "bt_header t1 = bt_header t" using borrowed_fields [OF B] by simp
  then show ?thesis
    using that descend_ok [OF assms(1,2) F, of k] F assms(3) by (auto simp: find_leaf_def bindO_def liftO_def)
qed

section \<open>Where a key is\<close>

lemma upper_position_unique:
  assumes g: "good_type h" and o: "ordered h (keys_of n)" and j: "j \<le> kn n"
    and lo: "0 < j \<Longrightarrow> kcmp h (nkeys n (j - 1)) x \<le> 0" and hi: "j < kn n \<Longrightarrow> kcmp h x (nkeys n j) < 0"
    and e: "kcmp h k x = 0"
  shows "upper_position h n k = j"
proof -
  note ko = kcmp_order [OF g]
  have below: "\<not> kcmp h k (nkeys n i) < 0" if i: "i < j" for i
  proof
    assume "kcmp h k (nkeys n i) < 0"
    have "kcmp h x k \<le> 0" using e key_order.cmp_zero_sym [OF ko, of k x] by simp
    then have "key_order.lt (kcmp h) x (nkeys n i)"
      using key_order.le_lt_trans [OF ko, of x k "nkeys n i"] \<open>kcmp h k (nkeys n i) < 0\<close>
      by (simp add: key_order.lt_def [OF ko])
    moreover have "kcmp h (nkeys n i) (nkeys n (j - 1)) \<le> 0"
    proof (cases "i = j - 1")
      case True then show ?thesis by (simp add: key_order.cmp_refl [OF ko])
    next
      case False
      then have "i < j - 1" "j - 1 < kn n" using i j by auto
      then show ?thesis using o by (force simp: ordered_def sorted_wrt_iff_nth_less keys_of_def)
    qed
    ultimately have "key_order.lt (kcmp h) x x"
      using key_order.lt_le_trans [OF ko] lo i by (metis gr_zeroI not_less0)
    then show False using key_order.lt_irrefl [OF ko] by blast
  qed
  show ?thesis
  proof (cases "j < kn n")
    case True
    have "kcmp h k (nkeys n j) < 0"
      using key_order.le_lt_trans [OF ko, of k x "nkeys n j"] hi [OF True] e by (simp add: key_order.lt_def [OF ko])
    then show ?thesis unfolding upper_position_def using below True by (intro first_pos_eqI) auto
  next
    case False
    then have "\<not> upper_position h n k < kn n"
      using below first_pos_lt [of "\<lambda>i. kcmp h k (nkeys n i) < 0" "kn n"] j by (auto simp: upper_position_def)
    then show ?thesis using j False upper_position_le [of h n k] by linarith
  qed
qed

lemma entries_child: "i < length ts \<Longrightarrow> set (entries (ts ! i)) \<subseteq> set (entries (Inner p n ts))"
  using nth_mem by fastforce

lemma find_in_stored:
  assumes "stored v ok tr" "find_in h k tr = (p, n)"
  shows "ok p \<and> v p = Some n \<and> is_leaf n \<noteq> 0 \<and> 0 \<le> key_num n \<and> p \<in> set (pages tr) \<and>
    set (zip (keys_of n) (rids_of n)) \<subseteq> set (entries tr)"
  using assms
proof (induction tr)
  case (Inner q m ts)
  note st = stored_children [OF Inner.prems(1)]
  let ?i = "upper_position h m k"
  have i: "?i \<le> kn m" "?i < length ts" using st(1) by (simp_all add: le_imp_less_Suc)
  then have m: "ts ! ?i \<in> set ts" by simp
  have "find_in h k (ts ! ?i) = (p, n)" using Inner.prems(2) i by (simp add: Let_def)
  from Inner.IH [OF m st(3) [OF i(1)] this] show ?case
    using m entries_child [OF i(2), of q m] by auto
qed simp

lemma search_leaf_ordered:
  "search_tree h tr \<Longrightarrow> stored v ok tr \<Longrightarrow> find_in h k tr = (p, n) \<Longrightarrow> ordered h (keys_of n)"
proof (induction tr)
  case (Inner q m ts)
  note st = stored_children [OF Inner.prems(2)]
  let ?i = "upper_position h m k"
  have i: "?i \<le> kn m" "?i < length ts" using st(1) by (simp_all add: le_imp_less_Suc)
  then show ?case
    using Inner.IH [OF nth_mem [OF i(2)] _ st(3) [OF i(1)]] Inner.prems(1,3) by (simp add: Let_def)
qed simp

lemma find_in_complete:
  assumes "good_type h" "search_tree h tr" "stored v ok tr" "x \<in> fst ` set (entries tr)" "kcmp h k x = 0"
  shows "x \<in> set (keys_of (snd (find_in h k tr)))"
  using assms(2-)
proof (induction tr)
  case (Leaf p n)
  then show ?case using entries_fst [of p n] by (metis find_in.simps(1) image_set snd_conv)
next
  case (Inner q m ts)
  note st = stored_children [OF Inner.prems(2)]
  obtain c where "c \<in> set ts" "x \<in> fst ` set (entries c)" using Inner.prems(3) by auto
  then obtain j where j: "j < length ts" "x \<in> fst ` set (entries (ts ! j))" by (metis in_set_conv_nth)
  have b: "search_tree h (ts ! j)" "0 < j \<Longrightarrow> kcmp h (nkeys m (j - 1)) x \<le> 0" "j < kn m \<Longrightarrow> kcmp h x (nkeys m j) < 0"
    using Inner.prems(1) j by auto
  have jk: "j \<le> kn m" using j(1) st(1) by simp
  have "upper_position h m k = j"
    using upper_position_unique [OF assms(1) _ jk b(2,3) Inner.prems(4)] Inner.prems(1) by simp
  then show ?case
    using Inner.IH [OF nth_mem [OF j(1)] b(1) st(3) [OF jk] j(2) Inner.prems(4)] j(1) by (simp add: Let_def)
qed

lemma find_in_keys:
  assumes "good_type h" "search_tree h tr" "stored v ok tr" "find_in h k tr = (p, n)"
  shows "(\<exists>j x. (j, x) \<in> set (entries tr) \<and> kcmp h k j = 0) \<longleftrightarrow> (\<exists>x\<in>set (keys_of n). kcmp h k x = 0)"
proof
  assume "\<exists>j x. (j, x) \<in> set (entries tr) \<and> kcmp h k j = 0"
  then obtain j x where "(j, x) \<in> set (entries tr)" "kcmp h k j = 0" by blast
  then show "\<exists>x\<in>set (keys_of n). kcmp h k x = 0"
    using find_in_complete [OF assms(1-3), of j k] assms(4) by force
next
  assume "\<exists>x\<in>set (keys_of n). kcmp h k x = 0"
  then obtain i where "i < kn n" "kcmp h k (nkeys n i) = 0" by (auto simp: keys_of_def set_arr)
  moreover from this have "(nkeys n i, nrids n i) \<in> set (zip (keys_of n) (rids_of n))"
    by (auto simp: set_zip keys_of_def rids_of_def intro!: exI [of _ i])
  ultimately show "\<exists>j x. (j, x) \<in> set (entries tr) \<and> kcmp h k j = 0"
    using find_in_stored [OF assms(3,4)] by blast
qed

section \<open>Looking an entry up\<close>

text \<open>An index whose file holds a search tree.\<close>

definition index_ok :: "BplusTreeHandler \<Rightarrow> BPFileHandle \<Rightarrow> tree \<Rightarrow> bool" where
  "index_ok t fh tr \<longleftrightarrow> tree_ready t fh \<and> stored (node_at t fh) (tree_page t fh) tr \<and> distinct (pages tr) \<and>
     root_of tr = root_page (bt_header t) \<and> good_type (bt_header t) \<and> search_tree (bt_header t) tr \<and>
     int32 (torder (bt_header t)) \<and> 0 \<le> attr_length (bt_header t) \<and>
     key_length (bt_header t) = attr_length (bt_header t) + 8"

lemma index_okD:
  assumes "index_ok t fh tr"
  shows "tree_ready t fh" "stored (node_at t fh) (tree_page t fh) tr" "root_of tr = root_page (bt_header t)"
    "good_type (bt_header t)" "search_tree (bt_header t) tr" "distinct (pages tr)"
  using assms by (simp_all add: index_ok_def)

section \<open>Adding an entry\<close>

text \<open>The tree with the leaf of \<open>k\<close> replaced.\<close>

fun put_leaf :: "IndexFileHeader \<Rightarrow> key \<Rightarrow> IndexNode \<Rightarrow> tree \<Rightarrow> tree" where
  "put_leaf h k n' (Leaf p n) = Leaf p n'"
| "put_leaf h k n' (Inner p n ts) =
     (let i = upper_position h n k in
      if i < length ts then Inner p n (ts[i := put_leaf h k n' (ts ! i)]) else Inner p n ts)"

lemma root_put_leaf [simp]: "root_of (put_leaf h k n' tr) = root_of tr"
  by (cases tr) (auto simp: Let_def)

lemma pages_put_leaf [simp]: "pages (put_leaf h k n' tr) = pages tr"
proof (induction tr)
  case (Inner p n ts)
  have "map pages (ts[i := put_leaf h k n' (ts ! i)]) = map pages ts" if "i < length ts" for i
    using Inner.IH [OF nth_mem [OF that]] by (simp add: map_update list_update_same_conv that)
  then show ?case by (simp add: Let_def)
qed simp

lemma stored_other: "p \<notin> set (pages tr) \<Longrightarrow> stored (v(p \<mapsto> n')) ok tr = stored v ok tr"
  by (induction tr) auto

lemma distinct_children:
  "distinct (concat (map pages ts)) \<Longrightarrow> i < length ts \<Longrightarrow> j < length ts \<Longrightarrow> i \<noteq> j \<Longrightarrow>
   p \<in> set (pages (ts ! i)) \<Longrightarrow> p \<notin> set (pages (ts ! j))"
proof (induction ts arbitrary: i j)
  case (Cons c ts)
  have "p \<notin> set (pages c)" if "p \<in> set (pages (ts ! m))" "m < length ts" for m
    using Cons.prems(1) that(1) nth_mem [OF that(2)] by (simp add: disjoint_iff) blast
  note other = this
  show ?case
  proof (cases i)
    case 0
    then obtain m where "j = Suc m" using Cons.prems(4) by (cases j) auto
    then show ?thesis using other [of m] Cons.prems(3,5) 0 by auto
  next
    case (Suc m)
    then show ?thesis
      using other [of m] Cons.IH [of m "j - 1"] Cons.prems by (cases j) auto
  qed
qed simp

lemma stored_put_leaf:
  assumes "stored v ok tr" "find_in h k tr = (p, n)" "distinct (pages tr)" "is_leaf n' \<noteq> 0" "0 \<le> key_num n'"
  shows "stored (v(p \<mapsto> n')) ok (put_leaf h k n' tr)"
  using assms(1-3)
proof (induction tr)
  case (Leaf q m)
  then show ?case using assms(4,5) by simp
next
  case (Inner q m ts)
  note st = stored_children [OF Inner.prems(1)]
  let ?i = "upper_position h m k"
  have i: "?i \<le> kn m" "?i < length ts" using st(1) by (simp_all add: le_imp_less_Suc)
  have f: "find_in h k (ts ! ?i) = (p, n)" using Inner.prems(2) i by (simp add: Let_def)
  have d: "distinct (concat (map pages ts))" "distinct (pages (ts ! ?i))" "q \<notin> set (concat (map pages ts))"
    using Inner.prems(3) i(2) by (auto simp: distinct_concat_iff)
  have sub: "stored (v(p \<mapsto> n')) ok (put_leaf h k n' (ts ! ?i))"
    by (rule Inner.IH [OF nth_mem [OF i(2)] st(3) [OF i(1)] f d(2)])
  have pi: "p \<in> set (pages (ts ! ?i))" using find_in_stored [OF st(3) [OF i(1)] f] by blast
  then have "p \<noteq> q" using d(3) i(2) by auto
  have "stored (v(p \<mapsto> n')) ok c" if "c \<in> set (ts[?i := put_leaf h k n' (ts ! ?i)])" for c
  proof -
    from that obtain j where j: "j < length ts" "c = ts[?i := put_leaf h k n' (ts ! ?i)] ! j"
      by (metis in_set_conv_nth length_list_update)
    show ?thesis
    proof (cases "j = ?i")
      case True then show ?thesis using sub j i by simp
    next
      case False
      then have "p \<notin> set (pages (ts ! j))" using distinct_children [OF d(1) i(2) j(1) _ pi] by simp
      then show ?thesis using False j stored_other [of p "ts ! j" v n' ok] st(1,3) by simp
    qed
  qed
  moreover have "map root_of (ts[?i := put_leaf h k n' (ts ! ?i)]) = map root_of ts"
    using i(2) by (simp add: map_update list_update_same_conv)
  ultimately show ?case using Inner.prems(1) i(2) \<open>p \<noteq> q\<close> by (simp add: Let_def del: fun_upd_apply) simp
qed

lemma entries_put_leaf:
  assumes "stored v ok tr" "find_in h k tr = (p, n)"
    and "set (zip (keys_of n') (rids_of n')) = insert e (set (zip (keys_of n) (rids_of n)))"
  shows "set (entries (put_leaf h k n' tr)) = insert e (set (entries tr))"
  using assms(1,2)
proof (induction tr)
  case (Leaf q m)
  then show ?case using assms(3) by simp
next
  case (Inner q m ts)
  note st = stored_children [OF Inner.prems(1)]
  let ?i = "upper_position h m k"
  have i: "?i \<le> kn m" "?i < length ts" using st(1) by (simp_all add: le_imp_less_Suc)
  have f: "find_in h k (ts ! ?i) = (p, n)" using Inner.prems(2) i by (simp add: Let_def)
  note IH = Inner.IH [OF nth_mem [OF i(2)] st(3) [OF i(1)] f]
  have "set (entries (ts[?i := put_leaf h k n' (ts ! ?i)] ! j)) =
      (if j = ?i then insert e (set (entries (ts ! j))) else set (entries (ts ! j)))" if "j < length ts" for j
    using IH that by simp
  moreover have u: "set (concat (map entries xs)) = (\<Union>j<length xs. set (entries (xs ! j)))" for xs
  proof -
    have "set xs = (!) xs ` {..<length xs}" by (auto simp: in_set_conv_nth)
    then show ?thesis by simp
  qed
  ultimately show ?case
    using i(2) by (simp add: Let_def u del: set_concat) (auto split: if_splits)
qed

lemma search_put_leaf:
  assumes g: "good_type h" and st: "stored v ok tr" and "search_tree h tr" "find_in h k tr = (p, n)"
    and e: "set (zip (keys_of n') (rids_of n')) = insert (k, r) (set (zip (keys_of n) (rids_of n)))"
    and o: "ordered h (keys_of n')"
  shows "search_tree h (put_leaf h k n' tr)"
  using assms(2-4)
proof (induction tr)
  case (Leaf q m)
  then show ?case using o by simp
next
  case (Inner q m ts)
  note st = stored_children [OF Inner.prems(1)] and ko = kcmp_order [OF g]
  let ?i = "upper_position h m k"
  have i: "?i \<le> kn m" "?i < length ts" using st(1) by (simp_all add: le_imp_less_Suc)
  have f: "find_in h k (ts ! ?i) = (p, n)" using Inner.prems(3) i by (simp add: Let_def)
  have sub: "search_tree h (put_leaf h k n' (ts ! ?i))"
    using Inner.IH [OF nth_mem [OF i(2)] st(3) [OF i(1)] _ f] Inner.prems(2) i(2) by simp
  note E = entries_put_leaf [OF st(3) [OF i(1)] f e]
  have lo: "kcmp h (nkeys m (?i - 1)) k \<le> 0" if "0 < ?i"
    using before_first_pos [of "?i - 1" "\<lambda>i. kcmp h k (nkeys m i) < 0" "kn m"] that
      key_order.not_lt [OF ko, of k "nkeys m (?i - 1)"]
    by (simp add: key_order.lt_def [OF ko] upper_position_def)
  have hi: "kcmp h k (nkeys m ?i) < 0" if "?i < kn m"
    using first_pos_lt [of "\<lambda>i. kcmp h k (nkeys m i) < 0" "kn m"] that by (simp add: upper_position_def)
  show ?case
    using Inner.prems(2) sub lo hi i(2) by (auto simp: Let_def nth_list_update E)
qed

lemma node_fits_get: "node_fits h (get_index_node h d)"
  by (simp add: node_fits_def get_index_node_def get_rid_def)

lemma put_get_lists:
  fixes d :: bytes
  assumes "node_fits h n" "kn n < nat (torder h)"
  defines "m \<equiv> get_index_node h (put_index_node h n d)"
  shows "keys_of m = keys_of n" "rids_of m = rids_of n" "is_leaf m = is_leaf n" "key_num m = key_num n"
proof -
  note R = index_node_roundtrip' [OF assms(1), where d = d, folded m_def]
  show "is_leaf m = is_leaf n" "key_num m = key_num n" using R by auto
  then show "keys_of m = keys_of n" "rids_of m = rids_of n"
    using R(4,5) assms(2) by (auto simp: keys_of_def rids_of_def intro!: arr_cong)
qed

lemma insert_into_leaf_ok:
  assumes t: "tree_ready t fh" and p: "tree_page t fh p" and n: "view (pool t) (fh_desc fh) p = Some d"
  defines "n \<equiv> get_index_node (bt_header t) d"
  shows "case leaf_position (bt_header t) n k of
      Inl e \<Rightarrow> \<exists>t'. insert_into_leaf p k r t = (Inl e, t') \<and> view (pool t') = view (pool t)
    | Inr pos \<Rightarrow> \<exists>t'. insert_into_leaf p k r t = (SUCCESS, t') \<and> tree_ready t' fh \<and> t' = t\<lparr>pool := pool t'\<rparr> \<and>
        view (pool t') = (view (pool t))(fh_desc fh := (view (pool t) (fh_desc fh))
          (p \<mapsto> put_index_node (bt_header t) (leaf_store n pos k r) d)) \<and>
        (\<forall>q. tree_page t' fh q = tree_page t fh q)"
proof (rule fetch_ok [OF t p])
  fix ph f t1
  assume F: "fetch p t = (Inr ph, t1)" and B: "borrowed t fh p ph f t1"
    and v: "view (pool t1) = view (pool t)" "view (pool t) (fh_desc fh) p = Some (fdata (pool t1) f)"
  have d: "fdata (pool t1) f = d" using v(2) n by simp
  have h: "bt_header t1 = bt_header t" using borrowed_fields [OF B] by simp
  have R: "read_node ph t1 = (Inr n, t1)" using read_borrowed [OF B] by (simp add: n_def d)
  show ?thesis
  proof (cases "leaf_position (bt_header t) n k")
    case (Inl e)
    then show ?thesis using F R h v(1) by (simp add: insert_into_leaf_def bindR_def)
  next
    case (Inr pos)
    obtain t2 where t2: "bindR (write_data ph (put_index_node (bt_header t) (leaf_store n pos k r))) (\<lambda>_. release ph) t1 = (SUCCESS, t2)"
      "tree_ready t2 fh" "t2 = t\<lparr>pool := pool t2\<rparr>" "\<And>q. tree_page t2 fh q = tree_page t fh q"
      "view (pool t2) = (view (pool t))(fh_desc fh := (view (pool t) (fh_desc fh))
         (p \<mapsto> put_index_node (bt_header t) (leaf_store n pos k r) d))"
      using write_borrowed [OF t B v(1)] d by metis
    then have "insert_into_leaf p k r t = (SUCCESS, t2)"
      using F R h Inr by (simp add: insert_into_leaf_def bindR_def write_node_def)
    then show ?thesis using t2 Inr by auto
  qed
qed

lemma set_ins_at [simp]: "set (ins_at p x xs) = insert x (set xs)"
  using set_append [of "take p xs" "drop p xs"] by (auto simp: ins_at_def)

lemma zip_ins_at:
  "length xs = length ys \<Longrightarrow> zip (ins_at p x xs) (ins_at p y ys) = ins_at p (x, y) (zip xs ys)"
  by (simp add: ins_at_def take_zip drop_zip)

lemma leaf_store_fits:
  assumes "node_fits h n" "p \<le> kn n" "0 \<le> key_num n" "key_num n < torder h - 1" "int32 (torder h)"
    and "length k = nat (key_length h)" "int32 (rid_page r)" "int32 (rid_slot r)"
  shows "node_fits h (leaf_store n p k r)"
  using assms by (auto simp: node_fits_def leaf_store_def shift_up_eq int32_def)

lemma leaf_store_is_leaf [simp]: "is_leaf (leaf_store n p k r) = is_leaf n"
  "key_num (leaf_store n p k r) = key_num n + 1"
  by (simp_all add: leaf_store_def)

lemma length_mk_key: "length (mk_key h src rid) = nat (attr_length h) + 8"
  by (simp add: mk_key_def rid_bytes_def)

lemma index_after_insert:
  assumes I: "index_ok t fh tr" and f: "find_in (bt_header t) k tr = (p, get_index_node (bt_header t) d)"
    and v: "view (pool t) (fh_desc fh) p = Some d"
    and room: "key_num (get_index_node (bt_header t) d) < torder (bt_header t) - 1"
    and k: "length k = nat (key_length (bt_header t))" and r: "int32 (rid_page r)" "int32 (rid_slot r)"
    and pos: "leaf_position (bt_header t) (get_index_node (bt_header t) d) k = Inr pos"
    and t': "tree_ready t' fh" "t' = t\<lparr>pool := pool t'\<rparr>" "\<And>q. tree_page t' fh q = tree_page t fh q"
      "view (pool t') = (view (pool t))(fh_desc fh := (view (pool t) (fh_desc fh))
         (p \<mapsto> put_index_node (bt_header t) (leaf_store (get_index_node (bt_header t) d) pos k r) d))"
  shows "\<exists>tr'. index_ok t' fh tr' \<and> set (entries tr') = insert (k, r) (set (entries tr))"
proof -
  note D = index_okD [OF I]
  define h n where "h = bt_header t" and "n = get_index_node h d"
  define n' where "n' = get_index_node h (put_index_node h (leaf_store n pos k r) d)"
  have ft: "find_in h k tr = (p, n)" and ps: "leaf_position h n k = Inr pos" and rm: "key_num n < torder h - 1"
    using f pos room by (simp_all add: h_def n_def)
  note S = find_in_stored [OF D(2) ft]
  have pl: "pos \<le> kn n" by (rule leaf_position_le [OF ps])
  have kn0: "0 \<le> key_num n" using S by simp
  have fits: "node_fits h (leaf_store n pos k r)"
    using leaf_store_fits [OF node_fits_get [of h d, folded n_def] pl kn0 rm _ _ r, of k] I k
    by (simp add: index_ok_def h_def)
  have less: "kn (leaf_store n pos k r) < nat (torder h)" using rm kn0 by simp
  note L = put_get_lists [OF fits less, where d = d, folded n'_def]
  have on: "ordered h (keys_of n)" using search_leaf_ordered [OF _ D(2) ft] D(5) by (simp add: h_def)
  have O: "ordered h (keys_of n')"
    using leaf_insert_cases [OF _ kn0 on, of k r] D(4) ps by (auto simp: L h_def)
  have E: "set (zip (keys_of n') (rids_of n')) = insert (k, r) (set (zip (keys_of n) (rids_of n)))"
  proof -
    have "length (keys_of n) = length (rids_of n)" by (simp add: keys_of_def rids_of_def)
    then show ?thesis unfolding L(1,2) leaf_store_lists [OF kn0 pl] by (simp add: zip_ins_at)
  qed
  have h': "bt_header t' = h" by (subst t'(2)) (simp add: h_def)
  have nodes: "node_at t' fh = (node_at t fh)(p \<mapsto> n')"
    by (rule ext) (simp add: node_at_def h' t'(4) n'_def n_def flip: h_def)
  have pg: "tree_page t' fh = tree_page t fh" using t'(3) by blast
  let ?tr = "put_leaf h k n' tr"
  have "stored (node_at t' fh) (tree_page t' fh) ?tr"
    unfolding nodes pg using S L kn0 by (intro stored_put_leaf [OF D(2) ft D(6)]) simp_all
  moreover have "search_tree h ?tr"
    using search_put_leaf [OF _ D(2) _ ft E O] D(4,5) by (simp add: h_def)
  ultimately have "index_ok t' fh ?tr"
    using I t'(1) by (simp add: index_ok_def h' flip: h_def)
  then show ?thesis using entries_put_leaf [OF D(2) ft E] by blast
qed

section \<open>A small index\<close>

text \<open>An index with an empty leaf as its root, in page 1 of the example file.\<close>

definition demo_leaf :: IndexNode where
  "demo_leaf = (demo_node 1 [] 0)\<lparr>nkeys := \<lambda>_. demo_key 0\<rparr>"

definition demo_base :: BplusTreeHandler where
  "demo_base = \<lparr>bt_pool = True, bt_file_id = 0, bt_header_dirty = False, bt_header = demo_header, pool = pool4\<rparr>"

definition demo_index :: BplusTreeHandler where
  "demo_index = snd (bindR (fetch 1)
     (\<lambda>ph. bindR (write_data ph (put_index_node demo_header demo_leaf)) (\<lambda>_. release ph)) demo_base)"

lemma demo_base_ready: "tree_ready demo_base fh0" "tree_page demo_base fh0 1"
proof -
  note F = pool4_facts
  have l: "length (frames (bp_manager pool4)) = 2"
    by (simp add: pool4_def unpin_page_def pool3_facts [simplified] Let_def)
  have p0: "pin_count (frame_of pool4 0) = 1"
    using pool3_facts(12) by (simp add: pool4_def unpin_page_def Let_def pool3_facts [simplified])
  have "pins_ok pool4" using l p0 F(4) by (auto simp: pins_ok_def in_set_conv_nth less_2_cases_iff)
  moreover have "\<not> all_pinned pool4" using l F(4) by (auto simp: all_pinned_def intro!: exI [of _ 1])
  moreover have "check_page_num pool4 1 fh0 = SUCCESS" by (simp add: check_page_num_def F int32_def)
  ultimately show "tree_ready demo_base fh0" "tree_page demo_base fh0 1"
    using F by (simp_all add: tree_ready_def tree_page_def demo_base_def)
qed

lemma demo_leaf_fits: "node_fits demo_header demo_leaf"
  by (simp add: node_fits_def demo_leaf_def demo_node_def demo_header_def demo_key_def page_rid_def int32_def)

lemma demo_index_ok:
  "\<exists>n. index_ok demo_index fh0 (Leaf 1 n) \<and> key_num n = 0 \<and> keys_of n = [] \<and> bt_header demo_index = demo_header"
proof -
  note R = demo_base_ready
  obtain ph f t1 where F: "fetch 1 demo_base = (Inr ph, t1)" "borrowed demo_base fh0 1 ph f t1"
      "view (pool t1) = view (pool demo_base)"
    using fetch_ok [OF R] by metis
  define d where "d = put_index_node demo_header demo_leaf (fdata (pool t1) f)"
  obtain t2 where t2: "bindR (write_data ph (put_index_node demo_header demo_leaf)) (\<lambda>_. release ph) t1 = (SUCCESS, t2)"
      "tree_ready t2 fh0" "t2 = demo_base\<lparr>pool := pool t2\<rparr>" "\<And>p. tree_page t2 fh0 p = tree_page demo_base fh0 p"
      "view (pool t2) (fh_desc fh0) 1 = Some d"
    using write_borrowed [OF R(1) F(2,3), of "put_index_node demo_header demo_leaf"] unfolding d_def
    by (metis fun_upd_same)
  define n where "n = get_index_node demo_header d"
  have t: "demo_index = t2" using F(1) t2(1) by (simp add: demo_index_def bindR_def)
  have h: "bt_header t2 = demo_header" by (subst t2(3)) (simp add: demo_base_def)
  have m: "n = get_index_node demo_header (put_index_node demo_header demo_leaf (fdata (pool t1) f))"
    by (simp add: n_def d_def)
  have n: "is_leaf n = 1" "key_num n = 0" "keys_of n = []"
    using put_get_lists [OF demo_leaf_fits, where d = "fdata (pool t1) f", folded m]
    by (simp_all add: demo_leaf_def demo_node_def demo_header_def keys_of_def arr_def)
  then have "index_ok t2 fh0 (Leaf 1 n)"
    using t2(2,4,5) R(2) demo_good
    by (simp add: index_ok_def h node_at_def n_def ordered_def) (simp add: demo_header_def int32_def)
  then show ?thesis using n h t by auto
qed

section \<open>Properties\<close>

text \<open>C10: \<^verbatim>\<open>find_leaf\<close> on a stored tree always returns, with the page of the leaf that the keys
  of the inner nodes lead to; it changes no page and gives back every page it fetched.\<close>

theorem find_leaf_returns:
  assumes "tree_ready t fh" "stored (node_at t fh) (tree_page t fh) tr" "root_of tr = root_page (bt_header t)"
  shows "\<exists>t'. find_leaf k t = Some (Inr (fst (find_in (bt_header t) k tr)), t') \<and> same_pages fh t t'"
  by (rule find_leaf_ok [OF assms]) blast

theorem find_leaf_returns_witness: "\<exists>t'. find_leaf (demo_key 98) demo_index = Some (Inr 1, t')"
proof -
  obtain n where "index_ok demo_index fh0 (Leaf 1 n)" using demo_index_ok by blast
  from find_leaf_returns [OF index_okD(1-3) [OF this], of "demo_key 98"] show ?thesis by auto
qed

text \<open>C9: \<^verbatim>\<open>get_entry\<close> on a search tree returns.  It returns the record id of an entry of the tree
  with the key asked for, and \<^verbatim>\<open>RECORD_INVALID_KEY\<close> only if no leaf has that key; no page
  changes.\<close>

theorem get_entry_correct:
  assumes I: "index_ok t fh tr"
  shows "\<exists>r t'. get_entry src rid t = Some (r, t') \<and> view (pool t') = view (pool t) \<and>
    (case r of
       Inr x \<Rightarrow> \<exists>k. (k, x) \<in> set (entries tr) \<and> kcmp (bt_header t) (mk_key (bt_header t) src rid) k = 0
     | Inl e \<Rightarrow> e = RECORD_INVALID_KEY \<and>
         (\<forall>(k, x) \<in> set (entries tr). kcmp (bt_header t) (mk_key (bt_header t) src rid) k \<noteq> 0))"
proof -
  note D = index_okD [OF I]
  let ?h = "bt_header t" and ?k = "mk_key (bt_header t) src rid"
  obtain p n where f: "find_in ?h ?k tr = (p, n)" by fastforce
  note S = find_in_stored [OF D(2) f]
  obtain t2 where t2: "find_leaf ?k t = Some (Inr p, t2)" "same_pages fh t t2"
    using find_leaf_ok [OF D(1,2,3), of ?k] f by auto
  note P = same_pagesD [OF t2(2)]
  have "tree_page t2 fh p" "node_at t2 fh p = Some n" using S P by simp_all
  with visit_ok [OF P(3)] obtain ph t3 where V: "fetch p t2 = (Inr ph, t3)" "read_node ph t3 = (Inr n, t3)"
    by metis
  have v: "view (pool t3) = view (pool t)"
    using fetch_ok [OF P(3) \<open>tree_page t2 fh p\<close>] V(1) P(5) by (metis Pair_inject)
  define i where "i = first_pos (\<lambda>i. kcmp ?h ?k (nkeys n i) = 0) (kn n)"
  have r: "get_entry src rid t = Some (if i < kn n then Inr (nrids n i) else Inl RECORD_INVALID_KEY, t3)"
    using t2(1) V by (simp add: get_entry_def Let_def bindO_def liftO_def i_def)
  show ?thesis
  proof (cases "i < kn n")
    case True
    then have "kcmp ?h ?k (nkeys n i) = 0" unfolding i_def by (rule first_pos_lt)
    moreover have "(nkeys n i, nrids n i) \<in> set (zip (keys_of n) (rids_of n))"
      using True by (auto simp: set_zip keys_of_def rids_of_def intro!: exI [of _ i])
    ultimately show ?thesis using r v S True by auto
  next
    case False
    then have no: "kcmp ?h ?k (nkeys n j) \<noteq> 0" if "j < kn n" for j
      using before_first_pos [of j "\<lambda>i. kcmp ?h ?k (nkeys n i) = 0" "kn n"] that by (simp add: i_def)
    have "kcmp ?h ?k k \<noteq> 0" if "(k, x) \<in> set (entries tr)" for k x
    proof
      assume "kcmp ?h ?k k = 0"
      then have "k \<in> set (keys_of n)"
        using find_in_complete [OF D(4,5,2) _ \<open>kcmp ?h ?k k = 0\<close>] that f by force
      then show False using no \<open>kcmp ?h ?k k = 0\<close> by (auto simp: keys_of_def set_arr)
    qed
    then show ?thesis using r v False by auto
  qed
qed

theorem get_entry_correct_witness:
  "\<exists>t'. get_entry (\<lambda>_. 98) (page_rid 3) demo_index = Some (Inl RECORD_INVALID_KEY, t')"
proof -
  obtain n where n: "index_ok demo_index fh0 (Leaf 1 n)" "keys_of n = []" using demo_index_ok by blast
  show ?thesis
    using get_entry_correct [OF n(1), of "\<lambda>_. 98" "page_rid 3"] n(2) by (auto split: sum.splits) (metis sum.exhaust)
qed

text \<open>C8: \<^verbatim>\<open>insert_entry\<close> on a search tree whose leaf for the key has room returns.  If the key is
  there it reports \<^verbatim>\<open>RECORD_DUPLICATE_KEY\<close> and no page changes; otherwise it succeeds, the
  file holds a search tree again, and the entries of the leaves are the old ones and the new one.\<close>

theorem insert_entry_correct:
  assumes I: "index_ok t fh tr"
    and f: "find_in (bt_header t) (mk_key (bt_header t) src rid) tr = (p, n)"
    and room: "key_num n < torder (bt_header t) - 1" and r: "int32 (rid_page rid)" "int32 (rid_slot rid)"
  shows "\<exists>res t'. insert_entry src rid t = Some (res, t') \<and>
    (if \<exists>k x. (k, x) \<in> set (entries tr) \<and> kcmp (bt_header t) (mk_key (bt_header t) src rid) k = 0
     then res = Inl RECORD_DUPLICATE_KEY \<and> view (pool t') = view (pool t)
     else res = SUCCESS \<and> (\<exists>tr'. index_ok t' fh tr' \<and>
       set (entries tr') = insert (mk_key (bt_header t) src rid, rid) (set (entries tr))))"
proof -
  note D = index_okD [OF I]
  define h k where "h = bt_header t" and "k = mk_key h src rid"
  have ft: "find_in h k tr = (p, n)" using f by (simp add: h_def k_def)
  note S = find_in_stored [OF D(2) ft]
  obtain d where d: "view (pool t) (fh_desc fh) p = Some d" "n = get_index_node h d"
    using S by (auto simp: node_at_def h_def)
  obtain t2 where t2: "find_leaf k t = Some (Inr p, t2)" "same_pages fh t t2"
    using find_leaf_ok [OF D(1,2,3), of k] ft by (auto simp: h_def)
  note P = same_pagesD [OF t2(2)]
  have "tree_page t2 fh p" "node_at t2 fh p = Some n" using S P by simp_all
  with visit_ok [OF P(3)] obtain ph t3 t4 where V: "fetch p t2 = (Inr ph, t3)" "read_node ph t3 = (Inr n, t3)"
      "unpin ph t3 = (SUCCESS, t4)" "same_pages fh t2 t4" by metis
  have sp: "same_pages fh t t4" by (rule same_pages_trans [OF t2(2) V(4)])
  note Q = same_pagesD [OF sp]
  have e: "insert_entry src rid t = Some (insert_into_leaf p k rid t4)"
    using t2(1) V(1-3) Q(2) room D(1)
    by (simp add: insert_entry_def Let_def bindO_def liftO_def tree_ready_def h_def k_def)
  have d4: "view (pool t4) (fh_desc fh) p = Some d" and p4: "tree_page t4 fh p" using d(1) Q S by simp_all
  note L = insert_into_leaf_ok [OF Q(3) p4 d4, where k = k and r = rid, unfolded Q(2), folded h_def, folded d(2)]
  have on: "ordered h (keys_of n)" using search_leaf_ordered [OF _ D(2) ft] D(5) by (simp add: h_def)
  have C: "case leaf_position h n k of Inl e \<Rightarrow> e = RECORD_DUPLICATE_KEY \<and> (\<exists>x\<in>set (keys_of n). kcmp h k x = 0)
      | Inr q \<Rightarrow> \<forall>x\<in>set (keys_of n). kcmp h k x \<noteq> 0"
    using leaf_insert_cases [OF _ _ on, of k rid] D(4) S by (auto simp: h_def split: sum.splits)
  have iff: "(\<exists>j x. (j, x) \<in> set (entries tr) \<and> kcmp h k j = 0) \<longleftrightarrow> (\<exists>x\<in>set (keys_of n). kcmp h k x = 0)"
    using find_in_keys [OF D(4,5,2), of k p n] ft by (simp add: h_def)
  show ?thesis
  proof (cases "leaf_position h n k")
    case (Inl err)
    then show ?thesis
      using L C e iff Q(5) by (auto simp flip: h_def k_def)
  next
    case (Inr pos)
    then obtain t' where t': "insert_into_leaf p k rid t4 = (SUCCESS, t')" "tree_ready t' fh" "t' = t4\<lparr>pool := pool t'\<rparr>"
        "\<And>q. tree_page t' fh q = tree_page t4 fh q"
        "view (pool t') = (view (pool t4))(fh_desc fh := (view (pool t4) (fh_desc fh))
          (p \<mapsto> put_index_node h (leaf_store n pos k rid) d))"
      using L by auto
    have I4: "index_ok t4 fh tr" using I Q by (simp add: index_ok_def)
    have kl: "length k = nat (key_length h)" using I by (simp add: k_def length_mk_key index_ok_def h_def nat_add_distrib)
    have "\<exists>tr'. index_ok t' fh tr' \<and> set (entries tr') = insert (k, rid) (set (entries tr))"
      using index_after_insert [OF I4, unfolded Q(2), folded h_def, OF ft [unfolded d(2)] d4 room [folded h_def, unfolded d(2)] kl r
          Inr [unfolded d(2)] t'(2,3,4) t'(5) [unfolded d(2)]] .
    then show ?thesis using e t'(1) C Inr iff by (auto simp flip: h_def k_def)
  qed
qed

theorem insert_entry_correct_witness:
  "\<exists>t' tr. insert_entry (\<lambda>_. 98) (page_rid 3) demo_index = Some (SUCCESS, t') \<and> index_ok t' fh0 tr \<and>
     set (entries tr) = {(98 # rid_bytes (page_rid 3), page_rid 3)}"
proof -
  obtain n where n: "index_ok demo_index fh0 (Leaf 1 n)" "keys_of n = []" "key_num n = 0"
      "bt_header demo_index = demo_header" using demo_index_ok by blast
  have k: "mk_key demo_header (\<lambda>_. 98) (page_rid 3) = 98 # rid_bytes (page_rid 3)"
    by (simp add: mk_key_def demo_header_def)
  show ?thesis
    using insert_entry_correct [OF n(1), of "\<lambda>_. 98" "page_rid 3" 1 n] n(2,3)
    by (auto simp: n(4) demo_good k [unfolded page_rid_def] page_rid_def int32_def)
qed

end
