(* ===== verification/Table.thy ===== *)
theory Table
  imports Trx Condition_Filter Bplus_Search
begin

text \<open>
  \<^verbatim>\<open>Table\<close> of \<^verbatim>\<open>src/src/observer/storage/common/table.cpp\<close> over the record manager, the
  indexes and the transactions, and \<^verbatim>\<open>Trx::commit\<close> and \<^verbatim>\<open>Trx::rollback\<close> over the tables.
  All of them share one buffer pool.  A step is a function on the environment of a call: the pool,
  the tables, the one the call is made on, the transaction (if any) and the counter of transaction
  numbers.  Scans and index operations follow page numbers stored on disk and are partial: not
  returning is \<open>None\<close>.  A \<^verbatim>\<open>Record\<close> points into a frame, and every access reads the frame as
  it is then: nothing keeps the page of a record in its frame once \<^verbatim>\<open>get_record\<close> has returned.
\<close>

section \<open>State\<close>

record Table =
  t_meta :: TableMeta
  t_file_id :: int
  t_handler :: "RecordFileHandler option"
  t_indexes :: "(IndexMeta \<times> BplusTreeIndex) list"
  t_base_dir :: string

definition Table_new :: Table where
  "Table_new = \<lparr>t_meta = TableMeta_new, t_file_id = - 1, t_handler = None, t_indexes = [], t_base_dir = []\<rparr>"

record Env =
  e_pool :: DiskBufferPool
  e_tables :: "nat \<Rightarrow> Table"
  e_cur :: nat
  e_trx :: "Trx option"
  e_counter :: "32 word"

type_synonym 'a table_op = "Env \<Rightarrow> ('a result \<times> Env) option"

definition this :: "Env \<Rightarrow> Table" where
  "this e = e_tables e (e_cur e)"

definition meta_of :: "Env \<Rightarrow> TableMeta" where
  "meta_of e = t_meta (this e)"

definition upd_this :: "(Table \<Rightarrow> Table) \<Rightarrow> Env \<Rightarrow> Env" where
  "upd_this f e = e\<lparr>e_tables := (e_tables e)(e_cur e := f (this e))\<rparr>"

definition retT :: "'a \<Rightarrow> 'a table_op" where
  "retT x e = Some (Inr x, e)"

definition failT :: "rc \<Rightarrow> 'a table_op" where
  "failT c e = Some (Inl c, e)"

text \<open>\<open>bindT\<close> returns early on an error; \<open>thenT\<close> hands the return code on.\<close>

definition thenT :: "'a table_op \<Rightarrow> ('a result \<Rightarrow> 'b table_op) \<Rightarrow> 'b table_op" where
  "thenT m f e = (case m e of None \<Rightarrow> None | Some (r, e1) \<Rightarrow> f r e1)"

definition bindT :: "'a table_op \<Rightarrow> ('a \<Rightarrow> 'b table_op) \<Rightarrow> 'b table_op" where
  "bindT m f = thenT m (\<lambda>r. case r of Inl c \<Rightarrow> failT c | Inr x \<Rightarrow> f x)"

definition poolT :: "(DiskBufferPool \<Rightarrow> 'a result \<times> DiskBufferPool) \<Rightarrow> 'a table_op" where
  "poolT f e = (let (r, p) = f (e_pool e) in Some (r, e\<lparr>e_pool := p\<rparr>))"

text \<open>A call through \<^verbatim>\<open>record_handler_\<close>.\<close>

definition handlerT :: "(RecordFileHandler \<Rightarrow> 'a table_op) \<Rightarrow> 'a table_op" where
  "handlerT f e = (case t_handler (this e) of None \<Rightarrow> Some (Inl UB, e) | Some fh \<Rightarrow> f fh e)"

section \<open>Records in memory\<close>

text \<open>A \<^verbatim>\<open>Record\<close> whose \<^verbatim>\<open>data\<close> has not been set.\<close>

definition no_record :: Record where
  "no_record = \<lparr>rec_rid = \<lparr>rid_page = - 1, rid_slot = - 1\<rparr>, rec_frame = 0, rec_off = - 1\<rparr>"

definition rec_mem :: "Record \<Rightarrow> Env \<Rightarrow> bytes" where
  "rec_mem r e = (\<lambda>i. fdata (e_pool e) (rec_frame r) (nat (rec_off r) + i))"

text \<open>A change of the record through its \<^verbatim>\<open>data\<close> pointer.\<close>

definition put_mem :: "bytes \<Rightarrow> nat \<Rightarrow> bytes \<Rightarrow> bytes" where
  "put_mem d off r = (\<lambda>i. if off \<le> i then r (i - off) else d i)"

definition write_rec :: "Record \<Rightarrow> (bytes \<Rightarrow> bytes) \<Rightarrow> unit table_op" where
  "write_rec r f e =
     (if rec_off r < 0 then Some (Inl UB, e)
      else let off = nat (rec_off r)
           in Some (SUCCESS, e\<lparr>e_pool := upd_data (rec_frame r)
                (\<lambda>d. put_mem d off (f (\<lambda>i. d (off + i)))) (e_pool e)\<rparr>))"

definition null_bit :: "TableMeta \<Rightarrow> int \<Rightarrow> bytes \<Rightarrow> bool" where
  "null_bit tm i r = get_bit r \<lparr>bitmap = 0, bsize = field_num tm\<rparr> (nat i)"

text \<open>When \<^verbatim>\<open>get_record\<close> returns success without having fetched the page, a record that was not
  set before still has no \<^verbatim>\<open>data\<close>; every caller goes on to use it.\<close>

definition tbl_get_record :: "RID \<Rightarrow> Record \<Rightarrow> Record table_op" where
  "tbl_get_record rid rec =
     handlerT (\<lambda>fh. poolT (\<lambda>p. case rfh_get_record p fh (Some rid) (Some rec) of
        (Inl c, _, p1) \<Rightarrow> (Inl c, p1)
      | (Inr _, r, p1) \<Rightarrow>
          (case r of None \<Rightarrow> Inl UB | Some rec1 \<Rightarrow> if rec_off rec1 < 0 then Inl UB else Inr rec1, p1)))"

definition tbl_delete_record :: "RID \<Rightarrow> unit table_op" where
  "tbl_delete_record rid = handlerT (\<lambda>fh. poolT (\<lambda>p. rfh_delete_record p fh rid))"

definition tbl_update_record :: "RID \<Rightarrow> bytes \<Rightarrow> unit table_op" where
  "tbl_update_record rid src = handlerT (\<lambda>fh. poolT (\<lambda>p. rfh_update_record p fh rid src))"

definition tbl_insert_data :: "bytes \<Rightarrow> int \<Rightarrow> RID table_op" where
  "tbl_insert_data src rsize =
     handlerT (\<lambda>fh e. let (r, fh1, p) = rfh_insert_record (e_pool e) fh src rsize
       in Some (r, upd_this (\<lambda>t. t\<lparr>t_handler := Some fh1\<rparr>) (e\<lparr>e_pool := p\<rparr>)))"

section \<open>Index entries\<close>

text \<open>An operation of the \<open>i\<close>-th index, on the shared pool.\<close>

definition indexT ::
  "nat \<Rightarrow> (BplusTreeIndex \<Rightarrow> ('a result \<times> BplusTreeIndex) option) \<Rightarrow> 'a table_op" where
  "indexT i f e =
     (let (im, ix) = t_indexes (this e) ! i in
      case f (ix\<lparr>bi_handler := (bi_handler ix)\<lparr>pool := e_pool e\<rparr>\<rparr>) of
        None \<Rightarrow> None
      | Some (r, ix1) \<Rightarrow>
          Some (r, upd_this (\<lambda>t. t\<lparr>t_indexes := (t_indexes t)[i := (im, ix1)]\<rparr>)
                     (e\<lparr>e_pool := pool (bi_handler ix1)\<rparr>)))"

definition index_field :: "nat \<Rightarrow> Env \<Rightarrow> int" where
  "index_field i e = field_index (meta_of e) (Some (im_field (fst (t_indexes (this e) ! i))))"

text \<open>The loops over the indexes; \<open>mem\<close> is where the record is.  A field that is null has no
  entry.\<close>

fun insert_entries :: "nat list \<Rightarrow> (Env \<Rightarrow> bytes) \<Rightarrow> RID \<Rightarrow> unit table_op" where
  "insert_entries [] mem rid e = Some (SUCCESS, e)"
| "insert_entries (i # is) mem rid e =
     (if index_field i e < 0 then Some (Inl UB, e)
      else if null_bit (meta_of e) (index_field i e) (mem e) then insert_entries is mem rid e
      else bindT (indexT i (index_insert_entry (mem e) rid)) (\<lambda>_. insert_entries is mem rid) e)"

definition insert_entry_of_indexes :: "(Env \<Rightarrow> bytes) \<Rightarrow> RID \<Rightarrow> unit table_op" where
  "insert_entry_of_indexes mem rid e = insert_entries [0..<length (t_indexes (this e))] mem rid e"

text \<open>\<^verbatim>\<open>rc != RECORD_INVALID_KEY || !error_on_not_exists\<close> leaves the loop; the code of the last
  deletion is returned.\<close>

fun delete_entries :: "nat list \<Rightarrow> (Env \<Rightarrow> bytes) \<Rightarrow> RID \<Rightarrow> bool \<Rightarrow> unit result \<Rightarrow> unit table_op" where
  "delete_entries [] mem rid error_on_not_exists rc e = Some (rc, e)"
| "delete_entries (i # is) mem rid error_on_not_exists rc e =
     (if index_field i e < 0 then Some (Inl UB, e)
      else if null_bit (meta_of e) (index_field i e) (mem e)
      then delete_entries is mem rid error_on_not_exists rc e
      else thenT (indexT i (index_delete_entry (mem e) rid))
        (\<lambda>rc. if rc \<noteq> SUCCESS \<and> (rc \<noteq> Inl RECORD_INVALID_KEY \<or> \<not> error_on_not_exists)
              then (\<lambda>e. Some (rc, e))
              else delete_entries is mem rid error_on_not_exists rc) e)"

definition delete_entry_of_indexes :: "(Env \<Rightarrow> bytes) \<Rightarrow> RID \<Rightarrow> bool \<Rightarrow> unit table_op" where
  "delete_entry_of_indexes mem rid error_on_not_exists e =
     delete_entries [0..<length (t_indexes (this e))] mem rid error_on_not_exists SUCCESS e"

section \<open>Insertion\<close>

text \<open>\<^verbatim>\<open>insert_record(Trx *, Record *)\<close>; the record is a buffer \<open>buf\<close> of the caller.  A rollback
  that fails only logs a panic.\<close>

definition log_insert :: "RID \<Rightarrow> unit table_op" where
  "log_insert rid e =
     (case e_trx e of
        None \<Rightarrow> Some (SUCCESS, e)
      | Some t \<Rightarrow> let (r, t1, c) = trx_insert_record t (e_counter e) (e_cur e) rid
                  in Some (r, e\<lparr>e_trx := Some t1, e_counter := c\<rparr>))"

definition ignoreT :: "'a table_op \<Rightarrow> 'b table_op \<Rightarrow> 'b table_op" where
  "ignoreT m k = thenT m (\<lambda>_. k)"

definition insert_record :: "bytes \<Rightarrow> RID table_op" where
  "insert_record buf e =
     (let buf = (case e_trx e of None \<Rightarrow> buf | Some t \<Rightarrow> init_trx_info t (meta_of e) buf) in
      bindT (tbl_insert_data buf (tm_record_size (meta_of e))) (\<lambda>rid.
        thenT (log_insert rid) (\<lambda>rc. case rc of
          Inl c \<Rightarrow> ignoreT (tbl_delete_record rid) (failT c)
        | Inr _ \<Rightarrow>
            thenT (insert_entry_of_indexes (\<lambda>_. buf) rid) (\<lambda>rc. case rc of
              Inr _ \<Rightarrow> retT rid
            | Inl c \<Rightarrow>
                if c = RECORD_DUPLICATE_KEY then ignoreT (tbl_delete_record rid) (failT c)
                else ignoreT (delete_entry_of_indexes (\<lambda>_. buf) rid True)
                       (ignoreT (tbl_delete_record rid) (failT c))))) e)"

text \<open>\<^verbatim>\<open>make_record\<close>: the values are checked, and converted in place, then copied.\<close>

definition check_value :: "FieldMeta \<Rightarrow> Value \<Rightarrow> unit result \<times> Value" where
  "check_value f v =
     (if visnull v \<noteq> 0 then
        if \<not> fm_nullable f then (Inl CONSTRAINT_NOTNULL, v) else (SUCCESS, v)
      else if fm_type f \<noteq> vtype v then
        (case vdata v of
           None \<Rightarrow> (Inl UB, v)
         | Some d \<Rightarrow>
             if fm_type f = DATES \<and> vtype v = CHARS then
               let (r, d1) = Check_and_format_date theGlobalDateUtil d
               in (if r = SUCCESS then SUCCESS else Inl SCHEMA_FIELD_TYPE_MISMATCH, v\<lparr>vdata := Some d1\<rparr>)
             else if fm_type f = FLOATS \<and> vtype v = INTS then
               (SUCCESS, v\<lparr>vtype := FLOATS, vdata := Some (put32 d 0 (float_of_int (get_int d 0)))\<rparr>)
             else (Inl SCHEMA_FIELD_TYPE_MISMATCH, v))
      else (SUCCESS, v))"

fun check_values :: "FieldMeta list \<Rightarrow> Value list \<Rightarrow> unit result \<times> Value list" where
  "check_values (f # fs) (v # vs) =
     (case check_value f v of
        (Inl c, v1) \<Rightarrow> (Inl c, v1 # vs)
      | (Inr _, v1) \<Rightarrow> let (r, vs1) = check_values fs vs in (r, v1 # vs1))"
| "check_values _ vs = (SUCCESS, vs)"

definition null_bitmap :: "TableMeta \<Rightarrow> Bitmap" where
  "null_bitmap tm = \<lparr>bitmap = 0, bsize = nat (align8 (int (field_num tm)))\<rparr>"

fun copy_values :: "TableMeta \<Rightarrow> nat \<Rightarrow> Value list \<Rightarrow> bytes \<Rightarrow> bytes result" where
  "copy_values tm i [] r = Inr r"
| "copy_values tm i (v # vs) r =
     (let f = tm_fields tm ! i in
      if visnull v \<noteq> 0 then copy_values tm (i + 1) vs (set_bit r (null_bitmap tm) i)
      else case vdata v of
             None \<Rightarrow> Inl UB
           | Some d \<Rightarrow> copy_values tm (i + 1) vs
               (memcpy (clear_bit r (null_bitmap tm) i) (nat (fm_offset f)) d 0 (nat (fm_len f))))"

definition make_record :: "TableMeta \<Rightarrow> bytes \<Rightarrow> Value list \<Rightarrow> bytes result \<times> Value list" where
  "make_record tm heap vs =
     (if length vs + sys_field_num \<noteq> field_num tm then (Inl SCHEMA_FIELD_MISSING, vs)
      else case check_values (drop sys_field_num (tm_fields tm)) vs of
             (Inl c, vs1) \<Rightarrow> (Inl c, vs1)
           | (Inr _, vs1) \<Rightarrow> (copy_values tm sys_field_num vs1 heap, vs1))"

definition insert_values :: "bytes \<Rightarrow> Value list \<Rightarrow> RID table_op" where
  "insert_values heap vs e =
     (if vs = [] then Some (Inl INVALID_ARGUMENT, e)
      else case fst (make_record (meta_of e) heap vs) of
             Inl c \<Rightarrow> Some (Inl c, e)
           | Inr buf \<Rightarrow> insert_record buf e)"

end
