(* ===== verification/Table_Scan.thy ===== *)
theory Table_Scan
  imports Table
begin

text \<open>
  The scans of a table and what is built on them: deletion, update, the creation of an index,
  texts, the creation, opening and removal of a table, and commit and rollback.  The metadata file is
  read and written by a third-party JSON library; whether its file operations succeed, and what is
  read, are arguments.
\<close>

section \<open>Scans\<close>

text \<open>The callback of a scan with its context.\<close>

type_synonym 'c reader = "Record \<Rightarrow> 'c \<Rightarrow> Env \<Rightarrow> (unit result \<times> 'c \<times> Env) option"

definition visible :: "Env \<Rightarrow> Record \<Rightarrow> bool" where
  "visible e rec = (case e_trx e of None \<Rightarrow> True | Some t \<Rightarrow> is_visible t (meta_of e) (rec_mem rec e))"

definition INT_MAX :: int where
  "INT_MAX = 2 ^ 31 - 1"

text \<open>The filter as the record scanner calls it; a comparison that leaves its buffers is taken as not
  holding.\<close>

definition scan_filter :: "ConditionFilter option \<Rightarrow> (DiskBufferPool \<Rightarrow> Record \<Rightarrow> bool) option" where
  "scan_filter flt = map_option (\<lambda>f p rec.
     filter_record f (\<lambda>i. fdata p (rec_frame rec) (nat (rec_off rec) + i)) = Inr True) flt"

partial_function (option) scan_rows ::
  "'c reader \<Rightarrow> int \<Rightarrow> int \<Rightarrow> unit result \<Rightarrow> Record \<Rightarrow> RecordFileScanner \<Rightarrow> 'c \<Rightarrow> Env \<Rightarrow>
   (unit result \<times> 'c \<times> RecordFileScanner \<times> Env) option" where
  "scan_rows reader limit count rc rec sc ctx e =
     (if rc = SUCCESS \<and> count < limit then
        let vis = visible e rec in
        (case (if vis then reader rec ctx e else Some (SUCCESS, ctx, e)) of
           None \<Rightarrow> None
         | Some rd \<Rightarrow>
             if fst rd \<noteq> SUCCESS then Some (fst rd, fst (snd rd), sc, snd (snd rd))
             else
               (case scan_next_record (e_pool (snd (snd rd))) sc rec of
                  None \<Rightarrow> None
                | Some nx \<Rightarrow>
                    scan_rows reader limit (if vis then count + 1 else count) (fst nx) (fst (snd nx))
                      (fst (snd (snd nx))) (fst (snd rd)) ((snd (snd rd))\<lparr>e_pool := snd (snd (snd nx))\<rparr>)))
      else Some (rc, ctx, sc, e))"

text \<open>\<^verbatim>\<open>find_index_for_scan\<close>: an index on the column, if one side is a column and the other a
  value.\<close>

definition find_index :: "Env \<Rightarrow> string \<Rightarrow> nat option" where
  "find_index e name = find (\<lambda>i. im_name (fst (t_indexes (this e) ! i)) = name) [0..<length (t_indexes (this e))]"

definition scanner_op :: "nat \<Rightarrow> CompOp \<Rightarrow> bytes option \<Rightarrow> (nat \<times> BplusTreeScanner) option table_op" where
  "scanner_op i op v =
     (case v of
        None \<Rightarrow> failT UB
      | Some src \<Rightarrow> indexT i (\<lambda>ix.
          map_option (\<lambda>(sc, h). (Inr (map_option (\<lambda>s. (i, s)) sc), ix\<lparr>bi_handler := h\<rparr>))
            (create_scanner op src (bi_handler ix))))"

definition index_for_sides ::
  "ConDesc \<Rightarrow> ConDesc \<Rightarrow> CompOp \<Rightarrow> (nat \<times> BplusTreeScanner) option table_op" where
  "index_for_sides field_desc value_desc op e =
     (case find_field_by_offset (meta_of e) (cd_offset field_desc) of
        None \<Rightarrow> Some (Inr None, e)
      | Some f \<Rightarrow>
          (case find_index_by_field (meta_of e) (fm_name f) of
             None \<Rightarrow> Some (Inr None, e)
           | Some im \<Rightarrow>
               (case find_index e (im_name im) of
                  None \<Rightarrow> Some (Inr None, e)
                | Some i \<Rightarrow> scanner_op i op (cd_value value_desc) e)))"

definition find_index_for_default :: "DefaultConditionFilter \<Rightarrow> (nat \<times> BplusTreeScanner) option table_op" where
  "find_index_for_default f =
     (let l = df_left f; r = df_right f; op = df_comp_op f in
      if \<not> (cd_is_attr l \<and> \<not> cd_is_attr r) \<and> \<not> (cd_is_attr r \<and> \<not> cd_is_attr l) then retT None
      else if op = IS \<or> op = IS_NOT \<or> cd_is_null l \<or> cd_is_null r then retT None
      else if cd_is_attr l then index_for_sides l r op
      else index_for_sides r l op)"

fun find_index_for_scan :: "ConditionFilter \<Rightarrow> (nat \<times> BplusTreeScanner) option table_op"
  and find_index_in :: "ConditionFilter list \<Rightarrow> (nat \<times> BplusTreeScanner) option table_op" where
  "find_index_for_scan (Default f) e = find_index_for_default f e"
| "find_index_for_scan (Record_Filter f) e = Some (Inr None, e)"
| "find_index_for_scan (Composite fs) e = find_index_in fs e"
| "find_index_in [] e = Some (Inr None, e)"
| "find_index_in (f # fs) e =
     (case find_index_for_scan f e of
        None \<Rightarrow> None
      | Some (Inl c, e1) \<Rightarrow> Some (Inl c, e1)
      | Some (Inr s, e1) \<Rightarrow> if s = None then find_index_in fs e1 else Some (Inr s, e1))"

text \<open>The scan through an index.  \<^verbatim>\<open>RECORD_NO_MORE_IDX_IN_MEM\<close> asks the same scanner again.\<close>

definition index_next :: "nat \<Rightarrow> BplusTreeScanner \<Rightarrow> Env \<Rightarrow> RID result \<times> BplusTreeScanner \<times> Env" where
  "index_next i sc e =
     (let (im, ix) = t_indexes (this e) ! i;
          (r, sc1, h) = next_entry sc ((bi_handler ix)\<lparr>pool := e_pool e\<rparr>)
      in (r, sc1, upd_this (\<lambda>t. t\<lparr>t_indexes := (t_indexes t)[i := (im, ix\<lparr>bi_handler := h\<rparr>)]\<rparr>)
                    (e\<lparr>e_pool := pool h\<rparr>)))"

definition row_matches :: "ConditionFilter option \<Rightarrow> Record \<Rightarrow> Env \<Rightarrow> bool result" where
  "row_matches flt rec e =
     (if visible e rec
      then (case flt of None \<Rightarrow> Inr True | Some f \<Rightarrow> filter_record f (rec_mem rec e))
      else Inr False)"

partial_function (option) index_rows ::
  "'c reader \<Rightarrow> ConditionFilter option \<Rightarrow> int \<Rightarrow> nat \<Rightarrow> int \<Rightarrow> Record \<Rightarrow> BplusTreeScanner \<Rightarrow> 'c \<Rightarrow> Env \<Rightarrow>
   (unit result \<times> 'c \<times> Env) option" where
  "index_rows reader flt limit i count rec sc ctx e =
     (if count < limit then
        let nx = index_next i sc e; sc1 = fst (snd nx); e1 = snd (snd nx) in
        (case fst nx of
           Inl c \<Rightarrow>
             if c = RECORD_NO_MORE_IDX_IN_MEM then index_rows reader flt limit i count rec sc1 ctx e1
             else if c = RECORD_EOF then Some (SUCCESS, ctx, e1)
             else Some (Inl c, ctx, e1)
         | Inr rid \<Rightarrow>
             (case tbl_get_record rid rec e1 of
                None \<Rightarrow> None
              | Some g \<Rightarrow>
                  (case fst g of
                     Inl c \<Rightarrow> Some (Inl c, ctx, snd g)
                   | Inr rec1 \<Rightarrow>
                       (case row_matches flt rec1 (snd g) of
                          Inl c \<Rightarrow> Some (Inl c, ctx, snd g)
                        | Inr b \<Rightarrow>
                            (case (if b then reader rec1 ctx (snd g) else Some (SUCCESS, ctx, snd g)) of
                               None \<Rightarrow> None
                             | Some rd \<Rightarrow>
                                 if fst rd \<noteq> SUCCESS then Some rd
                                 else index_rows reader flt limit i (count + 1) rec1 sc1 (fst (snd rd))
                                        (snd (snd rd)))))))
      else Some (SUCCESS, ctx, e))"

definition scan_record ::
  "ConditionFilter option \<Rightarrow> int \<Rightarrow> 'c \<Rightarrow> 'c reader \<Rightarrow> Env \<Rightarrow> (unit result \<times> 'c \<times> Env) option" where
  "scan_record flt limit ctx reader e =
     (if limit = 0 then Some (SUCCESS, ctx, e)
      else
        let limit = (if limit < 0 then INT_MAX else limit) in
        (case (case flt of None \<Rightarrow> Some (Inr None, e) | Some f \<Rightarrow> find_index_for_scan f e) of
           None \<Rightarrow> None
         | Some (Inl c, e1) \<Rightarrow> Some (Inl c, ctx, e1)
         | Some (Inr (Some (i, sc)), e1) \<Rightarrow> index_rows reader flt limit i 0 no_record sc ctx e1
         | Some (Inr None, e1) \<Rightarrow>
             let (_, sc) = open_scan RecordFileScanner_new (t_file_id (this e1)) (scan_filter flt) in
             (case scan_first_record (e_pool e1) sc no_record of
                None \<Rightarrow> None
              | Some (rc, rec, sc1, p) \<Rightarrow>
                  (case scan_rows reader limit 0 rc rec sc1 ctx (e1\<lparr>e_pool := p\<rparr>) of
                     None \<Rightarrow> None
                   | Some (rc, ctx1, sc2, e2) \<Rightarrow>
                       let (_, _, p2) = rph_deinit (e_pool e2) (sc_page sc2)
                       in Some (if rc = Inl RECORD_EOF then SUCCESS else rc, ctx1, e2\<lparr>e_pool := p2\<rparr>)))))"

section \<open>Deletion and update\<close>

definition rid_of :: "Record \<Rightarrow> RID" where
  "rid_of = rec_rid"

text \<open>\<^verbatim>\<open>has_text_field\<close> and the pages of the texts of a record.\<close>

definition text_fields :: "TableMeta \<Rightarrow> FieldMeta list" where
  "text_fields tm = filter (\<lambda>f. fm_type f = TEXTS) (tm_fields tm)"

definition has_text_field :: "TableMeta \<Rightarrow> bool" where
  "has_text_field tm = (text_fields tm \<noteq> [])"

text \<open>A failed assertion is \<open>UB\<close>.\<close>

definition assertT :: "unit table_op \<Rightarrow> unit table_op" where
  "assertT m = thenT m (\<lambda>r. if r = SUCCESS then retT () else failT UB)"

fun delete_texts :: "FieldMeta list \<Rightarrow> Record \<Rightarrow> unit table_op" where
  "delete_texts [] rec e = Some (SUCCESS, e)"
| "delete_texts (f # fs) rec e =
     bindT (assertT (handlerT (\<lambda>fh. poolT (\<lambda>p.
              delete_text_data p fh (get_int (rec_mem rec e) (nat (fm_offset f))) (tm_record_size (meta_of e))))))
       (\<lambda>_. delete_texts fs rec) e"

text \<open>\<^verbatim>\<open>delete_record(Trx *, Record *)\<close> and \<^verbatim>\<open>delete_text_record\<close>.\<close>

definition trx_delete :: "Trx \<Rightarrow> Record \<Rightarrow> unit table_op" where
  "trx_delete t rec e =
     (let (r, t1, c, change) = trx_delete_record t (e_counter e) (e_cur e) (meta_of e) (rid_of rec)
      in bindT (write_rec rec change) (\<lambda>_ e. Some (r, e\<lparr>e_trx := Some t1, e_counter := c\<rparr>)) e)"

definition delete_record :: "Record \<Rightarrow> unit table_op" where
  "delete_record rec e =
     (case e_trx e of
        Some t \<Rightarrow> trx_delete t rec e
      | None \<Rightarrow> bindT (delete_entry_of_indexes (rec_mem rec) (rid_of rec) False)
                  (\<lambda>_. tbl_delete_record (rid_of rec)) e)"

definition delete_text_record :: "Record \<Rightarrow> unit table_op" where
  "delete_text_record rec e =
     (case e_trx e of
        Some t \<Rightarrow> trx_delete t rec e
      | None \<Rightarrow> bindT (delete_entry_of_indexes (rec_mem rec) (rid_of rec) False)
                  (\<lambda>_. bindT (delete_texts (text_fields (meta_of e)) rec)
                    (\<lambda>_. tbl_delete_record (rid_of rec))) e)"

text \<open>\<^verbatim>\<open>RecordDeleter\<close> and the deletion of all records that match.\<close>

definition deleter :: "int reader" where
  "deleter rec count e =
     (case (if has_text_field (meta_of e) then delete_text_record rec e else delete_record rec e) of
        None \<Rightarrow> None
      | Some (r, e1) \<Rightarrow> Some (r, if r = SUCCESS then count + 1 else count, e1))"

definition delete_records :: "ConditionFilter option \<Rightarrow> Env \<Rightarrow> (unit result \<times> int \<times> Env) option" where
  "delete_records flt e = scan_record flt (- 1) 0 deleter e"

text \<open>\<^verbatim>\<open>update_record_one_attr\<close>: in place, outside the transaction; the results of fetching and of
  writing the record are dropped.\<close>

definition update_record_one_attr :: "FieldMeta \<Rightarrow> Value \<Rightarrow> Record \<Rightarrow> unit table_op" where
  "update_record_one_attr f v rec =
     thenT (tbl_get_record (rid_of rec) rec) (\<lambda>g.
       let rec = (case g of Inr rec1 \<Rightarrow> rec1 | Inl _ \<Rightarrow> rec) in
       bindT (delete_entry_of_indexes (rec_mem rec) (rid_of rec) False) (\<lambda>_.
         case vdata v of
           None \<Rightarrow> failT UB
         | Some d \<Rightarrow>
             bindT (write_rec rec (\<lambda>r. memcpy r (nat (fm_offset f)) d 0 (nat (fm_len f)))) (\<lambda>_ e.
               ignoreT (tbl_update_record (rid_of rec) (rec_mem rec e))
                 (insert_entry_of_indexes (rec_mem rec) (rid_of rec)) e)))"

definition patch_text :: "FieldMeta \<Rightarrow> byte list \<Rightarrow> bytes \<Rightarrow> bytes" where
  "patch_text f xs r =
     (let off = nat (fm_offset f + PAGENUMSIZE)
      in memcpy (memset r off 0 (nat TEXTPATCHSIZE)) off (c_string xs) 0
           (nat (min (int (length xs)) TEXTPATCHSIZE)))"

definition update_record_text_attr :: "FieldMeta \<Rightarrow> Value \<Rightarrow> Record \<Rightarrow> unit table_op" where
  "update_record_text_attr f v rec =
     thenT (tbl_get_record (rid_of rec) rec) (\<lambda>g.
       let rec = (case g of Inr rec1 \<Rightarrow> rec1 | Inl _ \<Rightarrow> rec) in
       bindT (delete_entry_of_indexes (rec_mem rec) (rid_of rec) False) (\<lambda>_.
         case vdata v of
           None \<Rightarrow> failT UB
         | Some d \<Rightarrow>
             (case strlen d of
                Inl c \<Rightarrow> failT c
              | Inr n \<Rightarrow>
                  let xs = map d [0..<n] in
                  bindT (write_rec rec (patch_text f xs)) (\<lambda>_ e.
                    bindT (assertT (tbl_update_record (rid_of rec) (rec_mem rec e))) (\<lambda>_ e.
                      bindT (assertT (handlerT (\<lambda>fh. poolT (\<lambda>p.
                               update_text_data p fh xs (get_int (rec_mem rec e) (nat (fm_offset f)))))))
                        (\<lambda>_. insert_entry_of_indexes (rec_mem rec) (rid_of rec)) e) e))))"

definition updater :: "FieldMeta \<Rightarrow> Value \<Rightarrow> int reader" where
  "updater f v rec count e =
     (case (if fm_type f = TEXTS then update_record_text_attr f v rec e else update_record_one_attr f v rec e) of
        None \<Rightarrow> None
      | Some (r, e1) \<Rightarrow> Some (r, if r = SUCCESS then count + 1 else count, e1))"

text \<open>\<^verbatim>\<open>update_record\<close>: the result of the scan is dropped.\<close>

definition update_value :: "FieldMeta \<Rightarrow> Value \<Rightarrow> Value result" where
  "update_value f v =
     (if fm_type f \<noteq> vtype v then
        if fm_type f = TEXTS \<and> vtype v = CHARS then Inr (v\<lparr>vtype := TEXTS\<rparr>)
        else if fm_type f = DATES \<and> vtype v = CHARS then
          (case vdata v of
             None \<Rightarrow> Inl UB
           | Some d \<Rightarrow>
               let (r, d1) = Check_and_format_date theGlobalDateUtil d
               in if r = SUCCESS then Inr (v\<lparr>vtype := DATES, vdata := Some d1\<rparr>)
                  else Inl SCHEMA_FIELD_TYPE_MISMATCH)
        else Inl SCHEMA_FIELD_TYPE_MISMATCH
      else Inr v)"

definition update_records ::
  "string \<Rightarrow> Value \<Rightarrow> (nat \<Rightarrow> ConDesc \<times> ConDesc) \<Rightarrow> Condition list \<Rightarrow> Env \<Rightarrow> (unit result \<times> int \<times> Env) option" where
  "update_records name v stack conditions e =
     (case composite_init (meta_of e) stack conditions of
        Inl c \<Rightarrow> Some (Inl c, 0, e)
      | Inr flt \<Rightarrow>
          (case field_named (meta_of e) (Some name) of
             None \<Rightarrow> Some (Inl SCHEMA_FIELD_NOT_EXIST, 0, e)
           | Some f \<Rightarrow>
               (case update_value f v of
                  Inl c \<Rightarrow> Some (Inl c, 0, e)
                | Inr v1 \<Rightarrow>
                    (case scan_record (Some flt) (- 1) 0 (updater f v1) e of
                       None \<Rightarrow> None
                     | Some (_, count, e1) \<Rightarrow> Some (SUCCESS, count, e1)))))"

section \<open>Texts\<close>

fun copy_text_values :: "nat \<Rightarrow> Value list \<Rightarrow> bytes \<Rightarrow> bytes table_op" where
  "copy_text_values i [] r e = Some (Inr r, e)"
| "copy_text_values i (v # vs) r e =
     (let tm = meta_of e in
      if i \<ge> field_num tm then Some (Inl UB, e)
      else if visnull v \<noteq> 0 then copy_text_values (i + 1) vs (set_bit r (null_bitmap tm) i) e
      else
        let f = tm_fields tm ! i; r = clear_bit r (null_bitmap tm) i in
        (case vdata v of
           None \<Rightarrow> Some (Inl UB, e)
         | Some d \<Rightarrow>
             if fm_type f = TEXTS then
               (case strlen d of
                  Inl c \<Rightarrow> Some (Inl c, e)
                | Inr n \<Rightarrow>
                    let xs = map d [0..<n] in
                    thenT (handlerT (\<lambda>fh. poolT (\<lambda>p. insert_text_data p fh xs)))
                      (\<lambda>g. case g of
                         Inl _ \<Rightarrow> failT UB
                       | Inr pn \<Rightarrow> copy_text_values (i + 1) vs
                           (memcpy (put_int r (nat (fm_offset f)) pn) (nat (fm_offset f + PAGENUMSIZE))
                              (c_string xs) 0 (nat (min (int n) TEXTPATCHSIZE)))) e)
             else copy_text_values (i + 1) vs (memcpy r (nat (fm_offset f)) d 0 (nat (fm_len f))) e))"

definition insert_text_record :: "bytes \<Rightarrow> Value list \<Rightarrow> RID table_op" where
  "insert_text_record heap vs =
     bindT (copy_text_values sys_field_num vs heap)
       (\<lambda>buf. thenT (insert_record buf) (\<lambda>r. case r of Inr rid \<Rightarrow> retT rid | Inl _ \<Rightarrow> failT UB))"

definition read_text_record :: "bytes \<Rightarrow> int \<Rightarrow> bytes table_op" where
  "read_text_record dst pn =
     handlerT (\<lambda>fh. poolT (\<lambda>p. let (r, d, p1) = read_text_data p fh dst pn
                                  in (if r = SUCCESS then Inr d else Inl UB, p1)))"

section \<open>Commit and rollback\<close>

definition write_trx_field :: "(TableMeta \<Rightarrow> bytes \<Rightarrow> bytes) \<Rightarrow> Record \<Rightarrow> unit table_op" where
  "write_trx_field f rec e = write_rec rec (f (meta_of e)) e"

definition commit_insert :: "RID \<Rightarrow> unit table_op" where
  "commit_insert rid = bindT (tbl_get_record rid no_record) (write_trx_field trx_commit_insert)"

definition rollback_delete :: "RID \<Rightarrow> unit table_op" where
  "rollback_delete rid = bindT (tbl_get_record rid no_record) (write_trx_field trx_rollback_delete)"

definition rollback_insert :: "RID \<Rightarrow> unit table_op" where
  "rollback_insert rid =
     bindT (tbl_get_record rid no_record) (\<lambda>rec.
       bindT (delete_entry_of_indexes (rec_mem rec) rid False) (\<lambda>_. tbl_delete_record rid))"

definition commit_delete :: "RID \<Rightarrow> unit table_op" where
  "commit_delete rid =
     bindT (tbl_get_record rid no_record) (\<lambda>rec.
       ignoreT (delete_entry_of_indexes (rec_mem rec) (rid_of rec) False) (\<lambda>e.
         bindT (delete_texts (text_fields (meta_of e)) rec) (\<lambda>_. tbl_delete_record rid) e))"

text \<open>\<^verbatim>\<open>Trx::commit\<close> and \<^verbatim>\<open>Trx::rollback\<close>: \<open>order\<close> lists the logged operations as the hash
  containers enumerate them; the code of the last operation is returned.\<close>

fun finish_operations ::
  "(OperationType \<Rightarrow> RID \<Rightarrow> unit table_op) \<Rightarrow> (nat \<times> RID \<times> OperationType) list \<Rightarrow> unit result \<Rightarrow> unit table_op" where
  "finish_operations act [] rc e = Some (rc, e)"
| "finish_operations act ((table, rid, ty) # ops) rc e =
     (if ty = INSERT \<or> ty = DELETE
      then thenT (act ty rid) (finish_operations act ops) (e\<lparr>e_cur := table\<rparr>)
      else finish_operations act ops rc e)"

definition commit_act :: "OperationType \<Rightarrow> RID \<Rightarrow> unit table_op" where
  "commit_act ty rid = (if ty = INSERT then commit_insert rid else commit_delete rid)"

definition rollback_act :: "OperationType \<Rightarrow> RID \<Rightarrow> unit table_op" where
  "rollback_act ty rid = (if ty = INSERT then rollback_insert rid else rollback_delete rid)"

definition finish_trx ::
  "(OperationType \<Rightarrow> RID \<Rightarrow> unit table_op) \<Rightarrow> (nat \<times> RID \<times> OperationType) list \<Rightarrow> unit table_op" where
  "finish_trx act order =
     thenT (finish_operations act order SUCCESS) (\<lambda>rc e. Some (rc, e\<lparr>e_trx := Some Trx_new\<rparr>))"

definition commit :: "(nat \<times> RID \<times> OperationType) list \<Rightarrow> unit table_op" where
  "commit order = finish_trx commit_act order"

definition rollback :: "(nat \<times> RID \<times> OperationType) list \<Rightarrow> unit table_op" where
  "rollback order = finish_trx rollback_act order"

section \<open>Files of a table\<close>

definition table_meta_file :: "string \<Rightarrow> string \<Rightarrow> string" where
  "table_meta_file base name = base @ ''/'' @ name @ ''.table''"

definition table_data_file :: "string \<Rightarrow> string \<Rightarrow> string" where
  "table_data_file base name = base @ ''/'' @ name @ ''.data''"

definition index_data_file :: "string \<Rightarrow> string \<Rightarrow> string \<Rightarrow> string" where
  "index_data_file base name index_name = base @ ''/'' @ name @ ''-'' @ index_name @ ''.index''"

definition table_name :: "Env \<Rightarrow> string" where
  "table_name e = tm_name (meta_of e)"

definition init_record_handler :: "string \<Rightarrow> unit table_op" where
  "init_record_handler base e =
     bindT (poolT (\<lambda>p. open_file_op p (Some (table_data_file base (table_name e))))) (\<lambda>fid e.
       let (r, fh) = rfh_init RecordFileHandler_new fid; e1 = upd_this (\<lambda>t. t\<lparr>t_handler := Some fh\<rparr>) e
       in Some (r, if r = SUCCESS then upd_this (\<lambda>t. t\<lparr>t_file_id := fid\<rparr>) e1 else e1)) e"

text \<open>\<^verbatim>\<open>create\<close>: \<open>created\<close> is the outcome of the exclusive creation of the metadata file and
  \<open>opened\<close> whether it could then be opened for writing.\<close>

definition create_table ::
  "string option \<Rightarrow> string \<Rightarrow> AttrInfo list \<Rightarrow> unit result \<Rightarrow> bool \<Rightarrow> unit table_op" where
  "create_table name base attributes created opened e =
     (case name of
        None \<Rightarrow> Some (Inl INVALID_ARGUMENT, e)
      | Some n \<Rightarrow>
          if is_blank n \<or> attributes = [] then Some (Inl INVALID_ARGUMENT, e)
          else (case created of
                  Inl c \<Rightarrow> Some (Inl c, e)
                | Inr _ \<Rightarrow>
                    (case TableMeta_init name attributes (meta_of e) of
                       Inl c \<Rightarrow> Some (Inl c, e)
                     | Inr tm \<Rightarrow>
                         let e1 = upd_this (\<lambda>t. t\<lparr>t_meta := tm\<rparr>) e in
                         if \<not> opened then Some (Inl IOERR, e1)
                         else bindT (poolT (\<lambda>p. create_file p (table_data_file base n))) (\<lambda>_.
                           thenT (init_record_handler base) (\<lambda>r e.
                             Some (r, upd_this (\<lambda>t. t\<lparr>t_base_dir := base\<rparr>) e))) e1)))"

text \<open>A new \<^verbatim>\<open>BplusTreeIndex\<close>; the header of its handler is not set before the index file is
  created or opened.\<close>

definition BplusTreeIndex_new :: "int \<Rightarrow> IndexFileHeader \<Rightarrow> DiskBufferPool \<Rightarrow> BplusTreeIndex" where
  "BplusTreeIndex_new unique junk p =
     \<lparr>bi_inited = False, bi_unique = unique, bi_offset = 0,
      bi_handler = \<lparr>bt_pool = False, bt_file_id = - 1, bt_header_dirty = False, bt_header = junk, pool = p\<rparr>\<rparr>"

definition push_index :: "IndexMeta \<Rightarrow> BplusTreeIndex \<Rightarrow> Env \<Rightarrow> Env" where
  "push_index im ix e = upd_this (\<lambda>t. t\<lparr>t_indexes := t_indexes t @ [(im, ix)]\<rparr>) e"

text \<open>\<^verbatim>\<open>open\<close>: \<open>read\<close> is what deserializing the metadata file gives.  The indexes are opened with
  the default of their constructor, which is not unique.\<close>

fun open_indexes :: "IndexFileHeader \<Rightarrow> string \<Rightarrow> IndexMeta list \<Rightarrow> unit table_op" where
  "open_indexes junk base [] e = Some (SUCCESS, e)"
| "open_indexes junk base (im # ims) e =
     (case field_named (meta_of e) (Some (im_field im)) of
        None \<Rightarrow> Some (Inl GENERIC_ERROR, e)
      | Some f \<Rightarrow>
          let (r, ix) = index_open (index_data_file base (table_name e) (im_name im)) (nat (fm_offset f))
                          (BplusTreeIndex_new 0 junk (e_pool e));
              e1 = e\<lparr>e_pool := pool (bi_handler ix)\<rparr>
          in (case r of
                Inl c \<Rightarrow> Some (Inl c, e1)
              | Inr _ \<Rightarrow> open_indexes junk base ims (push_index im ix e1)))"

definition open_table :: "IndexFileHeader \<Rightarrow> string \<Rightarrow> TableMeta result \<Rightarrow> unit table_op" where
  "open_table junk base read e =
     (case read of
        Inl c \<Rightarrow> Some (Inl c, e)
      | Inr tm \<Rightarrow>
          thenT (init_record_handler base) (\<lambda>r e.
            let e1 = upd_this (\<lambda>t. t\<lparr>t_base_dir := base\<rparr>) e in
            if tm_indexes tm = [] then Some (r, e1) else open_indexes junk base (tm_indexes tm) e1)
            (upd_this (\<lambda>t. t\<lparr>t_meta := tm\<rparr>) e))"

fun drop_indexes :: "string \<Rightarrow> nat list \<Rightarrow> unit table_op" where
  "drop_indexes name [] e = Some (SUCCESS, e)"
| "drop_indexes name (i # is) e =
     bindT (indexT i (\<lambda>ix. Some (index_close ix))) (\<lambda>_ e.
       bindT (poolT (\<lambda>p. drop_file p (index_data_file (t_base_dir (this e)) name
                (im_name (fst (t_indexes (this e) ! i))))))
         (\<lambda>_. drop_indexes name is) e) e"

definition drop_table :: "string \<Rightarrow> string option \<Rightarrow> string \<Rightarrow> unit table_op" where
  "drop_table path name base e =
     (case name of
        None \<Rightarrow> Some (Inl INVALID_ARGUMENT, e)
      | Some n \<Rightarrow>
          if is_blank n then Some (Inl INVALID_ARGUMENT, e)
          else bindT (poolT (\<lambda>p. close_file p (t_file_id (this e)))) (\<lambda>_.
            bindT (poolT (\<lambda>p. drop_file p (table_data_file base n))) (\<lambda>_ e.
              bindT (drop_indexes n [0..<length (t_indexes (this e))])
                (\<lambda>_. poolT (\<lambda>p. drop_file p path)) e)) e)"

fun sync_indexes :: "nat list \<Rightarrow> unit table_op" where
  "sync_indexes [] e = Some (SUCCESS, e)"
| "sync_indexes (i # is) e = bindT (indexT i (\<lambda>ix. Some (index_sync ix))) (\<lambda>_. sync_indexes is) e"

definition sync_table :: "unit table_op" where
  "sync_table e =
     bindT (poolT (\<lambda>p. flush_all_pages p (t_file_id (this e))))
       (\<lambda>_ e. sync_indexes [0..<length (t_indexes (this e))] e) e"

text \<open>\<^verbatim>\<open>create_index\<close> with its callback \<^verbatim>\<open>IndexInserter\<close>, which fills the new index before it is
  one of the table's.  \<open>outcome\<close> is how writing and renaming the new metadata file ends.\<close>

definition index_inserter :: "int \<Rightarrow> BplusTreeIndex reader" where
  "index_inserter field_idx rec ix e =
     (if field_idx < 0 then Some (Inl UB, ix, e)
      else if null_bit (meta_of e) field_idx (rec_mem rec e) then Some (SUCCESS, ix, e)
      else (case index_insert_entry (rec_mem rec e) (rid_of rec)
                   (ix\<lparr>bi_handler := (bi_handler ix)\<lparr>pool := e_pool e\<rparr>\<rparr>) of
              None \<Rightarrow> None
            | Some (r, ix1) \<Rightarrow> Some (r, ix1, e\<lparr>e_pool := pool (bi_handler ix1)\<rparr>)))"

definition fields_named :: "TableMeta \<Rightarrow> string option list \<Rightarrow> FieldMeta list option" where
  "fields_named tm names = those (map (field_named tm) names)"

definition create_index ::
  "IndexFileHeader \<Rightarrow> string option \<Rightarrow> string option list \<Rightarrow> int \<Rightarrow> unit result \<Rightarrow> unit table_op" where
  "create_index junk index_name names unique outcome e =
     (case index_name of
        None \<Rightarrow> Some (Inl INVALID_ARGUMENT, e)
      | Some n \<Rightarrow>
          if is_blank n \<or> (\<exists>a \<in> set names. case a of None \<Rightarrow> True | Some m \<Rightarrow> is_blank m)
          then Some (Inl INVALID_ARGUMENT, e)
          else if index_named (meta_of e) n \<noteq> None \<or> find_index_by_fields (meta_of e) (map the names) \<noteq> None
          then Some (Inl SCHEMA_INDEX_EXIST, e)
          else (case fields_named (meta_of e) names of
                  None \<Rightarrow> Some (Inl SCHEMA_FIELD_MISSING, e)
                | Some fs \<Rightarrow>
                    (case (IndexMeta_init index_name fs, fs) of
                       (Inl c, _) \<Rightarrow> Some (Inl c, e)
                     | (Inr im, []) \<Rightarrow> Some (Inl UB, e)
                     | (Inr im, f # _) \<Rightarrow>
                         let file = index_data_file (t_base_dir (this e)) (table_name e) n;
                             (r, ix) = index_create file (nat (fm_offset f)) (fm_type f) (fm_len f)
                                         (BplusTreeIndex_new unique junk (e_pool e));
                             e1 = e\<lparr>e_pool := pool (bi_handler ix)\<rparr>
                         in (case r of
                               Inl c \<Rightarrow> Some (Inl c, e1)
                             | Inr _ \<Rightarrow>
                                 (case scan_record None (- 1) ix
                                         (index_inserter (field_index (meta_of e) (Some (im_field im)))) e1 of
                                    None \<Rightarrow> None
                                  | Some (Inl c, ix1, e2) \<Rightarrow>
                                      let (rc, ix2) = index_close (ix1\<lparr>bi_handler := (bi_handler ix1)\<lparr>pool := e_pool e2\<rparr>\<rparr>);
                                          p = pool (bi_handler ix2);
                                          p1 = (if rc = SUCCESS then snd (drop_file p file) else p)
                                      in Some (Inl c, e2\<lparr>e_pool := p1\<rparr>)
                                  | Some (Inr _, ix1, e2) \<Rightarrow>
                                      let e3 = push_index im ix1 e2 in
                                      (case outcome of
                                         Inl c \<Rightarrow> Some (Inl c, e3)
                                       | Inr _ \<Rightarrow>
                                           Some (SUCCESS, upd_this (\<lambda>t. t\<lparr>t_meta := add_index im (t_meta t)\<rparr>) e3)))))))"

end
