(* ===== verification/Table_Spec.thy ===== *)
theory Table_Spec
  imports Table_Scan
begin

text \<open>
  Properties of the table layer: the record built from the values of a statement, the choice of an
  index for a condition, the loops over the indexes, and commit.
\<close>

section \<open>The record made of the values of a statement\<close>

lemma null_bit_other:
  "null_bitmap_len n \<le> int a \<Longrightarrow> i < n \<Longrightarrow> set_bit r \<lparr>bitmap = 0, bsize = b\<rparr> i a = r a"
  "null_bitmap_len n \<le> int a \<Longrightarrow> i < n \<Longrightarrow> clear_bit r \<lparr>bitmap = 0, bsize = b\<rparr> i a = r a"
proof -
  have "i div 8 < a" if "null_bitmap_len n \<le> int a" "i < n"
  proof -
    have "int n \<le> 8 * int a" using null_bitmap_len_bound(1) [of n] that(1) by linarith
    then show ?thesis using that(2) by linarith
  qed
  then show "null_bitmap_len n \<le> int a \<Longrightarrow> i < n \<Longrightarrow> set_bit r \<lparr>bitmap = 0, bsize = b\<rparr> i a = r a"
    "null_bitmap_len n \<le> int a \<Longrightarrow> i < n \<Longrightarrow> clear_bit r \<lparr>bitmap = 0, bsize = b\<rparr> i a = r a"
    by (auto simp: set_bit_out clear_bit_out)
qed

text \<open>\<open>stored tm r i v\<close>: field \<open>i\<close> of the record holds the value.\<close>

definition stored_value :: "TableMeta \<Rightarrow> bytes \<Rightarrow> nat \<Rightarrow> Value \<Rightarrow> bool" where
  "stored_value tm r i v \<longleftrightarrow>
     null_bit tm (int i) r = (visnull v \<noteq> 0) \<and>
     (visnull v = 0 \<longrightarrow>
        (\<exists>d. vdata v = Some d \<and>
           (\<forall>k < nat (fm_len (tm_fields tm ! i)). field_mem (tm_fields tm ! i) r k = d k)))"

lemma get_bit_bsize: "get_bit r \<lparr>bitmap = a, bsize = b\<rparr> i = get_bit r \<lparr>bitmap = a, bsize = c\<rparr> i"
  by (simp add: get_bit_def)

lemma stored_value_frame:
  assumes "stored_value tm r i v"
    and bits: "get_bit r' \<lparr>bitmap = 0, bsize = field_num tm\<rparr> i = get_bit r \<lparr>bitmap = 0, bsize = field_num tm\<rparr> i"
    and mem: "\<And>k. k < nat (fm_len (tm_fields tm ! i)) \<Longrightarrow>
      r' (nat (fm_offset (tm_fields tm ! i)) + k) = r (nat (fm_offset (tm_fields tm ! i)) + k)"
  shows "stored_value tm r' i v"
  using assms(1) bits mem by (auto simp: stored_value_def null_bit_def field_mem_def)

lemma copy_values_correct:
  assumes "laid_out (tm_fields tm) (null_bitmap_len (field_num tm)) b"
  shows "copy_values tm i vs r = Inr r' \<Longrightarrow> i + length vs = field_num tm \<Longrightarrow>
    (\<forall>k < length vs. stored_value tm r' (i + k) (vs ! k)) \<and>
    (\<forall>k < i. get_bit r' \<lparr>bitmap = 0, bsize = field_num tm\<rparr> k = get_bit r \<lparr>bitmap = 0, bsize = field_num tm\<rparr> k) \<and>
    (\<forall>a. null_bitmap_len (field_num tm) \<le> int a \<and> (i < field_num tm \<longrightarrow> int a < fm_offset (tm_fields tm ! i)) \<longrightarrow>
       r' a = r a) \<and>
    (\<forall>a. b \<le> int a \<longrightarrow> r' a = r a)"
proof (induction vs arbitrary: i r)
  case (Cons v vs)
  let ?n = "field_num tm" and ?f = "tm_fields tm ! i"
  have i: "i < ?n" using Cons.prems by simp
  note lay = laid_out_nth [OF assms, of i] and low = null_bitmap_len_bound(2) [of ?n]
  have f: "0 < fm_len ?f" "null_bitmap_len ?n \<le> fm_offset ?f" "fm_offset ?f + fm_len ?f \<le> b"
    using lay i by (auto simp: field_num_def)
  have next_off: "fm_offset ?f + fm_len ?f \<le> fm_offset (tm_fields tm ! Suc i)" if "Suc i < ?n"
    using laid_out_disjoint [OF assms, of i "Suc i"] that by (simp add: field_num_def)
  obtain r1 where r1: "copy_values tm (i + 1) vs r1 = Inr r'"
    "stored_value tm r1 i v"
    "\<forall>k. k \<noteq> i \<longrightarrow> get_bit r1 \<lparr>bitmap = 0, bsize = ?n\<rparr> k = get_bit r \<lparr>bitmap = 0, bsize = ?n\<rparr> k \<or> ?n \<le> k"
    "\<forall>a. null_bitmap_len ?n \<le> int a \<and> (int a < fm_offset ?f \<or> fm_offset ?f + fm_len ?f \<le> int a) \<longrightarrow> r1 a = r a"
  proof (cases "visnull v \<noteq> 0")
    case True
    then show ?thesis
      using Cons.prems i null_bit_other(1) [of ?n]
      by (intro that [of "set_bit r (null_bitmap tm) i"])
        (auto simp: null_bitmap_def stored_value_def null_bit_def get_bit_bsize [of _ _ "field_num tm" _ "nat (align8 (int (field_num tm)))"])
  next
    case False
    then obtain d where d: "vdata v = Some d" using Cons.prems(1) by (auto simp: Let_def split: option.splits)
    let ?c = "clear_bit r (null_bitmap tm) i"
    let ?r1 = "memcpy ?c (nat (fm_offset ?f)) d 0 (nat (fm_len ?f))"
    have low_bits: "get_bit ?r1 \<lparr>bitmap = 0, bsize = ?n\<rparr> k = get_bit ?c \<lparr>bitmap = 0, bsize = ?n\<rparr> k" if "k < ?n" for k
    proof -
      have "int (k div 8) < fm_offset ?f"
        using null_bitmap_len_bound(1) [of ?n] that f(2) by linarith
      then show ?thesis by (simp add: get_bit_def memcpy_def) (simp add: nat_le_iff)
    qed
    show ?thesis
    proof (rule that [of ?r1])
      show "copy_values tm (i + 1) vs ?r1 = Inr r'" using Cons.prems(1) False d by (simp add: Let_def)
      show "stored_value tm ?r1 i v"
        using False d low_bits [OF i] f low
        by (auto simp: stored_value_def null_bit_def field_mem_def null_bitmap_def memcpy_def
            get_bit_bsize [of _ _ "field_num tm" _ "nat (align8 (int (field_num tm)))"])
      show "\<forall>k. k \<noteq> i \<longrightarrow> get_bit ?r1 \<lparr>bitmap = 0, bsize = ?n\<rparr> k = get_bit r \<lparr>bitmap = 0, bsize = ?n\<rparr> k \<or> ?n \<le> k"
        using low_bits
        by (auto simp: null_bitmap_def not_le
            get_bit_bsize [of _ _ "field_num tm" _ "nat (align8 (int (field_num tm)))"])
      show "\<forall>a. null_bitmap_len ?n \<le> int a \<and> (int a < fm_offset ?f \<or> fm_offset ?f + fm_len ?f \<le> int a) \<longrightarrow>
          ?r1 a = r a"
        using null_bit_other(2) [of ?n] i f low by (auto simp: memcpy_def null_bitmap_def nat_le_iff)
    qed
  qed
  note IH = Cons.IH [OF r1(1)]
  have len: "i + 1 + length vs = ?n" using Cons.prems(2) by simp
  have head: "stored_value tm r' i v"
  proof (rule stored_value_frame [OF r1(2)])
    show "get_bit r' \<lparr>bitmap = 0, bsize = ?n\<rparr> i = get_bit r1 \<lparr>bitmap = 0, bsize = ?n\<rparr> i"
      using IH len by simp
    show "r' (nat (fm_offset ?f) + k) = r1 (nat (fm_offset ?f) + k)" if "k < nat (fm_len ?f)" for k
    proof -
      have "int (nat (fm_offset ?f) + k) = fm_offset ?f + int k" "int k < fm_len ?f" using f low that by auto
      then have "null_bitmap_len ?n \<le> int (nat (fm_offset ?f) + k)"
        "i + 1 < ?n \<longrightarrow> int (nat (fm_offset ?f) + k) < fm_offset (tm_fields tm ! (i + 1))"
        using f next_off by auto
      then show ?thesis using IH len by blast
    qed
  qed
  have tail: "stored_value tm r' (i + 1 + k) (vs ! k)" if "k < length vs" for k
    using IH len that by simp
  show ?case
  proof (intro conjI allI impI)
    show "stored_value tm r' (i + k) ((v # vs) ! k)" if "k < length (v # vs)" for k
      using head tail that by (cases k) auto
    show "get_bit r' \<lparr>bitmap = 0, bsize = ?n\<rparr> k = get_bit r \<lparr>bitmap = 0, bsize = ?n\<rparr> k" if "k < i" for k
      using IH len r1(3) that i by (metis add.commute less_irrefl less_trans less_add_one not_le)
    show "r' a = r a" if "null_bitmap_len ?n \<le> int a \<and> (i < ?n \<longrightarrow> int a < fm_offset ?f)" for a
      using IH len r1(4) that i next_off f by auto
    show "r' a = r a" if "b \<le> int a" for a
      using IH len r1(4) that f by auto
  qed
qed simp

lemma check_values_length: "length (snd (check_values fs vs)) = length vs"
  by (induction fs vs rule: check_values.induct) (auto simp: Let_def split: prod.splits sum.splits)

lemma make_record_stored:
  assumes "TableMeta_init name attributes tm0 = Inr tm" "make_record tm heap vs = (Inr r, vs')"
  shows "length vs' = length attributes \<and> (\<forall>i < length vs'. stored_value tm r (sys_field_num + i) (vs' ! i)) \<and>
    (\<forall>a. tm_record_size tm \<le> int a \<longrightarrow> r a = heap a)"
proof -
  have lay: "laid_out (tm_fields tm) (null_bitmap_len (field_num tm)) (tm_record_size tm)"
    using TableMeta_init_wf [OF assms(1)] by (simp add: wf_meta_def Let_def)
  have m: "length vs + sys_field_num = field_num tm" "copy_values tm sys_field_num vs' heap = Inr r"
    "vs' = snd (check_values (drop sys_field_num (tm_fields tm)) vs)"
    using assms(2) by (auto simp: make_record_def split: if_splits prod.splits sum.splits)
  then have "length vs' = length vs" by (simp add: check_values_length)
  moreover have "field_num tm = sys_field_num + length attributes"
    using field_num_init [OF assms(1)] .
  ultimately show ?thesis using copy_values_correct [OF lay m(2)] m(1) by simp
qed

text \<open>C29: a record made of the values of a statement has, for every column, the null bit set exactly
  when the value is null, and otherwise the bytes of the value (after the conversion to the type of the
  column) in the column's place; nothing is written behind the record.\<close>

theorem make_record_correct:
  assumes "TableMeta_init name attributes tm0 = Inr tm" "make_record tm heap vs = (Inr r, vs')"
  shows "length vs' = length attributes \<and> (\<forall>i < length vs'. stored_value tm r (sys_field_num + i) (vs' ! i)) \<and>
    (\<forall>a. tm_record_size tm \<le> int a \<longrightarrow> r a = heap a)"
  using assms by (rule make_record_stored)

text \<open>An index scan is chosen and started with the operator of the condition even when the
  column stands on its right: for \<^verbatim>\<open>5 < a\<close> and for \<^verbatim>\<open>a < 5\<close> the same entries are visited.\<close>

theorem index_scan_ignores_side:
  "find_index_for_default f = find_index_for_default (f\<lparr>df_left := df_right f, df_right := df_left f\<rparr>)"
  by (auto simp: find_index_for_default_def Let_def fun_eq_iff retT_def)

section \<open>Commit and the buffer pool\<close>

lemma put_mem_put32: "put_mem d off (put32 (\<lambda>i. d (off + i)) a w) = put32 d (off + a) w"
  by (auto simp: put_mem_def put32_def fun_eq_iff)

lemma get_frame_bound: "wf_pool L s \<Longrightarrow> get (bp_manager s) fd pn = Some f \<Longrightarrow> f < length (frames (bp_manager s))"
  using wf_bpm_get by (auto simp: wf_pool_def)

text \<open>Fetching a record of a page that is in the pool changes nothing but the replacer's list.\<close>

lemma get_cached_record:
  assumes P: "record_page s rf fh (rid_page rid) rs d" and g: "get (bp_manager s) (fh_desc fh) (rid_page rid) = Some f"
    and sl: "0 \<le> rid_slot rid" "page_records d (nat (rid_slot rid)) = Some bs"
  shows "\<exists>s'. rfh_get_record s rf (Some rid) (Some r0) =
      (SUCCESS, Some \<lparr>rec_rid = rid, rec_frame = f, rec_off = int (slot_pos rs (nat (rid_slot rid)))\<rparr>, s') \<and>
    os s' = os s \<and> get (bp_manager s') = get (bp_manager s) \<and> frames (bp_manager s') = frames (bp_manager s)"
proof -
  note D = record_pageD [OF P]
  have f: "f < length (frames (bp_manager s))" "fdata s f = d"
    using get_frame_bound [OF D(1) g] D(7) g by (auto simp: view_def fdata_def)
  have pg: "page_get (rid_slot rid) d = Inr (int (slot_pos rs (nat (rid_slot rid))))"
    using page_get_ok [OF D(8,9), of "nat (rid_slot rid)"] sl
    by (auto simp: page_records_def split: if_splits dest!: slots_cap [OF D(8)])
  define s1 where "s1 = (let t = upd_frame f (\<lambda>fr. fr\<lparr>pin_count := pin_count fr + 1\<rparr>) s; b = bp_manager t
    in t\<lparr>bp_manager := b\<lparr>bpm_replacer := Pin (bpm_replacer b) f\<rparr>\<rparr>)"
  define h where "h = \<lparr>rph_pool = True, rph_file_id = rfh_file_id rf,
    rph_handle = \<lparr>ph_open = True, ph_frame = Some f\<rparr>, rph_header = Some f\<rparr>"
  have s1: "fdata s1 f = d" "os s1 = os s" "get (bp_manager s1) = get (bp_manager s)"
    "frames (bp_manager s1) = (frames (bp_manager s))[f := (frame_of s f)\<lparr>pin_count := pin_count (frame_of s f) + 1\<rparr>]"
    using f by (auto simp: s1_def upd_frame_def fdata_def get_def fun_eq_iff Let_def)
  have init: "rph_init s RecordPageHandler_new (rfh_file_id rf) (rid_page rid) = (SUCCESS, h, s1)"
    using D(4,5) g by (simp add: rph_init_def RecordPageHandler_new_def get_this_page_def get_data_def s1_def h_def Let_def)
  have "fst (rph_deinit s1 h) = SUCCESS" by (simp add: rph_deinit_def Let_def split: prod.split)
  then obtain h2 s2 where deinit: "rph_deinit s1 h = (SUCCESS, h2, s2)" by (metis prod.collapse)
  have "os s2 = os s1" "get (bp_manager s2) = get (bp_manager s1)"
    "frames (bp_manager s2) = (frames (bp_manager s1))[f := (frame_of s1 f)\<lparr>pin_count := pin_count (frame_of s1 f) - 1\<rparr>]"
    using deinit by (auto simp: rph_deinit_def h_def unpin_page_def upd_frame_def get_def fun_eq_iff Let_def split: if_splits)
  then have s2: "os s2 = os s" "get (bp_manager s2) = get (bp_manager s)" "frames (bp_manager s2) = frames (bp_manager s)"
    using s1 f(1) by simp_all
  have "rph_get_record s1 h rid =
      Inr \<lparr>rec_rid = rid, rec_frame = f, rec_off = int (slot_pos rs (nat (rid_slot rid)))\<rparr>"
    using pg s1(1) by (simp add: rph_get_record_def rph_frames_def h_def)
  then show ?thesis using D(3) init deinit s2 by (simp add: rfh_get_record_def)
qed

text \<open>Committing the insertion of a record whose page is in the pool resets the transaction
  field in the buffered page, but leaves the dirty flag of the frame as it was and writes nothing to
  disk: if the page was clean it is still taken for clean, and the commit is lost when the frame is
  reused.\<close>

theorem commit_insert_unsaved:
  assumes "record_page (e_pool e) rf fh (rid_page rid) rs d" "t_handler (this e) = Some rf"
    and "0 \<le> rid_slot rid" "page_records d (nat (rid_slot rid)) = Some bs"
    and "get (bp_manager (e_pool e)) (fh_desc fh) (rid_page rid) = Some f"
  shows "\<exists>e'. commit_insert rid e = Some (SUCCESS, e') \<and> os (e_pool e') = os (e_pool e) \<and>
    frame_of (e_pool e') f = (frame_of (e_pool e) f)\<lparr>page := (page (frame_of (e_pool e) f))\<lparr>data :=
      put32 d (slot_pos rs (nat (rid_slot rid)) + nat (fm_offset (trx_field (meta_of e)))) 0\<rparr>\<rparr>"
proof -
  obtain s' where s': "rfh_get_record (e_pool e) rf (Some rid) (Some no_record) =
      (SUCCESS, Some \<lparr>rec_rid = rid, rec_frame = f, rec_off = int (slot_pos rs (nat (rid_slot rid)))\<rparr>, s')"
    "os s' = os (e_pool e)" "frames (bp_manager s') = frames (bp_manager (e_pool e))"
    using get_cached_record [OF assms(1,5,3,4)] by blast
  note D = record_pageD [OF assms(1)]
  have f: "f < length (frames (bp_manager (e_pool e)))" "data (page (frame_of (e_pool e) f)) = d"
    using get_frame_bound [OF D(1) assms(5)] D(7) assms(5) by (auto simp: view_def)
  have m: "meta_of (e\<lparr>e_pool := s'\<rparr>) = meta_of e" by (simp add: meta_of_def this_def)
  show ?thesis
    using assms(2) s' f m
    by (auto simp: commit_insert_def tbl_get_record_def handlerT_def poolT_def bindT_def thenT_def
        write_trx_field_def write_rec_def trx_commit_insert_def set_record_trx_id_def upd_data_def upd_frame_def
        put_mem_put32 Let_def)
qed

text \<open>A table over the file of the example of the record manager.\<close>

definition demo_table :: Table where
  "demo_table = \<lparr>t_meta = demo_meta, t_file_id = 0, t_handler = Some demo_file, t_indexes = [], t_base_dir = []\<rparr>"

definition demo_env :: Env where
  "demo_env = \<lparr>e_pool = demo_close demo_one, e_tables = (\<lambda>_. demo_table), e_cur = 0, e_trx = Some Trx_new,
     e_counter = 0\<rparr>"

lemma commit_insert_unsaved_witness:
  "\<exists>e'. commit_insert \<lparr>rid_page = 1, rid_slot = 0\<rparr> demo_env = Some (SUCCESS, e') \<and>
     dirty (frame_of (e_pool e') 1) = dirty (frame_of (demo_close demo_one) 1)"
proof -
  note R = demo_record_page [OF demo_one_state sample_page_ok(2)]
  have "t_handler (this demo_env) = Some demo_file" "e_pool demo_env = demo_close demo_one"
    by (simp_all add: this_def demo_env_def demo_table_def)
  then show ?thesis
    using commit_insert_unsaved [of demo_env demo_file fh0 "\<lparr>rid_page = 1, rid_slot = 0\<rparr>" 3 sample_page
        "[9, 9, 9]" 1] R sample_page_ok(3)
    by (auto simp: pool2_file)
qed

lemma make_record_correct_witness:
  "\<exists>r vs'. make_record demo_meta (\<lambda>_. 255)
      [value_init_integer (\<lambda>_. 7) 5, value_init_string (\<lambda>_. 7) (date_string 2000 1 1)] = (Inr r, vs') \<and>
     length vs' = 2 \<and> r 100 = 255"
proof -
  let ?vs = "[value_init_integer (\<lambda>_. 7) 5, value_init_string (\<lambda>_. 7) (date_string 2000 1 1)]"
  have m: "TableMeta_init (Some ''t'') demo_attributes TableMeta_new = Inr demo_meta"
    "tm_record_size demo_meta = 21"
    unfolding demo_meta_def by code_simp+
  have "case fst (make_record demo_meta (\<lambda>_. 255) ?vs) of Inl _ \<Rightarrow> False | Inr _ \<Rightarrow> True"
    unfolding demo_meta_def by code_simp
  then obtain r vs' where r: "make_record demo_meta (\<lambda>_. 255) ?vs = (Inr r, vs')"
    by (cases "make_record demo_meta (\<lambda>_. 255) ?vs") (auto split: sum.splits)
  have "length demo_attributes = 2" by (simp add: demo_attributes_def)
  then show ?thesis using make_record_correct [OF m(1) r] r m(2) by (auto intro!: exI [of _ r])
qed

section \<open>The value of an integer in a float column\<close>

text \<open>An integer given for a float column is converted; up to \<^verbatim>\<open>2^24\<close> in absolute value the
  column then holds exactly this number.\<close>

theorem int_for_float_column:
  assumes "fm_type f = FLOATS" "int32 n" "\<bar>n\<bar> \<le> 2 ^ 24"
  shows "\<exists>d. check_value f (value_init_integer mem n) = (SUCCESS, \<lparr>vtype = FLOATS, visnull = 0, vdata = Some d\<rparr>) \<and>
    float_val (get32 d 0) = of_int n"
  using assms by (simp add: check_value_def value_init_integer_def float_of_int_exact)

lemma int_for_float_column_witness:
  "\<exists>d. check_value \<lparr>fm_name = ''x'', fm_type = FLOATS, fm_offset = 0, fm_len = 4, fm_visible = True,
       fm_nullable = False\<rparr> (value_init_integer (\<lambda>_. 0) (- 3)) =
       (SUCCESS, \<lparr>vtype = FLOATS, visnull = 0, vdata = Some d\<rparr>) \<and> float_val (get32 d 0) = - 3"
  using int_for_float_column [of "\<lparr>fm_name = ''x'', fm_type = FLOATS, fm_offset = 0, fm_len = 4,
      fm_visible = True, fm_nullable = False\<rparr>" "- 3" "\<lambda>_. 0"]
  by (simp add: int32_def)

section \<open>Loops over indexes and logged operations\<close>

text \<open>The deletion of index entries stops at an index without the entry when the caller does not want
  an error, and goes on when it does: the flag is used the wrong way round.\<close>

lemma missing_entry_stops_deletion:
  assumes "0 \<le> index_field i e" "\<not> null_bit (meta_of e) (index_field i e) (mem e)"
    and "indexT i (index_delete_entry (mem e) rid) e = Some (Inl RECORD_INVALID_KEY, e1)"
  shows "delete_entries (i # is) mem rid False rc e = Some (Inl RECORD_INVALID_KEY, e1)"
    "delete_entries (i # is) mem rid True rc e = delete_entries is mem rid True (Inl RECORD_INVALID_KEY) e1"
  using assms by (simp_all add: thenT_def)

lemma finish_operations_append:
  "finish_operations act (xs @ ys) rc e =
     (case finish_operations act xs rc e of
        None \<Rightarrow> None
      | Some (rc1, e1) \<Rightarrow> finish_operations act ys rc1 e1)"
  by (induction act xs rc e rule: finish_operations.induct) (auto simp: thenT_def split: option.splits)

text \<open>Commit goes through all logged operations whatever happens to them, and returns the code of
  the last one only: after an operation that failed, a last operation on which the code reports success
  makes the whole commit a success.  The log is empty afterwards.\<close>

theorem commit_returns_last:
  "commit (ops @ [(table, rid, INSERT)]) e =
     (case finish_operations commit_act ops SUCCESS e of
        None \<Rightarrow> None
      | Some (_, e1) \<Rightarrow>
          (case commit_insert rid (e1\<lparr>e_cur := table\<rparr>) of
             None \<Rightarrow> None
           | Some (rc, e2) \<Rightarrow> Some (rc, e2\<lparr>e_trx := Some Trx_new\<rparr>)))"
  by (simp add: commit_def finish_trx_def thenT_def finish_operations_append commit_act_def split: option.split)

end
