(* ===== verification/Float32.thy ===== *)
theory Float32
  imports Values
begin

text \<open>
  The \<^verbatim>\<open>float\<close> arithmetic the query layer does on column values and constants: IEEE 754 binary32,
  rounding to nearest with ties to even, on the 32 bits of a float.  The main lemma is that a result
  whose exact value is an integer of at most 24 bits is that integer.
\<close>

section \<open>Classes of floats\<close>

definition f_exponent :: "32 word \<Rightarrow> nat" where
  "f_exponent w = unat (take_bit 8 (drop_bit 23 w))"

definition f_finite :: "32 word \<Rightarrow> bool" where
  "f_finite w \<longleftrightarrow> f_exponent w \<noteq> 255"

definition f_nan :: "32 word \<Rightarrow> bool" where
  "f_nan w \<longleftrightarrow> f_exponent w = 255 \<and> take_bit 23 w \<noteq> 0"

definition f_neg :: "32 word \<Rightarrow> bool" where
  "f_neg w \<longleftrightarrow> bit w 31"

definition f_sign :: "bool \<Rightarrow> 32 word" where
  "f_sign s = (if s then push_bit 31 1 else 0)"

definition f_inf :: "bool \<Rightarrow> 32 word" where
  "f_inf s = or (f_sign s) (of_nat (255 * 2 ^ 23))"

text \<open>The NaN that invalid operations produce on the targets of the build.\<close>

definition NAN :: "32 word" where
  "NAN = 0xFFC00000"

section \<open>Rounding\<close>

text \<open>\<open>rat_exp a\<close> is the exponent of the leading bit of a positive rational.\<close>

definition rat_exp :: "rat \<Rightarrow> int" where
  "rat_exp a =
     (let (n, d) = quotient_of a; e = int (floorlog 2 (nat n)) - int (floorlog 2 (nat d))
      in if a < 2 powi e then e - 1 else e)"

definition round_even :: "rat \<Rightarrow> nat" where
  "round_even q =
     (let n = nat \<lfloor>q\<rfloor>; r = q - of_nat n
      in if r > 1 / 2 \<or> r = 1 / 2 \<and> odd n then n + 1 else n)"

text \<open>The nearest float of sign \<open>s\<close> and absolute value \<open>a\<close>.  A significand rounded up to \<^verbatim>\<open>2^24\<close>
  carries into the exponent; beyond the largest exponent the result is infinite.\<close>

definition round32 :: "bool \<Rightarrow> rat \<Rightarrow> 32 word" where
  "round32 s a =
     (if a = 0 then f_sign s
      else let e = max (- 126) (rat_exp a); sig = round_even (a * 2 powi (23 - e))
           in or (f_sign s) (of_nat (min (255 * 2 ^ 23) (nat (e + 126) * 2 ^ 23 + sig))))"

section \<open>Operations\<close>

definition f_minus :: "32 word \<Rightarrow> 32 word" where
  "f_minus a = xor a (push_bit 31 1)"

definition f_round :: "rat \<Rightarrow> 32 word" where
  "f_round x = round32 (x < 0) \<bar>x\<bar>"

definition f_add :: "32 word \<Rightarrow> 32 word \<Rightarrow> 32 word" where
  "f_add a b =
     (if f_nan a then a else if f_nan b then b
      else if \<not> f_finite a then (if \<not> f_finite b \<and> f_neg a \<noteq> f_neg b then NAN else a)
      else if \<not> f_finite b then b
      else let x = float_val a + float_val b
           in if x = 0 then f_sign (f_neg a \<and> f_neg b) else f_round x)"

definition f_sub :: "32 word \<Rightarrow> 32 word \<Rightarrow> 32 word" where
  "f_sub a b = (if f_nan a then a else if f_nan b then b else f_add a (f_minus b))"

definition f_mul :: "32 word \<Rightarrow> 32 word \<Rightarrow> 32 word" where
  "f_mul a b =
     (let s = (f_neg a \<noteq> f_neg b) in
      if f_nan a then a else if f_nan b then b
      else if \<not> f_finite a \<or> \<not> f_finite b
      then (if float_val a = 0 \<or> float_val b = 0 then NAN else f_inf s)
      else round32 s \<bar>float_val a * float_val b\<bar>)"

text \<open>Division by a zero is checked by the code before; it is part of the operation all the same.\<close>

definition f_div :: "32 word \<Rightarrow> 32 word \<Rightarrow> 32 word" where
  "f_div a b =
     (let s = (f_neg a \<noteq> f_neg b) in
      if f_nan a then a else if f_nan b then b
      else if \<not> f_finite a then (if \<not> f_finite b then NAN else f_inf s)
      else if \<not> f_finite b then f_sign s
      else if float_val b = 0 then (if float_val a = 0 then NAN else f_inf s)
      else round32 s \<bar>float_val a / float_val b\<bar>)"

definition f_is_zero :: "32 word \<Rightarrow> bool" where
  "f_is_zero a \<longleftrightarrow> \<not> f_nan a \<and> float_val a = 0"

section \<open>Exactness\<close>

text \<open>\<open>f_is x r\<close>: \<open>r\<close> is a float and its value is \<open>x\<close>.\<close>

definition f_is :: "rat \<Rightarrow> 32 word \<Rightarrow> bool" where
  "f_is x r \<longleftrightarrow> f_finite r \<and> float_val r = x"

lemma f_finite_not_nan [simp]: "f_finite a \<Longrightarrow> \<not> f_nan a"
  by (simp add: f_finite_def f_nan_def)

lemma rat_exp_unique:
  assumes "2 powi e \<le> a" "a < 2 powi (e + 1)"
  shows "rat_exp a = e"
proof -
  obtain n d where q: "quotient_of a = (n, d)" by fastforce
  have a0: "0 < a" using assms(1) zero_less_power_int [of "2 :: rat" e] by linarith
  have d: "0 < d" "a = of_int n / of_int d" using quotient_of_denom_pos [OF q] quotient_of_div [OF q] by auto
  then have n: "0 < n" using a0 by (simp add: zero_less_divide_iff)
  define bn bd where "bn = floorlog 2 (nat n) - 1" and "bd = floorlog 2 (nat d) - 1"
  have pos: "0 < floorlog 2 (nat n)" "0 < floorlog 2 (nat d)"
    using n d(1) floorlog_eq_zero_iff [of 2 "nat n"] floorlog_eq_zero_iff [of 2 "nat d"] by auto
  have bd: "int (floorlog 2 (nat n)) - int (floorlog 2 (nat d)) = int bn - int bd"
    using pos by (simp add: bn_def bd_def)
  have nat_le: "(2 :: int) ^ bn \<le> n" "n < 2 * 2 ^ bn" "(2 :: int) ^ bd \<le> d" "d < 2 * 2 ^ bd"
    using leading_bit [of "nat n"] leading_bit [of "nat d"] n d(1)
    by (auto simp: bn_def bd_def le_nat_iff zless_nat_eq_int_zless nat_less_iff)
  have le: "(2 :: rat) ^ bn \<le> of_int n" "of_int n < (2 :: rat) * 2 ^ bn"
    "(2 :: rat) ^ bd \<le> of_int d" "of_int d < (2 :: rat) * 2 ^ bd"
    using of_int_le_iff [of "2 ^ bn" n, where 'a = rat] of_int_less_iff [of n "2 * 2 ^ bn", where 'a = rat]
      of_int_le_iff [of "2 ^ bd" d, where 'a = rat] of_int_less_iff [of d "2 * 2 ^ bd", where 'a = rat] nat_le
    by simp_all
  define k where "k = int bn - int bd"
  have pk: "2 powi k = (2 :: rat) ^ bn / 2 ^ bd" by (simp add: k_def power_int_diff)
  have "a < (2 * 2 ^ bn) / 2 ^ bd"
    unfolding d(2) by (rule frac_less) (use le n in auto)
  then have up: "a < 2 powi (k + 1)" by (simp add: pk power_int_add mult.commute)
  have "2 ^ bn / (2 * 2 ^ bd) < a"
    unfolding d(2) by (rule frac_less2) (use le d(1) in auto)
  then have lo: "2 powi (k - 1) < a" by (simp add: pk power_int_diff)
  have mono: "i < j" if "2 powi i < (2 :: rat) powi j" for i j
    using that power_int_increasing [of j i "2 :: rat"] by (cases "j \<le> i") auto
  have "k - 1 < e + 1" using lo assms(2) by (intro mono) simp
  moreover have "e < k + 1" using up assms(1) by (intro mono) simp
  ultimately have "e = k - 1 \<or> e = k" by linarith
  moreover have "rat_exp a = (if a < 2 powi k then k - 1 else k)"
    by (simp add: rat_exp_def q bd Let_def k_def)
  ultimately show ?thesis using assms by auto
qed

lemma round_even_of_nat [simp]: "round_even (of_nat n) = n"
  by (simp add: round_even_def)

lemma f_sign_cases: "f_sign s = 0 \<or> f_sign s = push_bit 31 1"
  by (simp add: f_sign_def)

lemma float_parts:
  assumes "sig < 2 ^ 24" "2 ^ 23 \<le> sig" "0 < E" "E < 255"
    and r: "r = or (f_sign s) (of_nat ((E - 1) * 2 ^ 23 + sig))"
  shows "f_finite r" "f_neg r = s"
    "float_val r = (if s then - 1 else 1) *
       (if E < 150 then of_nat sig / 2 ^ (150 - E) else of_nat sig * 2 ^ (E - 150))"
proof -
  have eq: "(E - 1) * 2 ^ 23 + sig = E * 2 ^ 23 + (sig - 2 ^ 23)"
    using assms(2,3) by (cases E) auto
  have M: "sig - 2 ^ 23 < 2 ^ 23" "E < 256" using assms(1,2,4) by auto
  note p = float_val_fields [OF M r [unfolded eq] f_sign_cases]
  have s: "f_sign s \<noteq> 0 \<longleftrightarrow> s" by (simp add: f_sign_def)
  show "f_finite r" "f_neg r = s" using p s assms(4) by (auto simp: f_finite_def f_exponent_def f_neg_def)
  show "float_val r = (if s then - 1 else 1) *
       (if E < 150 then of_nat sig / 2 ^ (150 - E) else of_nat sig * 2 ^ (E - 150))"
    using p s assms(2,3) by (simp add: float_val_def Let_def)
qed

lemma round32_exact:
  assumes sig: "2 ^ 23 \<le> sig" "sig < 2 ^ 24" and e: "- 126 \<le> e" "e \<le> 127"
    and a: "a = of_nat sig * 2 powi (e - 23)"
  shows "f_finite (round32 s a)" "float_val (round32 s a) = (if s then - a else a)"
proof -
  have sr: "(2 :: rat) ^ 23 \<le> of_nat sig" "of_nat sig < (2 :: rat) ^ 24"
    using sig by (metis of_nat_le_iff of_nat_numeral of_nat_power, metis of_nat_less_iff of_nat_numeral of_nat_power)
  have "2 powi e = (2 :: rat) ^ 23 * 2 powi (e - 23)" by (simp add: power_int_diff)
  then have lo: "2 powi e \<le> a" using sr(1) by (simp add: a)
  have "2 powi (e + 1) = (2 :: rat) ^ 24 * 2 powi (e - 23)" by (simp add: power_int_diff power_int_add)
  then have up: "a < 2 powi (e + 1)" using sr(2) by (simp add: a)
  have re: "rat_exp a = e" by (rule rat_exp_unique [OF lo up])
  have pos: "0 < a" using lo by (metis less_le_trans zero_less_power_int zero_less_numeral)
  have "a * 2 powi (23 - e) = of_nat sig" by (simp add: a power_int_diff)
  then have sg: "round_even (a * 2 powi (23 - e)) = sig" by simp
  define E where "E = nat (e + 127)"
  have E: "0 < E" "E < 255" "nat (e + 126) = E - 1" using e by (auto simp: E_def nat_less_iff)
  have "(E - 1) * 2 ^ 23 + sig \<le> 255 * 2 ^ 23"
  proof -
    have "(E - 1) * 2 ^ 23 \<le> 253 * 2 ^ 23" using E(2) by (intro mult_le_mono) auto
    then show ?thesis using sig(2) by simp
  qed
  then have "min (255 * 2 ^ 23) ((E - 1) * 2 ^ 23 + sig) = (E - 1) * 2 ^ 23 + sig" by (rule min_absorb2)
  moreover have "max (- 126) (rat_exp a) = e" using e(1) re by simp
  ultimately have r: "round32 s a = or (f_sign s) (of_nat ((E - 1) * 2 ^ 23 + sig))"
    using pos unfolding round32_def Let_def by (simp only: sg E(3)) simp
  note P = float_parts [OF sig(2,1) E(1,2) r]
  show "f_finite (round32 s a)" by (rule P(1))
  have "(if E < 150 then of_nat sig / 2 ^ (150 - E) else of_nat sig * 2 ^ (E - 150)) = a"
  proof (cases "E < 150")
    case True
    then have "e - 23 = - int (150 - E)" using e(1) by (auto simp: E_def)
    then show ?thesis unfolding a by (simp add: True power_int_minus divide_inverse)
  next
    case False
    then have "e - 23 = int (E - 150)" using e(1) by (auto simp: E_def)
    then show ?thesis unfolding a by (simp add: False)
  qed
  then show "float_val (round32 s a) = (if s then - a else a)" using P(3) by simp
qed

lemma f_round_int:
  fixes n :: int
  assumes "n \<noteq> 0" "\<bar>n\<bar> \<le> 2 ^ 24"
  shows "f_finite (round32 s \<bar>of_int n\<bar>)" "float_val (round32 s \<bar>of_int n\<bar>) = (if s then - \<bar>of_int n\<bar> else \<bar>of_int n\<bar>)"
proof -
  define m where "m = nat \<bar>n\<bar>"
  define e where "e = floorlog 2 m - 1"
  have m: "0 < m" "m \<le> 2 ^ 24" "\<bar>of_int n\<bar> = (of_nat m :: rat)" using assms by (auto simp: m_def nat_le_iff)
  have lb: "2 ^ e \<le> m" "m < 2 * 2 ^ e" using leading_bit [OF m(1)] by (auto simp: e_def)
  have "(2 :: nat) ^ e \<le> 2 ^ 24" using lb(1) m(2) by linarith
  then have e: "e \<le> 24" using power_le_imp_le_exp [of "2 :: nat" e 24] by simp
  obtain sig where sig: "2 ^ 23 \<le> sig" "sig < 2 ^ 24" "(of_nat m :: rat) = of_nat sig * 2 powi (int e - 23)"
  proof (cases "e \<le> 23")
    case True
    have p: "(2 :: nat) ^ 23 = 2 ^ e * 2 ^ (23 - e)" using True by (simp flip: power_add)
    show ?thesis
    proof (rule that [of "m * 2 ^ (23 - e)"])
      show "2 ^ 23 \<le> m * 2 ^ (23 - e)" unfolding p using lb(1) by simp
      have "m * 2 ^ (23 - e) < 2 * 2 ^ e * 2 ^ (23 - e)" using lb(2) by simp
      also have "\<dots> = 2 ^ 24" using p by simp
      finally show "m * 2 ^ (23 - e) < 2 ^ 24" .
      have "int e - 23 = - int (23 - e)" using True by simp
      then have "2 powi (int e - 23) = inverse ((2 :: rat) ^ (23 - e))" by (simp only: power_int_minus power_int_of_nat)
      then show "(of_nat m :: rat) = of_nat (m * 2 ^ (23 - e)) * 2 powi (int e - 23)" by simp
    qed
  next
    case False
    then have "e = 24" using e by simp
    moreover then have "m = 2 ^ 24" using lb m by simp
    ultimately show ?thesis by (intro that [of "2 ^ 23"]) (auto simp: power_int_def)
  qed
  show "f_finite (round32 s \<bar>of_int n\<bar>)" "float_val (round32 s \<bar>of_int n\<bar>) = (if s then - \<bar>of_int n\<bar> else \<bar>of_int n\<bar>)"
    unfolding m(3) using round32_exact [OF sig(1,2) _ _ sig(3), of s] e by auto
qed

lemma f_sign_is_0 [simp]: "f_is 0 (f_sign s)"
proof -
  have "f_sign s = or (f_sign s) (of_nat (0 * 2 ^ 23 + 0))" by simp
  then have p: "unat (take_bit 23 (f_sign s)) = 0" "unat (take_bit 8 (drop_bit 23 (f_sign s))) = 0"
    using float_val_fields [of 0 0 "f_sign s" "f_sign s", OF _ _ _ f_sign_cases] by auto
  show ?thesis unfolding f_is_def f_finite_def f_exponent_def float_val_def Let_def p by simp
qed

lemma f_is_round: "\<bar>n\<bar> \<le> 2 ^ 24 \<Longrightarrow> f_is (of_int n) (f_round (of_int n))"
  using f_round_int [of n "n < 0"] by (cases "n = 0") (auto simp: f_is_def f_round_def round32_def f_sign_is_0 [unfolded f_is_def])

lemma f_is_add:
  assumes "f_is (of_int x) a" "f_is (of_int y) b" "\<bar>x + y\<bar> \<le> 2 ^ 24"
  shows "f_is (of_int (x + y)) (f_add a b)"
  using assms f_is_round [of "x + y"] by (auto simp: f_add_def f_is_def Let_def f_sign_is_0 [unfolded f_is_def] simp flip: of_int_add)

lemma f_minus_parts:
  "take_bit 23 (f_minus a) = take_bit 23 a" "f_exponent (f_minus a) = f_exponent a" "f_neg (f_minus a) \<longleftrightarrow> \<not> f_neg a"
proof -
  show "take_bit 23 (f_minus a) = take_bit 23 a"
    by (rule bit_word_eqI) (auto simp: f_minus_def bit_take_bit_iff bit_xor_iff bit_push_bit_iff)
  have "take_bit 8 (drop_bit 23 (f_minus a)) = take_bit 8 (drop_bit 23 a)"
    by (rule bit_word_eqI) (auto simp: f_minus_def bit_take_bit_iff bit_drop_bit_eq bit_xor_iff bit_push_bit_iff bit_1_iff)
  then show "f_exponent (f_minus a) = f_exponent a" by (simp add: f_exponent_def)
  show "f_neg (f_minus a) \<longleftrightarrow> \<not> f_neg a" by (simp add: f_neg_def f_minus_def bit_xor_iff bit_push_bit_iff)
qed

lemma f_is_minus: "f_is x a \<Longrightarrow> f_is (- x) (f_minus a)"
  using f_minus_parts [of a] by (auto simp: f_is_def f_finite_def float_val_def f_exponent_def f_neg_def Let_def)

lemma f_is_sub:
  assumes "f_is (of_int x) a" "f_is (of_int y) b" "\<bar>x - y\<bar> \<le> 2 ^ 24"
  shows "f_is (of_int (x - y)) (f_sub a b)"
proof -
  have "f_is (of_int (- y)) (f_minus b)" using f_is_minus [OF assms(2)] by simp
  then have "f_is (of_int (x + - y)) (f_add a (f_minus b))" using assms by (intro f_is_add) auto
  then show ?thesis using assms(1,2) by (simp add: f_sub_def f_is_def)
qed

lemma f_neg_val: "f_finite a \<Longrightarrow> float_val a \<noteq> 0 \<Longrightarrow> f_neg a \<longleftrightarrow> float_val a < 0"
proof -
  assume "float_val a \<noteq> 0"
  moreover have "\<exists>v \<ge> 0. float_val a = (if bit a 31 then - v else v)"
    unfolding float_val_def Let_def by (intro exI conjI [rotated], rule refl) (simp del: of_nat_add of_nat_unat)
  ultimately show ?thesis by (cases "bit a 31") (auto simp: f_neg_def)
qed

lemma f_is_mul:
  assumes "f_is (of_int x) a" "f_is (of_int y) b" "\<bar>x * y\<bar> \<le> 2 ^ 24"
  shows "f_is (of_int (x * y)) (f_mul a b)"
proof (cases "x * y = 0")
  case True
  then show ?thesis using assms f_sign_is_0
    by (auto simp: f_mul_def f_is_def Let_def round32_def)
next
  case False
  then have s: "(f_neg a \<noteq> f_neg b) \<longleftrightarrow> x * y < 0"
    using assms f_neg_val [of a] f_neg_val [of b] by (auto simp: f_is_def mult_less_0_iff)
  have "f_mul a b = round32 (x * y < 0) \<bar>of_int (x * y)\<bar>"
    using assms(1,2) unfolding f_mul_def s Let_def by (simp add: f_is_def)
  then show ?thesis using f_round_int [OF False assms(3), of "x * y < 0"] by (auto simp: f_is_def simp flip: of_int_mult)
qed

lemma f_is_div:
  assumes "f_is (of_int x) a" "f_is (of_int y) b" "y \<noteq> 0" "y dvd x" "\<bar>x div y\<bar> \<le> 2 ^ 24"
  shows "f_is (of_int (x div y)) (f_div a b)"
proof -
  obtain q where q: "x = y * q" using assms(4) by (elim dvdE)
  then have d: "x div y = q" using assms(3) by simp
  have v: "float_val a / float_val b = of_int q" "float_val b \<noteq> 0" using assms(1-3) q by (auto simp: f_is_def)
  have r: "f_div a b = round32 (f_neg a \<noteq> f_neg b) \<bar>of_int q\<bar>"
    using assms(1,2) v unfolding f_div_def Let_def by (simp add: f_is_def)
  show ?thesis
  proof (cases "q = 0")
    case True
    then show ?thesis using r d f_sign_is_0 by (simp add: round32_def)
  next
    case False
    then have "(f_neg a \<noteq> f_neg b) \<longleftrightarrow> q < 0"
      using assms(1-3) f_neg_val [of a] f_neg_val [of b] q by (auto simp: f_is_def mult_less_0_iff)
    then show ?thesis using r d f_round_int [OF False, of "q < 0"] assms(5) by (auto simp: f_is_def)
  qed
qed

lemma small_finite:
  assumes "\<bar>float_val a\<bar> < 2 ^ 128"
  shows "f_finite a"
proof (rule ccontr)
  assume "\<not> f_finite a"
  then have "\<bar>float_val a\<bar> = of_nat (2 ^ 23 + unat (take_bit 23 a)) * 2 ^ 105"
    by (simp add: f_finite_def f_exponent_def float_val_def Let_def del: of_nat_unat)
  moreover have "(2 :: rat) ^ 23 \<le> of_nat (2 ^ 23 + unat (take_bit 23 a))" by (simp del: of_nat_unat)
  ultimately have "(2 :: rat) ^ 23 * 2 ^ 105 \<le> \<bar>float_val a\<bar>" by (simp only: mult_right_mono zero_le_power zero_le_numeral)
  then show False using assms by simp
qed

lemma f_is_float_of_int: "\<bar>n\<bar> \<le> 2 ^ 24 \<Longrightarrow> f_is (of_int n) (float_of_int n)"
proof -
  assume n: "\<bar>n\<bar> \<le> 2 ^ 24"
  then have "\<bar>of_int n :: rat\<bar> \<le> 2 ^ 24" by (metis of_int_abs of_int_le_iff of_int_numeral of_int_power)
  then show ?thesis using float_of_int_exact [OF n] by (auto simp: f_is_def intro!: small_finite)
qed

text \<open>One more than \<^verbatim>\<open>2^24\<close> is half way between two floats, and the even one is below.\<close>

lemma f_add_sticks:
  assumes "f_is (2 ^ 24) a" "f_is 1 b"
  shows "f_is (2 ^ 24) (f_add a b)"
proof -
  let ?x = "2 ^ 24 + 1 :: rat"
  have e: "rat_exp ?x = 24" by (rule rat_exp_unique) (simp_all add: power_int_def)
  have h: "?x * 2 powi (23 - 24) = of_nat (2 ^ 23) + 1 / 2" by (simp add: power_int_def)
  have fl: "\<lfloor>of_nat (2 ^ 23) + 1 / 2 :: rat\<rfloor> = 2 ^ 23" by (rule floor_unique) simp_all
  have re: "round_even (of_nat (2 ^ 23) + 1 / 2) = 2 ^ 23"
    unfolding round_even_def Let_def fl by simp
  have m: "max (- 126) 24 = (24 :: int)" by simp
  have "min (255 * 2 ^ 23) (nat (24 + 126) * 2 ^ 23 + 2 ^ 23) = (151 - 1) * 2 ^ 23 + (2 ^ 23 :: nat)" by simp
  then have "round32 False ?x = or (f_sign False) (of_nat ((151 - 1) * 2 ^ 23 + 2 ^ 23))"
    unfolding round32_def Let_def e m h re by simp
  then have "f_is (2 ^ 24) (round32 False ?x)"
    using float_parts [of "2 ^ 23" 151 "round32 False ?x" False] by (simp add: f_is_def)
  then show ?thesis using assms by (simp add: f_add_def f_is_def f_round_def)
qed

end
