(* ===== verification/Tuple_Value.thy ===== *)
theory Tuple_Value
  imports Float32 Date_Util
begin

text \<open>
  The values of the query layer, \<^verbatim>\<open>src/src/observer/sql/executor/value.h\<close>.  A \<^verbatim>\<open>TupleValue\<close>
  is one of four classes; their tuples share them through \<^verbatim>\<open>shared_ptr\<close>, but only fresh
  values are ever changed, so a value is a value here.  A \<^verbatim>\<open>StringValue\<close> made from a C string
  alone has an uninitialised type, which the constructor takes as an argument.
\<close>

datatype TupleValue =
    IntValue int
  | FloatValue "32 word"
  | StringValue AttrType "byte list"
  | NullValue

fun tv_type :: "TupleValue \<Rightarrow> AttrType" where
  "tv_type (IntValue _) = INTS"
| "tv_type (FloatValue _) = FLOATS"
| "tv_type (StringValue ty _) = ty"
| "tv_type NullValue = UNDEFINED"

section \<open>Comparison\<close>

text \<open>The three-way result for the difference of two floats; for a NaN no branch returns.\<close>

definition float_diff_sign :: "32 word \<Rightarrow> int result" where
  "float_diff_sign r =
     (if f_nan r then Inl UB
      else if - 1 / 100000 < float_val r \<and> float_val r < 1 / 100000 then Inr 0
      else if float_val r > 0 then Inr 1
      else Inr (- 1))"

text \<open>A value of one class read as another, and the comparison with a null, are undefined.\<close>

fun tv_compare :: "TupleValue \<Rightarrow> TupleValue \<Rightarrow> int result" where
  "tv_compare (IntValue i) (FloatValue f) = float_diff_sign (f_sub (float_of_int i) f)"
| "tv_compare (IntValue i) (IntValue j) = (if int32 (i - j) then Inr (i - j) else Inl UB)"
| "tv_compare (FloatValue f) (FloatValue g) = float_diff_sign (f_sub f g)"
| "tv_compare (FloatValue f) (IntValue j) = float_diff_sign (f_sub f (float_of_int j))"
| "tv_compare (StringValue _ s) (StringValue _ t) = Inr (lexcmp s t)"
| "tv_compare _ _ = Inl UB"

section \<open>Arithmetic\<close>

text \<open>\<^verbatim>\<open>plus\<close> and \<^verbatim>\<open>value\<close>; a string or a null fails an assertion.  The sum of an int and a
  float is converted back to \<^verbatim>\<open>int\<close> by truncation, which is undefined outside its range.\<close>

definition trunc :: "rat \<Rightarrow> int" where
  "trunc x = (if x < 0 then - \<lfloor>- x\<rfloor> else \<lfloor>x\<rfloor>)"

fun tv_plus :: "TupleValue \<Rightarrow> 32 word \<Rightarrow> TupleValue result" where
  "tv_plus (IntValue i) v =
     (let r = f_add (float_of_int i) v
      in if f_nan r \<or> \<not> int32 (trunc (float_val r)) then Inl UB else Inr (IntValue (trunc (float_val r))))"
| "tv_plus (FloatValue f) v = Inr (FloatValue (f_add f v))"
| "tv_plus _ v = Inl UB"

fun tv_value :: "TupleValue \<Rightarrow> 32 word result" where
  "tv_value (IntValue i) = Inr (float_of_int i)"
| "tv_value (FloatValue f) = Inr f"
| "tv_value _ = Inl UB"

section \<open>Printing\<close>

definition ascii :: "string \<Rightarrow> byte list" where
  "ascii s = map of_char s"

definition dec_int :: "int \<Rightarrow> byte list" where
  "dec_int i = (if i < 0 then dash # dec (nat (- i)) else dec (nat i))"

text \<open>\<^verbatim>\<open>sprintf(s, "%.2f", v)\<close>: the exact value rounded to two decimals, ties to even.\<close>

definition dot :: byte where
  "dot = 46"

definition format_2f :: "32 word \<Rightarrow> byte list" where
  "format_2f f =
     (let sign = (if f_neg f then [dash] else []) in
      if f_nan f then sign @ ascii ''nan''
      else if \<not> f_finite f then sign @ ascii ''inf''
      else let n = round_even (100 * \<bar>float_val f\<bar>) in sign @ dec (n div 100) @ [dot] @ zpad 2 (n mod 100))"

text \<open>\<^verbatim>\<open>FloatValue::to_string\<close>: 20 characters are reserved; trailing zeros go, and the point if
  nothing is left behind it.\<close>

definition strip_zeros :: "byte list \<Rightarrow> byte list" where
  "strip_zeros s =
     (let t = rev (dropWhile (\<lambda>c. c = 48) (rev s)) in if t \<noteq> [] \<and> last t = dot then butlast t else t)"

definition float_to_string :: "32 word \<Rightarrow> byte list result" where
  "float_to_string f =
     (let s = format_2f f in if length s + 1 > 20 then Inl UB else Inr (strip_zeros s))"

fun tv_to_string :: "TupleValue \<Rightarrow> byte list result" where
  "tv_to_string (IntValue i) = Inr (dec_int i)"
| "tv_to_string (FloatValue f) = float_to_string f"
| "tv_to_string (StringValue _ s) = Inr s"
| "tv_to_string NullValue = Inr (ascii ''null'')"

section \<open>Lemmas\<close>

lemma tv_compare_ints: "int32 (i - j) \<Longrightarrow> tv_compare (IntValue i) (IntValue j) = Inr (i - j)"
  by simp

lemma format_2f_int:
  assumes "f_is (of_int n) f"
  shows "format_2f f = (if f_neg f then [dash] else []) @ dec (nat \<bar>n\<bar>) @ [dot, 48, 48]"
proof -
  have "100 * \<bar>of_int n :: rat\<bar> = of_nat (100 * nat \<bar>n\<bar>)" by simp
  then have "round_even (100 * \<bar>float_val f\<bar>) = 100 * nat \<bar>n\<bar>"
    using assms unfolding f_is_def by (simp only: round_even_of_nat)
  moreover have "dec 0 = [48]" by (simp add: dec.simps)
  then have "zpad 2 0 = [48, 48]" by (simp add: zpad_def numeral_2_eq_2)
  ultimately show ?thesis using assms by (simp add: format_2f_def f_is_def Let_def)
qed

lemma strip_zeros_point: "strip_zeros (s @ [dot, 48, 48]) = s"
  by (simp add: strip_zeros_def Let_def dot_def)

lemma float_to_string_int:
  assumes "f_is (of_int n) f" "f_neg f \<longleftrightarrow> n < 0" "\<bar>n\<bar> < 10 ^ 15"
  shows "float_to_string f = Inr (dec_int n)"
proof -
  have "length (dec (nat \<bar>n\<bar>)) \<le> 15" by (rule length_dec_le) (use assms(3) in \<open>auto simp: nat_less_iff\<close>)
  then have "length (format_2f f) + 1 \<le> 20" by (simp add: format_2f_int [OF assms(1)])
  moreover have "strip_zeros (format_2f f) = dec_int n"
    using strip_zeros_point [of "(if n < 0 then [dash] else []) @ dec (nat \<bar>n\<bar>)"] assms(2)
    by (simp add: format_2f_int [OF assms(1)] dec_int_def)
  ultimately show ?thesis by (simp add: float_to_string_def Let_def)
qed

text \<open>A float of 17 digits before the point leaves the buffer.\<close>

lemma dec_bound: "n < 10 ^ length (dec n)"
proof (induction n rule: dec.induct)
  case (1 n)
  then show ?case by (subst dec.simps) (auto simp: dec.simps [of n])
qed

lemma float_to_string_overrun:
  assumes "f_finite f" "10 ^ 16 \<le> float_val f"
  shows "float_to_string f = Inl UB"
proof -
  define n where "n = round_even (100 * \<bar>float_val f\<bar>)"
  have fl: "10 ^ 18 \<le> \<lfloor>100 * \<bar>float_val f\<bar>\<rfloor>" using assms(2) by (simp add: le_floor_iff)
  then have "nat \<lfloor>100 * \<bar>float_val f\<bar>\<rfloor> \<ge> 10 ^ 18" by (simp add: nat_le_eq_zle le_nat_iff)
  then have "10 ^ 18 \<le> n" by (auto simp: n_def round_even_def Let_def)
  then have "(10 :: nat) ^ 16 \<le> n div 100" by (simp add: less_eq_div_iff_mult_less_eq)
  then have "(10 :: nat) ^ 16 < 10 ^ length (dec (n div 100))" using dec_bound [of "n div 100"] by linarith
  then have "16 < length (dec (n div 100))" by (simp only: power_strict_increasing_iff [of "10 :: nat"])
  moreover have "2 \<le> length (zpad 2 (n mod 100))" by (simp add: zpad_def)
  ultimately show ?thesis
    using assms(1) by (auto simp: float_to_string_def format_2f_def Let_def simp flip: n_def)
qed

end
