(* ===== verification/Tuple.thy ===== *)
theory Tuple
  imports Tuple_Value Table_Scan
begin

text \<open>
  \<^verbatim>\<open>src/src/observer/sql/executor/tuple.h\<close> and \<^verbatim>\<open>tuple.cpp\<close>: tuples, their schemas and
  sets, the iterator over the product of several sets, and the conversion of records to tuples.
  \<^verbatim>\<open>std::map<std::string, std::map<std::string, int>>\<close> is an association list; an uncaught
  exception (\<^verbatim>\<open>at\<close> on a missing key, a string made from a null pointer) is \<open>UB\<close> like a
  failed assertion.
\<close>

section \<open>Expressions of the parse tree\<close>

datatype NodeType = ADDN | SUBN | MULN | DIVN | VALN | ATTRN

text \<open>A node of type \<^verbatim>\<open>VALN\<close> or \<^verbatim>\<open>ATTRN\<close> is a \<^verbatim>\<open>valnode\<close> or an \<^verbatim>\<open>attrnode\<close>; the two
  numbers count the braces before and behind.  \<open>NullNode\<close> is the null pointer.\<close>

datatype ast =
    NullNode
  | OpNode NodeType nat nat ast ast
  | ValNode nat nat Value
  | AttrNode nat nat RelAttr

section \<open>Tuples\<close>

lemma map_sum_id_Inr [simp]: "map_sum id f r = Inr y \<longleftrightarrow> (\<exists>x. r = Inr x \<and> y = f x)"
  by (cases r) auto

lemma map_sum_id_Inl [simp]: "map_sum id f r = Inl c \<longleftrightarrow> r = Inl c"
  by (cases r) auto

type_synonym Tuple = "TupleValue list"

definition tuple_get :: "Tuple \<Rightarrow> int \<Rightarrow> TupleValue result" where
  "tuple_get t i = (if 0 \<le> i \<and> nat i < length t then Inr (t ! nat i) else Inl UB)"

fun tuple_select :: "Tuple \<Rightarrow> int list \<Rightarrow> Tuple result" where
  "tuple_select t [] = Inr []"
| "tuple_select t (i # is) =
     (case tuple_get t i of
        Inl c \<Rightarrow> Inl c
      | Inr v \<Rightarrow> (case tuple_select t is of Inl c \<Rightarrow> Inl c | Inr vs \<Rightarrow> Inr (v # vs)))"

section \<open>Schemas\<close>

datatype AggreType = UNDEFINEDAGG | MAXS | MINS | AVGS | SUMS | COUNTS

record AggreDesc =
  ag_type :: AggreType
  ag_is_attr :: int
  ag_relation :: "string option"
  ag_attr :: "string option"
  ag_is_star :: int
  ag_value :: "32 word"

record TupleField =
  tf_type :: AttrType
  tf_table :: string
  tf_name :: string
  tf_order :: int

type_synonym field_index = "(string \<times> (string \<times> int) list) list"

record TupleSchema =
  ts_fields :: "TupleField list"
  ts_index :: field_index
  ts_aggs :: "AggreDesc list"
  ts_exps :: "ast list"

definition TupleSchema_new :: TupleSchema where
  "TupleSchema_new = \<lparr>ts_fields = [], ts_index = [], ts_aggs = [], ts_exps = []\<rparr>"

definition schema_add :: "AttrType \<Rightarrow> string \<Rightarrow> string \<Rightarrow> int \<Rightarrow> TupleSchema \<Rightarrow> TupleSchema" where
  "schema_add ty table name order s =
     s\<lparr>ts_fields := ts_fields s @ [\<lparr>tf_type = ty, tf_table = table, tf_name = name, tf_order = order\<rparr>]\<rparr>"

definition add_if_not_exists :: "AttrType \<Rightarrow> string \<Rightarrow> string \<Rightarrow> int \<Rightarrow> TupleSchema \<Rightarrow> TupleSchema" where
  "add_if_not_exists ty table name order s =
     (if list_ex (\<lambda>f. tf_table f = table \<and> tf_name f = name) (ts_fields s) then s
      else schema_add ty table name order s)"

definition schema_append :: "TupleSchema \<Rightarrow> TupleSchema \<Rightarrow> TupleSchema" where
  "schema_append s other = s\<lparr>ts_fields := ts_fields s @ ts_fields other\<rparr>"

definition schema_clear :: "TupleSchema \<Rightarrow> TupleSchema" where
  "schema_clear s = s\<lparr>ts_fields := []\<rparr>"

definition visible_fields :: "TableMeta \<Rightarrow> FieldMeta list" where
  "visible_fields tm = filter fm_visible (tm_fields tm)"

definition from_table :: "TableMeta \<Rightarrow> TupleSchema \<Rightarrow> TupleSchema" where
  "from_table tm s = fold (\<lambda>f. schema_add (fm_type f) (tm_name tm) (fm_name f) 0) (visible_fields tm) s"

definition from_tables :: "TableMeta list \<Rightarrow> TupleSchema \<Rightarrow> TupleSchema" where
  "from_tables tms s = fold from_table tms s"

definition schema_add_field :: "TableMeta \<Rightarrow> string option \<Rightarrow> TupleSchema \<Rightarrow> TupleSchema result" where
  "schema_add_field tm name s =
     (case field_named tm name of
        None \<Rightarrow> Inl UB
      | Some f \<Rightarrow> Inr (add_if_not_exists (fm_type f) (tm_name tm) (fm_name f) 0 s))"

text \<open>\<^verbatim>\<open>table_field_index\<close> builds the index once; a field added later does not enter it.\<close>

definition index_insert :: "string \<Rightarrow> string \<Rightarrow> int \<Rightarrow> field_index \<Rightarrow> field_index" where
  "index_insert table name i fi =
     (case map_of fi table of
        None \<Rightarrow> fi @ [(table, [(name, i)])]
      | Some m \<Rightarrow> AList.update table (AList.update name i m) fi)"

fun index_fields :: "TupleField list \<Rightarrow> int \<Rightarrow> field_index \<Rightarrow> field_index" where
  "index_fields [] i fi = fi"
| "index_fields (f # fs) i fi = index_fields fs (i + 1) (index_insert (tf_table f) (tf_name f) i fi)"

fun index_aggs :: "AggreDesc list \<Rightarrow> int \<Rightarrow> field_index \<Rightarrow> field_index result" where
  "index_aggs [] i fi = Inr fi"
| "index_aggs (a # as) i fi =
     (case (ag_relation a, ag_attr a) of
        (Some table, Some name) \<Rightarrow> index_aggs as (i + 1) (index_insert table name i fi)
      | _ \<Rightarrow> Inl UB)"

definition table_field_index :: "TupleSchema \<Rightarrow> (field_index \<times> TupleSchema) result" where
  "table_field_index s =
     (if ts_index s \<noteq> [] then Inr (ts_index s, s)
      else if ts_fields s \<noteq> [] \<and> ts_aggs s \<noteq> [] then Inl UB
      else case index_aggs (ts_aggs s) 0 (index_fields (ts_fields s) 0 []) of
             Inl c \<Rightarrow> Inl c
           | Inr fi \<Rightarrow> Inr (fi, s\<lparr>ts_index := fi\<rparr>))"

definition index_find :: "field_index \<Rightarrow> string \<Rightarrow> string \<Rightarrow> int option" where
  "index_find fi table name = (case map_of fi table of None \<Rightarrow> None | Some m \<Rightarrow> map_of m name)"

text \<open>\<^verbatim>\<open>at(table).at(field)\<close>.\<close>

definition index_at :: "field_index \<Rightarrow> string \<Rightarrow> string \<Rightarrow> int result" where
  "index_at fi table name = (case index_find fi table name of None \<Rightarrow> Inl UB | Some i \<Rightarrow> Inr i)"

definition index_in :: "TupleSchema \<Rightarrow> TupleSchema \<Rightarrow> (int list \<times> TupleSchema) result" where
  "index_in s schema =
     (case table_field_index schema of
        Inl c \<Rightarrow> Inl c
      | Inr (fi, schema) \<Rightarrow> Inr (List.map_filter (\<lambda>f. index_find fi (tf_table f) (tf_name f)) (ts_fields s), schema))"

definition index_of_field :: "TupleSchema \<Rightarrow> string \<Rightarrow> string \<Rightarrow> int" where
  "index_of_field s table name = index_where (\<lambda>f. tf_table f = table \<and> tf_name f = name) (ts_fields s) 0"

section \<open>Sets\<close>

record TupleSet =
  set_tuples :: "Tuple list"
  set_schema :: TupleSchema

definition TupleSet_new :: TupleSet where
  "TupleSet_new = \<lparr>set_tuples = [], set_schema = TupleSchema_new\<rparr>"

definition set_add :: "Tuple \<Rightarrow> TupleSet \<Rightarrow> TupleSet" where
  "set_add t s = s\<lparr>set_tuples := set_tuples s @ [t]\<rparr>"

definition set_clear :: "TupleSet \<Rightarrow> TupleSet" where
  "set_clear s = s\<lparr>set_tuples := [], set_schema := schema_clear (set_schema s)\<rparr>"

text \<open>The move constructor, and the move assignment, which moves the tuples and the fields but
  neither the aggregates nor the expressions of the schema.  The second component is what is left.\<close>

definition set_move :: "TupleSet \<Rightarrow> TupleSet \<times> TupleSet" where
  "set_move other = (other, \<lparr>set_tuples = [], set_schema = schema_clear (set_schema other)\<rparr>)"

definition set_move_assign :: "TupleSet \<Rightarrow> TupleSet \<Rightarrow> TupleSet \<times> TupleSet" where
  "set_move_assign s other =
     (\<lparr>set_tuples = set_tuples other,
       set_schema = schema_append (schema_clear (set_schema s)) (set_schema other)\<rparr>,
      \<lparr>set_tuples = [], set_schema = schema_clear (set_schema other)\<rparr>)"

section \<open>The product of several sets\<close>

text \<open>\<^verbatim>\<open>operator ++\<close>, on the indexes and sizes in reverse: the last set runs fastest; \<open>None\<close> is
  the end.\<close>

fun next_indexes :: "nat list \<Rightarrow> nat list \<Rightarrow> nat list option" where
  "next_indexes (s # ss) (i # is) =
     (if i + 1 < s then Some ((i + 1) # is) else map_option ((#) 0) (next_indexes ss is))"
| "next_indexes _ _ = None"

record DescartesIterator =
  di_sizes :: "nat list"
  di_indexes :: "nat list"
  di_end :: bool

definition Descartes_new :: "TupleSet list \<Rightarrow> DescartesIterator" where
  "Descartes_new sets =
     \<lparr>di_sizes = map (length \<circ> set_tuples) sets, di_indexes = map (\<lambda>_. 0) sets,
      di_end = list_ex (\<lambda>s. set_tuples s = []) sets\<rparr>"

definition Descartes_next :: "DescartesIterator \<Rightarrow> DescartesIterator" where
  "Descartes_next it =
     (case next_indexes (rev (di_sizes it)) (rev (di_indexes it)) of
        None \<Rightarrow> it\<lparr>di_indexes := map (\<lambda>_. 0) (di_indexes it), di_end := True\<rparr>
      | Some is \<Rightarrow> it\<lparr>di_indexes := rev is\<rparr>)"

definition Descartes_get :: "TupleSet list \<Rightarrow> DescartesIterator \<Rightarrow> Tuple list" where
  "Descartes_get sets it =
     map (\<lambda>(s, i, _). set_tuples s ! i) (filter (\<lambda>(s, i, n). i < n) (zip sets (zip (di_indexes it) (di_sizes it))))"

text \<open>The number of combinations that are still to come bounds the iteration.\<close>

fun indexes_left :: "nat list \<Rightarrow> nat list \<Rightarrow> nat" where
  "indexes_left (s # ss) (i # is) = (s - 1 - i) + max 1 s * indexes_left ss is"
| "indexes_left _ _ = 0"

lemma next_indexes_less: "next_indexes ss is = Some is' \<Longrightarrow> indexes_left ss is' < indexes_left ss is"
proof (induction ss "is" arbitrary: is' rule: next_indexes.induct)
  case (1 s ss i "is")
  show ?case
  proof (cases "i + 1 < s")
    case True
    then show ?thesis using 1 by auto
  next
    case False
    then obtain js where js: "next_indexes ss is = Some js" "is' = 0 # js" using 1 by auto
    then have "indexes_left ss js + 1 \<le> indexes_left ss is" using 1 False by fastforce
    then have "max 1 s * (indexes_left ss js + 1) \<le> max 1 s * indexes_left ss is" by (rule mult_le_mono2)
    then show ?thesis using js(2) by (simp add: max_def split: if_splits)
  qed
qed auto

definition iterations_left :: "DescartesIterator \<Rightarrow> nat" where
  "iterations_left it =
     (if di_end it then 0 else 1 + indexes_left (rev (di_sizes it)) (rev (di_indexes it)))"

lemma Descartes_next_less: "\<not> di_end it \<Longrightarrow> iterations_left (Descartes_next it) < iterations_left it"
  using next_indexes_less [of "rev (di_sizes it)" "rev (di_indexes it)"]
  by (auto simp: iterations_left_def Descartes_next_def split: option.split)

function descartes_loop ::
  "TupleSet list \<Rightarrow> (Tuple list \<Rightarrow> 'a \<Rightarrow> 'a) \<Rightarrow> DescartesIterator \<Rightarrow> 'a \<Rightarrow> 'a" where
  "descartes_loop sets f it acc =
     (if di_end it then acc else descartes_loop sets f (Descartes_next it) (f (Descartes_get sets it) acc))"
  by pat_completeness auto
termination
  by (relation "measure (\<lambda>(sets, f, it, acc). iterations_left it)") (auto simp: Descartes_next_less)

declare descartes_loop.simps [simp del]

section \<open>Records\<close>

text \<open>\<^verbatim>\<open>tuple_add_text_field\<close>: the part of the text in the record, then what its page holds.\<close>

definition text_value :: "(Env \<Rightarrow> bytes) \<Rightarrow> FieldMeta \<Rightarrow> TupleValue table_op" where
  "text_value mem f e =
     (let off = nat (fm_offset f); part = nat TEXTPATCHSIZE;
          s = memcpy (\<lambda>_. 0) 0 (mem e) (off + nat PAGENUMSIZE) part
      in bindT (read_text_record (\<lambda>i. s (part + i)) (get_int (mem e) off))
           (\<lambda>d. retT (StringValue CHARS (takeWhile (\<lambda>b. b \<noteq> 0)
              (map (\<lambda>i. if i < part then s i else d (i - part)) [0..<4097])))) e)"

definition string_value :: "bytes \<Rightarrow> TupleValue result" where
  "string_value s = (case strlen s of Inl c \<Rightarrow> Inl c | Inr n \<Rightarrow> Inr (StringValue CHARS (map s [0..<n])))"

text \<open>One field of \<^verbatim>\<open>add_record\<close>; \<open>None\<close> for a type that is only logged.\<close>

definition field_value :: "(Env \<Rightarrow> bytes) \<Rightarrow> string \<Rightarrow> TupleValue option table_op" where
  "field_value mem name e =
     (let tm = meta_of e; r = mem e in
      case field_named tm (Some name) of
        None \<Rightarrow> Some (Inl UB, e)
      | Some f \<Rightarrow>
          let p = (\<lambda>i. r (nat (fm_offset f) + i)) in
          if get_bit r (null_bitmap tm) (nat (field_index tm (Some name))) then retT (Some NullValue) e
          else (case fm_type f of
                  INTS \<Rightarrow> retT (Some (IntValue (get_int p 0))) e
                | FLOATS \<Rightarrow> retT (Some (FloatValue (get32 p 0))) e
                | CHARS \<Rightarrow> Some (map_sum id Some (string_value p), e)
                | DATES \<Rightarrow> Some (map_sum id Some (string_value p), e)
                | TEXTS \<Rightarrow> bindT (text_value mem f) (\<lambda>v. retT (Some v)) e
                | UNDEFINED \<Rightarrow> retT None e))"

fun record_values :: "(Env \<Rightarrow> bytes) \<Rightarrow> TupleField list \<Rightarrow> Tuple table_op" where
  "record_values mem [] e = retT [] e"
| "record_values mem (f # fs) e =
     bindT (field_value mem (tf_name f))
       (\<lambda>v. bindT (record_values mem fs) (\<lambda>vs. retT ((case v of None \<Rightarrow> [] | Some x \<Rightarrow> [x]) @ vs))) e"

definition add_record :: "(Env \<Rightarrow> bytes) \<Rightarrow> TupleSet \<Rightarrow> TupleSet table_op" where
  "add_record mem s = bindT (record_values mem (ts_fields (set_schema s))) (\<lambda>t. retT (set_add t s))"

end
