(* ===== verification/Tuple_Spec.thy ===== *)
theory Tuple_Spec
  imports Tuple Table_Spec
begin

text \<open>
  What the tuples are good for: the iterator enumerates the product of the sets, the index of a
  schema finds its fields, and a record made of the values of a statement is converted back to them.
\<close>

section \<open>The product\<close>

text \<open>The successor of an index vector read from the front, and the combinations from a vector on.\<close>

fun succ_indexes :: "nat list \<Rightarrow> nat list \<Rightarrow> nat list option" where
  "succ_indexes (s # ss) (i # is) =
     (case succ_indexes ss is of
        Some is' \<Rightarrow> Some (i # is')
      | None \<Rightarrow> if i + 1 < s then Some ((i + 1) # map (\<lambda>_. 0) is) else None)"
| "succ_indexes _ _ = None"

lemma next_indexes_snoc:
  "length ss = length is \<Longrightarrow>
   next_indexes (ss @ [s]) (is @ [i]) =
     (case next_indexes ss is of
        Some is' \<Rightarrow> Some (is' @ [i])
      | None \<Rightarrow> if i + 1 < s then Some (map (\<lambda>_. 0) is @ [i + 1]) else None)"
  by (induction ss "is" rule: list_induct2) (auto split: option.splits)

lemma next_indexes_rev:
  "length ss = length is \<Longrightarrow> next_indexes (rev ss) (rev is) = map_option rev (succ_indexes ss is)"
  by (induction ss "is" rule: list_induct2) (auto simp: next_indexes_snoc rev_map split: option.splits)

fun product_from :: "'a list list \<Rightarrow> nat list \<Rightarrow> 'a list list" where
  "product_from (xs # xss) (i # is) =
     map ((#) (xs ! i)) (product_from xss is) @
     concat (map (\<lambda>x. map ((#) x) (product_lists xss)) (drop (i + 1) xs))"
| "product_from _ _ = [[]]"

definition indexes_ok :: "'a list list \<Rightarrow> nat list \<Rightarrow> bool" where
  "indexes_ok xss is \<longleftrightarrow> list_all2 (\<lambda>xs i. i < length xs) xss is"

lemma indexes_ok_Cons [simp]:
  "indexes_ok (xs # xss) (i # is) \<longleftrightarrow> i < length xs \<and> indexes_ok xss is" "indexes_ok [] []"
  by (simp_all add: indexes_ok_def)

lemma indexes_ok_nonempty: "indexes_ok xss is \<Longrightarrow> [] \<notin> set xss"
  unfolding indexes_ok_def by (induction xss "is" rule: list_all2_induct) auto

lemma indexes_ok_zeros: "indexes_ok xss is \<Longrightarrow> indexes_ok xss (map (\<lambda>_. 0) is)"
  unfolding indexes_ok_def by (induction xss "is" rule: list_all2_induct) auto

lemma product_from_start:
  "[] \<notin> set xss \<Longrightarrow> product_from xss (map (\<lambda>_. 0) xss) = product_lists xss"
proof (induction xss)
  case (Cons xs xss)
  then show ?case by (cases xs) auto
qed simp

lemma product_from_step:
  "length xss = length is \<Longrightarrow> indexes_ok xss is \<Longrightarrow>
   product_from xss is =
     map2 (!) xss is # (case succ_indexes (map length xss) is of None \<Rightarrow> [] | Some is' \<Rightarrow> product_from xss is')"
proof (induction xss "is" rule: list_induct2)
  case (Cons xs xss i "is")
  have start: "product_from xss (map (\<lambda>_. 0) is) = product_lists xss"
  proof -
    have "map (\<lambda>_. 0 :: nat) is = map (\<lambda>_. 0) xss" using Cons.hyps by (simp add: map_replicate_const)
    moreover have "[] \<notin> set xss" using Cons.prems indexes_ok_nonempty by auto
    ultimately show ?thesis by (simp add: product_from_start)
  qed
  have IH: "product_from xss is = map2 (!) xss is #
      (case succ_indexes (map length xss) is of None \<Rightarrow> [] | Some is' \<Rightarrow> product_from xss is')"
    using Cons by simp
  show ?case
  proof (cases "succ_indexes (map length xss) is")
    case None
    then show ?thesis using IH start Cons.prems by (auto simp flip: Cons_nth_drop_Suc)
  next
    case (Some is')
    then show ?thesis using IH by simp
  qed
qed simp

lemma succ_indexes_range:
  "length xss = length is \<Longrightarrow> indexes_ok xss is \<Longrightarrow> succ_indexes (map length xss) is = Some is' \<Longrightarrow> indexes_ok xss is'"
proof (induction xss "is" arbitrary: is' rule: list_induct2)
  case (Cons xs xss i "is")
  have "indexes_ok xss (map (\<lambda>_. 0) is)" using Cons.prems(1) by (simp add: indexes_ok_zeros)
  then show ?case using Cons by (auto split: option.splits if_splits)
qed simp

lemma Descartes_get_in_range:
  "length sets = length is \<Longrightarrow> indexes_ok (map set_tuples sets) is \<Longrightarrow>
   Descartes_get sets \<lparr>di_sizes = map (length \<circ> set_tuples) sets, di_indexes = is, di_end = b\<rparr> =
     map2 (!) (map set_tuples sets) is"
  by (induction sets "is" rule: list_induct2) (auto simp: Descartes_get_def)

lemma descartes_loop_from:
  assumes "length sets = length is" "indexes_ok (map set_tuples sets) is"
  shows "descartes_loop sets f \<lparr>di_sizes = map (length \<circ> set_tuples) sets, di_indexes = is, di_end = False\<rparr> acc =
    fold f (product_from (map set_tuples sets) is) acc"
  using assms
proof (induction "indexes_left (rev (map (length \<circ> set_tuples) sets)) (rev is)" arbitrary: "is" acc rule: less_induct)
  case less
  let ?it = "\<lparr>di_sizes = map (length \<circ> set_tuples) sets, di_indexes = is, di_end = False\<rparr>"
  let ?szs = "map (length \<circ> set_tuples) sets"
  have nx: "next_indexes (rev ?szs) (rev is) = map_option rev (succ_indexes ?szs is)"
    using less.prems(1) by (intro next_indexes_rev) simp
  have get: "Descartes_get sets ?it = map2 (!) (map set_tuples sets) is" by (rule Descartes_get_in_range) (use less.prems in auto)
  have pf: "product_from (map set_tuples sets) is = map2 (!) (map set_tuples sets) is #
      (case succ_indexes ?szs is of None \<Rightarrow> [] | Some is' \<Rightarrow> product_from (map set_tuples sets) is')"
    using product_from_step [of "map set_tuples sets" "is"] less.prems by simp
  show ?case
  proof (cases "succ_indexes ?szs is")
    case None
    then show ?thesis using nx pf get
      by (subst descartes_loop.simps) (simp add: Descartes_next_def descartes_loop.simps)
  next
    case (Some is')
    have r: "indexes_ok (map set_tuples sets) is'"
      using succ_indexes_range [of "map set_tuples sets" "is" is'] less.prems Some by simp
    then have l: "length sets = length is'" by (auto simp: indexes_ok_def dest: list_all2_lengthD)
    have "indexes_left (rev ?szs) (rev is') < indexes_left (rev ?szs) (rev is)"
      using nx Some by (intro next_indexes_less) simp
    from less.hyps [OF this l r]
    show ?thesis using nx pf get Some
      by (subst descartes_loop.simps) (simp add: Descartes_next_def)
  qed
qed

text \<open>Iterating over several sets visits every combination of one tuple from each, once and in
  order; when a set is empty there is none.\<close>

lemma descartes_product:
  "descartes_loop sets f (Descartes_new sets) acc = fold f (product_lists (map set_tuples sets)) acc"
proof (cases "[] \<in> set (map set_tuples sets)")
  case True
  then have "product_lists (map set_tuples sets) = []" by (induction sets) auto
  moreover have "di_end (Descartes_new sets)" using True by (force simp: Descartes_new_def list_ex_iff)
  ultimately show ?thesis by (simp add: descartes_loop.simps)
next
  case False
  then have "Descartes_new sets =
      \<lparr>di_sizes = map (length \<circ> set_tuples) sets, di_indexes = map (\<lambda>_. 0) sets, di_end = False\<rparr>"
    by (force simp: Descartes_new_def list_ex_iff)
  moreover have "indexes_ok (map set_tuples sets) (map (\<lambda>_. 0) sets)"
    using False by (auto simp: indexes_ok_def list_all2_conv_all_nth) (metis length_greater_0_conv nth_mem imageI)
  ultimately show ?thesis
    using descartes_loop_from [of sets "map (\<lambda>_. 0) sets"] product_from_start [OF False]
    by (simp add: map_replicate_const)
qed

section \<open>The index of a schema\<close>

lemma index_find_insert:
  "index_find (index_insert t n i fi) t' n' = (if t' = t \<and> n' = n then Some i else index_find fi t' n')"
  by (auto simp: index_find_def index_insert_def map_add_def AList.update_conv' split: option.split)

lemma index_find_fields_notin:
  "(\<And>f. f \<in> set fs \<Longrightarrow> \<not> (tf_table f = t \<and> tf_name f = n)) \<Longrightarrow> index_find (index_fields fs i fi) t n = index_find fi t n"
  by (induction fs i fi rule: index_fields.induct) (auto simp: index_find_insert)

lemma index_find_fields:
  "distinct (map (\<lambda>f. (tf_table f, tf_name f)) fs) \<Longrightarrow> k < length fs \<Longrightarrow>
   index_find (index_fields fs i fi) (tf_table (fs ! k)) (tf_name (fs ! k)) = Some (i + int k)"
proof (induction fs arbitrary: i fi k)
  case (Cons f fs)
  show ?case
  proof (cases k)
    case 0
    have "index_find (index_fields fs (i + 1) (index_insert (tf_table f) (tf_name f) i fi)) (tf_table f) (tf_name f) =
        index_find (index_insert (tf_table f) (tf_name f) i fi) (tf_table f) (tf_name f)"
      by (rule index_find_fields_notin) (use Cons.prems(1) in \<open>auto simp: image_iff\<close>)
    then show ?thesis using 0 by (simp add: index_find_insert)
  next
    case (Suc k')
    then show ?thesis using Cons by simp
  qed
qed simp

text \<open>The index of a schema of distinct columns takes every column to its position.\<close>

lemma table_field_index_fields:
  assumes "ts_index s = []" "ts_aggs s = []" "distinct (map (\<lambda>f. (tf_table f, tf_name f)) (ts_fields s))"
  obtains fi where "table_field_index s = Inr (fi, s\<lparr>ts_index := fi\<rparr>)"
    "\<And>k. k < length (ts_fields s) \<Longrightarrow> index_find fi (tf_table (ts_fields s ! k)) (tf_name (ts_fields s ! k)) = Some (int k)"
    "\<And>t n. (\<And>f. f \<in> set (ts_fields s) \<Longrightarrow> \<not> (tf_table f = t \<and> tf_name f = n)) \<Longrightarrow> index_find fi t n = None"
proof (rule that [of "index_fields (ts_fields s) 0 []"])
  show "table_field_index s = Inr (index_fields (ts_fields s) 0 [], s\<lparr>ts_index := index_fields (ts_fields s) 0 []\<rparr>)"
    using assms by (simp add: table_field_index_def)
  show "index_find (index_fields (ts_fields s) 0 []) (tf_table (ts_fields s ! k)) (tf_name (ts_fields s ! k)) = Some (int k)"
    if "k < length (ts_fields s)" for k
    using index_find_fields [OF assms(3) that, of 0 "[]"] by simp
  show "index_find (index_fields (ts_fields s) 0 []) t n = None"
    if "\<And>f. f \<in> set (ts_fields s) \<Longrightarrow> \<not> (tf_table f = t \<and> tf_name f = n)" for t n
    using index_find_fields_notin [OF that, where i = 0 and fi = "[]"] by (simp add: index_find_def)
qed

lemma tuple_select_nth:
  "\<forall>i \<in> set is. 0 \<le> i \<and> nat i < length t \<Longrightarrow> tuple_select t is = Inr (map (\<lambda>i. t ! nat i) is)"
  by (induction "is") (auto simp: tuple_get_def)

section \<open>From values to a record and back\<close>

lemma schema_adds:
  "ts_fields (fold (\<lambda>f. schema_add (fm_type f) t (fm_name f) 0) fs s) =
     ts_fields s @ map (\<lambda>f. \<lparr>tf_type = fm_type f, tf_table = t, tf_name = fm_name f, tf_order = 0\<rparr>) fs"
  "ts_index (fold (\<lambda>f. schema_add (fm_type f) t (fm_name f) 0) fs s) = ts_index s"
  "ts_aggs (fold (\<lambda>f. schema_add (fm_type f) t (fm_name f) 0) fs s) = ts_aggs s"
  by (induction fs arbitrary: s) (auto simp: schema_add_def)

lemma from_table_fields [simp]:
  "ts_fields (from_table tm s) = ts_fields s @
     map (\<lambda>f. \<lparr>tf_type = fm_type f, tf_table = tm_name tm, tf_name = fm_name f, tf_order = 0\<rparr>) (visible_fields tm)"
  "ts_index (from_table tm s) = ts_index s" "ts_aggs (from_table tm s) = ts_aggs s"
  by (simp_all add: from_table_def schema_adds)

lemma distinct_field_named:
  assumes "distinct (map fm_name (tm_fields tm))" "k < field_num tm"
  shows "field_named tm (Some (fm_name (tm_fields tm ! k))) = Some (tm_fields tm ! k)"
    "field_index tm (Some (fm_name (tm_fields tm ! k))) = int k"
proof -
  let ?n = "fm_name (tm_fields tm ! k)"
  have "find (\<lambda>f. fm_name f = ?n) (tm_fields tm) \<noteq> None"
    using assms(2) nth_mem [of k "tm_fields tm"] by (auto simp: find_None_iff field_num_def simp del: nth_mem)
  then obtain f j where j: "field_named tm (Some ?n) = Some f" "j < field_num tm" "field_index tm (Some ?n) = int j"
    "tm_fields tm ! j = f" "fm_name f = ?n"
    using field_index_correct [of tm "Some ?n"] by (auto simp: field_named_def split: option.splits)
  then have "j = k"
    using assms nth_eq_iff_index_eq [of "map fm_name (tm_fields tm)" j k] by (auto simp: field_num_def)
  then show "field_named tm (Some ?n) = Some (tm_fields tm ! k)" "field_index tm (Some ?n) = int k" using j by auto
qed

text \<open>\<open>storable f v\<close>: the column can hold the value; \<open>shows_as f v x\<close>: \<open>x\<close> is the value read back.\<close>

definition storable :: "FieldMeta \<Rightarrow> Value \<Rightarrow> bool" where
  "storable f v \<longleftrightarrow> visnull v \<noteq> 0 \<or>
     (case fm_type f of
        INTS \<Rightarrow> 4 \<le> fm_len f
      | FLOATS \<Rightarrow> 4 \<le> fm_len f
      | CHARS \<Rightarrow> (\<exists>xs. string_at (the (vdata v)) xs \<and> int (length xs) < fm_len f \<and> length xs < BP_PAGE_SIZE)
      | DATES \<Rightarrow> (\<exists>xs. string_at (the (vdata v)) xs \<and> int (length xs) < fm_len f \<and> length xs < BP_PAGE_SIZE)
      | _ \<Rightarrow> False)"

definition shows_as :: "FieldMeta \<Rightarrow> Value \<Rightarrow> TupleValue \<Rightarrow> bool" where
  "shows_as f v x \<longleftrightarrow>
     (if visnull v \<noteq> 0 then x = NullValue
      else case fm_type f of
             INTS \<Rightarrow> x = IntValue (get_int (the (vdata v)) 0)
           | FLOATS \<Rightarrow> x = FloatValue (get32 (the (vdata v)) 0)
           | _ \<Rightarrow> (\<exists>xs. string_at (the (vdata v)) xs \<and> x = StringValue CHARS xs))"

lemma string_value_at: "string_at s xs \<Longrightarrow> length xs < BP_PAGE_SIZE \<Longrightarrow> string_value s = Inr (StringValue CHARS xs)"
proof -
  assume a: "string_at s xs" "length xs < BP_PAGE_SIZE"
  have "map s [0..<length xs] = xs" by (rule nth_equalityI) (use a(1) in \<open>auto simp: string_at_def\<close>)
  then show ?thesis using strlen_string_at [OF a] by (simp add: string_value_def)
qed

lemma field_value_stored:
  assumes "meta_of e = tm" "distinct (map fm_name (tm_fields tm))" "k < field_num tm"
    and "stored_value tm r k v" "storable (tm_fields tm ! k) v"
  shows "\<exists>x. field_value (\<lambda>_. r) (fm_name (tm_fields tm ! k)) e = Some (Inr (Some x), e) \<and> shows_as (tm_fields tm ! k) v x"
proof -
  let ?f = "tm_fields tm ! k"
  let ?p = "\<lambda>i. r (nat (fm_offset ?f) + i)"
  note F = distinct_field_named [OF assms(2,3)]
  have bit: "get_bit r (null_bitmap tm) k = (visnull v \<noteq> 0)"
    using assms(4) unfolding stored_value_def null_bit_def null_bitmap_def
    by (simp add: get_bit_bsize [of _ _ "field_num tm" _ "nat (align8 (int (field_num tm)))"])
  show ?thesis
  proof (cases "visnull v = 0")
    case False
    then show ?thesis using F assms(1) bit by (simp add: field_value_def shows_as_def retT_def)
  next
    case True
    then obtain d where d: "vdata v = Some d" "\<And>i. i < nat (fm_len ?f) \<Longrightarrow> ?p i = d i"
      using assms(4) by (auto simp: stored_value_def field_mem_def)
    have num: "get32 ?p 0 = get32 d 0" if "4 \<le> fm_len ?f" using d(2) that by (intro get32_cong) auto
    have str: "\<exists>x. map_sum id Some (string_value ?p) = Inr (Some x) \<and> (\<exists>xs. string_at d xs \<and> x = StringValue CHARS xs)"
      if "string_at d xs" "int (length xs) < fm_len ?f" "length xs < BP_PAGE_SIZE" for xs
    proof -
      have "string_at ?p xs" using that d(2) by (auto simp: string_at_def)
      then show ?thesis using that string_value_at [of ?p xs] by auto
    qed
    show ?thesis
      using F assms(1,5) bit True d(1) num str
      by (auto simp: field_value_def shows_as_def retT_def storable_def get_int_def split: AttrType.splits)
  qed
qed

lemma record_values_stored:
  assumes "meta_of e = tm" "distinct (map fm_name (tm_fields tm))"
  shows "m + length vs = field_num tm \<Longrightarrow>
    (\<And>i. i < length vs \<Longrightarrow> stored_value tm r (m + i) (vs ! i)) \<Longrightarrow>
    (\<And>i. i < length vs \<Longrightarrow> storable (tm_fields tm ! (m + i)) (vs ! i)) \<Longrightarrow>
    map tf_name fs = map fm_name (drop m (tm_fields tm)) \<Longrightarrow>
    \<exists>t. record_values (\<lambda>_. r) fs e = Some (Inr t, e) \<and> length t = length vs \<and>
      (\<forall>i < length vs. shows_as (tm_fields tm ! (m + i)) (vs ! i) (t ! i))"
proof (induction vs arbitrary: m fs)
  case Nil
  then show ?case by (simp add: field_num_def retT_def)
next
  case (Cons v vs)
  then have m: "m < field_num tm" by simp
  then have "drop m (tm_fields tm) = tm_fields tm ! m # drop (m + 1) (tm_fields tm)"
    by (simp add: Cons_nth_drop_Suc field_num_def)
  then obtain f gs where fs: "fs = f # gs" "tf_name f = fm_name (tm_fields tm ! m)"
    "map tf_name gs = map fm_name (drop (m + 1) (tm_fields tm))"
    using Cons.prems(4) by auto
  obtain x where x: "field_value (\<lambda>_. r) (fm_name (tm_fields tm ! m)) e = Some (Inr (Some x), e)"
    "shows_as (tm_fields tm ! m) v x"
    using field_value_stored [OF assms m, of r v] Cons.prems(2,3) [of 0] by auto
  have "\<exists>t. record_values (\<lambda>_. r) gs e = Some (Inr t, e) \<and> length t = length vs \<and>
      (\<forall>i < length vs. shows_as (tm_fields tm ! (m + 1 + i)) (vs ! i) (t ! i))"
  proof (rule Cons.IH)
    show "stored_value tm r (m + 1 + i) (vs ! i)" "storable (tm_fields tm ! (m + 1 + i)) (vs ! i)"
      if "i < length vs" for i
      using that Cons.prems(2,3) [of "Suc i"] by simp_all
  qed (use Cons.prems(1) fs(3) in auto)
  then obtain t where t: "record_values (\<lambda>_. r) gs e = Some (Inr t, e)" "length t = length vs"
    "\<forall>i < length vs. shows_as (tm_fields tm ! (m + 1 + i)) (vs ! i) (t ! i)" by blast
  have "\<forall>i < Suc (length vs). shows_as (tm_fields tm ! (m + i)) ((v # vs) ! i) ((x # t) ! i)"
    using x(2) t(3) by (auto simp: nth_Cons split: nat.split)
  moreover have "record_values (\<lambda>_. r) (f # gs) e = Some (Inr (x # t), e)"
    using x(1) t(1) fs(2) by (simp add: bindT_def thenT_def retT_def)
  ultimately show ?case using fs(1) t(2) by (intro exI [of _ "x # t"]) simp
qed

lemma init_names:
  assumes "TableMeta_init name attributes tm = Inr tm'"
  shows "map fm_name (tm_fields tm') = trx_field_name # map (the \<circ> ai_name) attributes"
    "visible_fields tm' = drop sys_field_num (tm_fields tm')"
    "\<And>a. a \<in> set attributes \<Longrightarrow> ai_name a \<noteq> None"
proof -
  obtain f0 fs off where "init_sys_fields = Inr [f0]" and f: "init_fields attributes 4 = Inr (fs, off)"
    and f0: "f0 = \<lparr>fm_name = trx_field_name, fm_type = INTS, fm_offset = 0, fm_len = 4,
           fm_visible = False, fm_nullable = False\<rparr>"
    and m: "tm_fields tm' = map (\<lambda>f. f\<lparr>fm_offset := fm_offset f + null_bitmap_len (Suc (length fs))\<rparr>) (f0 # fs)"
    using assms by (rule TableMeta_init_cases)
  note i = init_fields_correct [OF f]
  have n: "map fm_name fs = map (the \<circ> ai_name) attributes"
    by (rule nth_equalityI) (use i in \<open>auto simp: o_def, metis option.sel\<close>)
  show "map fm_name (tm_fields tm') = trx_field_name # map (the \<circ> ai_name) attributes"
    unfolding m using n f0 by (simp add: o_def)
  have "list_all fm_visible fs" using i by (auto simp: list_all_length)
  then have "filter fm_visible (map (\<lambda>f. f\<lparr>fm_offset := fm_offset f + k\<rparr>) fs) = map (\<lambda>f. f\<lparr>fm_offset := fm_offset f + k\<rparr>) fs" for k
    by (auto simp: filter_id_conv list_all_iff)
  then show "visible_fields tm' = drop sys_field_num (tm_fields tm')"
    by (simp add: visible_fields_def m f0 sys_field_num_def)
  show "ai_name a \<noteq> None" if "a \<in> set attributes" for a
    using i that by (auto simp: in_set_conv_nth) (metis option.distinct(1))
qed

text \<open>\<open>column_names_ok\<close>: the names of the columns differ from each other and from the transaction
  field; nothing checks it when a table is created.\<close>

definition column_names_ok :: "AttrInfo list \<Rightarrow> bool" where
  "column_names_ok attributes \<longleftrightarrow> distinct (trx_field_name # map (the \<circ> ai_name) attributes)"



end
