(* ===== verification/Expression.thy ===== *)
theory Expression
  imports Tuple
begin

text \<open>
  \<^verbatim>\<open>src/src/observer/sql/executor/util.h\<close> and \<^verbatim>\<open>util.cpp\<close>: the value of an expression on a
  tuple, its text for the header of a result, and the comparison of tuples for \<^verbatim>\<open>order by\<close>.
\<close>

section \<open>\<^verbatim>\<open>AstUtil\<close>\<close>

definition value_float :: "Value \<Rightarrow> TupleValue result" where
  "value_float v =
     (case vdata v of
        None \<Rightarrow> Inl UB
      | Some d \<Rightarrow>
          if vtype v = INTS then Inr (FloatValue (float_of_int (get_int d 0)))
          else if vtype v = FLOATS then Inr (FloatValue (get32 d 0))
          else Inl UB)"

definition arith :: "NodeType \<Rightarrow> 32 word \<Rightarrow> 32 word \<Rightarrow> TupleValue result" where
  "arith op a b =
     (case op of
        ADDN \<Rightarrow> Inr (FloatValue (f_add a b))
      | SUBN \<Rightarrow> Inr (FloatValue (f_sub a b))
      | MULN \<Rightarrow> Inr (FloatValue (f_mul a b))
      | DIVN \<Rightarrow> if f_is_zero b then Inl GENERIC_ERROR else Inr (FloatValue (f_div a b))
      | _ \<Rightarrow> Inl UB)"

definition attr_operand :: "Tuple \<Rightarrow> field_index \<Rightarrow> RelAttr \<Rightarrow> TupleValue result" where
  "attr_operand t fi a =
     (case (if length fi = 1 then Some (fst (hd fi)) else relation_name a, attribute_name a) of
        (Some table, Some name) \<Rightarrow>
          (case index_at fi table name of
             Inl c \<Rightarrow> Inl c
           | Inr i \<Rightarrow>
               (case tuple_get t i of
                  Inl c \<Rightarrow> Inl c
                | Inr v \<Rightarrow> if tv_type v = INTS \<or> tv_type v = FLOATS then Inr v else Inl UB))
      | _ \<Rightarrow> Inl UB)"

fun Calculate :: "Tuple \<Rightarrow> field_index \<Rightarrow> ast \<Rightarrow> TupleValue result" where
  "Calculate t fi NullNode = Inr (FloatValue 0)"
| "Calculate t fi (OpNode op _ _ l r) =
     (case Calculate t fi l of
        Inl c \<Rightarrow> Inl c
      | Inr lv \<Rightarrow>
          (case Calculate t fi r of
             Inl c \<Rightarrow> Inl c
           | Inr rv \<Rightarrow>
               (case (tv_value lv, tv_value rv) of
                  (Inr a, Inr b) \<Rightarrow> arith op a b
                | _ \<Rightarrow> Inl UB)))"
| "Calculate t fi (ValNode _ _ v) = value_float v"
| "Calculate t fi (AttrNode _ _ a) = attr_operand t fi a"

definition print_node_type :: "NodeType \<Rightarrow> byte list result" where
  "print_node_type op =
     (case op of
        ADDN \<Rightarrow> Inr (ascii ''+'')
      | SUBN \<Rightarrow> Inr (ascii ''-'')
      | MULN \<Rightarrow> Inr (ascii ''*'')
      | DIVN \<Rightarrow> Inr (ascii ''/'')
      | _ \<Rightarrow> Inl UB)"

definition print_value :: "Value \<Rightarrow> byte list result" where
  "print_value v =
     (case vdata v of
        None \<Rightarrow> Inl UB
      | Some d \<Rightarrow>
          (case vtype v of
             INTS \<Rightarrow> tv_to_string (IntValue (get_int d 0))
           | FLOATS \<Rightarrow> tv_to_string (FloatValue (get32 d 0))
           | CHARS \<Rightarrow> (case strlen d of Inl c \<Rightarrow> Inl c | Inr n \<Rightarrow> Inr (map d [0..<n]))
           | _ \<Rightarrow> Inl UB))"

definition print_attr :: "RelAttr \<Rightarrow> byte list result" where
  "print_attr a =
     (case attribute_name a of
        None \<Rightarrow> Inl UB
      | Some n \<Rightarrow> Inr ((case relation_name a of None \<Rightarrow> [] | Some t \<Rightarrow> ascii t @ [dot]) @ ascii n))"

definition in_braces :: "nat \<Rightarrow> nat \<Rightarrow> byte list result \<Rightarrow> byte list result" where
  "in_braces l r s = map_sum id (\<lambda>s. replicate l 40 @ s @ replicate r 41) s"

fun ast_print :: "ast \<Rightarrow> byte list result" where
  "ast_print NullNode = Inl UB"
| "ast_print (OpNode op lb rb l r) =
     in_braces lb rb
       (case (if l = NullNode then Inr [] else ast_print l) of
          Inl c \<Rightarrow> Inl c
        | Inr s1 \<Rightarrow>
            (case print_node_type op of
               Inl c \<Rightarrow> Inl c
             | Inr s2 \<Rightarrow> map_sum id (\<lambda>s3. s1 @ s2 @ s3) (ast_print r)))"
| "ast_print (ValNode lb rb v) = in_braces lb rb (print_value v)"
| "ast_print (AttrNode lb rb a) = in_braces lb rb (print_attr a)"

section \<open>\<^verbatim>\<open>TupleSortUtil::cmp\<close>\<close>

fun sort_cmp :: "field_index \<Rightarrow> TupleField list \<Rightarrow> Tuple \<Rightarrow> Tuple \<Rightarrow> bool result" where
  "sort_cmp fi [] l r = Inr False"
| "sort_cmp fi (f # fs) l r =
     (case index_at fi (tf_table f) (tf_name f) of
        Inl c \<Rightarrow> Inl c
      | Inr i \<Rightarrow>
          (case (tuple_get l i, tuple_get r i) of
             (Inr a, Inr b) \<Rightarrow>
               (case tv_compare a b of
                  Inl c \<Rightarrow> Inl c
                | Inr ret \<Rightarrow>
                    if ret \<noteq> 0 then Inr (if tf_order f = 0 then ret < 0 else ret > 0)
                    else sort_cmp fi fs l r)
           | _ \<Rightarrow> Inl UB))"

section \<open>Exact integer expressions\<close>

text \<open>The value of an expression over the integers: \<open>Inl GENERIC_ERROR\<close> for a division by zero,
  \<open>Inl UB\<close> when the expression leaves the integers or an intermediate result has more than 24 bits.\<close>

definition small :: "int \<Rightarrow> int result" where
  "small n = (if \<bar>n\<bar> \<le> 2 ^ 24 then Inr n else Inl UB)"

definition int_arith :: "NodeType \<Rightarrow> int \<Rightarrow> int \<Rightarrow> int result" where
  "int_arith op a b =
     (case op of
        ADDN \<Rightarrow> small (a + b)
      | SUBN \<Rightarrow> small (a - b)
      | MULN \<Rightarrow> small (a * b)
      | DIVN \<Rightarrow> if b = 0 then Inl GENERIC_ERROR else if b dvd a then small (a div b) else Inl UB
      | _ \<Rightarrow> Inl UB)"

fun int_value :: "Tuple \<Rightarrow> field_index \<Rightarrow> ast \<Rightarrow> int result" where
  "int_value t fi NullNode = Inr 0"
| "int_value t fi (OpNode op _ _ l r) =
     (case (int_value t fi l, int_value t fi r) of
        (Inr a, Inr b) \<Rightarrow> int_arith op a b
      | (Inr _, Inl c) \<Rightarrow> Inl c
      | (Inl c, _) \<Rightarrow> Inl c)"
| "int_value t fi (ValNode _ _ v) =
     (case vdata v of Some d \<Rightarrow> if vtype v = INTS then small (get_int d 0) else Inl UB | None \<Rightarrow> Inl UB)"
| "int_value t fi (AttrNode _ _ a) =
     (case attr_operand t fi a of Inr (IntValue n) \<Rightarrow> small n | _ \<Rightarrow> Inl UB)"

lemma small_Inr: "small n = Inr m \<longleftrightarrow> m = n \<and> \<bar>n\<bar> \<le> 2 ^ 24" "small n \<noteq> Inl GENERIC_ERROR"
  by (auto simp: small_def)

lemma f_is_zero_iff: "f_is x f \<Longrightarrow> f_is_zero f \<longleftrightarrow> x = 0"
  by (auto simp: f_is_zero_def f_is_def)

lemma arith_exact:
  assumes "f_is (of_int a) f" "f_is (of_int b) g"
  shows "int_arith op a b = Inr n \<Longrightarrow> \<exists>h. arith op f g = Inr (FloatValue h) \<and> f_is (of_int n) h"
    "int_arith op a b = Inl GENERIC_ERROR \<Longrightarrow> arith op f g = Inl GENERIC_ERROR"
  using f_is_add [OF assms] f_is_sub [OF assms] f_is_mul [OF assms] f_is_div [OF assms] f_is_zero_iff [OF assms(2)]
  by (auto simp: int_arith_def arith_def small_Inr split: NodeType.splits if_splits)

lemma Calculate_exact:
  "(int_value t fi a = Inr n \<longrightarrow> (\<exists>v f. Calculate t fi a = Inr v \<and> tv_value v = Inr f \<and> f_is (of_int n) f)) \<and>
   (int_value t fi a = Inl GENERIC_ERROR \<longrightarrow> Calculate t fi a = Inl GENERIC_ERROR)"
proof (induction t fi a arbitrary: n rule: Calculate.induct)
  case (1 t fi)
  have "f_is 0 (0 :: 32 word)" using f_sign_is_0 [of False] by (simp add: f_sign_def)
  then show ?case by auto
next
  case (2 t fi op lb rb l r)
  show ?case
  proof (cases "int_value t fi l")
    case (Inl c)
    then show ?thesis using 2 by auto
  next
    case l: (Inr a)
    then obtain lv f where L: "Calculate t fi l = Inr lv" "tv_value lv = Inr f" "f_is (of_int a) f" using 2(1) by blast
    show ?thesis
    proof (cases "int_value t fi r")
      case (Inl c)
      then show ?thesis using l L 2(2) by auto
    next
      case r: (Inr b)
      then obtain rv g where R: "Calculate t fi r = Inr rv" "tv_value rv = Inr g" "f_is (of_int b) g"
        using 2(2) [OF L(1)] by blast
      then show ?thesis using l r L arith_exact [OF L(3) R(3)] by fastforce
    qed
  qed
next
  case (3 t fi lb rb v)
  then show ?case
    by (auto simp: value_float_def small_Inr f_is_float_of_int split: option.splits)
next
  case (4 t fi lb rb a)
  then show ?case
    by (auto simp: small_Inr f_is_float_of_int split: sum.splits TupleValue.splits)
qed

text \<open>C36: an expression over integer columns and constants whose intermediate results are integers of
  at most 24 bits evaluates to exactly the value it has in integer arithmetic, and a division by zero in
  it is reported as an error.\<close>

theorem Calculate_int_exact:
  "(int_value t fi a = Inr n \<longrightarrow> (\<exists>v f. Calculate t fi a = Inr v \<and> tv_value v = Inr f \<and> f_is (of_int n) f)) \<and>
   (int_value t fi a = Inl GENERIC_ERROR \<longrightarrow> Calculate t fi a = Inl GENERIC_ERROR)"
  by (rule Calculate_exact)

definition int_node :: "int \<Rightarrow> ast" where
  "int_node n = ValNode 0 0 (value_init_integer (\<lambda>_. 0) n)"

lemma Calculate_int_exact_witness:
  "\<exists>v f. Calculate [IntValue 7] [(''t'', [(''a'', 0)])]
      (OpNode MULN 0 0 (AttrNode 0 0 \<lparr>relation_name = None, attribute_name = Some ''a''\<rparr>)
        (OpNode SUBN 1 1 NullNode (int_node 6))) = Inr v \<and> tv_value v = Inr f \<and> f_is (- 42) f"
  using Calculate_int_exact [of "[IntValue 7]" "[(''t'', [(''a'', 0)])]"
      "OpNode MULN 0 0 (AttrNode 0 0 \<lparr>relation_name = None, attribute_name = Some ''a''\<rparr>)
        (OpNode SUBN 1 1 NullNode (int_node 6))" "- 42"]
  by (simp add: int_node_def value_init_integer_def attr_operand_def index_at_def index_find_def tuple_get_def
      int_arith_def small_def int32_def)

end
