(* ===== verification/Tuple_Filter.thy ===== *)
theory Tuple_Filter
  imports Expression
begin

text \<open>
  The filters of \<^verbatim>\<open>src/src/observer/storage/common/condition_filter.cpp\<close> that work on tuples:
  between two columns of a product, between expressions, and \<^verbatim>\<open>Filter\<close> on one tuple or on a pair.
\<close>

section \<open>\<^verbatim>\<open>DefaultCartesianFilter\<close>\<close>

record CartesianConDesc =
  cc_table_index :: int
  cc_value_index :: int
  cc_exp :: ast
  cc_is_attr :: int
  cc_value :: Value

record CartesianFilter =
  cf_left :: CartesianConDesc
  cf_right :: CartesianConDesc
  cf_op :: CompOp

definition cartesian_filter_init ::
  "CartesianFilter \<Rightarrow> CartesianConDesc \<Rightarrow> CartesianConDesc \<Rightarrow> CompOp \<Rightarrow> unit result \<times> CartesianFilter" where
  "cartesian_filter_init f left right op =
     (if op = NO_OP then (Inl INVALID_ARGUMENT, f)
      else (SUCCESS, \<lparr>cf_left = left, cf_right = right, cf_op = op\<rparr>))"

definition compare_tuple_values :: "CompOp \<Rightarrow> TupleValue \<Rightarrow> TupleValue \<Rightarrow> bool result" where
  "compare_tuple_values op a b = map_sum id (\<lambda>r. compare_result r op) (tv_compare a b)"

definition cartesian_filter :: "CartesianFilter \<Rightarrow> Tuple \<Rightarrow> bool result" where
  "cartesian_filter f t =
     (case (tuple_get t (cc_value_index (cf_left f)), tuple_get t (cc_value_index (cf_right f))) of
        (Inr a, Inr b) \<Rightarrow>
          if tv_type a = UNDEFINED \<or> tv_type b = UNDEFINED then Inr False
          else compare_tuple_values (cf_op f) a b
      | _ \<Rightarrow> Inl UB)"

text \<open>The conjunction of a composite filter stops at the first filter that does not hold.\<close>

fun all_hold :: "('f \<Rightarrow> bool result) \<Rightarrow> 'f list \<Rightarrow> bool result" where
  "all_hold P [] = Inr True"
| "all_hold P (f # fs) =
     (case P f of
        Inl c \<Rightarrow> Inl c
      | Inr b \<Rightarrow> if b then all_hold P fs else Inr False)"

definition composite_cartesian_filter :: "CartesianFilter list \<Rightarrow> Tuple \<Rightarrow> bool result" where
  "composite_cartesian_filter fs t = all_hold (\<lambda>f. cartesian_filter f t) fs"

section \<open>\<^verbatim>\<open>DefaultExpressionFilter\<close>\<close>

text \<open>The value of one side; \<open>Inr None\<close> when the evaluation reports an error, which makes the
  condition false.\<close>

definition expression_side :: "field_index \<Rightarrow> CartesianConDesc \<Rightarrow> Tuple \<Rightarrow> TupleValue option result" where
  "expression_side fi d t =
     (if cc_exp d \<noteq> NullNode then
        (case Calculate t fi (cc_exp d) of
           Inl c \<Rightarrow> if c = UB then Inl UB else Inr None
         | Inr v \<Rightarrow> Inr (Some v))
      else if cc_is_attr d \<noteq> 0 then map_sum id Some (tuple_get t (cc_value_index d))
      else map_sum id Some (value_float (cc_value d)))"

definition expression_filter :: "field_index \<Rightarrow> CartesianFilter \<Rightarrow> Tuple \<Rightarrow> bool result" where
  "expression_filter fi f t =
     (case expression_side fi (cf_left f) t of
        Inl c \<Rightarrow> Inl c
      | Inr None \<Rightarrow> Inr False
      | Inr (Some a) \<Rightarrow>
          (case expression_side fi (cf_right f) t of
             Inl c \<Rightarrow> Inl c
           | Inr None \<Rightarrow> Inr False
           | Inr (Some b) \<Rightarrow>
               if tv_type a \<noteq> FLOATS \<or> tv_type b \<noteq> FLOATS then Inl UB
               else compare_tuple_values (cf_op f) a b))"

definition composite_expression_filter :: "field_index \<Rightarrow> CartesianFilter list \<Rightarrow> Tuple \<Rightarrow> bool result" where
  "composite_expression_filter fi fs t = all_hold (\<lambda>f. expression_filter fi f t) fs"

section \<open>\<^verbatim>\<open>Filter\<close> on tuples\<close>

text \<open>\<open>None\<close> is the null pointer.  The type of the string values is uninitialised; a comparison
  does not look at it.\<close>

definition construct_tuple_value_from_value :: "AttrType \<Rightarrow> Value \<Rightarrow> TupleValue option result" where
  "construct_tuple_value_from_value junk v =
     (case vtype v of
        UNDEFINED \<Rightarrow> Inr None
      | TEXTS \<Rightarrow> Inr None
      | ty \<Rightarrow>
          (case vdata v of
             None \<Rightarrow> Inl UB
           | Some d \<Rightarrow>
               if ty = FLOATS then Inr (Some (FloatValue (get32 d 0)))
               else if ty = INTS then Inr (Some (IntValue (get_int d 0)))
               else (case strlen d of
                       Inl c \<Rightarrow> Inl c
                     | Inr n \<Rightarrow> Inr (Some (StringValue junk (map d [0..<n]))))))"

definition construct_desc_value :: "AttrType \<Rightarrow> FilterDesc \<Rightarrow> Tuple \<Rightarrow> field_index \<Rightarrow> TupleValue option result" where
  "construct_desc_value junk d t fi =
     (if fd_is_attr d then
        (case index_find fi (fd_table_name d) (fd_field_name d) of
           None \<Rightarrow> Inr None
         | Some i \<Rightarrow> map_sum id Some (tuple_get t i))
      else construct_tuple_value_from_value junk (fd_value d))"

definition construct_desc_value2 ::
  "AttrType \<Rightarrow> FilterDesc \<Rightarrow> Tuple \<Rightarrow> field_index \<Rightarrow> Tuple \<Rightarrow> field_index \<Rightarrow> TupleValue option result" where
  "construct_desc_value2 junk d l fl r fr =
     (case construct_desc_value junk d l fl of
        Inr None \<Rightarrow> construct_desc_value junk d r fr
      | v \<Rightarrow> v)"

definition compare_desc_values :: "CompOp \<Rightarrow> TupleValue option result \<Rightarrow> TupleValue option result \<Rightarrow> bool result" where
  "compare_desc_values op l r =
     (case l of
        Inl c \<Rightarrow> Inl c
      | Inr None \<Rightarrow> Inr False
      | Inr (Some a) \<Rightarrow>
          (case r of
             Inl c \<Rightarrow> Inl c
           | Inr None \<Rightarrow> Inr False
           | Inr (Some b) \<Rightarrow> compare_tuple_values op a b))"

definition filter_pair :: "AttrType \<Rightarrow> Filter \<Rightarrow> Tuple \<Rightarrow> field_index \<Rightarrow> Tuple \<Rightarrow> field_index \<Rightarrow> bool result" where
  "filter_pair junk f l fl r fr =
     compare_desc_values (f_comp_op f)
       (construct_desc_value2 junk (f_left f) l fl r fr) (construct_desc_value2 junk (f_right f) l fl r fr)"

definition filter_tuple :: "AttrType \<Rightarrow> Filter \<Rightarrow> Tuple \<Rightarrow> field_index \<Rightarrow> bool result" where
  "filter_tuple junk f t fi =
     compare_desc_values (f_comp_op f) (construct_desc_value junk (f_left f) t fi) (construct_desc_value junk (f_right f) t fi)"

section \<open>Lemmas\<close>

lemma all_hold_True: "all_hold P fs = Inr True \<longleftrightarrow> (\<forall>f \<in> set fs. P f = Inr True)"
  by (induction fs) (auto split: sum.splits)

lemma all_hold_defined:
  "(\<And>f. f \<in> set fs \<Longrightarrow> P f = Inr (Q f)) \<Longrightarrow> all_hold P fs = Inr (\<forall>f \<in> set fs. Q f)"
  by (induction fs) auto


end
