(* ===== verification/Query.thy ===== *)
theory Query
  imports Tuple
begin

text \<open>
  The statements of \<^verbatim>\<open>src/src/observer/sql/parser/parse_defs.h\<close> and the functions of
  \<^verbatim>\<open>parse.cpp\<close> by which the grammar builds and frees them.  An array with its count is the list of
  the elements in use; an append does not look at the size of the array, and is \<open>UB\<close> beyond it.
  A \<^verbatim>\<open>char *\<close> is a string or, when null, \<open>None\<close>.
\<close>

section \<open>Statements\<close>

definition MAX_NUM :: nat where
  "MAX_NUM = 20"

datatype JoinType = INNER_JOIN | OUTER_JOIN | LEFT_JOIN | RIGHT_JOIN

record Aggregate =
  aggre_type :: AggreType
  aggre_is_attr :: int
  aggre_value :: Value
  aggre_attr :: RelAttr

text \<open>A condition whose sides may be expressions and subqueries, and the query that contains it;
  \<^verbatim>\<open>left_is_select\<close> is set exactly when there is a subquery.  The columns, tables and conditions of a
  query are in the reverse order of the text where the grammar collects them from the right.\<close>

datatype SqlCondition =
    SqlCondition (sc_cond: Condition) (sc_left_ast: ast) (sc_right_ast: ast)
      (sc_left_selects: "Selects option") (sc_right_selects: "Selects option")
and Selects =
    Selects (sel_aggregates: "Aggregate list") (sel_attributes: "RelAttr list") (sel_attributes_exp: "ast list")
      (sel_relations: "string option list") (sel_joins: "(JoinType \<times> string option \<times> SqlCondition list) list")
      (sel_conditions: "SqlCondition list") (sel_order_by: "(RelAttr \<times> int) list") (sel_group_bys: "RelAttr list")

record Inserts =
  ins_relation :: "string option"
  ins_pairs :: "Value list list"

record Deletes =
  del_relation :: "string option"
  del_conditions :: "SqlCondition list"

record Updates =
  upd_relation :: "string option"
  upd_attribute :: "string option"
  upd_value :: Value
  upd_conditions :: "SqlCondition list"

record CreateTable =
  ct_relation :: "string option"
  ct_attributes :: "AttrInfo list"

record CreateIndex =
  ci_index :: "string option"
  ci_unique :: int
  ci_relation :: "string option"
  ci_attributes :: "string option list"

record LoadData =
  ld_relation :: "string option"
  ld_file :: "string option"

text \<open>\<^verbatim>\<open>Query\<close>: the flag selects the member of the union.\<close>

datatype Query =
    SCF_ERROR | SCF_SELECT Selects | SCF_INSERT Inserts | SCF_UPDATE Updates | SCF_DELETE Deletes
  | SCF_CREATE_TABLE CreateTable | SCF_DROP_TABLE "string option" | SCF_CREATE_INDEX CreateIndex
  | SCF_DROP_INDEX "string option" | SCF_SYNC | SCF_SHOW_TABLES | SCF_DESC_TABLE "string option"
  | SCF_BEGIN | SCF_COMMIT | SCF_ROLLBACK | SCF_LOAD_DATA LoadData | SCF_HELP | SCF_EXIT

section \<open>Attributes, aggregates and expressions\<close>

definition relation_attr_init :: "string option \<Rightarrow> string \<Rightarrow> RelAttr" where
  "relation_attr_init relation attr = \<lparr>relation_name = relation, attribute_name = Some attr\<rparr>"

definition relation_attr_destroy :: "RelAttr \<Rightarrow> RelAttr" where
  "relation_attr_destroy a = \<lparr>relation_name = None, attribute_name = None\<rparr>"

definition newast :: "NodeType \<Rightarrow> ast \<Rightarrow> ast \<Rightarrow> ast" where
  "newast ty l r = OpNode ty 0 0 l r"

definition newvalNode :: "Value \<Rightarrow> ast" where
  "newvalNode v = ValNode 0 0 v"

definition newattrNode :: "RelAttr \<Rightarrow> ast" where
  "newattrNode a = AttrNode 0 0 a"

text \<open>\<open>agg\<close> is the uninitialised structure.\<close>

definition relation_aggre_init ::
  "Aggregate \<Rightarrow> AggreType \<Rightarrow> int \<Rightarrow> string option \<Rightarrow> string \<Rightarrow> Value \<Rightarrow> Aggregate" where
  "relation_aggre_init agg ty is_attr relation attr v =
     (let agg = agg\<lparr>aggre_type := ty, aggre_is_attr := is_attr\<rparr>
      in if is_attr = 1 then agg\<lparr>aggre_attr := relation_attr_init relation attr\<rparr>
         else agg\<lparr>aggre_value := v\<rparr>)"

text \<open>The value of a negated constant is read from the operator node itself as if it were a
  \<^verbatim>\<open>valnode\<close>.\<close>

definition relation_aggre_init_with_exp :: "Aggregate \<Rightarrow> AggreType \<Rightarrow> ast \<Rightarrow> Aggregate result" where
  "relation_aggre_init_with_exp agg ty a =
     (let agg = agg\<lparr>aggre_type := ty, aggre_is_attr := 0\<rparr> in
      case a of
        NullNode \<Rightarrow> Inl UB
      | OpNode op _ _ _ _ \<Rightarrow> if op = SUBN \<or> op = VALN \<or> op = ATTRN then Inl UB else Inr agg
      | ValNode _ _ v \<Rightarrow> Inr (agg\<lparr>aggre_value := v\<rparr>)
      | AttrNode _ _ r \<Rightarrow>
          (case attribute_name r of
             None \<Rightarrow> Inl UB
           | Some n \<Rightarrow> Inr (agg\<lparr>aggre_is_attr := 1, aggre_attr := relation_attr_init (relation_name r) n\<rparr>)))"

definition relation_aggre_destroy :: "Aggregate \<Rightarrow> Aggregate" where
  "relation_aggre_destroy agg = agg\<lparr>aggre_attr := relation_attr_destroy (aggre_attr agg)\<rparr>"

text \<open>A constant, or a constant behind a minus sign, which is negated in place.\<close>

definition negate_value :: "Value \<Rightarrow> Value result" where
  "negate_value v =
     (case vdata v of
        None \<Rightarrow> Inl UB
      | Some d \<Rightarrow>
          if vtype v = INTS then
            if int32 (- get_int d 0) then Inr (v\<lparr>vdata := Some (put_int d 0 (- get_int d 0))\<rparr>) else Inl UB
          else if vtype v = FLOATS then Inr (v\<lparr>vdata := Some (put32 d 0 (f_minus (get32 d 0)))\<rparr>)
          else Inl UB)"

definition context_value_init :: "ast \<Rightarrow> Value result" where
  "context_value_init a =
     (case a of
        ValNode _ _ v \<Rightarrow> Inr v
      | OpNode op _ _ _ (ValNode _ _ v) \<Rightarrow> if op = SUBN then negate_value v else Inl UB
      | _ \<Rightarrow> Inl UB)"

section \<open>Conditions\<close>

text \<open>\<open>c\<close> is the uninitialised structure; what a side does not use keeps its old contents.\<close>

definition condition_side :: "ast \<Rightarrow> Selects option \<Rightarrow> (int \<times> RelAttr option \<times> Value option \<times> ast) result" where
  "condition_side a sel =
     (if sel \<noteq> None then Inr (0, None, None, NullNode)
      else case a of
             NullNode \<Rightarrow> Inl UB
           | AttrNode _ _ r \<Rightarrow> Inr (1, Some r, None, NullNode)
           | ValNode _ _ v \<Rightarrow> Inr (0, None, Some v, NullNode)
           | OpNode op _ _ _ _ \<Rightarrow> if op = VALN \<or> op = ATTRN then Inl UB else Inr (0, None, None, a))"

definition condition_init ::
  "Condition \<Rightarrow> CompOp \<Rightarrow> ast \<Rightarrow> ast \<Rightarrow> Selects option \<Rightarrow> Selects option \<Rightarrow> SqlCondition result" where
  "condition_init c op l r ls rs =
     (case condition_side l ls of
        Inl e \<Rightarrow> Inl e
      | Inr (l_attr, la, lv, l_ast) \<Rightarrow>
          (case condition_side r rs of
             Inl e \<Rightarrow> Inl e
           | Inr (r_attr, ra, rv, r_ast) \<Rightarrow>
               Inr (SqlCondition
                 \<lparr>left_is_attr = l_attr,
                  left_value = (case lv of Some v \<Rightarrow> v | None \<Rightarrow> (left_value c)\<lparr>vdata := None\<rparr>),
                  left_attr = (case la of Some a \<Rightarrow> a | None \<Rightarrow> left_attr c),
                  comp = op,
                  right_is_attr = r_attr,
                  right_value = (case rv of Some v \<Rightarrow> v | None \<Rightarrow> (right_value c)\<lparr>vdata := None\<rparr>),
                  right_attr = (case ra of Some a \<Rightarrow> a | None \<Rightarrow> right_attr c)\<rparr>
                 l_ast r_ast ls rs)))"

definition condition_destroy :: "SqlCondition \<Rightarrow> SqlCondition" where
  "condition_destroy sc =
     (let c = sc_cond sc;
          c = (if left_is_attr c \<noteq> 0 then c\<lparr>left_attr := relation_attr_destroy (left_attr c)\<rparr>
               else c\<lparr>left_value := value_destroy (left_value c)\<rparr>);
          c = (if right_is_attr c \<noteq> 0 then c\<lparr>right_attr := relation_attr_destroy (right_attr c)\<rparr>
               else c\<lparr>right_value := value_destroy (right_value c)\<rparr>)
      in SqlCondition c (sc_left_ast sc) (sc_right_ast sc) (sc_left_selects sc) (sc_right_selects sc))"

section \<open>\<^verbatim>\<open>Selects\<close>\<close>

definition put_item :: "'a list \<Rightarrow> 'a \<Rightarrow> 'a list result" where
  "put_item xs x = (if length xs < MAX_NUM then Inr (xs @ [x]) else Inl UB)"

definition set_items :: "'a list \<Rightarrow> 'a list result" where
  "set_items xs = (if length xs \<le> MAX_NUM then Inr xs else Inl UB)"

definition selects_empty :: Selects where
  "selects_empty = Selects [] [] [] [] [] [] [] []"

fun selects_append_attribute :: "Selects \<Rightarrow> RelAttr \<Rightarrow> Selects result" where
  "selects_append_attribute (Selects ag ats ex re jo co ob gb) a =
     map_sum id (\<lambda>xs. Selects ag xs ex re jo co ob gb) (put_item ats a)"

fun selects_append_aggregate :: "Selects \<Rightarrow> Aggregate \<Rightarrow> Selects result" where
  "selects_append_aggregate (Selects ag ats ex re jo co ob gb) a =
     map_sum id (\<lambda>xs. Selects xs ats ex re jo co ob gb) (put_item ag a)"

fun selects_append_relation :: "Selects \<Rightarrow> string \<Rightarrow> Selects result" where
  "selects_append_relation (Selects ag ats ex re jo co ob gb) r =
     map_sum id (\<lambda>xs. Selects ag ats ex xs jo co ob gb) (put_item re (Some r))"

fun selects_append_conditions :: "Selects \<Rightarrow> SqlCondition list \<Rightarrow> Selects result" where
  "selects_append_conditions (Selects ag ats ex re jo co ob gb) cs =
     map_sum id (\<lambda>xs. Selects ag ats ex re jo xs ob gb) (set_items cs)"

fun selects_append_order :: "Selects \<Rightarrow> RelAttr \<Rightarrow> int \<Rightarrow> Selects result" where
  "selects_append_order (Selects ag ats ex re jo co ob gb) a order =
     map_sum id (\<lambda>xs. Selects ag ats ex re jo co xs gb) (put_item ob (a, order))"

fun selects_append_group :: "Selects \<Rightarrow> RelAttr \<Rightarrow> Selects result" where
  "selects_append_group (Selects ag ats ex re jo co ob gb) a =
     map_sum id (\<lambda>xs. Selects ag ats ex re jo co ob xs) (put_item gb a)"

fun selects_append_joins ::
  "Selects \<Rightarrow> (JoinType \<times> string option \<times> SqlCondition list) list \<Rightarrow> Selects result" where
  "selects_append_joins s [] = Inr s"
| "selects_append_joins (Selects ag ats ex re jo co ob gb) (j # js) =
     (case put_item jo j of
        Inl c \<Rightarrow> Inl c
      | Inr jo \<Rightarrow> selects_append_joins (Selects ag ats ex re jo co ob gb) js)"

definition join_init :: "JoinType \<Rightarrow> string \<Rightarrow> SqlCondition list \<Rightarrow> (JoinType \<times> string option \<times> SqlCondition list) result" where
  "join_init ty relation cs = map_sum id (\<lambda>cs. (ty, Some relation, cs)) (set_items cs)"

definition join_destroy :: "JoinType \<times> string option \<times> SqlCondition list \<Rightarrow> JoinType \<times> string option \<times> SqlCondition list" where
  "join_destroy j = (case j of (ty, _, cs) \<Rightarrow> (ty, None, map condition_destroy cs))"

fun selects_append_attribute_expression :: "Selects \<Rightarrow> ast \<Rightarrow> Selects result" where
  "selects_append_attribute_expression s (AttrNode _ _ a) = selects_append_attribute s a"
| "selects_append_attribute_expression s NullNode = Inl UB"
| "selects_append_attribute_expression (Selects ag ats ex re jo co ob gb) a =
     map_sum id (\<lambda>xs. Selects ag ats xs re jo co ob gb) (put_item ex a)"

text \<open>\<^verbatim>\<open>clear_selects\<close> and \<^verbatim>\<open>selects_destroy\<close>: the first keeps the number of expressions, the
  second also that of the aggregates.\<close>

fun clear_selects :: "Selects \<Rightarrow> Selects" where
  "clear_selects (Selects ag ats ex re jo co ob gb) = Selects [] [] ex [] [] [] [] []"

fun selects_destroy :: "Selects \<Rightarrow> Selects" where
  "selects_destroy (Selects ag ats ex re jo co ob gb) =
     Selects (map relation_aggre_destroy ag) [] ex [] [] [] [] []"

section \<open>The other statements\<close>

definition inserts_init :: "string \<Rightarrow> Inserts \<Rightarrow> Inserts" where
  "inserts_init relation i = i\<lparr>ins_relation := Some relation\<rparr>"

text \<open>\<^verbatim>\<open>inserts_append_values\<close> writes the row \<open>n\<close> and counts one row more; the grammar passes the
  number of rows so far.\<close>

definition inserts_append_values :: "Inserts \<Rightarrow> nat \<Rightarrow> Value list \<Rightarrow> Inserts result" where
  "inserts_append_values i n vs =
     (if n < MAX_NUM \<and> length vs < MAX_NUM \<and> n = length (ins_pairs i)
      then Inr (i\<lparr>ins_pairs := ins_pairs i @ [vs]\<rparr>) else Inl UB)"

definition inserts_destroy :: "Inserts \<Rightarrow> Inserts" where
  "inserts_destroy i = \<lparr>ins_relation = None, ins_pairs = []\<rparr>"

definition deletes_init_relation :: "string \<Rightarrow> Deletes \<Rightarrow> Deletes" where
  "deletes_init_relation relation d = d\<lparr>del_relation := Some relation\<rparr>"

definition deletes_set_conditions :: "Deletes \<Rightarrow> SqlCondition list \<Rightarrow> Deletes result" where
  "deletes_set_conditions d cs = map_sum id (\<lambda>cs. d\<lparr>del_conditions := cs\<rparr>) (set_items cs)"

definition deletes_destroy :: "Deletes \<Rightarrow> Deletes" where
  "deletes_destroy d = \<lparr>del_relation = None, del_conditions = []\<rparr>"

definition updates_init :: "string \<Rightarrow> string \<Rightarrow> Value \<Rightarrow> SqlCondition list \<Rightarrow> Updates result" where
  "updates_init relation attr v cs =
     map_sum id (\<lambda>cs. \<lparr>upd_relation = Some relation, upd_attribute = Some attr, upd_value = v, upd_conditions = cs\<rparr>)
       (set_items cs)"

definition updates_destroy :: "Updates \<Rightarrow> Updates" where
  "updates_destroy u =
     \<lparr>upd_relation = None, upd_attribute = None, upd_value = value_destroy (upd_value u), upd_conditions = []\<rparr>"

definition create_table_append_attribute :: "CreateTable \<Rightarrow> AttrInfo \<Rightarrow> CreateTable result" where
  "create_table_append_attribute c a = map_sum id (\<lambda>xs. c\<lparr>ct_attributes := xs\<rparr>) (put_item (ct_attributes c) a)"

definition create_table_init_name :: "CreateTable \<Rightarrow> string \<Rightarrow> CreateTable" where
  "create_table_init_name c relation = c\<lparr>ct_relation := Some relation\<rparr>"

definition create_table_destroy :: "CreateTable \<Rightarrow> CreateTable" where
  "create_table_destroy c = \<lparr>ct_relation = None, ct_attributes = []\<rparr>"

definition create_index_init :: "int \<Rightarrow> string \<Rightarrow> string \<Rightarrow> CreateIndex \<Rightarrow> CreateIndex" where
  "create_index_init unique index relation c =
     c\<lparr>ci_unique := unique, ci_index := Some index, ci_relation := Some relation\<rparr>"

definition create_index_append_attribute :: "CreateIndex \<Rightarrow> string \<Rightarrow> CreateIndex result" where
  "create_index_append_attribute c attr = map_sum id (\<lambda>xs. c\<lparr>ci_attributes := xs\<rparr>) (put_item (ci_attributes c) (Some attr))"

definition create_index_destroy :: "CreateIndex \<Rightarrow> CreateIndex" where
  "create_index_destroy c = c\<lparr>ci_index := None, ci_relation := None, ci_attributes := []\<rparr>"

text \<open>\<^verbatim>\<open>load_data_init\<close> takes a quote off each end of the file name.\<close>

definition is_quote :: "char \<Rightarrow> bool" where
  "is_quote c \<longleftrightarrow> c = CHR 0x27 \<or> c = CHR 0x22"

definition load_data_init :: "string \<Rightarrow> string \<Rightarrow> LoadData result" where
  "load_data_init relation file =
     (let f = (if file \<noteq> [] \<and> is_quote (hd file) then tl file else file)
      in if f = [] then Inl UB
         else Inr \<lparr>ld_relation = Some relation, ld_file = Some (if is_quote (last f) then butlast f else f)\<rparr>)"

definition load_data_destroy :: "LoadData \<Rightarrow> LoadData" where
  "load_data_destroy l = \<lparr>ld_relation = None, ld_file = None\<rparr>"

definition attr_info_destroy :: "AttrInfo \<Rightarrow> AttrInfo" where
  "attr_info_destroy a = a\<lparr>ai_name := None\<rparr>"

definition drop_table_init :: "string \<Rightarrow> string option \<Rightarrow> string option" where
  "drop_table_init relation d = Some relation"

definition drop_table_destroy :: "string option \<Rightarrow> string option" where
  "drop_table_destroy d = None"

definition drop_index_init :: "string \<Rightarrow> string option \<Rightarrow> string option" where
  "drop_index_init index d = Some index"

definition drop_index_destroy :: "string option \<Rightarrow> string option" where
  "drop_index_destroy d = None"

definition desc_table_init :: "string \<Rightarrow> string option \<Rightarrow> string option" where
  "desc_table_init relation d = Some relation"

definition desc_table_destroy :: "string option \<Rightarrow> string option" where
  "desc_table_destroy d = None"

definition query_init :: "Query \<Rightarrow> Query" where
  "query_init q = SCF_ERROR"

fun query_reset :: "Query \<Rightarrow> Query" where
  "query_reset (SCF_SELECT s) = SCF_SELECT (selects_destroy s)"
| "query_reset (SCF_INSERT i) = SCF_INSERT (inserts_destroy i)"
| "query_reset (SCF_DELETE d) = SCF_DELETE (deletes_destroy d)"
| "query_reset (SCF_UPDATE u) = SCF_UPDATE (updates_destroy u)"
| "query_reset (SCF_CREATE_TABLE c) = SCF_CREATE_TABLE (create_table_destroy c)"
| "query_reset (SCF_DROP_TABLE t) = SCF_DROP_TABLE (drop_table_destroy t)"
| "query_reset (SCF_CREATE_INDEX c) = SCF_CREATE_INDEX (create_index_destroy c)"
| "query_reset (SCF_DROP_INDEX i) = SCF_DROP_INDEX (drop_index_destroy i)"
| "query_reset (SCF_DESC_TABLE t) = SCF_DESC_TABLE (desc_table_destroy t)"
| "query_reset (SCF_LOAD_DATA l) = SCF_LOAD_DATA (load_data_destroy l)"
| "query_reset q = q"

section \<open>Lemmas\<close>

text \<open>Every side of a condition is exactly one of a subquery, a column, a constant and an
  expression, as the flags and pointers that the executors test tell them apart.\<close>

theorem condition_init_sides:
  assumes "condition_init c op l r ls rs = Inr sc"
  defines "k \<equiv> sc_cond sc"
  shows "comp k = op \<and> sc_left_selects sc = ls \<and> sc_right_selects sc = rs \<and>
    (left_is_attr k = 1 \<longleftrightarrow> ls = None \<and> (\<exists>i j a. l = AttrNode i j a \<and> left_attr k = a)) \<and>
    (sc_left_ast sc \<noteq> NullNode \<longleftrightarrow> ls = None \<and> sc_left_ast sc = l \<and> (\<exists>op i j x y. l = OpNode op i j x y)) \<and>
    (ls = None \<and> left_is_attr k \<noteq> 1 \<and> sc_left_ast sc = NullNode \<longrightarrow> (\<exists>i j v. l = ValNode i j v \<and> left_value k = v)) \<and>
    (right_is_attr k = 1 \<longleftrightarrow> rs = None \<and> (\<exists>i j a. r = AttrNode i j a \<and> right_attr k = a)) \<and>
    (sc_right_ast sc \<noteq> NullNode \<longleftrightarrow> rs = None \<and> sc_right_ast sc = r \<and> (\<exists>op i j x y. r = OpNode op i j x y)) \<and>
    (rs = None \<and> right_is_attr k \<noteq> 1 \<and> sc_right_ast sc = NullNode \<longrightarrow> (\<exists>i j v. r = ValNode i j v \<and> right_value k = v))"
  using assms(1) unfolding k_def condition_init_def condition_side_def
  by (auto split: if_splits ast.splits option.splits)

lemma condition_init_sides_witness:
  "\<forall>c. \<exists>sc. condition_init c LESS_THAN (newattrNode (relation_attr_init None ''a'')) (newvalNode value_init_null) None None = Inr sc \<and>
    comp (sc_cond sc) = LESS_THAN \<and> left_is_attr (sc_cond sc) = 1 \<and> right_is_attr (sc_cond sc) \<noteq> 1 \<and> sc_right_ast sc = NullNode"
proof
  fix c
  have "\<exists>sc. condition_init c LESS_THAN (newattrNode (relation_attr_init None ''a'')) (newvalNode value_init_null) None None = Inr sc"
    by (simp add: condition_init_def condition_side_def newattrNode_def newvalNode_def)
  then obtain sc where
    "condition_init c LESS_THAN (newattrNode (relation_attr_init None ''a'')) (newvalNode value_init_null) None None = Inr sc" ..
  from condition_init_sides [OF this] this
  show "\<exists>sc. condition_init c LESS_THAN (newattrNode (relation_attr_init None ''a'')) (newvalNode value_init_null) None None = Inr sc \<and>
    comp (sc_cond sc) = LESS_THAN \<and> left_is_attr (sc_cond sc) = 1 \<and> right_is_attr (sc_cond sc) \<noteq> 1 \<and> sc_right_ast sc = NullNode"
    by (auto simp: newattrNode_def newvalNode_def)
qed

end
