(* ===== verification/Aggregate.thy ===== *)
theory Aggregate
  imports Tuple_Filter Query
begin

text \<open>
  Aggregation: \<^verbatim>\<open>src/src/observer/sql/executor/aggregate_execution_node.h\<close> and
  \<^verbatim>\<open>.cpp\<close>, shared by \<^verbatim>\<open>agg_executor.cpp\<close>.  The \<^verbatim>\<open>std::map\<close> from keys to aggregates is
  a list in the order of the keys; a key that cannot be compared makes the search fail wherever it
  is.
\<close>

section \<open>Keys and values\<close>

fun key_less :: "TupleValue list \<Rightarrow> TupleValue list \<Rightarrow> bool result" where
  "key_less as [] = Inr False"
| "key_less [] (b # bs) = Inl UB"
| "key_less (a # as) (b # bs) =
     (case tv_compare a b of
        Inl c \<Rightarrow> Inl c
      | Inr ret \<Rightarrow> if ret \<noteq> 0 then Inr (ret < 0) else key_less as bs)"

type_synonym AggregateValue = "TupleValue list \<times> int list"

type_synonym AggTable = "(TupleValue list \<times> AggregateValue) list"

fun initial_values :: "AggreDesc list \<Rightarrow> TupleValue list result" where
  "initial_values [] = Inr []"
| "initial_values (d # ds) =
     (if ag_type d = UNDEFINEDAGG then Inl UB
      else map_sum id ((#) (if ag_type d = COUNTS then FloatValue (float_of_int 0) else NullValue)) (initial_values ds))"

definition GenerateInitialAggregateValue :: "AggreDesc list \<Rightarrow> AggregateValue result" where
  "GenerateInitialAggregateValue ds = map_sum id (\<lambda>vs. (vs, map (\<lambda>_. 0) ds)) (initial_values ds)"

text \<open>One aggregate: a null changes nothing; any other value is counted.\<close>

definition add_to_sum :: "TupleValue \<Rightarrow> TupleValue \<Rightarrow> TupleValue result" where
  "add_to_sum v x =
     (case tv_value x of
        Inl c \<Rightarrow> Inl c
      | Inr f \<Rightarrow> tv_plus (if tv_type v = UNDEFINED then FloatValue (float_of_int 0) else v) f)"

definition keep_best :: "(int \<Rightarrow> bool) \<Rightarrow> TupleValue \<Rightarrow> TupleValue \<Rightarrow> TupleValue result" where
  "keep_best better v x =
     (if tv_type v = UNDEFINED then Inr x
      else map_sum id (\<lambda>r. if better r then x else v) (tv_compare x v))"

definition combine_one :: "AggreDesc \<Rightarrow> TupleValue \<times> int \<Rightarrow> TupleValue \<Rightarrow> (TupleValue \<times> int) result" where
  "combine_one d vc x =
     (case vc of (v, c) \<Rightarrow>
        if tv_type x = UNDEFINED then Inr (v, c)
        else if \<not> int32 (c + 1) then Inl UB
        else map_sum id (\<lambda>v. (v, c + 1))
               (case ag_type d of
                  COUNTS \<Rightarrow> tv_plus v (float_of_int 1)
                | SUMS \<Rightarrow> add_to_sum v x
                | AVGS \<Rightarrow> add_to_sum v x
                | MAXS \<Rightarrow> keep_best (\<lambda>r. r > 0) v x
                | MINS \<Rightarrow> keep_best (\<lambda>r. r < 0) v x
                | UNDEFINEDAGG \<Rightarrow> Inl UB))"

fun CombineAggregateValues :: "AggreDesc list \<Rightarrow> AggregateValue \<Rightarrow> TupleValue list \<Rightarrow> AggregateValue result" where
  "CombineAggregateValues [] vc xs = Inr ([], [])"
| "CombineAggregateValues (d # ds) (v # vs, c # cs) (x # xs) =
     (case combine_one d (v, c) x of
        Inl e \<Rightarrow> Inl e
      | Inr (v, c) \<Rightarrow> map_sum id (\<lambda>(vs, cs). (v # vs, c # cs)) (CombineAggregateValues ds (vs, cs) xs))"
| "CombineAggregateValues _ _ _ = Inl UB"

text \<open>\<^verbatim>\<open>InsertCombine\<close>: \<open>init\<close> is the value of a new key, \<open>comb\<close> the combination.\<close>

fun insert_combine ::
  "('k \<Rightarrow> 'k \<Rightarrow> bool result) \<Rightarrow> ('v \<Rightarrow> 'v result) \<Rightarrow> 'v result \<Rightarrow> 'k \<Rightarrow> ('k \<times> 'v) list \<Rightarrow> ('k \<times> 'v) list result" where
  "insert_combine lt comb init k [] =
     (case init of Inl c \<Rightarrow> Inl c | Inr v \<Rightarrow> map_sum id (\<lambda>v. [(k, v)]) (comb v))"
| "insert_combine lt comb init k ((k', v') # ht) =
     (case lt k k' of
        Inl c \<Rightarrow> Inl c
      | Inr True \<Rightarrow> (case init of Inl c \<Rightarrow> Inl c | Inr v \<Rightarrow> map_sum id (\<lambda>v. (k, v) # (k', v') # ht) (comb v))
      | Inr False \<Rightarrow>
          (case lt k' k of
             Inl c \<Rightarrow> Inl c
           | Inr True \<Rightarrow> map_sum id ((#) (k', v')) (insert_combine lt comb init k ht)
           | Inr False \<Rightarrow> map_sum id (\<lambda>v. (k', v) # ht) (comb v')))"

definition InsertCombine :: "AggreDesc list \<Rightarrow> TupleValue list \<Rightarrow> TupleValue list \<Rightarrow> AggTable \<Rightarrow> AggTable result" where
  "InsertCombine ds key val ht =
     insert_combine key_less (\<lambda>v. CombineAggregateValues ds v val) (GenerateInitialAggregateValue ds) key ht"

section \<open>The tuples of a set\<close>

fun MakeKey :: "field_index \<Rightarrow> TupleField list \<Rightarrow> Tuple \<Rightarrow> TupleValue list result" where
  "MakeKey fi [] t = Inr []"
| "MakeKey fi (f # fs) t =
     (case index_at fi (tf_table f) (tf_name f) of
        Inl c \<Rightarrow> Inl c
      | Inr i \<Rightarrow>
          (case tuple_get t i of
             Inl c \<Rightarrow> Inl c
           | Inr v \<Rightarrow> map_sum id ((#) v) (MakeKey fi fs t)))"

text \<open>\<open>dflt\<close> is the table of an aggregate without a table name, if there is one.\<close>

fun MakeVal :: "field_index \<Rightarrow> string option \<Rightarrow> AggreDesc list \<Rightarrow> Tuple \<Rightarrow> TupleValue list result" where
  "MakeVal fi dflt [] t = Inr []"
| "MakeVal fi dflt (d # ds) t =
     (case (if ag_is_attr d \<noteq> 0 then
              (case (if ag_relation d = None then dflt else ag_relation d, ag_attr d) of
                 (Some table, Some name) \<Rightarrow>
                   (case index_at fi table name of Inl c \<Rightarrow> Inl c | Inr i \<Rightarrow> tuple_get t i)
               | _ \<Rightarrow> Inl UB)
            else Inr (FloatValue (ag_value d))) of
        Inl c \<Rightarrow> Inl c
      | Inr v \<Rightarrow> map_sum id ((#) v) (MakeVal fi dflt ds t))"

fun foldE :: "('s \<Rightarrow> 'x \<Rightarrow> 's result) \<Rightarrow> 's \<Rightarrow> 'x list \<Rightarrow> 's result" where
  "foldE f s [] = Inr s"
| "foldE f s (x # xs) = (case f s x of Inl c \<Rightarrow> Inl c | Inr s \<Rightarrow> foldE f s xs)"

definition aggregate_tuple ::
  "field_index \<Rightarrow> string option \<Rightarrow> TupleField list \<Rightarrow> AggreDesc list \<Rightarrow> AggTable \<Rightarrow> Tuple \<Rightarrow> AggTable result" where
  "aggregate_tuple fi dflt gs ds ht t =
     (case MakeKey fi gs t of
        Inl c \<Rightarrow> Inl c
      | Inr key \<Rightarrow>
          (case MakeVal fi dflt ds t of
             Inl c \<Rightarrow> Inl c
           | Inr val \<Rightarrow> InsertCombine ds key val ht))"

fun final_values :: "AggreDesc list \<Rightarrow> AggregateValue \<Rightarrow> TupleValue list result" where
  "final_values ds ([], cs) = Inr []"
| "final_values (d # ds) (v # vs, c # cs) =
     (case (if ag_type d = AVGS \<and> tv_type v \<noteq> UNDEFINED
            then map_sum id (\<lambda>f. FloatValue (f_div f (float_of_int c))) (tv_value v) else Inr v) of
        Inl e \<Rightarrow> Inl e
      | Inr w \<Rightarrow> map_sum id ((#) w) (final_values ds (vs, cs)))"
| "final_values _ _ = Inl UB"

fun output_rows :: "AggreDesc list \<Rightarrow> AggTable \<Rightarrow> Tuple list result" where
  "output_rows ds [] = Inr []"
| "output_rows ds ((k, v) # ht) =
     (case final_values ds v of
        Inl c \<Rightarrow> Inl c
      | Inr ws \<Rightarrow> map_sum id ((#) (k @ ws)) (output_rows ds ht))"

definition aggregate_tuples ::
  "field_index \<Rightarrow> string option \<Rightarrow> TupleField list \<Rightarrow> AggreDesc list \<Rightarrow> Tuple list \<Rightarrow> Tuple list result" where
  "aggregate_tuples fi dflt gs ds ts =
     (case foldE (aggregate_tuple fi dflt gs ds) [] ts of
        Inl c \<Rightarrow> Inl c
      | Inr ht \<Rightarrow> output_rows ds ht)"

section \<open>\<^verbatim>\<open>AggregationExeNode\<close>\<close>

record AggregationExeNode =
  an_table :: TableMeta
  an_group_bys :: TupleSchema
  an_aggs :: "AggreDesc list"
  an_set :: TupleSet

definition aggregation_init :: "TableMeta \<Rightarrow> TupleSchema \<Rightarrow> TupleSet \<Rightarrow> AggregationExeNode" where
  "aggregation_init tm group_bys tuple_set =
     \<lparr>an_table = tm, an_group_bys = group_bys, an_aggs = ts_aggs group_bys,
      an_set = fst (set_move_assign TupleSet_new tuple_set)\<rparr>"

definition aggregation_execute :: "AggregationExeNode \<Rightarrow> TupleSet result" where
  "aggregation_execute n =
     (if set_tuples (an_set n) = [] then Inr \<lparr>set_tuples = [], set_schema = an_group_bys n\<rparr>
      else
        case table_field_index (set_schema (an_set n)) of
          Inl c \<Rightarrow> Inl c
        | Inr (fi, _) \<Rightarrow>
            map_sum id (\<lambda>rows. \<lparr>set_tuples = rows, set_schema = an_group_bys n\<rparr>)
              (aggregate_tuples fi (Some (tm_name (an_table n))) (ts_fields (an_group_bys n)) (an_aggs n)
                (set_tuples (an_set n))))"

end
