(* ===== verification/Aggregate_Spec.thy ===== *)
theory Aggregate_Spec
  imports Aggregate
begin

text \<open>
  The map of the aggregation is a grouping: over keys that the comparison orders, the table after
  any sequence of tuples holds every key once, in order, with the combination of its own values in
  their order.
\<close>

section \<open>Grouping by ordered keys\<close>

text \<open>\<open>lt\<close> as the map calls it decides a strict linear order \<open>below\<close> on the keys of \<open>K\<close>.\<close>

locale ordered_keys =
  fixes K :: "'k set" and lt :: "'k \<Rightarrow> 'k \<Rightarrow> bool result" and below :: "'k \<Rightarrow> 'k \<Rightarrow> bool"
  assumes lt_below: "a \<in> K \<Longrightarrow> b \<in> K \<Longrightarrow> lt a b = Inr (below a b)"
    and below_irrefl: "a \<in> K \<Longrightarrow> \<not> below a a"
    and below_trans: "a \<in> K \<Longrightarrow> b \<in> K \<Longrightarrow> c \<in> K \<Longrightarrow> below a b \<Longrightarrow> below b c \<Longrightarrow> below a c"
    and below_total: "a \<in> K \<Longrightarrow> b \<in> K \<Longrightarrow> a \<noteq> b \<Longrightarrow> below a b \<or> below b a"
begin

definition table_ok :: "('k \<times> 'v) list \<Rightarrow> bool" where
  "table_ok ht \<longleftrightarrow> sorted_wrt below (map fst ht) \<and> fst ` set ht \<subseteq> K"

lemma table_ok_Cons:
  "table_ok ((k, v) # ht) \<longleftrightarrow> k \<in> K \<and> (\<forall>k' \<in> fst ` set ht. below k k') \<and> table_ok ht"
  by (auto simp: table_ok_def)

lemma table_ok_distinct: "table_ok ht \<Longrightarrow> distinct (map fst ht)"
proof (induction ht)
  case (Cons p ht)
  then show ?case using below_irrefl by (cases p) (force simp: table_ok_Cons)
qed simp

lemma table_ok_notin: "table_ok ht \<Longrightarrow> k \<in> K \<Longrightarrow> \<forall>k' \<in> fst ` set ht. below k k' \<Longrightarrow> map_of ht k = None"
  using below_irrefl by (force simp: map_of_eq_None_iff table_ok_def)

lemma insert_combine_correct:
  assumes "table_ok ht" "k \<in> K"
    and "(case map_of ht k of Some v \<Rightarrow> Inr v | None \<Rightarrow> init) = Inr u" "comb u = Inr w"
  shows "\<exists>ht'. insert_combine lt comb init k ht = Inr ht' \<and> table_ok ht' \<and> map_of ht' = (map_of ht)(k \<mapsto> w) \<and>
    fst ` set ht' = insert k (fst ` set ht)"
  using assms
proof (induction ht)
  case Nil
  then show ?case by (auto simp: table_ok_def)
next
  case (Cons p ht)
  obtain k' v' where p: "p = (k', v')" by fastforce
  have ok: "k' \<in> K" "\<forall>k'' \<in> fst ` set ht. below k' k''" "table_ok ht" using Cons.prems(1) p by (auto simp: table_ok_Cons)
  have K: "fst ` set ht \<subseteq> K" using ok(3) by (simp add: table_ok_def)
  consider "below k k'" "\<not> below k' k" "k \<noteq> k'" | "k = k'" "\<not> below k k'" | "below k' k" "\<not> below k k'" "k \<noteq> k'"
    using Cons.prems(2) ok(1) below_total below_irrefl below_trans by metis
  then show ?case
  proof cases
    case 1
    have all: "\<forall>k'' \<in> fst ` set (p # ht). below k k''"
    proof
      fix k'' assume "k'' \<in> fst ` set (p # ht)"
      then consider "k'' = k'" | "k'' \<in> fst ` set ht" using p by auto
      then show "below k k''"
      proof cases
        case 2
        then show ?thesis using below_trans [OF Cons.prems(2) ok(1) _ 1(1)] ok(2) K by blast
      qed (use 1 in simp)
    qed
    then have "map_of (p # ht) k = None" using Cons.prems(1,2) by (intro table_ok_notin) auto
    then have "init = Inr u" using Cons.prems(3) by simp
    then have "insert_combine lt comb init k (p # ht) = Inr ((k, w) # p # ht)"
      using 1 lt_below [OF Cons.prems(2) ok(1)] Cons.prems(4) p by simp
    moreover have "table_ok ((k, w) # p # ht)" using all Cons.prems(1,2) by (simp add: table_ok_Cons)
    ultimately show ?thesis by (intro exI [of _ "(k, w) # p # ht"]) (simp add: fun_eq_iff)
  next
    case 2
    then have "u = v'" using Cons.prems(3) p by simp
    then have "insert_combine lt comb init k (p # ht) = Inr ((k, w) # ht)"
      using 2 lt_below [OF ok(1) ok(1)] Cons.prems(4) p by simp
    moreover have "table_ok ((k, w) # ht)" using 2(1) ok by (simp add: table_ok_Cons)
    ultimately show ?thesis using p 2(1) by (intro exI [of _ "(k, w) # ht"]) (simp add: fun_eq_iff)
  next
    case 3
    have "(case map_of ht k of Some v \<Rightarrow> Inr v | None \<Rightarrow> init) = Inr u" using Cons.prems(3) p 3 by simp
    then obtain ht' where ht': "insert_combine lt comb init k ht = Inr ht'" "table_ok ht'"
      "map_of ht' = (map_of ht)(k \<mapsto> w)" "fst ` set ht' = insert k (fst ` set ht)"
      using Cons.IH [OF ok(3) Cons.prems(2) _ Cons.prems(4)] by blast
    have "table_ok ((k', v') # ht')" using ht' ok 3 by (auto simp: table_ok_Cons)
    moreover have "insert_combine lt comb init k (p # ht) = Inr ((k', v') # ht')"
      using 3 ht'(1) lt_below [OF Cons.prems(2) ok(1)] lt_below [OF ok(1) Cons.prems(2)] p by simp
    ultimately show ?thesis
      using ht'(3,4) 3(3) p by (intro exI [of _ "(k', v') # ht'"]) (auto simp: fun_eq_iff)
  qed
qed

text \<open>\<open>group k\<close>: the values that come with the key, in order.\<close>

definition group :: "('k \<times> 'x) list \<Rightarrow> 'k \<Rightarrow> 'x list" where
  "group kxs k = map snd (filter (\<lambda>p. fst p = k) kxs)"

lemma foldE_snoc: "foldE f s (xs @ [x]) = (case foldE f s xs of Inl c \<Rightarrow> Inl c | Inr s \<Rightarrow> f s x)"
  by (induction xs arbitrary: s) (auto split: sum.splits)

lemma foldE_prefix: "foldE f s (xs @ ys) = Inr t \<Longrightarrow> \<exists>u. foldE f s xs = Inr u"
  by (induction xs arbitrary: s) (auto split: sum.splits)

lemma insert_all:
  assumes "fst ` set kxs \<subseteq> K" "init = Inr i"
    and "\<And>k. k \<in> fst ` set kxs \<Longrightarrow> foldE comb i (group kxs k) = Inr (res k)"
  shows "\<exists>ht. foldE (\<lambda>ht (k, x). insert_combine lt (\<lambda>v. comb v x) init k ht) [] kxs = Inr ht \<and>
    table_ok ht \<and> fst ` set ht = fst ` set kxs \<and> (\<forall>(k, v) \<in> set ht. v = res k)"
  using assms
proof (induction kxs arbitrary: res rule: rev_induct)
  case Nil
  then show ?case by (simp add: table_ok_def)
next
  case (snoc p kxs)
  obtain k x where p: "p = (k, x)" by fastforce
  have gr: "group (kxs @ [p]) k' = group kxs k' @ (if k' = k then [x] else [])" for k'
    by (simp add: group_def p)
  define res' where "res' k' = projr (foldE comb i (group kxs k'))" for k'
  have res': "foldE comb i (group kxs k') = Inr (res' k')" if "k' \<in> fst ` set kxs \<union> {k}" for k'
  proof -
    have "foldE comb i (group (kxs @ [p]) k') = Inr (res k')" using that snoc.prems(3) p by auto
    then show ?thesis using foldE_prefix gr by (fastforce simp: res'_def)
  qed
  then obtain ht where ht: "foldE (\<lambda>ht (k, x). insert_combine lt (\<lambda>v. comb v x) init k ht) [] kxs = Inr ht"
    "table_ok ht" "fst ` set ht = fst ` set kxs" "\<forall>(k, v) \<in> set ht. v = res' k"
    using snoc.IH [of res'] snoc.prems(1,2) by auto
  have look: "(case map_of ht k of Some v \<Rightarrow> Inr v | None \<Rightarrow> init) = Inr (res' k)"
  proof (cases "map_of ht k")
    case None
    then have "group kxs k = []" using ht(3) by (auto simp: map_of_eq_None_iff group_def filter_empty_conv image_iff)
    then show ?thesis using None snoc.prems(2) by (simp add: res'_def)
  next
    case (Some v)
    then show ?thesis using ht(4) by (auto dest: map_of_SomeD)
  qed
  have "foldE comb i (group kxs k @ [x]) = Inr (res k)" using snoc.prems(3) [of k] p gr by simp
  then have step: "comb (res' k) x = Inr (res k)" using res' [of k] by (simp add: foldE_snoc)
  have k: "k \<in> K" using snoc.prems(1) p by auto
  obtain ht' where ht': "insert_combine lt (\<lambda>v. comb v x) init k ht = Inr ht'" "table_ok ht'"
    "map_of ht' = (map_of ht)(k \<mapsto> res k)" "fst ` set ht' = insert k (fst ` set ht)"
    using insert_combine_correct [OF ht(2) k look, of "\<lambda>v. comb v x", OF step] by blast
  have "v = res k'" if "(k', v) \<in> set ht'" for k' v
  proof -
    have "distinct (map fst ht')"
      using ht'(2) by (rule table_ok_distinct)
    then have v: "map_of ht' k' = Some v" using that by simp
    show ?thesis
    proof (cases "k' = k")
      case True
      then show ?thesis using v ht'(3) by simp
    next
      case False
      then have m: "(k', v) \<in> set ht" using v ht'(3) by (auto dest: map_of_SomeD)
      then have "k' \<in> fst ` set kxs" using ht(3) by (metis fst_conv image_eqI)
      then have "foldE comb i (group (kxs @ [p]) k') = Inr (res k')" by (intro snoc.prems(3)) simp
      then have "res' k' = res k'" using res' [of k'] False gr [of k'] \<open>k' \<in> fst ` set kxs\<close> by simp
      then show ?thesis using m ht(4) by auto
    qed
  qed
  then show ?case using ht(1,3) ht'(1,2,4) p by (auto simp: foldE_snoc)
qed

end

section \<open>Columns of integers and strings\<close>

text \<open>\<open>col_ok ty\<close>: the values of a column without nulls; integers are bounded so that their difference is
  an \<^verbatim>\<open>int\<close>.\<close>

fun col_ok :: "AttrType \<Rightarrow> TupleValue \<Rightarrow> bool" where
  "col_ok INTS (IntValue i) \<longleftrightarrow> \<bar>i\<bar> < 2 ^ 30"
| "col_ok CHARS (StringValue ty s) \<longleftrightarrow> ty = CHARS"
| "col_ok DATES (StringValue ty s) \<longleftrightarrow> ty = CHARS"
| "col_ok _ _ \<longleftrightarrow> False"

lemma lexcmp_sign: "lexcmp xs ys \<in> {- 1, 0, 1}" "lexcmp ys xs = - lexcmp xs ys"
  by (induction xs ys rule: lexcmp.induct) auto

lemma lexcmp_trans: "lexcmp xs ys < 0 \<Longrightarrow> lexcmp ys zs < 0 \<Longrightarrow> lexcmp xs zs < 0"
proof (induction xs ys arbitrary: zs rule: lexcmp.induct)
  case (2 y ys)
  then show ?case by (cases zs) auto
next
  case (4 x xs y ys)
  then show ?case by (cases zs) (auto split: if_splits)
qed auto

lemma col_ok_cases:
  assumes "col_ok ty a"
  obtains (int) i where "a = IntValue i" "\<bar>i\<bar> < 2 ^ 30" "ty = INTS"
    | (str) s where "a = StringValue CHARS s" "ty \<noteq> INTS"
  using assms by (cases "(ty, a)" rule: col_ok.cases) auto

lemma int_compare: "\<bar>i\<bar> < 2 ^ 30 \<Longrightarrow> \<bar>j\<bar> < 2 ^ 30 \<Longrightarrow> tv_compare (IntValue i) (IntValue j) = Inr (i - j)"
  by (auto simp: int32_def)

lemma col_compare:
  assumes "col_ok ty a" "col_ok ty b"
  obtains r where "tv_compare a b = Inr r" "r = 0 \<longleftrightarrow> a = b" "tv_compare b a = Inr (- r)"
  using assms(1)
proof (cases rule: col_ok_cases)
  case (int i)
  with assms(2) obtain j where "b = IntValue j" "\<bar>j\<bar> < 2 ^ 30" by (cases rule: col_ok_cases) auto
  then show ?thesis using int int_compare [of i j] int_compare [of j i] that [of "i - j"] by auto
next
  case (str s)
  with assms(2) obtain t where "b = StringValue CHARS t" by (cases rule: col_ok_cases) auto
  then show ?thesis using str that [of "lexcmp s t"] lexcmp_0_iff [of s t] lexcmp_sign(2) [where xs = s and ys = t] by simp
qed

lemma col_trans:
  assumes "col_ok ty a" "col_ok ty b" "col_ok ty c"
    and "projr (tv_compare a b) < 0" "projr (tv_compare b c) < 0"
  shows "projr (tv_compare a c) < 0"
  using assms(1)
proof (cases rule: col_ok_cases)
  case (int i)
  with assms(2,3) obtain j k where jk: "b = IntValue j" "\<bar>j\<bar> < 2 ^ 30" "c = IntValue k" "\<bar>k\<bar> < 2 ^ 30"
    by (auto elim!: col_ok_cases)
  then show ?thesis using assms(4,5) int int_compare [of i j] int_compare [of j k] int_compare [of i k]
    by (simp del: tv_compare.simps)
next
  case (str s)
  with assms(2,3) obtain t u where "b = StringValue CHARS t" "c = StringValue CHARS u"
    by (auto elim!: col_ok_cases)
  then show ?thesis using assms(4,5) str lexcmp_trans [of s t u] by simp
qed

fun keys_below :: "TupleValue list \<Rightarrow> TupleValue list \<Rightarrow> bool" where
  "keys_below (a # as) (b # bs) \<longleftrightarrow> projr (tv_compare a b) < 0 \<or> a = b \<and> keys_below as bs"
| "keys_below _ _ \<longleftrightarrow> False"

definition group_keys :: "AttrType list \<Rightarrow> TupleValue list set" where
  "group_keys tys = {ks. list_all2 col_ok tys ks}"

interpretation columns: ordered_keys "group_keys tys" key_less keys_below for tys
proof (unfold_locales, unfold group_keys_def mem_Collect_eq)
  show "key_less a b = Inr (keys_below a b)" if "list_all2 col_ok tys a" "list_all2 col_ok tys b" for a b
    using that
  proof (induction tys arbitrary: a b)
    case (Cons ty tys)
    then obtain x xs y ys where c: "a = x # xs" "b = y # ys" "col_ok ty x" "col_ok ty y"
      "list_all2 col_ok tys xs" "list_all2 col_ok tys ys" by (auto simp: list_all2_Cons1)
    obtain r where "tv_compare x y = Inr r" "r = 0 \<longleftrightarrow> x = y" using c(3,4) by (rule col_compare)
    then show ?case using Cons.IH [OF c(5,6)] c(1,2) by (cases "r = 0") auto
  qed simp
  show "\<not> keys_below a a" if "list_all2 col_ok tys a" for a
    using that
  proof (induction tys arbitrary: a)
    case (Cons ty tys)
    then obtain x xs where c: "a = x # xs" "col_ok ty x" "list_all2 col_ok tys xs" by (auto simp: list_all2_Cons1)
    obtain r where "tv_compare x x = Inr r" "r = 0 \<longleftrightarrow> x = x" using c(2,2) by (rule col_compare)
    then show ?case using Cons.IH [OF c(3)] c(1) by simp
  qed simp
  show "keys_below a c" if "list_all2 col_ok tys a" "list_all2 col_ok tys b" "list_all2 col_ok tys c"
    "keys_below a b" "keys_below b c" for a b c
    using that
  proof (induction tys arbitrary: a b c)
    case (Cons ty tys)
    obtain x xs y ys z zs where c: "a = x # xs" "b = y # ys" "c = z # zs" "col_ok ty x" "col_ok ty y" "col_ok ty z"
      "list_all2 col_ok tys xs" "list_all2 col_ok tys ys" "list_all2 col_ok tys zs"
      using Cons.prems(1-3) by (auto simp: list_all2_Cons1)
    have "keys_below xs zs" if "keys_below xs ys" "keys_below ys zs" using Cons.IH [OF c(7-9) that] .
    moreover have "projr (tv_compare x y) < 0 \<or> x = y \<and> keys_below xs ys"
      "projr (tv_compare y z) < 0 \<or> y = z \<and> keys_below ys zs"
      using Cons.prems(4,5) unfolding c(1-3) keys_below.simps .
    ultimately have "projr (tv_compare x z) < 0 \<or> x = z \<and> keys_below xs zs" using col_trans [OF c(4-6)] by metis
    then show ?case unfolding c(1-3) keys_below.simps .
  qed simp
  show "keys_below a b \<or> keys_below b a" if "list_all2 col_ok tys a" "list_all2 col_ok tys b" "a \<noteq> b" for a b
    using that
  proof (induction tys arbitrary: a b)
    case (Cons ty tys)
    then obtain x xs y ys where c: "a = x # xs" "b = y # ys" "col_ok ty x" "col_ok ty y"
      "list_all2 col_ok tys xs" "list_all2 col_ok tys ys" by (auto simp: list_all2_Cons1)
    obtain r where "tv_compare x y = Inr r" "r = 0 \<longleftrightarrow> x = y" "tv_compare y x = Inr (- r)"
      using c(3,4) by (rule col_compare)
    then show ?case using Cons.IH [OF c(5,6)] Cons.prems(3) c(1,2) by (cases "r = 0") auto
  qed simp
qed

section \<open>The rows of an aggregation\<close>

lemma combine_values_step:
  "length vs = length ds \<Longrightarrow> length cs = length ds \<Longrightarrow> length xs = length ds \<Longrightarrow> length res = length ds \<Longrightarrow>
   (\<And>i. i < length ds \<Longrightarrow> combine_one (ds ! i) (vs ! i, cs ! i) (xs ! i) = Inr (res ! i)) \<Longrightarrow>
   CombineAggregateValues ds (vs, cs) xs = Inr (map fst res, map snd res)"
proof (induction ds arbitrary: vs cs xs res)
  case (Cons d ds)
  then obtain v vs' c cs' x xs' r res' where e: "vs = v # vs'" "cs = c # cs'" "xs = x # xs'" "res = r # res'"
    by (auto simp: length_Suc_conv)
  have "combine_one d (v, c) x = Inr r" using Cons.prems(5) [of 0] e by simp
  moreover have "CombineAggregateValues ds (vs', cs') xs' = Inr (map fst res', map snd res')"
  proof (rule Cons.IH)
    show "combine_one (ds ! i) (vs' ! i, cs' ! i) (xs' ! i) = Inr (res' ! i)" if "i < length ds" for i
      using Cons.prems(5) [of "Suc i"] that e by simp
  qed (use Cons.prems e in auto)
  ultimately show ?case using e by (cases r) simp
qed simp

lemma combine_values_columns:
  "length vs = length ds \<Longrightarrow> length cs = length ds \<Longrightarrow> length res = length ds \<Longrightarrow>
   (\<And>x. x \<in> set rows \<Longrightarrow> length x = length ds) \<Longrightarrow>
   (\<And>i. i < length ds \<Longrightarrow> foldE (combine_one (ds ! i)) (vs ! i, cs ! i) (map (\<lambda>x. x ! i) rows) = Inr (res ! i)) \<Longrightarrow>
   foldE (CombineAggregateValues ds) (vs, cs) rows = Inr (map fst res, map snd res)"
proof (induction rows arbitrary: vs cs)
  case Nil
  then have "res ! i = (vs ! i, cs ! i)" if "i < length ds" for i using that by fastforce
  then have "map fst res = vs" "map snd res = cs" using Nil by (auto intro!: nth_equalityI)
  then show ?case by simp
next
  case (Cons x rows)
  define r1 where "r1 = map (\<lambda>i. projr (combine_one (ds ! i) (vs ! i, cs ! i) (x ! i))) [0..<length ds]"
  have r1: "combine_one (ds ! i) (vs ! i, cs ! i) (x ! i) = Inr (r1 ! i)"
    "foldE (combine_one (ds ! i)) (r1 ! i) (map (\<lambda>x. x ! i) rows) = Inr (res ! i)" if "i < length ds" for i
    using Cons.prems(5) [OF that] that by (auto simp: r1_def split: sum.splits)
  have "CombineAggregateValues ds (vs, cs) x = Inr (map fst r1, map snd r1)"
  proof (rule combine_values_step)
    show "length x = length ds" using Cons.prems(4) by simp
  qed (use Cons.prems(1,2) r1(1) in \<open>simp_all add: r1_def\<close>)
  moreover have "foldE (CombineAggregateValues ds) (map fst r1, map snd r1) rows = Inr (map fst res, map snd res)"
  proof (rule Cons.IH)
    show "foldE (combine_one (ds ! i)) (map fst r1 ! i, map snd r1 ! i) (map (\<lambda>x. x ! i) rows) = Inr (res ! i)"
      if "i < length ds" for i
      using r1(2) [OF that] that by (simp add: r1_def)
    show "length x = length ds" if "x \<in> set rows" for x using Cons.prems(4) that by simp
  qed (use Cons.prems(3) in \<open>simp_all add: r1_def\<close>)
  ultimately show ?case by simp
qed

lemma MakeVal_length: "MakeVal fi dflt ds t = Inr vs \<Longrightarrow> length vs = length ds"
  by (induction ds arbitrary: vs) (auto split: sum.splits)

lemma initial_values_length: "initial_values ds = Inr vs \<Longrightarrow> length vs = length ds"
  by (induction ds arbitrary: vs) (auto split: if_splits sum.splits simp: map_sum_def)

lemma foldE_aggregate_tuple:
  "(\<And>t. t \<in> set ts \<Longrightarrow> MakeKey fi gs t = Inr (key t) \<and> MakeVal fi dflt ds t = Inr (val t)) \<Longrightarrow>
   foldE (aggregate_tuple fi dflt gs ds) ht ts =
     foldE (\<lambda>ht (k, x). insert_combine key_less (\<lambda>v. CombineAggregateValues ds v x) (GenerateInitialAggregateValue ds) k ht)
       ht (map (\<lambda>t. (key t, val t)) ts)"
  by (induction ts arbitrary: ht) (auto simp: aggregate_tuple_def InsertCombine_def split: sum.split)

lemma output_rows_map:
  "(\<And>p. p \<in> set ht \<Longrightarrow> final_values ds (snd p) = Inr (fin (fst p))) \<Longrightarrow>
   output_rows ds ht = Inr (map (\<lambda>(k, v). k @ fin k) ht)"
proof (induction ht)
  case (Cons p ht)
  then show ?case by (cases p) fastforce
qed simp


definition demo_max :: AggreDesc where
  "demo_max = \<lparr>ag_type = MAXS, ag_is_attr = 1, ag_relation = Some ''t'', ag_attr = Some ''b'', ag_is_star = 0, ag_value = 0\<rparr>"

definition demo_count :: AggreDesc where
  "demo_count = demo_max\<lparr>ag_type := COUNTS\<rparr>"


section \<open>Counting\<close>

lemma count_step:
  "f_is (of_int (min n (2 ^ 24))) f \<Longrightarrow> 0 \<le> n \<Longrightarrow> f_is (of_int (min (n + 1) (2 ^ 24))) (f_add f (float_of_int 1))"
proof (cases "n < 2 ^ 24")
  case True
  moreover assume "f_is (of_int (min n (2 ^ 24))) f" "0 \<le> n"
  ultimately show ?thesis using f_is_add [of n f 1 "float_of_int 1"] f_is_float_of_int [of 1] by simp
next
  case False
  moreover assume "f_is (of_int (min n (2 ^ 24))) f"
  ultimately show ?thesis using f_add_sticks [of f "float_of_int 1"] f_is_float_of_int [of 1] by simp
qed

lemma combine_count:
  assumes "ag_type d = COUNTS" "int32 (n + 1)"
  shows "combine_one d (FloatValue f, n) x =
    Inr (if tv_type x = UNDEFINED then (FloatValue f, n) else (FloatValue (f_add f (float_of_int 1)), n + 1))"
  using assms by (simp add: combine_one_def)

text \<open>C38: a count is the number of values that are not null up to \<^verbatim>\<open>2^24\<close>, where it stops growing,
  because it is kept in a float.\<close>

theorem count_correct:
  assumes "ag_type d = COUNTS" "length (filter (\<lambda>x. tv_type x \<noteq> UNDEFINED) xs) < 2 ^ 31"
  shows "\<exists>f. foldE (combine_one d) (FloatValue (float_of_int 0), 0) xs =
      Inr (FloatValue f, int (length (filter (\<lambda>x. tv_type x \<noteq> UNDEFINED) xs))) \<and>
    f_is (of_int (min (int (length (filter (\<lambda>x. tv_type x \<noteq> UNDEFINED) xs))) (2 ^ 24))) f"
  using assms(2)
proof (induction xs rule: rev_induct)
  case Nil
  then show ?case using f_is_float_of_int [of 0] by simp
next
  case (snoc x xs)
  let ?n = "int (length (filter (\<lambda>x. tv_type x \<noteq> UNDEFINED) xs))"
  have n: "?n < 2 ^ 31" using snoc.prems by (auto split: if_splits)
  obtain f where f: "foldE (combine_one d) (FloatValue (float_of_int 0), 0) xs = Inr (FloatValue f, ?n)"
    "f_is (of_int (min ?n (2 ^ 24))) f"
    using snoc.IH n by auto
  show ?case
  proof (cases "tv_type x = UNDEFINED")
    case True
    then have "combine_one d (FloatValue f, ?n) x = Inr (FloatValue f, ?n)" by (simp add: combine_one_def)
    then show ?thesis using f True by (simp add: columns.foldE_snoc)
  next
    case False
    then have "int32 (?n + 1)" using snoc.prems by (auto simp: int32_def)
    then show ?thesis
      using f(1) False combine_count [OF assms(1)] count_step [OF f(2)] by (simp add: columns.foldE_snoc add.commute)
  qed
qed

lemma count_correct_witness:
  "\<exists>f. foldE (combine_one demo_count) (FloatValue (float_of_int 0), 0) [IntValue 3, NullValue, IntValue 4] =
      Inr (FloatValue f, 2) \<and> f_is 2 f"
  using count_correct [of demo_count "[IntValue 3, NullValue, IntValue 4]"] by (simp add: demo_count_def)

end
