(* ===== verification/Database.thy ===== *)
theory Database
  imports Query "HOL-Library.Multiset"
begin

text \<open>
  \<^verbatim>\<open>Db\<close> and \<^verbatim>\<open>DefaultHandler\<close>: \<^verbatim>\<open>src/src/observer/storage/common/db.cpp\<close> and
  \<^verbatim>\<open>storage/default/default_handler.cpp\<close>.  A \<^verbatim>\<open>Table *\<close> is the number of a table of the
  environment.  The hash map of the open tables is the list of its entries as it enumerates them.  A table
  that was deleted stays behind its pointers: the numbers in \<open>db_deleted\<close> dangle, and using one is
  undefined.
\<close>

section \<open>State\<close>

text \<open>What the file system, the allocator and the hash containers decide in one call: the address of a
  new table, the creation and the opening of its metadata file, the saving of the metadata of an index,
  uninitialised memory, and the orders of enumeration.\<close>

record World =
  w_fresh :: nat
  w_created :: "unit result"
  w_opened :: bool
  w_saved :: "unit result"
  w_header :: IndexFileHeader
  w_heap :: "nat \<Rightarrow> bytes"
  w_stack :: "nat \<Rightarrow> ConDesc \<times> ConDesc"
  w_order :: "(string \<times> nat) list \<Rightarrow> (string \<times> nat) list"
  w_operations :: "Trx \<Rightarrow> (nat \<times> RID \<times> OperationType) list"

record Db =
  db_name :: string
  db_path :: string
  opened_tables :: "(string \<times> nat) list"
  db_deleted :: "nat list"

definition Db_new :: Db where
  "Db_new = \<lparr>db_name = [], db_path = [], opened_tables = [], db_deleted = []\<rparr>"

type_synonym 'a db_op = "Db \<Rightarrow> Env \<Rightarrow> ('a result \<times> Db \<times> Env) option"

definition dbRet :: "'a result \<Rightarrow> 'a db_op" where
  "dbRet r db e = Some (r, db, e)"

text \<open>A call on a table.\<close>

definition on_table :: "nat \<Rightarrow> 'a table_op \<Rightarrow> 'a db_op" where
  "on_table t f db e =
     (if t \<in> set (db_deleted db) then Some (Inl UB, db, e)
      else case f (e\<lparr>e_cur := t\<rparr>) of None \<Rightarrow> None | Some (r, e1) \<Rightarrow> Some (r, db, e1))"

text \<open>\<^verbatim>\<open>new Table\<close> and \<^verbatim>\<open>delete\<close>, which closes the data file.\<close>

definition new_table :: "nat \<Rightarrow> Db \<Rightarrow> Env \<Rightarrow> Db \<times> Env" where
  "new_table t db e =
     (db\<lparr>db_deleted := removeAll t (db_deleted db)\<rparr>, e\<lparr>e_tables := (e_tables e)(t := Table_new), e_cur := t\<rparr>)"

definition delete_table :: "nat \<Rightarrow> 'a result \<Rightarrow> 'a db_op" where
  "delete_table t r db e =
     (let fid = t_file_id (e_tables e t);
          p = (if fid \<ge> 0 then snd (close_file (e_pool e) fid) else e_pool e)
      in Some (r, db\<lparr>db_deleted := t # db_deleted db\<rparr>, e\<lparr>e_pool := p\<rparr>))"

section \<open>\<^verbatim>\<open>Db\<close>\<close>

definition Db_find_table :: "Db \<Rightarrow> string \<Rightarrow> nat option" where
  "Db_find_table db name = map_of (opened_tables db) name"

definition add_table :: "World \<Rightarrow> string \<Rightarrow> nat \<Rightarrow> Db \<Rightarrow> Db" where
  "add_table w name t db = db\<lparr>opened_tables := w_order w ((name, t) # opened_tables db)\<rparr>"

text \<open>A null name would be turned into a \<^verbatim>\<open>std::string\<close>.\<close>

definition Db_create_table :: "World \<Rightarrow> string option \<Rightarrow> AttrInfo list \<Rightarrow> unit db_op" where
  "Db_create_table w name attributes db e =
     (case name of
        None \<Rightarrow> Some (Inl UB, db, e)
      | Some n \<Rightarrow>
          if Db_find_table db n \<noteq> None then Some (Inl SCHEMA_TABLE_EXIST, db, e)
          else
            let t = w_fresh w; (db, e) = new_table t db e in
            (case create_table name (db_path db) attributes (w_created w) (w_opened w) e of
               None \<Rightarrow> None
             | Some (Inl c, e) \<Rightarrow> delete_table t (Inl c) db e
             | Some (Inr _, e) \<Rightarrow> Some (SUCCESS, add_table w n t db, e)))"

definition Db_drop_table :: "string option \<Rightarrow> unit db_op" where
  "Db_drop_table name db e =
     (case name of
        None \<Rightarrow> Some (Inl UB, db, e)
      | Some n \<Rightarrow>
          (case Db_find_table db n of
             None \<Rightarrow> Some (Inl SCHEMA_TABLE_NOT_EXIST, db, e)
           | Some t \<Rightarrow>
               (case on_table t (drop_table (table_meta_file (db_path db) n) name (db_path db)) db e of
                  None \<Rightarrow> None
                | Some (Inl c, db, e) \<Rightarrow> if c = UB then Some (Inl UB, db, e) else delete_table t (Inl c) db e
                | Some (Inr _, db, e) \<Rightarrow>
                    Some (SUCCESS, db\<lparr>opened_tables := filter (\<lambda>p. fst p \<noteq> n) (opened_tables db)\<rparr>, e))))"

text \<open>\<open>files\<close>: the metadata files with what reading them gives and the addresses of the new tables;
  \<open>None\<close> when the directory cannot be listed.\<close>

fun open_files :: "World \<Rightarrow> (TableMeta result \<times> nat) list \<Rightarrow> unit db_op" where
  "open_files w [] db e = Some (SUCCESS, db, e)"
| "open_files w ((file, t) # fs) db e =
     (let (db, e) = new_table t db e in
      case open_table (w_header w) (db_path db) file e of
        None \<Rightarrow> None
      | Some (Inl c, e) \<Rightarrow> delete_table t (Inl c) db e
      | Some (Inr _, e) \<Rightarrow>
          let n = tm_name (t_meta (e_tables e t)) in
          if Db_find_table db n \<noteq> None then delete_table t (Inl GENERIC_ERROR) db e
          else open_files w fs (add_table w n t db) e)"

definition open_all_tables :: "World \<Rightarrow> (TableMeta result \<times> nat) list option \<Rightarrow> unit db_op" where
  "open_all_tables w files db e =
     (case files of None \<Rightarrow> Some (Inl IOERR, db, e) | Some fs \<Rightarrow> open_files w fs db e)"

definition Db_init ::
  "World \<Rightarrow> string option \<Rightarrow> string \<Rightarrow> bool \<Rightarrow> (TableMeta result \<times> nat) list option \<Rightarrow> unit db_op" where
  "Db_init w name path is_directory files db e =
     (case name of
        None \<Rightarrow> Some (Inl INVALID_ARGUMENT, db, e)
      | Some n \<Rightarrow>
          if is_blank n then Some (Inl INVALID_ARGUMENT, db, e)
          else if \<not> is_directory then Some (Inl GENERIC_ERROR, db, e)
          else open_all_tables w files (db\<lparr>db_name := n, db_path := path\<rparr>) e)"

definition all_tables :: "Db \<Rightarrow> string list" where
  "all_tables db = map fst (opened_tables db)"

fun sync_tables :: "(string \<times> nat) list \<Rightarrow> unit db_op" where
  "sync_tables [] db e = Some (SUCCESS, db, e)"
| "sync_tables ((_, t) # ts) db e =
     (case on_table t sync_table db e of
        None \<Rightarrow> None
      | Some (Inl c, db, e) \<Rightarrow> Some (Inl c, db, e)
      | Some (Inr _, db, e) \<Rightarrow> sync_tables ts db e)"

definition Db_sync :: "unit db_op" where
  "Db_sync db e = sync_tables (opened_tables db) db e"

section \<open>\<^verbatim>\<open>DefaultHandler\<close>\<close>

record DefaultHandler =
  base_dir :: string
  db_dir :: string
  opened_dbs :: "(string \<times> Db) list"

type_synonym 'a handler_op = "DefaultHandler \<Rightarrow> Env \<Rightarrow> ('a result \<times> DefaultHandler \<times> Env) option"

definition handler_init :: "string \<Rightarrow> bool \<Rightarrow> DefaultHandler \<Rightarrow> unit result \<times> DefaultHandler" where
  "handler_init base ok h =
     (if \<not> ok then (Inl GENERIC_ERROR, h)
      else (SUCCESS, h\<lparr>base_dir := base, db_dir := base @ ''/db'' @ ''/''\<rparr>))"

definition find_db :: "DefaultHandler \<Rightarrow> string \<Rightarrow> Db option" where
  "find_db h name = map_of (opened_dbs h) name"

text \<open>\<^verbatim>\<open>opened_dbs_[name] = db\<close>: the map is ordered by the names.\<close>

fun put_named :: "string \<Rightarrow> 'a \<Rightarrow> (string \<times> 'a) list \<Rightarrow> (string \<times> 'a) list" where
  "put_named n x [] = [(n, x)]"
| "put_named n x ((m, y) # ps) =
     (if n = m then (n, x) # ps
      else if lexcmp (ascii n) (ascii m) < 0 then (n, x) # (m, y) # ps
      else (m, y) # put_named n x ps)"

definition put_db :: "string \<Rightarrow> Db \<Rightarrow> DefaultHandler \<Rightarrow> DefaultHandler" where
  "put_db name db h = h\<lparr>opened_dbs := put_named name db (opened_dbs h)\<rparr>"

text \<open>\<open>exists\<close>: the directory is there; \<open>made\<close>: it could be made.\<close>

definition create_db :: "string option \<Rightarrow> bool \<Rightarrow> bool \<Rightarrow> unit result" where
  "create_db name exists made =
     (case name of
        None \<Rightarrow> Inl INVALID_ARGUMENT
      | Some n \<Rightarrow>
          if is_blank n then Inl INVALID_ARGUMENT
          else if exists then Inl SCHEMA_DB_EXIST
          else if \<not> made then Inl GENERIC_ERROR
          else SUCCESS)"

definition drop_db :: "string option \<Rightarrow> unit result" where
  "drop_db name = Inl GENERIC_ERROR"

definition close_db :: "string option \<Rightarrow> unit result" where
  "close_db name = Inl GENERIC_ERROR"

text \<open>A database whose tables could not all be opened is registered, and reported, as opened.\<close>

definition open_db ::
  "World \<Rightarrow> string option \<Rightarrow> bool \<Rightarrow> (TableMeta result \<times> nat) list option \<Rightarrow> unit handler_op" where
  "open_db w name is_directory files h e =
     (case name of
        None \<Rightarrow> Some (Inl INVALID_ARGUMENT, h, e)
      | Some n \<Rightarrow>
          if is_blank n then Some (Inl INVALID_ARGUMENT, h, e)
          else if find_db h n \<noteq> None then Some (SUCCESS, h, e)
          else if \<not> is_directory then Some (Inl SCHEMA_DB_NOT_EXIST, h, e)
          else (case Db_init w name (db_dir h @ n) is_directory files Db_new e of
                  None \<Rightarrow> None
                | Some (r, db, e) \<Rightarrow> Some (if r = Inl UB then Inl UB else SUCCESS, put_db n db h, e)))"

definition in_db :: "string \<Rightarrow> 'a db_op \<Rightarrow> 'a handler_op" where
  "in_db name f h e =
     (case find_db h name of
        None \<Rightarrow> Some (Inl SCHEMA_DB_NOT_OPENED, h, e)
      | Some db \<Rightarrow> (case f db e of None \<Rightarrow> None | Some (r, db, e) \<Rightarrow> Some (r, put_db name db h, e)))"

definition handler_create_table :: "World \<Rightarrow> string \<Rightarrow> string option \<Rightarrow> AttrInfo list \<Rightarrow> unit handler_op" where
  "handler_create_table w dbname relation attributes = in_db dbname (Db_create_table w relation attributes)"

definition handler_drop_table :: "string \<Rightarrow> string option \<Rightarrow> unit handler_op" where
  "handler_drop_table dbname relation = in_db dbname (Db_drop_table relation)"

definition find_table :: "DefaultHandler \<Rightarrow> string option \<Rightarrow> string option \<Rightarrow> nat option" where
  "find_table h dbname name =
     (case (dbname, name) of
        (Some d, Some n) \<Rightarrow> (case find_db h d of None \<Rightarrow> None | Some db \<Rightarrow> Db_find_table db n)
      | _ \<Rightarrow> None)"

text \<open>A call on the table of a name.\<close>

definition with_table :: "string \<Rightarrow> string option \<Rightarrow> 'a table_op \<Rightarrow> 'a handler_op" where
  "with_table dbname relation f h e =
     (case (find_table h (Some dbname) relation, find_db h dbname) of
        (Some t, Some db) \<Rightarrow>
          (case on_table t f db e of None \<Rightarrow> None | Some (r, _, e) \<Rightarrow> Some (r, h, e))
      | _ \<Rightarrow> Some (Inl SCHEMA_TABLE_NOT_EXIST, h, e))"

definition handler_create_index ::
  "World \<Rightarrow> string \<Rightarrow> string option \<Rightarrow> string option \<Rightarrow> string option list \<Rightarrow> int \<Rightarrow> unit handler_op" where
  "handler_create_index w dbname relation index names unique h e =
     (if names = [] then Some (Inl GENERIC_ERROR, h, e)
      else with_table dbname relation (create_index (w_header w) index names unique (w_saved w)) h e)"

definition drop_index :: "string \<Rightarrow> string option \<Rightarrow> string option \<Rightarrow> unit result" where
  "drop_index dbname relation index = Inl GENERIC_ERROR"

definition insert_row :: "bytes \<Rightarrow> Value list \<Rightarrow> unit table_op" where
  "insert_row heap vs e =
     bindT (if has_text_field (meta_of e) then insert_text_record heap vs else insert_values heap vs)
       (\<lambda>_. retT ()) e"

definition handler_insert_record :: "string \<Rightarrow> string option \<Rightarrow> bytes \<Rightarrow> Value list \<Rightarrow> unit handler_op" where
  "handler_insert_record dbname relation heap vs = with_table dbname relation (insert_row heap vs)"

text \<open>The number of rows is not reported on.\<close>

definition counted :: "(unit result \<times> int \<times> Env) option \<Rightarrow> (unit result \<times> Env) option" where
  "counted m = map_option (\<lambda>(r, _, e). (r, e)) m"

definition delete_rows :: "World \<Rightarrow> SqlCondition list \<Rightarrow> unit table_op" where
  "delete_rows w cs e =
     (case composite_init (meta_of e) (w_stack w) (map sc_cond cs) of
        Inl c \<Rightarrow> Some (Inl c, e)
      | Inr flt \<Rightarrow> counted (delete_records (Some flt) e))"

definition handler_delete_record :: "World \<Rightarrow> string \<Rightarrow> string option \<Rightarrow> SqlCondition list \<Rightarrow> unit handler_op" where
  "handler_delete_record w dbname relation cs = with_table dbname relation (delete_rows w cs)"

definition update_rows :: "World \<Rightarrow> string option \<Rightarrow> Value \<Rightarrow> SqlCondition list \<Rightarrow> unit table_op" where
  "update_rows w name v cs e =
     (case name of
        None \<Rightarrow> Some (Inl UB, e)
      | Some n \<Rightarrow> counted (update_records n v (w_stack w) (map sc_cond cs) e))"

definition handler_update_record ::
  "World \<Rightarrow> string \<Rightarrow> string option \<Rightarrow> string option \<Rightarrow> Value \<Rightarrow> SqlCondition list \<Rightarrow> unit handler_op" where
  "handler_update_record w dbname relation name v cs = with_table dbname relation (update_rows w name v cs)"

fun sync_dbs :: "string list \<Rightarrow> unit handler_op" where
  "sync_dbs [] h e = Some (SUCCESS, h, e)"
| "sync_dbs (n # ns) h e =
     (case in_db n Db_sync h e of
        None \<Rightarrow> None
      | Some (Inl c, h, e) \<Rightarrow> Some (Inl c, h, e)
      | Some (Inr _, h, e) \<Rightarrow> sync_dbs ns h e)"

definition handler_sync :: "unit handler_op" where
  "handler_sync h e = sync_dbs (map fst (opened_dbs h)) h e"

section \<open>The catalogue\<close>

text \<open>The tables of a database as a map, when the container enumerates every entry once.\<close>

definition enumerates :: "World \<Rightarrow> bool" where
  "enumerates w \<longleftrightarrow> (\<forall>ps. mset (w_order w ps) = mset ps)"

definition catalogue_ok :: "Db \<Rightarrow> bool" where
  "catalogue_ok db \<longleftrightarrow> distinct (map fst (opened_tables db))"

lemma map_of_permuted: "mset ps = mset qs \<Longrightarrow> distinct (map fst qs) \<Longrightarrow> distinct (map fst ps) \<and> map_of ps = map_of qs"
proof -
  assume a: "mset ps = mset qs" "distinct (map fst qs)"
  have "mset (map fst ps) = mset (map fst qs)" using a(1) by simp
  then have d: "distinct (map fst ps)" using a(2) mset_eq_imp_distinct_iff by blast
  moreover have "map_of ps = map_of qs"
    using a by (metis d map_of_inject_set mset_eq_setD)
  ultimately show ?thesis by simp
qed

lemma add_table_catalogue:
  assumes "catalogue_ok db" "enumerates w" "Db_find_table db n = None"
  shows "catalogue_ok (add_table w n t db)" "Db_find_table (add_table w n t db) = (Db_find_table db)(n \<mapsto> t)"
proof -
  have "distinct (map fst ((n, t) # opened_tables db))"
    using assms(1,3) by (auto simp: catalogue_ok_def Db_find_table_def map_of_eq_None_iff)
  moreover have "mset (w_order w ((n, t) # opened_tables db)) = mset ((n, t) # opened_tables db)"
    using assms(2) unfolding enumerates_def by blast
  ultimately have "distinct (map fst (w_order w ((n, t) # opened_tables db)))"
    "map_of (w_order w ((n, t) # opened_tables db)) = map_of ((n, t) # opened_tables db)"
    using map_of_permuted by blast+
  then show "catalogue_ok (add_table w n t db)" "Db_find_table (add_table w n t db) = (Db_find_table db)(n \<mapsto> t)"
    by (auto simp: catalogue_ok_def add_table_def Db_find_table_def fun_eq_iff)
qed

lemma find_table_deleted [simp]:
  "Db_find_table (db\<lparr>db_deleted := ds\<rparr>) = Db_find_table db" "catalogue_ok (db\<lparr>db_deleted := ds\<rparr>) = catalogue_ok db"
  by (simp_all add: Db_find_table_def catalogue_ok_def fun_eq_iff)

lemma new_table_catalogue:
  "new_table t db e = (db1, e1) \<Longrightarrow> Db_find_table db1 = Db_find_table db \<and> catalogue_ok db1 = catalogue_ok db"
  by (auto simp: new_table_def)

lemma delete_table_catalogue:
  "delete_table t r db e = Some (r', db', e') \<Longrightarrow>
   r' = r \<and> Db_find_table db' = Db_find_table db \<and> catalogue_ok db' = catalogue_ok db \<and> t \<in> set (db_deleted db')"
  by (auto simp: delete_table_def Let_def)

text \<open>Creating a table enters exactly its name into the catalogue when it succeeds and leaves the
  catalogue as it is otherwise; an existing name is refused before anything happens.\<close>

theorem create_table_catalogue:
  assumes "catalogue_ok db" "enumerates w" "Db_create_table w (Some n) attributes db e = Some (r, db', e')"
  shows "catalogue_ok db' \<and>
    (Db_find_table db n \<noteq> None \<longrightarrow> r = Inl SCHEMA_TABLE_EXIST \<and> db' = db \<and> e' = e) \<and>
    Db_find_table db' = (if r = SUCCESS then (Db_find_table db)(n \<mapsto> w_fresh w) else Db_find_table db)"
proof (cases "Db_find_table db n")
  case None
  obtain db1 e1 where n: "new_table (w_fresh w) db e = (db1, e1)" by fastforce
  note N = new_table_catalogue [OF n]
  have "catalogue_ok db1" "Db_find_table db1 n = None" using N None assms(1) by simp_all
  note A = add_table_catalogue [OF this(1) assms(2) this(2), of "w_fresh w"]
  obtain rc e2 where c: "create_table (Some n) (db_path db1) attributes (w_created w) (w_opened w) e1 = Some (rc, e2)"
    using assms(3) None n by (auto simp: Db_create_table_def Let_def split: option.splits)
  show ?thesis
  proof (cases rc)
    case (Inl c)
    then have "delete_table (w_fresh w) (Inl c) db1 e2 = Some (r, db', e')"
      using assms(3) None n c by (simp add: Db_create_table_def Let_def)
    from delete_table_catalogue [OF this] show ?thesis using N None assms(1) by simp
  next
    case (Inr u)
    then have "r = SUCCESS" "db' = add_table w n (w_fresh w) db1"
      using assms(3) None n c by (auto simp: Db_create_table_def Let_def)
    then show ?thesis using A N None by simp
  qed
next
  case (Some t)
  then show ?thesis using assms(1,3) by (auto simp: Db_create_table_def)
qed

lemma create_table_catalogue_witness:
  "\<forall>(w :: World) (e :: Env). \<exists>db' e'. Db_create_table (w\<lparr>w_fresh := 3, w_created := Inl IOERR, w_order := (\<lambda>ps. ps)\<rparr>) (Some ''u'')
      [\<lparr>ai_name = Some ''a'', ai_type = INTS, ai_length = 4, ai_nullable = 0\<rparr>] (Db_new\<lparr>opened_tables := [(''t'', 0)]\<rparr>) e =
      Some (Inl IOERR, db', e') \<and>
    catalogue_ok db' \<and> Db_find_table db' ''t'' = Some 0 \<and> Db_find_table db' ''u'' = None"
proof (intro allI)
  fix w :: World and e :: Env
  let ?w = "w\<lparr>w_fresh := 3, w_created := Inl IOERR, w_order := (\<lambda>ps. ps)\<rparr> :: World"
  let ?as = "[\<lparr>ai_name = Some ''a'', ai_type = INTS, ai_length = 4, ai_nullable = 0\<rparr>]"
  let ?db = "Db_new\<lparr>opened_tables := [(''t'', 0)]\<rparr>"
  have "catalogue_ok ?db" "enumerates ?w" by (simp_all add: catalogue_ok_def enumerates_def)
  moreover obtain db' e' where r: "Db_create_table ?w (Some ''u'') ?as ?db e = Some (Inl IOERR, db', e')"
    by (simp add: Db_create_table_def Db_find_table_def new_table_def create_table_def is_blank_def delete_table_def Let_def)
  ultimately have "catalogue_ok db' \<and> Db_find_table db' = Db_find_table ?db"
    using create_table_catalogue [of ?db ?w "''u''" ?as e "Inl IOERR" db' e'] by simp
  then show "\<exists>db' e'. Db_create_table ?w (Some ''u'') ?as ?db e = Some (Inl IOERR, db', e') \<and>
    catalogue_ok db' \<and> Db_find_table db' ''t'' = Some 0 \<and> Db_find_table db' ''u'' = None"
    using r by (intro exI [of _ db'] exI [of _ e']) (simp add: Db_find_table_def)
qed

text \<open>C34: dropping a table removes exactly its name when it succeeds; when it fails the table has been
  deleted but its pointer stays in the catalogue, so the next call on the table is undefined.\<close>

theorem drop_table_catalogue:
  assumes "catalogue_ok db" "Db_find_table db n = Some t" "Db_drop_table (Some n) db e = Some (r, db', e')"
  shows "catalogue_ok db' \<and>
    (r = SUCCESS \<longrightarrow> Db_find_table db' = (Db_find_table db)(n := None)) \<and>
    (r \<noteq> SUCCESS \<longrightarrow> Db_find_table db' n = Some t \<and>
       (r \<noteq> Inl UB \<longrightarrow> (\<forall>f :: unit table_op. on_table t f db' e' = Some (Inl UB, db', e'))))"
proof -
  obtain rc db1 e1 where d: "on_table t (drop_table (table_meta_file (db_path db) n) (Some n) (db_path db)) db e = Some (rc, db1, e1)"
    using assms(2,3) by (auto simp: Db_drop_table_def split: option.splits)
  then have db1: "db1 = db" by (auto simp: on_table_def split: if_splits option.splits)
  show ?thesis
  proof (cases rc)
    case (Inl c)
    show ?thesis
    proof (cases "c = UB")
      case True
      then show ?thesis using Inl d db1 assms by (auto simp: Db_drop_table_def)
    next
      case False
      then have "delete_table t (Inl c) db e1 = Some (r, db', e')"
        using Inl d db1 assms(2,3) by (simp add: Db_drop_table_def)
      from delete_table_catalogue [OF this] show ?thesis using assms(1,2) by (simp add: on_table_def)
    qed
  next
    case (Inr u)
    then have "r = SUCCESS" "db' = db\<lparr>opened_tables := filter (\<lambda>p. fst p \<noteq> n) (opened_tables db)\<rparr>"
      using d db1 assms(2,3) by (auto simp: Db_drop_table_def)
    moreover have "distinct (map fst (filter (\<lambda>p. fst p \<noteq> n) ps))" if "distinct (map fst ps)" for ps :: "(string \<times> nat) list"
      using that by (induction ps) auto
    moreover have "map_of (filter (\<lambda>p. fst p \<noteq> n) ps) = (map_of ps)(n := None)" for ps :: "(string \<times> nat) list"
      by (induction ps) (auto simp: fun_eq_iff)
    ultimately show ?thesis using assms(1) by (simp add: catalogue_ok_def Db_find_table_def fun_eq_iff)
  qed
qed

lemma drop_table_catalogue_witness:
  "\<forall>e :: Env. \<exists>db' e'. Db_drop_table (Some '' '') (Db_new\<lparr>opened_tables := [('' '', 0)]\<rparr>) (e\<lparr>e_tables := (\<lambda>_. Table_new)\<rparr>) =
      Some (Inl INVALID_ARGUMENT, db', e') \<and> Db_find_table db' '' '' = Some 0 \<and>
    on_table 0 sync_table db' e' = Some (Inl UB, db', e')"
proof (intro allI)
  fix e :: Env
  let ?db = "Db_new\<lparr>opened_tables := [('' '', 0)]\<rparr>" and ?e = "e\<lparr>e_tables := (\<lambda>_. Table_new)\<rparr> :: Env"
  have "catalogue_ok ?db" "Db_find_table ?db '' '' = Some 0" by (simp_all add: catalogue_ok_def Db_find_table_def)
  moreover obtain db' e' where r: "Db_drop_table (Some '' '') ?db ?e = Some (Inl INVALID_ARGUMENT, db', e')"
    by (simp add: Db_drop_table_def Db_find_table_def on_table_def drop_table_def is_blank_def delete_table_def Let_def Db_new_def)
  ultimately show "\<exists>db' e'. Db_drop_table (Some '' '') ?db ?e = Some (Inl INVALID_ARGUMENT, db', e') \<and>
      Db_find_table db' '' '' = Some 0 \<and> on_table 0 sync_table db' e' = Some (Inl UB, db', e')"
    using drop_table_catalogue [of ?db "'' ''" 0 ?e "Inl INVALID_ARGUMENT" db' e'] by auto
qed

end
