(* ===== verification/Load_Data.thy ===== *)
theory Load_Data
  imports Database
begin

text \<open>
  The import of a file: \<^verbatim>\<open>insert_record_from_file\<close> and \<^verbatim>\<open>load_data\<close> of
  \<^verbatim>\<open>src/src/observer/storage/default/default_storage_stage.cpp\<close>, with \<^verbatim>\<open>strip\<close> and
  \<^verbatim>\<open>split_string\<close> of \<^verbatim>\<open>src/deps/common/lang/string.cpp\<close>.  The rows are inserted without a
  transaction.
\<close>

section \<open>Strings\<close>

definition is_space :: "byte \<Rightarrow> bool" where
  "is_space b \<longleftrightarrow> b = 32 \<or> 9 \<le> b \<and> b \<le> 13"

text \<open>A string without a visible character runs below its first character.\<close>

definition strip :: "byte list \<Rightarrow> byte list result" where
  "strip s =
     (if list_all is_space s then Inl UB
      else Inr (rev (dropWhile is_space (rev (dropWhile is_space s)))))"

text \<open>Empty parts are left out.\<close>

fun split_string :: "byte \<Rightarrow> byte list \<Rightarrow> byte list \<Rightarrow> byte list list" where
  "split_string d part [] = (if part = [] then [] else [part])"
| "split_string d part (c # cs) =
     (if c = d then (if part = [] then [] else [part]) @ split_string d [] cs
      else split_string d (part @ [c]) cs)"

definition bar :: byte where
  "bar = 124"

definition newline :: byte where
  "newline = 10"

text \<open>\<^verbatim>\<open>getline\<close> until the end of the file: the part behind the last newline is a line as well.\<close>

fun file_lines :: "byte list \<Rightarrow> byte list \<Rightarrow> byte list list" where
  "file_lines part [] = [part]"
| "file_lines part (c # cs) = (if c = newline then part # file_lines [] cs else file_lines (part @ [c]) cs)"

definition blank_line :: "byte list \<Rightarrow> bool" where
  "blank_line s = list_all is_space (takeWhile (\<lambda>b. b \<noteq> 0) s)"

section \<open>Numbers\<close>

text \<open>\<^verbatim>\<open>stream >> value\<close> that succeeds and has read the whole string: the text of a decimal \<^verbatim>\<open>int\<close>
  in range, or of a decimal float that does not overflow.\<close>

definition plus_sign :: byte where
  "plus_sign = 43"

definition unsign :: "byte list \<Rightarrow> bool \<times> byte list" where
  "unsign s =
     (case s of
        [] \<Rightarrow> (False, [])
      | c # cs \<Rightarrow> if c = dash then (True, cs) else if c = plus_sign then (False, cs) else (False, s))"

definition read_int :: "byte list \<Rightarrow> int option" where
  "read_int s =
     (let (neg, ds) = unsign s; n = (if neg then - int (digits_val ds) else int (digits_val ds))
      in if ds \<noteq> [] \<and> list_all is_digit ds \<and> int32 n then Some n else None)"

definition read_exponent :: "byte list \<Rightarrow> int option" where
  "read_exponent s =
     (case s of
        [] \<Rightarrow> Some 0
      | c # cs \<Rightarrow>
          let (neg, ds) = unsign cs in
          if (c = 101 \<or> c = 69) \<and> ds \<noteq> [] \<and> list_all is_digit ds
          then Some (if neg then - int (digits_val ds) else int (digits_val ds)) else None)"

definition read_float :: "byte list \<Rightarrow> 32 word option" where
  "read_float s =
     (let (neg, t) = unsign s; ip = takeWhile is_digit t; t = dropWhile is_digit t;
          (fp, t) = (if t \<noteq> [] \<and> hd t = dot then (takeWhile is_digit (tl t), dropWhile is_digit (tl t)) else ([], t))
      in if ip = [] \<and> fp = [] then None
         else case read_exponent t of
                None \<Rightarrow> None
              | Some x \<Rightarrow>
                  let f = round32 neg (of_nat (digits_val (ip @ fp)) * 10 powi (x - int (length fp)))
                  in if f_finite f then Some f else None)"

section \<open>One row\<close>

text \<open>\<open>mem i\<close> is the fresh memory of the \<open>i\<close>-th value.\<close>

definition file_value :: "FieldMeta \<Rightarrow> bytes \<Rightarrow> byte list \<Rightarrow> Value result" where
  "file_value f mem s =
     (case strip s of
        Inl c \<Rightarrow> Inl c
      | Inr s \<Rightarrow>
          (case fm_type f of
             INTS \<Rightarrow> (case read_int s of None \<Rightarrow> Inl SCHEMA_FIELD_TYPE_MISMATCH | Some n \<Rightarrow> Inr (value_init_integer mem n))
           | FLOATS \<Rightarrow> (case read_float s of None \<Rightarrow> Inl SCHEMA_FIELD_TYPE_MISMATCH | Some x \<Rightarrow> Inr (value_init_float mem x))
           | CHARS \<Rightarrow> Inr (value_init_string mem (takeWhile (\<lambda>b. b \<noteq> 0) s))
           | DATES \<Rightarrow> Inr (value_init_string mem (takeWhile (\<lambda>b. b \<noteq> 0) s))
           | _ \<Rightarrow> Inl SCHEMA_FIELD_TYPE_MISMATCH))"

fun file_values :: "FieldMeta list \<Rightarrow> (nat \<Rightarrow> bytes) \<Rightarrow> byte list list \<Rightarrow> Value list result" where
  "file_values [] mem ss = Inr []"
| "file_values (f # fs) mem [] = Inl UB"
| "file_values (f # fs) mem (s # ss) =
     (case file_value f (mem 0) s of
        Inl c \<Rightarrow> Inl c
      | Inr v \<Rightarrow> map_sum id ((#) v) (file_values fs (\<lambda>i. mem (i + 1)) ss))"

text \<open>A call without a transaction.\<close>

definition untransacted :: "'a table_op \<Rightarrow> 'a table_op" where
  "untransacted f e =
     (case f (e\<lparr>e_trx := None\<rparr>) of None \<Rightarrow> None | Some (r, e1) \<Rightarrow> Some (r, e1\<lparr>e_trx := e_trx e\<rparr>))"

definition insert_record_from_file :: "(nat \<Rightarrow> bytes) \<Rightarrow> bytes \<Rightarrow> byte list list \<Rightarrow> unit table_op" where
  "insert_record_from_file mem heap parts e =
     (let fs = drop sys_field_num (tm_fields (meta_of e)) in
      if length parts < length fs then Some (Inl SCHEMA_FIELD_MISSING, e)
      else case file_values fs mem parts of
             Inl c \<Rightarrow> Some (Inl c, e)
           | Inr vs \<Rightarrow> bindT (untransacted (insert_values heap vs)) (\<lambda>_. retT ()) e)"

text \<open>The loop over the lines; the result counts the lines handled and the records inserted.\<close>

fun load_lines ::
  "(nat \<Rightarrow> nat \<Rightarrow> bytes) \<Rightarrow> (nat \<Rightarrow> bytes) \<Rightarrow> nat \<Rightarrow> nat \<Rightarrow> byte list list \<Rightarrow> Env \<Rightarrow> (unit result \<times> nat \<times> nat \<times> Env) option" where
  "load_lines mem heap n k [] e = Some (SUCCESS, n, k, e)"
| "load_lines mem heap n k (l # ls) e =
     (if blank_line l then load_lines mem heap (n + 1) k ls e
      else case insert_record_from_file (mem n) (heap n) (split_string bar [] l) e of
             None \<Rightarrow> None
           | Some (Inl c, e1) \<Rightarrow> Some (Inl c, n + 1, k, e1)
           | Some (Inr _, e1) \<Rightarrow> load_lines mem heap (n + 1) (k + 1) ls e1)"

section \<open>Lemmas\<close>

text \<open>An import splits a line at the bars like the grammar of the file says only while no part is empty.\<close>

lemma split_string_append:
  "d \<notin> set p \<Longrightarrow> split_string d part (p @ d # cs) = (if part @ p = [] then [] else [part @ p]) @ split_string d [] cs"
  by (induction p arbitrary: part) auto

lemma split_string_last: "d \<notin> set p \<Longrightarrow> split_string d part p = (if part @ p = [] then [] else [part @ p])"
  by (induction p arbitrary: part) auto

fun join_with :: "'a \<Rightarrow> 'a list list \<Rightarrow> 'a list" where
  "join_with d [] = []"
| "join_with d [p] = p"
| "join_with d (p # q # ps) = p @ d # join_with d (q # ps)"

text \<open>Splitting the parts joined by a separator gives the parts that are not empty: an empty column
  of an imported line is dropped and the columns behind it move up.\<close>

theorem split_string_correct:
  "(\<forall>p \<in> set ps. d \<notin> set p) \<Longrightarrow> split_string d [] (join_with d ps) = filter (\<lambda>p. p \<noteq> []) ps"
  by (induction d ps rule: join_with.induct) (auto simp: split_string_append split_string_last)

lemma split_string_correct_witness:
  "split_string bar [] (join_with bar [[49], [], [50]]) = [[49], [50]]"
  using split_string_correct [of "[[49], [], [50]]" bar] by (simp add: bar_def)

lemma file_lines_append: "newline \<notin> set p \<Longrightarrow> file_lines part (p @ newline # cs) = (part @ p) # file_lines [] cs"
  by (induction p arbitrary: part) auto

lemma file_lines_last: "newline \<notin> set p \<Longrightarrow> file_lines part p = [part @ p]"
  by (induction p arbitrary: part) auto

lemma file_lines_join:
  "\<forall>p \<in> set ps. newline \<notin> set p \<Longrightarrow> ps \<noteq> [] \<Longrightarrow> file_lines [] (join_with newline ps) = ps"
  by (induction newline ps rule: join_with.induct) (auto simp: file_lines_append file_lines_last)

text \<open>Every \<^verbatim>\<open>int\<close> that is printed in a result is read back by an import.\<close>

theorem read_int_printed: "int32 n \<longleftrightarrow> read_int (dec_int n) = Some n"
proof -
  have d: "list_all is_digit (dec m)" "dec m \<noteq> []" for m by (rule dec_digits) (simp add: dec.simps [of m])
  have h: "hd (dec m) \<noteq> dash" "hd (dec m) \<noteq> plus_sign" for m
  proof -
    have "is_digit (hd (dec m))" using d [of m] by (cases "dec m") auto
    then show "hd (dec m) \<noteq> dash" "hd (dec m) \<noteq> plus_sign" by (auto simp: is_digit_def dash_def plus_sign_def)
  qed
  have u: "unsign (dec m) = (False, dec m)" for m
    using h [of m] d(2) [of m] by (cases "dec m") (auto simp: unsign_def)
  show ?thesis
  proof (cases "n < 0")
    case True
    then have "unsign (dec_int n) = (True, dec (nat (- n)))" by (simp add: dec_int_def unsign_def)
    then show ?thesis using True d by (simp add: read_int_def Let_def)
  next
    case False
    then have "unsign (dec_int n) = (False, dec (nat n))" by (simp add: dec_int_def u)
    then show ?thesis using False d by (simp add: read_int_def Let_def)
  qed
qed

end
