(* ===== verification/Result_Text.thy ===== *)
theory Result_Text
  imports Expression Load_Data
begin

text \<open>
  The text of a result: \<^verbatim>\<open>TupleSchema::print\<close> and \<^verbatim>\<open>TupleSet::print\<close> of
  \<^verbatim>\<open>src/src/observer/sql/executor/tuple.cpp\<close>.
\<close>

definition separator :: "byte list" where
  "separator = ascii '' | ''"

definition aggre_type_print :: "AggreType \<Rightarrow> byte list result" where
  "aggre_type_print ty =
     (case ty of
        MAXS \<Rightarrow> Inr (ascii ''max'')
      | MINS \<Rightarrow> Inr (ascii ''min'')
      | AVGS \<Rightarrow> Inr (ascii ''avg'')
      | SUMS \<Rightarrow> Inr (ascii ''sum'')
      | COUNTS \<Rightarrow> Inr (ascii ''count'')
      | UNDEFINEDAGG \<Rightarrow> Inl UB)"

definition aggre_attr_print :: "AggreDesc \<Rightarrow> byte list result" where
  "aggre_attr_print d =
     (if ag_is_attr d = 1 \<or> ag_is_star d = 1 then
        (case ag_attr d of
           None \<Rightarrow> Inl UB
         | Some n \<Rightarrow> Inr ((case ag_relation d of None \<Rightarrow> [] | Some t \<Rightarrow> ascii t @ [dot]) @ ascii n))
      else float_to_string (ag_value d))"

definition aggre_print :: "AggreDesc \<Rightarrow> byte list result" where
  "aggre_print d =
     (case aggre_type_print (ag_type d) of
        Inl c \<Rightarrow> Inl c
      | Inr s \<Rightarrow> map_sum id (\<lambda>t. s @ [40] @ t @ [41]) (aggre_attr_print d))"

definition field_print :: "bool \<Rightarrow> TupleField \<Rightarrow> byte list result" where
  "field_print multi_table f = Inr ((if multi_table then ascii (tf_table f) @ [dot] else []) @ ascii (tf_name f))"

text \<open>One part of a line: the items with the separator between them.\<close>

fun print_items :: "('a \<Rightarrow> byte list result) \<Rightarrow> 'a list \<Rightarrow> byte list result" where
  "print_items pr [] = Inr []"
| "print_items pr [x] = pr x"
| "print_items pr (x # y # xs) =
     (case pr x of
        Inl c \<Rightarrow> Inl c
      | Inr s \<Rightarrow> map_sum id (\<lambda>t. s @ separator @ t) (print_items pr (y # xs)))"

text \<open>A part is followed by the end of the line; the columns before aggregates or expressions by the
  separator.\<close>

definition schema_print :: "TupleSchema \<Rightarrow> bool \<Rightarrow> byte list result" where
  "schema_print s multi_table =
     (case (print_items (field_print multi_table) (ts_fields s), print_items aggre_print (ts_aggs s),
            print_items ast_print (ts_exps s)) of
        (Inr fs, Inr as, Inr es) \<Rightarrow>
          Inr ((if ts_fields s = [] then []
                else fs @ (if ts_aggs s = [] \<and> ts_exps s = [] then [newline] else separator)) @
               (if ts_aggs s = [] then [] else as @ [newline]) @ (if ts_exps s = [] then [] else es @ [newline]))
      | _ \<Rightarrow> Inl UB)"

text \<open>A tuple without values has no last one.\<close>

fun print_tuples :: "Tuple list \<Rightarrow> byte list result" where
  "print_tuples [] = Inr []"
| "print_tuples (t # ts) =
     (if t = [] then Inl UB
      else case print_items tv_to_string t of
             Inl c \<Rightarrow> Inl c
           | Inr s \<Rightarrow> map_sum id (\<lambda>r. s @ [newline] @ r) (print_tuples ts))"

definition set_print :: "TupleSet \<Rightarrow> bool \<Rightarrow> byte list result" where
  "set_print s multi_table =
     (case schema_print (set_schema s) multi_table of
        Inl c \<Rightarrow> Inl c
      | Inr h \<Rightarrow> map_sum id (\<lambda>r. h @ r) (print_tuples (set_tuples s)))"

end
