(* ===== verification/Exec_Nodes.thy ===== *)
theory Exec_Nodes
  imports Aggregate Result_Text
begin

text \<open>
  The nodes of a query without joins and subqueries: \<^verbatim>\<open>execution_node.cpp\<close> and
  \<^verbatim>\<open>exp_execution_node.cpp\<close> of \<^verbatim>\<open>src/src/observer/sql/executor\<close>.
\<close>

section \<open>\<^verbatim>\<open>SelectExeNode\<close>\<close>

record SelectExeNode =
  sn_table :: nat
  sn_schema :: TupleSchema
  sn_filters :: "DefaultConditionFilter list"

definition select_init :: "nat \<Rightarrow> TupleSchema \<Rightarrow> DefaultConditionFilter list \<Rightarrow> SelectExeNode" where
  "select_init table schema filters = \<lparr>sn_table = table, sn_schema = schema, sn_filters = filters\<rparr>"

definition tuple_reader :: "TupleSet reader" where
  "tuple_reader rec ts e =
     (case add_record (rec_mem rec) ts e of
        None \<Rightarrow> None
      | Some (Inl c, e1) \<Rightarrow> Some (Inl c, ts, e1)
      | Some (Inr ts1, e1) \<Rightarrow> Some (SUCCESS, ts1, e1))"

definition set_schema_of :: "TupleSchema \<Rightarrow> TupleSet \<Rightarrow> TupleSet" where
  "set_schema_of schema s = s\<lparr>set_schema := schema\<rparr>"

definition select_execute :: "SelectExeNode \<Rightarrow> TupleSet \<Rightarrow> Env \<Rightarrow> (unit result \<times> TupleSet \<times> Env) option" where
  "select_execute n ts e =
     scan_record (Some (Composite (map Default (sn_filters n)))) (- 1)
       (set_schema_of (sn_schema n) (set_clear ts)) tuple_reader (e\<lparr>e_cur := sn_table n\<rparr>)"

section \<open>\<^verbatim>\<open>cartesianExeNode\<close>\<close>

record CartesianExeNode =
  cn_sets :: "TupleSet list"
  cn_filters :: "CartesianFilter list"
  cn_schema :: TupleSchema

definition cartesian_step :: "CartesianFilter list \<Rightarrow> Tuple list \<Rightarrow> TupleSet result \<Rightarrow> TupleSet result" where
  "cartesian_step fs ts acc =
     (case acc of
        Inl c \<Rightarrow> Inl c
      | Inr s \<Rightarrow>
          map_sum id (\<lambda>b. if b then set_add (concat ts) s else s) (composite_cartesian_filter fs (concat ts)))"

definition cartesian_execute :: "CartesianExeNode \<Rightarrow> TupleSet \<Rightarrow> TupleSet result" where
  "cartesian_execute n out =
     descartes_loop (cn_sets n) (cartesian_step (cn_filters n)) (Descartes_new (cn_sets n))
       (Inr (set_schema_of (cn_schema n) out))"

section \<open>\<^verbatim>\<open>OrderByExeNode\<close>\<close>

text \<open>\<^verbatim>\<open>std::sort\<close> may return any permutation that the comparison allows, and is an argument.  It may use the
  comparison only if it is defined and a strict weak order on the elements.\<close>

type_synonym sorter = "(Tuple \<Rightarrow> Tuple \<Rightarrow> bool result) \<Rightarrow> Tuple list \<Rightarrow> Tuple list result"

definition strict_weak :: "('a \<Rightarrow> 'a \<Rightarrow> bool result) \<Rightarrow> 'a set \<Rightarrow> bool" where
  "strict_weak cmp A \<longleftrightarrow>
     (\<forall>a \<in> A. cmp a a = Inr False) \<and>
     (\<forall>a \<in> A. \<forall>b \<in> A. \<exists>r. cmp a b = Inr r) \<and>
     (\<forall>a \<in> A. \<forall>b \<in> A. \<forall>c \<in> A. cmp a b = Inr True \<and> cmp b c = Inr True \<longrightarrow> cmp a c = Inr True) \<and>
     (\<forall>a \<in> A. \<forall>b \<in> A. \<forall>c \<in> A. cmp a b = Inr False \<and> cmp b c = Inr False \<longrightarrow> cmp a c = Inr False)"

definition std_sort :: "sorter \<Rightarrow> bool" where
  "std_sort sorter \<longleftrightarrow>
     (\<forall>cmp xs. strict_weak cmp (set xs) \<longrightarrow>
        (\<exists>ys. sorter cmp xs = Inr ys \<and> mset ys = mset xs \<and> sorted_wrt (\<lambda>a b. cmp b a = Inr False) ys))"

record OrderByExeNode =
  ob_schema :: TupleSchema
  ob_index :: field_index

definition order_by_execute :: "sorter \<Rightarrow> OrderByExeNode \<Rightarrow> TupleSet \<Rightarrow> TupleSet result" where
  "order_by_execute sorter n s =
     map_sum id (\<lambda>ts. s\<lparr>set_tuples := ts\<rparr>) (sorter (sort_cmp (ob_index n) (ts_fields (ob_schema n))) (set_tuples s))"

section \<open>\<^verbatim>\<open>OutputExeNode\<close>\<close>

record OutputExeNode =
  on_schema :: TupleSchema
  on_set :: TupleSet
  on_index :: field_index

definition OutputExeNode_new :: OutputExeNode where
  "OutputExeNode_new = \<lparr>on_schema = TupleSchema_new, on_set = TupleSet_new, on_index = []\<rparr>"

text \<open>The columns of the output are taken from the tuple by the index.\<close>

fun output_tuple :: "field_index \<Rightarrow> TupleField list \<Rightarrow> Tuple \<Rightarrow> Tuple result" where
  "output_tuple fi [] t = Inr []"
| "output_tuple fi (f # fs) t =
     (case index_at fi (tf_table f) (tf_name f) of
        Inl c \<Rightarrow> Inl c
      | Inr i \<Rightarrow>
          (case tuple_get t i of
             Inl c \<Rightarrow> Inl c
           | Inr v \<Rightarrow> map_sum id ((#) v) (output_tuple fi fs t)))"

fun output_tuples :: "(Tuple \<Rightarrow> Tuple option result) \<Rightarrow> Tuple list \<Rightarrow> TupleSet \<Rightarrow> TupleSet result" where
  "output_tuples f [] out = Inr out"
| "output_tuples f (t # ts) out =
     (case f t of
        Inl c \<Rightarrow> Inl c
      | Inr None \<Rightarrow> output_tuples f ts out
      | Inr (Some u) \<Rightarrow> output_tuples f ts (set_add u out))"

definition output_execute :: "OutputExeNode \<Rightarrow> TupleSet \<Rightarrow> TupleSet result" where
  "output_execute n out =
     output_tuples (\<lambda>t. map_sum id Some (output_tuple (on_index n) (ts_fields (on_schema n)) t))
       (set_tuples (on_set n)) (set_schema_of (on_schema n) out)"

section \<open>\<^verbatim>\<open>ExpExeNode\<close>\<close>

record ExpExeNode =
  en_schema :: TupleSchema
  en_filters :: "CartesianFilter list"
  en_set :: TupleSet
  en_index :: field_index

text \<open>An expression of the output must have a value.\<close>

fun output_exps :: "field_index \<Rightarrow> ast list \<Rightarrow> Tuple \<Rightarrow> Tuple result" where
  "output_exps fi [] t = Inr []"
| "output_exps fi (a # as) t =
     (case Calculate t fi a of
        Inl c \<Rightarrow> Inl UB
      | Inr v \<Rightarrow> map_sum id ((#) v) (output_exps fi as t))"

definition exp_tuple :: "ExpExeNode \<Rightarrow> Tuple \<Rightarrow> Tuple option result" where
  "exp_tuple n t =
     (case composite_expression_filter (en_index n) (en_filters n) t of
        Inl c \<Rightarrow> Inl c
      | Inr False \<Rightarrow> Inr None
      | Inr True \<Rightarrow>
          (case output_tuple (en_index n) (ts_fields (en_schema n)) t of
             Inl c \<Rightarrow> Inl c
           | Inr us \<Rightarrow> map_sum id (\<lambda>vs. Some (us @ vs)) (output_exps (en_index n) (ts_exps (en_schema n)) t)))"

definition exp_execute :: "ExpExeNode \<Rightarrow> TupleSet \<Rightarrow> TupleSet result" where
  "exp_execute n out =
     output_tuples (exp_tuple n) (set_tuples (en_set n)) (set_schema_of (en_schema n) (set_clear out))"

text \<open>\<^verbatim>\<open>create_expression_executor\<close>: a side that is a column is looked up, but not marked as a column, so
  it is read as a value of undefined type.  \<open>junk\<close> is a filter that has not been set.\<close>

definition no_value :: Value where
  "no_value = \<lparr>vtype = UNDEFINED, visnull = 0, vdata = None\<rparr>"

definition no_con_desc :: CartesianConDesc where
  "no_con_desc = \<lparr>cc_table_index = - 1, cc_value_index = - 1, cc_exp = NullNode, cc_is_attr = 0, cc_value = no_value\<rparr>"

definition attr_index :: "Selects \<Rightarrow> field_index \<Rightarrow> RelAttr \<Rightarrow> int result" where
  "attr_index sel fi a =
     (case (if relation_name a = None then (if sel_relations sel = [] then None else hd (sel_relations sel)) else relation_name a,
            attribute_name a) of
        (Some t, Some n) \<Rightarrow> index_at fi t n
      | _ \<Rightarrow> Inl UB)"

definition exp_side :: "Selects \<Rightarrow> field_index \<Rightarrow> ast \<Rightarrow> int \<Rightarrow> RelAttr \<Rightarrow> Value \<Rightarrow> CartesianConDesc result" where
  "exp_side sel fi a is_attr attr v =
     (if a \<noteq> NullNode then Inr (no_con_desc\<lparr>cc_exp := a\<rparr>)
      else if is_attr \<noteq> 0 then map_sum id (\<lambda>i. no_con_desc\<lparr>cc_value_index := i\<rparr>) (attr_index sel fi attr)
      else Inr (no_con_desc\<lparr>cc_value := v\<rparr>))"

fun exp_filters :: "CartesianFilter \<Rightarrow> Selects \<Rightarrow> field_index \<Rightarrow> SqlCondition list \<Rightarrow> CartesianFilter list result" where
  "exp_filters junk sel fi [] = Inr []"
| "exp_filters junk sel fi (c # cs) =
     (if sc_left_ast c = NullNode \<and> sc_right_ast c = NullNode then exp_filters junk sel fi cs
      else
        let k = sc_cond c in
        (case (exp_side sel fi (sc_left_ast c) (left_is_attr k) (left_attr k) (left_value k),
               exp_side sel fi (sc_right_ast c) (right_is_attr k) (right_attr k) (right_value k)) of
           (Inr l, Inr r) \<Rightarrow>
             map_sum id ((#) (snd (cartesian_filter_init junk l r (comp k)))) (exp_filters junk sel fi cs)
         | _ \<Rightarrow> Inl UB))"

definition add_exps :: "ast list \<Rightarrow> TupleSchema \<Rightarrow> TupleSchema" where
  "add_exps as s = s\<lparr>ts_exps := ts_exps s @ as\<rparr>"

definition create_expression_executor ::
  "CartesianFilter \<Rightarrow> Selects \<Rightarrow> TupleSet \<Rightarrow> TupleSchema \<Rightarrow> field_index \<Rightarrow> ExpExeNode result" where
  "create_expression_executor junk sel s schema fi =
     map_sum id
       (\<lambda>fs. \<lparr>en_schema = add_exps (rev (sel_attributes_exp sel)) schema, en_filters = fs,
              en_set = fst (set_move_assign TupleSet_new s), en_index = fi\<rparr>)
       (exp_filters junk sel fi (sel_conditions sel))"

end
