(* ===== verification/Storage_Stage.thy ===== *)
theory Storage_Stage
  imports Load_Data
begin

text \<open>
  \<^verbatim>\<open>DefaultStorageStage::handle_event\<close> of
  \<^verbatim>\<open>src/src/observer/storage/default/default_storage_stage.cpp\<close>: the statements other than queries, and the
  commit or rollback behind each of them; \<^verbatim>\<open>desc\<close> of the table; and the \<^verbatim>\<open>Session\<close>.  The transaction
  of the session is that of the environment.  The answer of an import is its counts, without the text around
  them, and \<open>Code_Name\<close> is the name of a return code.
\<close>

section \<open>Session\<close>

record Session =
  current_db :: string
  trx_multi_operation_mode :: bool

definition set_current_db :: "string \<Rightarrow> Session \<Rightarrow> Session" where
  "set_current_db n s = s\<lparr>current_db := n\<rparr>"

definition set_trx_multi_operation_mode :: "bool \<Rightarrow> Session \<Rightarrow> Session" where
  "set_trx_multi_operation_mode b s = s\<lparr>trx_multi_operation_mode := b\<rparr>"

definition is_trx_multi_operation_mode :: "Session \<Rightarrow> bool" where
  "is_trx_multi_operation_mode s = trx_multi_operation_mode s"

definition current_trx :: "Env \<Rightarrow> Env" where
  "current_trx e = (case e_trx e of None \<Rightarrow> e\<lparr>e_trx := Some Trx_new\<rparr> | Some _ \<Rightarrow> e)"

section \<open>Answers\<close>

datatype Response =
    Text "byte list"
  | No_File
  | Load_Failed nat rc
  | Loaded nat nat
  | Code_Name "unit result"

definition reply :: "unit result \<Rightarrow> Response" where
  "reply rc = Text (ascii (if rc = SUCCESS then ''SUCCESS'' else ''FAILURE'') @ [newline])"

text \<open>\<^verbatim>\<open>snprintf\<close> into \<^verbatim>\<open>response\<close>.\<close>

definition response_buffer :: "byte list \<Rightarrow> Response" where
  "response_buffer s = Text (take 255 s)"

definition FieldMeta_desc :: "FieldMeta \<Rightarrow> byte list" where
  "FieldMeta_desc f =
     ascii ''field name='' @ ascii (fm_name f) @ ascii '', type='' @ ascii (attr_type_to_string (fm_type f)) @
     ascii '', len='' @ dec_int (fm_len f) @ ascii '', visible='' @ ascii (if fm_visible f then ''yes'' else ''no'')"

definition IndexMeta_desc :: "IndexMeta \<Rightarrow> byte list" where
  "IndexMeta_desc im = ascii ''index name='' @ ascii (im_name im) @ ascii '', field='' @ ascii (im_field im)"

definition TableMeta_desc :: "TableMeta \<Rightarrow> byte list" where
  "TableMeta_desc tm =
     ascii (tm_name tm) @ [40, newline] @
     concat (map (\<lambda>f. 9 # FieldMeta_desc f @ [newline]) (tm_fields tm)) @
     concat (map (\<lambda>im. 9 # IndexMeta_desc im @ [newline]) (tm_indexes tm)) @ [41, newline]"

section \<open>Statements\<close>

text \<open>The rows of an insertion up to the first that fails.\<close>

fun insert_rows :: "World \<Rightarrow> string \<Rightarrow> string option \<Rightarrow> nat \<Rightarrow> Value list list \<Rightarrow> unit handler_op" where
  "insert_rows w db relation i [] h e = Some (SUCCESS, h, e)"
| "insert_rows w db relation i (vs # rows) h e =
     (case handler_insert_record db relation (w_heap w i) vs h e of
        None \<Rightarrow> None
      | Some (Inl c, h, e) \<Rightarrow> Some (Inl c, h, e)
      | Some (Inr _, h, e) \<Rightarrow> insert_rows w db relation (i + 1) rows h e)"

definition show_tables :: "DefaultHandler \<Rightarrow> string \<Rightarrow> Response" where
  "show_tables h db =
     (case find_db h db of
        None \<Rightarrow> response_buffer (ascii ''No such database: '' @ ascii db @ [newline])
      | Some d \<Rightarrow>
          if all_tables d = [] then response_buffer (ascii ''No table'' @ [newline])
          else response_buffer (concat (map (\<lambda>t. ascii t @ [newline]) (all_tables d)) @ [newline]))"

definition desc_table :: "DefaultHandler \<Rightarrow> string \<Rightarrow> string option \<Rightarrow> Env \<Rightarrow> Response result" where
  "desc_table h db name e =
     (case (find_table h (Some db) name, find_db h db) of
        (Some t, Some d) \<Rightarrow>
          if t \<in> set (db_deleted d) then Inl UB else Inr (response_buffer (TableMeta_desc (t_meta (e_tables e t))))
      | _ \<Rightarrow>
          (case name of
             None \<Rightarrow> Inl UB
           | Some n \<Rightarrow> Inr (response_buffer (ascii ''No such table: '' @ ascii n @ [newline]))))"

text \<open>\<open>file\<close>: the contents of the imported file, if it can be opened; \<open>mem\<close> the memory of its values.\<close>

definition load_data ::
  "World \<Rightarrow> (nat \<Rightarrow> nat \<Rightarrow> bytes) \<Rightarrow> byte list option \<Rightarrow> string \<Rightarrow> string option \<Rightarrow> DefaultHandler \<Rightarrow> Env \<Rightarrow>
   (Response result \<times> Env) option" where
  "load_data w mem file db name h e =
     (case (find_table h (Some db) name, find_db h db) of
        (Some t, Some d) \<Rightarrow>
          (case file of
             None \<Rightarrow> Some (Inr No_File, e)
           | Some s \<Rightarrow>
               if t \<in> set (db_deleted d) then Some (Inl UB, e)
               else (case load_lines mem (w_heap w) 0 0 (file_lines [] s) (e\<lparr>e_cur := t\<rparr>) of
                       None \<Rightarrow> None
                     | Some (Inr _, n, k, e) \<Rightarrow> Some (Inr (Loaded n k), e)
                     | Some (Inl c, n, k, e) \<Rightarrow> Some (if c = UB then Inl UB else Inr (Load_Failed n c), e)))
      | _ \<Rightarrow>
          Some (case name of
                  None \<Rightarrow> Inl UB
                | Some n \<Rightarrow> Inr (response_buffer (ascii ''No such table '' @ ascii db @ [dot] @ ascii n @ [newline])), e))"

text \<open>The return code, which decides over commit and rollback, and the answer.\<close>

definition replied :: "(unit result \<times> DefaultHandler \<times> Env) option \<Rightarrow> (unit result \<times> Response \<times> DefaultHandler \<times> Env) option" where
  "replied m = map_option (\<lambda>(r, h, e). (r, reply r, h, e)) m"

definition answered :: "Response result \<Rightarrow> DefaultHandler \<Rightarrow> Env \<Rightarrow> (unit result \<times> Response \<times> DefaultHandler \<times> Env) option" where
  "answered r h e =
     (case r of Inl c \<Rightarrow> Some (Inl c, Text [], h, e) | Inr a \<Rightarrow> Some (SUCCESS, a, h, e))"

definition unsupported :: "nat \<Rightarrow> Response" where
  "unsupported flag = response_buffer (ascii ''Unsupported sql: '' @ dec flag @ [newline])"

fun execute_statement ::
  "World \<Rightarrow> (nat \<Rightarrow> nat \<Rightarrow> bytes) \<Rightarrow> byte list option \<Rightarrow> string \<Rightarrow> Query \<Rightarrow> DefaultHandler \<Rightarrow> Env \<Rightarrow>
   (unit result \<times> Response \<times> DefaultHandler \<times> Env) option" where
  "execute_statement w mem file db (SCF_INSERT i) h e = replied (insert_rows w db (ins_relation i) 0 (ins_pairs i) h e)"
| "execute_statement w mem file db (SCF_UPDATE u) h e =
     replied (handler_update_record w db (upd_relation u) (upd_attribute u) (upd_value u) (upd_conditions u) h e)"
| "execute_statement w mem file db (SCF_DELETE d) h e =
     replied (handler_delete_record w db (del_relation d) (del_conditions d) h e)"
| "execute_statement w mem file db (SCF_CREATE_TABLE c) h e =
     replied (handler_create_table w db (ct_relation c) (ct_attributes c) h e)"
| "execute_statement w mem file db (SCF_DROP_TABLE t) h e = replied (handler_drop_table db t h e)"
| "execute_statement w mem file db (SCF_CREATE_INDEX c) h e =
     replied (handler_create_index w db (ci_relation c) (ci_index c) (ci_attributes c) (ci_unique c) h e)"
| "execute_statement w mem file db SCF_SHOW_TABLES h e = answered (Inr (show_tables h db)) h e"
| "execute_statement w mem file db (SCF_DESC_TABLE t) h e = answered (desc_table h db t e) h e"
| "execute_statement w mem file db (SCF_LOAD_DATA l) h e =
     (case load_data w mem file db (ld_relation l) h e of None \<Rightarrow> None | Some (r, e) \<Rightarrow> answered r h e)"
| "execute_statement w mem file db (SCF_DROP_INDEX i) h e = answered (Inr (unsupported 10)) h e"
| "execute_statement w mem file db SCF_ERROR h e = answered (Inr (unsupported 0)) h e"
| "execute_statement w mem file db (SCF_SELECT s) h e = answered (Inr (unsupported 1)) h e"
| "execute_statement w mem file db SCF_SYNC h e = answered (Inr (unsupported 9)) h e"
| "execute_statement w mem file db SCF_BEGIN h e = answered (Inr (unsupported 12)) h e"
| "execute_statement w mem file db SCF_COMMIT h e = answered (Inr (unsupported 13)) h e"
| "execute_statement w mem file db SCF_ROLLBACK h e = answered (Inr (unsupported 14)) h e"
| "execute_statement w mem file db SCF_HELP h e = answered (Inr (unsupported 16)) h e"
| "execute_statement w mem file db SCF_EXIT h e = answered (Inr (unsupported 17)) h e"

text \<open>The end of a statement: outside a transaction of several statements it is committed, and rolled back
  when it or its commit failed.\<close>

definition logged :: "World \<Rightarrow> Env \<Rightarrow> (nat \<times> RID \<times> OperationType) list" where
  "logged w e = (case e_trx e of None \<Rightarrow> [] | Some t \<Rightarrow> w_operations w t)"

definition finish_statement :: "World \<Rightarrow> bool \<Rightarrow> unit result \<Rightarrow> unit table_op" where
  "finish_statement w multi rc e =
     (if multi then Some (rc, e)
      else case (if rc = SUCCESS then commit (logged w e) e else Some (rc, e)) of
             None \<Rightarrow> None
           | Some (rc, e) \<Rightarrow> if rc = SUCCESS then Some (rc, e) else rollback (logged w e) e)"

text \<open>The answer was written before the commit.\<close>

definition handle_storage_event ::
  "World \<Rightarrow> (nat \<Rightarrow> nat \<Rightarrow> bytes) \<Rightarrow> byte list option \<Rightarrow> Query \<Rightarrow> Session \<Rightarrow> DefaultHandler \<Rightarrow> Env \<Rightarrow>
   (Response result \<times> DefaultHandler \<times> Env) option" where
  "handle_storage_event w mem file q s h e =
     (case execute_statement w mem file (current_db s) q h (current_trx e) of
        None \<Rightarrow> None
      | Some (rc, a, h, e) \<Rightarrow>
          if rc = Inl UB then Some (Inl UB, h, e)
          else case finish_statement w (is_trx_multi_operation_mode s) rc e of
                 None \<Rightarrow> None
               | Some (rc, e) \<Rightarrow> Some (if rc = Inl UB then Inl UB else Inr a, h, e))"

end
