(* ===== verification/Select_Stage.thy ===== *)
theory Select_Stage
  imports Exec_Nodes Storage_Stage
begin

text \<open>
  The part of \<^verbatim>\<open>src/src/observer/sql/executor/execute_stage.cpp\<close> that checks a query, builds its
  nodes and runs them.  \<open>cat\<close> is \<^verbatim>\<open>find_table\<close> on the current database: the number of a table by its
  name.  The columns, tables and expressions of a query are in reverse order; the loops run from the last one.
\<close>

section \<open>Names\<close>

definition meta_for :: "(string \<Rightarrow> nat option) \<Rightarrow> Env \<Rightarrow> string option \<Rightarrow> TableMeta option" where
  "meta_for cat e n =
     (case n of None \<Rightarrow> None | Some s \<Rightarrow> map_option (\<lambda>t. t_meta (e_tables e t)) (cat s))"

fun check_all :: "('a \<Rightarrow> unit result) \<Rightarrow> 'a list \<Rightarrow> unit result" where
  "check_all f [] = SUCCESS"
| "check_all f (x # xs) = (case f x of Inl c \<Rightarrow> Inl c | Inr _ \<Rightarrow> check_all f xs)"

definition relation :: "Selects \<Rightarrow> string option" where
  "relation sel = (case sel_relations sel of [] \<Rightarrow> None | r # _ \<Rightarrow> r)"

section \<open>\<^verbatim>\<open>pre_check\<close>\<close>

definition check_relation :: "(string \<Rightarrow> nat option) \<Rightarrow> Env \<Rightarrow> string option \<Rightarrow> unit result" where
  "check_relation cat e n = (if meta_for cat e n = None then Inl SCHEMA_TABLE_NOT_EXIST else SUCCESS)"

definition listed :: "string option list \<Rightarrow> RelAttr \<Rightarrow> bool" where
  "listed rels a \<longleftrightarrow> relation_name a \<noteq> None \<and> relation_name a \<in> set rels"

definition check_join_condition :: "string option list \<Rightarrow> SqlCondition \<Rightarrow> unit result" where
  "check_join_condition rels sc =
     (let k = sc_cond sc in
      if left_is_attr k \<noteq> 0 \<and> \<not> listed rels (left_attr k) \<or> right_is_attr k \<noteq> 0 \<and> \<not> listed rels (right_attr k)
      then Inl SCHEMA_TABLE_NOT_EXIST else SUCCESS)"

fun check_joins ::
  "(string \<Rightarrow> nat option) \<Rightarrow> Env \<Rightarrow> string option list \<Rightarrow> (JoinType \<times> string option \<times> SqlCondition list) list \<Rightarrow>
   string option list result" where
  "check_joins cat e rels [] = Inr rels"
| "check_joins cat e rels ((ty, n, cs) # js) =
     (case check_relation cat e n of
        Inl c \<Rightarrow> Inl c
      | Inr _ \<Rightarrow>
          (case check_all (check_join_condition (n # rels)) cs of
             Inl c \<Rightarrow> Inl c
           | Inr _ \<Rightarrow> check_joins cat e (n # rels) js))"

definition check_listed :: "string option list \<Rightarrow> int \<Rightarrow> RelAttr \<Rightarrow> unit result" where
  "check_listed rels is_attr a =
     (if is_attr \<noteq> 0 \<and> relation_name a \<noteq> None \<and> \<not> listed rels a then Inl SCHEMA_TABLE_NOT_EXIST else SUCCESS)"

definition both_sides :: "(int \<Rightarrow> RelAttr \<Rightarrow> unit result) \<Rightarrow> SqlCondition \<Rightarrow> unit result" where
  "both_sides f sc =
     (case f (left_is_attr (sc_cond sc)) (left_attr (sc_cond sc)) of
        Inl c \<Rightarrow> Inl c
      | Inr _ \<Rightarrow> f (right_is_attr (sc_cond sc)) (right_attr (sc_cond sc)))"

definition check_field :: "TableMeta option \<Rightarrow> string option \<Rightarrow> unit result" where
  "check_field tm n =
     (case tm of
        None \<Rightarrow> Inl UB
      | Some tm \<Rightarrow> if field_named tm n = None then Inl SCHEMA_FIELD_NOT_EXIST else SUCCESS)"

text \<open>A column with or without its table.\<close>

definition check_column :: "(string \<Rightarrow> nat option) \<Rightarrow> Env \<Rightarrow> Selects \<Rightarrow> RelAttr \<Rightarrow> unit result" where
  "check_column cat e sel a =
     (if relation_name a \<noteq> None then check_field (meta_for cat e (relation_name a)) (attribute_name a)
      else if length (sel_relations sel) = 1 then check_field (meta_for cat e (relation sel)) (attribute_name a)
      else if length (sel_relations sel) > 1 then Inl SCHEMA_FIELD_NOT_EXIST
      else SUCCESS)"

definition check_attribute :: "(string \<Rightarrow> nat option) \<Rightarrow> Env \<Rightarrow> Selects \<Rightarrow> RelAttr \<Rightarrow> unit result" where
  "check_attribute cat e sel a =
     (case attribute_name a of
        None \<Rightarrow> Inl SCHEMA_FIELD_NOT_EXIST
      | Some n \<Rightarrow> if n = ''*'' then SUCCESS else check_column cat e sel a)"

definition check_operand :: "(string \<Rightarrow> nat option) \<Rightarrow> Env \<Rightarrow> Selects \<Rightarrow> int \<Rightarrow> RelAttr \<Rightarrow> unit result" where
  "check_operand cat e sel is_attr a = (if is_attr = 1 then check_column cat e sel a else SUCCESS)"

definition check_select :: "(string \<Rightarrow> nat option) \<Rightarrow> Env \<Rightarrow> Selects \<Rightarrow> unit result" where
  "check_select cat e sel =
     (case check_all (check_relation cat e) (sel_relations sel) of
        Inl c \<Rightarrow> Inl c
      | Inr _ \<Rightarrow>
          (case check_joins cat e (sel_relations sel) (sel_joins sel) of
             Inl c \<Rightarrow> Inl c
           | Inr rels \<Rightarrow>
               (case check_all (check_listed rels 1) (sel_attributes sel) of
                  Inl c \<Rightarrow> Inl c
                | Inr _ \<Rightarrow>
                    (case check_all (both_sides (check_listed rels)) (sel_conditions sel) of
                       Inl c \<Rightarrow> Inl c
                     | Inr _ \<Rightarrow>
                         (case check_all (check_attribute cat e sel) (sel_attributes sel) of
                            Inl c \<Rightarrow> Inl c
                          | Inr _ \<Rightarrow> check_all (both_sides (check_operand cat e sel)) (sel_conditions sel))))))"

definition pre_check :: "(string \<Rightarrow> nat option) \<Rightarrow> Env \<Rightarrow> Query \<Rightarrow> unit result" where
  "pre_check cat e q = (case q of SCF_SELECT sel \<Rightarrow> check_select cat e sel | _ \<Rightarrow> SUCCESS)"

definition select_with_join_or_subselect :: "Selects \<Rightarrow> bool" where
  "select_with_join_or_subselect sel \<longleftrightarrow>
     sel_joins sel \<noteq> [] \<or>
     list_ex (\<lambda>sc. sc_left_selects sc \<noteq> None \<or> sc_right_selects sc \<noteq> None) (sel_conditions sel)"

section \<open>The nodes of a query\<close>

definition match_table :: "Selects \<Rightarrow> string option \<Rightarrow> string \<Rightarrow> bool" where
  "match_table sel n name = (case n of Some m \<Rightarrow> m = name | None \<Rightarrow> length (sel_relations sel) = 1)"

text \<open>The condition is about this table only, or between values.\<close>

definition for_table :: "Selects \<Rightarrow> string \<Rightarrow> Condition \<Rightarrow> bool" where
  "for_table sel name k \<longleftrightarrow>
     left_is_attr k = 0 \<and> right_is_attr k = 0 \<or>
     left_is_attr k = 1 \<and> right_is_attr k = 0 \<and> match_table sel (relation_name (left_attr k)) name \<or>
     left_is_attr k = 0 \<and> right_is_attr k = 1 \<and> match_table sel (relation_name (right_attr k)) name \<or>
     left_is_attr k = 1 \<and> right_is_attr k = 1 \<and> match_table sel (relation_name (left_attr k)) name \<and>
       match_table sel (relation_name (right_attr k)) name"

text \<open>The filters of one table; a date in a condition is formatted in place.\<close>

fun selection_filters ::
  "Selects \<Rightarrow> TableMeta \<Rightarrow> string \<Rightarrow> (nat \<Rightarrow> ConDesc \<times> ConDesc) \<Rightarrow> nat \<Rightarrow> SqlCondition list \<Rightarrow>
   (DefaultConditionFilter list \<times> SqlCondition list) result" where
  "selection_filters sel tm name stack i [] = Inr ([], [])"
| "selection_filters sel tm name stack i (sc # cs) =
     (if sc_left_ast sc \<noteq> NullNode \<or> sc_right_ast sc \<noteq> NullNode \<or> \<not> for_table sel name (sc_cond sc)
      then map_sum id (\<lambda>(fs, cs). (fs, sc # cs)) (selection_filters sel tm name stack (i + 1) cs)
      else
        (case df_init_condition tm (fst (stack i)) (snd (stack i)) (sc_cond sc) of
           (Inl c, _) \<Rightarrow> Inl c
         | (Inr f, k) \<Rightarrow>
             map_sum id
               (\<lambda>(fs, cs). (f # fs, SqlCondition k (sc_left_ast sc) (sc_right_ast sc) (sc_left_selects sc)
                                     (sc_right_selects sc) # cs))
               (selection_filters sel tm name stack (i + 1) cs)))"

fun with_conditions :: "SqlCondition list \<Rightarrow> Selects \<Rightarrow> Selects" where
  "with_conditions cs (Selects ag ats ex re jo co ob gb) = Selects ag ats ex re jo cs ob gb"

definition create_selection_executor ::
  "(string \<Rightarrow> nat option) \<Rightarrow> Env \<Rightarrow> (nat \<Rightarrow> ConDesc \<times> ConDesc) \<Rightarrow> Selects \<Rightarrow> string option \<Rightarrow>
   (SelectExeNode \<times> Selects) result" where
  "create_selection_executor cat e stack sel name =
     (case (name, meta_for cat e name) of
        (Some n, Some tm) \<Rightarrow>
          map_sum id (\<lambda>(fs, cs). (select_init (the (cat n)) (from_table tm TupleSchema_new) fs, with_conditions cs sel))
            (selection_filters sel tm n stack 0 (sel_conditions sel))
      | _ \<Rightarrow> Inl SCHEMA_TABLE_NOT_EXIST)"

fun create_selections ::
  "(string \<Rightarrow> nat option) \<Rightarrow> Env \<Rightarrow> (nat \<Rightarrow> nat \<Rightarrow> ConDesc \<times> ConDesc) \<Rightarrow> nat \<Rightarrow> Selects \<Rightarrow> string option list \<Rightarrow>
   (SelectExeNode list \<times> Selects) result" where
  "create_selections cat e stack i sel [] = Inr ([], sel)"
| "create_selections cat e stack i sel (r # rs) =
     (case create_selection_executor cat e (stack i) sel r of
        Inl c \<Rightarrow> Inl c
      | Inr (n, sel) \<Rightarrow> map_sum id (\<lambda>(ns, sel). (n # ns, sel)) (create_selections cat e stack (i + 1) sel rs))"

text \<open>\<^verbatim>\<open>field_index[relation] = {}\<close>, then its columns from the position \<open>k\<close> on.\<close>

fun create_field_index ::
  "(string \<Rightarrow> nat option) \<Rightarrow> Env \<Rightarrow> int \<Rightarrow> string option list \<Rightarrow> field_index \<Rightarrow> field_index result" where
  "create_field_index cat e k [] fi = Inr fi"
| "create_field_index cat e k (r # rs) fi =
     (case (r, meta_for cat e r) of
        (Some n, Some tm) \<Rightarrow>
          let fs = drop sys_field_num (tm_fields tm) in
          create_field_index cat e (k + int (length fs)) rs
            (AList.update n (map (\<lambda>(f, i). (fm_name f, k + int i)) (rev (zip fs [0..<length fs]))) fi)
      | _ \<Rightarrow> Inl UB)"

text \<open>The conditions between two columns; \<open>junk\<close> is a filter that has not been set.\<close>

definition column_desc :: "field_index \<Rightarrow> RelAttr \<Rightarrow> CartesianConDesc result" where
  "column_desc fi a =
     (case (relation_name a, attribute_name a) of
        (Some t, Some n) \<Rightarrow> map_sum id (\<lambda>i. no_con_desc\<lparr>cc_value_index := i\<rparr>) (index_at fi t n)
      | _ \<Rightarrow> Inl UB)"

fun cartesian_filters :: "CartesianFilter \<Rightarrow> field_index \<Rightarrow> SqlCondition list \<Rightarrow> CartesianFilter list result" where
  "cartesian_filters junk fi [] = Inr []"
| "cartesian_filters junk fi (sc # cs) =
     (let k = sc_cond sc in
      if left_is_attr k = 1 \<and> right_is_attr k = 1 then
        (case (column_desc fi (left_attr k), column_desc fi (right_attr k)) of
           (Inr l, Inr r) \<Rightarrow>
             map_sum id ((#) (snd (cartesian_filter_init junk l r (comp k)))) (cartesian_filters junk fi cs)
         | _ \<Rightarrow> Inl UB)
      else cartesian_filters junk fi cs)"

fun from_relations ::
  "(string \<Rightarrow> nat option) \<Rightarrow> Env \<Rightarrow> string option list \<Rightarrow> TupleSchema \<Rightarrow> TupleSchema result" where
  "from_relations cat e [] s = Inr s"
| "from_relations cat e (r # rs) s =
     (case meta_for cat e r of None \<Rightarrow> Inl UB | Some tm \<Rightarrow> from_relations cat e rs (from_table tm s))"

definition create_cartesian_executor ::
  "CartesianFilter \<Rightarrow> (string \<Rightarrow> nat option) \<Rightarrow> Env \<Rightarrow> Selects \<Rightarrow> TupleSet list \<Rightarrow> field_index \<Rightarrow> CartesianExeNode result" where
  "create_cartesian_executor junk cat e sel sets fi =
     (case cartesian_filters junk fi (sel_conditions sel) of
        Inl c \<Rightarrow> Inl c
      | Inr fs \<Rightarrow>
          map_sum id (\<lambda>s. \<lparr>cn_sets = sets, cn_filters = fs, cn_schema = s\<rparr>)
            (from_relations cat e (rev (sel_relations sel)) TupleSchema_new))"

text \<open>The \<^verbatim>\<open>schema_add_field\<close> of this file reports a missing column.\<close>

definition stage_add_field :: "TableMeta \<Rightarrow> string option \<Rightarrow> int \<Rightarrow> TupleSchema \<Rightarrow> TupleSchema result" where
  "stage_add_field tm name order s =
     (case field_named tm name of
        None \<Rightarrow> Inl SCHEMA_FIELD_MISSING
      | Some f \<Rightarrow> Inr (add_if_not_exists (fm_type f) (tm_name tm) (fm_name f) order s))"

fun order_by_schema ::
  "(string \<Rightarrow> nat option) \<Rightarrow> Env \<Rightarrow> Selects \<Rightarrow> (RelAttr \<times> int) list \<Rightarrow> TupleSchema \<Rightarrow> TupleSchema result" where
  "order_by_schema cat e sel [] s = Inr s"
| "order_by_schema cat e sel ((a, order) # as) s =
     (case meta_for cat e (if relation_name a \<noteq> None then relation_name a else relation sel) of
        None \<Rightarrow> Inl SCHEMA_TABLE_NOT_EXIST
      | Some tm \<Rightarrow>
          (case stage_add_field tm (attribute_name a) order s of
             Inl c \<Rightarrow> Inl c
           | Inr s \<Rightarrow> order_by_schema cat e sel as s))"

definition create_orderby_executor ::
  "(string \<Rightarrow> nat option) \<Rightarrow> Env \<Rightarrow> Selects \<Rightarrow> field_index \<Rightarrow> OrderByExeNode result" where
  "create_orderby_executor cat e sel fi =
     map_sum id (\<lambda>s. \<lparr>ob_schema = s, ob_index = fi\<rparr>) (order_by_schema cat e sel (sel_order_by sel) TupleSchema_new)"

text \<open>The columns of the output of a single table; \<open>star\<close> is set once there was a star.\<close>

fun single_table_schema :: "TableMeta \<Rightarrow> string \<Rightarrow> bool \<Rightarrow> RelAttr list \<Rightarrow> TupleSchema \<Rightarrow> TupleSchema result" where
  "single_table_schema tm name star [] s = Inr s"
| "single_table_schema tm name star (a # as) s =
     (if relation_name a = None \<or> relation_name a = Some name then
        (case attribute_name a of
           None \<Rightarrow> Inl UB
         | Some n \<Rightarrow>
             if n = ''*'' then single_table_schema tm name True as (from_table tm s)
             else if star then Inl SCHEMA_FIELD_NOT_EXIST
             else (case stage_add_field tm (Some n) 0 s of
                     Inl c \<Rightarrow> Inl c
                   | Inr s \<Rightarrow> single_table_schema tm name star as s))
      else single_table_schema tm name star as s)"

fun multi_table_schema ::
  "(string \<Rightarrow> nat option) \<Rightarrow> Env \<Rightarrow> string option list \<Rightarrow> RelAttr list \<Rightarrow> TupleSchema \<Rightarrow> TupleSchema result" where
  "multi_table_schema cat e rels [] s = Inr s"
| "multi_table_schema cat e rels (a # as) s =
     (case (attribute_name a, if listed rels a then meta_for cat e (relation_name a) else None) of
        (Some n, Some tm) \<Rightarrow>
          if n = ''*'' then multi_table_schema cat e rels as (from_table tm s)
          else (case stage_add_field tm (Some n) 0 s of
                  Inl c \<Rightarrow> Inl c
                | Inr s \<Rightarrow> multi_table_schema cat e rels as s)
      | _ \<Rightarrow> Inl UB)"

definition only_star :: "Selects \<Rightarrow> bool" where
  "only_star sel \<longleftrightarrow>
     (case sel_attributes sel of [a] \<Rightarrow> relation_name a = None \<and> attribute_name a = Some ''*'' | _ \<Rightarrow> False)"

definition output_schema :: "(string \<Rightarrow> nat option) \<Rightarrow> Env \<Rightarrow> Selects \<Rightarrow> TupleSchema result" where
  "output_schema cat e sel =
     (if \<exists>r \<in> set (sel_relations sel). meta_for cat e r = None then Inl UB
      else case sel_relations sel of
             [r] \<Rightarrow> single_table_schema (the (meta_for cat e r)) (the r) False (rev (sel_attributes sel)) TupleSchema_new
           | rels \<Rightarrow>
               if only_star sel then from_relations cat e (rev rels) TupleSchema_new
               else multi_table_schema cat e rels (rev (sel_attributes sel)) TupleSchema_new)"

definition create_output_executor ::
  "(string \<Rightarrow> nat option) \<Rightarrow> Env \<Rightarrow> Selects \<Rightarrow> TupleSet \<Rightarrow> field_index \<Rightarrow> OutputExeNode result" where
  "create_output_executor cat e sel s fi =
     map_sum id (\<lambda>schema. \<lparr>on_schema = schema, on_set = fst (set_move_assign TupleSet_new s), on_index = fi\<rparr>)
       (output_schema cat e sel)"

section \<open>Aggregates\<close>

definition no_agg_desc :: AggreDesc where
  "no_agg_desc = \<lparr>ag_type = UNDEFINEDAGG, ag_is_attr = 0, ag_relation = None, ag_attr = None, ag_is_star = 0, ag_value = 0\<rparr>"

definition aggre_value_float :: "Value \<Rightarrow> 32 word result" where
  "aggre_value_float v =
     (if vtype v \<noteq> INTS \<and> vtype v \<noteq> FLOATS then Inl SCHEMA_FIELD_MISSING
      else case vdata v of
             None \<Rightarrow> Inl UB
           | Some d \<Rightarrow> Inr (if vtype v = INTS then float_of_int (get_int d 0) else get32 d 0))"

text \<open>The checks of a column that is aggregated; its name is that of the field.\<close>

definition aggre_field :: "TableMeta \<Rightarrow> Aggregate \<Rightarrow> string result" where
  "aggre_field tm a =
     (case field_named tm (attribute_name (aggre_attr a)) of
        None \<Rightarrow> Inl SCHEMA_FIELD_MISSING
      | Some f \<Rightarrow>
          if fm_type f = UNDEFINED then Inl SCHEMA_FIELD_MISSING
          else if (fm_type f = CHARS \<or> fm_type f = DATES) \<and> (aggre_type a = SUMS \<or> aggre_type a = AVGS)
          then Inl SCHEMA_FIELD_MISSING
          else Inr (fm_name f))"

definition aggreDesc_check_and_set :: "(string \<Rightarrow> nat option) \<Rightarrow> Env \<Rightarrow> Selects \<Rightarrow> Aggregate \<Rightarrow> AggreDesc result" where
  "aggreDesc_check_and_set cat e sel a =
     (let d = no_agg_desc\<lparr>ag_type := aggre_type a, ag_is_attr := aggre_is_attr a\<rparr>;
          r = relation_name (aggre_attr a)
      in if aggre_is_attr a = 1 then
           if attribute_name (aggre_attr a) = Some ''*'' then
             if aggre_type a \<noteq> COUNTS then Inl SCHEMA_FIELD_MISSING
             else Inr (d\<lparr>ag_relation := r, ag_attr := Some ''*'', ag_is_attr := 0, ag_is_star := 1, ag_value := float_of_int 1\<rparr>)
           else (case meta_for cat e (if r = None then relation sel else r) of
                   None \<Rightarrow> Inl UB
                 | Some tm \<Rightarrow> map_sum id (\<lambda>n. d\<lparr>ag_relation := r, ag_attr := Some n\<rparr>) (aggre_field tm a))
         else map_sum id (\<lambda>x. d\<lparr>ag_value := x\<rparr>) (aggre_value_float (aggre_value a)))"

fun aggregate_descs :: "(string \<Rightarrow> nat option) \<Rightarrow> Env \<Rightarrow> Selects \<Rightarrow> Aggregate list \<Rightarrow> AggreDesc list result" where
  "aggregate_descs cat e sel [] = Inr []"
| "aggregate_descs cat e sel (a # as) =
     (case aggreDesc_check_and_set cat e sel a of
        Inl c \<Rightarrow> Inl (if c = UB then UB else INVALID_ARGUMENT)
      | Inr d \<Rightarrow> map_sum id ((#) d) (aggregate_descs cat e sel as))"

fun group_by_schema ::
  "(string \<Rightarrow> nat option) \<Rightarrow> Env \<Rightarrow> Selects \<Rightarrow> RelAttr list \<Rightarrow> TupleSchema \<Rightarrow> TupleSchema result" where
  "group_by_schema cat e sel [] s = Inr s"
| "group_by_schema cat e sel (a # as) s =
     (case meta_for cat e (if relation_name a = None then relation sel else relation_name a) of
        None \<Rightarrow> Inl UB
      | Some tm \<Rightarrow>
          (case schema_add_field tm (attribute_name a) s of
             Inl c \<Rightarrow> Inl c
           | Inr s \<Rightarrow> group_by_schema cat e sel as s))"

definition create_aggregation_executor ::
  "(string \<Rightarrow> nat option) \<Rightarrow> Env \<Rightarrow> Selects \<Rightarrow> TupleSet \<Rightarrow> AggregationExeNode result" where
  "create_aggregation_executor cat e sel s =
     (case aggregate_descs cat e sel (sel_aggregates sel) of
        Inl c \<Rightarrow> Inl c
      | Inr ds \<Rightarrow>
          (case (group_by_schema cat e sel (sel_group_bys sel) TupleSchema_new, meta_for cat e (relation sel)) of
             (Inr gs, Some tm) \<Rightarrow> Inr (aggregation_init tm (gs\<lparr>ts_aggs := ds\<rparr>) s)
           | _ \<Rightarrow> Inl UB))"

section \<open>\<^verbatim>\<open>do_select\<close>\<close>

fun execute_selections :: "SelectExeNode list \<Rightarrow> Env \<Rightarrow> (TupleSet list result \<times> Env) option" where
  "execute_selections [] e = Some (Inr [], e)"
| "execute_selections (n # ns) e =
     (case select_execute n TupleSet_new e of
        None \<Rightarrow> None
      | Some (Inl c, _, e) \<Rightarrow> Some (Inl c, e)
      | Some (Inr _, s, e) \<Rightarrow>
          map_option (\<lambda>(r, e). (map_sum id ((#) s) r, e)) (execute_selections ns e))"

text \<open>The sets of the tables put together.\<close>

definition select_tuples ::
  "CartesianFilter \<Rightarrow> (string \<Rightarrow> nat option) \<Rightarrow> Env \<Rightarrow> Selects \<Rightarrow> TupleSet list \<Rightarrow> field_index \<Rightarrow> TupleSet result" where
  "select_tuples junk cat e sel sets fi =
     (case sets of
        [s] \<Rightarrow> Inr (fst (set_move_assign TupleSet_new s))
      | _ \<Rightarrow>
          (case create_cartesian_executor junk cat e sel sets fi of
             Inl c \<Rightarrow> Inl UB
           | Inr n \<Rightarrow> cartesian_execute n TupleSet_new))"

definition order_tuples ::
  "sorter \<Rightarrow> (string \<Rightarrow> nat option) \<Rightarrow> Env \<Rightarrow> Selects \<Rightarrow> field_index \<Rightarrow> TupleSet \<Rightarrow> TupleSet result" where
  "order_tuples sorter cat e sel fi s =
     (if sel_order_by sel = [] then Inr s
      else case create_orderby_executor cat e sel fi of
             Inl c \<Rightarrow> Inl UB
           | Inr n \<Rightarrow> order_by_execute sorter n s)"

text \<open>The output of a query without aggregates.  The return code of \<^verbatim>\<open>create_output_executor\<close> is
  overwritten: when it fails, the node has no columns and no tuples.\<close>

definition output_set ::
  "CartesianFilter \<Rightarrow> (string \<Rightarrow> nat option) \<Rightarrow> Env \<Rightarrow> Selects \<Rightarrow> field_index \<Rightarrow> TupleSet \<Rightarrow> TupleSet result" where
  "output_set junk cat e sel fi s =
     (case create_output_executor cat e sel s fi of
        Inl c \<Rightarrow>
          if c = UB then Inl UB
          else (case create_expression_executor junk sel TupleSet_new TupleSchema_new fi of
                  Inl c \<Rightarrow> Inl c
                | Inr n \<Rightarrow> exp_execute n TupleSet_new)
      | Inr out \<Rightarrow>
          (case create_expression_executor junk sel (on_set out) (on_schema out) fi of
             Inl c \<Rightarrow> Inl c
           | Inr n \<Rightarrow> exp_execute n TupleSet_new))"

definition aggregate_set :: "(string \<Rightarrow> nat option) \<Rightarrow> Env \<Rightarrow> Selects \<Rightarrow> TupleSet \<Rightarrow> TupleSet result" where
  "aggregate_set cat e sel s =
     (case create_aggregation_executor cat e sel s of
        Inl c \<Rightarrow> Inl c
      | Inr n \<Rightarrow> aggregation_execute n)"

definition select_set ::
  "sorter \<Rightarrow> CartesianFilter \<Rightarrow> (string \<Rightarrow> nat option) \<Rightarrow> Env \<Rightarrow> Selects \<Rightarrow> TupleSet list \<Rightarrow> TupleSet result" where
  "select_set sorter junk cat e sel sets =
     (case create_field_index cat e 0 (rev (sel_relations sel)) [] of
        Inl c \<Rightarrow> Inl UB
      | Inr fi \<Rightarrow>
          (case select_tuples junk cat e sel sets fi of
             Inl c \<Rightarrow> Inl c
           | Inr s \<Rightarrow>
               if sel_aggregates sel \<noteq> [] then aggregate_set cat e sel s
               else (case order_tuples sorter cat e sel fi s of
                       Inl c \<Rightarrow> Inl c
                     | Inr s \<Rightarrow> output_set junk cat e sel fi s)))"

definition end_trx_if_need :: "World \<Rightarrow> bool \<Rightarrow> bool \<Rightarrow> unit table_op" where
  "end_trx_if_need w multi all_right e =
     (if multi then Some (SUCCESS, e)
      else map_option (\<lambda>(r, e). (if r = Inl UB then Inl UB else SUCCESS, e))
             (if all_right then commit (logged w e) e else rollback (logged w e) e))"

definition ended :: "World \<Rightarrow> bool \<Rightarrow> bool \<Rightarrow> 'a result \<Rightarrow> 'a table_op" where
  "ended w multi all_right r =
     bindT (end_trx_if_need w multi all_right) (\<lambda>_ e. Some (r, e))"

text \<open>A failure of the aggregation returns without ending the transaction.\<close>

definition do_select ::
  "World \<Rightarrow> sorter \<Rightarrow> CartesianFilter \<Rightarrow> (nat \<Rightarrow> nat \<Rightarrow> ConDesc \<times> ConDesc) \<Rightarrow> (string \<Rightarrow> nat option) \<Rightarrow> bool \<Rightarrow> Selects \<Rightarrow>
   byte list table_op" where
  "do_select w sorter junk stack cat multi sel e =
     (case create_selections cat e stack 0 sel (rev (sel_relations sel)) of
        Inl c \<Rightarrow> ended w multi False (Inl c) e
      | Inr (ns, sel) \<Rightarrow>
          if ns = [] then ended w multi False (Inl SQL_SYNTAX) e
          else
            (case execute_selections ns e of
               None \<Rightarrow> None
             | Some (Inl c, e) \<Rightarrow> ended w multi False (Inl c) e
             | Some (Inr sets, e) \<Rightarrow>
                 (case select_set sorter junk cat e sel sets of
                    Inl c \<Rightarrow> Some (Inl c, e)
                  | Inr s \<Rightarrow>
                      (case set_print s (length sets > 1) of
                         Inl c \<Rightarrow> Some (Inl c, e)
                       | Inr text \<Rightarrow> ended w multi True (Inr text) e))))"

end
