(* ===== verification/Exec_Spec.thy ===== *)
theory Exec_Spec
  imports Select_Stage Tuple_Spec Aggregate_Spec
begin

text \<open>
  Properties of the execution nodes and of the checks of a query: the product of tables with its conditions,
  sorting, and the resolution of names.
\<close>

section \<open>The product of tables\<close>

lemma cartesian_steps:
  "\<forall>ts \<in> set tss. composite_cartesian_filter fs (concat ts) = Inr (P (concat ts)) \<Longrightarrow>
   fold (cartesian_step fs) tss (Inr s) = Inr (s\<lparr>set_tuples := set_tuples s @ filter P (map concat tss)\<rparr>)"
  by (induction tss arbitrary: s) (auto simp: cartesian_step_def set_add_def)

text \<open>C13: the product of several tables consists of the combinations of one tuple from each that meet all
  conditions between their columns, in order, when every condition can be evaluated.\<close>

theorem cartesian_execute_correct:
  assumes "\<forall>ts \<in> set (product_lists (map set_tuples (cn_sets n))). \<forall>f \<in> set (cn_filters n).
      \<exists>b. cartesian_filter f (concat ts) = Inr b"
  shows "cartesian_execute n TupleSet_new =
    Inr \<lparr>set_tuples = filter (\<lambda>t. \<forall>f \<in> set (cn_filters n). cartesian_filter f t = Inr True)
                         (map concat (product_lists (map set_tuples (cn_sets n)))),
         set_schema = cn_schema n\<rparr>"
proof -
  let ?P = "\<lambda>t. \<forall>f \<in> set (cn_filters n). cartesian_filter f t = Inr True"
  have "composite_cartesian_filter (cn_filters n) (concat ts) = Inr (?P (concat ts))"
    if "ts \<in> set (product_lists (map set_tuples (cn_sets n)))" for ts
    using all_hold_defined [of "cn_filters n" "\<lambda>f. cartesian_filter f (concat ts)"
        "\<lambda>f. cartesian_filter f (concat ts) = Inr True"] assms that
    by (fastforce simp: composite_cartesian_filter_def)
  then have "fold (cartesian_step (cn_filters n)) (product_lists (map set_tuples (cn_sets n)))
      (Inr (set_schema_of (cn_schema n) TupleSet_new)) =
    Inr ((set_schema_of (cn_schema n) TupleSet_new)\<lparr>set_tuples :=
      set_tuples (set_schema_of (cn_schema n) TupleSet_new) @
      filter ?P (map concat (product_lists (map set_tuples (cn_sets n))))\<rparr>)"
    by (intro cartesian_steps) blast
  then show ?thesis
    by (simp add: cartesian_execute_def descartes_product set_schema_of_def TupleSet_new_def)
qed

lemma cartesian_execute_correct_witness:
  "cartesian_execute
     \<lparr>cn_sets = [\<lparr>set_tuples = [[IntValue 1], [IntValue 2]], set_schema = TupleSchema_new\<rparr>,
                 \<lparr>set_tuples = [[IntValue 2], [IntValue 3]], set_schema = TupleSchema_new\<rparr>],
      cn_filters = [\<lparr>cf_left = no_con_desc\<lparr>cc_value_index := 0\<rparr>, cf_right = no_con_desc\<lparr>cc_value_index := 1\<rparr>,
                     cf_op = EQUAL_TO\<rparr>],
      cn_schema = TupleSchema_new\<rparr> TupleSet_new =
   Inr \<lparr>set_tuples = [[IntValue 2, IntValue 2]], set_schema = TupleSchema_new\<rparr>"
  by (subst cartesian_execute_correct)
    (auto simp: cartesian_filter_def tuple_get_def compare_tuple_values_def compare_result_def no_con_desc_def int32_def)

section \<open>Sorting\<close>

definition ordered_on :: "('a \<Rightarrow> 'a \<Rightarrow> bool) \<Rightarrow> 'a set \<Rightarrow> bool" where
  "ordered_on lt A \<longleftrightarrow>
     (\<forall>a \<in> A. \<forall>b \<in> A. lt a b \<longrightarrow> \<not> lt b a) \<and> (\<forall>a \<in> A. \<forall>b \<in> A. \<forall>c \<in> A. lt a c \<longrightarrow> lt a b \<or> lt b c)"

lemma ordered_strict_weak:
  "\<forall>a \<in> A. \<forall>b \<in> A. cmp a b = Inr (lt a b) \<Longrightarrow> ordered_on lt A \<Longrightarrow> strict_weak cmp A"
proof -
  assume cmp: "\<forall>a \<in> A. \<forall>b \<in> A. cmp a b = Inr (lt a b)" and o: "ordered_on lt A"
  have a: "\<not> lt a b \<or> \<not> lt b a" if "a \<in> A" "b \<in> A" for a b using o that unfolding ordered_on_def by blast
  have n: "lt a b \<or> lt b c" if "a \<in> A" "b \<in> A" "c \<in> A" "lt a c" for a b c
    using o that unfolding ordered_on_def by blast
  have t: "lt a c" if "a \<in> A" "b \<in> A" "c \<in> A" "lt a b" "lt b c" for a b c
    using n [OF that(1,3,2,4)] a [OF that(2,3)] that(5) by blast
  show ?thesis
    unfolding strict_weak_def
  proof (intro conjI ballI impI)
    fix x y z assume x: "x \<in> A" "y \<in> A" "z \<in> A"
    show "cmp x z = Inr True" if "cmp x y = Inr True \<and> cmp y z = Inr True" using that cmp x t [OF x] by simp
    show "cmp x z = Inr False" if "cmp x y = Inr False \<and> cmp y z = Inr False" using that cmp x n [OF x] by auto
  qed (use cmp a in auto)
qed

text \<open>The sign of the comparison of two values of a column.\<close>

definition sign_order :: "('a \<Rightarrow> 'a \<Rightarrow> int) \<Rightarrow> 'a set \<Rightarrow> bool" where
  "sign_order c A \<longleftrightarrow>
     (\<forall>a \<in> A. \<forall>b \<in> A. c b a = - c a b) \<and>
     (\<forall>a \<in> A. \<forall>b \<in> A. \<forall>d \<in> A. (c a b < 0 \<longrightarrow> c b d < 0 \<longrightarrow> c a d < 0) \<and> (c a b = 0 \<longrightarrow> c a d = c b d))"

lemma col_sign:
  assumes "\<forall>t \<in> A. col_ok ty (val t)"
  shows "\<exists>c. (\<forall>a \<in> A. \<forall>b \<in> A. tv_compare (val a) (val b) = Inr (c a b)) \<and> sign_order c A"
proof -
  define c where "c a b = projr (tv_compare (val a) (val b))" for a b
  have cmp: "tv_compare (val a) (val b) = Inr (c a b) \<and> c b a = - c a b \<and> (c a b = 0 \<longleftrightarrow> val a = val b)"
    if "a \<in> A" "b \<in> A" for a b
  proof -
    have "col_ok ty (val a)" "col_ok ty (val b)" using assms that by simp_all
    from col_compare [OF this] show ?thesis by (metis c_def sum.sel(2))
  qed
  have "c a d < 0" if "a \<in> A" "b \<in> A" "d \<in> A" "c a b < 0" "c b d < 0" for a b d
    using col_trans [of ty "val a" "val b" "val d"] assms that by (simp add: c_def)
  moreover have "c a d = c b d" if "a \<in> A" "b \<in> A" "d \<in> A" "c a b = 0" for a b d
    using cmp [OF that(1,2)] that(4) by (simp add: c_def)
  ultimately have "sign_order c A" unfolding sign_order_def using cmp by blast
  then show ?thesis using cmp by blast
qed

lemma ordered_on_lexicographic:
  assumes "ordered_on lt A" "sign_order c A"
  shows "ordered_on (\<lambda>a b. if c a b \<noteq> 0 then (if up then c a b < 0 else c a b > 0) else lt a b) A"
    (is "ordered_on ?lt A")
proof -
  have neg: "c b a = - c a b" if "a \<in> A" "b \<in> A" for a b
    using assms(2) that unfolding sign_order_def by blast
  have tr: "c a d < 0" if "a \<in> A" "b \<in> A" "d \<in> A" "c a b < 0" "c b d < 0" for a b d
    using assms(2) that unfolding sign_order_def by blast
  have eq: "c a d = c b d" if "a \<in> A" "b \<in> A" "d \<in> A" "c a b = 0" for a b d
    using assms(2) that unfolding sign_order_def by blast
  have "?lt a b \<or> ?lt b d" if abd: "a \<in> A" "b \<in> A" "d \<in> A" and l: "?lt a d" for a b d
  proof -
    have 1: "c a b = 0 \<Longrightarrow> c a d = c b d" by (rule eq [OF abd])
    have 2: "c b d = 0 \<Longrightarrow> c a b = c a d" using eq [of b d a] neg [of a b] neg [of a d] abd by simp
    have 3: "c a d = 0 \<Longrightarrow> c a b = - c b d" using eq [of a d b] neg [of b d] abd by simp
    have 4: "c a b < 0 \<Longrightarrow> c b d < 0 \<Longrightarrow> c a d < 0" by (rule tr [OF abd])
    have 5: "c a b > 0 \<Longrightarrow> c b d > 0 \<Longrightarrow> c a d > 0"
      using tr [of d b a] neg [of a b] neg [of b d] neg [of a d] abd by simp
    have 6: "lt a d \<Longrightarrow> lt a b \<or> lt b d" using assms(1) abd unfolding ordered_on_def by blast
    show ?thesis
    proof (cases "c a b = 0 \<or> c b d = 0")
      case True
      then show ?thesis using l 1 2 6 by (cases "c a d = 0") (auto split: if_splits)
    next
      case False
      then show ?thesis using l 3 4 5 by (cases up; cases "c a d = 0"; cases "c a b < 0"; cases "c b d < 0") auto
    qed
  qed
  moreover have "\<not> ?lt b a" if "a \<in> A" "b \<in> A" "?lt a b" for a b
  proof -
    have "\<not> (lt a b \<and> lt b a)" using assms(1) that(1,2) unfolding ordered_on_def by blast
    then show ?thesis using that(3) neg [OF that(1,2)] by (auto split: if_splits)
  qed
  ultimately show ?thesis unfolding ordered_on_def by (intro conjI ballI impI) blast+
qed

definition column_of :: "field_index \<Rightarrow> Tuple set \<Rightarrow> TupleField \<Rightarrow> bool" where
  "column_of fi A f \<longleftrightarrow>
     (\<exists>i ty. index_at fi (tf_table f) (tf_name f) = Inr i \<and> (\<forall>t \<in> A. \<exists>v. tuple_get t i = Inr v \<and> col_ok ty v))"

lemma sort_cmp_ordered:
  "\<forall>f \<in> set fs. column_of fi A f \<Longrightarrow>
   \<exists>lt. (\<forall>a \<in> A. \<forall>b \<in> A. sort_cmp fi fs a b = Inr (lt a b)) \<and> ordered_on lt A"
proof (induction fs)
  case Nil
  show ?case by (intro exI [of _ "\<lambda>_ _. False"]) (simp add: ordered_on_def)
next
  case (Cons f fs)
  then obtain lt where lt: "\<forall>a \<in> A. \<forall>b \<in> A. sort_cmp fi fs a b = Inr (lt a b)" "ordered_on lt A" by auto
  obtain i ty where i: "index_at fi (tf_table f) (tf_name f) = Inr i"
    "\<forall>t \<in> A. \<exists>v. tuple_get t i = Inr v \<and> col_ok ty v"
    using Cons.prems by (auto simp: column_of_def)
  define val where "val t = projr (tuple_get t i)" for t
  have val: "tuple_get t i = Inr (val t)" "col_ok ty (val t)" if "t \<in> A" for t using i(2) that by (auto simp: val_def)
  obtain c where c: "\<forall>a \<in> A. \<forall>b \<in> A. tv_compare (val a) (val b) = Inr (c a b)" "sign_order c A"
    using col_sign [of A ty val] val(2) by blast
  let ?lt = "\<lambda>a b. if c a b \<noteq> 0 then (if tf_order f = 0 then c a b < 0 else c a b > 0) else lt a b"
  have "sort_cmp fi (f # fs) a b = Inr (?lt a b)" if "a \<in> A" "b \<in> A" for a b
    using i(1) val(1) [OF that(1)] val(1) [OF that(2)] c(1) lt(1) that by simp
  moreover have "ordered_on ?lt A" by (rule ordered_on_lexicographic [OF lt(2) c(2)])
  ultimately show ?case by (intro exI [of _ ?lt] conjI ballI)
qed


text \<open>Insertion sort is one of the functions that meet the specification of \<^verbatim>\<open>std::sort\<close>.\<close>

fun insert_by :: "('a \<Rightarrow> 'a \<Rightarrow> bool result) \<Rightarrow> 'a \<Rightarrow> 'a list \<Rightarrow> 'a list result" where
  "insert_by cmp x [] = Inr [x]"
| "insert_by cmp x (y # ys) =
     (case cmp x y of
        Inl c \<Rightarrow> Inl c
      | Inr True \<Rightarrow> Inr (x # y # ys)
      | Inr False \<Rightarrow> map_sum id ((#) y) (insert_by cmp x ys))"

fun sort_by :: "('a \<Rightarrow> 'a \<Rightarrow> bool result) \<Rightarrow> 'a list \<Rightarrow> 'a list result" where
  "sort_by cmp [] = Inr []"
| "sort_by cmp (x # xs) = (case sort_by cmp xs of Inl c \<Rightarrow> Inl c | Inr ys \<Rightarrow> insert_by cmp x ys)"

lemma strict_weakD:
  assumes "strict_weak cmp A" "a \<in> A" "b \<in> A"
  shows "\<exists>r. cmp a b = Inr r" "cmp a a = Inr False"
    "c \<in> A \<Longrightarrow> cmp a b = Inr True \<Longrightarrow> cmp b c = Inr True \<Longrightarrow> cmp a c = Inr True"
    "c \<in> A \<Longrightarrow> cmp a b = Inr False \<Longrightarrow> cmp b c = Inr False \<Longrightarrow> cmp a c = Inr False"
  using assms unfolding strict_weak_def by blast+

lemma insert_by_sorted:
  assumes "strict_weak cmp A" "x \<in> A" "set ys \<subseteq> A" "sorted_wrt (\<lambda>a b. cmp b a = Inr False) ys"
  shows "\<exists>zs. insert_by cmp x ys = Inr zs \<and> mset zs = add_mset x (mset ys) \<and> sorted_wrt (\<lambda>a b. cmp b a = Inr False) zs"
  using assms(3,4)
proof (induction ys)
  case (Cons y ys)
  have A: "y \<in> A" "set ys \<subseteq> A" using Cons.prems(1) by auto
  note sw = strict_weakD [OF assms(1)]
  obtain b where b: "cmp x y = Inr b" using sw(1) [OF assms(2) A(1)] by blast
  show ?case
  proof (cases b)
    case True
    obtain r where r: "cmp y x = Inr r" using sw(1) [OF A(1) assms(2)] by blast
    have "\<not> r" using sw(3) [OF assms(2) A(1) assms(2)] sw(2) [OF assms(2,2)] r b True by auto
    then have yx: "cmp y x = Inr False" using r by simp
    have "cmp z x = Inr False" if "z \<in> set ys" for z
      using sw(4) [of z y x] that A assms(2) yx Cons.prems(2) by auto
    then show ?thesis using b True yx Cons.prems(2) by simp
  next
    case False
    obtain zs where zs: "insert_by cmp x ys = Inr zs" "mset zs = add_mset x (mset ys)" "sorted_wrt (\<lambda>a b. cmp b a = Inr False) zs"
      using Cons by auto
    have "set zs = insert x (set ys)" using zs(2) by (metis set_mset_add_mset_insert set_mset_mset)
    then show ?thesis using zs b False Cons.prems(2) by auto
  qed
qed simp

lemma sort_by_sorted: "std_sort sort_by"
proof -
  have "\<exists>ys. sort_by cmp xs = Inr ys \<and> mset ys = mset xs \<and> sorted_wrt (\<lambda>a b. cmp b a = Inr False) ys"
    if "strict_weak cmp A" "set xs \<subseteq> A" for cmp :: "Tuple \<Rightarrow> Tuple \<Rightarrow> bool result" and xs A
    using that(2)
  proof (induction xs)
    case (Cons x xs)
    then obtain ys where ys: "sort_by cmp xs = Inr ys" "mset ys = mset xs" "sorted_wrt (\<lambda>a b. cmp b a = Inr False) ys" by auto
    moreover have "set ys \<subseteq> A" using Cons.prems ys(2) by (metis insert_subset list.simps(15) set_mset_mset)
    ultimately show ?case using insert_by_sorted [OF that(1), of x ys] Cons.prems by auto
  qed simp
  then show ?thesis unfolding std_sort_def by (meson order_refl)
qed


section \<open>Resolution of names\<close>

lemma check_all_SUCCESS: "check_all f xs = SUCCESS \<longleftrightarrow> (\<forall>x \<in> set xs. f x = SUCCESS)"
  by (induction xs) (auto split: sum.splits)

lemma both_sides_SUCCESS:
  "both_sides f sc = SUCCESS \<longleftrightarrow>
   f (left_is_attr (sc_cond sc)) (left_attr (sc_cond sc)) = SUCCESS \<and>
   f (right_is_attr (sc_cond sc)) (right_attr (sc_cond sc)) = SUCCESS"
  by (auto simp: both_sides_def split: sum.splits)

lemma check_joins_tables:
  "check_joins cat e rels js = Inr rels' \<Longrightarrow>
   rels' = rev (map (\<lambda>(_, n, _). n) js) @ rels \<and> (\<forall>(_, n, _) \<in> set js. meta_for cat e n \<noteq> None)"
proof (induction cat e rels js rule: check_joins.induct)
  case (2 cat e rels ty n cs js)
  then show ?case by (auto simp: check_relation_def split: sum.splits if_splits)
qed simp

text \<open>The field that a column of a query stands for.\<close>

definition column_field :: "(string \<Rightarrow> nat option) \<Rightarrow> Env \<Rightarrow> Selects \<Rightarrow> RelAttr \<Rightarrow> FieldMeta option" where
  "column_field cat e sel a =
     (case meta_for cat e (if relation_name a \<noteq> None then relation_name a else relation sel) of
        None \<Rightarrow> None
      | Some tm \<Rightarrow> field_named tm (attribute_name a))"

lemma check_column_SUCCESS:
  "sel_relations sel \<noteq> [] \<Longrightarrow> check_column cat e sel a = SUCCESS \<Longrightarrow>
   column_field cat e sel a \<noteq> None \<and> (relation_name a \<noteq> None \<or> length (sel_relations sel) = 1)"
  by (cases "sel_relations sel")
    (auto simp: check_column_def check_field_def column_field_def split: if_splits option.splits)

lemma check_select_parts:
  assumes "check_select cat e sel = SUCCESS"
  shows "\<forall>r \<in> set (sel_relations sel). meta_for cat e r \<noteq> None"
    and "\<forall>(_, n, _) \<in> set (sel_joins sel). meta_for cat e n \<noteq> None"
    and "\<forall>a \<in> set (sel_attributes sel). relation_name a \<noteq> None \<longrightarrow>
      relation_name a \<in> set (sel_relations sel) \<union> set (map (\<lambda>(_, n, _). n) (sel_joins sel))"
    and "\<forall>a \<in> set (sel_attributes sel). check_attribute cat e sel a = SUCCESS"
    and "\<forall>sc \<in> set (sel_conditions sel). both_sides (check_operand cat e sel) sc = SUCCESS"
proof -
  have r: "check_all (check_relation cat e) (sel_relations sel) = SUCCESS"
    using assms by (auto simp: check_select_def split: sum.splits)
  then show "\<forall>r \<in> set (sel_relations sel). meta_for cat e r \<noteq> None"
    by (auto simp: check_all_SUCCESS check_relation_def split: if_splits)
  obtain rels where j: "check_joins cat e (sel_relations sel) (sel_joins sel) = Inr rels"
    using assms r by (auto simp: check_select_def split: sum.splits)
  note J = check_joins_tables [OF j]
  then show "\<forall>(_, n, _) \<in> set (sel_joins sel). meta_for cat e n \<noteq> None" by blast
  have a: "check_all (check_listed rels 1) (sel_attributes sel) = SUCCESS"
    "check_all (check_attribute cat e sel) (sel_attributes sel) = SUCCESS"
    "check_all (both_sides (check_operand cat e sel)) (sel_conditions sel) = SUCCESS"
    using assms r j by (auto simp: check_select_def split: sum.splits)
  then show "\<forall>a \<in> set (sel_attributes sel). check_attribute cat e sel a = SUCCESS"
    "\<forall>sc \<in> set (sel_conditions sel). both_sides (check_operand cat e sel) sc = SUCCESS"
    by (simp_all add: check_all_SUCCESS)
  show "\<forall>a \<in> set (sel_attributes sel). relation_name a \<noteq> None \<longrightarrow>
      relation_name a \<in> set (sel_relations sel) \<union> set (map (\<lambda>(_, n, _). n) (sel_joins sel))"
    using a(1) J by (auto simp: check_all_SUCCESS check_listed_def listed_def split: if_splits)
qed

text \<open>A star or a column with a field.\<close>

definition output_column :: "(string \<Rightarrow> nat option) \<Rightarrow> Env \<Rightarrow> Selects \<Rightarrow> RelAttr \<Rightarrow> bool" where
  "output_column cat e sel a \<longleftrightarrow>
     attribute_name a = Some ''*'' \<or> attribute_name a \<noteq> None \<and> column_field cat e sel a \<noteq> None"

lemma check_attribute_SUCCESS:
  "sel_relations sel \<noteq> [] \<Longrightarrow> check_attribute cat e sel a = SUCCESS \<Longrightarrow> output_column cat e sel a"
  by (auto simp: check_attribute_def output_column_def dest: check_column_SUCCESS split: option.splits if_splits)

lemma from_relations_ok: "\<forall>r \<in> set rs. meta_for cat e r \<noteq> None \<Longrightarrow> \<exists>s'. from_relations cat e rs s = Inr s'"
  by (induction rs arbitrary: s) auto

lemma stage_add_field_not_UB: "stage_add_field tm n k s \<noteq> Inl UB"
  by (simp add: stage_add_field_def split: option.splits)

lemma single_table_schema_not_UB:
  "\<forall>a \<in> set as. attribute_name a \<noteq> None \<Longrightarrow> single_table_schema tm name star as s \<noteq> Inl UB"
  by (induction as arbitrary: star s) (auto split: option.splits sum.splits simp: stage_add_field_not_UB)

lemma multi_table_schema_not_UB:
  "\<forall>a \<in> set as. attribute_name a \<noteq> None \<and> listed rels a \<and> meta_for cat e (relation_name a) \<noteq> None \<Longrightarrow>
   multi_table_schema cat e rels as s \<noteq> Inl UB"
  by (induction as arbitrary: s) (auto split: option.splits sum.splits simp: stage_add_field_not_UB)

lemma create_field_index_ok:
  "\<forall>r \<in> set rs. meta_for cat e r \<noteq> None \<Longrightarrow>
   \<exists>fi'. create_field_index cat e k rs fi = Inr fi' \<and>
     (\<forall>t tm f. Some t \<in> set rs \<or> index_find fi t (fm_name f) \<noteq> None \<longrightarrow> meta_for cat e (Some t) = Some tm \<longrightarrow>
        f \<in> set (drop sys_field_num (tm_fields tm)) \<longrightarrow> index_find fi' t (fm_name f) \<noteq> None)"
proof (induction rs arbitrary: k fi)
  case (Cons r rs)
  obtain tm where tm: "meta_for cat e r = Some tm" using Cons.prems by auto
  then obtain n where n: "r = Some n" by (cases r) (auto simp: meta_for_def)
  let ?fs = "drop sys_field_num (tm_fields tm)"
  let ?m = "map (\<lambda>(f, i). (fm_name f, k + int i)) (rev (zip ?fs [0..<length ?fs]))"
  let ?fi = "AList.update n ?m fi"
  have entry: "index_find ?fi n (fm_name f) \<noteq> None" if f: "f \<in> set ?fs" for f
  proof -
    obtain j where "j < length ?fs" "?fs ! j = f" using f unfolding in_set_conv_nth by blast
    then have "(f, j) \<in> set (zip ?fs [0..<length ?fs])" by (auto simp: set_zip)
    then have "(fm_name f, k + int j) \<in> set ?m" unfolding set_map set_rev by (rule rev_image_eqI) simp
    then have "map_of ?m (fm_name f) \<noteq> None" by (metis map_of_eq_None_iff fst_conv image_eqI)
    then show ?thesis by (simp add: index_find_def AList.update_conv' del: map_map set_map)
  qed
  obtain fi' where fi': "create_field_index cat e (k + int (length ?fs)) rs ?fi = Inr fi'"
    "\<forall>t tm f. Some t \<in> set rs \<or> index_find ?fi t (fm_name f) \<noteq> None \<longrightarrow> meta_for cat e (Some t) = Some tm \<longrightarrow>
        f \<in> set (drop sys_field_num (tm_fields tm)) \<longrightarrow> index_find fi' t (fm_name f) \<noteq> None"
    using Cons.IH [of "k + int (length ?fs)" ?fi] Cons.prems by auto
  have other: "index_find ?fi t m = index_find fi t m" if "t \<noteq> n" for t m
    using that by (simp add: index_find_def AList.update_conv')
  have "index_find fi' t (fm_name f) \<noteq> None"
    if "Some t \<in> set (r # rs) \<or> index_find fi t (fm_name f) \<noteq> None" "meta_for cat e (Some t) = Some tm'"
      "f \<in> set (drop sys_field_num (tm_fields tm'))" for t tm' f
  proof (cases "t = n")
    case True
    then show ?thesis using fi'(2) entry that tm n by auto
  next
    case False
    then show ?thesis using fi'(2) other [OF False] that n by (metis option.inject set_ConsD)
  qed
  moreover have "create_field_index cat e k (r # rs) fi = Inr fi'" using fi'(1) tm n by (simp add: Let_def)
  ultimately show ?case by blast
qed simp

text \<open>C15: a query that passes the check names only tables and columns that exist: every column of its output
  and of its conditions has a field, the schema of its output can be built without a failed assertion
  (for several tables, if every column of the list has its table), and the index of the columns has an
  entry for every field but the hidden one.\<close>

theorem checked_query_resolves:
  assumes "pre_check cat e (SCF_SELECT sel) = SUCCESS" "sel_relations sel \<noteq> []"
  shows "(\<forall>a \<in> set (sel_attributes sel). output_column cat e sel a) \<and>
    (\<forall>sc \<in> set (sel_conditions sel).
      (left_is_attr (sc_cond sc) = 1 \<longrightarrow> column_field cat e sel (left_attr (sc_cond sc)) \<noteq> None) \<and>
      (right_is_attr (sc_cond sc) = 1 \<longrightarrow> column_field cat e sel (right_attr (sc_cond sc)) \<noteq> None)) \<and>
    (sel_joins sel = [] \<longrightarrow>
      length (sel_relations sel) = 1 \<or> only_star sel \<or> (\<forall>a \<in> set (sel_attributes sel). relation_name a \<noteq> None) \<longrightarrow>
      output_schema cat e sel \<noteq> Inl UB) \<and>
    (\<exists>fi. create_field_index cat e 0 (rev (sel_relations sel)) [] = Inr fi \<and>
      (\<forall>t tm f. Some t \<in> set (sel_relations sel) \<longrightarrow> meta_for cat e (Some t) = Some tm \<longrightarrow>
        f \<in> set (drop sys_field_num (tm_fields tm)) \<longrightarrow> (\<exists>i. index_at fi t (fm_name f) = Inr i)))"
proof (intro conjI impI)
  have c: "check_select cat e sel = SUCCESS" using assms(1) by (simp add: pre_check_def)
  note P = check_select_parts [OF c]
  show col: "\<forall>a \<in> set (sel_attributes sel). output_column cat e sel a"
    using P(4) check_attribute_SUCCESS [OF assms(2)] by blast
  show "\<forall>sc \<in> set (sel_conditions sel).
      (left_is_attr (sc_cond sc) = 1 \<longrightarrow> column_field cat e sel (left_attr (sc_cond sc)) \<noteq> None) \<and>
      (right_is_attr (sc_cond sc) = 1 \<longrightarrow> column_field cat e sel (right_attr (sc_cond sc)) \<noteq> None)"
    using P(5) check_column_SUCCESS [OF assms(2), of cat e] unfolding both_sides_SUCCESS check_operand_def by metis
  show "\<exists>fi. create_field_index cat e 0 (rev (sel_relations sel)) [] = Inr fi \<and>
      (\<forall>t tm f. Some t \<in> set (sel_relations sel) \<longrightarrow> meta_for cat e (Some t) = Some tm \<longrightarrow>
        f \<in> set (drop sys_field_num (tm_fields tm)) \<longrightarrow> (\<exists>i. index_at fi t (fm_name f) = Inr i))"
    using create_field_index_ok [of "rev (sel_relations sel)" cat e 0 "[]"] P(1)
    by (auto simp: index_at_def split: option.splits) (metis option.distinct(1))
  assume j: "sel_joins sel = []"
    and names: "length (sel_relations sel) = 1 \<or> only_star sel \<or> (\<forall>a \<in> set (sel_attributes sel). relation_name a \<noteq> None)"
  have an: "\<forall>a \<in> set (sel_attributes sel). attribute_name a \<noteq> None" using col by (auto simp: output_column_def)
  show "output_schema cat e sel \<noteq> Inl UB"
  proof (cases "length (sel_relations sel) = 1")
    case True
    then obtain r where "sel_relations sel = [r]" by (auto simp: length_Suc_conv)
    then show ?thesis using P(1) an by (simp add: output_schema_def single_table_schema_not_UB)
  next
    case False
    show ?thesis
    proof (cases "only_star sel")
      case True
      then show ?thesis using False P(1) from_relations_ok [of "rev (sel_relations sel)" cat e TupleSchema_new] assms(2)
        by (auto simp: output_schema_def split: list.splits)
    next
      case star: False
      have "\<forall>a \<in> set (rev (sel_attributes sel)). attribute_name a \<noteq> None \<and> listed (sel_relations sel) a \<and> meta_for cat e (relation_name a) \<noteq> None"
        using an P(1,3) j names False star by (auto simp: listed_def)
      from multi_table_schema_not_UB [OF this] show ?thesis using False P(1) star assms(2)
        by (auto simp: output_schema_def split: list.splits)
    qed
  qed
qed

definition example_meta :: TableMeta where
  "example_meta = \<lparr>tm_name = ''t'',
     tm_fields = [\<lparr>fm_name = ''__trx'', fm_type = INTS, fm_offset = 0, fm_len = 4, fm_visible = False, fm_nullable = False\<rparr>,
                  \<lparr>fm_name = ''a'', fm_type = INTS, fm_offset = 4, fm_len = 4, fm_visible = True, fm_nullable = False\<rparr>],
     tm_indexes = [], tm_record_size = 8\<rparr>"

definition example_env :: "Env \<Rightarrow> Env" where
  "example_env e = e\<lparr>e_tables := (\<lambda>_. Table_new\<lparr>t_meta := example_meta\<rparr>)\<rparr>"

lemma example_meta_for: "meta_for (\<lambda>n. if n = ''t'' then Some 0 else None) (example_env e) (Some ''t'') = Some example_meta"
  by (simp add: meta_for_def example_env_def)

lemma checked_query_resolves_witness:
  "\<forall>e. output_schema (\<lambda>n. if n = ''t'' then Some 0 else None) (example_env e)
     (Selects [] [\<lparr>relation_name = None, attribute_name = Some ''a''\<rparr>] [] [Some ''t''] [] [] [] []) \<noteq> Inl UB"
proof
  fix e
  let ?cat = "\<lambda>n. if n = ''t'' then Some (0 :: nat) else None"
  let ?sel = "Selects [] [\<lparr>relation_name = None, attribute_name = Some ''a''\<rparr>] [] [Some ''t''] [] [] [] []"
  have "pre_check ?cat (example_env e) (SCF_SELECT ?sel) = SUCCESS"
    using example_meta_for [of e]
    by (simp add: pre_check_def check_select_def check_relation_def check_listed_def check_attribute_def check_column_def
        check_field_def relation_def field_named_def example_meta_def)
  from checked_query_resolves [OF this] show "output_schema ?cat (example_env e) ?sel \<noteq> Inl UB" by simp
qed

definition column_query :: "string \<Rightarrow> string \<Rightarrow> Selects" where
  "column_query table name =
     Selects [] [\<lparr>relation_name = None, attribute_name = Some name\<rparr>] [] [Some table] [] [] [] []"

text \<open>The hidden transaction column passes the check of a query like any other, but selecting it from a
  table with rows ends in an access outside the index of the columns.\<close>

theorem hidden_column_aborts:
  assumes "meta_for cat e (Some t) = Some tm" "n \<noteq> ''*''" "field_named tm (Some n) = Some f"
    and "\<forall>g \<in> set (drop sys_field_num (tm_fields tm)). fm_name g \<noteq> n" "set_tuples s \<noteq> []"
  shows "pre_check cat e (SCF_SELECT (column_query t n)) = SUCCESS \<and>
    select_set sorter junk cat e (column_query t n) [s] = Inl UB"
proof -
  have n: "fm_name f = n" using assms(3) by (auto simp: field_named_def find_Some_iff)
  obtain x xs where s: "set_tuples s = x # xs" using assms(5) by (cases "set_tuples s") auto
  let ?m = "map (\<lambda>(f, i). (fm_name f, 0 + int i))
      (rev (zip (drop sys_field_num (tm_fields tm)) [0..<length (drop sys_field_num (tm_fields tm))]))"
  have "map_of ?m n = None" using assms(4) by (force simp: map_of_eq_None_iff dest: set_zip_leftD)
  then have "index_at [(t, ?m)] (tm_name tm) n = Inl UB" by (simp add: index_at_def index_find_def)
  moreover have "create_field_index cat e 0 [Some t] [] = Inr [(t, ?m)]" using assms(1) by (simp add: Let_def)
  ultimately have "select_set sorter junk cat e (column_query t n) [s] = Inl UB"
    using assms(1,2,3) n s
    by (simp add: select_set_def column_query_def select_tuples_def order_tuples_def output_set_def create_output_executor_def
        output_schema_def stage_add_field_def create_expression_executor_def exp_execute_def exp_tuple_def
        composite_expression_filter_def add_if_not_exists_def TupleSchema_new_def schema_add_def index_of_field_def
        set_move_assign_def TupleSet_new_def schema_append_def schema_clear_def add_exps_def)
  moreover have "pre_check cat e (SCF_SELECT (column_query t n)) = SUCCESS"
    using assms(1-3) by (simp add: pre_check_def check_select_def column_query_def check_relation_def check_listed_def
        check_attribute_def check_column_def check_field_def relation_def)
  ultimately show ?thesis by simp
qed

lemma hidden_column_aborts_witness:
  "\<forall>e sorter junk. pre_check (\<lambda>n. if n = ''t'' then Some 0 else None) (example_env e) (SCF_SELECT (column_query ''t'' ''__trx'')) = SUCCESS \<and>
     select_set sorter junk (\<lambda>n. if n = ''t'' then Some 0 else None) (example_env e) (column_query ''t'' ''__trx'')
       [\<lparr>set_tuples = [[IntValue 7]], set_schema = TupleSchema_new\<rparr>] = Inl UB"
  using hidden_column_aborts [OF example_meta_for, of "''__trx''"
      "\<lparr>fm_name = ''__trx'', fm_type = INTS, fm_offset = 0, fm_len = 4, fm_visible = False, fm_nullable = False\<rparr>"
      "\<lparr>set_tuples = [[IntValue 7]], set_schema = TupleSchema_new\<rparr>"]
  by (simp add: example_meta_def field_named_def sys_field_num_def)

end
