(* ===== verification/Executors.thy ===== *)
theory Executors
  imports Select_Stage
begin

text \<open>
  The executors of queries with joins and subqueries, \<^verbatim>\<open>src/src/observer/sql/executor\<close>:
  \<^verbatim>\<open>scan_executor.cpp\<close>, \<^verbatim>\<open>nest_loop_join_executor.cpp\<close>, \<^verbatim>\<open>sub_query_executor.cpp\<close> and
  \<^verbatim>\<open>agg_executor.cpp\<close>.  A null list of temporary filters is the empty one.  The values of temporary
  filters are numbers, so binding them to a table does not change what they mean.  The result of a call
  is the return code and what the tuple set then holds.
\<close>

section \<open>The executors\<close>

datatype Executor =
    Scan nat TupleSchema "Filter list" bool
  | Join TupleSchema Executor Executor "Filter list" bool
  | SubQuery TupleSchema Executor RelAttr CompOp Executor "SqlCondition list"
  | Agg TupleSchema Executor

fun output_schema_of :: "Executor \<Rightarrow> TupleSchema" where
  "output_schema_of (Scan t s fs ban) = s"
| "output_schema_of (Join s l r fs ban) = s"
| "output_schema_of (SubQuery s l a op r cs) = s"
| "output_schema_of (Agg s ex) = s"

fun set_output_schema :: "TupleSchema \<Rightarrow> Executor \<Rightarrow> Executor" where
  "set_output_schema s (Scan t _ fs ban) = Scan t s fs ban"
| "set_output_schema s (Join _ l r fs ban) = Join s l r fs ban"
| "set_output_schema s (SubQuery _ l a op r cs) = SubQuery s l a op r cs"
| "set_output_schema s (Agg _ ex) = Agg s ex"

text \<open>What is not determined by the code: the hash function, the type of a string value made from a C
  string, and what a fresh \<^verbatim>\<open>Value\<close> and \<^verbatim>\<open>FilterDesc\<close> contain.\<close>

record Unset =
  u_hash :: "TupleValue \<Rightarrow> nat"
  u_type :: AttrType
  u_value :: Value
  u_desc :: FilterDesc

type_synonym next_op = "Filter list \<Rightarrow> Env \<Rightarrow> (unit result \<times> TupleSet \<times> Env) option"

section \<open>Constructors\<close>

text \<open>A join keeps the filters whose columns are in its output.\<close>

definition join_filter_applies :: "field_index \<Rightarrow> Filter \<Rightarrow> bool" where
  "join_filter_applies fi f \<longleftrightarrow>
     (fd_is_attr (f_left f) \<longrightarrow> map_of fi (fd_table_name (f_left f)) \<noteq> None) \<and>
     (fd_is_attr (f_right f) \<longrightarrow> map_of fi (fd_table_name (f_right f)) \<noteq> None)"

definition NestLoopJoinExecutor :: "TupleSchema \<Rightarrow> Executor \<Rightarrow> Executor \<Rightarrow> Filter list \<Rightarrow> bool \<Rightarrow> Executor result" where
  "NestLoopJoinExecutor s l r fs ban =
     (if list_ex (\<lambda>f. fd_is_attr (f_left f) \<or> fd_is_attr (f_right f)) fs then
        (case table_field_index s of
           Inl c \<Rightarrow> Inl c
         | Inr (fi, _) \<Rightarrow> Inr (Join s l r (filter (join_filter_applies fi) fs) ban))
      else Inr (Join s l r fs ban))"

definition SubQueryExecutor :: "Executor \<Rightarrow> RelAttr \<Rightarrow> CompOp \<Rightarrow> Executor \<Rightarrow> SqlCondition list \<Rightarrow> Executor" where
  "SubQueryExecutor l a op r cs = SubQuery (output_schema_of l) l a op r cs"

section \<open>\<^verbatim>\<open>init\<close>\<close>

fun bind_filters :: "Unset \<Rightarrow> TableMeta \<Rightarrow> Filter list \<Rightarrow> unit result \<times> Filter list" where
  "bind_filters u tm [] = (SUCCESS, [])"
| "bind_filters u tm (f # fs) =
     (case bind_table tm (u_value u) (u_value u) f of
        (Inl c, f1) \<Rightarrow> (Inl c, f1 # fs)
      | (Inr _, f1) \<Rightarrow> let (r, fs1) = bind_filters u tm fs in (r, f1 # fs1))"

fun init_executor :: "Unset \<Rightarrow> Env \<Rightarrow> Executor \<Rightarrow> unit result \<times> Executor" where
  "init_executor u e (Scan t s fs ban) =
     (let (r, fs) = bind_filters u (t_meta (e_tables e t)) fs in (r, Scan t s fs ban))"
| "init_executor u e (Join s l r fs ban) =
     (case init_executor u e l of
        (Inl c, l) \<Rightarrow> (Inl c, Join s l r fs ban)
      | (Inr _, l) \<Rightarrow> let (rc, r) = init_executor u e r in (rc, Join s l r fs ban))"
| "init_executor u e (SubQuery s l a op r cs) =
     (case init_executor u e l of
        (Inl c, l) \<Rightarrow> (Inl c, SubQuery s l a op r cs)
      | (Inr _, l) \<Rightarrow> let (rc, r) = init_executor u e r in (rc, SubQuery s l a op r cs))"
| "init_executor u e (Agg s ex) = (let (rc, ex) = init_executor u e ex in (rc, Agg s ex))"

section \<open>Scans\<close>

text \<open>The context of the executors has no transaction: a scan sees every record.  The return code of
  binding a temporary filter is dropped.\<close>

fun bind_temporary :: "Unset \<Rightarrow> TableMeta \<Rightarrow> Filter list \<Rightarrow> Filter list result" where
  "bind_temporary u tm [] = Inr []"
| "bind_temporary u tm (f # fs) =
     (case bind_table tm (u_value u) (u_value u) f of
        (r, f1) \<Rightarrow> if r = Inl UB then Inl UB else map_sum id ((#) f1) (bind_temporary u tm fs))"

definition no_trx :: "Env \<Rightarrow> Env" where
  "no_trx e = e\<lparr>e_trx := None\<rparr>"

definition scan_next :: "Unset \<Rightarrow> nat \<Rightarrow> TupleSchema \<Rightarrow> Filter list \<Rightarrow> bool \<Rightarrow> next_op" where
  "scan_next u t s own ban fs e =
     (let ts = \<lparr>set_tuples = [], set_schema = s\<rparr> in
      if ban then Some (SUCCESS, ts, e)
      else case bind_temporary u (t_meta (e_tables e t)) fs of
             Inl c \<Rightarrow> Some (Inl c, ts, e)
           | Inr tmp \<Rightarrow>
               map_option (\<lambda>(r, ts, e1). (r, ts, e1\<lparr>e_trx := e_trx e\<rparr>))
                 (scan_record (Some (Composite (map Record_Filter (tmp @ own)))) (- 1) ts tuple_reader
                   ((no_trx e)\<lparr>e_cur := t\<rparr>)))"

section \<open>Joins\<close>

definition pair_valid :: "Unset \<Rightarrow> Filter list \<Rightarrow> Tuple \<Rightarrow> field_index \<Rightarrow> Tuple \<Rightarrow> field_index \<Rightarrow> bool result" where
  "pair_valid u fs l fl r fr = all_hold (\<lambda>f. filter_pair (u_type u) f l fl r fr) fs"

fun join_row ::
  "Unset \<Rightarrow> Filter list \<Rightarrow> field_index \<Rightarrow> field_index \<Rightarrow> int list \<Rightarrow> int list \<Rightarrow> Tuple \<Rightarrow> Tuple list \<Rightarrow> Tuple list result" where
  "join_row u fs fl fr li ri l [] = Inr []"
| "join_row u fs fl fr li ri l (r # rs) =
     (case pair_valid u fs l fl r fr of
        Inl c \<Rightarrow> Inl c
      | Inr False \<Rightarrow> join_row u fs fl fr li ri l rs
      | Inr True \<Rightarrow>
          (case (tuple_select l li, tuple_select r ri) of
             (Inr a, Inr b) \<Rightarrow> map_sum id ((#) (a @ b)) (join_row u fs fl fr li ri l rs)
           | _ \<Rightarrow> Inl UB))"

fun join_rows ::
  "Unset \<Rightarrow> Filter list \<Rightarrow> field_index \<Rightarrow> field_index \<Rightarrow> int list \<Rightarrow> int list \<Rightarrow> Tuple list \<Rightarrow> Tuple list \<Rightarrow> Tuple list result" where
  "join_rows u fs fl fr li ri [] rs = Inr []"
| "join_rows u fs fl fr li ri (l # ls) rs =
     (case join_row u fs fl fr li ri l rs of
        Inl c \<Rightarrow> Inl c
      | Inr ts \<Rightarrow> map_sum id (\<lambda>us. ts @ us) (join_rows u fs fl fr li ri ls rs))"

text \<open>The temporary filters are checked before those of the join.\<close>

definition join_sets :: "Unset \<Rightarrow> TupleSchema \<Rightarrow> Filter list \<Rightarrow> TupleSet \<Rightarrow> TupleSet \<Rightarrow> Tuple list result" where
  "join_sets u s fs l r =
     (if set_tuples l = [] \<or> set_tuples r = [] then Inr []
      else case (index_in s (set_schema l), index_in s (set_schema r)) of
             (Inr (li, sl), Inr (ri, sr)) \<Rightarrow>
               (case (table_field_index sl, table_field_index sr) of
                  (Inr (fl, _), Inr (fr, _)) \<Rightarrow> join_rows u fs fl fr li ri (set_tuples l) (set_tuples r)
                | _ \<Rightarrow> Inl UB)
           | _ \<Rightarrow> Inl UB)"

text \<open>The return codes of the two inputs are dropped.\<close>

definition dropped :: "(unit result \<times> TupleSet \<times> Env) option \<Rightarrow> (TupleSet result \<times> Env) option" where
  "dropped m = map_option (\<lambda>(r, ts, e). (if r = Inl UB then Inl UB else Inr ts, e)) m"

definition join_next :: "Unset \<Rightarrow> TupleSchema \<Rightarrow> next_op \<Rightarrow> next_op \<Rightarrow> Filter list \<Rightarrow> bool \<Rightarrow> next_op" where
  "join_next u s left right own ban fs e =
     (let out = (\<lambda>ts. \<lparr>set_tuples = ts, set_schema = s\<rparr>) in
      if ban then Some (SUCCESS, out [], e)
      else case dropped (left [] e) of
             None \<Rightarrow> None
           | Some (Inl c, e) \<Rightarrow> Some (Inl c, out [], e)
           | Some (Inr l, e) \<Rightarrow>
               (case dropped (right [] e) of
                  None \<Rightarrow> None
                | Some (Inl c, e) \<Rightarrow> Some (Inl c, out [], e)
                | Some (Inr r, e) \<Rightarrow>
                    (case join_sets u s (fs @ own) l r of
                       Inl c \<Rightarrow> Some (Inl c, out [], e)
                     | Inr ts \<Rightarrow> Some (SUCCESS, out ts, e))))"

section \<open>Aggregation\<close>

definition agg_rows :: "TupleSchema \<Rightarrow> TupleSchema \<Rightarrow> Tuple list \<Rightarrow> Tuple list result" where
  "agg_rows s left_schema ts =
     (if ts = [] then Inr []
      else case table_field_index left_schema of
             Inl c \<Rightarrow> Inl c
           | Inr (fi, _) \<Rightarrow> aggregate_tuples fi None (ts_fields s) (ts_aggs s) ts)"

definition agg_next :: "TupleSchema \<Rightarrow> TupleSchema \<Rightarrow> next_op \<Rightarrow> next_op" where
  "agg_next s left_schema left fs e =
     (case dropped (left fs e) of
        None \<Rightarrow> None
      | Some (Inl c, e) \<Rightarrow> Some (Inl c, \<lparr>set_tuples = [], set_schema = s\<rparr>, e)
      | Some (Inr l, e) \<Rightarrow>
          (case agg_rows s left_schema (set_tuples l) of
             Inl c \<Rightarrow> Some (Inl c, \<lparr>set_tuples = [], set_schema = s\<rparr>, e)
           | Inr ts \<Rightarrow> Some (SUCCESS, \<lparr>set_tuples = ts, set_schema = s\<rparr>, e)))"

section \<open>\<^verbatim>\<open>Filter::from_condition\<close>\<close>

text \<open>One condition, for a table (\<open>None\<close>: for a join).  The value of a subquery is what \<open>run\<close> returns;
  comparing two of them makes the condition true or bans every row.\<close>

datatype made_filter = No_Filter | Ban_All | True_Condition | Made Filter

definition filter_desc :: "Unset \<Rightarrow> string option \<Rightarrow> bool \<Rightarrow> int \<Rightarrow> RelAttr \<Rightarrow> Value \<Rightarrow> FilterDesc option result" where
  "filter_desc u table attr_only is_attr a v =
     (if is_attr = 1 then
        if table \<noteq> None \<and> relation_name a \<noteq> None \<and> relation_name a \<noteq> table then Inr None
        else (case (if relation_name a = None then table else relation_name a, attribute_name a) of
                (Some t, Some n) \<Rightarrow>
                  Inr (Some ((u_desc u)\<lparr>fd_is_attr := True, fd_table_name := t, fd_field_name := n\<rparr>))
              | _ \<Rightarrow> Inl UB)
      else if attr_only then Inr None
      else Inr (Some ((u_desc u)\<lparr>fd_is_attr := False, fd_value := v\<rparr>)))"

text \<open>The value of a subquery; the query is changed while it is built and run.\<close>

type_synonym subquery_op = "Selects \<Rightarrow> (TupleValue \<times> Selects) table_op"

definition constant_side :: "Unset \<Rightarrow> subquery_op \<Rightarrow> Selects option \<Rightarrow> Value \<Rightarrow> (TupleValue \<times> Selects option) table_op" where
  "constant_side u run sel v =
     (case sel of
        Some s \<Rightarrow> bindT (run s) (\<lambda>(x, s). retT (x, Some s))
      | None \<Rightarrow>
          (case construct_tuple_value_from_value (u_type u) v of
             Inr (Some x) \<Rightarrow> retT (x, None)
           | _ \<Rightarrow> failT UB))"

definition from_condition ::
  "Unset \<Rightarrow> subquery_op \<Rightarrow> string option \<Rightarrow> bool \<Rightarrow> SqlCondition \<Rightarrow> (made_filter \<times> SqlCondition) table_op" where
  "from_condition u run table attr_only sc =
     (let k = sc_cond sc; ls = sc_left_selects sc; rs = sc_right_selects sc in
      if (left_is_attr k = 0 \<or> ls \<noteq> None) \<and> (right_is_attr k = 0 \<or> rs \<noteq> None) then
        bindT (constant_side u run ls (left_value k)) (\<lambda>(a, ls).
        bindT (constant_side u run rs (right_value k)) (\<lambda>(b, rs).
        case tv_compare a b of
          Inl c \<Rightarrow> failT c
        | Inr r \<Rightarrow>
            retT (if compare_result r (comp k) then True_Condition else Ban_All,
                  SqlCondition k (sc_left_ast sc) (sc_right_ast sc) ls rs)))
      else if ls \<noteq> None \<or> rs \<noteq> None then retT (No_Filter, sc)
      else
        (case filter_desc u table attr_only (left_is_attr k) (left_attr k) (left_value k) of
           Inl c \<Rightarrow> failT c
         | Inr None \<Rightarrow> retT (No_Filter, sc)
         | Inr (Some l) \<Rightarrow>
             (case filter_desc u table attr_only (right_is_attr k) (right_attr k) (right_value k) of
                Inl c \<Rightarrow> failT c
              | Inr None \<Rightarrow> retT (No_Filter, sc)
              | Inr (Some r) \<Rightarrow> retT (Made \<lparr>f_left = l, f_right = r, f_comp_op = comp k\<rparr>, sc))))"

definition zero_int :: "Value \<Rightarrow> Value" where
  "zero_int v = v\<lparr>vtype := INTS, vdata := Some (\<lambda>_. 0)\<rparr>"

definition change_to_true_condition :: "SqlCondition \<Rightarrow> SqlCondition" where
  "change_to_true_condition sc =
     (let k = sc_cond sc in
      SqlCondition (k\<lparr>left_is_attr := 0, left_value := zero_int (left_value k), comp := EQUAL_TO,
                      right_is_attr := 0, right_value := zero_int (right_value k)\<rparr>) NullNode NullNode None None)"

text \<open>All conditions: the filters are added to those there; the flag says that every row is banned.  The
  conditions are returned as they are afterwards.\<close>

fun from_conditions ::
  "Unset \<Rightarrow> subquery_op \<Rightarrow> string option \<Rightarrow> bool \<Rightarrow> SqlCondition list \<Rightarrow> Filter list \<Rightarrow>
   (Filter list \<times> bool \<times> SqlCondition list) table_op" where
  "from_conditions u run table attr_only [] fs = retT (fs, False, [])"
| "from_conditions u run table attr_only (c # cs) fs =
     bindT (from_condition u run table attr_only c) (\<lambda>(m, c).
       case m of
         Ban_All \<Rightarrow> retT ([], True, c # cs)
       | _ \<Rightarrow>
           bindT (from_conditions u run table attr_only cs (case m of Made f \<Rightarrow> fs @ [f] | _ \<Rightarrow> fs)) (\<lambda>(fs, ban, cs).
             retT (fs, ban, (if m = True_Condition then change_to_true_condition c else c) # cs)))"

section \<open>Subqueries\<close>

text \<open>The set of values: only values with the same hash are compared.  The hash of a string reads the
  object of the string as a C string.\<close>

fun hashable :: "TupleValue \<Rightarrow> bool" where
  "hashable (StringValue ty _) \<longleftrightarrow> ty \<noteq> CHARS \<and> ty \<noteq> DATES \<and> ty \<noteq> INTS \<and> ty \<noteq> FLOATS"
| "hashable _ \<longleftrightarrow> True"

fun value_member :: "Unset \<Rightarrow> TupleValue \<Rightarrow> TupleValue list \<Rightarrow> bool result" where
  "value_member u v [] = (if hashable v then Inr False else Inl UB)"
| "value_member u v (x # xs) =
     (if \<not> hashable v then Inl UB
      else if u_hash u x \<noteq> u_hash u v then value_member u v xs
      else case tv_compare v x of
             Inl c \<Rightarrow> Inl c
           | Inr r \<Rightarrow> if r = 0 then Inr True else value_member u v xs)"

fun value_set :: "Unset \<Rightarrow> Tuple list \<Rightarrow> TupleValue list \<Rightarrow> TupleValue list result" where
  "value_set u [] xs = Inr xs"
| "value_set u (t # ts) xs =
     (case t of
        [] \<Rightarrow> Inl UB
      | v # _ \<Rightarrow>
          (case value_member u v xs of
             Inl c \<Rightarrow> Inl c
           | Inr b \<Rightarrow> value_set u ts (if b then xs else xs @ [v])))"

text \<open>The test of one value of the left side against the column of the right side; a scalar subquery
  is compared through the first element of the set.\<close>

definition is_in_op :: "CompOp \<Rightarrow> bool" where
  "is_in_op op \<longleftrightarrow> op = IN_OP \<or> op = NOT_IN_OP"

definition value_valid :: "Unset \<Rightarrow> CompOp \<Rightarrow> TupleValue list \<Rightarrow> TupleValue \<Rightarrow> bool result" where
  "value_valid u op xs v =
     (if is_in_op op then map_sum id (\<lambda>b. b = (op = IN_OP)) (value_member u v xs)
      else case xs of [] \<Rightarrow> Inl UB | x # _ \<Rightarrow> compare_tuple_values op v x)"

fun valid_tuples :: "Unset \<Rightarrow> CompOp \<Rightarrow> int \<Rightarrow> TupleValue list \<Rightarrow> Tuple list \<Rightarrow> Tuple list result" where
  "valid_tuples u op i xs [] = Inr []"
| "valid_tuples u op i xs (t # ts) =
     (case tuple_get t i of
        Inl c \<Rightarrow> Inl c
      | Inr v \<Rightarrow>
          (case value_valid u op xs v of
             Inl c \<Rightarrow> Inl c
           | Inr b \<Rightarrow> map_sum id (\<lambda>us. if b then t # us else us) (valid_tuples u op i xs ts)))"

text \<open>\<^verbatim>\<open>add_multi_table_filter\<close>: in a condition between a column of the outer tables and one that is
  not, the outer column is replaced by \<open>v\<close>, the value that is compared with the subquery.\<close>

fun tuple_value_pointer :: "Value \<Rightarrow> TupleValue \<Rightarrow> Value result" where
  "tuple_value_pointer v (IntValue i) = Inr (v\<lparr>vtype := INTS, vdata := Some (put_int (\<lambda>_. 0) 0 i)\<rparr>)"
| "tuple_value_pointer v (FloatValue f) = Inr (v\<lparr>vtype := FLOATS, vdata := Some (put32 (\<lambda>_. 0) 0 f)\<rparr>)"
| "tuple_value_pointer v (StringValue ty s) = Inl UB"
| "tuple_value_pointer v NullValue = Inr (v\<lparr>vtype := UNDEFINED, vdata := None\<rparr>)"

definition outer_column :: "field_index \<Rightarrow> int \<Rightarrow> RelAttr \<Rightarrow> bool \<Rightarrow> bool" where
  "outer_column fi is_attr a inside \<longleftrightarrow>
     is_attr \<noteq> 0 \<and> relation_name a \<noteq> None \<and> (map_of fi (the (relation_name a)) \<noteq> None) = inside"

definition replace_outer :: "field_index \<Rightarrow> TupleValue \<Rightarrow> Condition \<Rightarrow> Condition option result" where
  "replace_outer fi v k =
     (let l = (\<lambda>b. outer_column fi (left_is_attr k) (left_attr k) b);
          r = (\<lambda>b. outer_column fi (right_is_attr k) (right_attr k) b)
      in if l True \<and> r False then
           map_sum id (\<lambda>w. Some (k\<lparr>left_is_attr := 0, left_value := w\<rparr>)) (tuple_value_pointer (left_value k) v)
         else if r True \<and> l False then
           map_sum id (\<lambda>w. Some (k\<lparr>right_is_attr := 0, right_value := w\<rparr>)) (tuple_value_pointer (right_value k) v)
         else Inr None)"

fun add_multi_table_filter :: "Unset \<Rightarrow> field_index \<Rightarrow> TupleValue \<Rightarrow> SqlCondition list \<Rightarrow> Filter list result" where
  "add_multi_table_filter u fi v [] = Inr []"
| "add_multi_table_filter u fi v (sc # cs) =
     (case replace_outer fi v (sc_cond sc) of
        Inl c \<Rightarrow> Inl c
      | Inr None \<Rightarrow> add_multi_table_filter u fi v cs
      | Inr (Some k) \<Rightarrow>
          (case (filter_desc u None False (left_is_attr k) (left_attr k) (left_value k),
                 filter_desc u None False (right_is_attr k) (right_attr k) (right_value k)) of
             (Inr (Some l), Inr (Some r)) \<Rightarrow>
               map_sum id ((#) \<lparr>f_left = l, f_right = r, f_comp_op = comp k\<rparr>) (add_multi_table_filter u fi v cs)
           | _ \<Rightarrow> Inl UB))"

text \<open>The loop of a correlated subquery.  \<open>rf\<close> are the filters for the right side; a left tuple without a
  right one leaves its filters there.\<close>

fun correlated ::
  "Unset \<Rightarrow> CompOp \<Rightarrow> int \<Rightarrow> field_index \<Rightarrow> SqlCondition list \<Rightarrow> next_op \<Rightarrow> Filter list \<Rightarrow> Tuple list \<Rightarrow> Env \<Rightarrow>
   (Tuple list result \<times> Env) option" where
  "correlated u op i fi cs right rf [] e = Some (Inr [], e)"
| "correlated u op i fi cs right rf (t # ts) e =
     (case (case tuple_get t i of Inl c \<Rightarrow> Inl c | Inr v \<Rightarrow> map_sum id (Pair v) (add_multi_table_filter u fi v cs)) of
        Inl c \<Rightarrow> Some (Inl c, e)
      | Inr (v, mf) \<Rightarrow>
          (case right (rf @ mf) e of
             None \<Rightarrow> None
           | Some (Inl c, _, e) \<Rightarrow> Some (Inl c, e)
           | Some (Inr _, r, e) \<Rightarrow>
               if \<not> is_in_op op \<and> set_tuples r = [] then correlated u op i fi cs right (rf @ mf) ts e
               else
                 (case (case value_set u (set_tuples r) [] of Inl c \<Rightarrow> Inl c | Inr xs \<Rightarrow> value_valid u op xs v) of
                    Inl c \<Rightarrow> Some (Inl c, e)
                  | Inr b \<Rightarrow>
                      map_option (\<lambda>(r, e). (map_sum id (\<lambda>us. if b then t # us else us) r, e))
                        (correlated u op i fi cs right rf ts e))))"

fun select_valid :: "Unset \<Rightarrow> Filter list \<Rightarrow> field_index \<Rightarrow> int list \<Rightarrow> Tuple list \<Rightarrow> Tuple list result" where
  "select_valid u fs fi idx [] = Inr []"
| "select_valid u fs fi idx (t # ts) =
     (case all_hold (\<lambda>f. filter_tuple (u_type u) f t fi) fs of
        Inl c \<Rightarrow> Inl c
      | Inr False \<Rightarrow> select_valid u fs fi idx ts
      | Inr True \<Rightarrow>
          (case tuple_select t idx of
             Inl c \<Rightarrow> Inl c
           | Inr r \<Rightarrow> map_sum id ((#) r) (select_valid u fs fi idx ts)))"

definition sub_query_shape :: "CompOp \<Rightarrow> TupleSchema \<Rightarrow> bool" where
  "sub_query_shape op s \<longleftrightarrow>
     (if is_in_op op then length (ts_fields s) \<le> 1 else ts_fields s = [] \<and> ts_aggs s \<noteq> [])"

text \<open>The position of the compared column in the left tuples.\<close>

definition compared_column :: "field_index \<Rightarrow> RelAttr \<Rightarrow> int result" where
  "compared_column fi a =
     (case (relation_name a, attribute_name a) of
        (Some t, Some n) \<Rightarrow> (case index_find fi t n of None \<Rightarrow> Inl INVALID_ARGUMENT | Some i \<Rightarrow> Inr i)
      | _ \<Rightarrow> Inl UB)"

definition sub_query_tuples ::
  "Unset \<Rightarrow> CompOp \<Rightarrow> int \<Rightarrow> field_index result \<Rightarrow> SqlCondition list \<Rightarrow> next_op \<Rightarrow> Filter list \<Rightarrow> Tuple list \<Rightarrow> Env \<Rightarrow>
   (Tuple list result \<times> Env) option" where
  "sub_query_tuples u op i ofi cs right fs ls e =
     (if cs = [] then
        (case right [] e of
           None \<Rightarrow> None
         | Some (Inl c, _, e) \<Rightarrow> Some (Inl c, e)
         | Some (Inr _, r, e) \<Rightarrow>
             if \<not> is_in_op op \<and> set_tuples r = [] then Some (Inr [], e)
             else Some (case value_set u (set_tuples r) [] of
                          Inl c \<Rightarrow> Inl c
                        | Inr xs \<Rightarrow> valid_tuples u op i xs ls, e))
      else (case ofi of Inl c \<Rightarrow> Some (Inl c, e) | Inr fi \<Rightarrow> correlated u op i fi cs right fs ls e))"

definition sub_query_next ::
  "Unset \<Rightarrow> TupleSchema \<Rightarrow> TupleSchema \<Rightarrow> next_op \<Rightarrow> RelAttr \<Rightarrow> CompOp \<Rightarrow> TupleSchema \<Rightarrow> next_op \<Rightarrow> SqlCondition list \<Rightarrow> next_op" where
  "sub_query_next u s left_schema left a op right_schema right cs fs e =
     (let out = (\<lambda>ts. \<lparr>set_tuples = ts, set_schema = s\<rparr>) in
      if \<not> sub_query_shape op right_schema then Some (Inl INTERNAL, TupleSet_new, e)
      else case left fs e of
             None \<Rightarrow> None
           | Some (Inl c, _, e) \<Rightarrow> Some (Inl c, out [], e)
           | Some (Inr _, l, e) \<Rightarrow>
               if set_tuples l = [] then Some (SUCCESS, out [], e)
               else (case (case table_field_index (set_schema l) of
                             Inl c \<Rightarrow> Inl c
                           | Inr (fi, sl) \<Rightarrow> map_sum id (\<lambda>i. (fi, sl, i)) (compared_column fi a)) of
                       Inl c \<Rightarrow> Some (Inl c, out [], e)
                     | Inr (fi, sl, i) \<Rightarrow>
                         (case sub_query_tuples u op i (map_sum id fst (table_field_index left_schema)) cs right fs
                                 (set_tuples l) e of
                            None \<Rightarrow> None
                          | Some (Inl c, e) \<Rightarrow> Some (Inl c, out [], e)
                          | Some (Inr ts, e) \<Rightarrow>
                              (case (case index_in s sl of Inl c \<Rightarrow> Inl c | Inr (idx, _) \<Rightarrow> select_valid u fs fi idx ts) of
                                 Inl c \<Rightarrow> Some (Inl c, out [], e)
                               | Inr rows \<Rightarrow> Some (SUCCESS, out rows, e)))))"

section \<open>\<^verbatim>\<open>next\<close>\<close>

primrec next_tuples :: "Unset \<Rightarrow> Executor \<Rightarrow> next_op" where
  "next_tuples u (Scan t s fs ban) = scan_next u t s fs ban"
| "next_tuples u (Join s l r fs ban) = join_next u s (next_tuples u l) (next_tuples u r) fs ban"
| "next_tuples u (SubQuery s l a op r cs) =
     sub_query_next u s (output_schema_of l) (next_tuples u l) a op (output_schema_of r) (next_tuples u r) cs"
| "next_tuples u (Agg s ex) = agg_next s (output_schema_of ex) (next_tuples u ex)"

end
