(* ===== verification/Join_Spec.thy ===== *)
theory Join_Spec
  imports Executors Tuple_Spec Aggregate_Spec
begin

text \<open>
  Properties of the executors: a nested-loop join is the selection over the product of its two sides, and
  \<^verbatim>\<open>in\<close> and \<^verbatim>\<open>not in\<close> keep the tuples whose value is, or is not, among those of the subquery.
\<close>

section \<open>Joins\<close>

definition columns :: "TupleSchema \<Rightarrow> (string \<times> string) list" where
  "columns s = map (\<lambda>f. (tf_table f, tf_name f)) (ts_fields s)"

text \<open>A schema of columns only, without an index.\<close>

definition plain :: "TupleSchema \<Rightarrow> bool" where
  "plain s \<longleftrightarrow> ts_index s = [] \<and> ts_aggs s = []"

definition column_index :: "TupleSchema \<Rightarrow> field_index" where
  "column_index s = index_fields (ts_fields s) 0 []"

lemma table_field_index_plain: "plain s \<Longrightarrow> table_field_index s = Inr (column_index s, s\<lparr>ts_index := column_index s\<rparr>)"
  by (simp add: plain_def table_field_index_def column_index_def)

lemma column_index_Some:
  "distinct (columns s) \<Longrightarrow> k < length (ts_fields s) \<Longrightarrow>
   index_find (column_index s) (tf_table (ts_fields s ! k)) (tf_name (ts_fields s ! k)) = Some (int k)"
  using index_find_fields [of "ts_fields s" k 0 "[]"] by (simp add: columns_def column_index_def)

lemma column_index_None: "(t, n) \<notin> set (columns s) \<Longrightarrow> index_find (column_index s) t n = None"
  unfolding column_index_def
  by (subst index_find_fields_notin) (auto simp: columns_def index_find_def image_iff)

lemma column_index_nth:
  "distinct (columns s) \<Longrightarrow> k < length (columns s) \<Longrightarrow> columns s ! k = (t, n) \<Longrightarrow> index_find (column_index s) t n = Some (int k)"
  using column_index_Some [of s k] by (auto simp: columns_def)

lemma map_filter_append: "List.map_filter f (xs @ ys) = List.map_filter f xs @ List.map_filter f ys"
  by (simp add: List.map_filter_def)

lemma map_filter_all: "(\<And>k. k < length xs \<Longrightarrow> f (xs ! k) = Some (g k)) \<Longrightarrow> List.map_filter f xs = map g [0..<length xs]"
proof (induction xs rule: rev_induct)
  case (snoc x xs)
  have "f (xs ! k) = Some (g k)" if "k < length xs" for k using snoc.prems [of k] that by (simp add: nth_append)
  then show ?case using snoc.IH snoc.prems [of "length xs"] by (simp add: map_filter_append List.map_filter_simps)
qed (simp add: List.map_filter_simps)

lemma map_filter_none: "(\<And>x. x \<in> set xs \<Longrightarrow> f x = None) \<Longrightarrow> List.map_filter f xs = []"
  by (induction xs) (simp_all add: List.map_filter_simps)

text \<open>The columns of one side of a join are its own, in order.\<close>

lemma own_columns:
  assumes "plain s" "distinct (columns s)" "\<And>f. f \<in> set (as @ bs) \<Longrightarrow> (tf_table f, tf_name f) \<notin> set (columns s)"
  shows "index_in (t\<lparr>ts_fields := as @ ts_fields s @ bs\<rparr>) s =
    Inr (map int [0..<length (ts_fields s)], s\<lparr>ts_index := column_index s\<rparr>)"
proof -
  let ?f = "\<lambda>f. index_find (column_index s) (tf_table f) (tf_name f)"
  have "List.map_filter ?f as = []" "List.map_filter ?f bs = []"
    using assms(3) column_index_None by (auto intro!: map_filter_none)
  moreover have "List.map_filter ?f (ts_fields s) = map int [0..<length (ts_fields s)]"
    by (rule map_filter_all) (rule column_index_Some [OF assms(2)])
  ultimately show ?thesis by (simp add: index_in_def table_field_index_plain [OF assms(1)] map_filter_append)
qed

lemma tuple_select_all: "tuple_select t (map int [0..<length t]) = Inr t"
  by (subst tuple_select_nth) (auto simp: o_def map_nth)

text \<open>The index that a schema with an index in place finds.\<close>

lemma table_field_index_cached:
  "plain s \<Longrightarrow> table_field_index (s\<lparr>ts_index := column_index s\<rparr>) = Inr (column_index s, s\<lparr>ts_index := column_index s\<rparr>)"
  by (auto simp: table_field_index_def plain_def column_index_def)

text \<open>\<open>joins l r s\<close>: \<open>s\<close> is the schema of the join of tuples with the schemas \<open>l\<close> and \<open>r\<close>.\<close>

definition joins :: "TupleSchema \<Rightarrow> TupleSchema \<Rightarrow> TupleSchema \<Rightarrow> bool" where
  "joins l r s \<longleftrightarrow> plain l \<and> plain r \<and> distinct (columns s) \<and>
     s = schema_append (schema_append TupleSchema_new l) r"

lemma joins_fields: "joins l r s \<Longrightarrow> ts_fields s = ts_fields l @ ts_fields r \<and> columns s = columns l @ columns r"
  by (auto simp: joins_def schema_append_def TupleSchema_new_def columns_def)

lemma joins_columns:
  assumes "joins l r s"
  shows "distinct (columns l)" "distinct (columns r)" "set (columns l) \<inter> set (columns r) = {}" "plain s"
  using assms joins_fields [OF assms] by (auto simp: joins_def plain_def schema_append_def TupleSchema_new_def)

lemma index_in_joined:
  assumes "joins l r s"
  shows "index_in s l = Inr (map int [0..<length (ts_fields l)], l\<lparr>ts_index := column_index l\<rparr>)"
    "index_in s r = Inr (map int [0..<length (ts_fields r)], r\<lparr>ts_index := column_index r\<rparr>)"
proof -
  have same_fields: "s\<lparr>ts_fields := ts_fields l @ ts_fields r\<rparr> = s" using joins_fields [OF assms] by (cases s) simp
  have "index_in (s\<lparr>ts_fields := [] @ ts_fields l @ ts_fields r\<rparr>) l = Inr (map int [0..<length (ts_fields l)], l\<lparr>ts_index := column_index l\<rparr>)"
    using joins_columns [OF assms] assms by (intro own_columns) (auto simp: joins_def columns_def)
  then show "index_in s l = Inr (map int [0..<length (ts_fields l)], l\<lparr>ts_index := column_index l\<rparr>)"
    using same_fields by simp
  have "index_in (s\<lparr>ts_fields := ts_fields l @ ts_fields r @ []\<rparr>) r = Inr (map int [0..<length (ts_fields r)], r\<lparr>ts_index := column_index r\<rparr>)"
    using joins_columns [OF assms] assms by (intro own_columns) (auto simp: joins_def columns_def)
  then show "index_in s r = Inr (map int [0..<length (ts_fields r)], r\<lparr>ts_index := column_index r\<rparr>)"
    using same_fields by simp
qed

text \<open>A column of the pair is the column of the joined tuple.\<close>

lemma pair_value:
  assumes "joins l r s" "length a = length (ts_fields l)" "length b = length (ts_fields r)"
  shows "construct_desc_value2 junk d a (column_index l) b (column_index r) =
    construct_desc_value junk d (a @ b) (column_index s)"
proof (cases "fd_is_attr d")
  case True
  let ?t = "fd_table_name d" and ?n = "fd_field_name d"
  note C = joins_columns [OF assms(1)] and F = joins_fields [OF assms(1)]
  have ds: "distinct (columns s)" using assms(1) unfolding joins_def by blast
  have len: "length (columns l) = length a" "length (columns r) = length b" using assms by (simp_all add: columns_def)
  consider (left) k where "k < length a" "columns l ! k = (?t, ?n)" "(?t, ?n) \<notin> set (columns r)"
    | (right) k where "k < length b" "columns r ! k = (?t, ?n)" "(?t, ?n) \<notin> set (columns l)"
    | (neither) "(?t, ?n) \<notin> set (columns l)" "(?t, ?n) \<notin> set (columns r)"
    using C(3) len by (metis disjoint_iff in_set_conv_nth)
  then show ?thesis
  proof cases
    case left
    then have "index_find (column_index l) ?t ?n = Some (int k)" "index_find (column_index s) ?t ?n = Some (int k)"
      using column_index_nth C(1) ds F len by (simp_all add: nth_append)
    then show ?thesis using True left by (simp add: construct_desc_value2_def construct_desc_value_def tuple_get_def nth_append)
  next
    case right
    have "columns s ! (length a + k) = (?t, ?n)" "length a + k < length (columns s)"
      using right F len by (simp_all add: nth_append)
    then have "index_find (column_index r) ?t ?n = Some (int k)"
      "index_find (column_index s) ?t ?n = Some (int (length a + k))" "index_find (column_index l) ?t ?n = None"
      using column_index_nth [OF C(2)] column_index_nth [OF ds] column_index_None right len by simp_all
    then show ?thesis using True right
      by (simp add: construct_desc_value2_def construct_desc_value_def tuple_get_def nth_append nat_add_distrib)
  next
    case neither
    then show ?thesis using True F column_index_None [of ?t ?n]
      by (simp add: construct_desc_value2_def construct_desc_value_def)
  qed
qed (simp add: construct_desc_value2_def construct_desc_value_def split: sum.split option.split)

lemma filter_pair_tuple:
  assumes "joins l r s" "length a = length (ts_fields l)" "length b = length (ts_fields r)"
  shows "filter_pair junk f a (column_index l) b (column_index r) = filter_tuple junk f (a @ b) (column_index s)"
  by (simp add: filter_pair_def filter_tuple_def pair_value [OF assms])

definition rows_of :: "TupleSet \<Rightarrow> bool" where
  "rows_of ts \<longleftrightarrow> (\<forall>t \<in> set (set_tuples ts). length t = length (ts_fields (set_schema ts)))"

lemma join_row_filter:
  assumes "\<forall>b \<in> set rs. pair_valid u fs a fl b fr = Inr (P b) \<and> tuple_select b ri = Inr b" "tuple_select a li = Inr a"
  shows "join_row u fs fl fr li ri a rs = Inr (map ((@) a) (filter P rs))"
  using assms(1) by (induction rs) (auto simp: assms(2))

lemma join_rows_filter:
  assumes "\<forall>a \<in> set ls. tuple_select a li = Inr a \<and>
      (\<forall>b \<in> set rs. pair_valid u fs a fl b fr = Inr (P (a @ b)) \<and> tuple_select b ri = Inr b)"
  shows "join_rows u fs fl fr li ri ls rs = Inr (filter P (map (\<lambda>(a, b). a @ b) (List.product ls rs)))"
  using assms
proof (induction ls)
  case (Cons a ls)
  have "join_row u fs fl fr li ri a rs = Inr (map ((@) a) (filter (\<lambda>b. P (a @ b)) rs))"
    by (rule join_row_filter) (use Cons.prems in auto)
  then show ?case using Cons by (simp add: filter_map o_def)
qed simp

lemma join_sets_product:
  assumes "joins (set_schema l) (set_schema r) s" "rows_of l" "rows_of r"
    and "\<forall>a \<in> set (set_tuples l). \<forall>b \<in> set (set_tuples r). \<forall>f \<in> set fs. \<exists>v. filter_tuple (u_type u) f (a @ b) (column_index s) = Inr v"
  shows "join_sets u s fs l r =
    Inr (filter (\<lambda>t. \<forall>f \<in> set fs. filter_tuple (u_type u) f t (column_index s) = Inr True)
           (map (\<lambda>(a, b). a @ b) (List.product (set_tuples l) (set_tuples r))))"
proof (cases "set_tuples l = [] \<or> set_tuples r = []")
  case True
  moreover have "List.product xs [] = []" for xs :: "Tuple list" by (induction xs) simp_all
  ultimately show ?thesis by (auto simp: join_sets_def)
next
  case False
  let ?P = "\<lambda>t. \<forall>f \<in> set fs. filter_tuple (u_type u) f t (column_index s) = Inr True"
  let ?fl = "column_index (set_schema l)" and ?fr = "column_index (set_schema r)"
  have sel: "tuple_select a (map int [0..<length (ts_fields (set_schema l))]) = Inr a" if "a \<in> set (set_tuples l)" for a
    using tuple_select_all [of a] that assms(2) by (simp add: rows_of_def)
  have ser: "tuple_select b (map int [0..<length (ts_fields (set_schema r))]) = Inr b" if "b \<in> set (set_tuples r)" for b
    using tuple_select_all [of b] that assms(3) by (simp add: rows_of_def)
  have pv: "pair_valid u fs a ?fl b ?fr = Inr (?P (a @ b))" if "a \<in> set (set_tuples l)" "b \<in> set (set_tuples r)" for a b
  proof -
    have "filter_pair (u_type u) f a ?fl b ?fr = Inr (filter_tuple (u_type u) f (a @ b) (column_index s) = Inr True)"
      if "f \<in> set fs" for f
    proof -
      have "filter_pair (u_type u) f a ?fl b ?fr = filter_tuple (u_type u) f (a @ b) (column_index s)"
        using assms(2,3) \<open>a \<in> _\<close> \<open>b \<in> _\<close> by (intro filter_pair_tuple [OF assms(1)]) (simp_all add: rows_of_def)
      then show ?thesis using assms(4) that \<open>a \<in> _\<close> \<open>b \<in> _\<close> by fastforce
    qed
    then show ?thesis unfolding pair_valid_def by (intro all_hold_defined)
  qed
  have "plain (set_schema l)" "plain (set_schema r)" using assms(1) by (simp_all add: joins_def)
  then have "join_sets u s fs l r = join_rows u fs ?fl ?fr (map int [0..<length (ts_fields (set_schema l))])
      (map int [0..<length (ts_fields (set_schema r))]) (set_tuples l) (set_tuples r)"
    using False index_in_joined [OF assms(1)] by (simp add: join_sets_def table_field_index_cached)
  also have "\<dots> = Inr (filter ?P (map (\<lambda>(a, b). a @ b) (List.product (set_tuples l) (set_tuples r))))"
    by (rule join_rows_filter) (use sel ser pv in blast)
  finally show ?thesis .
qed

text \<open>C12: a nested-loop join of two inputs with different columns returns the selection over the product of
  their tuples: the joined tuples, in order, on which its own and the temporary filters hold, evaluated over
  the columns of both sides.\<close>

theorem join_next_correct:
  assumes "left [] e = Some (SUCCESS, l, e1)" "right [] e1 = Some (SUCCESS, r, e2)"
    and "joins (set_schema l) (set_schema r) s" "rows_of l" "rows_of r"
    and "\<forall>a \<in> set (set_tuples l). \<forall>b \<in> set (set_tuples r). \<forall>f \<in> set (fs @ own).
      \<exists>v. filter_tuple (u_type u) f (a @ b) (column_index s) = Inr v"
  shows "join_next u s left right own False fs e =
    Some (SUCCESS, \<lparr>set_tuples =
        filter (\<lambda>t. \<forall>f \<in> set (fs @ own). filter_tuple (u_type u) f t (column_index s) = Inr True)
          (map (\<lambda>(a, b). a @ b) (List.product (set_tuples l) (set_tuples r))), set_schema = s\<rparr>, e2)"
  using assms(1,2) join_sets_product [OF assms(3-6)] by (simp add: join_next_def dropped_def)

definition column_desc_of :: "Unset \<Rightarrow> string \<Rightarrow> string \<Rightarrow> FilterDesc" where
  "column_desc_of u t n = (u_desc u)\<lparr>fd_is_attr := True, fd_table_name := t, fd_field_name := n\<rparr>"

definition int_set :: "string \<Rightarrow> string \<Rightarrow> int list \<Rightarrow> TupleSet" where
  "int_set t n is = \<lparr>set_tuples = map (\<lambda>i. [IntValue i]) is,
     set_schema = TupleSchema_new\<lparr>ts_fields := [\<lparr>tf_type = INTS, tf_table = t, tf_name = n, tf_order = 0\<rparr>]\<rparr>\<rparr>"

lemma join_next_correct_witness:
  "\<forall>u e. join_next u (schema_append (schema_append TupleSchema_new (set_schema (int_set ''t'' ''a'' []))) (set_schema (int_set ''u'' ''b'' [])))
     (\<lambda>_ e. Some (SUCCESS, int_set ''t'' ''a'' [1, 2], e)) (\<lambda>_ e. Some (SUCCESS, int_set ''u'' ''b'' [2, 3], e))
     [\<lparr>f_left = column_desc_of u ''t'' ''a'', f_right = column_desc_of u ''u'' ''b'', f_comp_op = EQUAL_TO\<rparr>] False [] e =
   Some (SUCCESS, \<lparr>set_tuples = [[IntValue 2, IntValue 2]],
     set_schema = schema_append (schema_append TupleSchema_new (set_schema (int_set ''t'' ''a'' []))) (set_schema (int_set ''u'' ''b'' []))\<rparr>, e)"
proof (intro allI)
  fix u :: Unset and e :: Env
  let ?l = "int_set ''t'' ''a'' [1, 2]" and ?r = "int_set ''u'' ''b'' [2, 3]"
  let ?s = "schema_append (schema_append TupleSchema_new (set_schema (int_set ''t'' ''a'' []))) (set_schema (int_set ''u'' ''b'' []))"
  let ?f = "\<lparr>f_left = column_desc_of u ''t'' ''a'', f_right = column_desc_of u ''u'' ''b'', f_comp_op = EQUAL_TO\<rparr>"
  have f: "filter_tuple (u_type u) ?f [IntValue i, IntValue j] (column_index ?s) = Inr (i = j)" if "int32 (i - j)" for i j
    using that by (simp add: filter_tuple_def column_desc_of_def construct_desc_value_def column_index_def index_insert_def
        index_find_def schema_append_def TupleSchema_new_def int_set_def tuple_get_def compare_desc_values_def
        compare_tuple_values_def compare_result_def)
  have "joins (set_schema ?l) (set_schema ?r) ?s" by (simp add: joins_def plain_def int_set_def columns_def schema_append_def TupleSchema_new_def)
  moreover have "rows_of ?l" "rows_of ?r" by (simp_all add: rows_of_def int_set_def)
  moreover have "\<forall>a \<in> set (set_tuples ?l). \<forall>b \<in> set (set_tuples ?r). \<forall>f \<in> set ([] @ [?f]).
      \<exists>v. filter_tuple (u_type u) f (a @ b) (column_index ?s) = Inr v"
    using f by (auto simp add: int_set_def int32_def)
  ultimately have "join_next u ?s (\<lambda>_ e. Some (SUCCESS, ?l, e)) (\<lambda>_ e. Some (SUCCESS, ?r, e)) [?f] False [] e =
    Some (SUCCESS, \<lparr>set_tuples =
        filter (\<lambda>t. \<forall>f \<in> set ([] @ [?f]). filter_tuple (u_type u) f t (column_index ?s) = Inr True)
          (map (\<lambda>(a, b). a @ b) (List.product (set_tuples ?l) (set_tuples ?r))), set_schema = ?s\<rparr>, e)"
    by (intro join_next_correct) simp_all
  then show "join_next u ?s (\<lambda>_ e. Some (SUCCESS, ?l, e)) (\<lambda>_ e. Some (SUCCESS, ?r, e)) [?f] False [] e =
    Some (SUCCESS, \<lparr>set_tuples = [[IntValue 2, IntValue 2]], set_schema = ?s\<rparr>, e)"
    using f by (simp add: int_set_def int32_def)
qed

section \<open>Subqueries\<close>

lemma value_member_ints:
  "\<bar>x\<bar> < 2 ^ 30 \<Longrightarrow> \<forall>y \<in> set ys. \<bar>y\<bar> < 2 ^ 30 \<Longrightarrow> value_member u (IntValue x) (map IntValue ys) = Inr (x \<in> set ys)"
  by (induction ys) (auto simp: int_compare simp del: tv_compare.simps)

lemma value_set_ints:
  "\<forall>t \<in> set ts. tuple_get t 0 = Inr (IntValue (w t)) \<and> \<bar>w t\<bar> < 2 ^ 30 \<Longrightarrow> \<forall>y \<in> set ys. \<bar>y\<bar> < 2 ^ 30 \<Longrightarrow>
   \<exists>zs. value_set u ts (map IntValue ys) = Inr (map IntValue (ys @ zs)) \<and> set (ys @ zs) = set ys \<union> w ` set ts"
proof (induction ts arbitrary: ys)
  case (Cons t ts)
  obtain us where t: "t = IntValue (w t) # us" using Cons.prems(1) by (cases t) (auto simp: tuple_get_def)
  have m: "value_member u (IntValue (w t)) (map IntValue ys) = Inr (w t \<in> set ys)"
    using Cons.prems by (intro value_member_ints) auto
  show ?case
  proof (cases "w t \<in> set ys")
    case True
    obtain zs where "value_set u ts (map IntValue ys) = Inr (map IntValue (ys @ zs))"
      "set (ys @ zs) = set ys \<union> w ` set ts"
      using Cons.IH [of ys] Cons.prems by auto
    then show ?thesis using True m by (subst t) (intro exI [of _ zs], auto)
  next
    case False
    obtain zs where "value_set u ts (map IntValue (ys @ [w t])) = Inr (map IntValue ((ys @ [w t]) @ zs))"
      "set ((ys @ [w t]) @ zs) = set (ys @ [w t]) \<union> w ` set ts"
      using Cons.IH [of "ys @ [w t]"] Cons.prems by auto
    then show ?thesis using False m by (subst t) (intro exI [of _ "w t # zs"], auto)
  qed
qed simp

lemma valid_tuples_filter:
  "\<forall>t \<in> set ts. \<exists>x. tuple_get t i = Inr x \<and> value_valid u op xs x = Inr (P t) \<Longrightarrow> valid_tuples u op i xs ts = Inr (filter P ts)"
  by (induction ts) auto

text \<open>C14: over integers that are not too large, a subquery without a reference to the outer query keeps, for
  \<^verbatim>\<open>in\<close> and \<^verbatim>\<open>not in\<close>, exactly the tuples whose value is, or is not, one of the values that it returns,
  whatever the hash function; for a comparison with a single value it keeps the tuples that compare so.\<close>

theorem sub_query_correct:
  assumes "right [] e = Some (SUCCESS, r, e')"
    and "\<forall>t \<in> set ls. tuple_get t i = Inr (IntValue (v t)) \<and> \<bar>v t\<bar> < 2 ^ 30"
    and "\<forall>t \<in> set (set_tuples r). tuple_get t 0 = Inr (IntValue (w t)) \<and> \<bar>w t\<bar> < 2 ^ 30"
  shows "(is_in_op op \<longrightarrow> sub_query_tuples u op i ofi [] right fs ls e =
      Some (Inr (filter (\<lambda>t. (v t \<in> w ` set (set_tuples r)) = (op = IN_OP)) ls), e')) \<and>
    (\<not> is_in_op op \<longrightarrow> (\<forall>x. set_tuples r = [x] \<longrightarrow> sub_query_tuples u op i ofi [] right fs ls e =
      Some (Inr (filter (\<lambda>t. compare_result (v t - w x) op) ls), e')))"
proof (intro conjI impI allI)
  obtain zs where z: "value_set u (set_tuples r) [] = Inr (map IntValue zs)" "set zs = w ` set (set_tuples r)"
    using value_set_ints [OF assms(3), of "[]" u] by auto
  have small: "\<forall>y \<in> set zs. \<bar>y\<bar> < 2 ^ 30" using z(2) assms(3) by auto
  {
    assume "is_in_op op"
    then have "valid_tuples u op i (map IntValue zs) ls = Inr (filter (\<lambda>t. (v t \<in> w ` set (set_tuples r)) = (op = IN_OP)) ls)"
      using assms(2) small z(2) by (intro valid_tuples_filter) (simp add: value_valid_def value_member_ints)
    then show "sub_query_tuples u op i ofi [] right fs ls e =
        Some (Inr (filter (\<lambda>t. (v t \<in> w ` set (set_tuples r)) = (op = IN_OP)) ls), e')"
      using z(1) assms(1) \<open>is_in_op op\<close> by (simp add: sub_query_tuples_def)
  next
    fix x assume n: "\<not> is_in_op op" and x: "set_tuples r = [x]"
    obtain us where us: "x = IntValue (w x) # us" using assms(3) x by (cases x) (auto simp: tuple_get_def)
    have "value_set u [x] [] = Inr [IntValue (w x)]" by (subst us) simp
    moreover have "valid_tuples u op i [IntValue (w x)] ls = Inr (filter (\<lambda>t. compare_result (v t - w x) op) ls)"
      using assms(2,3) x n by (intro valid_tuples_filter)
        (simp add: value_valid_def compare_tuple_values_def int_compare del: tv_compare.simps)
    ultimately show "sub_query_tuples u op i ofi [] right fs ls e = Some (Inr (filter (\<lambda>t. compare_result (v t - w x) op) ls), e')"
      using x n assms(1) by (simp add: sub_query_tuples_def)
  }
qed

lemma sub_query_correct_witness:
  "\<forall>u e. sub_query_tuples u NOT_IN_OP 0 (Inl UB) [] (\<lambda>_ e. Some (SUCCESS, int_set ''u'' ''b'' [2, 3, 2], e)) []
     [[IntValue 1], [IntValue 2]] e = Some (Inr [[IntValue 1]], e)"
proof (intro allI)
  fix u :: Unset and e :: Env
  have "sub_query_tuples u NOT_IN_OP 0 (Inl UB) [] (\<lambda>_ e. Some (SUCCESS, int_set ''u'' ''b'' [2, 3, 2], e)) [] [[IntValue 1], [IntValue 2]] e =
    Some (Inr (filter (\<lambda>t. ((case hd t of IntValue i \<Rightarrow> i) \<in> (\<lambda>t. case hd t of IntValue i \<Rightarrow> i) ` set (set_tuples (int_set ''u'' ''b'' [2, 3, 2]))) =
      (NOT_IN_OP = IN_OP)) [[IntValue 1], [IntValue 2]]), e)"
    using sub_query_correct [of "\<lambda>_ e. Some (SUCCESS, int_set ''u'' ''b'' [2, 3, 2], e)" e "int_set ''u'' ''b'' [2, 3, 2]" e
        "[[IntValue 1], [IntValue 2]]" 0 "\<lambda>t. case hd t of IntValue i \<Rightarrow> i" "\<lambda>t. case hd t of IntValue i \<Rightarrow> i" NOT_IN_OP u "Inl UB" "[]"]
    by (simp add: int_set_def tuple_get_def is_in_op_def)
  then show "sub_query_tuples u NOT_IN_OP 0 (Inl UB) [] (\<lambda>_ e. Some (SUCCESS, int_set ''u'' ''b'' [2, 3, 2], e)) [] [[IntValue 1], [IntValue 2]] e =
    Some (Inr [[IntValue 1]], e)"
    by (simp add: int_set_def)
qed

text \<open>Over strings the hash of a value reads a string object as a C string.\<close>

lemma sub_query_strings:
  assumes "right [] e = Some (SUCCESS, r, e')" "set_tuples r = (StringValue CHARS s # t) # ts" "is_in_op op"
  shows "sub_query_tuples u op i ofi [] right fs ls e = Some (Inl UB, e')"
  using assms by (simp add: sub_query_tuples_def)

end
