(* ===== verification/Executor_Build.thy ===== *)
theory Executor_Build
  imports Executors
begin

text \<open>
  \<^verbatim>\<open>src/src/observer/sql/executor/executor_builder.cpp\<close>: the executors of a query, the subqueries in its
  conditions included; \<^verbatim>\<open>AggExecutor::build_agg_output_schema\<close>;
  \<^verbatim>\<open>construct_tuple_value_from_selects\<close>, which builds and runs a subquery while the outer query is
  built; and \<^verbatim>\<open>do_select_v2\<close>.  Building changes the query in place: it is returned with the executor.
  The recursion over nested queries has fuel; one more than the depth of the query is enough.
\<close>

section \<open>Output schemas\<close>

fun with_parts ::
  "RelAttr list \<Rightarrow> (JoinType \<times> string option \<times> SqlCondition list) list \<Rightarrow> SqlCondition list \<Rightarrow> RelAttr list \<Rightarrow>
   Selects \<Rightarrow> Selects" where
  "with_parts ats jo co gb (Selects ag _ ex re _ _ ob _) = Selects ag ats ex re jo co ob gb"

definition default_relation :: "string option \<Rightarrow> RelAttr \<Rightarrow> RelAttr" where
  "default_relation table a = (if relation_name a = None then a\<lparr>relation_name := table\<rparr> else a)"

fun attribute_schema :: "(string \<Rightarrow> nat option) \<Rightarrow> Env \<Rightarrow> RelAttr list \<Rightarrow> TupleSchema \<Rightarrow> TupleSchema result" where
  "attribute_schema cat e [] s = Inr s"
| "attribute_schema cat e (a # as) s =
     (case (meta_for cat e (relation_name a), attribute_name a) of
        (Some tm, Some n) \<Rightarrow>
          if n = ''*'' then attribute_schema cat e as (from_table tm s)
          else (case schema_add_field tm (Some n) s of
                  Inl c \<Rightarrow> Inl c
                | Inr s \<Rightarrow> attribute_schema cat e as s)
      | _ \<Rightarrow> Inl UB)"

text \<open>A column without a table is given the first table, for good.\<close>

definition build_output_schema :: "(string \<Rightarrow> nat option) \<Rightarrow> Env \<Rightarrow> Selects \<Rightarrow> (TupleSchema \<times> Selects) result" where
  "build_output_schema cat e sel =
     (if only_star sel then
        map_sum id (\<lambda>s. (s, sel))
          (from_relations cat e (rev (sel_relations sel) @ map (\<lambda>(_, n, _). n) (sel_joins sel)) TupleSchema_new)
      else
        let ats = map (default_relation (relation sel)) (sel_attributes sel) in
        map_sum id (\<lambda>s. (s, with_parts ats (sel_joins sel) (sel_conditions sel) (sel_group_bys sel) sel))
          (attribute_schema cat e (rev ats) TupleSchema_new))"

text \<open>The description of one aggregate; \<open>None\<close> is the early return at the star of a count.\<close>

definition agg_relation :: "Selects \<Rightarrow> string option \<Rightarrow> string option result" where
  "agg_relation sel r =
     (if r \<noteq> None then Inr r
      else if length (sel_relations sel) = 1 then Inr (relation sel)
      else Inl INTERNAL)"

definition agg_desc :: "(string \<Rightarrow> nat option) \<Rightarrow> Env \<Rightarrow> Selects \<Rightarrow> Aggregate \<Rightarrow> AggreDesc option result" where
  "agg_desc cat e sel a =
     (let d = no_agg_desc\<lparr>ag_type := aggre_type a, ag_is_attr := aggre_is_attr a\<rparr> in
      if aggre_is_attr a = 1 then
        (case agg_relation sel (relation_name (aggre_attr a)) of
           Inl c \<Rightarrow> Inl c
         | Inr r \<Rightarrow>
             if attribute_name (aggre_attr a) = Some ''*'' then
               if aggre_type a \<noteq> COUNTS then Inl SCHEMA_FIELD_MISSING else Inr None
             else (case meta_for cat e r of
                     None \<Rightarrow> Inl UB
                   | Some tm \<Rightarrow> map_sum id (\<lambda>n. Some (d\<lparr>ag_relation := r, ag_attr := Some n\<rparr>)) (aggre_field tm a)))
      else map_sum id (\<lambda>x. Some (d\<lparr>ag_value := x\<rparr>)) (aggre_value_float (aggre_value a)))"

fun agg_descs :: "(string \<Rightarrow> nat option) \<Rightarrow> Env \<Rightarrow> Selects \<Rightarrow> Aggregate list \<Rightarrow> AggreDesc list option result" where
  "agg_descs cat e sel [] = Inr (Some [])"
| "agg_descs cat e sel (a # as) =
     (case agg_desc cat e sel a of
        Inl c \<Rightarrow> Inl c
      | Inr None \<Rightarrow> Inr None
      | Inr (Some d) \<Rightarrow> map_sum id (map_option ((#) d)) (agg_descs cat e sel as))"

text \<open>The columns of the groups; the flag says that all of them could be added.\<close>

fun group_columns ::
  "(string \<Rightarrow> nat option) \<Rightarrow> Env \<Rightarrow> Selects \<Rightarrow> RelAttr list \<Rightarrow> TupleSchema \<Rightarrow>
   (bool \<times> TupleSchema \<times> RelAttr list) result" where
  "group_columns cat e sel [] s = Inr (True, s, [])"
| "group_columns cat e sel (a # as) s =
     (case agg_relation sel (relation_name a) of
        Inl c \<Rightarrow> Inr (False, s, a # as)
      | Inr r \<Rightarrow>
          (case meta_for cat e r of
             None \<Rightarrow> Inl UB
           | Some tm \<Rightarrow>
               (case schema_add_field tm (attribute_name a) s of
                  Inl c \<Rightarrow> Inl c
                | Inr s \<Rightarrow>
                    map_sum id (\<lambda>(ok, s, as). (ok, s, a\<lparr>relation_name := r\<rparr> # as)) (group_columns cat e sel as s))))"

text \<open>The return code is dropped by the caller: the schema is what had been built until then.\<close>

definition build_agg_output_schema :: "(string \<Rightarrow> nat option) \<Rightarrow> Env \<Rightarrow> Selects \<Rightarrow> (TupleSchema \<times> Selects) result" where
  "build_agg_output_schema cat e sel =
     (case agg_descs cat e sel (sel_aggregates sel) of
        Inl c \<Rightarrow> if c = UB then Inl UB else Inr (TupleSchema_new, sel)
      | Inr None \<Rightarrow> Inr (TupleSchema_new, sel)
      | Inr (Some ds) \<Rightarrow>
          map_sum id
            (\<lambda>(ok, s, gs). (if ok then s\<lparr>ts_aggs := ds\<rparr> else s,
                            with_parts (sel_attributes sel) (sel_joins sel) (sel_conditions sel) gs sel))
            (group_columns cat e sel (sel_group_bys sel) TupleSchema_new))"

section \<open>Conditions of subqueries\<close>

definition symmetric_op :: "CompOp \<Rightarrow> CompOp" where
  "symmetric_op op =
     (case op of
        EQUAL_TO \<Rightarrow> EQUAL_TO | LESS_EQUAL \<Rightarrow> GREAT_EQUAL | NOT_EQUAL \<Rightarrow> NOT_EQUAL | LESS_THAN \<Rightarrow> GREAT_THAN
      | GREAT_EQUAL \<Rightarrow> LESS_EQUAL | GREAT_THAN \<Rightarrow> LESS_THAN | IS \<Rightarrow> IS | IS_NOT \<Rightarrow> IS_NOT
      | IN_OP \<Rightarrow> IN_OP | NOT_IN_OP \<Rightarrow> NOT_IN_OP | NO_OP \<Rightarrow> NO_OP)"

text \<open>The conditions of a subquery, and of those below it, between two columns one of which is of the
  table.  The stack holds the condition lists still to look at.\<close>

definition is_multi_table :: "string option \<Rightarrow> SqlCondition \<Rightarrow> bool" where
  "is_multi_table table sc \<longleftrightarrow>
     (let k = sc_cond sc; l = relation_name (left_attr k); r = relation_name (right_attr k) in
      left_is_attr k \<noteq> 0 \<and> right_is_attr k \<noteq> 0 \<and> l \<noteq> None \<and> r \<noteq> None \<and> (l = table \<or> r = table))"

definition nested_conditions :: "SqlCondition \<Rightarrow> SqlCondition list list" where
  "nested_conditions sc =
     map sel_conditions (case sc_right_selects sc of None \<Rightarrow> [] | Some s \<Rightarrow> [s]) @
     map sel_conditions (case sc_left_selects sc of None \<Rightarrow> [] | Some s \<Rightarrow> [s])"

definition stack_size :: "SqlCondition list list \<Rightarrow> nat" where
  "stack_size st = sum_list (map (\<lambda>cs. Suc (size_list size cs)) st)"

lemma nested_conditions_size: "stack_size (nested_conditions sc) < size sc"
proof -
  have "Suc (size_list size (sel_conditions s)) \<le> size s" for s by (cases s) simp
  then have m: "stack_size (map sel_conditions (case m of None \<Rightarrow> [] | Some s \<Rightarrow> [s])) \<le> size_option size m" for m
    by (cases m) (auto simp: stack_size_def intro: Suc_leD)
  have a: "stack_size (xs @ ys) = stack_size xs + stack_size ys" for xs ys by (simp add: stack_size_def)
  obtain k la ra ls rs where "sc = SqlCondition k la ra ls rs" by (cases sc)
  then show ?thesis using m [of ls] m [of rs] by (simp add: nested_conditions_def a)
qed

lemma stack_size_rev: "stack_size (rev st) = stack_size st"
  by (simp add: stack_size_def flip: rev_map)

lemma pushed_conditions_size: "stack_size (rev (concat (map nested_conditions cs))) \<le> size_list size cs"
proof (induction cs)
  case (Cons sc cs)
  then show ?case using nested_conditions_size [of sc] unfolding stack_size_rev by (simp add: stack_size_def)
qed (simp add: stack_size_def)

function multi_table_conditions :: "string option \<Rightarrow> SqlCondition list list \<Rightarrow> SqlCondition list" where
  "multi_table_conditions table [] = []"
| "multi_table_conditions table (cs # st) =
     filter (is_multi_table table) cs @
     multi_table_conditions table (rev (concat (map nested_conditions cs)) @ st)"
  by pat_completeness auto
termination
proof (relation "measure (\<lambda>(_, st). stack_size st)")
  fix table cs st
  show "((table, rev (concat (map nested_conditions cs)) @ st), table, cs # st) \<in> measure (\<lambda>(_, st). stack_size st)"
    using pushed_conditions_size [of cs] by (simp add: stack_size_def)
qed simp

definition build_multi_table_conditions :: "string option \<Rightarrow> SqlCondition list \<Rightarrow> SqlCondition list" where
  "build_multi_table_conditions table cs = multi_table_conditions table [cs]"

type_synonym builder = "Selects \<Rightarrow> (Executor \<times> Selects) table_op"

text \<open>A condition with a subquery on one side becomes an executor on top of the left one.\<close>

definition sub_query_condition :: "builder \<Rightarrow> string option \<Rightarrow> Executor \<Rightarrow> SqlCondition \<Rightarrow> (Executor \<times> SqlCondition) table_op" where
  "sub_query_condition bld table ex sc =
     (let k = sc_cond sc; made = (\<lambda>a op r s. SubQueryExecutor ex (default_relation table a) op r
                                     (build_multi_table_conditions table (sel_conditions s)))
      in case (sc_left_selects sc, sc_right_selects sc) of
           (Some s, None) \<Rightarrow>
             bindT (bld s) (\<lambda>(r, s).
               retT (made (right_attr k) (symmetric_op (comp k)) r s,
                     SqlCondition k (sc_left_ast sc) (sc_right_ast sc) (Some s) None))
         | (None, Some s) \<Rightarrow>
             bindT (bld s) (\<lambda>(r, s).
               retT (made (left_attr k) (comp k) r s, SqlCondition k (sc_left_ast sc) (sc_right_ast sc) None (Some s)))
         | _ \<Rightarrow> retT (ex, sc))"

fun build_sub_query_executor ::
  "builder \<Rightarrow> string option \<Rightarrow> Executor \<Rightarrow> SqlCondition list \<Rightarrow> (Executor \<times> SqlCondition list) table_op" where
  "build_sub_query_executor bld table ex [] = retT (ex, [])"
| "build_sub_query_executor bld table ex (sc # cs) =
     bindT (sub_query_condition bld table ex sc) (\<lambda>(ex, sc).
     bindT (build_sub_query_executor bld table ex cs) (\<lambda>(ex, cs).
     retT (ex, sc # cs)))"

section \<open>\<^verbatim>\<open>build_select_executor\<close>\<close>

text \<open>A table of the catalogue and its schema.\<close>

definition scanned_table :: "(string \<Rightarrow> nat option) \<Rightarrow> string option \<Rightarrow> (nat \<times> TupleSchema) table_op" where
  "scanned_table cat n e =
     (case (n, meta_for cat e n) of
        (Some m, Some tm) \<Rightarrow> retT (the (cat m), from_table tm TupleSchema_new) e
      | _ \<Rightarrow> failT UB e)"

definition joined_schema :: "Executor \<Rightarrow> Executor \<Rightarrow> TupleSchema" where
  "joined_schema l r = schema_append (schema_append TupleSchema_new (output_schema_of l)) (output_schema_of r)"

definition liftR :: "'a result \<Rightarrow> 'a table_op" where
  "liftR r = (case r of Inl c \<Rightarrow> failT c | Inr x \<Rightarrow> retT x)"

definition scan_of ::
  "Unset \<Rightarrow> subquery_op \<Rightarrow> (string \<Rightarrow> nat option) \<Rightarrow> string option \<Rightarrow> SqlCondition list \<Rightarrow> (Executor \<times> SqlCondition list) table_op" where
  "scan_of u run cat n cs =
     bindT (scanned_table cat n) (\<lambda>(t, s).
     bindT (from_conditions u run n False cs []) (\<lambda>(fs, ban, cs).
     retT (Scan t s fs ban, cs)))"

fun join_relations ::
  "Unset \<Rightarrow> subquery_op \<Rightarrow> (string \<Rightarrow> nat option) \<Rightarrow> Executor \<Rightarrow> SqlCondition list \<Rightarrow> string option list \<Rightarrow>
   (Executor \<times> SqlCondition list) table_op" where
  "join_relations u run cat l cs [] = retT (l, cs)"
| "join_relations u run cat l cs (n # ns) =
     bindT (scan_of u run cat n cs) (\<lambda>(r, cs).
     bindT (from_conditions u run None True cs []) (\<lambda>(fs, ban, cs).
     bindT (liftR (NestLoopJoinExecutor (joined_schema l r) l r fs ban)) (\<lambda>ex.
     join_relations u run cat ex cs ns)))"

definition build_select_executor ::
  "Unset \<Rightarrow> builder \<Rightarrow> subquery_op \<Rightarrow> (string \<Rightarrow> nat option) \<Rightarrow> Selects \<Rightarrow> (Executor \<times> Selects) table_op" where
  "build_select_executor u bld run cat sel =
     (case rev (sel_relations sel) of
        [] \<Rightarrow> failT UB
      | n # ns \<Rightarrow>
          bindT (scan_of u run cat n (sel_conditions sel)) (\<lambda>(ex, cs).
          bindT (join_relations u run cat ex cs ns) (\<lambda>(ex, cs).
          bindT (build_sub_query_executor bld (relation sel) ex cs) (\<lambda>(ex, cs).
          retT (ex, with_conditions cs sel)))))"

section \<open>\<^verbatim>\<open>build_join_executor\<close>\<close>

text \<open>The right side of one join: its own conditions, then those of the query, unless a condition bans
  every row.\<close>

definition join_scan ::
  "Unset \<Rightarrow> subquery_op \<Rightarrow> (string \<Rightarrow> nat option) \<Rightarrow> string option \<Rightarrow> SqlCondition list \<Rightarrow> SqlCondition list \<Rightarrow>
   (Executor \<times> SqlCondition list \<times> SqlCondition list) table_op" where
  "join_scan u run cat n jcs cs =
     bindT (scanned_table cat n) (\<lambda>(t, s).
     bindT (from_conditions u run n False jcs []) (\<lambda>(fs, ban, jcs).
     if ban then retT (Scan t s fs ban, jcs, cs)
     else bindT (from_conditions u run n False cs fs) (\<lambda>(fs, ban, cs). retT (Scan t s fs ban, jcs, cs))))"

text \<open>The last join also checks the conditions of the query between columns.\<close>

definition join_filters ::
  "Unset \<Rightarrow> subquery_op \<Rightarrow> bool \<Rightarrow> SqlCondition list \<Rightarrow> SqlCondition list \<Rightarrow>
   (Filter list \<times> bool \<times> SqlCondition list \<times> SqlCondition list) table_op" where
  "join_filters u run is_last jcs cs =
     bindT (from_conditions u run None True jcs []) (\<lambda>(fs, ban, jcs).
     if is_last \<and> \<not> ban then
       bindT (from_conditions u run None True cs fs) (\<lambda>(fs, ban, cs). retT (fs, ban, jcs, cs))
     else retT (fs, ban, jcs, cs))"

fun build_join_executor ::
  "Unset \<Rightarrow> builder \<Rightarrow> subquery_op \<Rightarrow> (string \<Rightarrow> nat option) \<Rightarrow> string option \<Rightarrow> Executor \<Rightarrow> SqlCondition list \<Rightarrow>
   (JoinType \<times> string option \<times> SqlCondition list) list \<Rightarrow>
   (Executor \<times> SqlCondition list \<times> (JoinType \<times> string option \<times> SqlCondition list) list) table_op" where
  "build_join_executor u bld run cat table l cs [] = retT (l, cs, [])"
| "build_join_executor u bld run cat table l cs ((ty, n, jcs) # js) =
     bindT (join_scan u run cat n jcs cs) (\<lambda>(r, jcs, cs).
     bindT (join_filters u run (js = []) jcs cs) (\<lambda>(fs, ban, jcs, cs).
     bindT (liftR (NestLoopJoinExecutor (joined_schema l r) l r fs ban)) (\<lambda>ex.
     bindT (build_sub_query_executor bld table ex jcs) (\<lambda>(ex, jcs).
     bindT (build_join_executor u bld run cat table ex cs js) (\<lambda>(ex, cs, js).
     retT (ex, cs, (ty, n, jcs) # js))))))"

section \<open>\<^verbatim>\<open>build\<close>\<close>

text \<open>The return codes of \<^verbatim>\<open>init\<close> and \<^verbatim>\<open>next\<close> are dropped; the value is the first of the first
  tuple.\<close>

definition construct_tuple_value_from_selects :: "Unset \<Rightarrow> builder \<Rightarrow> subquery_op" where
  "construct_tuple_value_from_selects u bld sel =
     bindT (bld sel) (\<lambda>(ex, sel) e.
       case init_executor u e ex of
         (rc, ex) \<Rightarrow>
           if rc = Inl UB then failT UB e
           else (case dropped (next_tuples u ex [] e) of
                   None \<Rightarrow> None
                 | Some (Inl c, e) \<Rightarrow> failT c e
                 | Some (Inr ts, e) \<Rightarrow>
                     (case set_tuples ts of (v # _) # _ \<Rightarrow> retT (v, sel) e | _ \<Rightarrow> failT UB e)))"

definition finish_build :: "(string \<Rightarrow> nat option) \<Rightarrow> Executor \<Rightarrow> Selects \<Rightarrow> (Executor \<times> Selects) table_op" where
  "finish_build cat ex sel e =
     (if sel_aggregates sel \<noteq> [] then
        liftR (map_sum id (\<lambda>(s, sel). (Agg s ex, sel)) (build_agg_output_schema cat e sel)) e
      else liftR (map_sum id (\<lambda>(s, sel). (set_output_schema s ex, sel)) (build_output_schema cat e sel)) e)"

definition build_step :: "Unset \<Rightarrow> (string \<Rightarrow> nat option) \<Rightarrow> builder \<Rightarrow> builder" where
  "build_step u cat bld sel =
     (let run = construct_tuple_value_from_selects u bld in
      bindT (build_select_executor u bld run cat sel) (\<lambda>(ex, sel).
      bindT (build_join_executor u bld run cat (relation sel) ex (sel_conditions sel) (sel_joins sel)) (\<lambda>(ex, cs, js).
      finish_build cat ex (with_parts (sel_attributes sel) js cs (sel_group_bys sel) sel))))"

primrec build :: "Unset \<Rightarrow> (string \<Rightarrow> nat option) \<Rightarrow> nat \<Rightarrow> builder" where
  "build u cat 0 = (\<lambda>sel e. None)"
| "build u cat (Suc n) = build_step u cat (build u cat n)"

section \<open>\<^verbatim>\<open>do_select_v2\<close>\<close>

text \<open>The builder reports no errors: what fails while the executors are built is a failed assertion or a null
  pointer.\<close>

definition do_select_v2 :: "World \<Rightarrow> Unset \<Rightarrow> nat \<Rightarrow> (string \<Rightarrow> nat option) \<Rightarrow> bool \<Rightarrow> Selects \<Rightarrow> byte list table_op" where
  "do_select_v2 w u fuel cat multi sel =
     thenT (build u cat fuel sel) (\<lambda>made e.
       case made of
         Inl c \<Rightarrow> failT UB e
       | Inr (ex, sel) \<Rightarrow>
           (case init_executor u e ex of
              (Inl c, ex) \<Rightarrow> if c = UB then failT UB e else ended w multi False (Inl c) e
            | (Inr _, ex) \<Rightarrow>
                (case next_tuples u ex [] e of
                   None \<Rightarrow> None
                 | Some (Inl c, ts, e) \<Rightarrow> if c = UB then failT UB e else ended w multi False (Inl c) e
                 | Some (Inr _, ts, e) \<Rightarrow>
                     (case set_print ts (length (sel_relations sel) > 1 \<or> sel_joins sel \<noteq> []) of
                        Inl c \<Rightarrow> failT UB e
                      | Inr text \<Rightarrow> ended w multi True (Inr text) e))))"

end
