(* ===== verification/Execute_Stage.thy ===== *)
theory Execute_Stage
  imports Executor_Build
begin

text \<open>
  One request: \<^verbatim>\<open>SessionStage::handle_request\<close>, \<^verbatim>\<open>ParseStage::handle_request\<close> and
  \<^verbatim>\<open>ExecuteStage::handle_request\<close> of \<^verbatim>\<open>src/src/observer\<close>; the stages between them only pass the
  event on.  The parser that bison generates is an argument: a query, \<^verbatim>\<open>SCF_ERROR\<close> for a text that it
  refuses.
\<close>

text \<open>What the surroundings decide: the choices of \<open>World\<close>, uninitialised memory, \<^verbatim>\<open>std::sort\<close>, and the
  contents of the file that is imported.\<close>

record Outside =
  o_world :: World
  o_unset :: Unset
  o_sorter :: sorter
  o_filter :: CartesianFilter
  o_stack :: "nat \<Rightarrow> nat \<Rightarrow> ConDesc \<times> ConDesc"
  o_mem :: "nat \<Rightarrow> nat \<Rightarrow> bytes"
  o_file :: "byte list option"

section \<open>The depth of a query\<close>

definition largest :: "nat list \<Rightarrow> nat" where
  "largest ns = foldr max ns 0"

primrec select_depth :: "Selects \<Rightarrow> nat" and condition_depth :: "SqlCondition \<Rightarrow> nat" where
  "select_depth (Selects ag ats ex re jo co ob gb) =
     Suc (max (largest (map condition_depth co))
            (largest (map (\<lambda>p. largest (snd (snd p))) (map (map_prod id (map_prod id (map condition_depth))) jo))))"
| "condition_depth (SqlCondition k la ra ls rs) =
     max (case map_option select_depth ls of None \<Rightarrow> 0 | Some n \<Rightarrow> n)
       (case map_option select_depth rs of None \<Rightarrow> 0 | Some n \<Rightarrow> n)"

section \<open>The statements\<close>

definition catalogue :: "DefaultHandler \<Rightarrow> Session \<Rightarrow> string \<Rightarrow> nat option" where
  "catalogue h s n = find_table h (Some (current_db s)) (Some n)"

text \<open>A table that could not be dropped is deleted but still found.  A query of a database with such a table
  is not modelled further: it is taken as undefined.\<close>

definition dangling :: "DefaultHandler \<Rightarrow> Session \<Rightarrow> bool" where
  "dangling h s \<longleftrightarrow>
     (case find_db h (current_db s) of
        None \<Rightarrow> False
      | Some db \<Rightarrow> list_ex (\<lambda>(_, t). t \<in> set (db_deleted db)) (opened_tables db))"

definition handle_select :: "Outside \<Rightarrow> Selects \<Rightarrow> Session \<Rightarrow> DefaultHandler \<Rightarrow> Env \<Rightarrow> (Response result \<times> Env) option" where
  "handle_select out sel s h e =
     (let cat = catalogue h s; multi = is_trx_multi_operation_mode s; e = current_trx e in
      case (if select_with_join_or_subselect sel
            then do_select_v2 (o_world out) (o_unset out) (select_depth sel) cat multi sel e
            else do_select (o_world out) (o_sorter out) (o_filter out) (o_stack out) cat multi sel e) of
        None \<Rightarrow> None
      | Some (Inl c, e) \<Rightarrow> Some (if c = UB then Inl UB else Inr (reply (Inl c)), e)
      | Some (Inr text, e) \<Rightarrow> Some (Inr (Text text), e))"

definition help_text :: "byte list" where
  "help_text = concat (map (\<lambda>l. ascii l @ [newline])
     [''show tables;'', ''desc `table name`;'',
      ''create table `table name` (`column name` `column type`, ...);'',
      ''create index `index name` on `table` (`column`);'',
      ''insert into `table` values(`value1`,`value2`);'',
      ''update `table` set column=value [where `column`=`value`];'',
      ''delete from `table` [where `column`=`value`];'',
      ''select [ * | `columns` ] from `table`;''])"

text \<open>The end of a transaction of several statements.\<close>

definition end_transaction ::
  "unit table_op \<Rightarrow> Session \<Rightarrow> DefaultHandler \<Rightarrow> Env \<Rightarrow> (Response result \<times> Session \<times> DefaultHandler \<times> Env) option" where
  "end_transaction f s h e =
     (case f e of
        None \<Rightarrow> None
      | Some (rc, e) \<Rightarrow>
          Some (if rc = Inl UB then Inl UB else Inr (Code_Name rc), set_trx_multi_operation_mode False s, h, e))"

definition handle_request ::
  "Outside \<Rightarrow> Query \<Rightarrow> Session \<Rightarrow> DefaultHandler \<Rightarrow> Env \<Rightarrow>
   (Response result \<times> Session \<times> DefaultHandler \<times> Env) option" where
  "handle_request out q s h e =
     (case q of
        SCF_SELECT sel \<Rightarrow>
          if dangling h s then Some (Inl UB, s, h, e)
          else (case pre_check (catalogue h s) e q of
                  Inl c \<Rightarrow> Some (if c = UB then Inl UB else Inr (reply (Inl c)), s, h, e)
                | Inr _ \<Rightarrow> map_option (\<lambda>(r, e). (r, s, h, e)) (handle_select out sel s h e))
      | SCF_SYNC \<Rightarrow>
          map_option (\<lambda>(rc, h, e). (if rc = Inl UB then Inl UB else Inr (Code_Name rc), s, h, e)) (handler_sync h e)
      | SCF_BEGIN \<Rightarrow> Some (Inr (Code_Name SUCCESS), set_trx_multi_operation_mode True s, h, e)
      | SCF_COMMIT \<Rightarrow> (let e = current_trx e in end_transaction (commit (logged (o_world out) e)) s h e)
      | SCF_ROLLBACK \<Rightarrow> (let e = current_trx e in end_transaction (rollback (logged (o_world out) e)) s h e)
      | SCF_HELP \<Rightarrow> Some (Inr (Text help_text), s, h, e)
      | SCF_EXIT \<Rightarrow> Some (Inr (Text (ascii ''Unsupported'' @ [newline])), s, h, e)
      | SCF_ERROR \<Rightarrow> Some (Inr (Text []), s, h, e)
      | _ \<Rightarrow>
          map_option (\<lambda>(r, h, e). (r, s, h, e)) (handle_storage_event (o_world out) (o_mem out) (o_file out) q s h e))"

section \<open>The request\<close>

text \<open>\<open>None\<close> as the answer: nothing is sent, as for a blank request.\<close>

definition parse_request ::
  "(byte list \<Rightarrow> Query) \<Rightarrow> Outside \<Rightarrow> byte list \<Rightarrow> Session \<Rightarrow> DefaultHandler \<Rightarrow> Env \<Rightarrow>
   (Response result \<times> Session \<times> DefaultHandler \<times> Env) option" where
  "parse_request parser out sql s h e =
     (if parser sql = SCF_ERROR then Some (Inr (reply (Inl SQL_SYNTAX)), s, h, e)
      else handle_request out (parser sql) s h e)"

definition session_request ::
  "(byte list \<Rightarrow> Query) \<Rightarrow> Outside \<Rightarrow> byte list \<Rightarrow> Session \<Rightarrow> DefaultHandler \<Rightarrow> Env \<Rightarrow>
   (Response option result \<times> Session \<times> DefaultHandler \<times> Env) option" where
  "session_request parser out sql s h e =
     (if list_all is_space sql then Some (Inr None, s, h, e)
      else map_option (\<lambda>(r, s, h, e). (map_sum id Some r, s, h, e)) (parse_request parser out sql s h e))"

end
