(* ===== verification/Build_Spec.thy ===== *)
theory Build_Spec
  imports Execute_Stage Tuple_Spec
begin

text \<open>
  What \<^verbatim>\<open>executor_builder.cpp\<close> guarantees: exchanging the two sides of a comparison, and the recursion
  over nested queries, which needs no more fuel than the depth of the query and returns.
\<close>

section \<open>Two builders that do the same\<close>

text \<open>\<open>alike st f g P\<close>: the two operations do the same; a result satisfies \<open>P\<close>; with \<open>st\<close> they return.\<close>

definition alike :: "bool \<Rightarrow> 'a table_op \<Rightarrow> 'a table_op \<Rightarrow> ('a \<Rightarrow> bool) \<Rightarrow> bool" where
  "alike st f g P \<longleftrightarrow>
     (\<forall>e. f e = g e \<and> (st \<longrightarrow> f e \<noteq> None) \<and> (\<forall>x e'. f e = Some (Inr x, e') \<longrightarrow> P x))"

named_theorems alike_rules

lemma alike_ret [alike_rules]: "P x \<Longrightarrow> alike st (retT x) (retT x) P"
  by (simp add: alike_def retT_def)

lemma alike_fail [alike_rules]: "alike st (failT c) (failT c) P"
  by (simp add: alike_def failT_def)

lemma alike_liftR [alike_rules]: "(\<And>x. r = Inr x \<Longrightarrow> P x) \<Longrightarrow> alike st (liftR r) (liftR r) P"
  by (auto simp: liftR_def alike_def retT_def failT_def split: sum.splits)

lemma alike_bind [alike_rules]:
  assumes "alike st m m' P" "\<And>x. P x \<Longrightarrow> alike st (f x) (f' x) Q"
  shows "alike st (bindT m f) (bindT m' f') Q"
  unfolding alike_def
proof (intro allI)
  fix e
  consider "m e = None" "\<not> st" | c e1 where "m e = Some (Inl c, e1)" | x e1 where "m e = Some (Inr x, e1)"
    using assms(1) unfolding alike_def by (metis (no_types) not_None_eq obj_sumE surj_pair)
  then show "bindT m f e = bindT m' f' e \<and> (st \<longrightarrow> bindT m f e \<noteq> None) \<and> (\<forall>x e'. bindT m f e = Some (Inr x, e') \<longrightarrow> Q x)"
  proof cases
    case (3 x e1)
    then have "P x" "m' e = Some (Inr x, e1)" using assms(1) unfolding alike_def by metis+
    moreover have "f x e1 = f' x e1" "st \<longrightarrow> f x e1 \<noteq> None" "\<forall>y e'. f x e1 = Some (Inr y, e') \<longrightarrow> Q y"
      using assms(2) [OF calculation(1)] unfolding alike_def by blast+
    ultimately show ?thesis using 3 by (simp add: bindT_def thenT_def)
  qed (use assms(1) in \<open>auto simp: bindT_def thenT_def failT_def alike_def\<close>)
qed

section \<open>Depth and subqueries that are run while the query is built\<close>

text \<open>A condition is run while the query is built when both of its sides are constants or subqueries.\<close>

definition runs_now :: "Condition \<Rightarrow> bool \<Rightarrow> bool \<Rightarrow> bool" where
  "runs_now k l r \<longleftrightarrow> (left_is_attr k = 0 \<or> l) \<and> (right_is_attr k = 0 \<or> r) \<and> (l \<or> r)"

primrec static_select :: "Selects \<Rightarrow> bool" and static_condition :: "SqlCondition \<Rightarrow> bool" where
  "static_select (Selects ag ats ex re jo co ob gb) \<longleftrightarrow>
     list_all id (map static_condition co) \<and>
     list_all (\<lambda>p. list_all id (snd (snd p))) (map (map_prod id (map_prod id (map static_condition))) jo)"
| "static_condition (SqlCondition k la ra ls rs) \<longleftrightarrow>
     \<not> runs_now k (ls \<noteq> None) (rs \<noteq> None) \<and>
     pred_option id (map_option static_select ls) \<and> pred_option id (map_option static_select rs)"

definition ok_select :: "bool \<Rightarrow> nat \<Rightarrow> Selects \<Rightarrow> bool" where
  "ok_select st d s \<longleftrightarrow> select_depth s \<le> d \<and> (st \<longrightarrow> static_select s)"

definition ok_condition :: "bool \<Rightarrow> nat \<Rightarrow> SqlCondition \<Rightarrow> bool" where
  "ok_condition st d c \<longleftrightarrow> condition_depth c \<le> d \<and> (st \<longrightarrow> static_condition c)"

definition ok_conditions :: "bool \<Rightarrow> nat \<Rightarrow> SqlCondition list \<Rightarrow> bool" where
  "ok_conditions st d cs \<longleftrightarrow> list_all (ok_condition st d) cs"

definition ok_joins :: "bool \<Rightarrow> nat \<Rightarrow> (JoinType \<times> string option \<times> SqlCondition list) list \<Rightarrow> bool" where
  "ok_joins st d js \<longleftrightarrow> list_all (\<lambda>(_, _, cs). ok_conditions st d cs) js"

lemma ok_conditions_simps [simp]:
  "ok_conditions st d []"
  "ok_conditions st d (c # cs) \<longleftrightarrow> ok_condition st d c \<and> ok_conditions st d cs"
  "ok_joins st d []"
  "ok_joins st d ((ty, n, cs) # js) \<longleftrightarrow> ok_conditions st d cs \<and> ok_joins st d js"
  by (simp_all add: ok_conditions_def ok_joins_def)

lemma largest_le: "largest ns \<le> d \<longleftrightarrow> list_all (\<lambda>n. n \<le> d) ns"
  by (induction ns) (auto simp: largest_def)

lemma ok_select_0: "\<not> ok_select st 0 s"
  by (cases s) (simp add: ok_select_def)

lemma ok_select_Suc:
  "ok_select st (Suc d) s \<longleftrightarrow> ok_conditions st d (sel_conditions s) \<and> ok_joins st d (sel_joins s)"
  by (cases s) (auto simp: ok_select_def ok_conditions_def ok_joins_def ok_condition_def largest_le list_all_iff)

lemma ok_condition_iff:
  "ok_condition st d (SqlCondition k la ra ls rs) \<longleftrightarrow>
     (st \<longrightarrow> \<not> runs_now k (ls \<noteq> None) (rs \<noteq> None)) \<and>
     pred_option (ok_select st d) ls \<and> pred_option (ok_select st d) rs"
  by (cases ls; cases rs) (auto simp: ok_condition_def ok_select_def)

lemma ok_true_condition [simp]: "ok_condition st d (change_to_true_condition c)"
  by (simp add: change_to_true_condition_def Let_def ok_condition_iff runs_now_def)

section \<open>The conditions\<close>

definition run_alike :: "bool \<Rightarrow> nat \<Rightarrow> subquery_op \<Rightarrow> subquery_op \<Rightarrow> bool" where
  "run_alike st d r r' \<longleftrightarrow> (\<forall>s. ok_select st d s \<longrightarrow> alike False (r s) (r' s) (\<lambda>(_, s). ok_select st d s))"

definition build_alike :: "bool \<Rightarrow> nat \<Rightarrow> builder \<Rightarrow> builder \<Rightarrow> bool" where
  "build_alike st d b b' \<longleftrightarrow> (\<forall>s. ok_select st d s \<longrightarrow> alike st (b s) (b' s) (\<lambda>(_, s). ok_select st d s))"

lemma constant_side_alike [alike_rules]:
  assumes "run_alike st d run run'" "pred_option (ok_select st d) sel" "st \<Longrightarrow> sel = None"
  shows "alike st (constant_side u run sel v) (constant_side u run' sel v)
    (\<lambda>(_, s). pred_option (ok_select st d) s \<and> (s = None \<longleftrightarrow> sel = None))"
proof (cases sel)
  case None
  then show ?thesis by (auto simp: constant_side_def intro!: alike_rules split: sum.splits option.splits)
next
  case (Some s)
  then have "\<not> st" using assms(3) by auto
  then have "alike st (run s) (run' s) (\<lambda>(_, s). ok_select st d s)" using assms(1,2) Some by (simp add: run_alike_def)
  then show ?thesis using Some by (auto simp: constant_side_def intro!: alike_rules)
qed

lemma from_condition_alike [alike_rules]:
  assumes "run_alike st d run run'" "ok_condition st d c"
  shows "alike st (from_condition u run n b c) (from_condition u run' n b c) (\<lambda>(_, c). ok_condition st d c)"
proof -
  obtain k la ra ls rs where c: "c = SqlCondition k la ra ls rs" by (cases c)
  have ok: "pred_option (ok_select st d) ls" "pred_option (ok_select st d) rs" using assms(2) by (simp_all add: c ok_condition_iff)
  show ?thesis
  proof (cases "(left_is_attr k = 0 \<or> ls \<noteq> None) \<and> (right_is_attr k = 0 \<or> rs \<noteq> None)")
    case True
    then have n: "ls = None" "rs = None" if st
      using that assms(2) by (auto simp: c ok_condition_iff runs_now_def)
    note l = constant_side_alike [OF assms(1) ok(1) n(1)] and r = constant_side_alike [OF assms(1) ok(2) n(2)]
    have made: "alike st (case tv_compare a b of Inl c \<Rightarrow> failT c
        | Inr r \<Rightarrow> retT (if compare_result r (comp k) then True_Condition else Ban_All, SqlCondition k la ra ls' rs'))
      (case tv_compare a b of Inl c \<Rightarrow> failT c
        | Inr r \<Rightarrow> retT (if compare_result r (comp k) then True_Condition else Ban_All, SqlCondition k la ra ls' rs'))
      (\<lambda>(_, c). ok_condition st d c)"
      if "ok_condition st d (SqlCondition k la ra ls' rs')" for a b ls' rs'
      using that by (cases "tv_compare a b") (simp_all add: alike_fail alike_ret)
    have s: "st \<Longrightarrow> \<not> runs_now k (ls \<noteq> None) (rs \<noteq> None)" using assms(2) by (simp add: c ok_condition_iff)
    have "alike st (bindT (constant_side u run ls (left_value k)) (\<lambda>(a, ls).
        bindT (constant_side u run rs (right_value k)) (\<lambda>(b, rs).
        case tv_compare a b of Inl c \<Rightarrow> failT c
        | Inr r \<Rightarrow> retT (if compare_result r (comp k) then True_Condition else Ban_All, SqlCondition k la ra ls rs))))
      (bindT (constant_side u run' ls (left_value k)) (\<lambda>(a, ls).
        bindT (constant_side u run' rs (right_value k)) (\<lambda>(b, rs).
        case tv_compare a b of Inl c \<Rightarrow> failT c
        | Inr r \<Rightarrow> retT (if compare_result r (comp k) then True_Condition else Ban_All, SqlCondition k la ra ls rs))))
      (\<lambda>(_, c). ok_condition st d c)"
      using s by (auto intro!: alike_bind [OF l] alike_bind [OF r] made simp: ok_condition_iff)
    then show ?thesis unfolding from_condition_def c SqlCondition.sel Let_def if_P [OF True] .
  next
    case False
    note ok = assms(2) [unfolded c]
    show ?thesis unfolding from_condition_def c SqlCondition.sel Let_def if_not_P [OF False]
      using ok by (auto intro!: alike_ret alike_fail split: sum.split option.split)
  qed
qed

lemma from_conditions_alike [alike_rules]:
  assumes "run_alike st d run run'"
  shows "ok_conditions st d cs \<Longrightarrow>
    alike st (from_conditions u run n b cs fs) (from_conditions u run' n b cs fs) (\<lambda>(_, _, cs). ok_conditions st d cs)"
proof (induction cs arbitrary: fs)
  case (Cons c cs)
  then show ?case
    by (auto intro!: alike_bind [OF from_condition_alike [OF assms]] alike_bind [OF Cons.IH] alike_ret split: made_filter.splits)
qed (simp add: alike_ret)

section \<open>The executors\<close>

lemma scanned_table_alike [alike_rules]: "alike st (scanned_table cat n) (scanned_table cat n) (\<lambda>_. True)"
  by (auto simp: alike_def scanned_table_def retT_def failT_def split: option.splits)

lemma scan_of_alike [alike_rules]:
  assumes "run_alike st d run run'" "ok_conditions st d cs"
  shows "alike st (scan_of u run cat n cs) (scan_of u run' cat n cs) (\<lambda>(_, cs). ok_conditions st d cs)"
  unfolding scan_of_def using assms
  by (auto intro!: alike_bind [OF scanned_table_alike] alike_bind [OF from_conditions_alike] alike_ret)

lemma join_relations_alike [alike_rules]:
  assumes "run_alike st d run run'"
  shows "ok_conditions st d cs \<Longrightarrow>
    alike st (join_relations u run cat l cs ns) (join_relations u run' cat l cs ns) (\<lambda>(_, cs). ok_conditions st d cs)"
proof (induction ns arbitrary: l cs)
  case (Cons n ns)
  then show ?case using assms
    by (auto intro!: alike_bind [OF scan_of_alike] alike_bind [OF from_conditions_alike]
        alike_bind [OF alike_liftR [where P = "\<lambda>_. True"]])
qed (simp add: alike_ret)

lemma sub_query_condition_alike [alike_rules]:
  assumes "build_alike st d b b'" "ok_condition st d c"
  shows "alike st (sub_query_condition b n ex c) (sub_query_condition b' n ex c) (\<lambda>(_, c). ok_condition st d c)"
proof -
  obtain k la ra ls rs where c: "c = SqlCondition k la ra ls rs" by (cases c)
  have b: "alike st (b s) (b' s) (\<lambda>(_, s). ok_select st d s)" if "ok_select st d s" for s
    using assms(1) that by (simp add: build_alike_def)
  show ?thesis using assms(2)
    by (auto simp: c sub_query_condition_def Let_def ok_condition_iff intro!: alike_bind [OF b] alike_ret split: option.splits)
qed

lemma build_sub_query_executor_alike [alike_rules]:
  assumes "build_alike st d b b'"
  shows "ok_conditions st d cs \<Longrightarrow>
    alike st (build_sub_query_executor b n ex cs) (build_sub_query_executor b' n ex cs) (\<lambda>(_, cs). ok_conditions st d cs)"
proof (induction cs arbitrary: ex)
  case (Cons c cs)
  then show ?case
    by (auto intro!: alike_bind [OF sub_query_condition_alike [OF assms]] alike_bind [OF Cons.IH] alike_ret)
qed (simp add: alike_ret)

lemma build_select_executor_alike:
  assumes "build_alike st d b b'" "run_alike st d run run'" "ok_select st (Suc d) s"
  shows "alike st (build_select_executor u b run cat s) (build_select_executor u b' run' cat s) (\<lambda>(_, s). ok_select st (Suc d) s)"
  using assms unfolding build_select_executor_def
  by (cases s) (auto simp: ok_select_Suc intro!: alike_bind [OF scan_of_alike] alike_bind [OF join_relations_alike]
      alike_bind [OF build_sub_query_executor_alike] alike_ret alike_fail split: list.splits)

lemma join_scan_alike:
  assumes "run_alike st d run run'" "ok_conditions st d js" "ok_conditions st d cs"
  shows "alike st (join_scan u run cat n js cs) (join_scan u run' cat n js cs)
    (\<lambda>(_, js, cs). ok_conditions st d js \<and> ok_conditions st d cs)"
  using assms unfolding join_scan_def
  by (auto intro!: alike_bind [OF scanned_table_alike] alike_bind [OF from_conditions_alike] alike_ret)

lemma join_filters_alike:
  assumes "run_alike st d run run'" "ok_conditions st d js" "ok_conditions st d cs"
  shows "alike st (join_filters u run l js cs) (join_filters u run' l js cs)
    (\<lambda>(_, _, js, cs). ok_conditions st d js \<and> ok_conditions st d cs)"
  using assms unfolding join_filters_def
  by (auto intro!: alike_bind [OF from_conditions_alike] alike_ret)

lemma build_join_executor_alike:
  assumes "build_alike st d b b'" "run_alike st d run run'"
  shows "ok_conditions st d cs \<Longrightarrow> ok_joins st d js \<Longrightarrow>
    alike st (build_join_executor u b run cat n l cs js) (build_join_executor u b' run' cat n l cs js)
      (\<lambda>(_, cs, js). ok_conditions st d cs \<and> ok_joins st d js)"
proof (induction js arbitrary: l cs)
  case (Cons j js)
  obtain ty m jcs where j: "j = (ty, m, jcs)" by (cases j)
  show ?case using Cons.prems assms
    by (auto simp: j intro!: alike_bind [OF join_scan_alike] alike_bind [OF join_filters_alike]
        alike_bind [OF alike_liftR [where P = "\<lambda>_. True"]] alike_bind [OF build_sub_query_executor_alike]
        alike_bind [OF Cons.IH] alike_ret)
qed (simp add: alike_ret)

section \<open>The fuel\<close>

lemma run_alike: "build_alike st d b b' \<Longrightarrow> run_alike st d (construct_tuple_value_from_selects u b) (construct_tuple_value_from_selects u b')"
  unfolding run_alike_def
proof (intro allI impI)
  fix s assume b: "build_alike st d b b'" and s: "ok_select st d s"
  let ?k = "\<lambda>(ex, sel) e. case init_executor u e ex of
         (rc, ex) \<Rightarrow>
           if rc = Inl UB then failT UB e
           else (case dropped (next_tuples u ex [] e) of
                   None \<Rightarrow> None
                 | Some (Inl c, e) \<Rightarrow> failT c e
                 | Some (Inr ts, e) \<Rightarrow>
                     (case set_tuples ts of (v # _) # _ \<Rightarrow> retT (v, sel) e | _ \<Rightarrow> failT UB e))"
  have k: "alike False (?k (ex, sel)) (?k (ex, sel)) (\<lambda>(_, s). ok_select st d s)" if "ok_select st d sel" for ex sel
    using that by (auto simp: alike_def failT_def retT_def split: prod.splits option.splits sum.splits list.splits if_splits)
  have "alike False (b s) (b' s) (\<lambda>(_, s). ok_select st d s)"
    using b s by (auto simp: build_alike_def alike_def)
  then show "alike False (construct_tuple_value_from_selects u b s) (construct_tuple_value_from_selects u b' s) (\<lambda>(_, s). ok_select st d s)"
    unfolding construct_tuple_value_from_selects_def by (rule alike_bind) (use k in auto)
qed

lemma build_step_alike:
  assumes "build_alike st d b b'"
  shows "build_alike st (Suc d) (build_step u cat b) (build_step u cat b')"
  unfolding build_alike_def
proof (intro allI impI)
  fix s assume s: "ok_select st (Suc d) s"
  note r = run_alike [OF assms]
  have f: "alike st (finish_build cat ex s) (finish_build cat ex s) (\<lambda>(_, s). ok_select st (Suc d) s)"
    if "ok_select st (Suc d) s" for ex s
  proof -
    have k: "ok_select st (Suc d) (with_parts ats (sel_joins s) (sel_conditions s) gs s)" for ats gs
      using that by (cases s) (simp add: ok_select_Suc)
    show ?thesis unfolding finish_build_def alike_def
      using that k by (auto simp: liftR_def retT_def failT_def build_agg_output_schema_def build_output_schema_def Let_def
          split: sum.splits option.splits if_splits prod.splits)
  qed
  show "alike st (build_step u cat b s) (build_step u cat b' s) (\<lambda>(_, s). ok_select st (Suc d) s)"
    unfolding build_step_def Let_def
  proof (rule alike_bind [OF build_select_executor_alike [OF assms r s]], clarify)
    fix ex s assume s: "ok_select st (Suc d) s"
    then have ok: "ok_conditions st d (sel_conditions s)" "ok_joins st d (sel_joins s)" by (simp_all add: ok_select_Suc)
    have "ok_select st (Suc d) (with_parts (sel_attributes s) js cs (sel_group_bys s) s)"
      if "ok_conditions st d cs" "ok_joins st d js" for cs js
      using that by (cases s) (simp add: ok_select_Suc)
    then show "alike st
        (bindT (build_join_executor u b (construct_tuple_value_from_selects u b) cat (relation s) ex (sel_conditions s) (sel_joins s))
          (\<lambda>(ex, cs, js). finish_build cat ex (with_parts (sel_attributes s) js cs (sel_group_bys s) s)))
        (bindT (build_join_executor u b' (construct_tuple_value_from_selects u b') cat (relation s) ex (sel_conditions s) (sel_joins s))
          (\<lambda>(ex, cs, js). finish_build cat ex (with_parts (sel_attributes s) js cs (sel_group_bys s) s)))
        (\<lambda>(_, s). ok_select st (Suc d) s)"
      by (auto intro!: alike_bind [OF build_join_executor_alike [OF assms r ok]] f)
  qed
qed

lemma build_fuel: "d \<le> n \<Longrightarrow> d \<le> m \<Longrightarrow> build_alike st d (build u cat n) (build u cat m)"
proof (induction d arbitrary: n m)
  case (Suc d)
  then show ?case by (cases n; cases m) (auto intro!: build_step_alike)
qed (simp add: build_alike_def ok_select_0)

text \<open>Exchanging the sides of a comparison of two values and taking the symmetric operator keeps its truth:
  the builder may turn a condition whose subquery is on the left into one whose subquery is on the right.\<close>

theorem symmetric_op_correct: "compare_result (- r) (symmetric_op op) = compare_result r op"
  by (cases op) (auto simp: compare_result_def symmetric_op_def)

text \<open>C16: the recursion of the builder over nested queries needs no more fuel than the depth of the query: more
  does not change the result; and when no condition has to be run while the query is built, the builder returns,
  with executors or an error.\<close>

theorem build_terminates:
  assumes "select_depth sel \<le> n"
  shows "build u cat n sel e = build u cat (select_depth sel) sel e \<and> (static_select sel \<longrightarrow> build u cat n sel e \<noteq> None)"
proof -
  have "build_alike st (select_depth sel) (build u cat n) (build u cat (select_depth sel))" for st
    using assms by (intro build_fuel) simp_all
  moreover have "ok_select False (select_depth sel) sel" "static_select sel \<Longrightarrow> ok_select True (select_depth sel) sel"
    by (simp_all add: ok_select_def)
  ultimately show ?thesis unfolding build_alike_def alike_def by blast
qed

definition nested_query :: Selects where
  "nested_query = Selects [] [relation_attr_init None ''a''] [] [Some ''t''] []
     [SqlCondition \<lparr>left_is_attr = 1, left_value = value_init_integer (\<lambda>_. 0) 0, left_attr = relation_attr_init None ''a'', comp = IN_OP,
        right_is_attr = 0, right_value = value_init_integer (\<lambda>_. 0) 0, right_attr = relation_attr_init None ''a''\<rparr> NullNode NullNode None
        (Some (Selects [] [relation_attr_init None ''b''] [] [Some ''u''] [] [] [] []))] [] []"

lemma build_terminates_witness:
  "\<forall>u cat e. build u cat 5 nested_query e = build u cat 2 nested_query e \<and> build u cat 5 nested_query e \<noteq> None"
proof (intro allI)
  fix u cat e
  have "select_depth nested_query = 2" "static_select nested_query"
    by (simp_all add: nested_query_def largest_def runs_now_def)
  then show "build u cat 5 nested_query e = build u cat 2 nested_query e \<and> build u cat 5 nested_query e \<noteq> None"
    using build_terminates [of nested_query 5 u cat e] by (metis numeral_le_iff semiring_norm(68,71,72))
qed

end
