(* ===== verification/Session_Spec.thy ===== *)
theory Session_Spec
  imports Execute_Stage
begin

text \<open>
  The requests of one session: outside a transaction of several statements, no operation of a transaction is
  left over from one request to the next.
\<close>

section \<open>Operations that leave the transaction alone\<close>

definition keeps :: "(Env \<Rightarrow> ('b \<times> Env) option) \<Rightarrow> bool" where
  "keeps f \<longleftrightarrow> (\<forall>e r e'. f e = Some (r, e') \<longrightarrow> e_trx e' = e_trx e)"

named_theorems keeps

lemma keepsD: "keeps f \<Longrightarrow> f e = Some (r, e') \<Longrightarrow> e_trx e' = e_trx e"
  by (simp add: keeps_def)

lemma keeps_ret [keeps]: "keeps (retT x)" "keeps (failT c)" "keeps (\<lambda>e. Some (h e, e))" "keeps (\<lambda>_. None)"
  by (auto simp: keeps_def retT_def failT_def)

lemma keeps_then [keeps]: "keeps m \<Longrightarrow> (\<And>r. keeps (k r)) \<Longrightarrow> keeps (thenT m k)"
  unfolding keeps_def thenT_def by (auto split: option.splits)

lemma keeps_bind [keeps]: "keeps m \<Longrightarrow> (\<And>x. keeps (k x)) \<Longrightarrow> keeps (bindT m k)"
  unfolding bindT_def by (intro keeps) (auto split: sum.split intro: keeps)

lemma keeps_pool [keeps]: "keeps (poolT f)"
  by (auto simp: keeps_def poolT_def split: prod.splits)

lemma keeps_handler [keeps]: "(\<And>fh. keeps (f fh)) \<Longrightarrow> keeps (handlerT f)"
  by (auto simp: keeps_def handlerT_def split: option.splits)

lemma keeps_index [keeps]: "keeps (indexT i f)"
  by (auto simp: keeps_def indexT_def upd_this_def split: prod.splits option.splits)

lemma keeps_bindD: "bindT m k e = Some (r, e1) \<Longrightarrow> keeps m \<Longrightarrow> (\<And>x. keeps (k x)) \<Longrightarrow> e_trx e1 = e_trx e"
  by (rule keepsD [OF keeps_bind])

section \<open>Scans\<close>

lemma tbl_get_record_keeps [keeps]: "keeps (tbl_get_record rid rec)"
  unfolding tbl_get_record_def by (intro keeps)

lemma scanner_op_keeps [keeps]: "keeps (scanner_op i op v)"
  unfolding scanner_op_def by (cases v) (auto intro: keeps)

lemma index_for_sides_keeps [keeps]: "keeps (index_for_sides l r op)"
  unfolding keeps_def index_for_sides_def
  by (auto split: option.splits dest: keepsD [OF scanner_op_keeps])

lemma find_index_for_default_keeps [keeps]: "keeps (find_index_for_default f)"
  unfolding find_index_for_default_def Let_def by (auto intro: keeps)

lemma find_index_keeps:
  "find_index_for_scan f e = Some (r, e1) \<Longrightarrow> e_trx e1 = e_trx e"
  "find_index_in fs e = Some (r, e1) \<Longrightarrow> e_trx e1 = e_trx e"
proof (induction f e and fs e arbitrary: r e1 and r e1 rule: find_index_for_scan_find_index_in.induct)
  case (5 f fs e)
  show ?case
  proof (cases "find_index_for_scan f e")
    case (Some q)
    obtain s e2 where q: "q = (s, e2)" by fastforce
    have t: "e_trx e2 = e_trx e" using "5.IH"(1) Some q by simp
    show ?thesis
    proof (cases "s = Inr None")
      case True
      then have "find_index_in fs e2 = Some (r, e1)" using "5.prems" Some q by simp
      from "5.IH"(2) [OF Some q [symmetric] True refl this] show ?thesis using t by simp
    qed (use "5.prems" Some q t in \<open>auto split: sum.splits if_splits\<close>)
  qed (use "5.prems" in simp)
qed (auto dest: keepsD [OF find_index_for_default_keeps])

lemma index_next_keeps: "e_trx (snd (snd (index_next i sc e))) = e_trx e"
  by (auto simp: index_next_def upd_this_def split: prod.splits)

definition reader_keeps :: "'c reader \<Rightarrow> bool" where
  "reader_keeps reader \<longleftrightarrow> (\<forall>rec ctx e r ctx1 e1. reader rec ctx e = Some (r, ctx1, e1) \<longrightarrow> e_trx e1 = e_trx e)"

lemma reader_keepsD: "reader_keeps reader \<Longrightarrow> reader rec ctx e = Some rd \<Longrightarrow> e_trx (snd (snd rd)) = e_trx e"
  by (cases rd) (simp add: reader_keeps_def)

lemma scan_rows_keeps:
  "scan_rows reader limit k rc rec sc ctx e = Some y \<Longrightarrow> reader_keeps reader \<longrightarrow> e_trx (snd (snd (snd y))) = e_trx e"
proof (erule scan_rows.raw_induct [rotated,
      where P = "\<lambda>reader limit k rc rec sc ctx e y. reader_keeps reader \<longrightarrow> e_trx (snd (snd (snd y))) = e_trx e"], goal_cases)
  case (1 rows reader limit k rc rec sc ctx e y)
  show ?case
  proof
    assume K: "reader_keeps reader"
    show "e_trx (snd (snd (snd y))) = e_trx e"
      using "1"(2) by (auto simp: Let_def split: if_splits option.splits
          dest!: "1"(1) [THEN mp, OF _ K] reader_keepsD [OF K])
  qed
qed

lemma index_rows_keeps:
  "index_rows reader flt limit i k rec sc ctx e = Some y \<Longrightarrow> reader_keeps reader \<longrightarrow> e_trx (snd (snd y)) = e_trx e"
proof (erule index_rows.raw_induct [rotated,
      where P = "\<lambda>reader flt limit i k rec sc ctx e y. reader_keeps reader \<longrightarrow> e_trx (snd (snd y)) = e_trx e"], goal_cases)
  case (1 rows reader flt limit i k rec sc ctx e y)
  have g: "e_trx (snd g) = e_trx e1" if "tbl_get_record rid rec e1 = Some g" for rid e1 g
    using that by (cases g) (auto dest: keepsD [OF tbl_get_record_keeps])
  show ?case
  proof
    assume K: "reader_keeps reader"
    show "e_trx (snd (snd y)) = e_trx e"
      using "1"(2) index_next_keeps [of i sc e]
      by (auto simp: Let_def split: if_splits option.splits sum.splits
          dest!: "1"(1) [THEN mp, OF _ K] reader_keepsD [OF K] g)
  qed
qed

lemma scan_record_keeps:
  assumes "reader_keeps reader"
  shows "scan_record flt limit ctx reader e = Some (r, ctx1, e1) \<Longrightarrow> e_trx e1 = e_trx e"
  using assms unfolding scan_record_def
  by (auto simp: Let_def split: if_splits option.splits sum.splits prod.splits
      dest!: scan_rows_keeps index_rows_keeps find_index_keeps(1))

section \<open>Reading of rows\<close>

lemma text_value_keeps [keeps]: "keeps (text_value mem f)"
proof -
  have r: "keeps (read_text_record d pn)" for d pn unfolding read_text_record_def by (intro keeps)
  show ?thesis unfolding keeps_def text_value_def Let_def by (auto intro: keeps r dest!: keeps_bindD)
qed

lemma field_value_keeps [keeps]: "keeps (field_value mem n)"
  unfolding keeps_def field_value_def Let_def
  by (auto intro: keeps simp: retT_def dest!: keeps_bindD split: option.splits if_splits AttrType.splits)

lemma record_values_keeps [keeps]: "keeps (record_values mem fs)"
proof (induction fs)
  case Nil
  then show ?case by (simp add: keeps_def retT_def)
next
  case (Cons f fs)
  have "record_values mem (f # fs) = bindT (field_value mem (tf_name f))
       (\<lambda>v. bindT (record_values mem fs) (\<lambda>vs. retT ((case v of None \<Rightarrow> [] | Some x \<Rightarrow> [x]) @ vs)))"
    by (rule ext) simp
  then show ?case using Cons.IH by (auto intro: keeps)
qed

lemma add_record_keeps [keeps]: "keeps (add_record mem s)"
  unfolding add_record_def by (intro keeps)

lemma tuple_reader_keeps: "reader_keeps tuple_reader"
  unfolding reader_keeps_def tuple_reader_def
  by (auto split: option.splits sum.splits dest: keepsD [OF add_record_keeps])

lemma execute_selections_keeps: "execute_selections ns e = Some (r, e1) \<Longrightarrow> e_trx e1 = e_trx e"
proof (induction ns arbitrary: e r)
  case (Cons n ns)
  then show ?case
    by (auto simp: select_execute_def split: option.splits sum.splits dest!: scan_record_keeps [OF tuple_reader_keeps])
qed simp

section \<open>The end of a request\<close>

lemma sync_indexes_keeps [keeps]: "keeps (sync_indexes is)"
proof (induction "is")
  case (Cons i "is")
  have "sync_indexes (i # is) = bindT (indexT i (\<lambda>ix. Some (index_sync ix))) (\<lambda>_. sync_indexes is)" by (rule ext) simp
  then show ?case using Cons.IH by (auto intro: keeps)
qed (simp add: keeps_def)

lemma sync_table_keeps [keeps]: "keeps sync_table"
  unfolding keeps_def sync_table_def
proof (intro allI impI, erule keeps_bindD)
  show "keeps (\<lambda>e. sync_indexes [0..<length (t_indexes (this e))] e)" for x :: unit
    unfolding keeps_def using sync_indexes_keeps by (auto dest: keepsD)
qed (rule keeps)

lemma sync_tables_keeps: "sync_tables ts db e = Some (r, db1, e1) \<Longrightarrow> e_trx e1 = e_trx e"
proof (induction ts arbitrary: db e)
  case (Cons p ts)
  then show ?case
    by (cases p) (auto simp: on_table_def split: option.splits sum.splits if_splits dest!: keepsD [OF sync_table_keeps])
qed simp

lemma sync_dbs_keeps: "sync_dbs ns h e = Some (r, h1, e1) \<Longrightarrow> e_trx e1 = e_trx e"
proof (induction ns arbitrary: h e)
  case (Cons n ns)
  then show ?case
    by (auto simp: in_db_def Db_sync_def split: option.splits sum.splits dest!: sync_tables_keeps)
qed simp

lemma finish_trx_fresh:
  "commit ops e = Some (r, e1) \<Longrightarrow> e_trx e1 = Some Trx_new" "rollback ops e = Some (r, e1) \<Longrightarrow> e_trx e1 = Some Trx_new"
  by (auto simp: commit_def rollback_def finish_trx_def thenT_def split: option.splits)

lemma finish_statement_fresh: "finish_statement w False rc e = Some (r, e1) \<Longrightarrow> e_trx e1 = Some Trx_new"
  by (auto simp: finish_statement_def split: if_splits option.splits dest: finish_trx_fresh)

lemma ended_fresh:
  "ended w multi b r e = Some (r1, e1) \<Longrightarrow> \<not> multi \<Longrightarrow> r1 \<noteq> Inl UB \<Longrightarrow> e_trx e1 = Some Trx_new"
  by (auto simp: ended_def end_trx_if_need_def bindT_def thenT_def failT_def split: if_splits option.splits dest: finish_trx_fresh)

lemma do_select_fresh:
  assumes "do_select w sorter junk stack cat False sel e = Some (r, e1)" "r \<noteq> Inl UB" "e_trx e = Some Trx_new"
  shows "e_trx e1 = Some Trx_new"
  using assms unfolding do_select_def
  by (auto split: sum.splits option.splits if_splits prod.splits dest: ended_fresh dest!: execute_selections_keeps)

lemma do_select_v2_fresh:
  assumes "do_select_v2 w u fuel cat False sel e = Some (r, e1)" "r \<noteq> Inl UB"
  shows "e_trx e1 = Some Trx_new"
  using assms unfolding do_select_v2_def thenT_def
  by (auto simp: failT_def split: sum.splits option.splits if_splits prod.splits dest: ended_fresh)

section \<open>The requests of a session\<close>

text \<open>What a connected client can reach: a request is served when its answer is not undefined.\<close>

inductive served :: "(byte list \<Rightarrow> Query) \<Rightarrow> Session \<Rightarrow> DefaultHandler \<Rightarrow> Env \<Rightarrow> bool" for parser where
  connected: "served parser \<lparr>current_db = db, trx_multi_operation_mode = False\<rparr> h (e\<lparr>e_trx := None\<rparr>)"
| request: "served parser s h e \<Longrightarrow> session_request parser out sql s h e = Some (Inr a, s1, h1, e1) \<Longrightarrow> served parser s1 h1 e1"

definition idle :: "Session \<Rightarrow> Env \<Rightarrow> bool" where
  "idle s e \<longleftrightarrow> trx_multi_operation_mode s \<or> e_trx e = None \<or> e_trx e = Some Trx_new"

lemma current_trx_idle: "idle s e \<Longrightarrow> \<not> trx_multi_operation_mode s \<Longrightarrow> e_trx (current_trx e) = Some Trx_new"
  by (auto simp: idle_def current_trx_def)

lemma handle_select_idle:
  assumes "idle s e" "handle_select out sel s h e = Some (Inr a, e1)"
  shows "idle s e1"
proof (cases "trx_multi_operation_mode s")
  case False
  then show ?thesis
    using assms(2) current_trx_idle [OF assms(1) False]
    by (auto simp: handle_select_def is_trx_multi_operation_mode_def Let_def idle_def
        split: if_splits option.splits sum.splits dest: do_select_fresh do_select_v2_fresh)
qed (simp add: idle_def)

lemma handle_storage_event_idle:
  assumes "handle_storage_event w mem file q s h e = Some (Inr a, h1, e1)"
  shows "idle s e1"
  using assms by (cases "trx_multi_operation_mode s")
    (auto simp: handle_storage_event_def is_trx_multi_operation_mode_def idle_def
      split: option.splits if_splits dest: finish_statement_fresh)

lemma end_transaction_idle:
  assumes "end_transaction f s h e = Some (Inr a, s1, h1, e1)" "\<And>r e1. f e = Some (r, e1) \<Longrightarrow> e_trx e1 = Some Trx_new"
  shows "idle s1 e1"
  using assms by (auto simp: end_transaction_def idle_def split: option.splits if_splits)

lemma handle_request_idle:
  assumes "idle s e" "handle_request out q s h e = Some (Inr a, s1, h1, e1)"
  shows "idle s1 e1"
proof (cases q)
  case (SCF_SELECT sel)
  then show ?thesis using assms
    by (auto simp: handle_request_def split: if_splits sum.splits option.splits dest: handle_select_idle)
next
  case SCF_SYNC
  then show ?thesis using assms
    by (auto simp: handle_request_def handler_sync_def idle_def split: if_splits dest!: sync_dbs_keeps)
next
  case SCF_COMMIT
  then show ?thesis using assms(2)
    by (auto simp: handle_request_def Let_def elim!: end_transaction_idle dest: finish_trx_fresh)
next
  case SCF_ROLLBACK
  then show ?thesis using assms(2)
    by (auto simp: handle_request_def Let_def elim!: end_transaction_idle dest: finish_trx_fresh)
qed (use assms in \<open>auto simp: handle_request_def idle_def set_trx_multi_operation_mode_def dest: handle_storage_event_idle [unfolded idle_def]\<close>)

lemma session_request_idle:
  assumes "idle s e" "session_request parser out sql s h e = Some (Inr a, s1, h1, e1)"
  shows "idle s1 e1"
  using assms by (auto simp: session_request_def parse_request_def split: if_splits dest: handle_request_idle)

text \<open>C11: whatever a client asks for, between its requests the transaction of its session is new, with no
  operation to commit or to roll back, unless the client has begun a transaction of several statements: every
  other statement, also one that fails, ends its transaction.\<close>

theorem sessions_idle:
  assumes "served parser s h e"
  shows "trx_multi_operation_mode s \<or> e_trx e = None \<or> e_trx e = Some Trx_new"
  using assms
proof (induction rule: served.induct)
  case (request s h e out sql a s1 h1 e1)
  then show ?case using session_request_idle [of s e parser out sql h a s1 h1 e1] by (simp add: idle_def)
qed simp

definition demo_session :: Session where
  "demo_session = \<lparr>current_db = ''sys'', trx_multi_operation_mode = False\<rparr>"

definition demo_handler :: DefaultHandler where
  "demo_handler = \<lparr>base_dir = [], db_dir = [], opened_dbs = []\<rparr>"

lemma sessions_idle_witness:
  "\<forall>(out :: Outside) (e :: Env). \<exists>e1. session_request (\<lambda>_. SCF_DROP_TABLE (Some ''t''))
      (out\<lparr>o_world := (o_world out)\<lparr>w_operations := \<lambda>_. []\<rparr>\<rparr>) [100, 114, 111, 112] demo_session demo_handler (e\<lparr>e_trx := None\<rparr>) =
      Some (Inr (Some (reply (Inl SCHEMA_DB_NOT_OPENED))), demo_session, demo_handler, e1) \<and>
    (e_trx e1 = None \<or> e_trx e1 = Some Trx_new)"
proof (intro allI)
  fix out :: Outside and e :: Env
  let ?p = "\<lambda>_ :: byte list. SCF_DROP_TABLE (Some ''t'')"
  let ?out = "out\<lparr>o_world := (o_world out)\<lparr>w_operations := \<lambda>_. []\<rparr>\<rparr>"
  obtain e1 where r: "session_request ?p ?out [100, 114, 111, 112] demo_session demo_handler (e\<lparr>e_trx := None\<rparr>) =
      Some (Inr (Some (reply (Inl SCHEMA_DB_NOT_OPENED))), demo_session, demo_handler, e1)"
    by (simp add: session_request_def is_space_def parse_request_def handle_request_def handle_storage_event_def
        replied_def handler_drop_table_def in_db_def find_db_def demo_session_def demo_handler_def finish_statement_def
        is_trx_multi_operation_mode_def rollback_def finish_trx_def thenT_def logged_def current_trx_def)
  have "served ?p demo_session demo_handler (e\<lparr>e_trx := None\<rparr>)" unfolding demo_session_def by (rule served.connected)
  from served.request [OF this r] have "served ?p demo_session demo_handler e1" .
  from sessions_idle [OF this] have "e_trx e1 = None \<or> e_trx e1 = Some Trx_new" by (simp add: demo_session_def)
  with r show "\<exists>e1. session_request ?p ?out [100, 114, 111, 112] demo_session demo_handler (e\<lparr>e_trx := None\<rparr>) =
      Some (Inr (Some (reply (Inl SCHEMA_DB_NOT_OPENED))), demo_session, demo_handler, e1) \<and> (e_trx e1 = None \<or> e_trx e1 = Some Trx_new)"
    by blast
qed

end
