(* ===== verification/Server.thy ===== *)
theory Server
  imports Load_Data
begin

text \<open>
  The messages between client and server: \<^verbatim>\<open>Server::recv\<close> and \<^verbatim>\<open>Server::send\<close> of
  \<^verbatim>\<open>src/src/observer/net/server.cpp\<close>, the callback of \<^verbatim>\<open>session_stage.cpp\<close> that sends an answer, and
  the loop of \<^verbatim>\<open>src/src/obclient/client.cpp\<close> that prints it.  A message ends with a zero byte.  A socket
  is the list of what is still to come: pieces of data, nothing for the moment, the end, or an error.  The
  loop of the server does not wait: when the list is empty it spins on \<^verbatim>\<open>EAGAIN\<close>.
\<close>

section \<open>Receiving\<close>

datatype Arrival = Piece "byte list" | Again | Closed | Broken

datatype Received = Spinning | Request "byte list" "Arrival list" | Closing "Arrival list"

definition SOCKET_BUFFER_SIZE :: nat where
  "SOCKET_BUFFER_SIZE = 8192"

text \<open>One \<^verbatim>\<open>read\<close> takes at most \<open>n\<close> bytes of a piece; what is behind the zero in them is lost.  A full
  buffer leaves no room, and \<^verbatim>\<open>read\<close> returns 0 as at the end of the connection.\<close>

definition more :: "byte list \<Rightarrow> Arrival list \<Rightarrow> Arrival list" where
  "more d as = (if d = [] then as else Piece d # as)"

fun arrival_size :: "Arrival \<Rightarrow> nat" where
  "arrival_size (Piece d) = Suc (length d)"
| "arrival_size _ = 1"

function recv :: "nat \<Rightarrow> byte list \<Rightarrow> Arrival list \<Rightarrow> Received" where
  "recv cap buf as =
     (if cap \<le> length buf then Closing as
      else case as of
             [] \<Rightarrow> Spinning
           | Again # as \<Rightarrow> recv cap buf as
           | Closed # as \<Rightarrow> Closing (Closed # as)
           | Broken # as \<Rightarrow> Closing as
           | Piece d # as \<Rightarrow>
               let n = cap - length buf; part = take n d; rest = more (drop n d) as in
               if 0 \<in> set part then Request (buf @ takeWhile (\<lambda>b. b \<noteq> 0) part) rest
               else recv cap (buf @ part) rest)"
  by pat_completeness auto
termination
  by (relation "measure (\<lambda>(cap, buf, as). sum_list (map arrival_size as) + (cap - length buf))")
    (auto simp: more_def Let_def)

declare recv.simps [simp del]

section \<open>Sending\<close>

text \<open>\<open>written\<close> is what each \<^verbatim>\<open>write\<close> returns.  After three of them the call returns 0 whether or not all
  was sent.\<close>

fun send_loop :: "nat \<Rightarrow> byte list \<Rightarrow> byte list \<Rightarrow> int list \<Rightarrow> bool \<times> byte list" where
  "send_loop 0 out msg written = (True, out)"
| "send_loop (Suc i) out msg written =
     (if msg = [] then (True, out)
      else case written of
             [] \<Rightarrow> (True, out)
           | w # ws \<Rightarrow>
               if w < 0 then (False, out)
               else send_loop i (out @ take (nat w) msg) (drop (nat w) msg) ws)"

definition send :: "byte list \<Rightarrow> int list \<Rightarrow> bool \<times> byte list" where
  "send msg written = (if msg = [] then (True, []) else send_loop 3 [] msg written)"

text \<open>The bytes that the callback of the session stage hands to \<open>send\<close>, one call after the other; an empty
  answer is \<^verbatim>\<open>No data\<close> with its zero.\<close>

definition answer :: "byte list \<Rightarrow> byte list list" where
  "answer response =
     (let r = (if response = [] then ascii ''No data'' @ [newline, 0] else response)
      in r # (if last r \<noteq> 0 then [[0]] else []))"

section \<open>The client\<close>

text \<open>What the client prints of an answer; \<open>None\<close>: the connection is lost or the answer does not end.\<close>

fun client_print :: "byte list \<Rightarrow> Arrival list \<Rightarrow> byte list option" where
  "client_print out (Piece d # as) =
     (if 0 \<in> set d then Some (out @ takeWhile (\<lambda>b. b \<noteq> 0) d) else client_print (out @ d) as)"
| "client_print out (Again # as) = client_print out as"
| "client_print out _ = None"

section \<open>Messages arrive\<close>

text \<open>The bytes on the way, when nothing but data and pauses is.\<close>

fun in_flight :: "Arrival list \<Rightarrow> byte list option" where
  "in_flight [] = Some []"
| "in_flight (Again # as) = in_flight as"
| "in_flight (Piece d # as) = map_option ((@) d) (in_flight as)"
| "in_flight _ = None"

lemma in_flight_more: "in_flight as = Some s \<Longrightarrow> in_flight (more d as) = Some (d @ s)"
  by (auto simp: more_def)

text \<open>A piece without the zero is a prefix of the message.\<close>

lemma message_split:
  assumes "d @ s = req @ 0 # rest" "0 \<notin> set (take n d)" "length req < n"
  obtains us where "req = d @ us" "s = us @ 0 # rest" "take n d = d" "drop n d = []"
proof -
  have "length d \<le> length req"
  proof (rule ccontr)
    assume "\<not> length d \<le> length req"
    then have l: "length req < length d" by simp
    have "d ! length req = 0" using assms(1) l by (metis nth_append nth_append_length)
    then have "0 \<in> set (take n d)" using l assms(3) by (metis in_set_conv_nth length_take min_less_iff_conj nth_take)
    then show False using assms(2) by simp
  qed
  then have r: "d = take (length d) req" "s = drop (length d) req @ 0 # rest"
    using assms(1) by (simp_all add: append_eq_append_conv_if)
  have "req = d @ drop (length d) req" using r(1) by (metis append_take_drop_id)
  then show ?thesis using that r(2) \<open>length d \<le> length req\<close> assms(3) by simp
qed

lemma remaining:
  assumes "d @ s = req @ 0 # rest" "0 \<in> set d" "0 \<notin> set req" "length req < n"
  shows "drop n d @ s = drop (min n (length d) - Suc (length req)) rest"
proof -
  have "length req < length d"
  proof (rule ccontr)
    assume "\<not> length req < length d"
    then have "d = take (length d) req" using assms(1) by (simp add: append_eq_append_conv_if)
    then show False using assms(2,3) by (metis in_set_takeD)
  qed
  then have "drop (min n (length d)) (d @ s) = drop (min n (length d) - Suc (length req)) rest"
    using assms(1,4) by (auto simp: drop_Cons')
  moreover have "drop (min n (length d)) (d @ s) = drop n d @ s" by (simp add: min_def)
  ultimately show ?thesis by simp
qed

lemma recv_request:
  "in_flight as = Some (req @ 0 # rest) \<Longrightarrow> 0 \<notin> set req \<Longrightarrow> length buf + length req < cap \<Longrightarrow>
   \<exists>as' k. recv cap buf as = Request (buf @ req) as' \<and> in_flight as' = Some (drop k rest)"
proof (induction cap buf as arbitrary: req rule: recv.induct)
  case (1 cap buf as)
  have room: "\<not> cap \<le> length buf" using 1 by simp
  show ?case
  proof (cases as)
    case (Cons a as')
    show ?thesis
    proof (cases a)
      case (Piece d)
      define n where "n = cap - length buf"
      obtain s where s: "in_flight as' = Some s" "d @ s = req @ 0 # rest"
        using "1.prems"(1) Cons Piece by (auto split: option.splits)
      have n: "length req < n" using 1 n_def by linarith
      show ?thesis
      proof (cases "0 \<in> set (take n d)")
        case True
        then have "0 \<in> set d" by (meson in_set_takeD)
        have "takeWhile (\<lambda>b. b \<noteq> 0) (take n d) = takeWhile (\<lambda>b. b \<noteq> 0) (take n d @ drop n d @ s)"
          using True by (simp add: takeWhile_append1)
        also have "\<dots> = takeWhile (\<lambda>b. b \<noteq> 0) (req @ 0 # rest)" using s(2) by (metis append_assoc append_take_drop_id)
        also have "\<dots> = req" using "1.prems"(2) by (subst takeWhile_append2) auto
        finally have "recv cap buf as = Request (buf @ req) (more (drop n d) as')"
          using True room Cons Piece by (subst recv.simps) (simp add: n_def Let_def)
        moreover have "in_flight (more (drop n d) as') = Some (drop (min n (length d) - Suc (length req)) rest)"
          using in_flight_more [OF s(1)] remaining [OF s(2) \<open>0 \<in> set d\<close> "1.prems"(2) n] by simp
        ultimately show ?thesis by blast
      next
        case False
        from message_split [OF s(2) False n] obtain us where u: "req = d @ us" "s = us @ 0 # rest" "take n d = d" "drop n d = []" .
        have "\<exists>as'' k. recv cap (buf @ d) as' = Request ((buf @ d) @ us) as'' \<and> in_flight as'' = Some (drop k rest)"
          using "1.IH"(1) [OF room Cons Piece n_def refl refl, of us] False u s "1.prems" by (simp add: more_def)
        then show ?thesis using False room Cons Piece u by (subst recv.simps) (simp add: n_def Let_def more_def)
      qed
    next
      case Again
      then show ?thesis using 1 Cons room by (subst recv.simps) simp
    qed (use 1 Cons in simp_all)
  qed (use 1 in simp)
qed

text \<open>A buffer that is full without a zero ends the connection.\<close>

lemma recv_full:
  "in_flight as = Some s \<Longrightarrow> cap \<le> length buf + length s \<Longrightarrow> 0 \<notin> set (take (cap - length buf) s) \<Longrightarrow>
   \<exists>as'. recv cap buf as = Closing as'"
proof (induction cap buf as arbitrary: s rule: recv.induct)
  case (1 cap buf as)
  show ?case
  proof (cases "cap \<le> length buf")
    case False
    show ?thesis
    proof (cases as)
      case (Cons a as')
      show ?thesis
      proof (cases a)
        case (Piece d)
        define n where "n = cap - length buf"
        obtain t where t: "in_flight as' = Some t" "s = d @ t"
          using "1.prems"(1) Cons Piece by (auto split: option.splits)
        have z: "0 \<notin> set (take n d)" "0 \<notin> set (take (cap - length (buf @ take n d)) (drop n d @ t))"
          using "1.prems"(3) t(2) by (auto simp: n_def min_def not_le dest: in_set_takeD split: if_splits)
        have "\<exists>as''. recv cap (buf @ take n d) (more (drop n d) as') = Closing as''"
          using "1.IH"(1) [OF False Cons Piece n_def refl refl z(1) in_flight_more [OF t(1)] _ z(2)]
            "1.prems"(2) t(2) by (simp add: n_def min_def)
        then show ?thesis using z(1) False Cons Piece by (subst recv.simps) (simp add: n_def Let_def)
      next
        case Again
        then show ?thesis using 1 Cons False by (subst recv.simps) simp
      qed (use 1 Cons in simp_all)
    qed (use 1 False in simp)
  qed (simp add: recv.simps)
qed

lemma client_print_message:
  "in_flight as = Some (msg @ 0 # rest) \<Longrightarrow> 0 \<notin> set msg \<Longrightarrow> client_print out as = Some (out @ msg)"
proof (induction out as arbitrary: msg rule: client_print.induct)
  case (1 out d as)
  obtain s where s: "in_flight as = Some s" "d @ s = msg @ 0 # rest"
    using "1.prems"(1) by (auto split: option.splits)
  show ?case
  proof (cases "0 \<in> set d")
    case True
    have "takeWhile (\<lambda>b. b \<noteq> 0) d = takeWhile (\<lambda>b. b \<noteq> 0) (d @ s)" using True by (simp add: takeWhile_append1)
    also have "\<dots> = msg" using "1.prems"(2) unfolding s(2) by (subst takeWhile_append2) auto
    finally show ?thesis using True by simp
  next
    case False
    have "0 \<notin> set (take (Suc (length d + length msg)) d)" using False by (meson in_set_takeD)
    from message_split [OF s(2) this] obtain us where u: "msg = d @ us" "s = us @ 0 # rest" by auto
    then show ?thesis using "1.IH" [OF False, of us] s "1.prems"(2) False by simp
  qed
qed simp_all

text \<open>C17: a request of less than 8192 bytes is always received, however it is cut into pieces and delayed,
  and of what follows its zero at most a first part is lost; a longer one ends the connection.\<close>

theorem request_received:
  assumes "in_flight as = Some (req @ 0 # rest)" "0 \<notin> set req"
  shows "(length req < SOCKET_BUFFER_SIZE \<longrightarrow>
      (\<exists>as' k. recv SOCKET_BUFFER_SIZE [] as = Request req as' \<and> in_flight as' = Some (drop k rest))) \<and>
    (SOCKET_BUFFER_SIZE \<le> length req \<longrightarrow> (\<exists>as'. recv SOCKET_BUFFER_SIZE [] as = Closing as'))"
proof (intro conjI impI)
  assume "length req < SOCKET_BUFFER_SIZE"
  then show "\<exists>as' k. recv SOCKET_BUFFER_SIZE [] as = Request req as' \<and> in_flight as' = Some (drop k rest)"
    using recv_request [OF assms, of "[]"] by simp
next
  assume "SOCKET_BUFFER_SIZE \<le> length req"
  then show "\<exists>as'. recv SOCKET_BUFFER_SIZE [] as = Closing as'"
    using recv_full [OF assms(1), of SOCKET_BUFFER_SIZE "[]"] assms(2) by (auto dest: in_set_takeD)
qed

lemma request_received_witness:
  "\<exists>as' k. recv SOCKET_BUFFER_SIZE [] [Piece [65], Again, Piece [66, 0, 67], Piece [68]] = Request [65, 66] as' \<and>
     in_flight as' = Some (drop k [67, 68])"
  using request_received [of "[Piece [65], Again, Piece [66, 0, 67], Piece [68]]" "[65, 66]" "[67, 68]"]
  by (simp add: SOCKET_BUFFER_SIZE_def)

text \<open>C18: the client prints exactly the answer of a request, or \<^verbatim>\<open>No data\<close> for an empty one, once the
  bytes that the server sends for it have arrived, in whatever pieces.\<close>

theorem answer_arrives:
  assumes "in_flight as = Some (concat (answer response))" "0 \<notin> set response"
  shows "client_print [] as = Some (if response = [] then ascii ''No data'' @ [newline] else response)"
proof (cases "response = []")
  case True
  then have "in_flight as = Some ((ascii ''No data'' @ [newline]) @ 0 # [])"
    using assms(1) by (simp add: answer_def)
  moreover have "0 \<notin> set (ascii ''No data'' @ [newline])" by (simp add: ascii_def newline_def of_char_def)
  ultimately show ?thesis using client_print_message [of as "ascii ''No data'' @ [newline]" "[]" "[]"] True by simp
next
  case False
  then have "last response \<noteq> 0" using assms(2) by (metis last_in_set)
  then have "in_flight as = Some (response @ 0 # [])" using assms(1) False by (simp add: answer_def Let_def)
  from client_print_message [OF this assms(2)] False show ?thesis by simp
qed

lemma answer_arrives_witness: "client_print [] [Piece [79], Again, Piece [75, 0]] = Some [79, 75]"
  using answer_arrives [of "[Piece [79], Again, Piece [75, 0]]" "[79, 75]"] by (simp add: answer_def)

text \<open>What \<open>send\<close> puts on the wire is a prefix of the message, and all of it when the first write takes it.\<close>

lemma send_loop_prefix: "send_loop n out msg ws = (ok, sent) \<Longrightarrow> \<exists>k. sent = out @ take k msg"
proof (induction n out msg ws rule: send_loop.induct)
  case (2 i out msg written)
  show ?case
  proof (cases "msg = [] \<or> written = []")
    case False
    then obtain w ws where w: "written = w # ws" by (cases written) auto
    show ?thesis
    proof (cases "w < 0")
      case True
      then show ?thesis using 2(2) False w by (auto intro: exI [of _ 0])
    next
      case ge: False
      then obtain k where "sent = (out @ take (nat w) msg) @ take k (drop (nat w) msg)"
        using 2(1) [OF _ w ge] 2(2) False w by auto
      then show ?thesis by (auto intro!: exI [of _ "nat w + k"] simp: take_add)
    qed
  qed (use 2(2) in \<open>auto intro: exI [of _ 0] split: if_splits\<close>)
qed (auto intro: exI [of _ 0])

lemma send_prefix: "send msg ws = (ok, sent) \<Longrightarrow> \<exists>k. sent = take k msg"
  using send_loop_prefix [of 3 "[]" msg ws ok sent] by (auto simp: send_def split: if_splits)

lemma send_at_once: "int (length msg) \<le> w \<Longrightarrow> send msg (w # ws) = (True, msg)"
  by (auto simp: send_def numeral_3_eq_3)

end
