(* ===== verification/Seda_Pool.thy ===== *)
theory Seda_Pool
  imports Prelude "HOL-Library.Multiset"
begin

text \<open>
  \<^verbatim>\<open>src/deps/common/seda/stage.cpp\<close> and \<^verbatim>\<open>thread_pool.cpp\<close>: stages with their queues of events, and
  the pool whose threads take scheduled stages from the run queue.  The steps are the critical sections of the
  two classes; the threads interleave them in any order.  Stages and events are numbers.
\<close>

section \<open>\<^verbatim>\<open>Stage\<close>\<close>

record Stage =
  event_list :: "nat list"
  connected :: bool
  event_ref :: int
  has_pool :: bool
  next_stage_list :: "nat list"

definition Stage_new :: Stage where
  "Stage_new = \<lparr>event_list = [], connected = False, event_ref = 0, has_pool = False, next_stage_list = []\<rparr>"

definition set_pool :: "Stage \<Rightarrow> Stage result" where
  "set_pool st = (if connected st then Inl UB else Inr (st\<lparr>has_pool := True\<rparr>))"

definition push_stage :: "nat \<Rightarrow> Stage \<Rightarrow> Stage result" where
  "push_stage s st = (if connected st then Inl UB else Inr (st\<lparr>next_stage_list := next_stage_list st @ [s]\<rparr>))"

text \<open>\<open>initialized\<close>: what \<^verbatim>\<open>initialize\<close> of the stage returns.  The number is how often the stage is
  scheduled afterwards.\<close>

definition connect :: "bool \<Rightarrow> Stage \<Rightarrow> (bool \<times> nat \<times> Stage) result" where
  "connect initialized st =
     (if connected st \<or> \<not> has_pool st then Inl UB
      else if initialized then
        Inr (True, length (event_list st), st\<lparr>event_ref := int (length (event_list st)), connected := True\<rparr>)
      else Inr (False, 0, st))"

text \<open>\<^verbatim>\<open>disconnect\<close> up to its wait, and behind it.\<close>

definition disconnect_begin :: "Stage \<Rightarrow> Stage result" where
  "disconnect_begin st = (if connected st then Inr (st\<lparr>connected := False\<rparr>) else Inl UB)"

definition disconnect_end :: "Stage \<Rightarrow> Stage option" where
  "disconnect_end st = (if event_ref st > 0 then None else Some (st\<lparr>has_pool := False, next_stage_list := []\<rparr>))"

text \<open>The flag says whether the stage is scheduled afterwards.\<close>

definition add_event :: "nat \<Rightarrow> Stage \<Rightarrow> (bool \<times> Stage) result" where
  "add_event e st =
     (let st1 = st\<lparr>event_list := event_list st @ [e]\<rparr> in
      if connected st then
        if has_pool st then Inr (True, st1\<lparr>event_ref := event_ref st + 1\<rparr>) else Inl UB
      else Inr (False, st1))"

definition qlen :: "Stage \<Rightarrow> nat" where
  "qlen st = length (event_list st)"

definition qempty :: "Stage \<Rightarrow> bool" where
  "qempty st \<longleftrightarrow> event_list st = []"

definition remove_event :: "Stage \<Rightarrow> (nat \<times> Stage) result" where
  "remove_event st = (case event_list st of [] \<Rightarrow> Inl UB | e # es \<Rightarrow> Inr (e, st\<lparr>event_list := es\<rparr>))"

text \<open>The flag: the thread that waits in \<^verbatim>\<open>disconnect\<close> is woken.\<close>

definition release_event :: "Stage \<Rightarrow> bool \<times> Stage" where
  "release_event st =
     (let st1 = st\<lparr>event_ref := event_ref st - 1\<rparr> in (\<not> connected st1 \<and> event_ref st1 = 0, st1))"

section \<open>\<^verbatim>\<open>Threadpool\<close>\<close>

text \<open>Where a service thread is: before it looks at the run queue, in \<^verbatim>\<open>COND_WAIT\<close>, woken but not yet
  holding the lock, behind \<^verbatim>\<open>pop_front\<close> with a stage, handling an event of a stage.\<close>

datatype Thread = Looking | Waiting | Woken | Popped nat | Running nat nat

text \<open>A call of \<^verbatim>\<open>schedule\<close> that has not pushed its stage yet: the stage, the thread of the pool that
  calls it, if it is one, and whether its assertion has been passed.  \<open>added\<close> and \<open>taken\<close> only record the
  events that were put into, and taken from, a queue.\<close>

type_synonym call = "nat \<times> nat option \<times> bool"

record System =
  stages :: "nat \<Rightarrow> Stage"
  closing :: "nat set"
  run_queue :: "nat list"
  n_idles :: int
  threads :: "Thread list"
  pending :: "call multiset"
  added :: "nat \<Rightarrow> nat list"
  taken :: "nat \<Rightarrow> nat list"
  failed :: bool

definition set_stage :: "nat \<Rightarrow> Stage \<Rightarrow> System \<Rightarrow> System" where
  "set_stage s st y = y\<lparr>stages := (stages y)(s := st)\<rparr>"

definition fail :: "System \<Rightarrow> System" where
  "fail y = y\<lparr>failed := True\<rparr>"

text \<open>\<^verbatim>\<open>schedule\<close>: the assertion, and the critical section; the flag says that a thread is
  signalled.\<close>

definition schedule_check :: "call \<Rightarrow> System \<Rightarrow> System" where
  "schedule_check c y =
     (if qempty (stages y (fst c)) then fail y
      else y\<lparr>pending := add_mset (fst c, fst (snd c), True) (pending y - {#c#})\<rparr>)"

definition schedule_push :: "call \<Rightarrow> System \<Rightarrow> bool \<times> System" where
  "schedule_push c y =
     (let was_empty = (run_queue y = []) in
      ((\<not> was_empty \<or> fst (snd c) = None) \<and> n_idles y > 0,
       y\<lparr>run_queue := run_queue y @ [fst c], pending := pending y - {#c#}\<rparr>))"

text \<open>\<^verbatim>\<open>COND_SIGNAL\<close> wakes one of the waiting threads, if there is one.\<close>

definition signalled :: "bool \<Rightarrow> Thread list \<Rightarrow> Thread list \<Rightarrow> bool" where
  "signalled wake ts ts1 \<longleftrightarrow>
     (if wake \<and> Waiting \<in> set ts then \<exists>i < length ts. ts ! i = Waiting \<and> ts1 = ts[i := Woken] else ts1 = ts)"

text \<open>The steps of a service thread.\<close>

definition look :: "nat \<Rightarrow> System \<Rightarrow> System" where
  "look i y =
     (case run_queue y of
        [] \<Rightarrow> y\<lparr>n_idles := n_idles y + 1, threads := (threads y)[i := Waiting]\<rparr>
      | s # q \<Rightarrow> y\<lparr>run_queue := q, threads := (threads y)[i := Popped s]\<rparr>)"

definition awake :: "nat \<Rightarrow> System \<Rightarrow> System" where
  "awake i y = y\<lparr>n_idles := n_idles y - 1, threads := (threads y)[i := Looking]\<rparr>"

definition take_event :: "nat \<Rightarrow> nat \<Rightarrow> System \<Rightarrow> System" where
  "take_event i s y =
     (case remove_event (stages y s) of
        Inl c \<Rightarrow> fail y
      | Inr (e, st) \<Rightarrow>
          (set_stage s st y)\<lparr>threads := (threads y)[i := Running s e], taken := (taken y)(s := taken y s @ [e])\<rparr>)"

definition finish_event :: "nat \<Rightarrow> nat \<Rightarrow> System \<Rightarrow> System" where
  "finish_event i s y = (set_stage s (snd (release_event (stages y s))) y)\<lparr>threads := (threads y)[i := Looking]\<rparr>"

text \<open>Who may call \<^verbatim>\<open>add_event\<close>: a thread of another pool, or one that handles an event and is in no
  other call.\<close>

definition running :: "nat \<Rightarrow> System \<Rightarrow> bool" where
  "running i y \<longleftrightarrow> i < length (threads y) \<and> (case threads y ! i of Running _ _ \<Rightarrow> True | _ \<Rightarrow> False)"

definition calling :: "nat \<Rightarrow> System \<Rightarrow> bool" where
  "calling i y \<longleftrightarrow> (\<exists>c \<in># pending y. fst (snd c) = Some i)"

definition caller_ok :: "nat option \<Rightarrow> System \<Rightarrow> bool" where
  "caller_ok c y \<longleftrightarrow> (case c of None \<Rightarrow> True | Some i \<Rightarrow> running i y \<and> \<not> calling i y)"

definition add_call :: "nat \<Rightarrow> nat \<Rightarrow> nat option \<Rightarrow> System \<Rightarrow> System" where
  "add_call s e c y =
     (case add_event e (stages y s) of
        Inl _ \<Rightarrow> fail y
      | Inr (b, st) \<Rightarrow>
          (set_stage s st y)\<lparr>pending := (if b then add_mset (s, c, False) (pending y) else pending y),
             added := (added y)(s := added y s @ [e])\<rparr>)"

definition connect_call :: "bool \<Rightarrow> nat \<Rightarrow> System \<Rightarrow> System" where
  "connect_call ok s y =
     (case connect ok (stages y s) of
        Inl _ \<Rightarrow> fail y
      | Inr (_, n, st) \<Rightarrow> (set_stage s st y)\<lparr>pending := pending y + replicate_mset n (s, None, False)\<rparr>)"

section \<open>The steps\<close>

text \<open>Work: the steps of the pool itself.\<close>

inductive work :: "System \<Rightarrow> System \<Rightarrow> bool" where
  check: "(s, c, False) \<in># pending y \<Longrightarrow> work y (schedule_check (s, c, False) y)"
| push: "(s, c, True) \<in># pending y \<Longrightarrow> schedule_push (s, c, True) y = (b, z) \<Longrightarrow> signalled b (threads z) ts \<Longrightarrow>
    work y (z\<lparr>threads := ts\<rparr>)"
| look: "i < length (threads y) \<Longrightarrow> threads y ! i = Looking \<Longrightarrow> work y (look i y)"
| awake: "i < length (threads y) \<Longrightarrow> threads y ! i = Woken \<Longrightarrow> work y (awake i y)"
| take: "i < length (threads y) \<Longrightarrow> threads y ! i = Popped s \<Longrightarrow> work y (take_event i s y)"
| finish: "i < length (threads y) \<Longrightarrow> threads y ! i = Running s e \<Longrightarrow> \<not> calling i y \<Longrightarrow> work y (finish_event i s y)"

text \<open>All steps.  One thread at a time connects and disconnects a stage; a wait may end without a signal.\<close>

inductive step :: "System \<Rightarrow> System \<Rightarrow> bool" where
  work: "work y z \<Longrightarrow> step y z"
| add: "caller_ok c y \<Longrightarrow> step y (add_call s e c y)"
| spurious: "i < length (threads y) \<Longrightarrow> threads y ! i = Waiting \<Longrightarrow> step y (awake i y)"
| add_threads: "step y (y\<lparr>threads := threads y @ replicate n Looking\<rparr>)"
| set_pool: "s \<notin> closing y \<Longrightarrow> set_pool (stages y s) = Inr st \<Longrightarrow> step y (set_stage s st y)"
| push_stage: "s \<notin> closing y \<Longrightarrow> push_stage n (stages y s) = Inr st \<Longrightarrow> step y (set_stage s st y)"
| connect: "s \<notin> closing y \<Longrightarrow> has_pool (stages y s) \<Longrightarrow> \<not> connected (stages y s) \<Longrightarrow> step y (connect_call ok s y)"
| disconnect: "disconnect_begin (stages y s) = Inr st \<Longrightarrow>
    step y ((set_stage s st y)\<lparr>closing := insert s (closing y)\<rparr>)"
| disconnected: "s \<in> closing y \<Longrightarrow> disconnect_end (stages y s) = Some st \<Longrightarrow>
    step y ((set_stage s st y)\<lparr>closing := closing y - {s}\<rparr>)"

definition initial :: "nat \<Rightarrow> System" where
  "initial n = \<lparr>stages = (\<lambda>_. Stage_new), closing = {}, run_queue = [], n_idles = 0, threads = replicate n Looking,
     pending = {#}, added = (\<lambda>_. []), taken = (\<lambda>_. []), failed = False\<rparr>"

inductive reachable :: "nat \<Rightarrow> System \<Rightarrow> bool" for n where
  start: "reachable n (initial n)"
| next_step: "reachable n y \<Longrightarrow> step y z \<Longrightarrow> reachable n z"

section \<open>The invariant\<close>

text \<open>A token of a stage is a promise that a thread will take an event from its queue.\<close>

definition tokens :: "nat \<Rightarrow> System \<Rightarrow> nat" where
  "tokens s y = count_list (run_queue y) s + size (filter_mset (\<lambda>c. fst c = s) (pending y)) +
     count_list (threads y) (Popped s)"

definition runs :: "nat \<Rightarrow> Thread \<Rightarrow> bool" where
  "runs s t \<longleftrightarrow> (case t of Running s' _ \<Rightarrow> s' = s | _ \<Rightarrow> False)"

definition active :: "nat \<Rightarrow> System \<Rightarrow> nat" where
  "active s y = length (filter (runs s) (threads y))"

definition asleep :: "Thread \<Rightarrow> bool" where
  "asleep t \<longleftrightarrow> t = Waiting \<or> t = Woken"

definition stage_ok :: "nat \<Rightarrow> System \<Rightarrow> bool" where
  "stage_ok s y \<longleftrightarrow>
     (let st = stages y s in
      tokens s y \<le> length (event_list st) \<and>
      (connected st \<longrightarrow> tokens s y = length (event_list st) \<and> has_pool st \<and> s \<notin> closing y) \<and>
      (if connected st \<or> s \<in> closing y then event_ref st = int (tokens s y + active s y)
       else tokens s y = 0 \<and> active s y = 0) \<and>
      added y s = taken y s @ event_list st)"

definition pool_ok :: "System \<Rightarrow> bool" where
  "pool_ok y \<longleftrightarrow>
     \<not> failed y \<and> (\<forall>s. stage_ok s y) \<and>
     n_idles y = int (length (filter asleep (threads y))) \<and>
     (run_queue y \<noteq> [] \<and> threads y \<noteq> [] \<longrightarrow> (\<exists>t \<in> set (threads y). t \<noteq> Waiting)) \<and>
     (\<forall>s i b. (s, Some i, b) \<in># pending y \<longrightarrow> running i y)"

lemma filter_update:
  assumes "i < length xs"
  shows "int (length (filter P (xs[i := x]))) = int (length (filter P xs)) - (if P (xs ! i) then 1 else 0) + (if P x then 1 else 0)"
proof -
  have "length (filter P xs) = length (filter P (take i xs @ xs ! i # drop (Suc i) xs))"
    using id_take_nth_drop [OF assms] by simp
  moreover have "length (filter P (xs[i := x])) = length (filter P (take i xs @ x # drop (Suc i) xs))"
    using upd_conv_take_nth_drop [OF assms] by simp
  ultimately show ?thesis by simp
qed

lemma count_list_filter: "count_list xs a = length (filter ((=) a) xs)"
  by (induction xs) auto

lemma count_update:
  "i < length xs \<Longrightarrow>
   int (count_list (xs[i := x]) a) = int (count_list xs a) - (if xs ! i = a then 1 else 0) + (if x = a then 1 else 0)"
  unfolding count_list_filter using filter_update [of i xs "(=) a" x] by (auto split: if_splits)

lemma runs_simps [simp]:
  "runs s (Running s' e) \<longleftrightarrow> s' = s" "\<not> runs s Looking" "\<not> runs s Waiting" "\<not> runs s Woken" "\<not> runs s (Popped s')"
  by (simp_all add: runs_def)

lemma asleep_simps [simp]:
  "\<not> asleep (Running s e)" "\<not> asleep Looking" "asleep Waiting" "asleep Woken" "\<not> asleep (Popped s)"
  by (simp_all add: asleep_def)

text \<open>One thread moves.\<close>

lemma thread_count:
  assumes "i < length (threads y)" "threads z = (threads y)[i := t]"
  shows "int (count_list (threads z) (Popped s)) =
      int (count_list (threads y) (Popped s)) - (if threads y ! i = Popped s then 1 else 0) + (if t = Popped s then 1 else 0)"
    and "int (active s z) = int (active s y) - (if runs s (threads y ! i) then 1 else 0) + (if runs s t then 1 else 0)"
    and "int (length (filter asleep (threads z))) =
      int (length (filter asleep (threads y))) - (if asleep (threads y ! i) then 1 else 0) + (if asleep t then 1 else 0)"
  unfolding active_def assms(2) by (rule count_update [OF assms(1)] filter_update [OF assms(1)])+

lemma running_update:
  assumes "i < length (threads y)" "threads z = (threads y)[i := t]" "\<forall>s e. threads y ! i \<noteq> Running s e"
  shows "running j y \<Longrightarrow> running j z"
  using assms by (cases "i = j") (auto simp: running_def split: Thread.splits)

lemma pool_okD:
  assumes "pool_ok y"
  shows "\<not> failed y" "stage_ok s y" "n_idles y = int (length (filter asleep (threads y)))"
    "run_queue y \<noteq> [] \<Longrightarrow> threads y \<noteq> [] \<Longrightarrow> \<exists>t \<in> set (threads y). t \<noteq> Waiting"
    "(s, Some i, b) \<in># pending y \<Longrightarrow> running i y"
  using assms unfolding pool_ok_def by blast+

lemma running_other [simp]:
  "running i (y\<lparr>pending := p\<rparr>) = running i y" "running i (y\<lparr>stages := st\<rparr>) = running i y"
  "running i (y\<lparr>run_queue := q\<rparr>) = running i y" "running i (y\<lparr>added := l\<rparr>) = running i y"
  "running i (y\<lparr>closing := c\<rparr>) = running i y"
  by (simp_all add: running_def)

lemma set_update_other: "i < length xs \<Longrightarrow> x \<in> set (xs[i := x])"
  by (metis length_list_update nth_list_update_eq nth_mem)

lemma look_ok:
  assumes "pool_ok y" "i < length (threads y)" "threads y ! i = Looking"
  shows "pool_ok (look i y)"
proof (cases "run_queue y")
  case Nil
  then have z: "look i y = y\<lparr>n_idles := n_idles y + 1, threads := (threads y)[i := Waiting]\<rparr>" by (simp add: look_def)
  have t: "threads (look i y) = (threads y)[i := Waiting]" by (simp add: z)
  note c = thread_count [OF assms(2) t]
  have "tokens s (look i y) = tokens s y" "active s (look i y) = active s y" for s
    using c(1,2) [of s] assms(3) by (simp_all add: z tokens_def)
  then have "stage_ok s (look i y)" for s using pool_okD(2) [OF assms(1), of s] by (simp add: stage_ok_def Let_def z)
  moreover have "running j (look i y)" if "running j y" for j
    by (rule running_update [OF assms(2) _ _ that, of "look i y" Waiting]) (simp_all add: z assms(3))
  ultimately show ?thesis
    using assms(3) pool_okD [OF assms(1)] c(3) unfolding pool_ok_def by (auto simp: z Nil)
next
  case (Cons s0 q)
  then have z: "look i y = y\<lparr>run_queue := q, threads := (threads y)[i := Popped s0]\<rparr>" by (simp add: look_def)
  have t: "threads (look i y) = (threads y)[i := Popped s0]" by (simp add: z)
  note c = thread_count [OF assms(2) t]
  have "tokens s (look i y) = tokens s y" "active s (look i y) = active s y" for s
    using c(1,2) [of s] assms(3) Cons by (auto simp: z tokens_def split: if_splits)
  then have "stage_ok s (look i y)" for s using pool_okD(2) [OF assms(1), of s] by (simp add: stage_ok_def Let_def z)
  moreover have "running j (look i y)" if "running j y" for j
    by (rule running_update [OF assms(2) _ _ that, of "look i y" "Popped s0"]) (simp_all add: z assms(3))
  moreover have "Popped s0 \<in> set ((threads y)[i := Popped s0])" using assms(2) by (rule set_update_other)
  ultimately show ?thesis
    using assms(3) pool_okD [OF assms(1)] c(3) unfolding pool_ok_def by (auto simp: z)
qed

lemma awake_ok:
  assumes "pool_ok y" "i < length (threads y)" "asleep (threads y ! i)"
  shows "pool_ok (awake i y)"
proof -
  have t: "threads (awake i y) = (threads y)[i := Looking]" by (simp add: awake_def)
  note c = thread_count [OF assms(2) t]
  have n: "threads y ! i \<noteq> Popped s" "\<not> runs s (threads y ! i)" for s using assms(3) by (auto simp: asleep_def)
  have "tokens s (awake i y) = tokens s y" "active s (awake i y) = active s y" for s
    using c(1,2) [of s] n [of s] by (simp_all add: awake_def tokens_def)
  then have "stage_ok s (awake i y)" for s using pool_okD(2) [OF assms(1), of s] by (simp add: stage_ok_def Let_def awake_def)
  moreover have "running j (awake i y)" if "running j y" for j
    by (rule running_update [OF assms(2) t _ that]) (use assms(3) in \<open>auto simp: asleep_def\<close>)
  moreover have "Looking \<in> set ((threads y)[i := Looking])" using assms(2) by (rule set_update_other)
  ultimately show ?thesis
    using assms(3) pool_okD [OF assms(1)] c(3) unfolding pool_ok_def by (auto simp: awake_def)
qed

lemma take_ok:
  assumes "pool_ok y" "i < length (threads y)" "threads y ! i = Popped s0"
  shows "pool_ok (take_event i s0 y)"
proof -
  have "Popped s0 \<in> set (threads y)" using assms(2,3) by (metis nth_mem)
  then have "count_list (threads y) (Popped s0) \<noteq> 0" by (simp add: count_list_0_iff)
  then have "event_list (stages y s0) \<noteq> []" using pool_okD(2) [OF assms(1), of s0] by (auto simp: stage_ok_def Let_def tokens_def)
  then obtain e es where e: "event_list (stages y s0) = e # es" by (cases "event_list (stages y s0)") auto
  then have z: "take_event i s0 y = y\<lparr>stages := (stages y)(s0 := (stages y s0)\<lparr>event_list := es\<rparr>),
      threads := (threads y)[i := Running s0 e], taken := (taken y)(s0 := taken y s0 @ [e])\<rparr>"
    by (simp add: take_event_def remove_event_def set_stage_def)
  have t: "threads (take_event i s0 y) = (threads y)[i := Running s0 e]" by (simp add: z)
  note c = thread_count [OF assms(2) t]
  define Z where "Z = take_event i s0 y"
  have f: "stages Z = (stages y)(s0 := (stages y s0)\<lparr>event_list := es\<rparr>)" "closing Z = closing y" "added Z = added y"
    "taken Z = (taken y)(s0 := taken y s0 @ [e])"
    by (simp_all add: Z_def z)
  have a: "int (tokens s Z) = int (tokens s y) - (if s = s0 then 1 else 0)"
    "int (active s Z) = int (active s y) + (if s = s0 then 1 else 0)" for s
    using c(1,2) [of s] assms(3) by (auto simp: Z_def z tokens_def split: if_splits)
  have "stage_ok s (take_event i s0 y)" for s
    unfolding Z_def [symmetric] using pool_okD(2) [OF assms(1), of s] a [of s] e
    by (cases "s = s0") (auto simp: stage_ok_def Let_def f split: if_splits)
  moreover have "running j (take_event i s0 y)" if "running j y" for j
    by (rule running_update [OF assms(2) t _ that]) (simp add: assms(3))
  moreover have "Running s0 e \<in> set ((threads y)[i := Running s0 e])" using assms(2) by (rule set_update_other)
  ultimately show ?thesis
    using assms(3) pool_okD [OF assms(1)] c(3) unfolding pool_ok_def by (auto simp: z)
qed

lemma finish_ok:
  assumes "pool_ok y" "i < length (threads y)" "threads y ! i = Running s0 e" "\<not> calling i y"
  shows "pool_ok (finish_event i s0 y)"
proof -
  have z: "finish_event i s0 y = y\<lparr>stages := (stages y)(s0 := (stages y s0)\<lparr>event_ref := event_ref (stages y s0) - 1\<rparr>),
      threads := (threads y)[i := Looking]\<rparr>"
    by (simp add: finish_event_def release_event_def set_stage_def Let_def)
  have t: "threads (finish_event i s0 y) = (threads y)[i := Looking]" by (simp add: z)
  note c = thread_count [OF assms(2) t]
  define Z where "Z = finish_event i s0 y"
  have f: "stages Z = (stages y)(s0 := (stages y s0)\<lparr>event_ref := event_ref (stages y s0) - 1\<rparr>)" "closing Z = closing y"
    "added Z = added y" "taken Z = taken y"
    by (simp_all add: Z_def z)
  have a: "tokens s Z = tokens s y" "int (active s Z) = int (active s y) - (if s = s0 then 1 else 0)" for s
    using c(1,2) [of s] assms(3) by (auto simp: Z_def z tokens_def split: if_splits)
  have "stage_ok s (finish_event i s0 y)" for s
    unfolding Z_def [symmetric] using pool_okD(2) [OF assms(1), of s] a [of s]
    by (cases "s = s0") (auto simp: stage_ok_def Let_def f split: if_splits)
  moreover have "running k (finish_event i s0 y)" if "(s, Some k, f) \<in># pending y" for s k f
  proof -
    have "k \<noteq> i" using assms(4) that by (force simp: calling_def)
    moreover have "running k y" using pool_okD(5) [OF assms(1) that] by simp
    ultimately show ?thesis by (simp add: running_def z)
  qed
  moreover have "Looking \<in> set ((threads y)[i := Looking])" using assms(2) by (rule set_update_other)
  ultimately show ?thesis
    using assms(3) pool_okD [OF assms(1)] c(3) unfolding pool_ok_def by (auto simp: z)
qed

lemma check_ok:
  assumes "pool_ok y" "(s0, c, False) \<in># pending y"
  shows "pool_ok (schedule_check (s0, c, False) y)"
proof -
  have "size {#p \<in># pending y. fst p = s0#} \<noteq> 0" using assms(2) by auto
  then have "tokens s0 y \<noteq> 0" by (simp add: tokens_def)
  then have "event_list (stages y s0) \<noteq> []" using pool_okD(2) [OF assms(1), of s0] by (auto simp: stage_ok_def Let_def)
  then have z: "schedule_check (s0, c, False) y = y\<lparr>pending := add_mset (s0, c, True) (pending y - {#(s0, c, False)#})\<rparr>"
    by (simp add: schedule_check_def qempty_def)
  obtain P where P: "pending y = add_mset (s0, c, False) P" using assms(2) by (metis insert_DiffM)
  have "tokens s (schedule_check (s0, c, False) y) = tokens s y" "active s (schedule_check (s0, c, False) y) = active s y" for s
    by (simp_all add: z P tokens_def active_def)
  then have st: "stage_ok s (schedule_check (s0, c, False) y)" for s using pool_okD(2) [OF assms(1), of s] by (simp add: stage_ok_def Let_def z)
  have calls: "\<forall>i. c = Some i \<longrightarrow> running i y" "\<forall>s i b. (s, Some i, b) \<in># P \<longrightarrow> running i y"
    using pool_okD(5) [OF assms(1)] assms(2) P by auto
  then show ?thesis using pool_okD(1,3,4) [OF assms(1)] st unfolding pool_ok_def by (auto simp: z P)
qed

lemma signalled_counts:
  assumes "signalled b ts us"
  shows "length us = length ts" "count_list us (Popped s) = count_list ts (Popped s)"
    "length (filter (runs s) us) = length (filter (runs s) ts)" "length (filter asleep us) = length (filter asleep ts)"
    "t \<in> set ts \<Longrightarrow> t \<noteq> Waiting \<Longrightarrow> t \<in> set us" "ts ! j \<noteq> Waiting \<Longrightarrow> us ! j = ts ! j"
    "b \<Longrightarrow> Waiting \<in> set ts \<Longrightarrow> Woken \<in> set us"
proof -
  consider "us = ts" "\<not> (b \<and> Waiting \<in> set ts)" | i where "i < length ts" "ts ! i = Waiting" "us = ts[i := Woken]"
    using assms by (auto simp: signalled_def split: if_splits)
  then have "length us = length ts \<and> count_list us (Popped s) = count_list ts (Popped s) \<and>
    length (filter (runs s) us) = length (filter (runs s) ts) \<and> length (filter asleep us) = length (filter asleep ts) \<and>
    (t \<in> set ts \<longrightarrow> t \<noteq> Waiting \<longrightarrow> t \<in> set us) \<and> (ts ! j \<noteq> Waiting \<longrightarrow> us ! j = ts ! j) \<and>
    (b \<longrightarrow> Waiting \<in> set ts \<longrightarrow> Woken \<in> set us)"
  proof cases
    case (2 i)
    have "t \<in> set us" if "t \<in> set ts" "t \<noteq> Waiting"
    proof -
      obtain k where "k < length ts" "ts ! k = t" using \<open>t \<in> set ts\<close> by (auto simp: in_set_conv_nth)
      then have "k < length us" "us ! k = t" using 2 that(2) by (auto simp: nth_list_update)
      then show ?thesis by (metis nth_mem)
    qed
    moreover have "Woken \<in> set us" using 2(1) unfolding 2(3) by (rule set_update_other)
    ultimately show ?thesis
      using count_update [OF 2(1), of Woken "Popped s"] filter_update [OF 2(1), of "runs s" Woken]
        filter_update [OF 2(1), of asleep Woken] 2 by (auto simp: nth_list_update)
  qed auto
  then show "length us = length ts" "count_list us (Popped s) = count_list ts (Popped s)"
    "length (filter (runs s) us) = length (filter (runs s) ts)" "length (filter asleep us) = length (filter asleep ts)"
    "t \<in> set ts \<Longrightarrow> t \<noteq> Waiting \<Longrightarrow> t \<in> set us" "ts ! j \<noteq> Waiting \<Longrightarrow> us ! j = ts ! j"
    "b \<Longrightarrow> Waiting \<in> set ts \<Longrightarrow> Woken \<in> set us" by blast+
qed

lemma push_ok:
  assumes "pool_ok y" "(s0, c, True) \<in># pending y" "schedule_push (s0, c, True) y = (b, z)" "signalled b (threads z) ts"
  shows "pool_ok (z\<lparr>threads := ts\<rparr>)"
proof -
  obtain P where P: "pending y = add_mset (s0, c, True) P" using assms(2) by (metis insert_DiffM)
  have b: "b \<longleftrightarrow> (run_queue y \<noteq> [] \<or> c = None) \<and> n_idles y > 0" and z: "z = y\<lparr>run_queue := run_queue y @ [s0], pending := P\<rparr>"
    using assms(3) by (auto simp: schedule_push_def Let_def P)
  have sg: "signalled b (threads y) ts" using assms(4) z by simp
  note S = signalled_counts [OF sg]
  have "tokens s (z\<lparr>threads := ts\<rparr>) = tokens s y" "active s (z\<lparr>threads := ts\<rparr>) = active s y" for s
    by (simp_all add: z P tokens_def active_def S)
  then have st: "stage_ok s (z\<lparr>threads := ts\<rparr>)" for s using pool_okD(2) [OF assms(1), of s] by (simp add: stage_ok_def Let_def z)
  have r: "running j (z\<lparr>threads := ts\<rparr>)" if "running j y" for j
    using that S(1,6) by (auto simp: running_def split: Thread.splits)
  have aw: "ts \<noteq> [] \<longrightarrow> (\<exists>t \<in> set ts. t \<noteq> Waiting)"
  proof
    assume ne: "ts \<noteq> []"
    show "\<exists>t \<in> set ts. t \<noteq> Waiting"
  proof (cases "\<exists>t \<in> set (threads y). t \<noteq> Waiting")
    case True
    then show ?thesis using S(5) by blast
  next
    case False
    then have all: "\<forall>t \<in> set (threads y). t = Waiting" by blast
    have ne: "threads y \<noteq> []" using S(1) ne by auto
    then have w: "Waiting \<in> set (threads y)" using all by (metis list.set_intros(1) neq_Nil_conv)
    have "run_queue y = []" using pool_okD(4) [OF assms(1)] False ne by blast
    have "c = None"
    proof (cases c)
      case (Some i)
      then have "running i y" using pool_okD(5) [OF assms(1)] assms(2) by blast
      then have "threads y ! i \<in> set (threads y)" "threads y ! i \<noteq> Waiting" by (auto simp: running_def)
      then show ?thesis using all by blast
    qed simp
    moreover have "Waiting \<in> set (filter asleep (threads y))" using w by simp
    then have "0 < length (filter asleep (threads y))" by (rule length_pos_if_in_set)
    then have "n_idles y > 0" using pool_okD(3) [OF assms(1)] by simp
    ultimately have b by (simp add: b)
    then show ?thesis using S(7) w by blast
    qed
  qed
  have calls: "\<forall>i. c = Some i \<longrightarrow> running i y" "\<forall>s i b. (s, Some i, b) \<in># P \<longrightarrow> running i y"
    using pool_okD(5) [OF assms(1)] assms(2) P by auto
  show ?thesis using pool_okD(1,3) [OF assms(1)] S(4) st r calls aw unfolding pool_ok_def by (auto simp: z)
qed

text \<open>The steps around the pool.\<close>

lemma add_ok:
  assumes "pool_ok y" "caller_ok c y"
  shows "pool_ok (add_call s0 e c y)"
proof -
  let ?st = "stages y s0"
  have hp: "connected ?st \<longrightarrow> has_pool ?st" using pool_okD(2) [OF assms(1), of s0] by (simp add: stage_ok_def Let_def)
  define st1 where "st1 = ?st\<lparr>event_list := event_list ?st @ [e], event_ref := event_ref ?st + (if connected ?st then 1 else 0)\<rparr>"
  have z: "add_call s0 e c y = y\<lparr>stages := (stages y)(s0 := st1),
      pending := (if connected ?st then add_mset (s0, c, False) (pending y) else pending y),
      added := (added y)(s0 := added y s0 @ [e])\<rparr>"
    using hp by (simp add: add_call_def add_event_def set_stage_def st1_def Let_def)
  define Z where "Z = add_call s0 e c y"
  have f: "stages Z = (stages y)(s0 := st1)" "closing Z = closing y" "added Z = (added y)(s0 := added y s0 @ [e])" "taken Z = taken y"
    by (simp_all add: Z_def z)
  have "tokens s Z = tokens s y + (if s = s0 \<and> connected ?st then 1 else 0)" "active s Z = active s y" for s
    by (simp_all add: Z_def z tokens_def active_def)
  then have "stage_ok s Z" for s
    using pool_okD(2) [OF assms(1), of s] by (cases "s = s0") (auto simp: stage_ok_def Let_def f st1_def split: if_splits)
  moreover have "\<forall>s i b. (s, Some i, b) \<in># pending y \<longrightarrow> running i y" "\<forall>i. c = Some i \<longrightarrow> running i y"
    using pool_okD(5) [OF assms(1)] assms(2) by (auto simp: caller_ok_def)
  ultimately have "pool_ok Z" using pool_okD(1,3,4) [OF assms(1)] unfolding pool_ok_def by (auto simp: z Z_def)
  then show ?thesis by (simp add: Z_def)
qed

lemma connect_ok:
  assumes "pool_ok y" "s0 \<notin> closing y" "has_pool (stages y s0)" "\<not> connected (stages y s0)"
  shows "pool_ok (connect_call ok s0 y)"
proof (cases ok)
  case True
  let ?st = "stages y s0"
  let ?n = "length (event_list ?st)"
  have z: "connect_call ok s0 y = y\<lparr>stages := (stages y)(s0 := ?st\<lparr>event_ref := int ?n, connected := True\<rparr>),
      pending := pending y + replicate_mset ?n (s0, None, False)\<rparr>"
    using True assms(3,4) by (simp add: connect_call_def connect_def set_stage_def)
  have "size (filter_mset (\<lambda>c. fst c = s) (replicate_mset n (s0, None :: nat option, False))) = (if s = s0 then n else 0)" for s n
    by (induction n) auto
  then have "tokens s (connect_call ok s0 y) = tokens s y + (if s = s0 then ?n else 0)"
    "active s (connect_call ok s0 y) = active s y" for s
    by (simp_all add: z tokens_def active_def)
  then have "stage_ok s (connect_call ok s0 y)" for s
    using pool_okD(2) [OF assms(1), of s] pool_okD(2) [OF assms(1), of s0] assms(2-4)
    by (cases "s = s0") (simp_all add: stage_ok_def Let_def z split: if_splits)
  moreover have "\<forall>s i b. (s, Some i, b) \<in># pending y \<longrightarrow> running i y" using pool_okD(5) [OF assms(1)] by blast
  ultimately show ?thesis using pool_okD(1,3,4) [OF assms(1)] unfolding pool_ok_def by (auto simp: z)
next
  case False
  then have "connect_call ok s0 y = y" using assms(3,4) by (simp add: connect_call_def connect_def set_stage_def)
  then show ?thesis using assms(1) by simp
qed

lemma stages_ok:
  assumes "pool_ok y" "\<And>s. stage_ok s z"
    and "failed z = failed y" "n_idles z = n_idles y" "threads z = threads y" "run_queue z = run_queue y" "pending z = pending y"
  shows "pool_ok z"
proof -
  have "running i z = running i y" for i using assms(5) by (simp add: running_def)
  then show ?thesis using assms unfolding pool_ok_def by simp
qed

lemma tokens_same:
  "run_queue z = run_queue y \<Longrightarrow> pending z = pending y \<Longrightarrow> threads z = threads y \<Longrightarrow> tokens s z = tokens s y \<and> active s z = active s y"
  by (simp add: tokens_def active_def)

lemma step_ok:
  assumes "step y z" "pool_ok y"
  shows "pool_ok z"
  using assms
proof (cases rule: step.cases)
  case work
  then show ?thesis using assms(2)
    by (cases rule: work.cases) (auto intro: check_ok push_ok look_ok awake_ok take_ok finish_ok)
next
  case (add c s e)
  then show ?thesis using add_ok [OF assms(2)] by simp
next
  case (spurious i)
  then show ?thesis using awake_ok [OF assms(2)] by simp
next
  case (add_threads n)
  have "count_list (replicate n Looking) (Popped s) = 0" "filter (runs s) (replicate n Looking) = []"
    "filter asleep (replicate n Looking) = []" for s by (simp_all add: count_list_0_iff)
  then have "tokens s z = tokens s y" "active s z = active s y" "filter asleep (threads z) = filter asleep (threads y)" for s
    by (simp_all add: add_threads tokens_def active_def)
  then have "stage_ok s z" for s using pool_okD(2) [OF assms(2), of s] by (simp add: stage_ok_def Let_def add_threads)
  moreover have "running i z" if "running i y" for i using that by (simp add: running_def add_threads nth_append)
  moreover have "\<exists>t \<in> set (threads z). t \<noteq> Waiting" if "run_queue z \<noteq> []" "threads z \<noteq> []"
    using that pool_okD(4) [OF assms(2)] by (cases "threads y = []") (auto simp: add_threads)
  ultimately show ?thesis
    using pool_okD [OF assms(2)] \<open>filter asleep (threads z) = filter asleep (threads y)\<close> unfolding pool_ok_def
    by (auto simp: add_threads)
next
  case (set_pool s0 st)
  then have st: "st = (stages y s0)\<lparr>has_pool := True\<rparr>" by (auto simp: set_pool_def split: if_splits)
  have "tokens s z = tokens s y \<and> active s z = active s y" for s by (rule tokens_same) (simp_all add: set_pool set_stage_def)
  then have "stage_ok s z" for s
    using pool_okD(2) [OF assms(2), of s] by (cases "s = s0") (auto simp: stage_ok_def Let_def set_pool set_stage_def st)
  then show ?thesis by (rule stages_ok [OF assms(2)]) (simp_all add: set_pool set_stage_def)
next
  case (push_stage s0 n st)
  then have st: "st = (stages y s0)\<lparr>next_stage_list := next_stage_list (stages y s0) @ [n]\<rparr>"
    by (auto simp: push_stage_def split: if_splits)
  have "tokens s z = tokens s y \<and> active s z = active s y" for s by (rule tokens_same) (simp_all add: push_stage set_stage_def)
  then have "stage_ok s z" for s
    using pool_okD(2) [OF assms(2), of s] by (cases "s = s0") (auto simp: stage_ok_def Let_def push_stage set_stage_def st)
  then show ?thesis by (rule stages_ok [OF assms(2)]) (simp_all add: push_stage set_stage_def)
next
  case (connect s0 ok)
  then show ?thesis using connect_ok [OF assms(2)] by simp
next
  case (disconnect s0 st)
  then have st: "st = (stages y s0)\<lparr>connected := False\<rparr>" "connected (stages y s0)" by (auto simp: disconnect_begin_def split: if_splits)
  have "tokens s z = tokens s y \<and> active s z = active s y" for s by (rule tokens_same) (simp_all add: disconnect set_stage_def)
  then have "stage_ok s z" for s
    using pool_okD(2) [OF assms(2), of s] st(2) by (cases "s = s0") (auto simp: stage_ok_def Let_def disconnect set_stage_def st(1))
  then show ?thesis by (rule stages_ok [OF assms(2)]) (simp_all add: disconnect set_stage_def)
next
  case (disconnected s0 st)
  then have st: "st = (stages y s0)\<lparr>has_pool := False, next_stage_list := []\<rparr>" "event_ref (stages y s0) \<le> 0"
    by (auto simp: disconnect_end_def split: if_splits)
  have "tokens s z = tokens s y \<and> active s z = active s y" for s by (rule tokens_same) (simp_all add: disconnected set_stage_def)
  then have "stage_ok s z" for s
    using pool_okD(2) [OF assms(2), of s] st(2) disconnected(2)
    by (cases "s = s0") (auto simp: stage_ok_def Let_def disconnected(1) set_stage_def st(1) split: if_splits)
  then show ?thesis by (rule stages_ok [OF assms(2)]) (simp_all add: disconnected set_stage_def)
qed

lemma initial_ok: "pool_ok (initial n)"
  by (simp add: pool_ok_def initial_def stage_ok_def Let_def Stage_new_def tokens_def active_def count_list_0_iff filter_empty_conv)

lemma reachable_ok: "reachable n y \<Longrightarrow> pool_ok y"
  by (induction rule: reachable.induct) (auto intro: initial_ok step_ok)

end
