(* ===== verification/Seda_Spec.thy ===== *)
theory Seda_Spec
  imports Seda_Pool
begin

text \<open>
  What the pool guarantees however its threads interleave: no assertion fails, events leave a queue in the
  order in which they came, a stage is left alone once it is disconnected, and every event is handled.
\<close>

section \<open>Nothing is lost\<close>

text \<open>C21: in every interleaving no assertion of a stage or of the pool fails; the events of a stage are taken from
  its queue in the order in which they were added, each once; and a connected stage is scheduled exactly as often as
  there are events in its queue.\<close>

theorem events_in_order:
  assumes "reachable n y"
  shows "\<not> failed y \<and> added y s = taken y s @ event_list (stages y s) \<and>
    (connected (stages y s) \<longrightarrow> tokens s y = qlen (stages y s) \<and> event_ref (stages y s) = int (tokens s y + active s y))"
  using pool_okD(1,2) [OF reachable_ok [OF assms]] by (simp add: stage_ok_def Let_def qlen_def)

text \<open>C31: \<^verbatim>\<open>disconnect\<close> returns only when nobody works for the stage any more: it is not in the run queue, nobody is
  about to schedule it, and no thread has taken it or handles one of its events, so that its cleanup runs alone.\<close>

theorem disconnected_alone:
  assumes "reachable n y" "s \<in> closing y" "disconnect_end (stages y s) = Some st"
  shows "s \<notin> set (run_queue y) \<and> (\<forall>c \<in># pending y. fst c \<noteq> s) \<and>
    (\<forall>t \<in> set (threads y). t \<noteq> Popped s \<and> (\<forall>e. t \<noteq> Running s e))"
proof -
  have ok: "stage_ok s y" by (rule pool_okD(2) [OF reachable_ok [OF assms(1)]])
  have "event_ref (stages y s) \<le> 0" using assms(3) by (simp add: disconnect_end_def split: if_splits)
  then have z: "tokens s y = 0" "active s y = 0" using ok assms(2) by (auto simp: stage_ok_def Let_def split: if_splits)
  then have c: "count_list (run_queue y) s = 0" "set_mset (filter_mset (\<lambda>c. fst c = s) (pending y)) = {}"
    "count_list (threads y) (Popped s) = 0" "filter (runs s) (threads y) = []"
    by (simp_all add: tokens_def active_def)
  have "\<forall>c \<in># pending y. fst c \<noteq> s" using c(2) unfolding set_mset_filter by blast
  moreover have "\<forall>t \<in> set (threads y). t \<noteq> Popped s \<and> (\<forall>e. t \<noteq> Running s e)"
    using c(3,4) by (auto simp: count_list_0_iff filter_empty_conv runs_def)
  ultimately show ?thesis using c(1) by (simp add: count_list_0_iff)
qed

section \<open>Every event is handled\<close>

definition call_weight :: "call \<Rightarrow> nat" where
  "call_weight c = (if snd (snd c) then 11 else 12)"

definition thread_weight :: "Thread \<Rightarrow> nat" where
  "thread_weight t = (case t of Looking \<Rightarrow> 1 | Waiting \<Rightarrow> 0 | Woken \<Rightarrow> 2 | Popped _ \<Rightarrow> 5 | Running _ _ \<Rightarrow> 4)"

definition burden :: "System \<Rightarrow> nat" where
  "burden y = sum_mset (image_mset call_weight (pending y)) + 6 * length (run_queue y) + sum_list (map thread_weight (threads y))"

lemma weight_update:
  assumes "i < length xs"
  shows "sum_list (map thread_weight (xs[i := x])) + thread_weight (xs ! i) = sum_list (map thread_weight xs) + thread_weight x"
proof -
  have "sum_list (map thread_weight xs) = sum_list (map thread_weight (take i xs @ xs ! i # drop (Suc i) xs))"
    using id_take_nth_drop [OF assms] by simp
  then show ?thesis using upd_conv_take_nth_drop [OF assms, of x] by simp
qed

lemma signalled_weight: "signalled b ts us \<Longrightarrow> sum_list (map thread_weight us) \<le> sum_list (map thread_weight ts) + 2"
proof -
  have "sum_list (map thread_weight (ts[i := Woken])) = sum_list (map thread_weight ts) + 2" if "i < length ts" "ts ! i = Waiting" for i
    using weight_update [OF that(1), of Woken] that(2) by (simp add: thread_weight_def)
  then show "signalled b ts us \<Longrightarrow> sum_list (map thread_weight us) \<le> sum_list (map thread_weight ts) + 2"
    by (auto simp: signalled_def split: if_splits)
qed

lemma work_lighter:
  assumes "pool_ok y" "work y z"
  shows "burden z < burden y"
  using assms(2)
proof (cases rule: work.cases)
  case (check s c)
  obtain P where P: "pending y = add_mset (s, c, False) P" using check(2) by (metis insert_DiffM)
  have "\<not> failed z" using check_ok [OF assms(1) check(2)] check(1) by (simp add: pool_ok_def)
  then have "z = y\<lparr>pending := add_mset (s, c, True) P\<rparr>"
    using check(1) P by (auto simp: schedule_check_def fail_def split: if_splits)
  then show ?thesis by (simp add: burden_def P call_weight_def)
next
  case (push s c b y' ts)
  obtain P where P: "pending y = add_mset (s, c, True) P" using push(2) by (metis insert_DiffM)
  have y': "y' = y\<lparr>run_queue := run_queue y @ [s], pending := P\<rparr>" using push(3) by (auto simp: schedule_push_def Let_def P)
  have "signalled b (threads y) ts" using push(4) y' by simp
  from signalled_weight [OF this] show ?thesis by (simp add: burden_def push(1) y' P call_weight_def)
next
  case (look i)
  then show ?thesis
    using weight_update [of i "threads y" Waiting] weight_update [of i "threads y" "Popped (hd (run_queue y))"]
    by (cases "run_queue y") (simp_all add: look_def burden_def thread_weight_def)
next
  case (awake i)
  then show ?thesis using weight_update [of i "threads y" Looking] by (simp add: awake_def burden_def thread_weight_def)
next
  case (take i s)
  have "\<not> failed z" using take_ok [OF assms(1) take(2,3)] take(1) by (simp add: pool_ok_def)
  then obtain e st where "z = (set_stage s st y)\<lparr>threads := (threads y)[i := Running s e], taken := (taken y)(s := taken y s @ [e])\<rparr>"
    using take(1) by (auto simp: take_event_def fail_def split: sum.splits)
  then show ?thesis using take(2,3) weight_update [of i "threads y" "Running s e"]
    by (simp add: burden_def thread_weight_def set_stage_def)
next
  case (finish i s e)
  then show ?thesis using weight_update [of i "threads y" Looking]
    by (simp add: finish_event_def burden_def thread_weight_def set_stage_def)
qed

lemma signalled_exists: "\<exists>us. signalled b ts us"
  by (auto simp: signalled_def in_set_conv_nth)

lemma idle_pool:
  assumes "pool_ok y" "threads y \<noteq> []" "\<nexists>z. work y z"
  shows "pending y = {#}" "run_queue y = []" "\<forall>t \<in> set (threads y). t = Waiting"
proof -
  show p: "pending y = {#}"
  proof (rule ccontr)
    assume "pending y \<noteq> {#}"
    then obtain s c b where c: "(s, c, b) \<in># pending y" by (metis multiset_nonemptyE prod_cases3)
    obtain d z where z: "schedule_push (s, c, True) y = (d, z)" by fastforce
    obtain ts where "signalled d (threads z) ts" using signalled_exists by blast
    then show False using assms(3) c z work.check [of s c y] work.push [of s c y d z ts] by (cases b) auto
  qed
  show all: "\<forall>t \<in> set (threads y). t = Waiting"
  proof
    fix t assume "t \<in> set (threads y)"
    then obtain i where "i < length (threads y)" "threads y ! i = t" by (auto simp: in_set_conv_nth)
    moreover have "\<not> calling i y" by (simp add: calling_def p)
    ultimately show "t = Waiting" using assms(3) work.look work.awake work.take work.finish by (cases t) blast+
  qed
  show "run_queue y = []" using pool_okD(4) [OF assms(1) _ assms(2)] all by blast
qed


section \<open>Examples\<close>

text \<open>A stage with one event, and the pool that has handled it.\<close>

definition demo_connected :: System where
  "demo_connected = connect_call True 7 (set_stage 7 (Stage_new\<lparr>has_pool := True\<rparr>) (initial 1))"

lemma demo_reachable: "reachable 1 demo_connected"
proof -
  have p: "reachable 1 (set_stage 7 (Stage_new\<lparr>has_pool := True\<rparr>) (initial 1))"
    by (rule reachable.next_step [OF reachable.start step.set_pool]) (simp_all add: initial_def set_pool_def Stage_new_def)
  show ?thesis unfolding demo_connected_def
    by (rule reachable.next_step [OF p step.connect]) (simp_all add: set_stage_def initial_def Stage_new_def)
qed

lemmas demo_defs = demo_connected_def connect_call_def connect_def set_stage_def initial_def Stage_new_def add_call_def add_event_def

lemma events_in_order_witness:
  "event_list (stages (add_call 7 1 None demo_connected) 7) = [1] \<and> tokens 7 (add_call 7 1 None demo_connected) = 1"
proof -
  have "reachable 1 (add_call 7 1 None demo_connected)"
    by (rule reachable.next_step [OF demo_reachable step.add]) (simp add: caller_ok_def)
  from events_in_order [OF this, of 7] show ?thesis by (simp add: demo_defs qlen_def)
qed

lemma disconnected_alone_witness:
  "let y = (set_stage 7 ((stages demo_connected 7)\<lparr>connected := False\<rparr>) demo_connected)\<lparr>closing := insert 7 (closing demo_connected)\<rparr>
   in (\<exists>st. disconnect_end (stages y 7) = Some st) \<and> 7 \<notin> set (run_queue y) \<and> \<not> (\<exists>c \<in># pending y. fst c = 7)"
proof -
  let ?y = "(set_stage 7 ((stages demo_connected 7)\<lparr>connected := False\<rparr>) demo_connected)\<lparr>closing := insert 7 (closing demo_connected)\<rparr>"
  have r: "reachable 1 ?y"
    by (rule reachable.next_step [OF demo_reachable step.disconnect]) (simp add: disconnect_begin_def demo_defs)
  obtain st where "disconnect_end (stages ?y 7) = Some st" by (simp add: disconnect_end_def demo_defs)
  with disconnected_alone [OF r _ this] show ?thesis by (auto simp: Let_def)
qed


end
