(* ===== verification/Timer_Stage.thy ===== *)
theory Timer_Stage
  imports Prelude "HOL-Library.Word" "HOL-Library.Multiset"
begin

text \<open>
  \<^verbatim>\<open>src/deps/common/seda/timer_stage.cpp\<close>: the stage that triggers events at a time.  A clock value is
  an argument; an event is a number.  The timer queue is the list of the map's entries in its order.  The thread
  of the stage runs \<open>check_timer\<close> again and again; between two runs it sleeps.
\<close>

section \<open>Times\<close>

record timeval =
  tv_sec :: int
  tv_usec :: int

definition USEC_PER_SEC :: int where
  "USEC_PER_SEC = 1000000"

definition NSEC_PER_USEC :: int where
  "NSEC_PER_USEC = 1000"

function borrow :: "timeval \<Rightarrow> timeval" where
  "borrow t = (if tv_usec t < 0 then borrow \<lparr>tv_sec = tv_sec t - 1, tv_usec = tv_usec t + USEC_PER_SEC\<rparr> else t)"
  by pat_completeness auto
termination by (relation "measure (\<lambda>t. nat (- tv_usec t))") (auto simp: USEC_PER_SEC_def)

function carry :: "timeval \<Rightarrow> timeval" where
  "carry t = (if tv_usec t \<ge> USEC_PER_SEC then carry \<lparr>tv_sec = tv_sec t + 1, tv_usec = tv_usec t - USEC_PER_SEC\<rparr> else t)"
  by pat_completeness auto
termination by (relation "measure (\<lambda>t. nat (tv_usec t))") (auto simp: USEC_PER_SEC_def)

declare borrow.simps [simp del] carry.simps [simp del]

definition sub_timeval :: "timeval \<Rightarrow> timeval \<Rightarrow> timeval" where
  "sub_timeval t1 t2 = borrow \<lparr>tv_sec = tv_sec t1 - tv_sec t2, tv_usec = tv_usec t1 - tv_usec t2\<rparr>"

definition add_timeval :: "timeval \<Rightarrow> timeval \<Rightarrow> timeval" where
  "add_timeval t1 t2 = carry \<lparr>tv_sec = tv_sec t1 + tv_sec t2, tv_usec = tv_usec t1 + tv_usec t2\<rparr>"

text \<open>\<open>ns\<close>: seconds and nanoseconds, as \<^verbatim>\<open>clock_gettime\<close> returns them.\<close>

definition of_timespec :: "int \<times> int \<Rightarrow> timeval" where
  "of_timespec ns = \<lparr>tv_sec = fst ns, tv_usec = snd ns div NSEC_PER_USEC\<rparr>"

definition realtime_to_monotonic :: "timeval \<Rightarrow> int \<times> int \<Rightarrow> timeval \<Rightarrow> timeval" where
  "realtime_to_monotonic now mns rt = add_timeval (of_timespec mns) (sub_timeval rt now)"

definition timeval_equal :: "timeval \<Rightarrow> timeval \<Rightarrow> bool" where
  "timeval_equal t1 t2 \<longleftrightarrow> tv_sec t1 = tv_sec t2 \<and> tv_usec t1 = tv_usec t2"

definition timeval_less_than :: "timeval \<Rightarrow> timeval \<Rightarrow> bool" where
  "timeval_less_than t1 t2 \<longleftrightarrow> tv_sec t1 < tv_sec t2 \<or> (tv_sec t1 = tv_sec t2 \<and> tv_usec t1 < tv_usec t2)"

section \<open>Tokens\<close>

record TimerToken =
  tk_time :: timeval
  tk_nonce :: "64 word"

definition token_less :: "TimerToken \<Rightarrow> TimerToken \<Rightarrow> bool" where
  "token_less a b \<longleftrightarrow>
     (if timeval_less_than (tk_time a) (tk_time b) then True
      else if timeval_equal (tk_time a) (tk_time b) then tk_nonce a < tk_nonce b
      else False)"

text \<open>The time of a registration: so many microseconds from now, or a time of day.  The sum is unsigned.\<close>

definition timer_when :: "int \<times> int \<Rightarrow> 64 word \<Rightarrow> timeval" where
  "timer_when mns rel =
     (let t = of_timespec mns; u = sint (word_of_int (tv_usec t) + rel) in
      if u \<ge> USEC_PER_SEC then \<lparr>tv_sec = tv_sec t + u div USEC_PER_SEC, tv_usec = u mod USEC_PER_SEC\<rparr>
      else t\<lparr>tv_usec := u\<rparr>)"

section \<open>The stage\<close>

record TimerState =
  timer_queue :: "(TimerToken \<times> nat) list"
  shut :: bool
  num_events :: "32 word"
  nonce_cntr :: "64 word"

definition TimerState_new :: TimerState where
  "TimerState_new = \<lparr>timer_queue = [], shut = False, num_events = 0, nonce_cntr = 0\<rparr>"

text \<open>\<^verbatim>\<open>map::insert\<close>: keys are equal when neither is less.\<close>

fun queue_insert :: "TimerToken \<Rightarrow> nat \<Rightarrow> (TimerToken \<times> nat) list \<Rightarrow> (TimerToken \<times> nat) list option" where
  "queue_insert tt e [] = Some [(tt, e)]"
| "queue_insert tt e ((u, f) # q) =
     (if token_less tt u then Some ((tt, e) # (u, f) # q)
      else if token_less u tt then map_option ((#) (u, f)) (queue_insert tt e q)
      else None)"

text \<open>The token, and whether the thread is signalled because the event is now the first.\<close>

definition register_timer :: "timeval \<Rightarrow> nat \<Rightarrow> TimerState \<Rightarrow> (TimerToken \<times> bool \<times> TimerState) result" where
  "register_timer wt e st =
     (let tt = \<lparr>tk_time = wt, tk_nonce = nonce_cntr st\<rparr> in
      case queue_insert tt e (timer_queue st) of
        None \<Rightarrow> Inl UB
      | Some q \<Rightarrow> Inr (tt, fst (hd q) = tt,
          st\<lparr>timer_queue := q, num_events := num_events st + 1, nonce_cntr := nonce_cntr st + 1\<rparr>))"

definition token_equal :: "TimerToken \<Rightarrow> TimerToken \<Rightarrow> bool" where
  "token_equal a b \<longleftrightarrow> \<not> token_less a b \<and> \<not> token_less b a"

text \<open>The event is deleted.\<close>

definition cancel_timer :: "TimerToken \<Rightarrow> TimerState \<Rightarrow> bool \<times> TimerState" where
  "cancel_timer tt st =
     (if list_ex (\<lambda>(u, _). token_equal u tt) (timer_queue st)
      then (True, st\<lparr>timer_queue := filter (\<lambda>(u, _). \<not> token_equal u tt) (timer_queue st), num_events := num_events st - 1\<rparr>)
      else (False, st))"

definition disconnect_prepare :: "TimerState \<Rightarrow> TimerState" where
  "disconnect_prepare st = st\<lparr>shut := True\<rparr>"

datatype Sleep = Stop | Until_Signal | Until timeval

definition is_due :: "timeval \<Rightarrow> TimerToken \<times> nat \<Rightarrow> bool" where
  "is_due now p \<longleftrightarrow> \<not> timeval_less_than now (tk_time (fst p))"

text \<open>One round: the events that are triggered, and how the thread goes to sleep.\<close>

definition check_timer :: "timeval \<Rightarrow> TimerState \<Rightarrow> nat list \<times> Sleep \<times> TimerState" where
  "check_timer now st =
     (let due = takeWhile (is_due now) (timer_queue st); rest = dropWhile (is_due now) (timer_queue st)
      in (map snd due,
          if shut st then Stop else case rest of [] \<Rightarrow> Until_Signal | (u, _) # _ \<Rightarrow> Until (tk_time u),
          st\<lparr>timer_queue := rest, num_events := num_events st - word_of_nat (length due)\<rparr>))"

text \<open>What the stage does with an event: a registration, a cancellation, or a warning.\<close>

datatype TimerEvent = Register timeval nat | Cancel TimerToken | Unexpected

definition timer_handle_event :: "TimerEvent \<Rightarrow> TimerState \<Rightarrow> TimerState result" where
  "timer_handle_event ev st =
     (case ev of
        Register wt e \<Rightarrow> map_sum id (\<lambda>(_, _, st). st) (register_timer wt e st)
      | Cancel tt \<Rightarrow> Inr (snd (cancel_timer tt st))
      | Unexpected \<Rightarrow> Inr st)"

section \<open>Arithmetic of times\<close>

definition normal :: "timeval \<Rightarrow> bool" where
  "normal t \<longleftrightarrow> 0 \<le> tv_usec t \<and> tv_usec t < USEC_PER_SEC"

definition usecs :: "timeval \<Rightarrow> int" where
  "usecs t = tv_sec t * USEC_PER_SEC + tv_usec t"

lemma borrow_correct: "tv_usec t < USEC_PER_SEC \<Longrightarrow> normal (borrow t) \<and> usecs (borrow t) = usecs t"
proof (induction t rule: borrow.induct)
  case (1 t)
  then show ?case by (subst (1 2) borrow.simps) (auto simp: normal_def usecs_def USEC_PER_SEC_def algebra_simps)
qed

lemma carry_correct: "0 \<le> tv_usec t \<Longrightarrow> normal (carry t) \<and> usecs (carry t) = usecs t"
proof (induction t rule: carry.induct)
  case (1 t)
  then show ?case by (subst (1 2) carry.simps) (auto simp: normal_def usecs_def USEC_PER_SEC_def algebra_simps)
qed

lemma timeval_less_usecs: "normal a \<Longrightarrow> normal b \<Longrightarrow> timeval_less_than a b \<longleftrightarrow> usecs a < usecs b"
  by (auto simp: timeval_less_than_def normal_def usecs_def USEC_PER_SEC_def)

text \<open>A time of day becomes the time on the monotonic clock that is as far away: the arithmetic on seconds and
  microseconds is exact, normalised, and keeps the order of deadlines.\<close>

theorem realtime_to_monotonic_correct:
  assumes "normal now" "normal rt" "normal rt'" "0 \<le> snd mns" "snd mns < 1000000000"
  shows "normal (realtime_to_monotonic now mns rt) \<and>
    usecs (realtime_to_monotonic now mns rt) - usecs (of_timespec mns) = usecs rt - usecs now \<and>
    (timeval_less_than (realtime_to_monotonic now mns rt) (realtime_to_monotonic now mns rt') \<longleftrightarrow> timeval_less_than rt rt')"
proof -
  have n: "normal (realtime_to_monotonic now mns r) \<and>
      usecs (realtime_to_monotonic now mns r) - usecs (of_timespec mns) = usecs r - usecs now" if "normal r" for r
  proof -
    let ?d = "\<lparr>tv_sec = tv_sec r - tv_sec now, tv_usec = tv_usec r - tv_usec now\<rparr>"
    have d: "normal (sub_timeval r now)" "usecs (sub_timeval r now) = usecs r - usecs now"
      using borrow_correct [of ?d] that assms(1) by (simp_all add: sub_timeval_def normal_def usecs_def algebra_simps)
    let ?s = "\<lparr>tv_sec = tv_sec (of_timespec mns) + tv_sec (sub_timeval r now),
        tv_usec = tv_usec (of_timespec mns) + tv_usec (sub_timeval r now)\<rparr>"
    have "0 \<le> tv_usec (of_timespec mns)" using assms(4) by (simp add: of_timespec_def NSEC_PER_USEC_def)
    then have "normal (carry ?s) \<and> usecs (carry ?s) = usecs ?s"
      using d(1) by (intro carry_correct) (simp add: normal_def)
    then show ?thesis using d(2) by (simp add: realtime_to_monotonic_def add_timeval_def usecs_def algebra_simps)
  qed
  have "usecs (realtime_to_monotonic now mns rt) < usecs (realtime_to_monotonic now mns rt') \<longleftrightarrow> usecs rt < usecs rt'"
    using n [OF assms(2)] n [OF assms(3)] by linarith
  then show ?thesis
    using n [OF assms(2)] n [OF assms(3)] timeval_less_usecs assms(2,3) by blast
qed

lemma realtime_to_monotonic_correct_witness:
  "realtime_to_monotonic \<lparr>tv_sec = 100, tv_usec = 900000\<rparr> (5, 200000000) \<lparr>tv_sec = 102, tv_usec = 100000\<rparr> =
     \<lparr>tv_sec = 6, tv_usec = 400000\<rparr> \<and>
   normal (realtime_to_monotonic \<lparr>tv_sec = 100, tv_usec = 900000\<rparr> (5, 200000000) \<lparr>tv_sec = 102, tv_usec = 100000\<rparr>)"
proof -
  have "realtime_to_monotonic \<lparr>tv_sec = 100, tv_usec = 900000\<rparr> (5, 200000000) \<lparr>tv_sec = 102, tv_usec = 100000\<rparr> =
     \<lparr>tv_sec = 6, tv_usec = 400000\<rparr>"
    by (simp add: realtime_to_monotonic_def add_timeval_def sub_timeval_def of_timespec_def NSEC_PER_USEC_def
        borrow.simps carry.simps USEC_PER_SEC_def)
  moreover have "normal (realtime_to_monotonic \<lparr>tv_sec = 100, tv_usec = 900000\<rparr> (5, 200000000) \<lparr>tv_sec = 102, tv_usec = 100000\<rparr>)"
    using realtime_to_monotonic_correct [of "\<lparr>tv_sec = 100, tv_usec = 900000\<rparr>" "\<lparr>tv_sec = 102, tv_usec = 100000\<rparr>"
        "\<lparr>tv_sec = 102, tv_usec = 100000\<rparr>" "(5, 200000000)"] by (simp add: normal_def USEC_PER_SEC_def)
  ultimately show ?thesis by simp
qed

section \<open>The queue\<close>

lemma token_less_trans: "token_less a b \<Longrightarrow> token_less b c \<Longrightarrow> token_less a c"
  by (auto simp: token_less_def timeval_less_than_def timeval_equal_def split: if_splits)

lemma token_less_irrefl: "\<not> token_less a a"
  by (simp add: token_less_def timeval_less_than_def)

lemma timeval_equal_iff: "timeval_equal a b \<longleftrightarrow> a = b"
  by (auto simp: timeval_equal_def intro: timeval.equality)

lemma token_total: "token_less a b \<or> a = b \<or> token_less b a"
proof (cases "tk_time a = tk_time b")
  case True
  then have "a = b \<or> tk_nonce a < tk_nonce b \<or> tk_nonce b < tk_nonce a" by (auto intro: TimerToken.equality)
  then show ?thesis using True by (auto simp: token_less_def timeval_equal_iff)
next
  case False
  then have "tv_sec (tk_time a) \<noteq> tv_sec (tk_time b) \<or> tv_usec (tk_time a) \<noteq> tv_usec (tk_time b)"
    by (auto intro: timeval.equality)
  then show ?thesis by (auto simp: token_less_def timeval_less_than_def)
qed

lemma token_equal_iff [simp]: "token_equal a b \<longleftrightarrow> a = b"
  using token_total [of a b] by (auto simp: token_equal_def token_less_irrefl)

lemma queue_insert_correct:
  "sorted_wrt token_less (map fst q) \<Longrightarrow> tt \<notin> fst ` set q \<Longrightarrow>
   \<exists>xs ys. q = xs @ ys \<and> queue_insert tt e q = Some (xs @ (tt, e) # ys) \<and> sorted_wrt token_less (map fst (xs @ (tt, e) # ys))"
proof (induction q)
  case (Cons p q)
  obtain u f where p: "p = (u, f)" by (cases p)
  show ?case
  proof (cases "token_less tt u")
    case True
    then have "\<forall>v \<in> fst ` set (p # q). token_less tt v" using Cons.prems(1) p by (auto intro: token_less_trans)
    then show ?thesis using True Cons.prems(1) p by (intro exI [of _ "[]"] exI [of _ "p # q"]) auto
  next
    case False
    then have l: "token_less u tt" using Cons.prems(2) p token_total [of tt u] by auto
    obtain xs ys where I: "q = xs @ ys" "queue_insert tt e q = Some (xs @ (tt, e) # ys)" "sorted_wrt token_less (map fst (xs @ (tt, e) # ys))"
      using Cons by auto
    show ?thesis using False l I Cons.prems(1) p by (intro exI [of _ "p # xs"] exI [of _ ys]) auto
  qed
qed simp

text \<open>A due event is before the others.\<close>

lemma due_sorted:
  "sorted_wrt token_less (map fst q) \<Longrightarrow> takeWhile (is_due now) q = filter (is_due now) q \<and> dropWhile (is_due now) q = filter (\<lambda>p. \<not> is_due now p) q"
proof (induction q)
  case (Cons p q)
  have "\<not> is_due now x" if "\<not> is_due now p" "x \<in> set q" for x
  proof -
    have "token_less (fst p) (fst x)" using Cons.prems that(2) by auto
    then show ?thesis using that(1) by (auto simp: is_due_def token_less_def timeval_less_than_def timeval_equal_def split: if_splits)
  qed
  then have "\<not> is_due now p \<Longrightarrow> filter (is_due now) q = [] \<and> filter (\<lambda>p. \<not> is_due now p) q = q" by (auto simp: filter_empty_conv filter_id_conv)
  then show ?case using Cons by auto
qed simp

definition timer_ok :: "TimerState \<Rightarrow> bool" where
  "timer_ok st \<longleftrightarrow> sorted_wrt token_less (map fst (timer_queue st)) \<and> num_events st = word_of_nat (length (timer_queue st)) \<and>
     (\<forall>u \<in> fst ` set (timer_queue st). tk_nonce u < nonce_cntr st)"

lemma word_less_inc:
  fixes x :: "64 word"
  assumes "x \<noteq> - 1"
  shows "x < x + 1"
proof -
  have "unat (- 1 :: 64 word) = 2 ^ 64 - 1" by (simp add: unsigned_minus_1_eq_mask mask_eq_exp_minus_1)
  then have "unat x \<noteq> 2 ^ 64 - 1" using assms by (metis word_unat_eq_iff)
  then show ?thesis using unsigned_less [of x, where 'a = nat] by (simp add: word_less_nat_alt unat_word_ariths)
qed

lemma register_ok:
  assumes "timer_ok st" "nonce_cntr st \<noteq> - 1"
  shows "\<exists>b st'. register_timer wt e st = Inr (\<lparr>tk_time = wt, tk_nonce = nonce_cntr st\<rparr>, b, st') \<and> timer_ok st' \<and>
    mset (timer_queue st') = add_mset (\<lparr>tk_time = wt, tk_nonce = nonce_cntr st\<rparr>, e) (mset (timer_queue st)) \<and>
    nonce_cntr st' = nonce_cntr st + 1 \<and> (\<not> b \<longrightarrow> timer_queue st \<noteq> [] \<and> hd (timer_queue st') = hd (timer_queue st))"
proof -
  let ?tt = "\<lparr>tk_time = wt, tk_nonce = nonce_cntr st\<rparr>"
  have s: "sorted_wrt token_less (map fst (timer_queue st))" using assms(1) by (simp add: timer_ok_def)
  have "?tt \<notin> fst ` set (timer_queue st)" using assms(1) by (force simp: timer_ok_def)
  from queue_insert_correct [OF s this, of e] obtain xs ys where I: "timer_queue st = xs @ ys"
    "queue_insert ?tt e (timer_queue st) = Some (xs @ (?tt, e) # ys)" "sorted_wrt token_less (map fst (xs @ (?tt, e) # ys))" by blast
  let ?st = "st\<lparr>timer_queue := xs @ (?tt, e) # ys, num_events := num_events st + 1, nonce_cntr := nonce_cntr st + 1\<rparr>"
  have r: "register_timer wt e st = Inr (?tt, fst (hd (xs @ (?tt, e) # ys)) = ?tt, ?st)"
    by (simp add: register_timer_def I(2) Let_def)
  have inc: "nonce_cntr st < nonce_cntr st + 1" by (rule word_less_inc [OF assms(2)])
  have "tk_nonce u < nonce_cntr st + 1" if "u \<in> fst ` set (timer_queue st)" for u
    using that assms(1) inc by (auto simp: timer_ok_def intro: less_trans)
  then have "timer_ok ?st" using assms(1) I inc by (auto simp: timer_ok_def)
  then show ?thesis using r I(1) by (cases xs) auto
qed

lemma sorted_distinct: "sorted_wrt token_less xs \<Longrightarrow> distinct xs"
  by (induction xs) (auto simp: token_less_irrefl)

lemma removed_one:
  assumes "distinct (map fst q)"
  shows "length q = length (filter (\<lambda>p. fst p \<noteq> t) q) + (if t \<in> fst ` set q then 1 else 0)"
proof -
  have "length (filter (\<lambda>p. fst p = t) q) = (if t \<in> fst ` set q then 1 else 0)" using assms by (induction q) (auto split: if_splits)
  then show ?thesis using sum_length_filter_compl [of "\<lambda>p. fst p = t" q] by simp
qed

lemma cancel_ok:
  assumes "timer_ok st"
  shows "cancel_timer tt st = (tt \<in> fst ` set (timer_queue st), st\<lparr>timer_queue := filter (\<lambda>p. fst p \<noteq> tt) (timer_queue st),
      num_events := word_of_nat (length (filter (\<lambda>p. fst p \<noteq> tt) (timer_queue st)))\<rparr>)"
    "timer_ok (snd (cancel_timer tt st))"
proof -
  have s: "sorted_wrt token_less (map fst (timer_queue st))" using assms by (simp add: timer_ok_def)
  then have d: "distinct (map fst (timer_queue st))" by (rule sorted_distinct)
  let ?q = "filter (\<lambda>p. fst p \<noteq> tt) (timer_queue st)"
  have f: "filter (\<lambda>(u, _). \<not> token_equal u tt) (timer_queue st) = ?q" by (rule filter_cong) auto
  have c: "word_of_nat (length ?q) = (if tt \<in> fst ` set (timer_queue st) then num_events st - 1 else num_events st)"
    using removed_one [OF d, of tt] assms by (auto simp: timer_ok_def of_nat_diff)
  show e: "cancel_timer tt st = (tt \<in> fst ` set (timer_queue st), st\<lparr>timer_queue := ?q, num_events := word_of_nat (length ?q)\<rparr>)"
  proof (cases "tt \<in> fst ` set (timer_queue st)")
    case True
    then show ?thesis unfolding c cancel_timer_def f by (auto simp: list_ex_iff)
  next
    case False
    then have "?q = timer_queue st" by (auto simp: filter_id_conv)
    moreover have "\<not> list_ex (\<lambda>(u, _). token_equal u tt) (timer_queue st)" using False by (force simp: list_ex_iff)
    ultimately show ?thesis using False c by (simp add: cancel_timer_def)
  qed
  have "sorted_wrt token_less (map fst ?q)" using s by (simp add: sorted_wrt_map sorted_wrt_filter)
  then show "timer_ok (snd (cancel_timer tt st))" using assms by (auto simp: e timer_ok_def)
qed

lemma timer_check_ok:
  assumes "timer_ok st"
  shows "check_timer now st = (map snd (filter (is_due now) (timer_queue st)),
      (if shut st then Stop else case filter (\<lambda>p. \<not> is_due now p) (timer_queue st) of [] \<Rightarrow> Until_Signal | (u, _) # _ \<Rightarrow> Until (tk_time u)),
      st\<lparr>timer_queue := filter (\<lambda>p. \<not> is_due now p) (timer_queue st),
        num_events := word_of_nat (length (filter (\<lambda>p. \<not> is_due now p) (timer_queue st)))\<rparr>)"
    "timer_ok (snd (snd (check_timer now st)))"
proof -
  have s: "sorted_wrt token_less (map fst (timer_queue st))" using assms by (simp add: timer_ok_def)
  have "length (timer_queue st) = length (filter (is_due now) (timer_queue st)) + length (filter (\<lambda>p. \<not> is_due now p) (timer_queue st))"
    by (simp add: sum_length_filter_compl)
  then have c: "num_events st - word_of_nat (length (filter (is_due now) (timer_queue st))) =
      word_of_nat (length (filter (\<lambda>p. \<not> is_due now p) (timer_queue st)))"
    using assms by (simp add: timer_ok_def)
  show e: "check_timer now st = (map snd (filter (is_due now) (timer_queue st)),
      (if shut st then Stop else case filter (\<lambda>p. \<not> is_due now p) (timer_queue st) of [] \<Rightarrow> Until_Signal | (u, _) # _ \<Rightarrow> Until (tk_time u)),
      st\<lparr>timer_queue := filter (\<lambda>p. \<not> is_due now p) (timer_queue st),
        num_events := word_of_nat (length (filter (\<lambda>p. \<not> is_due now p) (timer_queue st)))\<rparr>)"
    using due_sorted [OF s, of now] c by (simp add: check_timer_def Let_def)
  have "sorted_wrt token_less (map fst (filter (\<lambda>p. \<not> is_due now p) (timer_queue st)))"
    using s by (simp add: sorted_wrt_map sorted_wrt_filter)
  then show "timer_ok (snd (snd (check_timer now st)))" using assms by (auto simp: e timer_ok_def)
qed

section \<open>Every registered event is triggered once, cancelled, or still waiting\<close>

text \<open>What can happen to the stage, with what has been registered, cancelled, and triggered at which time.  A
  round of the thread sees a clock that does not matter otherwise; the counter of the tokens has not wrapped round.\<close>

inductive timer_run :: "TimerState \<Rightarrow> (TimerToken \<times> nat) multiset \<Rightarrow> (TimerToken \<times> nat) multiset \<Rightarrow> (TimerToken \<times> nat \<times> timeval) list \<Rightarrow> bool" where
  started: "timer_run TimerState_new {#} {#} []"
| registered: "timer_run st reg can fired \<Longrightarrow> nonce_cntr st \<noteq> - 1 \<Longrightarrow> register_timer wt e st = Inr (tt, b, st') \<Longrightarrow>
    timer_run st' (add_mset (tt, e) reg) can fired"
| cancelled: "timer_run st reg can fired \<Longrightarrow>
    timer_run (snd (cancel_timer tt st)) reg (can + filter_mset (\<lambda>p. fst p = tt) (mset (timer_queue st))) fired"
| checked: "timer_run st reg can fired \<Longrightarrow>
    timer_run (snd (snd (check_timer now st))) reg can (fired @ map (\<lambda>(u, e). (u, e, now)) (takeWhile (is_due now) (timer_queue st)))"
| shut_down: "timer_run st reg can fired \<Longrightarrow> timer_run (disconnect_prepare st) reg can fired"

lemma timer_run_inv:
  "timer_run st reg can fired \<Longrightarrow>
   timer_ok st \<and> reg = mset (timer_queue st) + can + mset (map (\<lambda>(u, e, _). (u, e)) fired) \<and>
   (\<forall>(u, e, now) \<in> set fired. \<not> timeval_less_than now (tk_time u)) \<and>
   (\<forall>u \<in> set_mset (image_mset fst reg). tk_nonce u < nonce_cntr st) \<and> (\<forall>u. count (image_mset fst reg) u \<le> 1)"
proof (induction rule: timer_run.induct)
  case started
  show ?case by (simp add: timer_ok_def TimerState_new_def)
next
  case (registered st reg can fired wt e tt b st')
  then have ok: "timer_ok st" and n: "nonce_cntr st \<noteq> - 1" by simp_all
  from register_ok [OF ok n, of wt e] registered.hyps(3) have
    R: "tt = \<lparr>tk_time = wt, tk_nonce = nonce_cntr st\<rparr>" "timer_ok st'" "mset (timer_queue st') = add_mset (tt, e) (mset (timer_queue st))"
      "nonce_cntr st' = nonce_cntr st + 1" by auto
  have inc: "nonce_cntr st < nonce_cntr st + 1" by (rule word_less_inc [OF n])
  have u: "\<forall>u \<in> set_mset (image_mset fst reg). tk_nonce u < nonce_cntr st" using registered.IH by blast
  have "tt \<notin># image_mset fst reg"
  proof
    assume "tt \<in># image_mset fst reg"
    then have "tk_nonce tt < nonce_cntr st" using u by blast
    then show False using R(1) by simp
  qed
  then have "count (image_mset fst reg) tt = 0" by (metis not_in_iff)
  moreover have "\<forall>u. count (image_mset fst reg) u \<le> 1" using registered.IH by blast
  ultimately have "\<forall>u. count (image_mset fst (add_mset (tt, e) reg)) u \<le> 1" by simp
  moreover have "\<forall>u \<in> set_mset (image_mset fst reg). tk_nonce u < nonce_cntr st + 1"
    using registered.IH inc by (meson less_trans)
  moreover have "tk_nonce tt < nonce_cntr st + 1" using R(1) inc by simp
  ultimately show ?case using registered.IH R(2-4) by simp
next
  case (cancelled st reg can fired tt)
  have "mset (timer_queue st) = filter_mset (\<lambda>p. fst p = tt) (mset (timer_queue st)) + filter_mset (\<lambda>p. fst p \<noteq> tt) (mset (timer_queue st))"
    by (rule multiset_partition)
  moreover have R: "reg = mset (timer_queue st) + can + mset (map (\<lambda>(u, e, _). (u, e)) fired)" and ok: "timer_ok st"
    using cancelled.IH by blast+
  ultimately have "reg = mset (timer_queue (snd (cancel_timer tt st))) +
      (can + filter_mset (\<lambda>p. fst p = tt) (mset (timer_queue st))) + mset (map (\<lambda>(u, e, _). (u, e)) fired)"
    by (simp add: cancel_ok(1) [OF ok] union_ac)
  moreover have "nonce_cntr (snd (cancel_timer tt st)) = nonce_cntr st" by (simp add: cancel_ok(1) [OF ok])
  ultimately show ?case using cancelled.IH cancel_ok(2) [OF ok] by metis
next
  case (checked st reg can fired now)
  then have ok: "timer_ok st" by simp
  have t: "takeWhile (is_due now) (timer_queue st) = filter (is_due now) (timer_queue st)"
    using due_sorted ok by (simp add: timer_ok_def)
  have "mset (timer_queue st) = filter_mset (is_due now) (mset (timer_queue st)) + filter_mset (\<lambda>p. \<not> is_due now p) (mset (timer_queue st))"
    by (rule multiset_partition)
  moreover have "map (\<lambda>(u, e, _). (u, e)) (map (\<lambda>(u, e). (u, e, now)) q) = q" for q :: "(TimerToken \<times> nat) list"
    by (induction q) auto
  moreover have "reg = mset (timer_queue st) + can + mset (map (\<lambda>(u, e, _). (u, e)) fired)" using checked.IH by blast
  ultimately have "reg = mset (timer_queue (snd (snd (check_timer now st)))) + can +
      mset (map (\<lambda>(u, e, _). (u, e)) (fired @ map (\<lambda>(u, e). (u, e, now)) (takeWhile (is_due now) (timer_queue st))))"
    by (simp add: timer_check_ok(1) [OF ok] t union_ac)
  moreover have "nonce_cntr (snd (snd (check_timer now st))) = nonce_cntr st" by (simp add: timer_check_ok(1) [OF ok])
  moreover have "\<forall>(u, e, now) \<in> set (fired @ map (\<lambda>(u, e). (u, e, now)) (takeWhile (is_due now) (timer_queue st))).
      \<not> timeval_less_than now (tk_time u)"
    using checked.IH by (auto simp: t is_due_def)
  ultimately show ?case using checked.IH timer_check_ok(2) [OF ok, of now] by metis
next
  case (shut_down st reg can fired)
  have "timer_ok (disconnect_prepare st) = timer_ok st" "timer_queue (disconnect_prepare st) = timer_queue st"
    "nonce_cntr (disconnect_prepare st) = nonce_cntr st" by (simp_all add: disconnect_prepare_def timer_ok_def)
  then show ?case using shut_down.IH by metis
qed


text \<open>The thread of the timer oversleeps no event: after a round it has triggered what is due; it sleeps until the
  time of the first event that is left, before no other one, and while none is left until it is woken; and an event
  that is registered meanwhile either wakes it or comes after the one that it sleeps for.\<close>

theorem timer_wakes_in_time:
  assumes "timer_run st reg can fired" "check_timer now st = (due, sleep, st1)"
  shows "(\<forall>p \<in> set (timer_queue st1). timeval_less_than now (tk_time (fst p))) \<and>
    (\<not> shut st \<longrightarrow> (sleep = Until_Signal \<longleftrightarrow> timer_queue st1 = []) \<and>
      (timer_queue st1 \<noteq> [] \<longrightarrow> sleep = Until (tk_time (fst (hd (timer_queue st1)))) \<and>
        (\<forall>p \<in> set (timer_queue st1). \<not> timeval_less_than (tk_time (fst p)) (tk_time (fst (hd (timer_queue st1))))))) \<and>
    (nonce_cntr st1 \<noteq> - 1 \<longrightarrow> (\<exists>tt b st2. register_timer wt e st1 = Inr (tt, b, st2) \<and>
      (b \<or> timer_queue st1 \<noteq> [] \<and> hd (timer_queue st2) = hd (timer_queue st1))))"
proof -
  have ok: "timer_ok st" using timer_run_inv [OF assms(1)] by blast
  note C = timer_check_ok [OF ok, of now]
  have ok1: "timer_ok st1" using C(2) assms(2) by simp
  have q: "timer_queue st1 = filter (\<lambda>p. \<not> is_due now p) (timer_queue st)"
    and sl: "sleep = (if shut st then Stop else case timer_queue st1 of [] \<Rightarrow> Until_Signal | (u, _) # _ \<Rightarrow> Until (tk_time u))"
    using C(1) assms(2) by auto
  have first: "\<not> timeval_less_than (tk_time (fst p)) (tk_time (fst (hd (timer_queue st1))))" if "p \<in> set (timer_queue st1)" for p
  proof (cases "timer_queue st1")
    case (Cons x xs)
    then have "p = x \<or> token_less (fst x) (fst p)" using ok1 that by (auto simp: timer_ok_def)
    then show ?thesis using Cons by (auto simp: token_less_def timeval_less_than_def timeval_equal_def split: if_splits)
  qed (use that in simp)
  have "\<forall>p \<in> set (timer_queue st1). timeval_less_than now (tk_time (fst p))" by (simp add: q is_due_def)
  moreover have "\<exists>tt b st2. register_timer wt e st1 = Inr (tt, b, st2) \<and>
      (b \<or> timer_queue st1 \<noteq> [] \<and> hd (timer_queue st2) = hd (timer_queue st1))" if "nonce_cntr st1 \<noteq> - 1"
    using register_ok [OF ok1 that, of wt e] by blast
  ultimately show ?thesis using first sl by (cases "timer_queue st1") auto
qed

text \<open>An event is registered; a round at its time triggers it.\<close>

definition demo_token :: TimerToken where
  "demo_token = \<lparr>tk_time = \<lparr>tv_sec = 5, tv_usec = 0\<rparr>, tk_nonce = 0\<rparr>"

definition demo_timer :: TimerState where
  "demo_timer = TimerState_new\<lparr>timer_queue := [(demo_token, 9)], num_events := 1, nonce_cntr := 1\<rparr>"

lemma demo_timer_run: "timer_run demo_timer {#(demo_token, 9)#} {#} []"
proof -
  have "register_timer \<lparr>tv_sec = 5, tv_usec = 0\<rparr> 9 TimerState_new = Inr (demo_token, True, demo_timer)"
    by (simp add: register_timer_def demo_token_def demo_timer_def TimerState_new_def Let_def)
  from timer_run.registered [OF timer_run.started _ this] show ?thesis by (simp add: TimerState_new_def)
qed


lemma timer_wakes_in_time_witness:
  "fst (check_timer \<lparr>tv_sec = 4, tv_usec = 0\<rparr> demo_timer) = [] \<and>
   fst (snd (check_timer \<lparr>tv_sec = 4, tv_usec = 0\<rparr> demo_timer)) = Until \<lparr>tv_sec = 5, tv_usec = 0\<rparr>"
proof -
  obtain due sl st1 where c: "check_timer \<lparr>tv_sec = 4, tv_usec = 0\<rparr> demo_timer = (due, sl, st1)" by (metis prod_cases3)
  have "timer_queue st1 = [(demo_token, 9)]" "due = []" "\<not> shut demo_timer"
    using c by (auto simp: check_timer_def demo_timer_def demo_token_def TimerState_new_def is_due_def timeval_less_than_def)
  with timer_wakes_in_time [OF demo_timer_run c, of "\<lparr>tv_sec = 5, tv_usec = 0\<rparr>" 9] c show ?thesis
    by (simp add: demo_token_def)
qed

end
