(* ===== verification/Stage_Event.thy ===== *)
theory Stage_Event
  imports Prelude "HOL-Library.Word"
begin

text \<open>
  \<^verbatim>\<open>src/deps/common/seda/stage_event.cpp\<close>, \<^verbatim>\<open>callback.cpp\<close> and
  \<^verbatim>\<open>src/deps/common/time/timeout_info.cpp\<close>: the event that a request is, its stack of completion
  callbacks, and the deadlines that events share.  A stage and a context are numbers.  Deleting an event, or
  calling a stage, is what a function returns.
\<close>

section \<open>Callbacks\<close>

record CompletionCallback =
  target_stage :: nat
  cb_context :: "nat option"
  ev_hist_flag :: bool

datatype HistType = HANDLE_EV | CALLBACK_EV | TIMEOUT_EV

text \<open>The rest of a chain is what follows the callback in the list.\<close>

record StageEvent =
  comp_cb :: "CompletionCallback list"
  user_data :: "nat option"
  cb_flag :: bool
  history :: "(nat \<times> HistType) list option"
  stage_hops :: "32 word"
  tm_info :: "nat option"

definition StageEvent_new :: StageEvent where
  "StageEvent_new = \<lparr>comp_cb = [], user_data = None, cb_flag = False, history = None, stage_hops = 0, tm_info = None\<rparr>"

text \<open>What happens next: the event is deleted, it is put into the queue of a stage, or a stage is called
  with it.\<close>

datatype Outcome =
    Deleted
  | Add_Event nat StageEvent
  | Callback_Event nat StageEvent "nat option"
  | Timeout_Event nat StageEvent "nat option"
  | Handle_Event nat StageEvent

text \<open>\<^verbatim>\<open>CompletionCallback::push_callback\<close>: the assertion that the callback has not been pushed yet.\<close>

definition cb_push :: "CompletionCallback list \<Rightarrow> CompletionCallback list \<Rightarrow> CompletionCallback list result" where
  "cb_push cb stack = (case cb of [c] \<Rightarrow> Inr (c # stack) | _ \<Rightarrow> Inl UB)"

definition push_callback :: "CompletionCallback \<Rightarrow> StageEvent \<Rightarrow> StageEvent result" where
  "push_callback c ev = map_sum id (\<lambda>s. ev\<lparr>comp_cb := s\<rparr>) (cb_push [c] (comp_cb ev))"

definition set_user_data :: "nat option \<Rightarrow> StageEvent \<Rightarrow> StageEvent" where
  "set_user_data u ev = ev\<lparr>user_data := u\<rparr>"

definition is_callback :: "StageEvent \<Rightarrow> bool" where
  "is_callback ev = cb_flag ev"

definition mark_callback :: "StageEvent \<Rightarrow> StageEvent" where
  "mark_callback ev = ev\<lparr>cb_flag := True\<rparr>"

definition clear_callback :: "StageEvent \<Rightarrow> StageEvent" where
  "clear_callback ev = ev\<lparr>cb_flag := False\<rparr>"

text \<open>\<open>hops\<close> is \<^verbatim>\<open>get_max_event_hops()\<close>.\<close>

definition save_stage :: "32 word \<Rightarrow> nat \<Rightarrow> HistType \<Rightarrow> StageEvent \<Rightarrow> StageEvent result" where
  "save_stage hops stg ty ev =
     (let h = (case history ev of None \<Rightarrow> [] | Some h \<Rightarrow> h);
          ev1 = ev\<lparr>history := Some (h @ [(stg, ty)]), stage_hops := stage_hops ev + 1\<rparr>
      in if stage_hops ev1 \<le> hops then Inr ev1 else Inl UB)"

definition saved :: "32 word \<Rightarrow> CompletionCallback \<Rightarrow> HistType \<Rightarrow> StageEvent \<Rightarrow> StageEvent result" where
  "saved hops c ty ev = (if ev_hist_flag c then save_stage hops (target_stage c) ty ev else Inr ev)"

definition event_done :: "32 word \<Rightarrow> CompletionCallback \<Rightarrow> StageEvent \<Rightarrow> Outcome result" where
  "event_done hops c ev = map_sum id (\<lambda>ev. Callback_Event (target_stage c) ev (cb_context c)) (saved hops c CALLBACK_EV ev)"

definition event_reschedule :: "CompletionCallback \<Rightarrow> StageEvent \<Rightarrow> Outcome" where
  "event_reschedule c ev = Add_Event (target_stage c) ev"

definition event_timeout :: "32 word \<Rightarrow> CompletionCallback \<Rightarrow> StageEvent \<Rightarrow> Outcome result" where
  "event_timeout hops c ev = map_sum id (\<lambda>ev. Timeout_Event (target_stage c) ev (cb_context c)) (saved hops c TIMEOUT_EV ev)"

section \<open>The end of an event\<close>

definition done_async :: "StageEvent \<Rightarrow> Outcome" where
  "done_async ev = (case comp_cb ev of [] \<Rightarrow> Deleted | c # _ \<Rightarrow> event_reschedule c (mark_callback ev))"

definition done_immediate :: "32 word \<Rightarrow> StageEvent \<Rightarrow> Outcome result" where
  "done_immediate hops ev =
     (case comp_cb ev of
        [] \<Rightarrow> Inr Deleted
      | c # cs \<Rightarrow> event_done hops c ((clear_callback ev)\<lparr>comp_cb := cs\<rparr>))"

definition done_timeout :: "32 word \<Rightarrow> StageEvent \<Rightarrow> Outcome result" where
  "done_timeout hops ev =
     (case comp_cb ev of
        [] \<Rightarrow> Inr Deleted
      | c # cs \<Rightarrow> event_timeout hops c ((clear_callback ev)\<lparr>comp_cb := cs\<rparr>))"

text \<open>What a service thread does with the event it has taken from the queue of a stage; stages have no
  time-outs in the build.\<close>

definition run_event :: "32 word \<Rightarrow> bool \<Rightarrow> nat \<Rightarrow> StageEvent \<Rightarrow> Outcome result" where
  "run_event hops eventhist stg ev =
     (if is_callback ev then done_immediate hops ev
      else map_sum id (Handle_Event stg) (if eventhist then save_stage hops stg HANDLE_EV ev else Inr ev))"

section \<open>Deadlines\<close>

text \<open>\<open>None\<close>: the object has been deleted.  The count is an \<^verbatim>\<open>int\<close>.\<close>

record TimeoutInfo =
  deadline :: int
  is_timed_out :: bool
  ref_cnt :: int

type_synonym deadlines = "nat \<Rightarrow> TimeoutInfo option"

definition attach :: "nat \<Rightarrow> deadlines \<Rightarrow> deadlines result" where
  "attach t m = (case m t of None \<Rightarrow> Inl UB | Some i \<Rightarrow> Inr (m(t \<mapsto> i\<lparr>ref_cnt := ref_cnt i + 1\<rparr>)))"

definition detach :: "nat \<Rightarrow> deadlines \<Rightarrow> deadlines result" where
  "detach t m =
     (case m t of
        None \<Rightarrow> Inl UB
      | Some i \<Rightarrow> Inr (if ref_cnt i - 1 = 0 then m(t := None) else m(t \<mapsto> i\<lparr>ref_cnt := ref_cnt i - 1\<rparr>)))"

definition timed_out :: "int \<Rightarrow> nat \<Rightarrow> deadlines \<Rightarrow> (bool \<times> deadlines) result" where
  "timed_out now t m =
     (case m t of
        None \<Rightarrow> Inl UB
      | Some i \<Rightarrow>
          if is_timed_out i then Inr (True, m)
          else Inr (deadline i \<le> now, m(t \<mapsto> i\<lparr>is_timed_out := deadline i \<le> now\<rparr>)))"

definition detach_option :: "nat option \<Rightarrow> deadlines \<Rightarrow> deadlines result" where
  "detach_option t m = (case t of None \<Rightarrow> Inr m | Some t \<Rightarrow> detach t m)"

definition attach_option :: "nat option \<Rightarrow> deadlines \<Rightarrow> deadlines result" where
  "attach_option t m = (case t of None \<Rightarrow> Inr m | Some t \<Rightarrow> attach t m)"

definition set_timeout_info :: "nat option \<Rightarrow> StageEvent \<Rightarrow> deadlines \<Rightarrow> (StageEvent \<times> deadlines) result" where
  "set_timeout_info t ev m =
     (case detach_option (tm_info ev) m of
        Inl c \<Rightarrow> Inl c
      | Inr m \<Rightarrow> map_sum id (\<lambda>m. (ev\<lparr>tm_info := t\<rparr>, m)) (attach_option t m))"

text \<open>With a deadline, for which a new object is made at the address \<open>t\<close>; with another event.\<close>

definition set_timeout_deadline :: "nat \<Rightarrow> int \<Rightarrow> StageEvent \<Rightarrow> deadlines \<Rightarrow> (StageEvent \<times> deadlines) result" where
  "set_timeout_deadline t dl ev m =
     set_timeout_info (Some t) ev (m(t \<mapsto> \<lparr>deadline = dl, is_timed_out = False, ref_cnt = 0\<rparr>))"

definition set_timeout_event :: "StageEvent \<Rightarrow> StageEvent \<Rightarrow> deadlines \<Rightarrow> (StageEvent \<times> deadlines) result" where
  "set_timeout_event other ev m = set_timeout_info (tm_info other) ev m"

definition has_timed_out :: "int \<Rightarrow> StageEvent \<Rightarrow> deadlines \<Rightarrow> (bool \<times> deadlines) result" where
  "has_timed_out now ev m = (case tm_info ev of None \<Rightarrow> Inr (False, m) | Some t \<Rightarrow> timed_out now t m)"

definition StageEvent_destroy :: "StageEvent \<Rightarrow> deadlines \<Rightarrow> deadlines result" where
  "StageEvent_destroy ev m = detach_option (tm_info ev) m"

section \<open>Callbacks run in the reverse order of their pushing\<close>

fun push_all :: "CompletionCallback list \<Rightarrow> StageEvent \<Rightarrow> StageEvent result" where
  "push_all [] ev = Inr ev"
| "push_all (c # cs) ev = (case push_callback c ev of Inl r \<Rightarrow> Inl r | Inr ev \<Rightarrow> push_all cs ev)"

text \<open>A stage whose callback only ends the event again, as most do.\<close>

fun unwind :: "32 word \<Rightarrow> nat \<Rightarrow> StageEvent \<Rightarrow> (nat \<times> nat option) list result" where
  "unwind hops 0 ev = Inl UB"
| "unwind hops (Suc n) ev =
     (case done_immediate hops ev of
        Inr Deleted \<Rightarrow> Inr []
      | Inr (Callback_Event s ev c) \<Rightarrow> map_sum id ((#) (s, c)) (unwind hops n ev)
      | _ \<Rightarrow> Inl UB)"

lemma push_all_stack: "push_all cs ev = Inr (ev\<lparr>comp_cb := rev cs @ comp_cb ev\<rparr>)"
  by (induction cs arbitrary: ev) (simp_all add: push_callback_def cb_push_def)

lemma unwind_stack:
  "\<forall>c \<in> set (comp_cb ev). \<not> ev_hist_flag c \<Longrightarrow> length (comp_cb ev) < n \<Longrightarrow>
   unwind hops n ev = Inr (map (\<lambda>c. (target_stage c, cb_context c)) (comp_cb ev))"
proof (induction n arbitrary: ev)
  case (Suc n)
  show ?case
  proof (cases "comp_cb ev")
    case (Cons c cs)
    then show ?thesis
      using Suc.prems Suc.IH [of "(clear_callback ev)\<lparr>comp_cb := cs\<rparr>"]
      by (simp add: done_immediate_def event_done_def saved_def clear_callback_def)
  qed (simp add: done_immediate_def)
qed simp

section \<open>Deadlines are counted\<close>

text \<open>The events that are alive refer to deadlines that are there, and each is counted once.\<close>

definition count_ok :: "nat option list \<Rightarrow> deadlines \<Rightarrow> bool" where
  "count_ok ts m \<longleftrightarrow>
     (\<forall>t. m t = None \<longrightarrow> count_list ts (Some t) = 0) \<and>
     (\<forall>t i. m t = Some i \<longrightarrow> 0 < count_list ts (Some t) \<and> ref_cnt i = int (count_list ts (Some t)))"

definition counted_deadlines :: "StageEvent list \<Rightarrow> deadlines \<Rightarrow> bool" where
  "counted_deadlines evs m \<longleftrightarrow> count_ok (map tm_info evs) m"

lemma count_list_update:
  "j < length xs \<Longrightarrow>
   int (count_list (xs[j := y]) a) = int (count_list xs a) - (if xs ! j = a then 1 else 0) + (if y = a then 1 else 0)"
proof -
  assume j: "j < length xs"
  have "count_list xs a = count_list (take j xs @ xs ! j # drop (Suc j) xs) a"
    using id_take_nth_drop [OF j] by simp
  moreover have "count_list (xs[j := y]) a = count_list (take j xs @ y # drop (Suc j) xs) a"
    using upd_conv_take_nth_drop [OF j] by simp
  ultimately show ?thesis by simp
qed

lemma count_okD:
  assumes "count_ok ts m" "Some t \<in> set ts"
  obtains i where "m t = Some i" "ref_cnt i = int (count_list ts (Some t))" "count_list ts (Some t) \<noteq> 0"
  using assms by (cases "m t") (auto simp: count_ok_def count_list_0_iff)

text \<open>Taking the deadline of one event away and giving it another.\<close>

lemma detach_count:
  assumes "count_ok ts m" "j < length ts"
  obtains m' where "detach_option (ts ! j) m = Inr m'" "count_ok (ts[j := None]) m'"
    "\<And>t. Some t \<noteq> ts ! j \<Longrightarrow> m' t = m t"
proof (cases "ts ! j")
  case None
  then have "ts[j := None] = ts" by (metis list_update_id)
  then show ?thesis using that [of m] None assms(1) by (simp add: detach_option_def)
next
  case (Some d)
  have mem: "Some d \<in> set ts" using assms(2) Some by (metis nth_mem)
  from count_okD [OF assms(1) mem] obtain i where
    i: "m d = Some i" "ref_cnt i = int (count_list ts (Some d))" "count_list ts (Some d) \<noteq> 0" .
  let ?m = "if ref_cnt i - 1 = 0 then m(d := None) else m(d \<mapsto> i\<lparr>ref_cnt := ref_cnt i - 1\<rparr>)"
  have c: "int (count_list (ts[j := None]) (Some t)) = int (count_list ts (Some t)) - (if t = d then 1 else 0)" for t
    using count_list_update [OF assms(2), of None "Some t"] Some by auto
  have "count_ok (ts[j := None]) ?m"
    unfolding count_ok_def
  proof (intro conjI allI impI)
    fix t assume "?m t = None"
    then have "m t = None \<or> t = d \<and> ref_cnt i = 1" by (auto split: if_splits)
    then show "count_list (ts[j := None]) (Some t) = 0"
      using c [of t] i assms(1) by (cases "t = d") (auto simp: count_ok_def)
  next
    fix t k assume k: "?m t = Some k"
    have "0 < count_list (ts[j := None]) (Some t) \<and> ref_cnt k = int (count_list (ts[j := None]) (Some t))"
    proof (cases "t = d")
      case True
      then show ?thesis using k c [of t] i by (auto split: if_splits)
    next
      case False
      then have "m t = Some k" using k by (simp split: if_splits)
      then show ?thesis using c [of t] False assms(1) by (simp add: count_ok_def)
    qed
    then show "0 < count_list (ts[j := None]) (Some t)" "ref_cnt k = int (count_list (ts[j := None]) (Some t))" by simp_all
  qed
  then show ?thesis using that [of ?m] Some i(1) by (simp add: detach_option_def detach_def split: if_splits)
qed

lemma attach_count:
  assumes "count_ok ts m" "j < length ts" "ts ! j = None" "m t = Some i"
  shows "count_ok (ts[j := Some t]) (m(t \<mapsto> i\<lparr>ref_cnt := ref_cnt i + 1\<rparr>))"
proof -
  have c: "int (count_list (ts[j := Some t]) (Some u)) = int (count_list ts (Some u)) + (if u = t then 1 else 0)" for u
    using count_list_update [OF assms(2), of "Some t" "Some u"] assms(3) by auto
  have "ref_cnt i = int (count_list ts (Some t))" using assms(1,4) by (simp add: count_ok_def)
  moreover have "count_list (ts[j := Some t]) (Some u) = count_list ts (Some u)" if "u \<noteq> t" for u using c [of u] that by simp
  ultimately show ?thesis using assms(1) c [of t] unfolding count_ok_def by auto
qed

text \<open>Events share deadlines safely: as long as the count of each deadline is the number of the live events that
  refer to it, giving an event the deadline of an event with a different one, or none, never uses a deleted one and
  keeps the counts right; but an event that is given the deadline that it alone already has uses it after it was
  freed.\<close>

theorem deadlines_counted:
  assumes "counted_deadlines evs m" "j < length evs" "t = None \<or> t \<in> set (map tm_info evs)"
  shows "(t \<noteq> tm_info (evs ! j) \<longrightarrow>
      (\<exists>ev m'. set_timeout_info t (evs ! j) m = Inr (ev, m') \<and> tm_info ev = t \<and> counted_deadlines (evs[j := ev]) m')) \<and>
    (t = tm_info (evs ! j) \<and> t \<noteq> None \<and> count_list (map tm_info evs) t = 1 \<longrightarrow>
      set_timeout_info t (evs ! j) m = Inl UB)"
proof (intro conjI impI)
  let ?ts = "map tm_info evs"
  have ok: "count_ok ?ts m" and j: "j < length ?ts" using assms by (simp_all add: counted_deadlines_def)
  {
    assume d: "t \<noteq> tm_info (evs ! j)"
    from detach_count [OF ok j] obtain m1 where
      m1: "detach_option (tm_info (evs ! j)) m = Inr m1" "count_ok (?ts[j := None]) m1" "\<And>u. Some u \<noteq> tm_info (evs ! j) \<Longrightarrow> m1 u = m u"
      using assms(2) by (metis nth_map)
    show "\<exists>ev m'. set_timeout_info t (evs ! j) m = Inr (ev, m') \<and> tm_info ev = t \<and> counted_deadlines (evs[j := ev]) m'"
    proof (cases t)
      case None
      then show ?thesis using m1 by (simp add: set_timeout_info_def attach_option_def counted_deadlines_def map_update)
    next
      case (Some u)
      then have "Some u \<in> set ?ts" using assms(3) by simp
      from count_okD [OF ok this] obtain i where "m u = Some i" by blast
      then have u: "m1 u = Some i" using m1(3) [of u] d Some by simp
      from attach_count [OF m1(2) _ _ u, of j] j have "count_ok (?ts[j := Some u]) (m1(u \<mapsto> i\<lparr>ref_cnt := ref_cnt i + 1\<rparr>))" by simp
      then show ?thesis using m1(1) u Some
        by (simp add: set_timeout_info_def attach_option_def attach_def counted_deadlines_def map_update)
    qed
  }
  assume a: "t = tm_info (evs ! j) \<and> t \<noteq> None \<and> count_list ?ts t = 1"
  then obtain u where u: "t = Some u" by auto
  then have "Some u \<in> set ?ts" using assms(3) by simp
  from count_okD [OF ok this] obtain i where i: "m u = Some i" "ref_cnt i = int (count_list ?ts (Some u))" by blast
  have "ref_cnt i = 1" using i(2) a unfolding u by (metis of_nat_1)
  moreover have "tm_info (evs ! j) = Some u" using a u by simp
  ultimately show "set_timeout_info t (evs ! j) m = Inl UB"
    using u i(1) by (simp add: set_timeout_info_def detach_option_def detach_def attach_option_def attach_def)
qed

lemma deadlines_counted_witness:
  "let ev = StageEvent_new; shared = StageEvent_new\<lparr>tm_info := Some 1\<rparr>; i = \<lparr>deadline = 9, is_timed_out = False, ref_cnt = 1\<rparr> in
   \<exists>m'. set_timeout_info (Some 1) ev [1 \<mapsto> i] = Inr (shared, m') \<and> m' 1 = Some (i\<lparr>ref_cnt := 2\<rparr>) \<and>
     set_timeout_info (Some 1) shared [1 \<mapsto> i] = Inl UB"
proof -
  let ?ev = StageEvent_new and ?sh = "StageEvent_new\<lparr>tm_info := Some 1\<rparr>"
  let ?m = "[1 \<mapsto> \<lparr>deadline = 9, is_timed_out = False, ref_cnt = 1\<rparr>] :: deadlines"
  have c: "counted_deadlines [?ev, ?sh] ?m" by (simp add: counted_deadlines_def count_ok_def StageEvent_new_def)
  have t: "Some 1 = None \<or> Some (1 :: nat) \<in> set (map tm_info [?ev, ?sh])" by simp
  from deadlines_counted [OF c _ t, of 0] obtain ev m' where
    r: "set_timeout_info (Some 1) ?ev ?m = Inr (ev, m')" "tm_info ev = Some 1" "counted_deadlines [ev, ?sh] m'"
    by (auto simp: StageEvent_new_def)
  have "set_timeout_info (Some 1) ?sh ?m = Inl UB"
    using deadlines_counted [OF c _ t, of 1] by (simp add: StageEvent_new_def)
  moreover have "ev = ?sh" "m' 1 = Some \<lparr>deadline = 9, is_timed_out = False, ref_cnt = 2\<rparr>"
    using r(1) by (auto simp: set_timeout_info_def detach_option_def attach_option_def attach_def StageEvent_new_def)
  ultimately show ?thesis using r(1) by (auto simp: Let_def)
qed

text \<open>The callbacks of an event are called in the reverse order of their pushing, each once and with the
  context it was made with, after which the event is deleted; a thread that takes an event from a queue
  calls the callback that has put it there.\<close>

theorem callbacks_unwind:
  assumes "\<forall>c \<in> set cs. \<not> ev_hist_flag c" "comp_cb ev = []" "length cs < n"
  shows "\<exists>ev'. push_all cs ev = Inr ev' \<and>
    unwind hops n ev' = Inr (map (\<lambda>c. (target_stage c, cb_context c)) (rev cs)) \<and>
    (cs = [] \<longrightarrow> done_async ev' = Deleted) \<and>
    (cs \<noteq> [] \<longrightarrow> (\<exists>ev2. done_async ev' = Add_Event (target_stage (last cs)) ev2 \<and>
       run_event hops hist (target_stage (last cs)) ev2 = done_immediate hops ev'))"
proof -
  let ?ev = "ev\<lparr>comp_cb := rev cs\<rparr>"
  have p: "push_all cs ev = Inr ?ev" using assms(2) by (simp add: push_all_stack)
  have u: "unwind hops n ?ev = Inr (map (\<lambda>c. (target_stage c, cb_context c)) (rev cs))"
    using unwind_stack [of ?ev n hops] assms(1,3) by simp
  have "done_async ?ev = Add_Event (target_stage (last cs)) (mark_callback ?ev) \<and>
      run_event hops hist (target_stage (last cs)) (mark_callback ?ev) = done_immediate hops ?ev" if "cs \<noteq> []"
    using that by (cases cs rule: rev_cases)
      (simp_all add: done_async_def event_reschedule_def run_event_def is_callback_def mark_callback_def
        done_immediate_def clear_callback_def)
  then show ?thesis using p u by (auto simp: done_async_def)
qed

lemma callbacks_unwind_witness:
  "let cs = [\<lparr>target_stage = 1, cb_context = None, ev_hist_flag = False\<rparr>, \<lparr>target_stage = 2, cb_context = Some 7, ev_hist_flag = False\<rparr>] in
   \<exists>ev'. push_all cs StageEvent_new = Inr ev' \<and> unwind 0 3 ev' = Inr [(2, Some 7), (1, None)]"
  using callbacks_unwind [of "[\<lparr>target_stage = 1, cb_context = None, ev_hist_flag = False\<rparr>,
    \<lparr>target_stage = 2, cb_context = Some 7, ev_hist_flag = False\<rparr>]" StageEvent_new 3 0 False]
  by (auto simp: StageEvent_new_def)

end
