(* ===== verification/Event_Chain.thy ===== *)
theory Event_Chain
  imports Stage_Event
begin

text \<open>
  The way of a request through the stages of \<^verbatim>\<open>src/src/observer\<close>: \<^verbatim>\<open>session_stage.cpp\<close>,
  \<^verbatim>\<open>resolve_stage.cpp\<close>, \<^verbatim>\<open>query_cache_stage.cpp\<close>, \<^verbatim>\<open>plan_cache_stage.cpp\<close>, \<^verbatim>\<open>parse_stage.cpp\<close>,
  \<^verbatim>\<open>optimize_stage.cpp\<close>, \<^verbatim>\<open>execute_stage.cpp\<close>, \<^verbatim>\<open>default_storage_stage.cpp\<close> and
  \<^verbatim>\<open>mem_storage_stage.cpp\<close>: which events they make, which callbacks they push, and who ends which event.
  What the statement computes is modelled elsewhere; here only how the parsing, the check and the kind of the
  statement turn out.  All calls are synchronous, so the calls still to make form a stack.
\<close>

section \<open>Events and stages\<close>

datatype EventKind = Session_Event | Sql_Event nat | Plan_Event nat | Storage_Event nat

definition SESSION :: nat where "SESSION = 0"
definition RESOLVE :: nat where "RESOLVE = 1"
definition QUERY_CACHE :: nat where "QUERY_CACHE = 2"
definition PLAN_CACHE :: nat where "PLAN_CACHE = 3"
definition PARSE :: nat where "PARSE = 4"
definition OPTIMIZE :: nat where "OPTIMIZE = 5"
definition EXECUTE :: nat where "EXECUTE = 6"
definition STORAGE :: nat where "STORAGE = 7"
definition MEM_STORAGE :: nat where "MEM_STORAGE = 8"

lemmas stage_names = SESSION_def RESOLVE_def QUERY_CACHE_def PLAN_CACHE_def PARSE_def OPTIMIZE_def EXECUTE_def
  STORAGE_def MEM_STORAGE_def

text \<open>The events that are alive, the answers that were sent, and the callbacks that were called.\<close>

record Chain =
  ev_heap :: "nat \<Rightarrow> (EventKind \<times> StageEvent) option"
  ev_next :: nat
  sent :: "nat list"
  called :: "(nat \<times> nat) list"

record Request =
  blank :: bool
  parsed :: bool
  checked :: bool
  for_storage :: bool

definition new_event :: "EventKind \<Rightarrow> Chain \<Rightarrow> nat \<times> Chain" where
  "new_event k st = (ev_next st, st\<lparr>ev_heap := (ev_heap st)(ev_next st \<mapsto> (k, StageEvent_new)), ev_next := ev_next st + 1\<rparr>)"

definition on_event :: "nat \<Rightarrow> (EventKind \<Rightarrow> StageEvent \<Rightarrow> 'a result) \<Rightarrow> Chain \<Rightarrow> 'a result" where
  "on_event e f st = (case ev_heap st e of None \<Rightarrow> Inl UB | Some (k, ev) \<Rightarrow> f k ev)"

text \<open>\<^verbatim>\<open>new CompletionCallback(this, nullptr)\<close> and \<^verbatim>\<open>push_callback\<close>; event histories are off.\<close>

definition push_stage_callback :: "nat \<Rightarrow> nat \<Rightarrow> Chain \<Rightarrow> Chain result" where
  "push_stage_callback stg e st =
     on_event e (\<lambda>k ev. map_sum id (\<lambda>ev. st\<lparr>ev_heap := (ev_heap st)(e \<mapsto> (k, ev))\<rparr>)
       (push_callback \<lparr>target_stage = stg, cb_context = None, ev_hist_flag = False\<rparr> ev)) st"

section \<open>The calls\<close>

datatype Call = Handle nat nat | Callback nat nat | Done nat

definition done_call :: "nat \<Rightarrow> Chain \<Rightarrow> (Call list \<times> Chain) result" where
  "done_call e st =
     on_event e (\<lambda>k ev.
       case done_immediate 0 ev of
         Inl c \<Rightarrow> Inl c
       | Inr Deleted \<Rightarrow> Inr ([], st\<lparr>ev_heap := (ev_heap st)(e := None)\<rparr>)
       | Inr (Callback_Event s ev1 c) \<Rightarrow>
           Inr ([Callback s e], st\<lparr>ev_heap := (ev_heap st)(e \<mapsto> (k, ev1)), called := called st @ [(s, e)]\<rparr>)
       | Inr _ \<Rightarrow> Inl UB) st"

definition session_handle_event :: "Request \<Rightarrow> nat \<Rightarrow> Chain \<Rightarrow> (Call list \<times> Chain) result" where
  "session_handle_event r e st =
     (if blank r then Inr ([Done e], st)
      else case push_stage_callback SESSION e st of
             Inl c \<Rightarrow> Inl c
           | Inr st \<Rightarrow> let (n, st) = new_event (Sql_Event e) st in Inr ([Handle RESOLVE n], st))"

definition session_callback_event :: "nat \<Rightarrow> Chain \<Rightarrow> (Call list \<times> Chain) result" where
  "session_callback_event e st =
     on_event e (\<lambda>k ev. Inr ([], if k = Session_Event then st\<lparr>sent := sent st @ [e]\<rparr> else st)) st"

definition resolve_handle_event :: "nat \<Rightarrow> Chain \<Rightarrow> (Call list \<times> Chain) result" where
  "resolve_handle_event e st = Inr ([Handle QUERY_CACHE e], st)"

definition query_cache_handle_event :: "nat \<Rightarrow> Chain \<Rightarrow> (Call list \<times> Chain) result" where
  "query_cache_handle_event e st = Inr ([Handle PLAN_CACHE e], st)"

definition plan_cache_handle_event :: "nat \<Rightarrow> Chain \<Rightarrow> (Call list \<times> Chain) result" where
  "plan_cache_handle_event e st = Inr ([Handle PARSE e], st)"

definition optimize_handle_event :: "nat \<Rightarrow> Chain \<Rightarrow> (Call list \<times> Chain) result" where
  "optimize_handle_event e st = Inr ([Handle EXECUTE e], st)"

definition parse_handle_event :: "Request \<Rightarrow> nat \<Rightarrow> Chain \<Rightarrow> (Call list \<times> Chain) result" where
  "parse_handle_event r e st =
     (if \<not> parsed r then Inr ([Callback PARSE e, Done e], st)
      else let (n, st) = new_event (Plan_Event e) st in
           map_sum id (\<lambda>st. ([Handle OPTIMIZE n], st)) (push_stage_callback PARSE e st))"

definition parse_callback_event :: "nat \<Rightarrow> Chain \<Rightarrow> (Call list \<times> Chain) result" where
  "parse_callback_event e st = on_event e (\<lambda>k ev. case k of Sql_Event s \<Rightarrow> Inr ([Done s], st) | _ \<Rightarrow> Inl UB) st"

definition execute_handle_event :: "Request \<Rightarrow> nat \<Rightarrow> Chain \<Rightarrow> (Call list \<times> Chain) result" where
  "execute_handle_event r e st =
     (case push_stage_callback EXECUTE e st of
        Inl c \<Rightarrow> Inl c
      | Inr st \<Rightarrow>
          if checked r \<and> for_storage r then let (n, st) = new_event (Storage_Event e) st in Inr ([Handle STORAGE n], st)
          else Inr ([Done e], st))"

definition execute_callback_event :: "nat \<Rightarrow> Chain \<Rightarrow> (Call list \<times> Chain) result" where
  "execute_callback_event e st = on_event e (\<lambda>k ev. case k of Plan_Event s \<Rightarrow> Inr ([Done s], st) | _ \<Rightarrow> Inl UB) st"

definition storage_handle_event :: "nat \<Rightarrow> Chain \<Rightarrow> (Call list \<times> Chain) result" where
  "storage_handle_event e st = map_sum id (\<lambda>st. ([Done e], st)) (push_stage_callback STORAGE e st)"

definition storage_callback_event :: "nat \<Rightarrow> Chain \<Rightarrow> (Call list \<times> Chain) result" where
  "storage_callback_event e st = on_event e (\<lambda>k ev. case k of Storage_Event x \<Rightarrow> Inr ([Done x], st) | _ \<Rightarrow> Inl UB) st"

definition mem_storage_handle_event :: "nat \<Rightarrow> Chain \<Rightarrow> (Call list \<times> Chain) result" where
  "mem_storage_handle_event e st = Inr ([Done e], st)"

fun make_call :: "Request \<Rightarrow> Call \<Rightarrow> Chain \<Rightarrow> (Call list \<times> Chain) result" where
  "make_call r (Done e) st = done_call e st"
| "make_call r (Handle s e) st =
     (if s = SESSION then session_handle_event r e st
      else if s = RESOLVE then resolve_handle_event e st
      else if s = QUERY_CACHE then query_cache_handle_event e st
      else if s = PLAN_CACHE then plan_cache_handle_event e st
      else if s = PARSE then parse_handle_event r e st
      else if s = OPTIMIZE then optimize_handle_event e st
      else if s = EXECUTE then execute_handle_event r e st
      else if s = STORAGE then storage_handle_event e st
      else mem_storage_handle_event e st)"
| "make_call r (Callback s e) st =
     (if s = SESSION then session_callback_event e st
      else if s = PARSE then parse_callback_event e st
      else if s = EXECUTE then execute_callback_event e st
      else if s = STORAGE then storage_callback_event e st
      else Inr ([], st))"

fun make_calls :: "nat \<Rightarrow> Request \<Rightarrow> Call list \<Rightarrow> Chain \<Rightarrow> Chain result" where
  "make_calls n r [] st = Inr st"
| "make_calls 0 r (c # cs) st = Inl UB"
| "make_calls (Suc n) r (c # cs) st =
     (case make_call r c st of Inl x \<Rightarrow> Inl x | Inr (ds, st) \<Rightarrow> make_calls n r (ds @ cs) st)"

section \<open>One answer for one request\<close>

definition chain_ok :: "Chain \<Rightarrow> bool" where
  "chain_ok st \<longleftrightarrow> (\<forall>i \<ge> ev_next st. ev_heap st i = None)"

text \<open>The callbacks of a request, in the order in which they are called: \<open>n\<close> is the address of the first event
  that it makes.\<close>

definition expected_callbacks :: "Request \<Rightarrow> nat \<Rightarrow> nat \<Rightarrow> (nat \<times> nat) list" where
  "expected_callbacks r e n =
     (if blank r then []
      else if \<not> parsed r then [(SESSION, e)]
      else (if checked r \<and> for_storage r then [(STORAGE, n + 2)] else []) @ [(EXECUTE, n + 1), (PARSE, n), (SESSION, e)])"

text \<open>The events that are still there afterwards.\<close>

definition leaked :: "Request \<Rightarrow> nat \<Rightarrow> nat \<Rightarrow> nat list" where
  "leaked r e n =
     (if blank r then []
      else if \<not> parsed r then [e]
      else if checked r \<and> for_storage r then [e, n, n + 1, n + 2] else [e, n, n + 1])"

lemmas chain_defs = make_calls.simps make_call.simps done_call_def session_handle_event_def session_callback_event_def
  resolve_handle_event_def query_cache_handle_event_def plan_cache_handle_event_def optimize_handle_event_def
  parse_handle_event_def parse_callback_event_def execute_handle_event_def execute_callback_event_def
  storage_handle_event_def storage_callback_event_def on_event_def new_event_def push_stage_callback_def
  push_callback_def cb_push_def done_immediate_def event_done_def saved_def clear_callback_def StageEvent_new_def Let_def

text \<open>C40: however a request turns out, its calls end after fewer than twenty; one answer is sent for it, none for a blank
  one; the callbacks that its stages have pushed are called once each, the last stage first; and of the events that it
  needs only a blank request's is deleted, as well as the second event of a request that does not parse: all others stay
  allocated for ever.\<close>

theorem one_answer:
  assumes "chain_ok st" "ev_heap st e = Some (Session_Event, StageEvent_new)"
  shows "\<exists>st'. make_calls 20 r [Handle SESSION e] st = Inr st' \<and>
    sent st' = sent st @ (if blank r then [] else [e]) \<and>
    called st' = called st @ expected_callbacks r e (ev_next st) \<and> chain_ok st' \<and>
    (\<forall>i. ev_heap st' i \<noteq> None \<longleftrightarrow> (i \<noteq> e \<and> ev_heap st i \<noteq> None) \<or> i \<in> set (leaked r e (ev_next st)))"
proof -
  have lt: "e < ev_next st" using assms unfolding chain_ok_def by (metis leI not_None_eq option.distinct(1))
  have none: "ev_heap st (ev_next st) = None" "ev_heap st (Suc (ev_next st)) = None" "ev_heap st (Suc (Suc (ev_next st))) = None"
    using assms(1) by (simp_all add: chain_ok_def)
  have ne: "e \<noteq> ev_next st" "e \<noteq> Suc (ev_next st)" "e \<noteq> Suc (Suc (ev_next st))" using lt by simp_all
  note facts = assms(2) [unfolded StageEvent_new_def] lt none ne ne [symmetric]
  consider "blank r" | "\<not> blank r" "\<not> parsed r" | "\<not> blank r" "parsed r" "checked r" "for_storage r"
    | "\<not> blank r" "parsed r" "\<not> (checked r \<and> for_storage r)" by blast
  then show ?thesis
  proof cases
    case 1
    then show ?thesis using facts assms(1)
      by (simp add: numeral_eq_Suc chain_defs stage_names expected_callbacks_def leaked_def chain_ok_def)
  next
    case 2
    then show ?thesis using facts assms(1)
      by (simp add: numeral_eq_Suc chain_defs stage_names expected_callbacks_def leaked_def chain_ok_def)
  next
    case 3
    then show ?thesis using facts assms(1)
      by (simp add: numeral_eq_Suc chain_defs stage_names expected_callbacks_def leaked_def chain_ok_def)
  next
    case 4
    then show ?thesis using facts assms(1)
      by (simp add: numeral_eq_Suc chain_defs stage_names expected_callbacks_def leaked_def chain_ok_def) auto
  qed
qed


definition demo_chain :: Chain where
  "demo_chain = \<lparr>ev_heap = [0 \<mapsto> (Session_Event, StageEvent_new)], ev_next = 1, sent = [], called = []\<rparr>"

lemma one_answer_witness:
  "\<exists>st'. make_calls 20 \<lparr>blank = False, parsed = True, checked = True, for_storage = True\<rparr> [Handle SESSION 0] demo_chain = Inr st' \<and>
     sent st' = [0] \<and> called st' = [(STORAGE, 3), (EXECUTE, 2), (PARSE, 1), (SESSION, 0)] \<and> ev_heap st' 3 \<noteq> None"
proof -
  have "chain_ok demo_chain" "ev_heap demo_chain 0 = Some (Session_Event, StageEvent_new)"
    by (auto simp: chain_ok_def demo_chain_def)
  from one_answer [OF this, of "\<lparr>blank = False, parsed = True, checked = True, for_storage = True\<rparr>"]
  show ?thesis by (auto simp: demo_chain_def expected_callbacks_def leaked_def)
qed

end
