(* ===== verification/Date_Time.thy ===== *)
theory Date_Time
  imports Load_Data "HOL-Library.Signed_Division"
begin

text \<open>
  \<^verbatim>\<open>src/deps/common/time/datetime.h\<close> and \<^verbatim>\<open>datetime.cpp\<close>: dates as Julian day numbers with a time of
  day in milliseconds.  The division of C++ rounds towards zero.  The years are far from where an
  \<^verbatim>\<open>int\<close> overflows, except in \<open>to_time_t\<close>.
\<close>

section \<open>Calendar and day numbers\<close>

record DateTime =
  m_date :: int
  m_time :: int

definition MILLIS_PER_DAY :: int where "MILLIS_PER_DAY = 86400000"
definition JULIAN_19700101 :: int where "JULIAN_19700101 = 2440588"

definition julian_date :: "int \<Rightarrow> int \<Rightarrow> int \<Rightarrow> int" where
  "julian_date year month day =
     (let a = (14 - month) sdiv 12; y = year + 4800 - a; m = month + 12 * a - 3
      in day + (153 * m + 2) sdiv 5 + y * 365 + y sdiv 4 - y sdiv 100 + y sdiv 400 - 32045)"

definition get_ymd :: "int \<Rightarrow> int \<times> int \<times> int" where
  "get_ymd jday =
     (let a = jday + 32044; b = (4 * a + 3) sdiv 146097; c = a - (b * 146097) sdiv 4;
          d = (4 * c + 3) sdiv 1461; e = c - (1461 * d) sdiv 4; m = (5 * e + 2) sdiv 153
      in (b * 100 + d - 4800 + m sdiv 10, m + 3 - 12 * (m sdiv 10), e - (153 * m + 2) sdiv 5 + 1))"

definition make_hms :: "int \<Rightarrow> int \<Rightarrow> int \<Rightarrow> int \<Rightarrow> int" where
  "make_hms hour minute second millis = 1000 * (3600 * hour + 60 * minute + second) + millis"

definition get_hms :: "int \<Rightarrow> int \<times> int \<times> int \<times> int" where
  "get_hms t = (let ticks = t sdiv 1000 in (ticks sdiv 3600, (ticks sdiv 60) smod 60, ticks smod 60, t smod 1000))"

definition DateTime_of :: "int \<Rightarrow> int \<Rightarrow> int \<Rightarrow> int \<Rightarrow> int \<Rightarrow> int \<Rightarrow> int \<Rightarrow> DateTime" where
  "DateTime_of year month day hour minute second millis =
     \<lparr>m_date = julian_date year month day, m_time = make_hms hour minute second millis\<rparr>"

text \<open>The product is computed in \<^verbatim>\<open>int\<close>.\<close>

definition to_time_t :: "DateTime \<Rightarrow> int result" where
  "to_time_t d =
     (let p = 86400 * (m_date d - JULIAN_19700101); s = p + m_time d sdiv 1000
      in if int32 p \<and> int32 s then Inr s else Inl UB)"

text \<open>\<^verbatim>\<open>operator+=\<close>, and \<^verbatim>\<open>operator-\<close>, \<^verbatim>\<open>operator<\<close>.\<close>

definition add_seconds :: "int \<Rightarrow> DateTime \<Rightarrow> DateTime" where
  "add_seconds seconds t =
     (let d = m_date t + seconds sdiv 86400; ms = m_time t + (seconds smod 86400) * 1000
      in if ms > MILLIS_PER_DAY then \<lparr>m_date = d + 1, m_time = ms smod MILLIS_PER_DAY\<rparr>
         else if ms < 0 then \<lparr>m_date = d - 1, m_time = ms + MILLIS_PER_DAY\<rparr>
         else \<lparr>m_date = d, m_time = ms\<rparr>)"

definition date_diff :: "DateTime \<Rightarrow> DateTime \<Rightarrow> int" where
  "date_diff l r = 86400 * (m_date l - m_date r) + m_time l sdiv 1000 - m_time r sdiv 1000"

definition date_less :: "DateTime \<Rightarrow> DateTime \<Rightarrow> bool" where
  "date_less l r \<longleftrightarrow>
     (if m_date l < m_date r then True else if m_date l > m_date r then False else m_time l < m_time r)"

definition max_day_in_month_for :: "int \<Rightarrow> int \<Rightarrow> int" where
  "max_day_in_month_for yr month =
     (let m = (month - 1) smod 12 + 1; y = yr + (m - 1) sdiv 12 in
      if m \<in> {1, 3, 5, 7, 8, 10, 12} then 31
      else if m \<in> {4, 6, 9, 11} then 30
      else if m = 2 \<and> (y smod 400 = 0 \<or> (y smod 100 \<noteq> 0 \<and> y smod 4 = 0)) then 29
      else 28)"

section \<open>Durations\<close>

record Duration =
  du_year :: int
  du_mon :: int
  du_mday :: int
  du_hour :: int
  du_min :: int
  du_sec :: int

definition no_duration :: Duration where
  "no_duration = \<lparr>du_year = 0, du_mon = 0, du_mday = 0, du_hour = 0, du_min = 0, du_sec = 0\<rparr>"

text \<open>\<^verbatim>\<open>find\<close> from a position, and \<^verbatim>\<open>%d\<close> with a width.\<close>

definition find_from :: "byte \<Rightarrow> nat \<Rightarrow> byte list \<Rightarrow> nat option" where
  "find_from c i s = find (\<lambda>k. s ! k = c) [i..<length s]"

definition scan_int :: "nat \<Rightarrow> byte list \<Rightarrow> (int \<times> byte list) option" where
  "scan_int w s =
     (let t = dropWhile is_space s; (neg, u) = unsign (take w t); ds = takeWhile is_digit u;
          n = (if neg then - int (digits_val ds) else int (digits_val ds))
      in if ds = [] then None else Some (n, drop (length (take w t) - length u + length ds) t))"

definition scanned :: "byte list \<Rightarrow> int" where
  "scanned s = (case scan_int (length s) s of None \<Rightarrow> 0 | Some (n, _) \<Rightarrow> n)"

text \<open>One component: the number before the letter \<open>c\<close>, if there is one that is \<open>ok\<close>.\<close>

definition duration_part :: "byte list \<Rightarrow> byte \<Rightarrow> (nat \<Rightarrow> bool) \<Rightarrow> nat \<Rightarrow> int \<times> nat" where
  "duration_part s c ok i =
     (case find_from c i s of
        None \<Rightarrow> (0, i)
      | Some k \<Rightarrow>
          if \<not> ok k then (0, i)
          else let neg = (i < length s \<and> s ! i = dash); j = (if neg then i + 1 else i); n = scanned (take k (drop j s))
               in ((if neg then - n else n), k + 1))"

definition parse_duration :: "byte list \<Rightarrow> Duration" where
  "parse_duration s =
     (if s = [] \<or> hd s \<noteq> 80 then no_duration
      else
        let t = find_from 84 0 s;
            (y, i) = duration_part s 89 (\<lambda>_. True) 1;
            (mo, i) = duration_part s 77 (\<lambda>k. case t of None \<Rightarrow> True | Some t \<Rightarrow> k < t) i;
            (d, _) = duration_part s 68 (\<lambda>_. True) i
        in case t of
             None \<Rightarrow> no_duration\<lparr>du_year := y, du_mon := mo, du_mday := d\<rparr>
           | Some t \<Rightarrow>
               let (h, i) = duration_part s 72 (\<lambda>_. True) (t + 1);
                   (mi, i) = duration_part s 77 (\<lambda>_. True) i;
                   (sec, _) = duration_part s 83 (\<lambda>_. True) i
               in \<lparr>du_year = y, du_mon = mo, du_mday = d, du_hour = h, du_min = mi, du_sec = sec\<rparr>)"

lemma max_day_bounds: "28 \<le> max_day_in_month_for y m \<and> max_day_in_month_for y m \<le> 31"
  by (simp add: max_day_in_month_for_def Let_def)

text \<open>The loop over the days.\<close>

function carry_days :: "int \<Rightarrow> int \<Rightarrow> int \<Rightarrow> int \<times> int \<times> int" where
  "carry_days y m d =
     (if d < 1 then
        (let tmp = m - 1 in carry_days (y + (tmp - 1) sdiv 12) ((tmp - 1) smod 12 + 1) (d + max_day_in_month_for y (m - 1)))
      else if d > max_day_in_month_for y m then
        (let tmp = m + 1 in carry_days (y + (tmp - 1) sdiv 12) ((tmp - 1) smod 12 + 1) (d - max_day_in_month_for y m))
      else (y, m, d))"
  by pat_completeness auto
termination
proof (relation "measure (\<lambda>(y, m, d). if d < 1 then nat (1 - d) + 100 else nat d)", simp)
  fix y m d :: int and tmp
  assume "d < 1" "tmp = m - 1"
  then show "((y + (tmp - 1) sdiv 12, (tmp - 1) smod 12 + 1, d + max_day_in_month_for y (m - 1)), y, m, d)
    \<in> measure (\<lambda>(y, m, d). if d < 1 then nat (1 - d) + 100 else nat d)"
    using max_day_bounds [of y "m - 1"] by auto
next
  fix y m d :: int and tmp
  assume "\<not> d < 1" "d > max_day_in_month_for y m"
  then show "((y + (tmp - 1) sdiv 12, (tmp - 1) smod 12 + 1, d - max_day_in_month_for y m), y, m, d)
    \<in> measure (\<lambda>(y, m, d). if d < 1 then nat (1 - d) + 100 else nat d)"
    using max_day_bounds [of y m] by auto
qed

declare carry_days.simps [simp del]

definition add_duration_date_time :: "byte list \<Rightarrow> DateTime \<Rightarrow> DateTime" where
  "add_duration_date_time dur t =
     (let (y, mo, d) = get_ymd (m_date t); (h, mi, s, _) = get_hms (m_time t); u = parse_duration dur;
          tmp = mo + du_mon u; e_month = (tmp - 1) smod 12 + 1; e_year = y + du_year u + (tmp - 1) sdiv 12;
          sec = s + du_sec u; mn = mi + du_min u + sec sdiv 60; hr = h + du_hour u + mn sdiv 60;
          day = (if d > max_day_in_month_for e_year e_month then max_day_in_month_for e_year e_month else if d < 1 then 1 else d);
          (y, mo, d) = carry_days e_year e_month (day + du_mday u + hr sdiv 24)
      in DateTime_of y mo d (hr smod 24) (mn smod 60) (sec smod 60) 0)"

definition add_duration :: "byte list \<Rightarrow> DateTime \<Rightarrow> int result" where
  "add_duration dur t = to_time_t (add_duration_date_time dur t)"

section \<open>XML date and time\<close>

fun scan_fields :: "(nat \<times> byte) list \<Rightarrow> byte list \<Rightarrow> int list" where
  "scan_fields [] s = []"
| "scan_fields ((w, c) # fs) s =
     (case scan_int w s of
        None \<Rightarrow> []
      | Some (n, r) \<Rightarrow> n # (case r of x # r \<Rightarrow> if x = c then scan_fields fs r else [] | [] \<Rightarrow> []))"

definition xml_fields :: "byte list \<Rightarrow> int list" where
  "xml_fields = scan_fields [(4, 45), (2, 45), (2, 84), (2, 58), (2, 58), (2, 90)]"

text \<open>A field that the text does not give is left uninitialised.\<close>

definition DateTime_of_xml :: "byte list \<Rightarrow> DateTime result" where
  "DateTime_of_xml s =
     (case xml_fields s of
        [y, mo, d, h, mi, sec] \<Rightarrow> Inr (DateTime_of y mo d h mi sec 0)
      | _ \<Rightarrow> Inl UB)"

definition str_to_time_t :: "byte list \<Rightarrow> int result" where
  "str_to_time_t s = (case DateTime_of_xml s of Inl c \<Rightarrow> Inl c | Inr d \<Rightarrow> to_time_t d)"

text \<open>\<^verbatim>\<open>setw(10)\<close> pads with spaces on the left.\<close>

definition time_t_to_str :: "int \<Rightarrow> byte list" where
  "time_t_to_str n = replicate (10 - length (dec_int n)) 32 @ dec_int n"

definition str_to_time_t_str :: "byte list \<Rightarrow> byte list result" where
  "str_to_time_t_str s = map_sum id time_t_to_str (str_to_time_t s)"

definition pad0 :: "int \<Rightarrow> byte list" where
  "pad0 n = (if n \<le> 9 then [48] else []) @ dec_int n"

definition to_xml_date_time :: "DateTime \<Rightarrow> byte list" where
  "to_xml_date_time t =
     (let (y, mo, d) = get_ymd (m_date t); (h, mi, s, _) = get_hms (m_time t)
      in dec_int y @ [45] @ pad0 mo @ [45] @ pad0 d @ [84] @ pad0 h @ [58] @ pad0 mi @ [58] @ pad0 s @ [90])"

definition xml_pattern :: "byte list" where
  "xml_pattern = [48, 48, 48, 48, 45, 48, 48, 45, 48, 48, 84, 48, 48, 58, 48, 48, 58, 48, 48, 90]"

definition is_valid_xml_datetime :: "byte list \<Rightarrow> bool" where
  "is_valid_xml_datetime s \<longleftrightarrow>
     length s = 20 \<and> list_all2 (\<lambda>f c. if f = 48 then is_digit c else f = c) xml_pattern s \<and>
     (case xml_fields s of
        [y, mo, d, h, mi, sec] \<Rightarrow>
          \<not> (mo > 12 \<or> mo \<le> 0) \<and> \<not> (d > 31 \<or> d \<le> 0) \<and> \<not> (h > 24 \<or> h < 0) \<and> \<not> (mi > 60 \<or> mi < 0) \<and> \<not> (sec > 60 \<or> sec < 0)
      | _ \<Rightarrow> False)"

text \<open>\<^verbatim>\<open>Now::unique\<close>: the number behind the string, from the clock and the last one.\<close>

definition unique :: "64 word \<Rightarrow> 64 word \<Rightarrow> 64 word \<Rightarrow> 64 word" where
  "unique sec usec lst = (let temp = push_bit 20 sec + usec in if temp > lst then temp else lst + 1)"

end
