(* ===== verification/Date_Spec.thy ===== *)
theory Date_Spec
  imports Date_Time
begin

text \<open>
  Day numbers and dates are the same calendar; what adding seconds and durations does; the XML form.
\<close>

section \<open>Day numbers\<close>

lemma sdiv_nonneg: "0 \<le> a \<Longrightarrow> 0 < b \<Longrightarrow> a sdiv b = a div b" for a b :: int
  by (simp add: signed_divide_int_def sgn_if)

lemma smod_nonneg: "0 \<le> a \<Longrightarrow> 0 < b \<Longrightarrow> a smod b = a mod b" for a b :: int
  by (simp add: signed_modulo_int_def sgn_if)

definition leap :: "int \<Rightarrow> bool" where
  "leap y \<longleftrightarrow> y mod 400 = 0 \<or> (y mod 100 \<noteq> 0 \<and> y mod 4 = 0)"

text \<open>The days of the years before \<open>y\<close>, counted from March.\<close>

definition days_before :: "int \<Rightarrow> int" where
  "days_before y = 365 * y + y div 4 - y div 100 + y div 400"

lemma div_eqI:
  assumes "0 < k" "k * q \<le> n" "n < k * q + k"
  shows "n div k = (q :: int)"
  by (rule int_div_pos_eq [of n k q "n - k * q"]) (use assms in simp_all)

lemma days_before_century:
  assumes "0 \<le> d" "d < 100"
  shows "days_before (100 * b + d) = 36524 * b + b div 4 + 365 * d + d div 4"
proof -
  have "(100 * b + d) div 4 = (d + 4 * (25 * b)) div 4" by (simp add: add.commute)
  then have "(100 * b + d) div 4 = 25 * b + d div 4" by simp
  moreover have "(100 * b + d) div 100 = b" using assms by (intro div_eqI) simp_all
  moreover have "(100 * b + d) div 400 = b div 4"
  proof (rule div_eqI)
    have "b = 4 * (b div 4) + b mod 4" "0 \<le> b mod 4" "b mod 4 \<le> 3" by simp_all
    then show "400 * (b div 4) \<le> 100 * b + d" "100 * b + d < 400 * (b div 4) + 400" using assms by linarith+
  qed simp
  ultimately show ?thesis by (simp add: days_before_def)
qed

lemma leap_century:
  assumes "0 \<le> d" "d < 100"
  shows "leap (100 * b + d + 1) \<Longrightarrow> d mod 4 = 3 \<and> (d = 99 \<longrightarrow> b mod 4 = 3)"
proof -
  assume l: "leap (100 * b + d + 1)"
  then have "4 dvd 100 * b + d + 1" unfolding leap_def by (auto simp flip: dvd_eq_mod_eq_0 intro: dvd_trans [of 4 400])
  then have "4 dvd 4 * (25 * b) + (d + 1)" by (simp add: algebra_simps)
  then have "4 dvd d + 1" unfolding dvd_add_right_iff [OF dvd_triv_left] .
  then have "d mod 4 = 3" by presburger
  moreover have "b mod 4 = 3" if "d = 99"
  proof -
    have "(100 * (b + 1)) mod 100 = 0" by simp
    then have "(100 * (b + 1)) mod (100 * 4) = 0" using l that by (simp add: leap_def algebra_simps)
    then have "(b + 1) mod 4 = 0" unfolding mod_mult_mult1 by simp
    then show ?thesis by presburger
  qed
  ultimately show ?thesis by blast
qed

lemma get_ymd_days:
  assumes "0 \<le> y" "0 \<le> k" "k \<le> 365" "k = 365 \<longrightarrow> leap (y + 1)"
  shows "get_ymd (days_before y + k - 32044) =
    (let m = (5 * k + 2) div 153 in (y - 4800 + m div 10, m + 3 - 12 * (m div 10), k - (153 * m + 2) div 5 + 1))"
proof -
  define b d where "b = y div 100" and "d = y mod 100"
  have y: "y = 100 * b + d" "0 \<le> d" "d < 100" "0 \<le> b" using assms(1) by (simp_all add: b_def d_def)
  let ?a = "days_before y + k"
  have a: "?a = 36524 * b + b div 4 + 365 * d + d div 4 + k" using days_before_century [OF y(2,3)] y(1) by simp
  have l: "k = 365 \<longrightarrow> d mod 4 = 3 \<and> (d = 99 \<longrightarrow> b mod 4 = 3)" using assms(4) leap_century [OF y(2,3)] y(1) by auto
  have q: "4 * (b div 4) = b - b mod 4" "4 * (d div 4) = d - d mod 4" "0 \<le> b mod 4" "b mod 4 \<le> 3" "0 \<le> d mod 4" "d mod 4 \<le> 3" "d mod 4 \<le> d"
    using y(2) by (simp_all add: minus_mod_eq_mult_div zmod_le_nonneg_dividend)
  have "(4 * ?a + 3) div 146097 = b"
  proof (rule div_eqI)
    have e: "4 * ?a + 3 = 146097 * b - b mod 4 + 1461 * d - d mod 4 + 4 * k + 3" using a q(1,2) by simp
    show "146097 * b \<le> 4 * ?a + 3" unfolding e using q y(2) assms(2) by linarith
    show "4 * ?a + 3 < 146097 * b + 146097" unfolding e using l q y(3) assms(3) by (cases "d = 99"; cases "k = 365") auto
  qed simp
  moreover have "0 \<le> ?a" unfolding a using y q assms(2) by (simp add: div_int_pos_iff)
  ultimately have B: "(4 * ?a + 3) sdiv 146097 = b" by (simp add: sdiv_nonneg)
  have "(b * 146097) div 4 = (b + 4 * (36524 * b)) div 4" by simp
  then have "(b * 146097) div 4 = 36524 * b + b div 4" by simp
  then have C: "?a - (b * 146097) sdiv 4 = 365 * d + d div 4 + k" using a y(4) by (simp add: sdiv_nonneg)
  let ?c = "365 * d + d div 4 + k"
  have "(4 * ?c + 3) div 1461 = d"
  proof (rule div_eqI)
    have e: "4 * ?c + 3 = 1461 * d - d mod 4 + 4 * k + 3" using q(2) by simp
    show "1461 * d \<le> 4 * ?c + 3" unfolding e using q assms(2) by linarith
    show "4 * ?c + 3 < 1461 * d + 1461" unfolding e using l q assms(3) by (cases "k = 365") auto
  qed simp
  then have D: "(4 * ?c + 3) sdiv 1461 = d" using y(2) assms(2) by (simp add: sdiv_nonneg div_int_pos_iff)
  have "(1461 * d) div 4 = (d + 4 * (365 * d)) div 4" by simp
  then have "(1461 * d) div 4 = 365 * d + d div 4" by simp
  then have E: "?c - (1461 * d) sdiv 4 = k" using y(2) by (simp add: sdiv_nonneg)
  have M: "(5 * k + 2) sdiv 153 = (5 * k + 2) div 153" using assms(2) by (simp add: sdiv_nonneg)
  have m0: "0 \<le> (5 * k + 2) div 153" using assms(2) by (simp add: div_int_pos_iff)
  have s: "days_before y + k - 32044 + 32044 = ?a" by simp
  show ?thesis unfolding get_ymd_def Let_def s B C D E M
    using m0 y(1) by (simp add: sdiv_nonneg Let_def)
qed

definition valid_date :: "int \<Rightarrow> int \<Rightarrow> int \<Rightarrow> bool" where
  "valid_date y m d \<longleftrightarrow> - 4799 \<le> y \<and> m \<in> {1..12} \<and> 1 \<le> d \<and> d \<le> max_day_in_month_for y m"

lemma months: "m \<in> {1..12} \<Longrightarrow> m = 1 \<or> m = 2 \<or> m = 3 \<or> m = 4 \<or> m = 5 \<or> m = 6 \<or> m = 7 \<or> m = 8 \<or> m = 9 \<or> m = 10 \<or> m = 11 \<or> m = (12 :: int)"
  unfolding atLeastAtMost_iff by presburger

text \<open>A month, counted from March of its year.\<close>

definition march_year :: "int \<Rightarrow> int \<Rightarrow> int" where
  "march_year y m = (if m \<le> 2 then y + 4799 else y + 4800)"

definition day_of_year :: "int \<Rightarrow> int \<Rightarrow> int" where
  "day_of_year m d = (153 * (if m \<le> 2 then m + 9 else m - 3) + 2) div 5 + d - 1"

lemma julian_date_days:
  assumes "m \<in> {1..12}" "- 4799 \<le> y"
  shows "julian_date y m d = days_before (march_year y m) + day_of_year m d - 32044"
proof -
  have y: "0 \<le> march_year y m" using assms by (simp add: march_year_def)
  have a: "(14 - m) sdiv 12 = (if m \<le> 2 then 1 else 0)" using months [OF assms(1)] by (auto simp: sdiv_nonneg)
  then have "y + 4800 - (14 - m) sdiv 12 = march_year y m" by (simp add: march_year_def)
  moreover have "m + 12 * ((14 - m) sdiv 12) - 3 = (if m \<le> 2 then m + 9 else m - 3)" using a by simp
  moreover have "0 \<le> 153 * (if m \<le> 2 then m + 9 else m - 3) + 2" using assms(1) by simp
  ultimately show ?thesis using y by (simp add: julian_date_def Let_def sdiv_nonneg days_before_def day_of_year_def)
qed

lemma max_day_cases:
  assumes "- 4799 \<le> y" "m \<in> {1..12}"
  shows "max_day_in_month_for y m = (if m \<in> {4, 6, 9, 11} then 30 else if m = 2 then if leap y then 29 else 28 else 31)"
proof -
  have z: "x smod k = 0 \<longleftrightarrow> x mod k = 0" if "0 < k" for x k :: int
    using that by (auto simp: signed_modulo_int_def sgn_if simp flip: dvd_eq_mod_eq_0)
  show ?thesis using months [OF assms(2)]
    by (elim disjE) (simp_all add: max_day_in_month_for_def Let_def smod_nonneg sdiv_nonneg z leap_def)
qed

lemma leap_4800: "leap (y + 4800) = leap y"
proof -
  have "(y + 4800) mod k = y mod k" if "k dvd 4800" for k using that mod_add_eq [of y k 4800] by auto
  then show ?thesis by (simp add: leap_def)
qed

lemma day_of_year_bounds:
  assumes "valid_date y m d"
  shows "0 \<le> day_of_year m d" "day_of_year m d \<le> 365" "day_of_year m d = 365 \<longrightarrow> leap (march_year y m + 1)"
proof -
  have v: "- 4799 \<le> y" "m \<in> {1..12}" "1 \<le> d" "d \<le> max_day_in_month_for y m" using assms by (auto simp: valid_date_def)
  have b: "d \<le> (if m \<in> {4, 6, 9, 11} then 30 else if m = 2 then if leap y then 29 else 28 else 31)"
    using v(4) unfolding max_day_cases [OF v(1,2)] .
  show "0 \<le> day_of_year m d" using months [OF v(2)] v(3) by (elim disjE; simp add: day_of_year_def)
  have u: "day_of_year m d \<le> (if m = 2 then if leap y then 365 else 364 else 364)"
    using months [OF v(2)] b by (elim disjE; simp add: day_of_year_def split: if_splits)
  then show "day_of_year m d \<le> 365" by (simp split: if_splits)
  show "day_of_year m d = 365 \<longrightarrow> leap (march_year y m + 1)"
    using u leap_4800 [of y] by (auto simp: march_year_def add.commute split: if_splits)
qed

lemma month_of_day:
  assumes "m \<in> {1..12}" "1 \<le> d" "d \<le> (if m \<in> {4, 6, 9, 11} then 30 else if m = 2 then 29 else 31)"
  shows "(5 * day_of_year m d + 2) div 153 = (if m \<le> 2 then m + 9 else m - 3)"
proof (rule div_eqI)
  show "153 * (if m \<le> 2 then m + 9 else m - 3) \<le> 5 * day_of_year m d + 2"
    using months [OF assms(1)] assms(2,3) by (elim disjE; simp add: day_of_year_def)
  show "5 * day_of_year m d + 2 < 153 * (if m \<le> 2 then m + 9 else m - 3) + 153"
    using months [OF assms(1)] assms(2,3) by (elim disjE; simp add: day_of_year_def)
qed simp

lemma day_of_year_month:
  assumes "valid_date y m d"
  defines "M \<equiv> if m \<le> 2 then m + 9 else m - 3"
  shows "(5 * day_of_year m d + 2) div 153 = M" "day_of_year m d - (153 * M + 2) div 5 + 1 = d"
    "M + 3 - 12 * (M div 10) = m" "march_year y m - 4800 + M div 10 = y"
proof -
  have v: "- 4799 \<le> y" "m \<in> {1..12}" "1 \<le> d" "d \<le> max_day_in_month_for y m" using assms(1) by (auto simp: valid_date_def)
  have "d \<le> (if m \<in> {4, 6, 9, 11} then 30 else if m = 2 then 29 else 31)"
    using v(4) unfolding max_day_cases [OF v(1,2)] by (auto split: if_splits)
  then show "(5 * day_of_year m d + 2) div 153 = M"
    using month_of_day [OF v(2,3)] by (simp add: M_def)
  show "day_of_year m d - (153 * M + 2) div 5 + 1 = d" by (simp add: day_of_year_def M_def)
  show "M + 3 - 12 * (M div 10) = m" "march_year y m - 4800 + M div 10 = y"
    using months [OF v(2)] by (elim disjE; simp add: M_def march_year_def)+
qed

lemma get_ymd_julian_date:
  assumes "valid_date y m d"
  shows "get_ymd (julian_date y m d) = (y, m, d)"
proof -
  have v: "- 4799 \<le> y" "m \<in> {1..12}" using assms by (auto simp: valid_date_def)
  have "0 \<le> march_year y m" using v by (simp add: march_year_def)
  note g = get_ymd_days [OF this day_of_year_bounds [OF assms]]
  show ?thesis unfolding julian_date_days [OF v(2,1)] g using day_of_year_month [OF assms] by (simp add: Let_def)
qed

text \<open>The months adjoin each other.\<close>

definition next_month :: "int \<Rightarrow> int \<Rightarrow> int \<times> int" where
  "next_month y m = (if m = 12 then (y + 1, 1) else (y, m + 1))"

lemma days_before_Suc: "days_before (y + 1) = days_before y + (if leap (y + 1) then 366 else 365)"
proof -
  have s: "y div k = (y + 1) div k - (if (y + 1) mod k = 0 then 1 else 0)" if "0 < k" for k
  proof (rule div_eqI [OF that])
    define q r where "q = (y + 1) div k" and "r = (y + 1) mod k"
    have "y + 1 = k * q + r" "0 \<le> r" "r < k" using that by (simp_all add: q_def r_def)
    then show "k * ((y + 1) div k - (if (y + 1) mod k = 0 then 1 else 0)) \<le> y"
      "y < k * ((y + 1) div k - (if (y + 1) mod k = 0 then 1 else 0)) + k"
      unfolding q_def [symmetric] r_def [symmetric] using that by (simp_all add: right_diff_distrib)
  qed
  have "(y + 1) mod 4 = 0" if "(y + 1) mod 100 = 0"
    using that dvd_trans [of 4 100 "y + 1"] by (simp flip: dvd_eq_mod_eq_0)
  moreover have "(y + 1) mod 100 = 0" if "(y + 1) mod 400 = 0"
    using that dvd_trans [of 100 400 "y + 1"] by (simp flip: dvd_eq_mod_eq_0)
  moreover have "days_before (y + 1) = days_before y + 365 + (if (y + 1) mod 4 = 0 then 1 else 0)
      - (if (y + 1) mod 100 = 0 then 1 else 0) + (if (y + 1) mod 400 = 0 then 1 else 0)"
    using s [of 4, simplified] s [of 100, simplified] s [of 400, simplified] unfolding days_before_def distrib_left by linarith
  ultimately show ?thesis unfolding leap_def by presburger
qed

lemma next_month_adjoins:
  assumes "- 4799 \<le> y" "m \<in> {1..12}" "next_month y m = (y', m')"
  shows "julian_date y' m' d = julian_date y m d + max_day_in_month_for y m"
proof -
  have y': "- 4799 \<le> y'" "m' \<in> {1..12}" using assms by (auto simp: next_month_def split: if_splits)
  have a: "y + 1 + 4799 = y + 4800" "y + 4799 + 1 = y + 4800" by simp_all
  show ?thesis unfolding julian_date_days [OF assms(2,1)] julian_date_days [OF y'(2,1)] max_day_cases [OF assms(1,2)]
    using months [OF assms(2)] assms(3) days_before_Suc [of "y + 4799"] leap_4800 [of y]
    by (elim disjE) (auto simp: next_month_def march_year_def day_of_year_def a add.commute [of 4800])
qed

lemma julian_date_plus: "julian_date y m (d + k) = julian_date y m d + k"
  by (simp add: julian_date_def Let_def)

lemma every_day_dated:
  assumes "julian_date (- 4799) 1 1 \<le> j"
  shows "\<exists>y m d. valid_date y m d \<and> julian_date y m d = j"
  using assms
proof (induction j rule: int_ge_induct)
  case base
  have "valid_date (- 4799) 1 1" using max_day_bounds [of "- 4799" 1] by (simp add: valid_date_def)
  then show ?case by blast
next
  case (step j)
  then obtain y m d where v: "valid_date y m d" "julian_date y m d = j" by blast
  show ?case
  proof (cases "d = max_day_in_month_for y m")
    case True
    obtain y' m' where n: "next_month y m = (y', m')" by fastforce
    have "julian_date y' m' 1 = j + 1"
      using next_month_adjoins [OF _ _ n, of 1] v True julian_date_plus [of y m 1 "d - 1"] by (simp add: valid_date_def)
    moreover have "valid_date y' m' 1"
      using n v(1) max_day_bounds [of y' m'] by (auto simp: valid_date_def next_month_def split: if_splits)
    ultimately show ?thesis by blast
  next
    case False
    then have "valid_date y m (d + 1)" "julian_date y m (d + 1) = j + 1"
      using v julian_date_plus [of y m d 1] by (simp_all add: valid_date_def)
    then show ?thesis by blast
  qed
qed



section \<open>Adding seconds and durations\<close>

definition millis_total :: "DateTime \<Rightarrow> int" where
  "millis_total t = 86400000 * m_date t + m_time t"

lemma smod_bound: "0 < k \<Longrightarrow> \<bar>a smod k\<bar> < k" for a k :: int
  by (simp add: signed_modulo_int_def sgn_if)

text \<open>Adding seconds adds them to the moment, in both directions and over any number of days; the time
  of day stays within a day, but the midnight that is reached exactly from below is left as 24:00:00 of
  the day before instead of 00:00:00 of the next.\<close>

theorem add_seconds_correct:
  assumes "0 \<le> m_time t" "m_time t < MILLIS_PER_DAY"
  shows "millis_total (add_seconds n t) = millis_total t + 1000 * n \<and>
    0 \<le> m_time (add_seconds n t) \<and> m_time (add_seconds n t) \<le> MILLIS_PER_DAY \<and>
    (m_time (add_seconds n t) = MILLIS_PER_DAY \<longleftrightarrow> 0 < n \<and> (millis_total t + 1000 * n) mod MILLIS_PER_DAY = 0 \<and> n smod 86400 \<noteq> 0)"
proof -
  define q r where "q = n sdiv 86400" and "r = n smod 86400"
  have n: "n = 86400 * q + r" "\<bar>r\<bar> < 86400" using mult_sdiv_smod_eq [of 86400 n] smod_bound [of 86400 n] by (simp_all add: q_def r_def)
  have sg: "0 < r \<Longrightarrow> 0 < n" "n > 0 \<Longrightarrow> 0 \<le> r" 
    by (auto simp: r_def signed_modulo_int_def sgn_if split: if_splits)
  let ?ms = "m_time t + r * 1000"
  have tot: "millis_total t + 1000 * n = MILLIS_PER_DAY * (m_date t + q) + ?ms"
    using n(1) by (simp add: millis_total_def MILLIS_PER_DAY_def)
  have md: "(millis_total t + 1000 * n) mod MILLIS_PER_DAY = ?ms mod MILLIS_PER_DAY" unfolding tot by simp
  have a: "add_seconds n t = (if ?ms > MILLIS_PER_DAY then \<lparr>m_date = m_date t + q + 1, m_time = ?ms smod MILLIS_PER_DAY\<rparr>
         else if ?ms < 0 then \<lparr>m_date = m_date t + q - 1, m_time = ?ms + MILLIS_PER_DAY\<rparr>
         else \<lparr>m_date = m_date t + q, m_time = ?ms\<rparr>)"
    by (simp add: add_seconds_def Let_def q_def r_def)
  consider (over) "MILLIS_PER_DAY < ?ms" | (under) "?ms < 0" | (within) "0 \<le> ?ms" "?ms \<le> MILLIS_PER_DAY" by linarith
  then show ?thesis
  proof cases
    case over
    have "?ms smod MILLIS_PER_DAY = ?ms - MILLIS_PER_DAY"
      using over n(2) assms mod_pos_pos_trivial [of "?ms - MILLIS_PER_DAY" MILLIS_PER_DAY]
      by (simp add: smod_nonneg MILLIS_PER_DAY_def)
    then show ?thesis using over n assms sg unfolding a md
      by (auto simp: millis_total_def MILLIS_PER_DAY_def)
  next
    case under
    then show ?thesis using n assms unfolding a md by (auto simp: millis_total_def MILLIS_PER_DAY_def)
  next
    case within
    then have d: "?ms mod MILLIS_PER_DAY = 0 \<longleftrightarrow> ?ms = 0 \<or> ?ms = MILLIS_PER_DAY" by (auto simp: MILLIS_PER_DAY_def)
    have "?ms = MILLIS_PER_DAY \<longleftrightarrow> 0 < n \<and> (?ms = 0 \<or> ?ms = MILLIS_PER_DAY) \<and> r \<noteq> 0"
      using sg assms by (auto simp: MILLIS_PER_DAY_def)
    then show ?thesis using within n assms unfolding a md r_def [symmetric] d
      by (auto simp: millis_total_def MILLIS_PER_DAY_def)
  qed
qed

theorem add_seconds_correct_witness:
  "add_seconds 60 \<lparr>m_date = 5, m_time = 86340000\<rparr> = \<lparr>m_date = 5, m_time = 86400000\<rparr> \<and>
   millis_total (add_seconds 60 \<lparr>m_date = 5, m_time = 86340000\<rparr>) = millis_total \<lparr>m_date = 5, m_time = 86340000\<rparr> + 60000"
  using add_seconds_correct [of "\<lparr>m_date = 5, m_time = 86340000\<rparr>" 60]
  by (simp add: add_seconds_def MILLIS_PER_DAY_def smod_nonneg sdiv_nonneg)

lemma carry_days_correct:
  assumes "- 4799 \<le> y" "m \<in> {1..12}" "1 \<le> d" "carry_days y m d = (y', m', d')"
  shows "valid_date y' m' d' \<and> julian_date y' m' d' = julian_date y m d"
  using assms
proof (induction y m d rule: carry_days.induct)
  case (1 y m d)
  show ?case
  proof (cases "d > max_day_in_month_for y m")
    case True
    have m: "(m + 1 - 1) sdiv 12 = (if m = 12 then 1 else 0)" "(m + 1 - 1) smod 12 + 1 = (if m = 12 then 1 else m + 1)"
      using "1.prems"(2) by (auto simp: sdiv_nonneg smod_nonneg)
    obtain yn mn where n: "next_month y m = (yn, mn)" by fastforce
    then have e: "y + (m + 1 - 1) sdiv 12 = yn" "(m + 1 - 1) smod 12 + 1 = mn"
      unfolding m by (auto simp: next_month_def split: if_splits)
    have c: "carry_days yn mn (d - max_day_in_month_for y m) = (y', m', d')"
      using "1.prems"(3,4) True e unfolding carry_days.simps [of y m d] by (simp add: Let_def)
    have "- 4799 \<le> yn" "mn \<in> {1..12}" using "1.prems"(1,2) n by (auto simp: next_month_def split: if_splits)
    then have "valid_date y' m' d' \<and> julian_date y' m' d' = julian_date yn mn (d - max_day_in_month_for y m)"
      using "1.IH"(2) [OF _ True] c True "1.prems"(3) e by (simp add: Let_def)
    then show ?thesis
      using next_month_adjoins [OF "1.prems"(1,2) n] julian_date_plus [of y m "d - max_day_in_month_for y m" "max_day_in_month_for y m"]
      by simp
  next
    case False
    then show ?thesis using "1.prems" unfolding carry_days.simps [of y m d] by (auto simp: valid_date_def)
  qed
qed

definition seconds_total :: "DateTime \<Rightarrow> int" where
  "seconds_total t = 86400 * m_date t + m_time t div 1000"

definition duration_seconds :: "Duration \<Rightarrow> int" where
  "duration_seconds u = 86400 * du_mday u + 3600 * du_hour u + 60 * du_min u + du_sec u"

definition forward :: "Duration \<Rightarrow> bool" where
  "forward u \<longleftrightarrow> du_year u = 0 \<and> du_mon u = 0 \<and> 0 \<le> du_mday u \<and> 0 \<le> du_hour u \<and> 0 \<le> du_min u \<and> 0 \<le> du_sec u"

lemma carry_sum:
  fixes sec :: int
  assumes "sec = t0 + n1" "mn = t1 + n2 + q1" "hr = t2 + n3 + q2"
    and "60 * q1 + r1 = sec" "60 * q2 + r2 = mn" "24 * q3 + r3 = hr" "60 * T1 + t0 = T" "60 * t2 + t1 = T1"
  shows "86400 * (D + n4 + q3) + (3600 * r3 + 60 * r2 + r1) = 86400 * D + T + (86400 * n4 + 3600 * n3 + 60 * n2 + n1)"
  using assms by algebra



text \<open>A day taken off the first of January goes through a month 0 of 28 days.\<close>

lemma january_minus_a_day:
  "add_duration_date_time (ascii ''P-1D'') (DateTime_of 2000 1 1 0 0 0 0) = DateTime_of 1999 12 28 0 0 0 0"
  by code_simp

section \<open>The XML form\<close>

text \<open>The check of the text accepts dates and times that do not exist.\<close>

lemma xml_accepts_nonsense: "is_valid_xml_datetime (ascii ''2001-02-31T24:60:60Z'')"
  by code_simp

lemma xml_short_is_undefined: "DateTime_of_xml (ascii ''2001-02-31'') = Inl UB"
  by code_simp

lemma digit_no_space: "is_digit b \<Longrightarrow> \<not> is_space b \<and> b \<noteq> dash \<and> b \<noteq> plus_sign"
  by (simp add: is_digit_unat is_space_def word_le_nat_alt dash_def plus_sign_def) (auto simp: word_unat_eq_iff)

lemma scan_int_digits:
  assumes "list_all is_digit ds" "length ds = Suc w"
  shows "scan_int (Suc w) (ds @ r) = Some (int (digits_val ds), r)"
proof -
  obtain b bs where ds: "ds = b # bs" using assms(2) by (cases ds) auto
  then have b: "\<not> is_space b" "b \<noteq> dash" "b \<noteq> plus_sign" using assms(1) digit_no_space [of b] by auto
  have "dropWhile is_space (ds @ r) = ds @ r" using b by (simp add: ds)
  moreover have "take (Suc w) (ds @ r) = ds" using assms(2) by simp
  moreover have "unsign ds = (False, ds)" using b by (simp add: unsign_def ds)
  moreover have "takeWhile is_digit ds = ds" using assms(1) by (simp add: takeWhile_eq_all_conv list_all_iff)
  ultimately show ?thesis using ds by (simp add: scan_int_def Let_def assms(2))
qed

lemma length_dec_ge: "10 ^ w \<le> n \<Longrightarrow> w < length (dec n)"
  using digits_val_less [OF dec_digits, of n] by (metis digits_val_dec le_less_trans nat_power_less_imp_less zero_less_numeral)

lemma pad0_zpad: "0 \<le> n \<Longrightarrow> n \<le> 99 \<Longrightarrow> pad0 n = zpad 2 (nat n)"
proof (cases "n \<le> 9")
  case True
  assume "0 \<le> n"
  then show ?thesis using True length_dec_le [of "nat n" 1] by (simp add: pad0_def zpad_def dec_int_def dec.simps [of "nat n"])
next
  case False
  assume "0 \<le> n" "n \<le> 99"
  then have "10 \<le> nat n" "nat n < 100" using False by linarith+
  then have "length (dec (nat n)) = 2" using length_dec_ge [of 1 "nat n"] length_dec_le [of "nat n" 2] by simp
  then show ?thesis using False by (simp add: pad0_def zpad_def dec_int_def)
qed

lemma scan_pad0: "0 \<le> n \<Longrightarrow> n \<le> 99 \<Longrightarrow> scan_int 2 (pad0 n @ r) = Some (n, r)"
  using scan_int_digits [OF zpad_digits [of 2 "nat n"], of 1 r] by (simp add: pad0_zpad numeral_2_eq_2)

lemma scan_year: "1000 \<le> n \<Longrightarrow> n \<le> 9999 \<Longrightarrow> scan_int 4 (dec_int n @ r) = Some (n, r)"
proof -
  assume n: "1000 \<le> n" "n \<le> 9999"
  then have "1000 \<le> nat n" "nat n < 10000" by linarith+
  then have "length (dec (nat n)) = 4" using length_dec_ge [of 3 "nat n"] length_dec_le [of "nat n" 4] by simp
  then show ?thesis using scan_int_digits [OF dec_digits [of "nat n"], of 3 r] n by (simp add: dec_int_def numeral_eq_Suc)
qed

lemma scan_xml:
  assumes "1000 \<le> y" "y \<le> 9999" "0 \<le> a" "a \<le> 99" "0 \<le> b" "b \<le> 99" "0 \<le> c" "c \<le> 99" "0 \<le> d" "d \<le> 99"
    "0 \<le> e" "e \<le> 99"
  shows "xml_fields (dec_int y @ [45] @ pad0 a @ [45] @ pad0 b @ [84] @ pad0 c @ [58] @ pad0 d @ [58] @ pad0 e @ [90]) =
    [y, a, b, c, d, e]"
  by (simp add: xml_fields_def scan_pad0 scan_year assms)

lemma hms_sum: "60 * b + c = a \<Longrightarrow> 60 * d + e = b \<Longrightarrow> 3600 * d + 60 * e + c = a" for a :: int
  by auto

text \<open>The XML text of a date and time with whole seconds, between the years 1000 and 9999, is read back as the
  same date and time.\<close>

theorem xml_roundtrip:
  assumes "valid_date y mo d" "1000 \<le> y" "y \<le> 9999"
    and "m_date t = julian_date y mo d" "0 \<le> m_time t" "m_time t < MILLIS_PER_DAY" "m_time t mod 1000 = 0"
  shows "DateTime_of_xml (to_xml_date_time t) = Inr t"
proof -
  define T where "T = m_time t div 1000"
  have T: "0 \<le> T" "T < 86400" "m_time t = 1000 * T" 
    using assms(5-7) by (auto simp: T_def MILLIS_PER_DAY_def)
  have hms: "get_hms (m_time t) = (T div 3600, T div 60 mod 60, T mod 60, m_time t mod 1000)"
    using assms(5) T(1) by (simp add: get_hms_def Let_def sdiv_nonneg smod_nonneg T_def div_int_pos_iff)
  have h: "0 \<le> T div 3600" "T div 3600 \<le> 99" "0 \<le> T div 60 mod 60" "T div 60 mod 60 \<le> 59" "0 \<le> T mod 60" "T mod 60 \<le> 59"
    using T(1,2) by (simp_all add: div_int_pos_iff) 
  have md: "0 \<le> mo" "mo \<le> 99" "0 \<le> d" "d \<le> 99"
    using assms(1) max_day_bounds [of y mo] by (auto simp: valid_date_def)
  have x: "to_xml_date_time t = dec_int y @ [45] @ pad0 mo @ [45] @ pad0 d @ [84] @ pad0 (T div 3600) @ [58] @
      pad0 (T div 60 mod 60) @ [58] @ pad0 (T mod 60) @ [90]"
    by (simp add: to_xml_date_time_def Let_def assms(4) get_ymd_julian_date [OF assms(1)] hms)
  have f: "xml_fields (to_xml_date_time t) = [y, mo, d, T div 3600, T div 60 mod 60, T mod 60]"
    unfolding x by (rule scan_xml [OF assms(2,3) md h(1,2,3) order_trans [OF h(4)] h(5) order_trans [OF h(6)]]) simp_all
  have "T div 60 div 60 = T div 3600" by (simp flip: zdiv_zmult2_eq)
  then have "3600 * (T div 3600) + 60 * (T div 60 mod 60) + T mod 60 = T"
    using mult_div_mod_eq [of 60 "T div 60"] by (intro hms_sum [OF mult_div_mod_eq [of 60 T]]) simp
  then show ?thesis using assms(4) T(3) by (simp add: DateTime_of_xml_def f DateTime_of_def make_hms_def)
qed

theorem xml_roundtrip_witness:
  "DateTime_of_xml (to_xml_date_time (DateTime_of 2020 2 29 23 59 7 0)) = Inr (DateTime_of 2020 2 29 23 59 7 0) \<and>
   to_xml_date_time (DateTime_of 2020 2 29 23 59 7 0) = ascii ''2020-02-29T23:59:07Z''"
proof -
  have t: "valid_date 2020 2 29" "m_date (DateTime_of 2020 2 29 23 59 7 0) = julian_date 2020 2 29"
    "0 \<le> m_time (DateTime_of 2020 2 29 23 59 7 0)" "m_time (DateTime_of 2020 2 29 23 59 7 0) < MILLIS_PER_DAY"
    "m_time (DateTime_of 2020 2 29 23 59 7 0) mod 1000 = 0" by code_simp+
  have "to_xml_date_time (DateTime_of 2020 2 29 23 59 7 0) = ascii ''2020-02-29T23:59:07Z''" by code_simp
  with xml_roundtrip [OF t(1) _ _ t(2-5)] show ?thesis by simp
qed

text \<open>The numbers behind the unique strings increase: each is larger than the last, whatever the clock
  says, as long as the last is not the largest there is.\<close>

lemma unique_increases:
  assumes "lst \<noteq> - 1"
  shows "lst < unique sec usec lst"
proof -
  have "1 + lst \<noteq> 0" using assms by (simp add: add_eq_0_iff)
  then have "lst < lst + 1" using unatSuc [of lst] by (simp add: word_less_nat_alt add.commute)
  then show ?thesis by (simp add: unique_def Let_def)
qed

end
