(* ===== verification/Spec2Isabelle.thy ===== *)
theory Spec2Isabelle
  imports Record_Spec Table_Spec Tuple_Spec Aggregate_Spec Exec_Spec Join_Spec Build_Spec Session_Spec Server
    Seda_Spec Timer_Stage Event_Chain Date_Spec
begin

text \<open>
  A small relational database server, \<^verbatim>\<open>src/src/observer\<close>: its storage engine and the execution of
  its statements.

  \<^bigskip>
  \<^bold>\<open>The parts and how they interact.\<close>  A table keeps its rows in a paged data file and each of its
  indexes in another.  All files are read and written through one buffer pool, whose frames are found
  by an LRU replacer.  The record manager divides a page into slots with a bit map of the used ones;
  the B+ tree keeps nodes of keys and record ids in pages.  The table builds a record from the values
  of a statement, stores it, enters it into the indexes and logs the operation with the transaction;
  scans go through a filter and through the transaction, which decides by a field of the record who
  sees it; commit and rollback go through the log.  A database is a catalogue of tables.  A request is a
  text that ends with a zero byte; it is parsed into a statement and checked, a query is turned into
  nodes or, when it has joins or subqueries, into executors that read the tables, and any other statement
  calls the table; outside a transaction of several statements each is committed or rolled back at once.

  \<^bigskip>
  \<^bold>\<open>Theories.\<close>

  \<^item> \<open>Prelude\<close>: return codes, results, bytes and words in memory, \<^verbatim>\<open>memcpy\<close>.  Memory is a function
    from offsets to bytes; a C int in a record or in a page is four bytes of it.
  \<^item> \<open>Bitmap\<close> (\<^verbatim>\<open>bitmap.cpp\<close>), \<open>Lru_Replacer\<close> (\<^verbatim>\<open>lru_replacer.cpp\<close>), \<open>Os_File\<close>: the
    file-system calls; each call may fail, as the operating system decides.
  \<^item> \<open>Buffer_Pool\<close> (\<^verbatim>\<open>disk_buffer_pool.cpp\<close>): \<^verbatim>\<open>BPManager\<close> and \<^verbatim>\<open>DiskBufferPool\<close>.
    \<open>Pool_Invariant\<close>, \<open>Pool_Correct\<close>, \<open>Pool_Pages\<close> and \<open>Pool_Files\<close> prove the invariant of the
    frames, the page table and the free list, and that it is kept; \<open>Pool_Spec\<close> states the contract: a
    file is the map of its pages (\<open>view\<close>), whether a page is buffered or on disk, and an operation on one
    page leaves the others as they are.
  \<^item> \<open>Record_Page\<close>, \<open>Record_File\<close> (\<^verbatim>\<open>record_manager.cpp\<close>): the layout of a page and the operations
    on its slots; the handlers, the scanner and the text pages over the pool.  A page abstracts to the map
    from slots to records; \<open>Record_Spec\<close> shows that the handlers refine the operations on this map.
  \<^item> \<open>Key_Compare\<close>, \<open>Bplus_Node\<close>, \<open>Bplus_Tree\<close> (\<^verbatim>\<open>bplus_tree.cpp\<close>,
    \<^verbatim>\<open>bplus_tree_index.cpp\<close>): the order of the keys, the operations on one node, and the handler and
    the scanners over the pool.  \<open>Bplus_Spec\<close>: a node abstracts to lists of keys and pointers, and
    insertion, split, merge and redistribution are insertion, division and concatenation of these lists.
    \<open>Bplus_Access\<close>, \<open>Bplus_Search\<close>: the whole tree on pages; the descent returns, and finds the leaf whose
    range of keys holds the key.
  \<^item> \<open>Values\<close>, \<open>Date_Util\<close> (\<^verbatim>\<open>parse.cpp\<close>, \<^verbatim>\<open>meta_util.cpp\<close>): the values of a statement in
    C memory, \<^verbatim>\<open>strcmp\<close> and \<^verbatim>\<open>strlen\<close>, the conversion of an int to a float, and date literals.
  \<^item> \<open>Table_Meta\<close> (\<^verbatim>\<open>table_meta.cpp\<close>, \<^verbatim>\<open>field_meta.cpp\<close>, \<^verbatim>\<open>index_meta.cpp\<close>): the columns
    of a table and their places in a record.
  \<^item> \<open>Condition_Filter\<close> (\<^verbatim>\<open>condition_filter.cpp\<close>): the filters on records.
  \<^item> \<open>Trx\<close> (\<^verbatim>\<open>trx.cpp\<close>): the log of a transaction and the visibility of records.
  \<^item> \<open>Table\<close>, \<open>Table_Scan\<close> (\<^verbatim>\<open>table.cpp\<close>): all operations of a table, with commit and rollback over
    the tables; \<open>Table_Spec\<close>: their properties.

  \<^item> \<open>Float32\<close>: single-precision arithmetic, as C++ compiles \<^verbatim>\<open>float\<close>: results rounded to the nearest,
    ties to even; integers of at most 24 bits are exact.
  \<^item> \<open>Query\<close> (\<^verbatim>\<open>parse_defs.h\<close>, \<^verbatim>\<open>parse.cpp\<close>): the statements and the functions by which the grammar
    builds and frees them.
  \<^item> \<open>Tuple_Value\<close>, \<open>Tuple\<close> (\<^verbatim>\<open>value.h\<close>, \<^verbatim>\<open>tuple.cpp\<close>): values, tuples, schemas and sets, the
    iterator over a product, the conversion of records.  \<open>Tuple_Spec\<close>: the iterator enumerates the product, and
    a record made of the values of an insertion is read back as these values.
  \<^item> \<open>Expression\<close> (\<^verbatim>\<open>util.cpp\<close>): expressions, exact on small integers, and the comparison of
    \<^verbatim>\<open>order by\<close>; \<open>Tuple_Filter\<close>: the filters of \<^verbatim>\<open>condition_filter.cpp\<close> on tuples.
  \<^item> \<open>Aggregate\<close> (\<^verbatim>\<open>aggregate_execution_node.h\<close>): the aggregation; \<open>Aggregate_Spec\<close>: it groups by
    its keys, through the locale of keys that the comparison orders.
  \<^item> \<open>Database\<close> (\<^verbatim>\<open>db.cpp\<close>, \<^verbatim>\<open>default_handler.cpp\<close>): the catalogue of the open tables and the calls by
    name; \<open>Load_Data\<close>: the import of files; \<open>Storage_Stage\<close> (\<^verbatim>\<open>default_storage_stage.cpp\<close>,
    \<^verbatim>\<open>session.cpp\<close>): the statements other than queries.
  \<^item> \<open>Result_Text\<close>, \<open>Exec_Nodes\<close> (\<^verbatim>\<open>execution_node.cpp\<close>, \<^verbatim>\<open>exp_execution_node.cpp\<close>), \<open>Select_Stage\<close>
    (\<^verbatim>\<open>execute_stage.cpp\<close>): the checks of a query, and queries without joins and subqueries.
  \<^item> \<open>Executors\<close> (\<^verbatim>\<open>scan_executor.cpp\<close>, \<^verbatim>\<open>nest_loop_join_executor.cpp\<close>, \<^verbatim>\<open>sub_query_executor.cpp\<close>,
    \<^verbatim>\<open>agg_executor.cpp\<close>), \<open>Executor_Build\<close> (\<^verbatim>\<open>executor_builder.cpp\<close>): joins and subqueries.  An executor
    is a tree; the values of subqueries are computed while the tree is built.  The fuel of \<open>build\<close> is the
    depth of the query.
  \<^item> \<open>Execute_Stage\<close>: a request from its text to its answer; \<open>Server\<close> (\<^verbatim>\<open>server.cpp\<close>,
    \<^verbatim>\<open>session_stage.cpp\<close>, \<^verbatim>\<open>client.cpp\<close>): the messages between client and server.
  \<^item> \<open>Exec_Spec\<close>: a query that passes the check finds its columns; the product of several tables and the order
    of the rows.  \<open>Join_Spec\<close>: a join is a selection over the product, and what a subquery keeps.
    \<open>Build_Spec\<close>: the recursion over nested queries ends, by two builders that are compared step by step.
    \<open>Session_Spec\<close>: between the requests of a client no operation is left to commit, an invariant of the
    steps of its session.

  \<^item> \<open>Stage_Event\<close> (\<^verbatim>\<open>stage_event.cpp\<close>, \<^verbatim>\<open>callback.cpp\<close>, \<^verbatim>\<open>timeout_info.cpp\<close>): events with
    their callbacks and deadlines.  \<open>Seda_Pool\<close> (\<^verbatim>\<open>stage.cpp\<close>, \<^verbatim>\<open>thread_pool.cpp\<close>): the critical
    sections of stages and service threads as steps that interleave in any order, with the invariant that
    counts the promises to take an event; \<open>Seda_Spec\<close>: order, safety of disconnecting, and that the pool comes
    to rest only when everything is handled.  \<open>Timer_Stage\<close> (\<^verbatim>\<open>timer_stage.cpp\<close>): the queue of timed
    events and its thread.  \<open>Event_Chain\<close>: the events and callbacks of a request on its way through the stages
    of the server; twenty calls are enough for every request.
  \<^item> \<open>Date_Time\<close> (\<^verbatim>\<open>datetime.h\<close>, \<^verbatim>\<open>datetime.cpp\<close>): day numbers, times, durations and their texts;
    \<open>Date_Spec\<close>: day numbers are the Gregorian calendar, and what adding does.

  \<^bigskip>
  \<^bold>\<open>Conventions.\<close>  A definition has the name of the function it models; a call returns the return
  code or the result (\<open>'a result\<close>) and the changed state.  \<open>UB\<close> is a result of its own for what C++ leaves
  undefined: a null pointer, a failed assertion, an overflow of a signed integer.  Loops over
  page numbers read from disk need not end; they are partial functions whose value is \<open>None\<close> when they do
  not, and the theorems on searches and insertions state that there is a result.  The loops of the bit map and
  over the pages of a file have structural or measured recursion, so they are total.  \<^verbatim>\<open>strcmp\<close> and
  \<^verbatim>\<open>strlen\<close> look at \<open>BP_PAGE_SIZE\<close> bytes at most and are \<open>UB\<close> beyond: every string of the program
  lies in a page or in a statement shorter than one.  Floats are read from their 32 bits as rationals.
  Uninitialised memory is an argument where the code reads it.

  \<^bigskip>
  \<^bold>\<open>Not modelled.\<close>  The generated scanner and parser, which are an argument of a request; JSON
  (third-party); opening sockets and the event loop of libevent; killing the threads of a pool; of the common
  library the log, configuration files, metrics, file helpers and the start of the process; \<^verbatim>\<open>InnerJoinExecutor\<close>,
  which nothing uses; an aggregation whose \<^verbatim>\<open>init\<close> was not reached because the one before it failed; queries of a
  database in which a table could not be dropped.
\<close>

end
